(* ===== verification/KP_Prelude.thy ===== *)
theory KP_Prelude
  imports Main "HOL-Library.Sublist"
begin

text \<open>
  Shared vocabulary of the development: Go's strings and the functions of package
  \<open>strings\<close> and \<open>strconv\<close> that the source calls, loops that stop at the first error, tables
  of rows with SQL-like updates, and the lemma collections the components use.
  A Go string is a byte sequence, here a \<^typ>\<open>string\<close>; Go's \<open>(value, error)\<close> results are sums
  whose left summand is the error.
\<close>

named_theorems go_defs \<open>definitions of library functions, unfolded on demand\<close>
named_theorems row_simps \<open>field projections of updated rows\<close>

section \<open>Strings\<close>

text \<open>\<open>strings.HasPrefix\<close> and \<open>strings.TrimPrefix\<close>.\<close>

definition has_prefix :: "string \<Rightarrow> string \<Rightarrow> bool" where
  "has_prefix p s \<longleftrightarrow> take (length p) s = p"

definition trim_prefix :: "string \<Rightarrow> string \<Rightarrow> string" where
  "trim_prefix p s = (if has_prefix p s then drop (length p) s else s)"

lemma has_prefix_append [simp]: "has_prefix p (p @ s)"
  by (simp add: has_prefix_def)

lemma has_prefixE:
  assumes "has_prefix p s"
  obtains r where "s = p @ r"
proof -
  have "s = p @ drop (length p) s"
    using assms append_take_drop_id [of "length p" s] by (simp add: has_prefix_def)
  then show thesis by (rule that)
qed

lemma has_prefix_iff: "has_prefix p s \<longleftrightarrow> (\<exists>r. s = p @ r)"
  by (auto elim: has_prefixE)

lemma trim_prefix_append [simp]: "trim_prefix p (p @ s) = s"
  by (simp add: trim_prefix_def)

text \<open>
  \<open>strings.TrimSpace\<close> removes Unicode white space at both ends. The white space code points,
  as UTF-8 byte sequences: tab to carriage return, space, U+0085, U+00A0, U+1680, U+2000 to
  U+200A, U+2028, U+2029, U+202F, U+205F, U+3000.
\<close>

definition byte :: "nat \<Rightarrow> char" where
  "byte n = char_of n"

definition white_space :: "string list" where
  "white_space =
     map (\<lambda>n. [byte n]) [9, 10, 11, 12, 13, 32] @
     [[byte 194, byte 133], [byte 194, byte 160], [byte 225, byte 154, byte 128]] @
     map (\<lambda>n. [byte 226, byte 128, byte n])
       [128, 129, 130, 131, 132, 133, 134, 135, 136, 137, 138, 168, 169, 175] @
     [[byte 226, byte 129, byte 159], [byte 227, byte 128, byte 128]]"

lemma white_space_nonempty: "w \<in> set white_space \<Longrightarrow> 0 < length w"
  by (auto simp: white_space_def)

function strip_seqs :: "string list \<Rightarrow> string \<Rightarrow> string" where
  "strip_seqs ws s =
     (case find (\<lambda>w. w \<noteq> [] \<and> has_prefix w s) ws of
        None \<Rightarrow> s
      | Some w \<Rightarrow> strip_seqs ws (drop (length w) s))"
  by pat_completeness auto
termination
  by (relation "measure (\<lambda>(ws, s). length s)")
    (auto simp: find_Some_iff has_prefix_iff)

declare strip_seqs.simps [simp del]

definition trim_space :: "string \<Rightarrow> string" where
  "trim_space s = rev (strip_seqs (map rev white_space) (rev (strip_seqs white_space s)))"

lemma strip_seqs_suffix: "\<exists>p. s = p @ strip_seqs ws s"
proof (induction ws s rule: strip_seqs.induct)
  case (1 ws s)
  show ?case
  proof (cases "find (\<lambda>w. w \<noteq> [] \<and> has_prefix w s) ws")
    case None
    then show ?thesis by (simp add: strip_seqs.simps [of ws s])
  next
    case (Some w)
    with 1 obtain p where "drop (length w) s = p @ strip_seqs ws (drop (length w) s)" by blast
    then have "s = (take (length w) s @ p) @ strip_seqs ws (drop (length w) s)"
      by (metis append.assoc append_take_drop_id)
    then have "\<exists>p. s = p @ strip_seqs ws (drop (length w) s)" by blast
    with Some show ?thesis by (simp add: strip_seqs.simps [of ws s])
  qed
qed

lemma strip_seqs_stops: "w \<in> set ws \<Longrightarrow> w \<noteq> [] \<Longrightarrow> \<not> has_prefix w (strip_seqs ws s)"
proof (induction ws s rule: strip_seqs.induct)
  case (1 ws s)
  show ?case
  proof (cases "find (\<lambda>w. w \<noteq> [] \<and> has_prefix w s) ws")
    case None
    with "1.prems" have "\<not> has_prefix w s" by (auto simp: find_None_iff)
    with None show ?thesis by (simp add: strip_seqs.simps [of ws s])
  next
    case (Some v)
    with 1 show ?thesis by (simp add: strip_seqs.simps [of ws s])
  qed
qed

lemma strip_seqs_id: "(\<And>w. w \<in> set ws \<Longrightarrow> w \<noteq> [] \<Longrightarrow> \<not> has_prefix w s) \<Longrightarrow> strip_seqs ws s = s"
  by (subst strip_seqs.simps) (auto split: option.splits simp: find_Some_iff)

lemma has_prefix_extend: "has_prefix w u \<Longrightarrow> has_prefix w (u @ v)"
  by (auto simp: has_prefix_iff)

lemma trim_space_idem [simp]: "trim_space (trim_space s) = trim_space s"
proof -
  let ?front = "strip_seqs white_space s"
  let ?rear = "strip_seqs (map rev white_space) (rev ?front)"
  have ws: "w \<noteq> []" if "w \<in> set white_space" for w
    using white_space_nonempty [OF that] by auto
  obtain p where "rev ?front = p @ ?rear" using strip_seqs_suffix by blast
  then have split: "?front = rev ?rear @ rev p" by (metis rev_append rev_rev_ident)
  have "\<not> has_prefix w (rev ?rear)" if "w \<in> set white_space" for w
    using strip_seqs_stops [OF that ws [OF that], of s] has_prefix_extend [of w "rev ?rear" "rev p"] split by metis
  then have "strip_seqs white_space (rev ?rear) = rev ?rear" by (intro strip_seqs_id) auto
  moreover have "strip_seqs (map rev white_space) ?rear = ?rear"
    by (intro strip_seqs_id) (use ws in \<open>auto simp: strip_seqs_stops\<close>)
  ultimately show ?thesis by (simp add: trim_space_def)
qed

lemma trim_space_Nil [simp]: "trim_space [] = []"
proof -
  have "strip_seqs ws [] = []" for ws using strip_seqs_suffix [of "[]" ws] by simp
  then show ?thesis by (simp add: trim_space_def)
qed

text \<open>A string of visible ASCII characters has nothing to trim.\<close>

definition visible :: "char \<Rightarrow> bool" where
  "visible c \<longleftrightarrow> 32 < (of_char c :: nat) \<and> (of_char c :: nat) < 127"

lemma white_space_invisible: "w \<in> set white_space \<Longrightarrow> c \<in> set w \<Longrightarrow> \<not> visible c"
  by (auto simp: white_space_def visible_def byte_def)

lemma trim_space_visible:
  assumes "list_all visible s"
  shows "trim_space s = s"
proof -
  have free: "\<not> has_prefix w u" if "w \<noteq> []" "set w \<inter> Collect visible = {}" "set u \<subseteq> Collect visible" for w u
    using that by (cases w) (auto simp: has_prefix_iff)
  have "strip_seqs white_space s = s"
    by (rule strip_seqs_id, rule free) (use assms white_space_invisible in \<open>auto simp: list_all_iff\<close>)
  moreover have "strip_seqs (map rev white_space) (rev s) = rev s"
    by (rule strip_seqs_id, rule free) (use assms white_space_invisible in \<open>auto simp: list_all_iff\<close>)
  ultimately show ?thesis by (simp add: trim_space_def)
qed

text \<open>\<open>strings.Split\<close> with a one-byte separator.\<close>

fun split_on :: "char \<Rightarrow> string \<Rightarrow> string list" where
  "split_on c [] = [[]]"
| "split_on c (x # xs) =
     (if x = c then [] # split_on c xs
      else case split_on c xs of [] \<Rightarrow> [[x]] | p # ps \<Rightarrow> (x # p) # ps)"

lemma split_on_nonempty [simp]: "split_on c s \<noteq> []"
  by (induction s) (auto split: list.splits)

lemma split_on_no_sep: "p \<in> set (split_on c s) \<Longrightarrow> c \<notin> set p"
  by (induction s arbitrary: p) (auto split: if_splits list.splits)

text \<open>A separator that does not occur in the first component makes joining injective.\<close>

lemma separator_inj:
  "c \<notin> set a \<Longrightarrow> c \<notin> set a' \<Longrightarrow> a @ c # b = a' @ c # b' \<longleftrightarrow> a = a' \<and> b = b'"
proof (induction a arbitrary: a')
  case Nil
  then show ?case by (cases a') auto
next
  case (Cons x a)
  then show ?case by (cases a') auto
qed

text \<open>\<open>strings.Join\<close>.\<close>

fun join_on :: "string \<Rightarrow> string list \<Rightarrow> string" where
  "join_on sep [] = []"
| "join_on sep [x] = x"
| "join_on sep (x # y # zs) = x @ sep @ join_on sep (y # zs)"

lemma join_split_on: "join_on [c] (split_on c s) = s"
proof (induction s)
  case (Cons x xs)
  obtain p ps where s: "split_on c xs = p # ps" by (metis split_on_nonempty neq_Nil_conv)
  with Cons show ?case by (cases ps) auto
qed simp

lemma split_on_append_sep:
  assumes "c \<notin> set p"
  shows "split_on c (p @ c # s) = p # split_on c s"
  using assms by (induction p) auto

lemma split_on_no_char: "c \<notin> set p \<Longrightarrow> split_on c p = [p]"
  by (induction p) auto

lemma split_join_on:
  assumes "ps \<noteq> []" and "\<forall>p \<in> set ps. c \<notin> set p"
  shows "split_on c (join_on [c] ps) = ps"
  using assms
  by (induction "[c]" ps rule: join_on.induct) (auto simp: split_on_append_sep split_on_no_char)

text \<open>\<open>strings.ReplaceAll\<close> for a non-empty pattern: leftmost, non-overlapping.\<close>

function replace_all :: "string \<Rightarrow> string \<Rightarrow> string \<Rightarrow> string" where
  "replace_all old new s =
     (case s of
        [] \<Rightarrow> []
      | c # cs \<Rightarrow>
          if old \<noteq> [] \<and> has_prefix old s
          then new @ replace_all old new (drop (length old) s)
          else c # replace_all old new cs)"
  by pat_completeness auto
termination
  by (relation "measure (\<lambda>(old, new, s). length s)") (auto simp: has_prefix_iff)

declare replace_all.simps [simp del]

text \<open>\<open>strings.Contains\<close>.\<close>

fun contains_str :: "string \<Rightarrow> string \<Rightarrow> bool" where
  "contains_str sub [] = (sub = [])"
| "contains_str sub (c # cs) = (has_prefix sub (c # cs) \<or> contains_str sub cs)"

lemma contains_str_iff: "contains_str sub s \<longleftrightarrow> (\<exists>p r. s = p @ sub @ r)"
proof (induction s)
  case (Cons c cs)
  show ?case
  proof
    assume "contains_str sub (c # cs)"
    then consider (pre) "has_prefix sub (c # cs)" | (rest) "contains_str sub cs" by auto
    then show "\<exists>p r. c # cs = p @ sub @ r"
    proof cases
      case pre
      then obtain r where "c # cs = [] @ sub @ r" by (auto elim: has_prefixE)
      then show ?thesis by blast
    next
      case rest
      with Cons.IH obtain p r where "cs = p @ sub @ r" by blast
      then have "c # cs = (c # p) @ sub @ r" by simp
      then show ?thesis by blast
    qed
  next
    assume "\<exists>p r. c # cs = p @ sub @ r"
    then obtain p r where pr: "c # cs = p @ sub @ r" by blast
    show "contains_str sub (c # cs)"
    proof (cases p)
      case Nil
      with pr have "has_prefix sub (c # cs)" by simp
      then show ?thesis by simp
    next
      case (Cons d q)
      with pr have "cs = q @ sub @ r" by simp
      with Cons.IH show ?thesis by auto
    qed
  qed
qed simp

subsection \<open>Decimal numerals\<close>

definition is_digit :: "char \<Rightarrow> bool" where
  "is_digit c \<longleftrightarrow> c \<in> set ''0123456789''"

definition digit_value :: "char \<Rightarrow> nat" where
  "digit_value c = length (takeWhile (\<lambda>d. d \<noteq> c) ''0123456789'')"

definition is_lower :: "char \<Rightarrow> bool" where
  "is_lower c \<longleftrightarrow> c \<in> set ''abcdefghijklmnopqrstuvwxyz''"

definition is_upper :: "char \<Rightarrow> bool" where
  "is_upper c \<longleftrightarrow> c \<in> set ''ABCDEFGHIJKLMNOPQRSTUVWXYZ''"

definition decimal_value :: "string \<Rightarrow> nat" where
  "decimal_value ds = foldl (\<lambda>n c. 10 * n + digit_value c) 0 ds"

text \<open>
  \<open>strconv.ParseUint(s, 10, bits)\<close>: at least one digit, only digits, below \<open>2 ^ bits\<close>.
  \<open>strconv.Atoi\<close>: an optional sign and a 64-bit signed value.
\<close>

definition parse_uint :: "nat \<Rightarrow> string \<Rightarrow> nat option" where
  "parse_uint bits s =
     (if s \<noteq> [] \<and> list_all is_digit s \<and> decimal_value s < 2 ^ bits
      then Some (decimal_value s) else None)"

definition parse_int64 :: "string \<Rightarrow> int option" where
  "parse_int64 s =
     (let neg = (s \<noteq> [] \<and> hd s = CHR ''-'');
          ds = (if s \<noteq> [] \<and> (hd s = CHR ''-'' \<or> hd s = CHR ''+'') then tl s else s);
          n = int (decimal_value ds)
      in if ds = [] \<or> \<not> list_all is_digit ds then None
         else if neg then (if n \<le> 2 ^ 63 then Some (- n) else None)
         else (if n < 2 ^ 63 then Some n else None))"

text \<open>\<open>strconv.Itoa\<close> and the verb \<open>%d\<close> for natural numbers.\<close>

definition digit_char :: "nat \<Rightarrow> char" where
  "digit_char d = ''0123456789'' ! d"

fun show_nat :: "nat \<Rightarrow> string" where
  "show_nat n = (if n < 10 then [digit_char n] else show_nat (n div 10) @ [digit_char (n mod 10)])"

declare show_nat.simps [simp del]

lemma digit_char_value: "d < 10 \<Longrightarrow> is_digit (digit_char d) \<and> digit_value (digit_char d) = d"
proof -
  assume "d < 10"
  then have "d \<in> {0, 1, 2, 3, 4, 5, 6, 7, 8, 9}" by auto
  then show ?thesis by (elim insertE) (simp_all add: digit_char_def is_digit_def digit_value_def)
qed

lemma decimal_value_snoc: "decimal_value (ds @ [c]) = 10 * decimal_value ds + digit_value c"
  by (simp add: decimal_value_def)

lemma show_nat_digits: "show_nat n \<noteq> [] \<and> list_all is_digit (show_nat n) \<and> decimal_value (show_nat n) = n"
proof (induction n rule: show_nat.induct)
  case (1 n)
  show ?case
  proof (cases "n < 10")
    case True
    with digit_char_value [of n] show ?thesis
      by (simp add: show_nat.simps [of n] decimal_value_def)
  next
    case False
    with 1 digit_char_value [of "n mod 10"] show ?thesis
      by (simp add: show_nat.simps [of n] decimal_value_snoc)
  qed
qed

lemma parse_uint_show_nat: "n < 2 ^ bits \<Longrightarrow> parse_uint bits (show_nat n) = Some n"
  using show_nat_digits [of n] by (simp add: parse_uint_def)

lemma show_nat_inj: "show_nat m = show_nat n \<Longrightarrow> m = n"
  using show_nat_digits [of m] show_nat_digits [of n] by metis

lemma no_digit_show_nat: "\<not> is_digit c \<Longrightarrow> c \<notin> set (show_nat n)"
  using show_nat_digits [of n] by (auto simp: list_all_iff)

subsection \<open>Anchored identifier patterns\<close>

text \<open>The patterns \<open>^[head][tail]{0,n}$\<close> of the source.\<close>

definition ident_match :: "(char \<Rightarrow> bool) \<Rightarrow> (char \<Rightarrow> bool) \<Rightarrow> nat \<Rightarrow> string \<Rightarrow> bool" where
  "ident_match head tail n s \<longleftrightarrow>
     (case s of [] \<Rightarrow> False | c # cs \<Rightarrow> head c \<and> list_all tail cs \<and> length cs \<le> n)"

lemma ident_match_chars:
  "ident_match head tail n s \<Longrightarrow> c \<in> set s \<Longrightarrow> head c \<or> tail c"
  by (auto simp: ident_match_def list_all_iff split: list.splits)

lemma ident_match_length: "ident_match head tail n s \<Longrightarrow> 0 < length s \<and> length s \<le> Suc n"
  by (auto simp: ident_match_def split: list.splits)

text \<open>A restriction of a map to some keys.\<close>

lemma map_of_filter_key: "map_of (filter (\<lambda>(k, p). P k) kvs) k = (if P k then map_of kvs k else None)"
  by (induction kvs) auto

section \<open>Loops that stop at the first error\<close>

text \<open>A \<open>for\<close> loop over a list whose body updates a state or returns an error.\<close>

fun fold_err :: "('a \<Rightarrow> 's \<Rightarrow> 'e + 's) \<Rightarrow> 'a list \<Rightarrow> 's \<Rightarrow> 'e + 's" where
  "fold_err f [] s = Inr s"
| "fold_err f (x # xs) s = (case f x s of Inl e \<Rightarrow> Inl e | Inr s' \<Rightarrow> fold_err f xs s')"

lemma fold_err_append:
  "fold_err f (xs @ ys) s = (case fold_err f xs s of Inl e \<Rightarrow> Inl e | Inr s' \<Rightarrow> fold_err f ys s')"
  by (induction xs arbitrary: s) (auto split: sum.splits)

lemma fold_err_invariant:
  assumes "fold_err f xs s = Inr s'" and "I s"
    and "\<And>x s s'. x \<in> set xs \<Longrightarrow> I s \<Longrightarrow> f x s = Inr s' \<Longrightarrow> I s'"
  shows "I s'"
  using assms
proof (induction xs arbitrary: s)
  case (Cons x xs)
  from Cons.prems(1) obtain s1 where s1: "f x s = Inr s1" "fold_err f xs s1 = Inr s'"
    by (auto split: sum.splits)
  have "I s1" using Cons.prems(2,3) s1(1) by (metis list.set_intros(1))
  then show ?case using Cons.IH [OF s1(2)] Cons.prems(3) by (metis list.set_intros(2))
qed simp

text \<open>A loop over positions and elements, with an invariant indexed by the position.\<close>

lemma fold_err_enumerate:
  assumes "fold_err f (List.enumerate 0 xs) s = Inr s'" and "I 0 s"
    and "\<And>k s s'. k < length xs \<Longrightarrow> I k s \<Longrightarrow> f (k, xs ! k) s = Inr s' \<Longrightarrow> I (Suc k) s'"
  shows "I (length xs) s'"
  using assms
proof (induction xs arbitrary: s' rule: rev_induct)
  case (snoc x xs)
  from snoc.prems(1) obtain s1 where s1: "fold_err f (List.enumerate 0 xs) s = Inr s1" "f (length xs, x) s1 = Inr s'"
    by (auto simp: fold_err_append enumerate_append_eq split: sum.splits)
  have "I (length xs) s1"
  proof (rule snoc.IH [OF s1(1) snoc.prems(2)])
    fix k t t' assume "k < length xs" "I k t" "f (k, xs ! k) t = Inr t'"
    then show "I (Suc k) t'" using snoc.prems(3) [of k t t'] by (simp add: nth_append)
  qed
  with s1(2) snoc.prems(3) [of "length xs" s1 s'] show ?case by simp
qed simp

text \<open>
  What each iteration establishes survives the later ones when they keep it: the shape of
  every "checked all elements" argument below.
\<close>

lemma fold_err_each_inv:
  assumes "fold_err f xs s = Inr s'" and "I s"
    and "\<And>x s s'. x \<in> set xs \<Longrightarrow> I s \<Longrightarrow> f x s = Inr s' \<Longrightarrow> I s' \<and> P x s'"
    and "\<And>x y s s'. x \<in> set xs \<Longrightarrow> y \<in> set xs \<Longrightarrow> I s \<Longrightarrow> P x s \<Longrightarrow> f y s = Inr s' \<Longrightarrow> P x s'"
    and "x \<in> set xs"
  shows "P x s'"
proof -
  have "I s' \<and> (\<forall>y \<in> set ys. P y s')" if "fold_err f ys s = Inr s'" "set ys \<subseteq> set xs" for ys
    using that
  proof (induction ys arbitrary: s' rule: rev_induct)
    case (snoc y ys)
    from snoc.prems(1) obtain s1 where s1: "fold_err f ys s = Inr s1" "f y s1 = Inr s'"
      by (auto simp: fold_err_append split: sum.splits)
    have y: "y \<in> set xs" and ys: "set ys \<subseteq> set xs" using snoc.prems(2) by auto
    have IH: "I s1" "\<forall>z \<in> set ys. P z s1" using snoc.IH [OF s1(1) ys] by blast+
    have "P z s'" if "z \<in> set ys" for z
      using assms(4) [of z y s1 s'] IH s1(2) y ys that by blast
    moreover have "I s' \<and> P y s'" using assms(3) [OF y IH(1) s1(2)] .
    ultimately show ?case by simp
  qed (simp add: assms(2))
  with assms(1,5) show ?thesis by blast
qed

lemma fold_err_each:
  assumes "fold_err f xs s = Inr s'"
    and "\<And>x s s'. x \<in> set xs \<Longrightarrow> f x s = Inr s' \<Longrightarrow> P x s'"
    and "\<And>x y s s'. y \<in> set xs \<Longrightarrow> P x s \<Longrightarrow> f y s = Inr s' \<Longrightarrow> P x s'"
    and "x \<in> set xs"
  shows "P x s'"
proof (rule fold_err_each_inv [OF assms(1), of "\<lambda>_. True"])
  show "True \<and> P x s'" if "x \<in> set xs" "f x s = Inr s'" for x s s' using assms(2) [OF that] by simp
  show "P x s'" if "y \<in> set xs" "P x s" "f y s = Inr s'" for x y s s' using assms(3) [OF that] .
qed (use assms(4) in simp_all)

text \<open>
  Loops that reject a repeated name: each iteration checks its element and that its name has
  not been seen, and adds the name; some also collect an entry. Their success is exactly
  that every element passes and the names are distinct.
\<close>

lemma fold_err_seen:
  assumes "\<And>x seen r. x \<in> set xs \<Longrightarrow> f x seen = Inr r \<longleftrightarrow> P x \<and> name x \<notin> set seen \<and> r = name x # seen"
  shows "fold_err f xs seen = Inr r \<longleftrightarrow>
    (\<forall>x \<in> set xs. P x) \<and> distinct (map name xs) \<and> set (map name xs) \<inter> set seen = {} \<and>
    r = rev (map name xs) @ seen"
  using assms
proof (induction xs arbitrary: seen)
  case (Cons x xs)
  have "fold_err f (x # xs) seen = Inr r \<longleftrightarrow> (\<exists>s. f x seen = Inr s \<and> fold_err f xs s = Inr r)"
    by (auto split: sum.splits)
  also have "\<dots> \<longleftrightarrow> P x \<and> name x \<notin> set seen \<and> fold_err f xs (name x # seen) = Inr r"
    using Cons.prems by auto
  finally show ?case using Cons.IH [of "name x # seen"] Cons.prems by auto
qed auto

lemma fold_err_seen_entries:
  assumes "\<And>x seen es r. x \<in> set xs \<Longrightarrow>
      f x (seen, es) = Inr r \<longleftrightarrow> P x \<and> name x \<notin> set seen \<and> r = (name x # seen, entry x # es)"
  shows "fold_err f xs (seen, es) = Inr r \<longleftrightarrow>
    (\<forall>x \<in> set xs. P x) \<and> distinct (map name xs) \<and> set (map name xs) \<inter> set seen = {} \<and>
    r = (rev (map name xs) @ seen, rev (map entry xs) @ es)"
  using assms
proof (induction xs arbitrary: seen es)
  case (Cons x xs)
  have "fold_err f (x # xs) (seen, es) = Inr r \<longleftrightarrow>
      (\<exists>s. f x (seen, es) = Inr s \<and> fold_err f xs s = Inr r)"
    by (auto split: sum.splits)
  also have "\<dots> \<longleftrightarrow> P x \<and> name x \<notin> set seen \<and> fold_err f xs (name x # seen, entry x # es) = Inr r"
    using Cons.prems by auto
  finally show ?case using Cons.IH [of "name x # seen" "entry x # es"] Cons.prems by auto
qed auto

text \<open>A loop whose check reads what the earlier iterations collected.\<close>

lemma fold_err_collect:
  assumes "\<And>x es r. x \<in> set xs \<Longrightarrow> f x es = Inr r \<longleftrightarrow> P x es \<and> r = rev (entries x) @ es"
  shows "fold_err f xs es = Inr r \<longleftrightarrow>
    (\<forall>k < length xs. P (xs ! k) (rev (concat (map entries (take k xs))) @ es)) \<and>
    r = rev (concat (map entries xs)) @ es"
  using assms
proof (induction xs arbitrary: es)
  case (Cons x xs)
  have "fold_err f (x # xs) es = Inr r \<longleftrightarrow> (\<exists>s. f x es = Inr s \<and> fold_err f xs s = Inr r)"
    by (auto split: sum.splits)
  also have "\<dots> \<longleftrightarrow> P x es \<and> fold_err f xs (rev (entries x) @ es) = Inr r"
    using Cons.prems by auto
  finally show ?case
    using Cons.IH [of "rev (entries x) @ es"] Cons.prems by (auto simp: All_less_Suc2)
qed auto

section \<open>Tables\<close>

text \<open>
  A table is the list of its rows. \<open>UPDATE t SET \<dots> WHERE p\<close> maps the rows that satisfy
  \<open>p\<close>; the number of affected rows is the number of rows that satisfied \<open>p\<close>.
\<close>

definition update_where :: "('r \<Rightarrow> bool) \<Rightarrow> ('r \<Rightarrow> 'r) \<Rightarrow> 'r list \<Rightarrow> 'r list" where
  "update_where p f rows = map (\<lambda>r. if p r then f r else r) rows"

definition rows_affected :: "('r \<Rightarrow> bool) \<Rightarrow> 'r list \<Rightarrow> nat" where
  "rows_affected p rows = length (filter p rows)"

lemma update_where_Nil [simp]: "update_where p f [] = []"
  and update_where_Cons [simp]:
    "update_where p f (r # rs) = (if p r then f r else r) # update_where p f rs"
  and length_update_where [simp]: "length (update_where p f rows) = length rows"
  by (simp_all add: update_where_def)

lemma rows_affected_Nil [simp]: "rows_affected p [] = 0"
  and rows_affected_Cons [simp]:
    "rows_affected p (r # rs) = (if p r then Suc (rows_affected p rs) else rows_affected p rs)"
  by (simp_all add: rows_affected_def)

lemma set_update_where: "set (update_where p f rows) = (\<lambda>r. if p r then f r else r) ` set rows"
  by (simp add: update_where_def)

lemma update_where_none: "rows_affected p rows = 0 \<Longrightarrow> update_where p f rows = rows"
  by (induction rows) (auto split: if_splits)

lemma rows_affected_pos: "0 < rows_affected p rows \<longleftrightarrow> (\<exists>r \<in> set rows. p r)"
  by (induction rows) auto

text \<open>Lookup by primary key, and the rows of a key.\<close>

definition find_row :: "('r \<Rightarrow> 'k) \<Rightarrow> 'k \<Rightarrow> 'r list \<Rightarrow> 'r option" where
  "find_row key k rows = find (\<lambda>r. key r = k) rows"

lemma find_row_Nil [simp]: "find_row key k [] = None"
  and find_row_Cons [simp]: "find_row key k (r # rs) = (if key r = k then Some r else find_row key k rs)"
  by (simp_all add: find_row_def)

lemma find_row_key: "find_row key k rows = Some r \<Longrightarrow> key r = k \<and> r \<in> set rows"
  by (induction rows) (auto split: if_splits)

lemma find_row_None: "find_row key k rows = None \<longleftrightarrow> k \<notin> key ` set rows"
  by (induction rows) auto

lemma find_row_append: "find_row key k (xs @ ys) = (case find_row key k xs of None \<Rightarrow> find_row key k ys | Some r \<Rightarrow> Some r)"
  by (induction xs) auto

lemma distinct_find_row: "distinct (map key rows) \<Longrightarrow> r \<in> set rows \<Longrightarrow> find_row key (key r) rows = Some r"
  by (induction rows) auto

lemma rows_affected_key_le: "distinct (map key rows) \<Longrightarrow> \<forall>r. p r \<longrightarrow> key r = k \<Longrightarrow> rows_affected p rows \<le> 1"
proof (induction rows)
  case (Cons r rs)
  then show ?case
  proof (cases "p r")
    case True
    with Cons.prems have "\<not> p x" if "x \<in> set rs" for x using that by auto
    then have "rows_affected p rs = 0" using rows_affected_pos [of p rs] by auto
    then show ?thesis by simp
  qed auto
qed simp

text \<open>
  The contract of an \<open>UPDATE\<close> on a table with a primary key: it does not write the key. Lookups
  then commute with the update, and the table keeps its keys.
\<close>

locale keyed_update =
  fixes key :: "'r \<Rightarrow> 'k" and upd :: "'r \<Rightarrow> 'r"
  assumes keeps_key: "key (upd r) = key r"
begin

lemma keys: "map key (update_where p upd rows) = map key rows"
  by (induction rows) (auto simp: keeps_key)

lemma find_updated:
  "find_row key k (update_where p upd rows) = map_option (\<lambda>r. if p r then upd r else r) (find_row key k rows)"
  by (induction rows) (auto simp: keeps_key)

lemma distinct_keys: "distinct (map key rows) \<Longrightarrow> distinct (map key (update_where p upd rows))"
  by (simp add: keys)

lemma find_other: "\<forall>r. p r \<longrightarrow> key r \<noteq> k \<Longrightarrow> find_row key k (update_where p upd rows) = find_row key k rows"
  by (induction rows) (auto simp: keeps_key)

end

text \<open>\<open>ORDER BY \<dots> LIMIT 1\<close> with nulls last: the first row whose rank is minimal.\<close>

definition rank_le :: "nat option \<Rightarrow> nat option \<Rightarrow> bool" where
  "rank_le a b \<longleftrightarrow> (case b of None \<Rightarrow> True | Some n \<Rightarrow> (case a of None \<Rightarrow> False | Some m \<Rightarrow> m \<le> n))"

fun first_min :: "('r \<Rightarrow> nat option) \<Rightarrow> 'r list \<Rightarrow> 'r option" where
  "first_min rank [] = None"
| "first_min rank (r # rs) =
     (case first_min rank rs of
        None \<Rightarrow> Some r
      | Some m \<Rightarrow> if rank_le (rank r) (rank m) then Some r else Some m)"

lemma rank_le_refl [simp]: "rank_le a a"
  by (simp add: rank_le_def split: option.splits)

lemma rank_le_linear: "rank_le a b \<or> rank_le b a"
  by (auto simp: rank_le_def split: option.splits)

lemma rank_le_trans: "rank_le a b \<Longrightarrow> rank_le b c \<Longrightarrow> rank_le a c"
  by (auto simp: rank_le_def split: option.splits)

lemma first_min_None [simp]: "first_min rank rs = None \<longleftrightarrow> rs = []"
  by (cases rs) (auto split: option.splits)

lemma first_min_Some:
  "first_min rank rs = Some m \<Longrightarrow> m \<in> set rs \<and> (\<forall>r \<in> set rs. rank_le (rank m) (rank r))"
proof (induction rs arbitrary: m)
  case (Cons r rs)
  show ?case
  proof (cases "first_min rank rs")
    case None
    with Cons.prems show ?thesis by simp
  next
    case (Some m')
    with Cons.IH have IH: "m' \<in> set rs" "\<forall>r \<in> set rs. rank_le (rank m') (rank r)" by auto
    show ?thesis
    proof (cases "rank_le (rank r) (rank m')")
      case True
      with Cons.prems Some IH show ?thesis by (auto intro: rank_le_trans)
    next
      case False
      with rank_le_linear have "rank_le (rank m') (rank r)" by blast
      with Cons.prems Some False IH show ?thesis by auto
    qed
  qed
qed simp

end
