(* ===== verification/Domain.thy ===== *)
theory Domain
  imports KP_Prelude
begin

text \<open>
  The data model of package \<open>internal/domain\<close> and of the plugin manifest: status constants,
  JSON documents, plans and their steps, pipelines, pipeline runs, operations, artifacts,
  discovered resources. Every struct is a record with the fields in the source's order, each
  field prefixed by an abbreviation of its struct. A timestamp is a natural number of
  seconds and a \<open>*time.Time\<close> an optional one.
\<close>

type_synonym timestamp = nat

section \<open>JSON\<close>

text \<open>
  A decoded JSON value, Go's \<open>any\<close> as \<open>encoding/json\<close> fills it. An object is an association
  list from keys to values; a number is kept as its literal (\<open>json.Number\<close>).
  A \<open>json.RawMessage\<close> is empty, a text that does not begin with a JSON document, a document
  followed by further text, or exactly one document; the model identifies texts that denote the same document.
\<close>

datatype json =
    JNull
  | JBool bool
  | JNum string
  | JStr string
  | JArr "json list"
  | JObj "(string \<times> json) list"

datatype RawMessage = RawEmpty | RawInvalid string | RawTrailing json string | RawDoc json

text \<open>\<open>json.Unmarshal(raw, &v)\<close> for \<open>v any\<close>: empty input is an error, as invalid input is.\<close>

fun unmarshal :: "RawMessage \<Rightarrow> json option" where
  "unmarshal RawEmpty = None"
| "unmarshal (RawInvalid _) = None"
| "unmarshal (RawTrailing _ _) = None"
| "unmarshal (RawDoc v) = Some v"

definition marshal :: "json \<Rightarrow> RawMessage" where
  "marshal v = RawDoc v"

lemma unmarshal_marshal [simp]: "unmarshal (marshal v) = Some v"
  by (simp add: marshal_def)

lemma unmarshal_Some: "unmarshal r = Some v \<longleftrightarrow> r = RawDoc v"
  by (cases r) auto

section \<open>Status values\<close>

text \<open>
  The constants \<open>Operation*\<close> and \<open>Step*\<close> share their strings, and the source copies operation
  states into stages, so both are one type. \<open>Skipped\<close> is the literal \<open>"skipped"\<close> of stage
  cleanups and \<open>NoStatus\<close> the empty string; experiments and their trials also have the states
  \<open>"initializing"\<close> and \<open>"initialized"\<close>.
\<close>

datatype status =
    Ready | Queued | Prechecking | Running | Verifying | Succeeded | Failed | Canceled
  | Pending | Skipped | NoStatus | Initializing | Initialized

datatype health_status = HealthUnknown | HealthHealthy | HealthDegraded | HealthUnhealthy

section \<open>Plans\<close>

record ArtifactContract =
  ac_Type :: string
  ac_Version :: string

record ArtifactInput =
  ai_Name :: string
  ai_Type :: string
  ai_Version :: string
  ai_ArtifactID :: string
  ai_FromStep :: string
  ai_FromOutput :: string

record ArtifactOutput =
  ao_Name :: string
  ao_Type :: string
  ao_Version :: string
  ao_MediaType :: string
  ao_Source :: string
  ao_Sensitive :: bool

record ResolvedArtifact =
  ra_ID :: string
  ra_Type :: string
  ra_Version :: string
  ra_MediaType :: string
  ra_Digest :: string
  ra_SizeBytes :: int
  ra_Sensitive :: bool
  ra_Value :: RawMessage

record ResourceEffect =
  re_Action :: string
  re_ExternalID :: string
  re_Kind :: string
  re_Name :: string

record PlanStep =
  ps_ID :: string
  ps_Name :: string
  ps_Input :: RawMessage
  ps_Mutating :: bool
  ps_Cleanup :: bool
  ps_ArtifactInputs :: "ArtifactInput list"
  ps_Outputs :: "ArtifactOutput list"
  ps_ResolvedInputs :: "(string \<times> ResolvedArtifact) list"
  ps_Effects :: "ResourceEffect list"

record Plan =
  plan_PluginID :: string
  plan_Steps :: "PlanStep list"

record ValidationIssue =
  vi_Level :: string
  vi_Path :: string
  vi_Message :: string

record ValidationReport =
  vr_Valid :: bool
  vr_Issues :: "ValidationIssue list"
  vr_CheckedAt :: timestamp

record HealthReport =
  hr_Status :: health_status
  hr_Summary :: string
  hr_Checks :: "(string \<times> string) list"

section \<open>Pipelines\<close>

record PipelineBinding =
  pb_Path :: string
  pb_FromStage :: string
  pb_FromOutput :: string

record PipelineStage =
  pst_DependsOn :: "string list"
  pst_ID :: string
  pst_PluginID :: string
  pst_Title :: string
  pst_Spec :: RawMessage
  pst_Bindings :: "PipelineBinding list"

record PipelineOutput =
  po_Stage :: string
  po_Output :: string
  po_Type :: string
  po_Version :: string

record PipelineDefinition =
  pd_MaxParallelStages :: int
  pd_Stages :: "PipelineStage list"
  pd_Result :: PipelineOutput
  pd_CleanupAfterRun :: bool

record ResolvedPipelineStage =
  rps_ID :: string
  rps_PluginID :: string
  rps_PluginVersion :: string
  rps_PluginDigest :: string
  rps_Spec :: RawMessage
  rps_Bindings :: "PipelineBinding list"
  rps_Plan :: Plan

record PipelineResolution =
  pr_Stages :: "ResolvedPipelineStage list"
  pr_Result :: ArtifactContract

record Pipeline =
  pl_ID :: string
  pl_WorkspaceID :: string
  pl_Name :: string
  pl_Description :: string
  pl_Definition :: PipelineDefinition
  pl_Resolution :: PipelineResolution
  pl_Validation :: ValidationReport
  pl_Hash :: string

record PipelineRunStage =
  st_ID :: string
  st_RunID :: string
  st_Position :: int
  st_StageID :: string
  st_PluginID :: string
  st_Title :: string
  st_Status :: status
  st_OperationID :: string
  st_Spec :: RawMessage
  st_Error :: string
  st_StartedAt :: "timestamp option"
  st_CompletedAt :: "timestamp option"
  st_CleanupOperationID :: string
  st_CleanupStatus :: status
  st_CleanupError :: string
  st_CleanupStartedAt :: "timestamp option"
  st_CleanupCompletedAt :: "timestamp option"

text \<open>An empty identifier or terminal status stands for a null column, as in the source.\<close>

record PipelineRun =
  run_ApplicationNamespace :: string
  run_PauseBeforeStage :: string
  run_ExecutionRequested :: bool
  run_InitializedAt :: "timestamp option"
  run_Phase :: string
  run_ID :: string
  run_PipelineID :: string
  run_WorkspaceID :: string
  run_ClusterResourceID :: string
  run_OwnerUserID :: string
  run_IsolationMode :: string
  run_Name :: string
  run_Status :: status
  run_PipelineHash :: string
  run_ResultType :: string
  run_ResultVersion :: string
  run_ResultArtifactID :: string
  run_CancelRequested :: bool
  run_TerminalStatus :: status
  run_Error :: string
  run_CreatedAt :: timestamp
  run_QueuedAt :: "timestamp option"
  run_ScheduledFor :: "timestamp option"
  run_StartedAt :: "timestamp option"
  run_CompletedAt :: "timestamp option"
  run_Stages :: "PipelineRunStage list"

section \<open>Operations and artifacts\<close>

record OperationStep =
  os_ID :: string
  os_OperationID :: string
  os_Position :: int
  os_Name :: string
  os_Status :: status
  os_Input :: RawMessage
  os_Result :: RawMessage
  os_Health :: RawMessage
  os_Error :: string
  os_StartedAt :: "timestamp option"
  os_CompletedAt :: "timestamp option"

record Artifact =
  art_ID :: string
  art_OperationID :: string
  art_StepID :: string
  art_OutputName :: string
  art_Name :: string
  art_Type :: string
  art_Version :: string
  art_MediaType :: string
  art_StorageKey :: string
  art_Digest :: string
  art_SizeBytes :: int
  art_StorageDigest :: string
  art_StoredSizeBytes :: int
  art_EncryptionNonce :: string
  art_Sensitive :: bool
  art_VerifiedAt :: timestamp

record Operation =
  op_ID :: string
  op_WorkspaceID :: string
  op_PluginID :: string
  op_PluginVersion :: string
  op_PluginDigest :: string
  op_Title :: string
  op_Status :: status
  op_Spec :: RawMessage
  op_Plan :: Plan
  op_Validation :: ValidationReport
  op_PlanHash :: string
  op_CancelRequested :: bool
  op_Error :: string
  op_CreatedAt :: timestamp
  op_QueuedAt :: "timestamp option"
  op_StartedAt :: "timestamp option"
  op_CompletedAt :: "timestamp option"
  op_Steps :: "OperationStep list"
  op_Artifacts :: "Artifact list"

record DiscoveredResource =
  dr_ExternalID :: string
  dr_Kind :: string
  dr_Name :: string
  dr_State :: string
  dr_Metadata :: RawMessage

record InfrastructureResource =
  ir_ID :: string
  ir_Provider :: string
  ir_ExternalID :: string
  ir_WorkspaceID :: string
  ir_Kind :: string
  ir_Name :: string
  ir_State :: string
  ir_Ownership :: string
  ir_Protection :: string
  ir_Metadata :: RawMessage

text \<open>Managed resources, without the connectivity report that only the API shows.\<close>

record ManagedResource =
  mg_ID :: string
  mg_WorkspaceID :: string
  mg_Name :: string
  mg_Kind :: string
  mg_Provider :: string
  mg_ConnectionID :: string
  mg_PluginID :: string
  mg_PluginVersion :: string
  mg_PluginDigest :: string
  mg_Spec :: RawMessage
  mg_OperationID :: string
  mg_PipelineID :: string
  mg_PipelineRunID :: string
  mg_ArtifactID :: string
  mg_DeletionOperationID :: string
  mg_DeletionPipelineID :: string
  mg_DeletionPipelineRunID :: string
  mg_RecreationPipelineID :: string
  mg_RecreationPipelineRunID :: string
  mg_Status :: string
  mg_Error :: string
  mg_Validation :: ValidationReport

record ManagedResourceDependency =
  mrd_ResourceID :: string
  mrd_DependsOnID :: string
  mrd_Relation :: string

section \<open>Plugin manifests\<close>

text \<open>The fields of \<open>plugins.Manifest\<close> that the engine and the validator read.\<close>

record Manifest =
  mf_ID :: string
  mf_Provider :: string
  mf_Name :: string
  mf_Version :: string
  mf_Schema :: RawMessage
  mf_ArtifactInputs :: "ArtifactContract list"
  mf_ArtifactOutputs :: "ArtifactContract list"
  mf_Capabilities :: "string list"
  mf_RuntimeDigest :: string

definition HasCapability :: "Manifest \<Rightarrow> string \<Rightarrow> bool" where
  "HasCapability m capability \<longleftrightarrow> capability \<in> set (mf_Capabilities m)"

definition Matches :: "Manifest \<Rightarrow> string \<Rightarrow> string \<Rightarrow> bool" where
  "Matches m version digest \<longleftrightarrow> mf_Version m = version \<and> mf_RuntimeDigest m = digest"

end
