(* ===== verification/Json.thy ===== *)
theory Json
  imports Domain
begin

text \<open>
  JSON documents as the workflow code handles them: object fields, JSON pointers
  (\<open>setPointer\<close> of \<open>workflows/validate.go\<close> and the walk of \<open>ExtractJSON\<close> in
  \<open>artifacts/contract.go\<close>), replacement of placeholder tokens (\<open>replaceValue\<close>), and the compact
  text \<open>json.Marshal\<close> produces, which the size limit of artifacts measures.
\<close>

section \<open>Objects\<close>

fun obj_set :: "string \<Rightarrow> 'v \<Rightarrow> (string \<times> 'v) list \<Rightarrow> (string \<times> 'v) list" where
  "obj_set k v [] = [(k, v)]"
| "obj_set k v ((k', v') # kvs) = (if k' = k then (k, v) # kvs else (k', v') # obj_set k v kvs)"

lemma map_of_obj_set: "map_of (obj_set k v kvs) = (map_of kvs)(k \<mapsto> v)"
  by (induction kvs) auto

lemma fst_set_obj_set: "set (map fst (obj_set k v kvs)) = insert k (set (map fst kvs))"
  by (induction k v kvs rule: obj_set.induct) (simp_all add: insert_commute)

lemma distinct_obj_set: "distinct (map fst kvs) \<Longrightarrow> distinct (map fst (obj_set k v kvs))"
proof (induction k v kvs rule: obj_set.induct)
  case (2 k v k' v' kvs)
  then show ?case using fst_set_obj_set [of k v kvs] by auto
qed simp

text \<open>A field of a value, Go's \<open>m[key]\<close> after a type assertion to an object.\<close>

fun json_field :: "string \<Rightarrow> json \<Rightarrow> json option" where
  "json_field k (JObj kvs) = map_of kvs k"
| "json_field k _ = None"

section \<open>Pointers\<close>

text \<open>Reference tokens are unescaped: first \<open>~1\<close> to a slash, then \<open>~0\<close> to a tilde.\<close>

definition unescape_token :: "string \<Rightarrow> string" where
  "unescape_token t = replace_all ''~0'' ''~'' (replace_all ''~1'' ''/'' t)"

definition pointer_tokens :: "string \<Rightarrow> string list" where
  "pointer_tokens pointer = map unescape_token (split_on CHR ''/'' (trim_prefix ''/'' pointer))"

datatype pointer_error =
    PointerRoot
  | EmptySegment
  | ParentMissing "string list"
  | ArrayIndexInvalid string
  | NotContainer string
  | PathUnresolved

text \<open>The loop of \<open>setPointer\<close>; \<open>pre\<close> holds the segments already followed, for the message.\<close>

fun set_segments :: "string list \<Rightarrow> string list \<Rightarrow> string \<Rightarrow> json \<Rightarrow> pointer_error + json" where
  "set_segments pre [] v current = Inl PathUnresolved"
| "set_segments pre (segment # rest) v current =
     (case current of
        JObj kvs \<Rightarrow>
          (if rest = [] then Inr (JObj (obj_set segment (JStr v) kvs))
           else case map_of kvs segment of
              None \<Rightarrow> Inl (ParentMissing (pre @ [segment]))
            | Some next \<Rightarrow>
                (case set_segments (pre @ [segment]) rest v next of
                   Inl e \<Rightarrow> Inl e
                 | Inr next' \<Rightarrow> Inr (JObj (obj_set segment next' kvs))))
      | JArr xs \<Rightarrow>
          (case parse_int64 segment of
             None \<Rightarrow> Inl (ArrayIndexInvalid segment)
           | Some position \<Rightarrow>
               if position < 0 \<or> int (length xs) \<le> position then Inl (ArrayIndexInvalid segment)
               else if rest = [] then Inr (JArr (xs[nat position := JStr v]))
               else (case set_segments (pre @ [segment]) rest v (xs ! nat position) of
                   Inl e \<Rightarrow> Inl e
                 | Inr next' \<Rightarrow> Inr (JArr (xs[nat position := next']))))
      | _ \<Rightarrow> Inl (NotContainer segment))"

definition setPointer :: "json \<Rightarrow> string \<Rightarrow> string \<Rightarrow> pointer_error + json" where
  "setPointer root pointer v =
     (if \<not> has_prefix ''/'' pointer \<or> pointer = ''/'' then Inl PointerRoot
      else let segments = pointer_tokens pointer
           in if [] \<in> set segments then Inl EmptySegment
              else set_segments [] segments v root)"

datatype extract_error = SourceMissing | SourceIndexInvalid | SourceNotContainer

text \<open>The walk of \<open>ExtractJSON\<close>: array indexes are unsigned and below \<open>2 ^ 31\<close>.\<close>

fun get_segments :: "string list \<Rightarrow> json \<Rightarrow> extract_error + json" where
  "get_segments [] current = Inr current"
| "get_segments (token # rest) current =
     (case current of
        JObj kvs \<Rightarrow>
          (case map_of kvs token of
             None \<Rightarrow> Inl SourceMissing
           | Some next \<Rightarrow> get_segments rest next)
      | JArr xs \<Rightarrow>
          (case parse_uint 31 token of
             None \<Rightarrow> Inl SourceIndexInvalid
           | Some index \<Rightarrow>
               if length xs \<le> index then Inl SourceIndexInvalid
               else get_segments rest (xs ! index))
      | _ \<Rightarrow> Inl SourceNotContainer)"

definition getPointer :: "json \<Rightarrow> string \<Rightarrow> extract_error + json" where
  "getPointer root pointer =
     (if pointer = [] then Inr root else get_segments (pointer_tokens pointer) root)"

section \<open>Reading back what was set\<close>

text \<open>
  The two pointer functions read array indexes differently (a sign is accepted only when
  setting), so reading back is stated for tokens that are no signed numerals and stay
  below \<open>2 ^ 31\<close>.
\<close>

definition plain_token :: "string \<Rightarrow> bool" where
  "plain_token t \<longleftrightarrow>
     (t = [] \<or> hd t \<noteq> CHR ''-'' \<and> hd t \<noteq> CHR ''+'') \<and>
     (list_all is_digit t \<longrightarrow> decimal_value t < 2 ^ 31)"

lemma plain_token_parse:
  assumes "plain_token t" and "parse_int64 t = Some p"
  shows "0 \<le> p \<and> parse_uint 31 t = Some (nat p)"
  using assms by (auto simp: plain_token_def parse_int64_def parse_uint_def Let_def split: if_splits)

lemma get_set_segments:
  assumes "set_segments pre segs v doc = Inr doc'" and "list_all plain_token segs"
  shows "get_segments segs doc' = Inr (JStr v)"
  using assms
proof (induction pre segs v doc arbitrary: doc' rule: set_segments.induct)
  case (2 pre segment rest v current)
  show ?case
  proof (cases current)
    case (JObj kvs)
    show ?thesis
    proof (cases "rest = []")
      case True
      with 2 JObj show ?thesis by (auto simp: map_of_obj_set)
    next
      case False
      with 2(3) JObj obtain nxt nxt' where n: "map_of kvs segment = Some nxt"
        "set_segments (pre @ [segment]) rest v nxt = Inr nxt'" "doc' = JObj (obj_set segment nxt' kvs)"
        by (auto split: option.splits sum.splits)
      with 2(2) [OF JObj False n(1,2)] 2(4) show ?thesis by (auto simp: map_of_obj_set)
    qed
  next
    case (JArr xs)
    with 2(3) obtain p where p: "parse_int64 segment = Some p" "\<not> (p < 0 \<or> int (length xs) \<le> p)"
      by (auto split: option.splits if_splits)
    have idx: "parse_uint 31 segment = Some (nat p)" "nat p < length xs"
      using plain_token_parse [OF _ p(1)] 2(4) p(2) by auto
    show ?thesis
    proof (cases "rest = []")
      case True
      with 2(3) JArr p idx show ?thesis by auto
    next
      case False
      with 2(3) JArr p obtain nxt' where n: "set_segments (pre @ [segment]) rest v (xs ! nat p) = Inr nxt'"
        "doc' = JArr (xs[nat p := nxt'])"
        by (auto split: sum.splits)
      with 2(1) [OF JArr p False n(1)] 2(4) idx show ?thesis by auto
    qed
  qed (use 2 in auto)
qed simp

text \<open>
  What \<open>setPointer\<close> wrote is what the artifact extraction reads at the same pointer,
  for pointers whose tokens are not signed numerals.
\<close>

theorem get_set_pointer:
  assumes "setPointer doc pointer v = Inr doc'" and "list_all plain_token (pointer_tokens pointer)"
  shows "getPointer doc' pointer = Inr (JStr v)"
  using assms
  by (auto simp: setPointer_def getPointer_def Let_def has_prefix_def intro: get_set_segments split: if_splits)

section \<open>Placeholder tokens\<close>

fun replaceValue :: "string \<Rightarrow> string \<Rightarrow> json \<Rightarrow> json \<times> bool" where
  "replaceValue token v (JStr s) = (if s = token then (JStr v, True) else (JStr s, False))"
| "replaceValue token v (JObj kvs) =
     (let rs = map (\<lambda>(k, x). (k, replaceValue token v x)) kvs
      in (JObj (map (\<lambda>(k, x, changed). (k, x)) rs), list_ex (\<lambda>(k, x, changed). changed) rs))"
| "replaceValue token v (JArr xs) =
     (let rs = map (replaceValue token v) xs in (JArr (map fst rs), list_ex snd rs))"
| "replaceValue token v x = (x, False)"

text \<open>Whether a string value of a document equals a token.\<close>

fun has_token :: "string \<Rightarrow> json \<Rightarrow> bool" where
  "has_token token (JStr s) \<longleftrightarrow> s = token"
| "has_token token (JObj kvs) \<longleftrightarrow> list_ex (\<lambda>(k, x). has_token token x) kvs"
| "has_token token (JArr xs) \<longleftrightarrow> list_ex (has_token token) xs"
| "has_token token _ \<longleftrightarrow> False"

lemma replaceValue_obj:
  "replaceValue token v (JObj kvs) =
     (JObj (map (\<lambda>(k, x). (k, fst (replaceValue token v x))) kvs),
      list_ex (\<lambda>(k, x). snd (replaceValue token v x)) kvs)"
  by (simp add: Let_def o_def case_prod_unfold list_ex_iff)

lemma replaceValue_arr:
  "replaceValue token v (JArr xs) =
     (JArr (map (\<lambda>x. fst (replaceValue token v x)) xs), list_ex (\<lambda>x. snd (replaceValue token v x)) xs)"
  by (simp add: Let_def o_def list_ex_iff)

lemmas replaceValue_containers = replaceValue_obj replaceValue_arr
declare replaceValue.simps(2,3) [simp del] replaceValue_containers [simp]

lemma replaceValue_changed: "snd (replaceValue token v x) \<longleftrightarrow> has_token token x"
proof (induction token v x rule: replaceValue.induct)
  case (2 token v kvs)
  then have "\<And>k x. (k, x) \<in> set kvs \<Longrightarrow> snd (replaceValue token v x) = has_token token x" by blast
  then show ?case by (auto simp: list_ex_iff)
next
  case (3 token v xs)
  then show ?case by (simp add: list_ex_iff)
qed auto

lemma replaceValue_unchanged: "\<not> has_token token x \<Longrightarrow> fst (replaceValue token v x) = x"
proof (induction token v x rule: replaceValue.induct)
  case (2 token v kvs)
  then have "\<And>k x. (k, x) \<in> set kvs \<Longrightarrow> fst (replaceValue token v x) = x"
    by (auto simp: list_ex_iff)
  then have "map (\<lambda>(k, x). (k, fst (replaceValue token v x))) kvs = kvs"
    by (intro map_idI) auto
  then show ?case by simp
next
  case (3 token v xs)
  then have "map (\<lambda>x. fst (replaceValue token v x)) xs = xs"
    by (intro map_idI) (auto simp: list_ex_iff)
  then show ?case by simp
qed auto

lemma replaceValue_removes: "v \<noteq> token \<Longrightarrow> \<not> has_token token (fst (replaceValue token v x))"
proof (induction token v x rule: replaceValue.induct)
  case (2 token v kvs)
  then have "\<And>k x. (k, x) \<in> set kvs \<Longrightarrow> \<not> has_token token (fst (replaceValue token v x))" by blast
  then show ?case by (auto simp: list_ex_iff)
next
  case (3 token v xs)
  then show ?case by (simp add: list_ex_iff)
qed auto

section \<open>Compact text\<close>

text \<open>
  \<open>json.Marshal\<close>: no white space, object keys in byte order, quotes, backslashes, control
  characters and the HTML characters escaped, U+2028 and U+2029 escaped.
\<close>

definition hex_digit :: "nat \<Rightarrow> char" where
  "hex_digit d = ''0123456789abcdef'' ! d"

definition unicode_escape :: "nat \<Rightarrow> string" where
  "unicode_escape n = [CHR 0x5C, CHR ''u'', CHR ''0'', CHR ''0'', hex_digit (n div 16), hex_digit (n mod 16)]"

definition escape_char :: "char \<Rightarrow> string" where
  "escape_char c =
     (let n = (of_char c :: nat) in
      if n = 34 \<or> n = 92 then [CHR 0x5C, c]
      else if n = 8 then [CHR 0x5C, CHR ''b'']
      else if n = 12 then [CHR 0x5C, CHR ''f'']
      else if n = 10 then [CHR 0x5C, CHR ''n'']
      else if n = 13 then [CHR 0x5C, CHR ''r'']
      else if n = 9 then [CHR 0x5C, CHR ''t'']
      else if n < 32 \<or> n = 60 \<or> n = 62 \<or> n = 38 then unicode_escape n
      else [c])"

fun escape_string :: "string \<Rightarrow> string" where
  "escape_string (a # b # c # s) =
     (if (of_char a :: nat) = 226 \<and> (of_char b :: nat) = 128 \<and> (of_char c :: nat) \<in> {168, 169}
      then [CHR 0x5C, CHR ''u'', CHR ''2'', CHR ''0'', CHR ''2'', hex_digit ((of_char c :: nat) - 160)] @ escape_string s
      else escape_char a @ escape_string (b # c # s))"
| "escape_string (a # s) = escape_char a @ escape_string s"
| "escape_string [] = []"

definition render_string :: "string \<Rightarrow> string" where
  "render_string s = [CHR 0x22] @ escape_string s @ [CHR 0x22]"

fun byte_less :: "string \<Rightarrow> string \<Rightarrow> bool" where
  "byte_less _ [] \<longleftrightarrow> False"
| "byte_less [] (_ # _) \<longleftrightarrow> True"
| "byte_less (a # s) (b # t) \<longleftrightarrow>
     (of_char a :: nat) < of_char b \<or> a = b \<and> byte_less s t"

fun insert_key :: "string \<times> 'v \<Rightarrow> (string \<times> 'v) list \<Rightarrow> (string \<times> 'v) list" where
  "insert_key kv [] = [kv]"
| "insert_key kv (x # xs) = (if byte_less (fst x) (fst kv) then x # insert_key kv xs else kv # x # xs)"

definition sort_keys :: "(string \<times> 'v) list \<Rightarrow> (string \<times> 'v) list" where
  "sort_keys kvs = foldr insert_key kvs []"

lemma set_insert_key: "set (insert_key kv kvs) = insert kv (set kvs)"
  by (induction kvs) auto

lemma set_sort_keys [simp]: "set (sort_keys kvs) = set kvs"
  by (induction kvs) (auto simp: sort_keys_def set_insert_key)

fun render :: "json \<Rightarrow> string" where
  "render JNull = ''null''"
| "render (JBool b) = (if b then ''true'' else ''false'')"
| "render (JNum n) = n"
| "render (JStr s) = render_string s"
| "render (JArr xs) = ''['' @ join_on '','' (map render xs) @ '']''"
| "render (JObj kvs) =
     ''{'' @ join_on '','' (map (\<lambda>(k, t). render_string k @ '':'' @ t)
       (sort_keys (map (\<lambda>(k, x). (k, render x)) kvs))) @ ''}''"


section \<open>Witnesses\<close>

lemma sample_tokens: "pointer_tokens ''/a/1'' = [''a'', ''1'']"
  by (simp add: pointer_tokens_def unescape_token_def trim_prefix_def has_prefix_def replace_all.simps)

theorem get_set_pointer_witness:
  "getPointer (JObj [(''a'', JArr [JNull, JStr ''v''])]) ''/a/1'' = Inr (JStr ''v'')"
proof -
  have s: "setPointer (JObj [(''a'', JArr [JNull, JNull])]) ''/a/1'' ''v'' =
      Inr (JObj [(''a'', JArr [JNull, JStr ''v''])])"
    by (simp add: setPointer_def sample_tokens has_prefix_def parse_int64_def Let_def decimal_value_def
        digit_value_def is_digit_def)
  have p: "list_all plain_token (pointer_tokens ''/a/1'')"
    by (simp add: sample_tokens plain_token_def decimal_value_def digit_value_def is_digit_def)
  show ?thesis by (rule get_set_pointer [OF s p])
qed

end
