(* ===== verification/Artifacts.thy ===== *)
theory Artifacts
  imports Json
begin

text \<open>
  Typed artifacts: the checks of a plan against the plugin's declared contracts, integrity
  checks of stored values, extraction of an output from a step result
  (\<open>artifacts/contract.go\<close>), and the ledger identity of provider resources
  (\<open>resourceidentity/identity.go\<close>). The digest function is a parameter: SHA-256 over the bytes.
\<close>

section \<open>Definitions\<close>

definition MaxArtifactBytes :: nat where
  "MaxArtifactBytes = 16 * 1024 * 1024"

definition artifactIdentity :: "string \<Rightarrow> bool" where
  "artifactIdentity =
     ident_match (\<lambda>c. is_upper c \<or> is_lower c)
       (\<lambda>c. is_upper c \<or> is_lower c \<or> is_digit c \<or> c = CHR ''.'' \<or> c = CHR ''-'') 127"

definition digits1 :: "string \<Rightarrow> bool" where
  "digits1 s \<longleftrightarrow> s \<noteq> [] \<and> list_all is_digit s"

definition artifactVersion :: "string \<Rightarrow> bool" where
  "artifactVersion s \<longleftrightarrow>
     (case s of
        [] \<Rightarrow> False
      | c # cs \<Rightarrow>
          c = CHR ''v'' \<and> takeWhile is_digit cs \<noteq> [] \<and>
          (let rest = dropWhile is_digit cs
           in rest = [] \<or>
              has_prefix ''alpha'' rest \<and> digits1 (drop 5 rest) \<or>
              has_prefix ''beta'' rest \<and> digits1 (drop 4 rest)))"

definition outputName :: "string \<Rightarrow> bool" where
  "outputName = ident_match is_lower (\<lambda>c. is_lower c \<or> is_digit c \<or> c = CHR ''-'') 63"

datatype identity_error = TypeInvalid | VersionInvalid

definition validateIdentity :: "string \<Rightarrow> string \<Rightarrow> identity_error option" where
  "validateIdentity artifactType version =
     (if \<not> artifactIdentity artifactType then Some TypeInvalid
      else if \<not> artifactVersion version then Some VersionInvalid
      else None)"

datatype source_error = SourceNotPointer | SourceEscape

text \<open>The scan over the bytes of a pointer: every tilde is followed by \<open>0\<close> or \<open>1\<close>.\<close>

fun escapes_valid :: "string \<Rightarrow> bool" where
  "escapes_valid [] \<longleftrightarrow> True"
| "escapes_valid (c # cs) \<longleftrightarrow>
     (if c \<noteq> CHR ''~'' then escapes_valid cs
      else case cs of
          [] \<Rightarrow> False
        | d # ds \<Rightarrow> (d = CHR ''0'' \<or> d = CHR ''1'') \<and> escapes_valid ds)"

definition validatePointer :: "string \<Rightarrow> source_error option" where
  "validatePointer pointer =
     (if pointer = [] then None
      else if \<not> has_prefix ''/'' pointer then Some SourceNotPointer
      else if escapes_valid pointer then None else Some SourceEscape)"

text \<open>Map keys of the source: two strings joined by a zero byte.\<close>

definition pair_key :: "string \<Rightarrow> string \<Rightarrow> string" where
  "pair_key a b = a @ [CHR 0x00] @ b"

datatype contract_error = ContractIdentity identity_error | DuplicateContract string string

definition check_contract :: "ArtifactContract \<Rightarrow> string list \<Rightarrow> contract_error + string list" where
  "check_contract contract result =
     (case validateIdentity (ac_Type contract) (ac_Version contract) of
        Some e \<Rightarrow> Inl (ContractIdentity e)
      | None \<Rightarrow>
          (let key = pair_key (ac_Type contract) (ac_Version contract)
           in if key \<in> set result then Inl (DuplicateContract (ac_Type contract) (ac_Version contract))
              else Inr (key # result)))"

definition validateContracts :: "ArtifactContract list \<Rightarrow> contract_error + string list" where
  "validateContracts contracts = fold_err check_contract contracts []"

datatype plan_error =
    PluginArtifactInputs contract_error
  | PluginArtifactOutputs contract_error
  | BadInputName string
  | InputIdentity string string identity_error
  | UndeclaredInput string string
  | InvalidExternalReference string string
  | NoArtifactSource string string
  | UnavailableOutput string string
  | InputContractMismatch string string
  | BadOutputName string
  | OutputIdentity string string identity_error
  | UndeclaredOutput string string
  | UnsupportedMediaType string string
  | OutputPointer string string source_error

definition check_input ::
  "string list \<Rightarrow> (string \<times> ArtifactOutput) list \<Rightarrow> string \<Rightarrow> ArtifactInput \<Rightarrow> string list \<Rightarrow>
   plan_error + string list" where
  "check_input allowed producers step input inputs =
     (if \<not> outputName (ai_Name input) \<or> ai_Name input \<in> set inputs then Inl (BadInputName step)
      else case validateIdentity (ai_Type input) (ai_Version input) of
          Some e \<Rightarrow> Inl (InputIdentity step (ai_Name input) e)
        | None \<Rightarrow>
            if pair_key (ai_Type input) (ai_Version input) \<notin> set allowed
            then Inl (UndeclaredInput step (ai_Name input))
            else if ai_ArtifactID input \<noteq> [] then
              (if \<not> has_prefix ''art_'' (ai_ArtifactID input) \<or> ai_FromStep input \<noteq> [] \<or> ai_FromOutput input \<noteq> []
               then Inl (InvalidExternalReference step (ai_Name input))
               else Inr (ai_Name input # inputs))
            else if ai_FromStep input = [] \<or> ai_FromOutput input = []
            then Inl (NoArtifactSource step (ai_Name input))
            else (case map_of producers (pair_key (ai_FromStep input) (ai_FromOutput input)) of
                None \<Rightarrow> Inl (UnavailableOutput step (ai_Name input))
              | Some producer \<Rightarrow>
                  if ao_Type producer \<noteq> ai_Type input \<or> ao_Version producer \<noteq> ai_Version input
                  then Inl (InputContractMismatch step (ai_Name input))
                  else Inr (ai_Name input # inputs)))"

definition check_output ::
  "string list \<Rightarrow> string \<Rightarrow> ArtifactOutput \<Rightarrow> string list \<times> (string \<times> ArtifactOutput) list \<Rightarrow>
   plan_error + (string list \<times> (string \<times> ArtifactOutput) list)" where
  "check_output allowed step output st =
     (let (outputs, producers) = st
      in if \<not> outputName (ao_Name output) \<or> ao_Name output \<in> set outputs then Inl (BadOutputName step)
         else case validateIdentity (ao_Type output) (ao_Version output) of
             Some e \<Rightarrow> Inl (OutputIdentity step (ao_Name output) e)
           | None \<Rightarrow>
               if pair_key (ao_Type output) (ao_Version output) \<notin> set allowed
               then Inl (UndeclaredOutput step (ao_Name output))
               else if ao_MediaType output \<noteq> ''application/json''
               then Inl (UnsupportedMediaType step (ao_Name output))
               else (case validatePointer (ao_Source output) of
                   Some e \<Rightarrow> Inl (OutputPointer step (ao_Name output) e)
                 | None \<Rightarrow>
                     Inr (ao_Name output # outputs, (pair_key step (ao_Name output), output) # producers)))"

definition check_step ::
  "string list \<Rightarrow> string list \<Rightarrow> PlanStep \<Rightarrow> (string \<times> ArtifactOutput) list \<Rightarrow>
   plan_error + (string \<times> ArtifactOutput) list" where
  "check_step allowedInputs allowedOutputs step producers =
     (case fold_err (check_input allowedInputs producers (ps_ID step)) (ps_ArtifactInputs step) [] of
        Inl e \<Rightarrow> Inl e
      | Inr inputs \<Rightarrow>
          (case fold_err (check_output allowedOutputs (ps_ID step)) (ps_Outputs step) ([], producers) of
             Inl e \<Rightarrow> Inl e
           | Inr (outputs, producers') \<Rightarrow> Inr producers'))"

definition ValidatePlan ::
  "Plan \<Rightarrow> ArtifactContract list \<Rightarrow> ArtifactContract list \<Rightarrow> plan_error option" where
  "ValidatePlan plan declaredInputs declaredOutputs =
     (case validateContracts declaredInputs of
        Inl e \<Rightarrow> Some (PluginArtifactInputs e)
      | Inr allowedInputs \<Rightarrow>
          (case validateContracts declaredOutputs of
             Inl e \<Rightarrow> Some (PluginArtifactOutputs e)
           | Inr allowedOutputs \<Rightarrow>
               (case fold_err (check_step allowedInputs allowedOutputs) (plan_Steps plan) [] of
                  Inl e \<Rightarrow> Some e
                | Inr producers \<Rightarrow> None)))"

datatype verify_error = SizeMismatch | DigestMismatch

definition Verify :: "(string \<Rightarrow> string) \<Rightarrow> string \<Rightarrow> string \<Rightarrow> int \<Rightarrow> verify_error option" where
  "Verify digest value expectedDigest expectedSize =
     (if int (length value) \<noteq> expectedSize then Some SizeMismatch
      else if digest value \<noteq> expectedDigest then Some DigestMismatch
      else None)"

datatype artifact_error = StepResultInvalid | StepResultTrailing | ArtifactSource extract_error | ArtifactTooLarge

definition ExtractJSON :: "RawMessage \<Rightarrow> string \<Rightarrow> artifact_error + json" where
  "ExtractJSON raw pointer =
     (case raw of
        RawEmpty \<Rightarrow> Inl StepResultInvalid
      | RawInvalid _ \<Rightarrow> Inl StepResultInvalid
      | RawTrailing _ _ \<Rightarrow> Inl StepResultTrailing
      | RawDoc root \<Rightarrow>
          (case getPointer root pointer of
             Inl e \<Rightarrow> Inl (ArtifactSource e)
           | Inr value \<Rightarrow>
               if MaxArtifactBytes < length (render value) then Inl ArtifactTooLarge else Inr value))"

subsection \<open>Ledger identities\<close>

definition connectionIDPattern :: "string \<Rightarrow> bool" where
  "connectionIDPattern s \<longleftrightarrow>
     s \<noteq> [] \<and> list_all (\<lambda>c. is_upper c \<or> is_lower c \<or> is_digit c \<or> c = CHR ''_'' \<or> c = CHR ''-'') s"

text \<open>
  Decoding the input into \<open>struct {ConnectionRef string}\<close>: the input must be an object or null.
  Go matches a key to a field without regard to case; a string sets the field, null leaves it,
  and any other value is an error.
\<close>

definition lower_char :: "char \<Rightarrow> char" where
  "lower_char c =
     (if is_upper c then ''abcdefghijklmnopqrstuvwxyz'' ! length (takeWhile (\<lambda>d. d \<noteq> c) ''ABCDEFGHIJKLMNOPQRSTUVWXYZ'')
      else c)"

fun decode_ref :: "(string \<times> json) list \<Rightarrow> string \<Rightarrow> string option" where
  "decode_ref [] current = Some current"
| "decode_ref ((k, v) # kvs) current =
     (if map lower_char k = ''connectionref''
      then (case v of
              JStr s \<Rightarrow> decode_ref kvs s
            | JNull \<Rightarrow> decode_ref kvs current
            | _ \<Rightarrow> None)
      else decode_ref kvs current)"

definition connection_ref :: "RawMessage \<Rightarrow> string option" where
  "connection_ref input =
     (case unmarshal input of
        Some (JObj kvs) \<Rightarrow> decode_ref kvs []
      | Some JNull \<Rightarrow> Some []
      | _ \<Rightarrow> None)"

definition LedgerID :: "string \<Rightarrow> RawMessage \<Rightarrow> string \<Rightarrow> string option" where
  "LedgerID provider input externalID =
     (if provider \<noteq> ''proxmox'' then Some externalID
      else case connection_ref input of
          None \<Rightarrow> None
        | Some ref \<Rightarrow>
            if \<not> connectionIDPattern ref \<or> externalID = [] then None
            else Some (ref @ ''/'' @ externalID))"


section \<open>Contracts\<close>

definition contract_key :: "ArtifactContract \<Rightarrow> string" where
  "contract_key c = pair_key (ac_Type c) (ac_Version c)"

definition contracts_ok :: "ArtifactContract list \<Rightarrow> bool" where
  "contracts_ok cs \<longleftrightarrow>
     (\<forall>c \<in> set cs. validateIdentity (ac_Type c) (ac_Version c) = None) \<and> distinct (map contract_key cs)"

lemma validateContracts_iff:
  "validateContracts cs = Inr keys \<longleftrightarrow> contracts_ok cs \<and> keys = rev (map contract_key cs)"
proof -
  have "check_contract c seen = Inr r \<longleftrightarrow>
      validateIdentity (ac_Type c) (ac_Version c) = None \<and> contract_key c \<notin> set seen \<and> r = contract_key c # seen"
    for c seen r
    by (auto simp: check_contract_def contract_key_def Let_def split: option.splits)
  then show ?thesis
    unfolding validateContracts_def contracts_ok_def by (subst fold_err_seen) auto
qed

lemma validateContracts_cases:
  obtains (ok) "contracts_ok cs" "validateContracts cs = Inr (rev (map contract_key cs))"
    | (bad) e where "\<not> contracts_ok cs" "validateContracts cs = Inl e"
  using validateContracts_iff [of cs] by (cases "validateContracts cs") auto

section \<open>Plans\<close>

text \<open>What it means that an input, an output and a step are well typed.\<close>

definition input_ok ::
  "ArtifactContract list \<Rightarrow> (string \<times> ArtifactOutput) list \<Rightarrow> ArtifactInput \<Rightarrow> bool" where
  "input_ok declared producers i \<longleftrightarrow>
     outputName (ai_Name i) \<and> validateIdentity (ai_Type i) (ai_Version i) = None \<and>
     pair_key (ai_Type i) (ai_Version i) \<in> contract_key ` set declared \<and>
     (if ai_ArtifactID i \<noteq> []
      then has_prefix ''art_'' (ai_ArtifactID i) \<and> ai_FromStep i = [] \<and> ai_FromOutput i = []
      else ai_FromStep i \<noteq> [] \<and> ai_FromOutput i \<noteq> [] \<and>
        (\<exists>p. map_of producers (pair_key (ai_FromStep i) (ai_FromOutput i)) = Some p \<and>
          ao_Type p = ai_Type i \<and> ao_Version p = ai_Version i))"

definition output_ok :: "ArtifactContract list \<Rightarrow> ArtifactOutput \<Rightarrow> bool" where
  "output_ok declared out \<longleftrightarrow>
     outputName (ao_Name out) \<and> validateIdentity (ao_Type out) (ao_Version out) = None \<and>
     pair_key (ao_Type out) (ao_Version out) \<in> contract_key ` set declared \<and>
     ao_MediaType out = ''application/json'' \<and> validatePointer (ao_Source out) = None"

definition step_ok ::
  "ArtifactContract list \<Rightarrow> ArtifactContract list \<Rightarrow> PlanStep \<Rightarrow> (string \<times> ArtifactOutput) list \<Rightarrow> bool" where
  "step_ok ins outs step producers \<longleftrightarrow>
     (\<forall>i \<in> set (ps_ArtifactInputs step). input_ok ins producers i) \<and> distinct (map ai_Name (ps_ArtifactInputs step)) \<and>
     (\<forall>out \<in> set (ps_Outputs step). output_ok outs out) \<and> distinct (map ao_Name (ps_Outputs step))"

definition step_entries :: "PlanStep \<Rightarrow> (string \<times> ArtifactOutput) list" where
  "step_entries step = map (\<lambda>out. (pair_key (ps_ID step) (ao_Name out), out)) (ps_Outputs step)"

definition produced_before :: "PlanStep list \<Rightarrow> nat \<Rightarrow> (string \<times> ArtifactOutput) list" where
  "produced_before steps k = rev (concat (map step_entries (take k steps)))"

lemma check_input_iff:
  "check_input (rev (map contract_key ins)) producers step i seen = Inr r \<longleftrightarrow>
     input_ok ins producers i \<and> ai_Name i \<notin> set seen \<and> r = ai_Name i # seen"
  by (auto simp: check_input_def input_ok_def split: option.splits if_splits)

lemma check_output_iff:
  "check_output (rev (map contract_key outs)) step out (seen, es) = Inr r \<longleftrightarrow>
     output_ok outs out \<and> ao_Name out \<notin> set seen \<and>
     r = (ao_Name out # seen, (pair_key step (ao_Name out), out) # es)"
  by (auto simp: check_output_def output_ok_def split: option.splits if_splits)

lemma check_step_iff:
  "check_step (rev (map contract_key ins)) (rev (map contract_key outs)) step producers = Inr r \<longleftrightarrow>
     step_ok ins outs step producers \<and> r = rev (step_entries step) @ producers"
proof -
  have "check_step (rev (map contract_key ins)) (rev (map contract_key outs)) step producers = Inr r \<longleftrightarrow>
      (\<exists>a. fold_err (check_input (rev (map contract_key ins)) producers (ps_ID step)) (ps_ArtifactInputs step) [] = Inr a) \<and>
      (\<exists>b. fold_err (check_output (rev (map contract_key outs)) (ps_ID step)) (ps_Outputs step) ([], producers) = Inr (b, r))"
    by (auto simp: check_step_def split: sum.splits)
  then show ?thesis
    by (simp add: fold_err_seen [OF check_input_iff] fold_err_seen_entries [OF check_output_iff]
        step_ok_def step_entries_def)
qed

lemma ValidatePlan_iff:
  "ValidatePlan plan ins outs = None \<longleftrightarrow>
     contracts_ok ins \<and> contracts_ok outs \<and>
     (\<forall>k < length (plan_Steps plan). step_ok ins outs (plan_Steps plan ! k) (produced_before (plan_Steps plan) k))"
proof -
  have "ValidatePlan plan ins outs = None \<longleftrightarrow> contracts_ok ins \<and> contracts_ok outs \<and>
      (\<exists>r. fold_err (check_step (rev (map contract_key ins)) (rev (map contract_key outs))) (plan_Steps plan) [] = Inr r)"
    by (cases rule: validateContracts_cases [of ins]; cases rule: validateContracts_cases [of outs])
      (auto simp: ValidatePlan_def split: sum.splits)
  then show ?thesis
    by (simp add: fold_err_collect [OF check_step_iff] produced_before_def)
qed


text \<open>
  C35: \<open>ValidatePlan\<close> accepts a plan exactly when the plugin's contracts are valid and distinct and
  every step is well typed: inputs and outputs have distinct legal names and declared
  contracts, inputs come from a stored artifact or from an earlier output of the same
  contract, outputs are JSON with a legal pointer.
\<close>

theorem validate_plan_decides:
  "ValidatePlan plan ins outs = None \<longleftrightarrow>
     contracts_ok ins \<and> contracts_ok outs \<and>
     (\<forall>k < length (plan_Steps plan). step_ok ins outs (plan_Steps plan ! k) (produced_before (plan_Steps plan) k))"
  by (rule ValidatePlan_iff)

lemma produced_before_earlier:
  assumes "map_of (produced_before steps k) key = Some out"
  shows "\<exists>j < min k (length steps). out \<in> set (ps_Outputs (steps ! j)) \<and> key = pair_key (ps_ID (steps ! j)) (ao_Name out)"
proof -
  have "(key, out) \<in> set (concat (map step_entries (take k steps)))"
    using map_of_SomeD [OF assms] by (simp add: produced_before_def)
  then obtain s where "s \<in> set (take k steps)" "(key, out) \<in> set (step_entries s)" by auto
  then show ?thesis
    by (auto simp: step_entries_def in_set_conv_nth)
qed

lemma pair_key_inj:
  "CHR 0x00 \<notin> set a \<Longrightarrow> CHR 0x00 \<notin> set a' \<Longrightarrow> pair_key a b = pair_key a' b' \<longleftrightarrow> a = a' \<and> b = b'"
  by (simp add: pair_key_def separator_inj)

text \<open>
  In an accepted plan, an input without a stored artifact is produced by a strictly
  earlier step of the plan, under exactly the step and output name it refers to, with the
  type and version it requires. (Step names contain no zero byte, the source's separator.)
\<close>

theorem validated_input_has_producer:
  assumes "ValidatePlan plan ins outs = None"
    and "\<forall>s \<in> set (plan_Steps plan). CHR 0x00 \<notin> set (ps_ID s)"
    and "k < length (plan_Steps plan)"
    and "i \<in> set (ps_ArtifactInputs (plan_Steps plan ! k))"
    and "ai_ArtifactID i = []" and "CHR 0x00 \<notin> set (ai_FromStep i)"
  shows "\<exists>j < k. ps_ID (plan_Steps plan ! j) = ai_FromStep i \<and>
    (\<exists>out \<in> set (ps_Outputs (plan_Steps plan ! j)).
       ao_Name out = ai_FromOutput i \<and> ao_Type out = ai_Type i \<and> ao_Version out = ai_Version i)"
proof -
  let ?steps = "plan_Steps plan"
  have "input_ok ins (produced_before ?steps k) i"
    using assms(1,3,4) by (auto simp: ValidatePlan_iff step_ok_def)
  then obtain out where out: "map_of (produced_before ?steps k) (pair_key (ai_FromStep i) (ai_FromOutput i)) = Some out"
      "ao_Type out = ai_Type i" "ao_Version out = ai_Version i"
    using assms(5) by (auto simp: input_ok_def)
  then obtain j where j: "j < min k (length ?steps)" "out \<in> set (ps_Outputs (?steps ! j))"
      "pair_key (ai_FromStep i) (ai_FromOutput i) = pair_key (ps_ID (?steps ! j)) (ao_Name out)"
    using produced_before_earlier by blast
  then have "ai_FromStep i = ps_ID (?steps ! j) \<and> ai_FromOutput i = ao_Name out"
    using assms(2,6) by (simp add: pair_key_inj)
  with j out show ?thesis by auto
qed

section \<open>Ledger identities\<close>

lemma connectionIDPattern_no_slash: "connectionIDPattern s \<Longrightarrow> CHR ''/'' \<notin> set s"
proof
  assume "connectionIDPattern s" and "CHR ''/'' \<in> set s"
  then have "is_upper CHR ''/'' \<or> is_lower CHR ''/'' \<or> is_digit CHR ''/''"
    by (auto simp: connectionIDPattern_def list_all_iff)
  then show False by (simp add: is_upper_def is_lower_def is_digit_def)
qed

lemma LedgerID_proxmox:
  "LedgerID ''proxmox'' input e = Some l \<longleftrightarrow>
     (\<exists>ref. connection_ref input = Some ref \<and> connectionIDPattern ref \<and> e \<noteq> [] \<and> l = ref @ ''/'' @ e)"
  by (auto simp: LedgerID_def split: option.splits)

text \<open>
  Ledger identities of Proxmox resources never collide: equal identities come from the same
  connection and the same provider-local identifier.
\<close>

theorem ledger_id_injective:
  assumes "LedgerID ''proxmox'' input e = Some l" and "LedgerID ''proxmox'' input' e' = Some l"
  shows "connection_ref input = connection_ref input' \<and> e = e'"
proof -
  obtain ref where a: "connection_ref input = Some ref" "connectionIDPattern ref" "l = ref @ CHR ''/'' # e"
    using assms(1) by (auto simp: LedgerID_proxmox)
  obtain ref' where b: "connection_ref input' = Some ref'" "connectionIDPattern ref'" "l = ref' @ CHR ''/'' # e'"
    using assms(2) by (auto simp: LedgerID_proxmox)
  from a(3) b(3) have "ref @ CHR ''/'' # e = ref' @ CHR ''/'' # e'" by simp
  then have "ref = ref' \<and> e = e'"
    using separator_inj connectionIDPattern_no_slash a(2) b(2) by metis
  with a b show ?thesis by simp
qed

section \<open>Witnesses\<close>

definition sample_contract :: ArtifactContract where
  "sample_contract = \<lparr>ac_Type = ''K'', ac_Version = ''v1''\<rparr>"

definition sample_plan :: Plan where
  "sample_plan = \<lparr>plan_PluginID = ''p'', plan_Steps =
     [\<lparr>ps_ID = ''a'', ps_Name = ''A'', ps_Input = RawDoc JNull, ps_Mutating = False, ps_Cleanup = False,
       ps_ArtifactInputs = [],
       ps_Outputs = [\<lparr>ao_Name = ''o'', ao_Type = ''K'', ao_Version = ''v1'',
         ao_MediaType = ''application/json'', ao_Source = ''/x'', ao_Sensitive = False\<rparr>],
       ps_ResolvedInputs = [], ps_Effects = []\<rparr>,
      \<lparr>ps_ID = ''b'', ps_Name = ''B'', ps_Input = RawDoc JNull, ps_Mutating = False, ps_Cleanup = False,
       ps_ArtifactInputs = [\<lparr>ai_Name = ''i'', ai_Type = ''K'', ai_Version = ''v1'', ai_ArtifactID = [],
         ai_FromStep = ''a'', ai_FromOutput = ''o''\<rparr>],
       ps_Outputs = [], ps_ResolvedInputs = [], ps_Effects = []\<rparr>]\<rparr>"

lemma sample_identity: "validateIdentity ''K'' ''v1'' = None"
  by (simp add: validateIdentity_def artifactIdentity_def artifactVersion_def ident_match_def is_upper_def is_digit_def)

lemma sample_plan_valid: "ValidatePlan sample_plan [sample_contract] [sample_contract] = None"
  by (simp add: ValidatePlan_def validateContracts_def check_contract_def check_step_def check_input_def
      check_output_def sample_plan_def sample_contract_def sample_identity outputName_def ident_match_def
      is_lower_def pair_key_def validatePointer_def has_prefix_def)

theorem validate_plan_decides_witness:
  "contracts_ok [sample_contract] \<and>
   step_ok [sample_contract] [sample_contract] (plan_Steps sample_plan ! 1) (produced_before (plan_Steps sample_plan) 1)"
proof -
  have "1 < length (plan_Steps sample_plan)" by (simp add: sample_plan_def)
  then show ?thesis
    using validate_plan_decides [of sample_plan "[sample_contract]" "[sample_contract]"] sample_plan_valid by blast
qed

theorem validated_input_has_producer_witness:
  "\<exists>j < 1. ps_ID (plan_Steps sample_plan ! j) = ''a''"
  using validated_input_has_producer [OF sample_plan_valid, of 1
      "\<lparr>ai_Name = ''i'', ai_Type = ''K'', ai_Version = ''v1'', ai_ArtifactID = [], ai_FromStep = ''a'', ai_FromOutput = ''o''\<rparr>"]
  by (auto simp: sample_plan_def)

theorem ledger_id_injective_witness:
  "LedgerID ''proxmox'' (RawDoc (JObj [(''connectionRef'', JStr ''conn_a''), (''node'', JStr ''pve1'')])) ''qemu/100''
     = Some ''conn_a/qemu/100'' \<and>
   connection_ref (RawDoc (JObj [(''connectionRef'', JStr ''conn_a''), (''node'', JStr ''pve1'')])) =
   connection_ref (RawDoc (JObj [(''connectionRef'', JStr ''conn_a''), (''node'', JStr ''pve2'')]))"
proof -
  have a: "LedgerID ''proxmox'' (RawDoc (JObj [(''connectionRef'', JStr ''conn_a''), (''node'', JStr ''pve1'')])) ''qemu/100''
     = Some ''conn_a/qemu/100''"
    by (simp add: LedgerID_def connection_ref_def lower_char_def is_upper_def is_lower_def is_digit_def
        connectionIDPattern_def)
  have b: "LedgerID ''proxmox'' (RawDoc (JObj [(''connectionRef'', JStr ''conn_a''), (''node'', JStr ''pve2'')])) ''qemu/100''
     = Some ''conn_a/qemu/100''"
    by (simp add: LedgerID_def connection_ref_def lower_char_def is_upper_def is_lower_def is_digit_def
        connectionIDPattern_def)
  show ?thesis using a ledger_id_injective [OF a b] by blast
qed

end
