(* ===== verification/Schema.thy ===== *)
theory Schema
  imports Complex_Main Json
begin

text \<open>
  The schema dialect of \<open>schema/validate.go\<close>: validation of a value against a rule
  (\<open>Validate\<close>, \<open>validateValue\<close>) and of the rule itself (\<open>ValidateDefinition\<close>, \<open>validateRule\<close>).
  Three engines of Go's library are arguments, collected in a record: the regular expression
  engine, URL parsing, and the formatting and reading of numbers and quoted strings.
  Go ranges over a map in an unspecified order, the model in the order of the association
  list: which of several errors of a rule is reported is therefore one of the possible ones,
  whether there is one does not depend on the order.
  The validator is shown to decide a declarative notion of conformance.
\<close>

section \<open>Library engines\<close>

text \<open>
  \<open>lib_regexp p\<close> is the matcher of a pattern that compiles; \<open>lib_absolute_uri\<close> says that a string
  parses as a URL with scheme and host; \<open>lib_float\<close> is \<open>json.Number.Float64\<close>, \<open>None\<close> when out of
  range; \<open>lib_show_float\<close> is the verb \<open>%v\<close> on a float and \<open>lib_quote\<close> the verb \<open>%q\<close> on a string;
  \<open>lib_refloat\<close> is the literal that results from decoding a number as a float and encoding it again.
\<close>

record golib =
  lib_regexp :: "string \<Rightarrow> (string \<Rightarrow> bool) option"
  lib_absolute_uri :: "string \<Rightarrow> bool"
  lib_float :: "string \<Rightarrow> rat option"
  lib_show_float :: "rat \<Rightarrow> string"
  lib_quote :: "string \<Rightarrow> string"
  lib_refloat :: "string \<Rightarrow> string"

type_synonym rule = "(string \<times> json) list"

record Issue =
  is_Path :: string
  is_Message :: string

text \<open>
  A rule read by \<open>ValidateDefinition\<close> keeps its numbers as literals (\<open>UseNumber\<close>); a rule read by
  \<open>Validate\<close> has them as floats.
\<close>

datatype number_mode = Literals | Floats

section \<open>Values of a rule\<close>

definition number :: "golib \<Rightarrow> json option \<Rightarrow> rat option" where
  "number L v = (case v of Some (JNum n) \<Rightarrow> lib_float L n | _ \<Rightarrow> None)"

definition whole :: "rat \<Rightarrow> bool" where
  "whole q \<longleftrightarrow> q = of_int \<lfloor>q\<rfloor>"

definition nonNegativeInteger :: "golib \<Rightarrow> json option \<Rightarrow> rat option" where
  "nonNegativeInteger L v =
     (case number L v of None \<Rightarrow> None | Some q \<Rightarrow> if 0 \<le> q \<and> whole q then Some q else None)"

definition string_field :: "rule \<Rightarrow> string \<Rightarrow> string" where
  "string_field rule k = (case map_of rule k of Some (JStr s) \<Rightarrow> s | _ \<Rightarrow> [])"

definition array_field :: "rule \<Rightarrow> string \<Rightarrow> json list option" where
  "array_field rule k = (case map_of rule k of Some (JArr xs) \<Rightarrow> Some xs | _ \<Rightarrow> None)"

definition object_field :: "rule \<Rightarrow> string \<Rightarrow> rule option" where
  "object_field rule k = (case map_of rule k of Some (JObj kvs) \<Rightarrow> Some kvs | _ \<Rightarrow> None)"

definition bool_field :: "rule \<Rightarrow> string \<Rightarrow> bool option" where
  "bool_field rule k = (case map_of rule k of Some (JBool b) \<Rightarrow> Some b | _ \<Rightarrow> None)"

definition matchesType :: "golib \<Rightarrow> string \<Rightarrow> json \<Rightarrow> bool" where
  "matchesType L expected v =
     (if expected = ''object'' then (case v of JObj _ \<Rightarrow> True | _ \<Rightarrow> False)
      else if expected = ''array'' then (case v of JArr _ \<Rightarrow> True | _ \<Rightarrow> False)
      else if expected = ''string'' then (case v of JStr _ \<Rightarrow> True | _ \<Rightarrow> False)
      else if expected = ''boolean'' then (case v of JBool _ \<Rightarrow> True | _ \<Rightarrow> False)
      else if expected = ''number'' then (case v of JNum _ \<Rightarrow> True | _ \<Rightarrow> False)
      else if expected = ''integer''
      then (case v of
              JNum n \<Rightarrow> (case lib_float L n of None \<Rightarrow> False | Some q \<Rightarrow> whole q)
            | _ \<Rightarrow> False)
      else if expected = ''null'' then v = JNull
      else True)"

definition stringSet :: "json option \<Rightarrow> string list" where
  "stringSet v =
     (case v of
        Some (JArr items) \<Rightarrow>
          remdups (concat (map (\<lambda>item. case item of
              JStr s \<Rightarrow> if trim_space s \<noteq> [] then [s] else []
            | _ \<Rightarrow> []) items))
      | _ \<Rightarrow> [])"

section \<open>Equality of values\<close>

text \<open>
  \<open>fmt.Sprint\<close> of a decoded value, with the rule's numbers shown as the mode says; and
  \<open>reflect.DeepEqual\<close>, which disregards the order of keys and never equates a float with a
  number literal.
\<close>

fun sprint :: "(string \<Rightarrow> string) \<Rightarrow> json \<Rightarrow> string" where
  "sprint show_num JNull = ''<nil>''"
| "sprint show_num (JBool b) = (if b then ''true'' else ''false'')"
| "sprint show_num (JNum n) = show_num n"
| "sprint show_num (JStr s) = s"
| "sprint show_num (JArr xs) = ''['' @ join_on '' '' (map (sprint show_num) xs) @ '']''"
| "sprint show_num (JObj kvs) =
     ''map['' @ join_on '' '' (map (\<lambda>(k, t). k @ '':'' @ t)
       (sort_keys (map (\<lambda>(k, x). (k, sprint show_num x)) kvs))) @ '']''"

fun canon :: "json \<Rightarrow> json" where
  "canon (JArr xs) = JArr (map canon xs)"
| "canon (JObj kvs) = JObj (sort_keys (map (\<lambda>(k, x). (k, canon x)) kvs))"
| "canon v = v"

fun number_free :: "json \<Rightarrow> bool" where
  "number_free (JNum _) \<longleftrightarrow> False"
| "number_free (JArr xs) \<longleftrightarrow> list_all number_free xs"
| "number_free (JObj kvs) \<longleftrightarrow> list_all (\<lambda>(k, x). number_free x) kvs"
| "number_free v \<longleftrightarrow> True"

definition show_number :: "golib \<Rightarrow> number_mode \<Rightarrow> string \<Rightarrow> string" where
  "show_number L mode n =
     (case mode of
        Literals \<Rightarrow> n
      | Floats \<Rightarrow> (case lib_float L n of None \<Rightarrow> n | Some q \<Rightarrow> lib_show_float L q))"

definition same_value :: "golib \<Rightarrow> number_mode \<Rightarrow> json \<Rightarrow> json \<Rightarrow> bool" where
  "same_value L mode option v \<longleftrightarrow>
     canon option = canon v \<and> (mode = Literals \<or> number_free option) \<or>
     sprint (show_number L mode) option = sprint (\<lambda>n. n) v"

section \<open>Validation of a value\<close>

definition issue :: "string \<Rightarrow> string \<Rightarrow> Issue" where
  "issue path message = \<lparr>is_Path = path, is_Message = message\<rparr>"

definition show_int :: "int \<Rightarrow> string" where
  "show_int i = (if i < 0 then ''-'' @ show_nat (nat (- i)) else show_nat (nat i))"

definition enum_issues :: "golib \<Rightarrow> number_mode \<Rightarrow> rule \<Rightarrow> json \<Rightarrow> string \<Rightarrow> Issue list" where
  "enum_issues L mode rule v path =
     (case array_field rule ''enum'' of
        None \<Rightarrow> []
      | Some options \<Rightarrow>
          if list_ex (\<lambda>option. same_value L mode option v) options then []
          else [issue path ''Value is not one of the allowed options.''])"

text \<open>The length of a string in code points: bytes that do not continue a sequence.\<close>

definition rune_count :: "string \<Rightarrow> nat" where
  "rune_count s = length (filter (\<lambda>c. \<not> (128 \<le> (of_char c :: nat) \<and> (of_char c :: nat) < 192)) s)"

definition bound_issues :: "rat option \<Rightarrow> (rat \<Rightarrow> bool) \<Rightarrow> string \<Rightarrow> (rat \<Rightarrow> string) \<Rightarrow> Issue list" where
  "bound_issues bound broken path message =
     (case bound of None \<Rightarrow> [] | Some q \<Rightarrow> if broken q then [issue path (message q)] else [])"

definition trunc_rat :: "rat \<Rightarrow> int" where
  "trunc_rat q = (if q < 0 then - \<lfloor>- q\<rfloor> else \<lfloor>q\<rfloor>)"

definition format_issues :: "golib \<Rightarrow> string \<Rightarrow> string \<Rightarrow> string \<Rightarrow> Issue list" where
  "format_issues L format s path =
     (if format = ''uri'' then
        (if \<not> lib_absolute_uri L s then [issue path ''Value must be an absolute URI.''] else [])
      else if format = ''kubephos-secret-ref'' then
        (if \<not> has_prefix ''cred_'' s then [issue path ''Value must reference a stored credential.''] else [])
      else if format = ''kubephos-connection-ref'' then
        (if \<not> has_prefix ''conn_'' s then [issue path ''Value must reference a stored provider connection.''] else [])
      else if format = ''kubephos-application-ref'' then
        (if \<not> has_prefix ''app:'' s \<or> trim_prefix ''app:'' s = [] \<or> contains_str ''@'' s
         then [issue path ''Value must reference a catalog application.''] else [])
      else if format = ''kubephos-artifact-ref'' then
        (if \<not> has_prefix ''art_'' s then [issue path ''Value must reference a verified artifact.''] else [])
      else [])"

definition string_issues :: "golib \<Rightarrow> rule \<Rightarrow> string \<Rightarrow> string \<Rightarrow> Issue list" where
  "string_issues L rule s path =
     bound_issues (number L (map_of rule ''minLength'')) (\<lambda>q. of_nat (rune_count s) < q) path
       (\<lambda>q. ''Value must contain at least '' @ show_int (trunc_rat q) @ '' characters.'') @
     bound_issues (number L (map_of rule ''maxLength'')) (\<lambda>q. q < of_nat (rune_count s)) path
       (\<lambda>q. ''Value cannot exceed '' @ show_int (trunc_rat q) @ '' characters.'') @
     (case map_of rule ''pattern'' of
        Some (JStr p) \<Rightarrow>
          (case lib_regexp L p of
             None \<Rightarrow> [issue path ''Schema contains an invalid pattern.'']
           | Some matches \<Rightarrow>
               if matches s then [] else [issue path ''Value does not match the required pattern.''])
      | _ \<Rightarrow> []) @
     format_issues L (string_field rule ''format'') s path"

definition number_issues :: "golib \<Rightarrow> rule \<Rightarrow> string \<Rightarrow> string \<Rightarrow> Issue list" where
  "number_issues L rule n path =
     (case lib_float L n of
        None \<Rightarrow> []
      | Some value \<Rightarrow>
          bound_issues (number L (map_of rule ''minimum'')) (\<lambda>q. value < q) path
            (\<lambda>q. ''Value must be at least '' @ lib_show_float L q @ ''.'') @
          bound_issues (number L (map_of rule ''maximum'')) (\<lambda>q. q < value) path
            (\<lambda>q. ''Value cannot exceed '' @ lib_show_float L q @ ''.''))"

definition array_bound_issues :: "golib \<Rightarrow> rule \<Rightarrow> nat \<Rightarrow> string \<Rightarrow> Issue list" where
  "array_bound_issues L rule n path =
     bound_issues (number L (map_of rule ''minItems'')) (\<lambda>q. of_nat n < q) path
       (\<lambda>q. ''At least '' @ show_int (trunc_rat q) @ '' items are required.'') @
     bound_issues (number L (map_of rule ''maxItems'')) (\<lambda>q. q < of_nat n) path
       (\<lambda>q. ''At most '' @ show_int (trunc_rat q) @ '' items are allowed.'')"

definition sorted_names :: "string list \<Rightarrow> string list" where
  "sorted_names names = map fst (sort_keys (map (\<lambda>n. (n, ())) names))"

definition required_issues :: "rule \<Rightarrow> rule \<Rightarrow> string \<Rightarrow> Issue list" where
  "required_issues rule kvs path =
     concat (map (\<lambda>name. if map_of kvs name = None then [issue (path @ ''.'' @ name) ''Value is required.''] else [])
       (sorted_names (stringSet (map_of rule ''required''))))"

text \<open>
  The property rule that applies to a field: the field has no entry, an entry that is not
  an object (nothing is checked), or an object.
\<close>

datatype property_rule = NoProperty | OpaqueProperty | PropertyRule rule

definition property_of :: "rule \<Rightarrow> string \<Rightarrow> property_rule" where
  "property_of rule name =
     (case object_field rule ''properties'' of
        None \<Rightarrow> NoProperty
      | Some properties \<Rightarrow>
          (case map_of properties name of
             None \<Rightarrow> NoProperty
           | Some (JObj r) \<Rightarrow> PropertyRule r
           | Some _ \<Rightarrow> OpaqueProperty))"

definition type_mismatch :: "golib \<Rightarrow> rule \<Rightarrow> json \<Rightarrow> bool" where
  "type_mismatch L rule v \<longleftrightarrow> string_field rule ''type'' \<noteq> [] \<and> \<not> matchesType L (string_field rule ''type'') v"

lemma size_field: "(k, x) \<in> set kvs \<Longrightarrow> size x < size (JObj kvs)"
  by (induction kvs) auto

lemma size_item: "i < length items \<Longrightarrow> size (items ! i) < size (JArr items)"
  using size_list_estimation' [of "items ! i" items "size (items ! i)" size] by (simp add: less_Suc_eq_le)

function validateValue :: "golib \<Rightarrow> number_mode \<Rightarrow> rule \<Rightarrow> json \<Rightarrow> string \<Rightarrow> Issue list" where
  "validateValue L mode rule v path =
     (if type_mismatch L rule v
      then [issue path (''Value must be '' @ string_field rule ''type'' @ ''.'')]
      else enum_issues L mode rule v path @
        (case v of
           JObj kvs \<Rightarrow>
             required_issues rule kvs path @
             concat (map snd (sort_keys (map (\<lambda>(name, item). (name,
               case property_of rule name of
                 NoProperty \<Rightarrow>
                   if bool_field rule ''additionalProperties'' = Some False
                   then [issue (path @ ''.'' @ name) ''Property is not allowed.''] else []
               | OpaqueProperty \<Rightarrow> []
               | PropertyRule r \<Rightarrow> validateValue L mode r item (path @ ''.'' @ name))) kvs)))
         | JArr items \<Rightarrow>
             array_bound_issues L rule (length items) path @
             (case object_field rule ''items'' of
                None \<Rightarrow> []
              | Some r \<Rightarrow>
                  concat (map (\<lambda>i. validateValue L mode r (items ! i) (path @ ''['' @ show_nat i @ '']''))
                    [0..<length items]))
         | JStr s \<Rightarrow> string_issues L rule s path
         | JNum n \<Rightarrow> number_issues L rule n path
         | _ \<Rightarrow> []))"
  by pat_completeness auto

termination
  by (relation "measure (\<lambda>(L, mode, rule, v, path). size v)")
    (use size_item in \<open>auto dest!: size_field\<close>)

declare validateValue.simps [simp del]

text \<open>
  \<open>json.Unmarshal\<close> into \<open>any\<close> without \<open>UseNumber\<close>: every number becomes a 64-bit float, and one that
  has none is an error.
\<close>

fun floats_readable :: "golib \<Rightarrow> json \<Rightarrow> bool" where
  "floats_readable L (JNum n) \<longleftrightarrow> lib_float L n \<noteq> None"
| "floats_readable L (JArr xs) \<longleftrightarrow> list_all (floats_readable L) xs"
| "floats_readable L (JObj kvs) \<longleftrightarrow> list_all (\<lambda>(k, x). floats_readable L x) kvs"
| "floats_readable L v \<longleftrightarrow> True"

fun refloat :: "golib \<Rightarrow> json \<Rightarrow> json" where
  "refloat L (JNum n) = JNum (lib_refloat L n)"
| "refloat L (JArr xs) = JArr (map (refloat L) xs)"
| "refloat L (JObj kvs) = JObj (map (\<lambda>(k, x). (k, refloat L x)) kvs)"
| "refloat L v = v"

definition unmarshal_any :: "golib \<Rightarrow> RawMessage \<Rightarrow> json option" where
  "unmarshal_any L raw =
     (case unmarshal raw of
        None \<Rightarrow> None
      | Some v \<Rightarrow> if floats_readable L v then Some (refloat L v) else None)"

datatype schema_error = InvalidSchema

definition validate_raw :: "golib \<Rightarrow> rule \<Rightarrow> RawMessage \<Rightarrow> Issue list" where
  "validate_raw L rule raw =
     (case raw of
        RawEmpty \<Rightarrow> [issue ''$'' ''Value must be valid JSON.'']
      | RawInvalid _ \<Rightarrow> [issue ''$'' ''Value must be valid JSON.'']
      | RawTrailing _ _ \<Rightarrow> [issue ''$'' ''Value must contain one valid JSON value.'']
      | RawDoc v \<Rightarrow> validateValue L Floats rule v ''$'')"

text \<open>The schema text \<open>null\<close> decodes into the empty map of rules.\<close>

definition Validate :: "golib \<Rightarrow> RawMessage \<Rightarrow> RawMessage \<Rightarrow> schema_error + Issue list" where
  "Validate L definition raw =
     (case unmarshal definition of
        Some (JObj rule) \<Rightarrow>
          if floats_readable L (JObj rule) then Inr (validate_raw L rule raw) else Inl InvalidSchema
      | Some JNull \<Rightarrow> Inr (validate_raw L [] raw)
      | _ \<Rightarrow> Inl InvalidSchema)"

section \<open>Validation of a rule\<close>

definition supportedKeywords :: "string list" where
  "supportedKeywords =
     [''type'', ''title'', ''description'', ''default'', ''enum'', ''required'', ''properties'',
      ''additionalProperties'', ''items'', ''minimum'', ''maximum'', ''minLength'', ''maxLength'',
      ''minItems'', ''maxItems'', ''pattern'', ''format'', ''writeOnly'']"

definition type_names :: "string list" where
  "type_names = [''object'', ''array'', ''string'', ''boolean'', ''number'', ''integer'', ''null'']"

text \<open>The first error of a sequence of checks.\<close>

fun first_error :: "'e option list \<Rightarrow> 'e option" where
  "first_error [] = None"
| "first_error (None # es) = first_error es"
| "first_error (Some e # es) = Some e"

lemma first_error_None [simp]: "first_error es = None \<longleftrightarrow> (\<forall>e \<in> set es. e = None)"
  by (induction es rule: first_error.induct) auto

definition when_present :: "rule \<Rightarrow> string \<Rightarrow> (json \<Rightarrow> bool) \<Rightarrow> string \<Rightarrow> string option" where
  "when_present rule k ok message =
     (case map_of rule k of None \<Rightarrow> None | Some v \<Rightarrow> if ok v then None else Some message)"

definition type_is :: "rule \<Rightarrow> string list \<Rightarrow> bool" where
  "type_is rule names \<longleftrightarrow> string_field rule ''type'' = [] \<or> string_field rule ''type'' \<in> set names"

definition properties_of :: "rule \<Rightarrow> rule" where
  "properties_of rule = (case object_field rule ''properties'' of None \<Rightarrow> [] | Some ps \<Rightarrow> ps)"

definition keyword_error :: "rule \<Rightarrow> string \<Rightarrow> string option" where
  "keyword_error rule path =
     first_error (map (\<lambda>(k, v). if k \<notin> set supportedKeywords \<and> \<not> has_prefix ''x-kubephos-'' k
         then Some (path @ ''.'' @ k @ '' is not supported'') else None) rule)"

text \<open>The loop over \<open>required\<close>: names are non-empty strings, not repeated, and known properties.\<close>

fun required_loop :: "golib \<Rightarrow> rule \<Rightarrow> string \<Rightarrow> json list \<Rightarrow> string list \<Rightarrow> string option" where
  "required_loop L properties path [] seen = None"
| "required_loop L properties path (item # items) seen =
     (case item of
        JStr name \<Rightarrow>
          if name = [] \<or> name \<in> set seen then Some (path @ ''.required is invalid'')
          else if map_of properties name = None
          then Some (path @ ''.required references unknown property '' @ lib_quote L name)
          else required_loop L properties path items (name # seen)
      | _ \<Rightarrow> Some (path @ ''.required is invalid''))"

definition required_error :: "golib \<Rightarrow> rule \<Rightarrow> string \<Rightarrow> string option" where
  "required_error L rule path =
     (case map_of rule ''required'' of
        None \<Rightarrow> None
      | Some (JArr items) \<Rightarrow>
          if type_is rule [''object''] then required_loop L (properties_of rule) path items []
          else Some (path @ ''.required requires an object schema'')
      | Some _ \<Rightarrow> Some (path @ ''.required requires an object schema''))"

definition required_names :: "rule \<Rightarrow> string list" where
  "required_names rule =
     (case map_of rule ''required'' of
        Some (JArr items) \<Rightarrow> concat (map (\<lambda>v. case v of JStr s \<Rightarrow> [s] | _ \<Rightarrow> []) items)
      | _ \<Rightarrow> [])"

definition validateVisibilityCondition ::
  "golib \<Rightarrow> json \<Rightarrow> string \<Rightarrow> rule \<Rightarrow> string \<Rightarrow> string option" where
  "validateVisibilityCondition L v fieldName properties currentPath =
     (case v of
        JObj condition \<Rightarrow>
          if length condition \<noteq> 2 then Some (currentPath @ '' must contain property and values'')
          else (case (map_of condition ''property'', map_of condition ''values'') of
              (Some (JStr propertyName), Some (JArr values)) \<Rightarrow>
                if propertyName = [] \<or> propertyName = fieldName \<or> values = []
                then Some (currentPath @ '' is invalid'')
                else (case map_of properties propertyName of
                    Some (JObj controller) \<Rightarrow>
                      (case array_field controller ''enum'' of
                         None \<Rightarrow> Some (currentPath @ '' requires an enum controller'')
                       | Some options \<Rightarrow>
                           if list_ex (\<lambda>current.
                               type_mismatch L controller current \<or>
                               \<not> list_ex (\<lambda>option. same_value L Literals option current) options) values
                           then Some (currentPath @ '' contains a value outside the controller enum'')
                           else None)
                  | _ \<Rightarrow> Some (currentPath @ '' references unknown property '' @ lib_quote L propertyName))
            | _ \<Rightarrow> Some (currentPath @ '' is invalid''))
      | _ \<Rightarrow> Some (currentPath @ '' must contain property and values''))"

definition visibility_error :: "golib \<Rightarrow> rule \<Rightarrow> string \<Rightarrow> string option" where
  "visibility_error L rule path =
     first_error (map (\<lambda>(name, property).
       case json_field ''x-kubephos-visible-when'' property of
         None \<Rightarrow> None
       | Some condition \<Rightarrow>
           if name \<in> set (required_names rule)
           then Some (path @ ''.properties.'' @ name @ '' cannot be required when conditionally visible'')
           else validateVisibilityCondition L condition name (properties_of rule)
             (path @ ''.properties.'' @ name @ ''.x-kubephos-visible-when'')) (properties_of rule))"

definition is_string :: "json \<Rightarrow> bool" where
  "is_string v \<longleftrightarrow> (case v of JStr _ \<Rightarrow> True | _ \<Rightarrow> False)"

definition is_bool :: "json \<Rightarrow> bool" where
  "is_bool v \<longleftrightarrow> (case v of JBool _ \<Rightarrow> True | _ \<Rightarrow> False)"

definition pattern_error :: "golib \<Rightarrow> rule \<Rightarrow> string \<Rightarrow> string option" where
  "pattern_error L rule path =
     (case map_of rule ''pattern'' of
        None \<Rightarrow> None
      | Some (JStr p) \<Rightarrow>
          if \<not> type_is rule [''string''] then Some (path @ ''.pattern requires a string schema'')
          else if lib_regexp L p = None then Some (path @ ''.pattern is invalid'') else None
      | Some _ \<Rightarrow> Some (path @ ''.pattern requires a string schema''))"

definition enum_error :: "golib \<Rightarrow> rule \<Rightarrow> string \<Rightarrow> string option" where
  "enum_error L rule path =
     (case map_of rule ''enum'' of
        None \<Rightarrow> None
      | Some (JArr items) \<Rightarrow>
          if items = [] then Some (path @ ''.enum must contain at least one value'')
          else if list_ex (type_mismatch L rule) items
          then Some (path @ ''.enum contains a value that does not match type '' @ string_field rule ''type'')
          else None
      | Some _ \<Rightarrow> Some (path @ ''.enum must contain at least one value''))"

definition action_errors :: "rule \<Rightarrow> string \<Rightarrow> string option list" where
  "action_errors rule path =
     [(case map_of rule ''x-kubephos-primary-action'' of
         None \<Rightarrow> None
       | Some (JBool enabled) \<Rightarrow>
           if enabled \<and> (array_field rule ''enum'' = None \<or>
             string_field rule ''type'' \<notin> {''string'', ''integer'', ''number''})
           then Some (path @ ''.x-kubephos-primary-action requires a string or numeric enum'') else None
       | Some _ \<Rightarrow> Some (path @ ''.x-kubephos-primary-action must be a boolean'')),
      (case map_of rule ''x-kubephos-multiline'' of
         None \<Rightarrow> None
       | Some (JBool enabled) \<Rightarrow>
           if enabled \<and> string_field rule ''type'' \<noteq> ''string''
           then Some (path @ ''.x-kubephos-multiline requires a boolean string schema'') else None
       | Some _ \<Rightarrow> Some (path @ ''.x-kubephos-multiline requires a boolean string schema''))]"

definition range_errors ::
  "(json option \<Rightarrow> rat option) \<Rightarrow> string \<Rightarrow> string \<Rightarrow> string list \<Rightarrow> string \<Rightarrow> rule \<Rightarrow> string \<Rightarrow> string option list" where
  "range_errors read low high types what rule path =
     [when_present rule low (\<lambda>v. read (Some v) \<noteq> None \<and> type_is rule types) (path @ ''.'' @ low @ what),
      when_present rule high (\<lambda>v. read (Some v) \<noteq> None \<and> type_is rule types) (path @ ''.'' @ high @ what),
      (case (read (map_of rule low), read (map_of rule high)) of
         (Some a, Some b) \<Rightarrow>
           if b < a then Some (path @ ''.'' @ low @ '' cannot exceed '' @ high) else None
       | _ \<Rightarrow> None)]"

definition default_error :: "golib \<Rightarrow> rule \<Rightarrow> string \<Rightarrow> string option" where
  "default_error L rule path =
     (case map_of rule ''default'' of
        None \<Rightarrow> None
      | Some v \<Rightarrow>
          (case validateValue L Literals rule v (path @ ''.default'') of
             [] \<Rightarrow> None
           | i # _ \<Rightarrow> Some (is_Path i @ '': '' @ is_Message i)))"

definition properties_shape_error :: "rule \<Rightarrow> string \<Rightarrow> string option" where
  "properties_shape_error rule path =
     when_present rule ''properties'' (\<lambda>v. object_field rule ''properties'' \<noteq> None \<and> type_is rule [''object''])
       (path @ ''.properties requires an object schema'')"

definition items_shape_error :: "rule \<Rightarrow> string \<Rightarrow> string option" where
  "items_shape_error rule path =
     when_present rule ''items'' (\<lambda>v. object_field rule ''items'' \<noteq> None \<and> type_is rule [''array''])
       (path @ ''.items requires an array schema'')"

definition keyword_value_errors :: "golib \<Rightarrow> rule \<Rightarrow> string \<Rightarrow> string option list" where
  "keyword_value_errors L rule path =
     [pattern_error L rule path,
      when_present rule ''additionalProperties'' (\<lambda>v. is_bool v \<and> type_is rule [''object''])
        (path @ ''.additionalProperties requires an object schema''),
      enum_error L rule path,
      when_present rule ''title'' is_string (path @ ''.title must be a string''),
      when_present rule ''description'' is_string (path @ ''.description must be a string''),
      when_present rule ''format'' is_string (path @ ''.format must be a string''),
      when_present rule ''writeOnly'' is_bool (path @ ''.writeOnly must be a boolean'')] @
     action_errors rule path @
     range_errors (number L) ''minimum'' ''maximum'' [''integer'', ''number''] '' requires a numeric schema'' rule path @
     range_errors (nonNegativeInteger L) ''minLength'' ''maxLength'' [''string'']
       '' requires a non-negative integer on a string schema'' rule path @
     range_errors (nonNegativeInteger L) ''minItems'' ''maxItems'' [''array'']
       '' requires a non-negative integer on an array schema'' rule path @
     [default_error L rule path]"

lemma size_object_field: "object_field rule k = Some r \<Longrightarrow> size (JObj r) < size (JObj rule)"
  by (auto simp: object_field_def split: option.splits json.splits dest!: map_of_SomeD size_field)

lemma size_property: "(name, JObj r) \<in> set (properties_of rule) \<Longrightarrow> size (JObj r) < size (JObj rule)"
  using size_field [of name "JObj r" "properties_of rule"] size_object_field [of rule "''properties''"]
  by (auto simp: properties_of_def split: option.splits)

function validateRule :: "golib \<Rightarrow> rule \<Rightarrow> string \<Rightarrow> string option" where
  "validateRule L rule path =
     first_error
       ([keyword_error rule path,
         when_present rule ''type'' (\<lambda>v. is_string v \<and> string_field rule ''type'' \<in> set type_names)
           (path @ ''.type is invalid''),
         properties_shape_error rule path] @
        map (\<lambda>(name, property). case property of
            JObj r \<Rightarrow> validateRule L r (path @ ''.properties.'' @ name)
          | _ \<Rightarrow> Some (path @ ''.properties.'' @ name @ '' must be an object'')) (properties_of rule) @
        [required_error L rule path, visibility_error L rule path,
         items_shape_error rule path,
         (case object_field rule ''items'' of
            None \<Rightarrow> None
          | Some r \<Rightarrow> validateRule L r (path @ ''.items''))] @
        keyword_value_errors L rule path)"
  by pat_completeness auto

termination
  by (relation "measure (\<lambda>(L, rule, path). size (JObj rule))")
    (auto dest: size_property size_object_field simp del: json.size)

declare validateRule.simps [simp del]

definition ValidateDefinition :: "golib \<Rightarrow> RawMessage \<Rightarrow> string option" where
  "ValidateDefinition L definition =
     (case definition of
        RawEmpty \<Rightarrow> Some ''invalid schema''
      | RawInvalid _ \<Rightarrow> Some ''invalid schema''
      | RawTrailing _ _ \<Rightarrow> Some ''schema must contain one JSON value''
      | RawDoc (JObj rule) \<Rightarrow> validateRule L rule ''$''
      | RawDoc _ \<Rightarrow> Some ''schema root must be an object'')"


section \<open>Conformance\<close>

text \<open>The declarative reading of a rule, without paths and messages.\<close>

definition bound_ok :: "rat option \<Rightarrow> (rat \<Rightarrow> bool) \<Rightarrow> bool" where
  "bound_ok bound ok \<longleftrightarrow> (\<forall>q. bound = Some q \<longrightarrow> ok q)"

definition string_ok :: "golib \<Rightarrow> rule \<Rightarrow> string \<Rightarrow> bool" where
  "string_ok L rule s \<longleftrightarrow>
     bound_ok (number L (map_of rule ''minLength'')) (\<lambda>q. q \<le> of_nat (rune_count s)) \<and>
     bound_ok (number L (map_of rule ''maxLength'')) (\<lambda>q. of_nat (rune_count s) \<le> q) \<and>
     (\<forall>p. map_of rule ''pattern'' = Some (JStr p) \<longrightarrow> (\<exists>m. lib_regexp L p = Some m \<and> m s)) \<and>
     (\<forall>path. format_issues L (string_field rule ''format'') s path = [])"

definition number_ok :: "golib \<Rightarrow> rule \<Rightarrow> string \<Rightarrow> bool" where
  "number_ok L rule n \<longleftrightarrow>
     (\<forall>v. lib_float L n = Some v \<longrightarrow>
        bound_ok (number L (map_of rule ''minimum'')) (\<lambda>q. q \<le> v) \<and>
        bound_ok (number L (map_of rule ''maximum'')) (\<lambda>q. v \<le> q))"

definition enum_ok :: "golib \<Rightarrow> number_mode \<Rightarrow> rule \<Rightarrow> json \<Rightarrow> bool" where
  "enum_ok L mode rule v \<longleftrightarrow>
     (\<forall>options. array_field rule ''enum'' = Some options \<longrightarrow> (\<exists>x \<in> set options. same_value L mode x v))"

inductive conforms :: "golib \<Rightarrow> number_mode \<Rightarrow> rule \<Rightarrow> json \<Rightarrow> bool" for L mode where
  conforms_object:
    "\<not> type_mismatch L rule (JObj kvs) \<Longrightarrow> enum_ok L mode rule (JObj kvs) \<Longrightarrow>
     \<forall>name \<in> set (stringSet (map_of rule ''required'')). map_of kvs name \<noteq> None \<Longrightarrow>
     \<forall>(name, item) \<in> set kvs.
       (property_of rule name = NoProperty \<longrightarrow> bool_field rule ''additionalProperties'' \<noteq> Some False) \<and>
       (\<forall>r. property_of rule name = PropertyRule r \<longrightarrow> conforms L mode r item) \<Longrightarrow>
     conforms L mode rule (JObj kvs)"
| conforms_array:
    "\<not> type_mismatch L rule (JArr items) \<Longrightarrow> enum_ok L mode rule (JArr items) \<Longrightarrow>
     bound_ok (number L (map_of rule ''minItems'')) (\<lambda>q. q \<le> of_nat (length items)) \<Longrightarrow>
     bound_ok (number L (map_of rule ''maxItems'')) (\<lambda>q. of_nat (length items) \<le> q) \<Longrightarrow>
     \<forall>r. object_field rule ''items'' = Some r \<longrightarrow> (\<forall>item \<in> set items. conforms L mode r item) \<Longrightarrow>
     conforms L mode rule (JArr items)"
| conforms_string:
    "\<not> type_mismatch L rule (JStr s) \<Longrightarrow> enum_ok L mode rule (JStr s) \<Longrightarrow> string_ok L rule s \<Longrightarrow>
     conforms L mode rule (JStr s)"
| conforms_number:
    "\<not> type_mismatch L rule (JNum n) \<Longrightarrow> enum_ok L mode rule (JNum n) \<Longrightarrow> number_ok L rule n \<Longrightarrow>
     conforms L mode rule (JNum n)"
| conforms_bool:
    "\<not> type_mismatch L rule (JBool b) \<Longrightarrow> enum_ok L mode rule (JBool b) \<Longrightarrow> conforms L mode rule (JBool b)"
| conforms_null:
    "\<not> type_mismatch L rule JNull \<Longrightarrow> enum_ok L mode rule JNull \<Longrightarrow> conforms L mode rule JNull"

inductive_simps conforms_simps:
  "conforms L mode rule (JObj kvs)" "conforms L mode rule (JArr items)" "conforms L mode rule (JStr s)"
  "conforms L mode rule (JNum n)" "conforms L mode rule (JBool b)" "conforms L mode rule JNull"

lemma enum_issues_Nil: "enum_issues L mode rule v path = [] \<longleftrightarrow> enum_ok L mode rule v"
  by (auto simp: enum_issues_def enum_ok_def list_ex_iff split: option.splits)

lemma bound_issues_Nil: "bound_issues b broken path m = [] \<longleftrightarrow> bound_ok b (\<lambda>q. \<not> broken q)"
  by (auto simp: bound_issues_def bound_ok_def split: option.splits)

lemma format_issues_path: "format_issues L f s path = [] \<longleftrightarrow> format_issues L f s path' = []"
  by (simp add: format_issues_def)

lemma string_issues_Nil: "string_issues L rule s path = [] \<longleftrightarrow> string_ok L rule s"
  using format_issues_path [of L "string_field rule ''format''" s path]
  by (auto simp: string_issues_def string_ok_def bound_issues_Nil not_less split: option.splits json.splits)

lemma number_issues_Nil: "number_issues L rule n path = [] \<longleftrightarrow> number_ok L rule n"
  by (auto simp: number_issues_def number_ok_def bound_issues_Nil not_less split: option.splits)

lemma set_sorted_names [simp]: "set (sorted_names names) = set names"
  by (force simp: sorted_names_def image_image)

lemma concat_map_Nil: "concat (map f xs) = [] \<longleftrightarrow> (\<forall>x \<in> set xs. f x = [])"
  by auto

lemma required_issues_Nil:
  "required_issues rule kvs path = [] \<longleftrightarrow>
     (\<forall>name \<in> set (stringSet (map_of rule ''required'')). map_of kvs name \<noteq> None)"
  unfolding required_issues_def concat_map_Nil by simp

lemmas issues_Nil = enum_issues_Nil bound_issues_Nil string_issues_Nil number_issues_Nil required_issues_Nil

text \<open>The validator's equation per kind of value.\<close>

definition field_issues :: "golib \<Rightarrow> number_mode \<Rightarrow> rule \<Rightarrow> string \<Rightarrow> string \<times> json \<Rightarrow> Issue list" where
  "field_issues L mode rule path field =
     (case property_of rule (fst field) of
        NoProperty \<Rightarrow>
          if bool_field rule ''additionalProperties'' = Some False
          then [issue (path @ ''.'' @ fst field) ''Property is not allowed.''] else []
      | OpaqueProperty \<Rightarrow> []
      | PropertyRule r \<Rightarrow> validateValue L mode r (snd field) (path @ ''.'' @ fst field))"

lemma validateValue_object:
  "\<not> type_mismatch L rule (JObj kvs) \<Longrightarrow>
   validateValue L mode rule (JObj kvs) path =
     enum_issues L mode rule (JObj kvs) path @ required_issues rule kvs path @
     concat (map snd (sort_keys (map (\<lambda>field. (fst field, field_issues L mode rule path field)) kvs)))"
  by (subst validateValue.simps) (simp add: field_issues_def case_prod_unfold)

lemma validateValue_array:
  "\<not> type_mismatch L rule (JArr items) \<Longrightarrow>
   validateValue L mode rule (JArr items) path =
     enum_issues L mode rule (JArr items) path @ array_bound_issues L rule (length items) path @
     (case object_field rule ''items'' of
        None \<Rightarrow> []
      | Some r \<Rightarrow>
          concat (map (\<lambda>i. validateValue L mode r (items ! i) (path @ ''['' @ show_nat i @ '']'')) [0..<length items]))"
  by (subst validateValue.simps) simp

lemma validateValue_scalars:
  "\<not> type_mismatch L rule (JStr s) \<Longrightarrow>
     validateValue L mode rule (JStr s) path = enum_issues L mode rule (JStr s) path @ string_issues L rule s path"
  "\<not> type_mismatch L rule (JNum n) \<Longrightarrow>
     validateValue L mode rule (JNum n) path = enum_issues L mode rule (JNum n) path @ number_issues L rule n path"
  "\<not> type_mismatch L rule (JBool b) \<Longrightarrow>
     validateValue L mode rule (JBool b) path = enum_issues L mode rule (JBool b) path"
  "\<not> type_mismatch L rule JNull \<Longrightarrow> validateValue L mode rule JNull path = enum_issues L mode rule JNull path"
  by (subst validateValue.simps, simp)+

lemma validateValue_mismatch:
  "type_mismatch L rule v \<Longrightarrow>
   validateValue L mode rule v path = [issue path (''Value must be '' @ string_field rule ''type'' @ ''.'')]"
  by (subst validateValue.simps) simp

lemmas validateValue_equations = validateValue_object validateValue_array validateValue_scalars

lemma sorted_fields_Nil:
  "concat (map snd (sort_keys (map (\<lambda>field. (fst field, g field)) kvs))) = [] \<longleftrightarrow> (\<forall>field \<in> set kvs. g field = [])"
  by (simp add: concat_map_Nil)

lemma conforms_no_mismatch: "conforms L mode rule v \<Longrightarrow> \<not> type_mismatch L rule v"
  by (cases rule: conforms.cases) auto

lemma validateValue_conforms: "validateValue L mode rule v path = [] \<longleftrightarrow> conforms L mode rule v"
proof (induction v arbitrary: rule path)
  case (JObj kvs)
  then have IH: "validateValue L mode r item p = [] \<longleftrightarrow> conforms L mode r item" if "(name, item) \<in> set kvs" for r p name item
    using that by fastforce
  show ?case
  proof (cases "type_mismatch L rule (JObj kvs)")
    case False
    have "(\<forall>field \<in> set kvs. field_issues L mode rule path field = []) \<longleftrightarrow>
        (\<forall>(name, item) \<in> set kvs.
          (property_of rule name = NoProperty \<longrightarrow> bool_field rule ''additionalProperties'' \<noteq> Some False) \<and>
          (\<forall>r. property_of rule name = PropertyRule r \<longrightarrow> conforms L mode r item))"
      using IH by (intro ball_cong) (auto simp: field_issues_def split: property_rule.splits if_splits)
    with False show ?thesis
      by (simp add: validateValue_object conforms_simps issues_Nil sorted_fields_Nil)
  qed (auto simp: validateValue_mismatch dest: conforms_no_mismatch)
next
  case (JArr items)
  then have IH: "validateValue L mode r (items ! i) p = [] \<longleftrightarrow> conforms L mode r (items ! i)" if "i < length items" for r p i
    using that by simp
  show ?case
  proof (cases "type_mismatch L rule (JArr items)")
    case False
    then show ?thesis
      using IH
      by (auto simp: validateValue_array conforms_simps issues_Nil array_bound_issues_def not_less
          all_set_conv_all_nth concat_map_Nil split: option.splits)
  qed (auto simp: validateValue_mismatch dest: conforms_no_mismatch)
qed (auto simp: validateValue.simps conforms_simps issues_Nil)



section \<open>Accepted rules\<close>

text \<open>The rules inside a rule: its properties' and its items' rules, at any depth.\<close>

inductive sub_rule :: "rule \<Rightarrow> rule \<Rightarrow> bool" where
  sub_self: "sub_rule rule rule"
| sub_property: "(name, JObj r) \<in> set (properties_of rule) \<Longrightarrow> sub_rule r r' \<Longrightarrow> sub_rule rule r'"
| sub_items: "object_field rule ''items'' = Some r \<Longrightarrow> sub_rule r r' \<Longrightarrow> sub_rule rule r'"

lemma validateRule_None:
  assumes ok: "validateRule L rule path = None"
  shows "(name, JObj r) \<in> set (properties_of rule) \<Longrightarrow> validateRule L r (path @ ''.properties.'' @ name) = None"
    and "object_field rule ''items'' = Some r \<Longrightarrow> validateRule L r (path @ ''.items'') = None"
    and "e \<in> set (keyword_value_errors L rule path) \<Longrightarrow> e = None"
proof -
  note parts = ok [unfolded validateRule.simps [of L rule path] first_error_None]
  show "validateRule L r (path @ ''.properties.'' @ name) = None" if "(name, JObj r) \<in> set (properties_of rule)"
  proof -
    let ?check = "\<lambda>(name, property). case property of
        JObj r \<Rightarrow> validateRule L r (path @ ''.properties.'' @ name)
      | _ \<Rightarrow> Some (path @ ''.properties.'' @ name @ '' must be an object'')"
    have "?check (name, JObj r) \<in> ?check ` set (properties_of rule)"
      using that by (rule imageI)
    with parts have "?check (name, JObj r) = None"
      by (simp only: set_append set_map Un_iff ball_Un)
    then show ?thesis by (simp only: prod.case json.case)
  qed
  show "validateRule L r (path @ ''.items'') = None" if "object_field rule ''items'' = Some r"
    using parts that by simp
  show "e = None" if "e \<in> set (keyword_value_errors L rule path)"
    using parts that by simp
qed

lemma validateRule_sub:
  "sub_rule rule r \<Longrightarrow> validateRule L rule path = None \<Longrightarrow> \<exists>p. validateRule L r p = None"
proof (induction arbitrary: path rule: sub_rule.induct)
  case (sub_property name r rule r')
  then show ?case using validateRule_None(1) by blast
next
  case (sub_items rule r r')
  then show ?case using validateRule_None(2) by blast
qed blast

lemma validateRule_default:
  assumes "validateRule L rule path = None" and "map_of rule ''default'' = Some v"
  shows "conforms L Literals rule v"
proof -
  have "default_error L rule path = None"
    using validateRule_None(3) [OF assms(1)] by (simp add: keyword_value_errors_def)
  then show ?thesis
    using assms(2) validateValue_conforms [of L Literals rule v "path @ ''.default''"]
    by (simp add: default_error_def split: list.splits)
qed

lemma validateRule_pattern:
  assumes "validateRule L rule path = None" and "map_of rule ''pattern'' = Some p"
  shows "\<exists>s m. p = JStr s \<and> lib_regexp L s = Some m"
proof -
  have "pattern_error L rule path = None"
    using validateRule_None(3) [OF assms(1)] by (simp add: keyword_value_errors_def)
  then show ?thesis using assms(2) by (auto simp: pattern_error_def split: json.splits if_splits)
qed

lemma range_errors_ordered:
  "\<forall>e \<in> set (range_errors rd low high types what rule path). e = None \<Longrightarrow>
   rd (map_of rule low) = Some a \<Longrightarrow> rd (map_of rule high) = Some b \<Longrightarrow> a \<le> b"
  by (auto simp: range_errors_def split: if_splits)

lemma validateRule_ranges:
  assumes "validateRule L rule path = None"
  shows "number L (map_of rule ''minimum'') = Some a \<Longrightarrow> number L (map_of rule ''maximum'') = Some b \<Longrightarrow> a \<le> b"
proof (rule range_errors_ordered)
  show "\<forall>e \<in> set (range_errors (number L) ''minimum'' ''maximum'' [''integer'', ''number'']
      '' requires a numeric schema'' rule path). e = None"
    using validateRule_None(3) [OF assms] by (auto simp: keyword_value_errors_def)
qed auto

text \<open>
  In a schema that \<open>ValidateDefinition\<close> accepts, every rule at every depth has a default that
  conforms to it, a pattern that compiles and a numeric range that is not empty.
\<close>

theorem accepted_schema_consistent:
  assumes "ValidateDefinition L (RawDoc (JObj rule)) = None" and "sub_rule rule r"
  shows "(\<forall>v. map_of r ''default'' = Some v \<longrightarrow> conforms L Literals r v) \<and>
    (\<forall>p. map_of r ''pattern'' = Some p \<longrightarrow> (\<exists>s m. p = JStr s \<and> lib_regexp L s = Some m)) \<and>
    (\<forall>a b. number L (map_of r ''minimum'') = Some a \<longrightarrow> number L (map_of r ''maximum'') = Some b \<longrightarrow> a \<le> b)"
proof -
  obtain p where "validateRule L r p = None"
    using assms validateRule_sub by (fastforce simp: ValidateDefinition_def)
  then show ?thesis
    using validateRule_default validateRule_pattern validateRule_ranges by blast
qed

section \<open>Paths of issues\<close>

lemma has_prefix_trans: "has_prefix (p @ q) s \<Longrightarrow> has_prefix p s"
  by (auto simp: has_prefix_iff)

lemma has_prefix_refl [simp]: "has_prefix p p"
  by (simp add: has_prefix_def)

lemma issue_Path [simp]: "is_Path (issue path m) = path"
  by (simp add: issue_def)

lemma enum_issue_path: "i \<in> set (enum_issues L mode rule v path) \<Longrightarrow> is_Path i = path"
  by (auto simp: enum_issues_def split: option.splits if_splits)

lemma bound_issue_path: "i \<in> set (bound_issues b broken path m) \<Longrightarrow> is_Path i = path"
  by (auto simp: bound_issues_def split: option.splits if_splits)

lemma format_issue_path: "i \<in> set (format_issues L f s path) \<Longrightarrow> is_Path i = path"
  unfolding format_issues_def by (simp split: if_splits)

lemmas leaf_issue_paths = enum_issue_path bound_issue_path format_issue_path

lemma guarded_issue_path: "i \<in> set (if ok then [] else [issue path m]) \<Longrightarrow> is_Path i = path"
  by (auto split: if_splits)

lemma string_issue_path: "i \<in> set (string_issues L rule s path) \<Longrightarrow> is_Path i = path"
  unfolding string_issues_def set_append Un_iff
  by (elim disjE) (auto dest: bound_issue_path format_issue_path guarded_issue_path split: option.split_asm json.split_asm)

lemma number_issue_path: "i \<in> set (number_issues L rule n path) \<Longrightarrow> is_Path i = path"
  unfolding number_issues_def by (cases "lib_float L n") (auto dest: bound_issue_path)

lemma array_issue_path: "i \<in> set (array_bound_issues L rule k path) \<Longrightarrow> is_Path i = path"
  unfolding array_bound_issues_def set_append Un_iff by (elim disjE) (erule bound_issue_path)+

lemmas scalar_issue_paths = string_issue_path number_issue_path array_issue_path

lemma required_issue_paths: "i \<in> set (required_issues rule kvs path) \<Longrightarrow> has_prefix path (is_Path i)"
  by (auto simp: required_issues_def issue_def split: if_splits)

text \<open>
  Every issue points into the value it was found in: its path extends the path of the
  validated value.
\<close>

theorem issue_paths_extend:
  assumes "i \<in> set (validateValue L mode rule v path)"
  shows "has_prefix path (is_Path i)"
  using assms
proof (induction v arbitrary: rule path)
  case (JObj kvs)
  show ?case
  proof (cases "type_mismatch L rule (JObj kvs)")
    case False
    have field: "has_prefix path (is_Path i)" if "(name, item) \<in> set kvs" "i \<in> set (field_issues L mode rule path (name, item))"
      for name item
      using that JObj.IH [of "(name, item)" item] has_prefix_trans [of path "''.'' @ name"]
      by (auto simp: field_issues_def issue_def split: property_rule.splits if_splits)
    from False JObj.prems show ?thesis
      by (auto simp: validateValue_object dest: leaf_issue_paths required_issue_paths field)
  qed (use JObj.prems in \<open>auto simp: validateValue_mismatch issue_def\<close>)
next
  case (JArr items)
  show ?case
  proof (cases "type_mismatch L rule (JArr items)")
    case False
    have item: "has_prefix path (is_Path i)"
      if "k < length items" "i \<in> set (validateValue L mode r (items ! k) (path @ CHR ''['' # show_nat k @ '']''))" for k r
      using that JArr.IH [of "items ! k" r "path @ CHR ''['' # show_nat k @ '']''"]
        has_prefix_trans [of path "CHR ''['' # show_nat k @ '']''"] by simp
    from False JArr.prems show ?thesis
      by (auto simp: validateValue_array dest: leaf_issue_paths scalar_issue_paths item split: option.splits)
  qed (use JArr.prems in \<open>auto simp: validateValue_mismatch issue_def\<close>)
qed (auto simp: validateValue.simps issue_def dest: leaf_issue_paths scalar_issue_paths split: if_splits)

section \<open>Witnesses\<close>

definition sample_lib :: golib where
  "sample_lib =
     \<lparr>lib_regexp = (\<lambda>p. if p = ''a'' then Some (\<lambda>s. contains_str ''a'' s) else None),
      lib_absolute_uri = (\<lambda>s. has_prefix ''http://h'' s),
      lib_float = (\<lambda>n. map_option of_nat (parse_uint 31 n)),
      lib_show_float = (\<lambda>q. show_int \<lfloor>q\<rfloor>),
      lib_quote = (\<lambda>s. CHR 0x22 # s @ [CHR 0x22]), lib_refloat = (\<lambda>n. n)\<rparr>"

definition sample_rule :: rule where
  "sample_rule = [(''type'', JStr ''string''), (''default'', JStr ''x'')]"

lemma sample_rule_parts:
  "keyword_error sample_rule p = None" "properties_of sample_rule = []" "object_field sample_rule ''items'' = None"
  "string_field sample_rule ''type'' = ''string''" "array_field sample_rule ''enum'' = None"
  by (simp_all add: sample_rule_def keyword_error_def supportedKeywords_def properties_of_def object_field_def
      string_field_def array_field_def)

lemma sample_rule_fields:
  "map_of sample_rule k =
     (if k = ''type'' then Some (JStr ''string'') else if k = ''default'' then Some (JStr ''x'') else None)"
  by (simp add: sample_rule_def)

lemma sample_rule_default: "validateValue sample_lib Literals sample_rule (JStr ''x'') path = []"
  by (subst validateValue_scalars)
    (simp_all add: sample_rule_parts sample_rule_fields type_mismatch_def matchesType_def enum_issues_def
      string_issues_def bound_issues_def format_issues_def number_def string_field_def)

lemma sample_rule_values: "e \<in> set (keyword_value_errors sample_lib sample_rule path) \<Longrightarrow> e = None"
  by (auto simp: keyword_value_errors_def pattern_error_def when_present_def enum_error_def action_errors_def
      range_errors_def default_error_def sample_rule_fields sample_rule_default number_def nonNegativeInteger_def)

lemma sample_rule_accepted: "ValidateDefinition sample_lib (RawDoc (JObj sample_rule)) = None"
  unfolding ValidateDefinition_def
  by (simp add: validateRule.simps [of sample_lib sample_rule "''$''"] first_error_None sample_rule_parts sample_rule_values
      sample_rule_fields when_present_def is_string_def type_names_def properties_shape_error_def
      required_error_def visibility_error_def items_shape_error_def)

theorem accepted_schema_consistent_witness:
  "ValidateDefinition sample_lib (RawDoc (JObj sample_rule)) = None \<and>
   conforms sample_lib Literals sample_rule (JStr ''x'')"
  using sample_rule_accepted accepted_schema_consistent [OF sample_rule_accepted sub_self]
  by (simp add: sample_rule_def)

theorem issue_paths_extend_witness:
  "issue ''$'' ''Value must be string.'' \<in> set (validateValue sample_lib Floats sample_rule JNull ''$'') \<and>
   has_prefix ''$'' (is_Path (issue ''$'' ''Value must be string.''))"
proof -
  have i: "issue ''$'' ''Value must be string.'' \<in> set (validateValue sample_lib Floats sample_rule JNull ''$'')"
    by (simp add: validateValue.simps sample_rule_def type_mismatch_def matchesType_def string_field_def)
  show ?thesis using i issue_paths_extend [OF i] by blast
qed

end
