(* ===== verification/Plugins.thy ===== *)
theory Plugins
  imports Json
begin

text \<open>
  The plugin interface and the registry of \<open>plugins/plugin.go\<close>. A plugin is code outside the
  program: a record of the functions of its interface, over a type \<open>'w\<close> of the world it acts on.
  The registry keeps the installed plugins and the set of bundled ones; its operations never
  touch a bundled plugin.
\<close>

section \<open>The interface\<close>

text \<open>
  \<open>Validate\<close> and \<open>Plan\<close> are the answers the plugin gives at the call; \<open>Precheck\<close>, \<open>Execute\<close>,
  \<open>Verify\<close> and \<open>Cleanup\<close> act on the world. A failure is its message and whether it is a cancellation
  (\<open>errors.Is(err, context.Canceled)\<close>); \<open>Execute\<close> returns a result beside its error.
\<close>

record failure =
  fl_Message :: string
  fl_Canceled :: bool

record 'w Plugin =
  plugin_Manifest :: Manifest
  plugin_Validate :: "RawMessage \<Rightarrow> ValidationReport"
  plugin_Plan :: "RawMessage \<Rightarrow> string + Plan"
  plugin_Precheck :: "PlanStep \<Rightarrow> 'w \<Rightarrow> (failure + HealthReport) \<times> 'w"
  plugin_Execute :: "PlanStep \<Rightarrow> 'w \<Rightarrow> (RawMessage \<times> failure option) \<times> 'w"
  plugin_Verify :: "PlanStep \<Rightarrow> RawMessage \<Rightarrow> 'w \<Rightarrow> (failure + HealthReport) \<times> 'w"
  plugin_Cleanup :: "PlanStep \<Rightarrow> RawMessage \<Rightarrow> 'w \<Rightarrow> failure option \<times> 'w"

section \<open>The registry\<close>

text \<open>The two maps of the registry; a nil plugin argument is \<open>None\<close>.\<close>

record 'w Registry =
  reg_plugins :: "(string \<times> 'w Plugin) list"
  reg_bundled :: "string list"

datatype registry_error =
    NotInstalled string
  | PluginInvalid
  | BundledReplaced string
  | BundledRemoved string
  | ExternalDuplicated string

definition plugin_id :: "'w Plugin \<Rightarrow> string" where
  "plugin_id p = mf_ID (plugin_Manifest p)"

definition NewRegistry :: "'w Plugin list \<Rightarrow> 'w Registry" where
  "NewRegistry ps =
     fold (\<lambda>p r. \<lparr>reg_plugins = obj_set (plugin_id p) p (reg_plugins r), reg_bundled = List.insert (plugin_id p) (reg_bundled r)\<rparr>)
       ps \<lparr>reg_plugins = [], reg_bundled = []\<rparr>"

definition Get :: "'w Registry \<Rightarrow> string \<Rightarrow> registry_error + 'w Plugin" where
  "Get r pluginID =
     (case map_of (reg_plugins r) pluginID of None \<Rightarrow> Inl (NotInstalled pluginID) | Some p \<Rightarrow> Inr p)"

definition Manifests :: "'w Registry \<Rightarrow> Manifest list" where
  "Manifests r = map snd (sort_keys (map (\<lambda>(k, p). (mf_Name (plugin_Manifest p), plugin_Manifest p)) (reg_plugins r)))"

definition IsBundled :: "'w Registry \<Rightarrow> string \<Rightarrow> bool" where
  "IsBundled r pluginID \<longleftrightarrow> pluginID \<in> set (reg_bundled r)"

definition ExternalIDs :: "'w Registry \<Rightarrow> string list" where
  "ExternalIDs r =
     map fst (sort_keys (filter (\<lambda>(k, p). \<not> IsBundled r k) (reg_plugins r)))"

definition Install :: "'w Plugin option \<Rightarrow> 'w Registry \<Rightarrow> registry_error + 'w Registry" where
  "Install plugin r =
     (case plugin of
        None \<Rightarrow> Inl PluginInvalid
      | Some p \<Rightarrow>
          if plugin_id p = [] then Inl PluginInvalid
          else if IsBundled r (plugin_id p) then Inl (BundledReplaced (plugin_id p))
          else Inr (r\<lparr>reg_plugins := obj_set (plugin_id p) p (reg_plugins r)\<rparr>))"

text \<open>One iteration of the loop of \<open>ReplaceExternal\<close> over the new plugins.\<close>

definition add_external ::
  "'w Registry \<Rightarrow> 'w Plugin option \<Rightarrow> (string \<times> 'w Plugin) list \<Rightarrow> registry_error + (string \<times> 'w Plugin) list" where
  "add_external r plugin next =
     (case plugin of
        None \<Rightarrow> Inl PluginInvalid
      | Some p \<Rightarrow>
          if plugin_id p = [] then Inl PluginInvalid
          else if IsBundled r (plugin_id p) then Inl (BundledReplaced (plugin_id p))
          else if map_of next (plugin_id p) \<noteq> None then Inl (ExternalDuplicated (plugin_id p))
          else Inr (obj_set (plugin_id p) p next))"

text \<open>
  The kept entries are those of the bundled names; a bundled name without a plugin would be
  kept with a nil plugin, which the invariant below excludes.
\<close>

definition kept_bundled :: "'w Registry \<Rightarrow> (string \<times> 'w Plugin) list" where
  "kept_bundled r = filter (\<lambda>(k, p). IsBundled r k) (reg_plugins r)"

definition ReplaceExternal :: "'w Plugin option list \<Rightarrow> 'w Registry \<Rightarrow> registry_error + 'w Registry" where
  "ReplaceExternal ps r =
     (case fold_err (add_external r) ps (kept_bundled r) of
        Inl e \<Rightarrow> Inl e
      | Inr next \<Rightarrow> Inr (r\<lparr>reg_plugins := next\<rparr>))"

definition Remove :: "string \<Rightarrow> 'w Registry \<Rightarrow> registry_error + 'w Registry" where
  "Remove pluginID r =
     (if IsBundled r pluginID then Inl (BundledRemoved pluginID)
      else Inr (r\<lparr>reg_plugins := filter (\<lambda>(k, p). k \<noteq> pluginID) (reg_plugins r)\<rparr>))"

section \<open>Any sequence of operations\<close>

datatype 'w registry_op =
    InstallOp "'w Plugin option"
  | ReplaceOp "'w Plugin option list"
  | RemoveOp string

fun apply_op :: "'w registry_op \<Rightarrow> 'w Registry \<Rightarrow> registry_error + 'w Registry" where
  "apply_op (InstallOp p) r = Install p r"
| "apply_op (ReplaceOp ps) r = ReplaceExternal ps r"
| "apply_op (RemoveOp k) r = Remove k r"

text \<open>A failed operation leaves the registry as it was.\<close>

definition run_op :: "'w registry_op \<Rightarrow> 'w Registry \<Rightarrow> 'w Registry" where
  "run_op op r = (case apply_op op r of Inl _ \<Rightarrow> r | Inr r' \<Rightarrow> r')"

text \<open>
  The invariant: one entry per identifier, every plugin under its own identifier, and every
  bundled identifier installed.
\<close>

definition registry_ok :: "'w Registry \<Rightarrow> bool" where
  "registry_ok r \<longleftrightarrow>
     distinct (map fst (reg_plugins r)) \<and>
     (\<forall>(k, p) \<in> set (reg_plugins r). plugin_id p = k) \<and>
     set (reg_bundled r) \<subseteq> fst ` set (reg_plugins r)"

lemma obj_set_entries: "set (obj_set k v kvs) \<subseteq> insert (k, v) (set kvs)"
  by (induction k v kvs rule: obj_set.induct) auto

text \<open>What every operation keeps of the table, relative to the registry it started from.\<close>

definition table_ok :: "'w Registry \<Rightarrow> (string \<times> 'w Plugin) list \<Rightarrow> bool" where
  "table_ok r kvs \<longleftrightarrow>
     distinct (map fst kvs) \<and> (\<forall>(k, p) \<in> set kvs. plugin_id p = k) \<and>
     (\<forall>k. IsBundled r k \<longrightarrow> map_of kvs k = map_of (reg_plugins r) k)"

lemma table_ok_start: "registry_ok r \<Longrightarrow> table_ok r (reg_plugins r)"
  by (simp add: table_ok_def registry_ok_def)

lemma table_ok_set:
  assumes "table_ok r kvs" and "\<not> IsBundled r (plugin_id p)"
  shows "table_ok r (obj_set (plugin_id p) p kvs)"
  using assms obj_set_entries [of "plugin_id p" p kvs] by (auto simp: table_ok_def distinct_obj_set map_of_obj_set)

lemma table_ok_filter:
  assumes "table_ok r kvs" and "\<forall>k. IsBundled r k \<longrightarrow> P k"
  shows "table_ok r (filter (\<lambda>(k, p). P k) kvs)"
  using assms by (auto simp: table_ok_def map_of_filter_key distinct_map_filter)

lemma registry_ok_update:
  assumes "registry_ok r" and "table_ok r kvs"
  shows "registry_ok (r\<lparr>reg_plugins := kvs\<rparr>)"
proof -
  have "k \<in> fst ` set kvs" if "k \<in> set (reg_bundled r)" for k
  proof -
    have "map_of (reg_plugins r) k \<noteq> None" using assms(1) that by (auto simp: registry_ok_def map_of_eq_None_iff)
    then have "map_of kvs k \<noteq> None" using assms(2) that by (simp add: table_ok_def IsBundled_def)
    then show ?thesis by (simp add: map_of_eq_None_iff)
  qed
  with assms show ?thesis by (auto simp: registry_ok_def table_ok_def)
qed

lemma add_external_ok: "add_external r p next = Inr next' \<Longrightarrow> table_ok r next \<Longrightarrow> table_ok r next'"
  by (auto simp: add_external_def table_ok_set split: option.splits if_splits)

text \<open>The contract of every operation of the registry that may succeed.\<close>

lemma apply_op_table:
  assumes ok: "registry_ok r" and step: "apply_op op r = Inr r'"
  shows "\<exists>kvs. r' = r\<lparr>reg_plugins := kvs\<rparr> \<and> table_ok r kvs"
proof (cases op)
  case (InstallOp p)
  with step ok show ?thesis
    by (auto simp: Install_def table_ok_set table_ok_start split: option.splits if_splits)
next
  case (ReplaceOp ps)
  with step obtain next' where n: "fold_err (add_external r) ps (kept_bundled r) = Inr next'" "r' = r\<lparr>reg_plugins := next'\<rparr>"
    by (auto simp: ReplaceExternal_def split: sum.splits)
  have "table_ok r (kept_bundled r)"
    unfolding kept_bundled_def using ok by (intro table_ok_filter) (auto intro: table_ok_start)
  with n show ?thesis using fold_err_invariant [of "add_external r" ps _ next' "table_ok r"] add_external_ok by blast
next
  case (RemoveOp k)
  with step ok table_ok_filter [OF table_ok_start [OF ok], of "\<lambda>k'. k' \<noteq> k"] show ?thesis
    by (auto simp: Remove_def split: if_splits)
qed

lemma run_op_contract:
  assumes "registry_ok r"
  shows "registry_ok (run_op op r)" and "reg_bundled (run_op op r) = reg_bundled r"
    and "IsBundled r k \<Longrightarrow> Get (run_op op r) k = Get r k"
proof -
  consider (same) "run_op op r = r" | (table) kvs where "run_op op r = r\<lparr>reg_plugins := kvs\<rparr>" "table_ok r kvs"
  proof (cases "apply_op op r")
    case (Inl e)
    then show thesis using same by (simp add: run_op_def)
  next
    case (Inr r')
    then show thesis using table apply_op_table [OF assms Inr] by (auto simp: run_op_def)
  qed
  note cases = this
  show "registry_ok (run_op op r)"
    by (cases rule: cases) (use assms registry_ok_update in auto)
  show "reg_bundled (run_op op r) = reg_bundled r"
    by (cases rule: cases) auto
  show "Get (run_op op r) k = Get r k" if "IsBundled r k"
    by (cases rule: cases) (use that in \<open>auto simp: Get_def table_ok_def\<close>)
qed

lemma run_ops_contract:
  "registry_ok r \<Longrightarrow>
   registry_ok (fold run_op ops r) \<and> reg_bundled (fold run_op ops r) = reg_bundled r \<and>
   (\<forall>k. IsBundled r k \<longrightarrow> Get (fold run_op ops r) k = Get r k)"
proof (induction ops arbitrary: r)
  case (Cons op ops)
  with run_op_contract [OF Cons.prems] show ?case by (simp add: IsBundled_def)
qed simp

lemma NewRegistry_snoc:
  "NewRegistry (ps @ [p]) =
     \<lparr>reg_plugins = obj_set (plugin_id p) p (reg_plugins (NewRegistry ps)),
      reg_bundled = List.insert (plugin_id p) (reg_bundled (NewRegistry ps))\<rparr>"
  by (simp add: NewRegistry_def)

lemma NewRegistry_Nil: "NewRegistry [] = \<lparr>reg_plugins = [], reg_bundled = []\<rparr>"
  by (simp add: NewRegistry_def)

lemma NewRegistry_ok:
  "registry_ok (NewRegistry ps) \<and> set (reg_bundled (NewRegistry ps)) = plugin_id ` set ps \<and>
   (\<forall>(k, p) \<in> set (reg_plugins (NewRegistry ps)). p \<in> set ps)"
proof (induction ps rule: rev_induct)
  case (snoc p ps)
  let ?kvs = "reg_plugins (NewRegistry ps)"
  have "fst ` set (obj_set (plugin_id p) p ?kvs) = insert (plugin_id p) (fst ` set ?kvs)"
    using fst_set_obj_set [of "plugin_id p" p ?kvs] by simp
  moreover have "plugin_id ` set ps \<subseteq> fst ` set ?kvs" using snoc by (auto simp: registry_ok_def)
  ultimately have "plugin_id ` set (ps @ [p]) \<subseteq> fst ` set (obj_set (plugin_id p) p ?kvs)" by auto
  with snoc obj_set_entries [of "plugin_id p" p ?kvs] show ?case
    by (auto simp: NewRegistry_snoc registry_ok_def distinct_obj_set)
qed (simp add: NewRegistry_Nil registry_ok_def)

text \<open>
  Whatever sequence of installs, replacements of all external plugins and removals is
  attempted, successful or not, every plugin the program was started with stays available under
  its identifier, and every entry of the registry stays under the identifier of its own manifest.
\<close>

theorem bundled_plugins_kept:
  "registry_ok (fold run_op ops (NewRegistry ps)) \<and>
   (\<forall>k \<in> plugin_id ` set ps. \<exists>p \<in> set ps. plugin_id p = k \<and> Get (fold run_op ops (NewRegistry ps)) k = Inr p)"
proof -
  let ?r = "NewRegistry ps"
  have ok: "registry_ok ?r" and bundled: "set (reg_bundled ?r) = plugin_id ` set ps"
    and from_ps: "\<And>k p. (k, p) \<in> set (reg_plugins ?r) \<Longrightarrow> p \<in> set ps"
    using NewRegistry_ok [of ps] by auto
  have "\<exists>p \<in> set ps. plugin_id p = k \<and> Get ?r k = Inr p" if k: "k \<in> plugin_id ` set ps" for k
  proof -
    obtain p where p: "map_of (reg_plugins ?r) k = Some p"
    proof (cases "map_of (reg_plugins ?r) k")
      case None
      with k ok bundled have False by (auto simp: map_of_eq_None_iff registry_ok_def)
      then show thesis ..
    qed blast
    then have "(k, p) \<in> set (reg_plugins ?r)" by (rule map_of_SomeD)
    with p from_ps ok show ?thesis by (auto simp: Get_def registry_ok_def)
  qed
  with run_ops_contract [OF ok, of ops] bundled show ?thesis by (simp add: IsBundled_def)
qed

text \<open>A registry with one bundled plugin, and an attempt to replace and to remove it.\<close>

definition trivial_plugin :: "string \<Rightarrow> unit Plugin" where
  "trivial_plugin pid =
     \<lparr>plugin_Manifest = \<lparr>mf_ID = pid, mf_Provider = [], mf_Name = ''n'', mf_Version = ''1'', mf_Schema = RawDoc (JObj []),
        mf_ArtifactInputs = [], mf_ArtifactOutputs = [], mf_Capabilities = [], mf_RuntimeDigest = []\<rparr>,
      plugin_Validate = (\<lambda>_. \<lparr>vr_Valid = True, vr_Issues = [], vr_CheckedAt = 0\<rparr>),
      plugin_Plan = (\<lambda>_. Inl ''no plan''),
      plugin_Precheck = (\<lambda>_ w. (Inr \<lparr>hr_Status = HealthHealthy, hr_Summary = [], hr_Checks = []\<rparr>, w)),
      plugin_Execute = (\<lambda>_ w. ((RawDoc (JObj []), None), w)),
      plugin_Verify = (\<lambda>_ _ w. (Inr \<lparr>hr_Status = HealthHealthy, hr_Summary = [], hr_Checks = []\<rparr>, w)),
      plugin_Cleanup = (\<lambda>_ _ w. (None, w))\<rparr>"

theorem bundled_plugins_kept_witness:
  "\<exists>p \<in> set [trivial_plugin ''a'']. plugin_id p = ''a'' \<and>
     Get (fold run_op [RemoveOp ''a'', InstallOp (Some (trivial_plugin ''a'')), ReplaceOp []] (NewRegistry [trivial_plugin ''a''])) ''a'' = Inr p"
proof -
  have "''a'' \<in> plugin_id ` set [trivial_plugin ''a'']" by (simp add: plugin_id_def trivial_plugin_def)
  then show ?thesis using bundled_plugins_kept by blast
qed

end
