(* ===== verification/Scheduling.thy ===== *)
theory Scheduling
  imports Domain "HOL-Library.Multiset"
begin

text \<open>
  The pure decisions of the pipeline coordinator: which stages may start
  (\<open>engine/pipeline_scheduling.go\<close>), in which order stages are cleaned up, what a stage's
  cleanup state means and when a cleanup plan verifies (\<open>engine/pipelines.go\<close>), and the
  derivation of a cleanup plan from a finished operation (\<open>workflows/cleanup.go\<close>).
  The scheduler is shown to equal a declarative reference, to respect its parallelism limit and
  to never block a run whose definition is ordered; the cleanup order is a permutation.
\<close>

section \<open>Definitions\<close>

definition terminalOperation :: "status \<Rightarrow> bool" where
  "terminalOperation s \<longleftrightarrow> s = Succeeded \<or> s = Failed \<or> s = Canceled"

subsection \<open>Ready stages\<close>

definition complete_stages :: "PipelineRunStage list \<Rightarrow> string list" where
  "complete_stages stages = map st_StageID (filter (\<lambda>s. st_Status s = Succeeded) stages)"

definition stage_active :: "PipelineRunStage \<Rightarrow> bool" where
  "stage_active s \<longleftrightarrow> st_OperationID s \<noteq> [] \<and> \<not> terminalOperation (st_Status s)"

definition active_stages :: "PipelineRunStage list \<Rightarrow> nat" where
  "active_stages stages = length (filter stage_active stages)"

definition parallel_limit :: "PipelineDefinition \<Rightarrow> nat" where
  "parallel_limit def =
     (if pd_MaxParallelStages def < 1 then 1 else nat (pd_MaxParallelStages def))"

text \<open>The checks of one loop iteration on a stage that has not started.\<close>

definition inputs_complete ::
  "PipelineDefinition \<Rightarrow> PipelineRunStage list \<Rightarrow> string list \<Rightarrow> nat \<Rightarrow> bool" where
  "inputs_complete def stages done_ids i \<longleftrightarrow>
     \<not> (pd_MaxParallelStages def \<le> 1 \<and> 0 < i \<and> st_StageID (stages ! (i - 1)) \<notin> set done_ids) \<and>
     (\<forall>d \<in> set (pst_DependsOn (pd_Stages def ! i)). d \<in> set done_ids) \<and>
     (\<forall>b \<in> set (pst_Bindings (pd_Stages def ! i)). pb_FromStage b \<in> set done_ids)"

text \<open>
  The loop over the run's stages: \<open>i\<close> is the loop index and \<open>active\<close> the running count.
  \<open>None\<close> is the index panic on \<open>def.Stages[i]\<close> when the run has more stages than its definition.
\<close>

fun ready_loop ::
  "PipelineDefinition \<Rightarrow> PipelineRunStage list \<Rightarrow> string list \<Rightarrow> nat \<Rightarrow> nat \<Rightarrow>
   PipelineRunStage list \<Rightarrow> nat \<Rightarrow> nat list option" where
  "ready_loop def stages done_ids limit i [] active = Some []"
| "ready_loop def stages done_ids limit i (s # rest) active =
     (if limit \<le> active then Some []
      else if st_OperationID s \<noteq> [] \<or> st_Status s \<noteq> Pending
      then ready_loop def stages done_ids limit (Suc i) rest active
      else if length (pd_Stages def) \<le> i then None
      else if inputs_complete def stages done_ids i
      then map_option (Cons i) (ready_loop def stages done_ids limit (Suc i) rest (Suc active))
      else ready_loop def stages done_ids limit (Suc i) rest active)"

definition readyPipelineStages ::
  "PipelineDefinition \<Rightarrow> PipelineRunStage list \<Rightarrow> nat list option" where
  "readyPipelineStages def stages =
     ready_loop def stages (complete_stages stages) (parallel_limit def) 0 stages
       (active_stages stages)"

subsection \<open>Cleanup order and cleanup state\<close>

definition network_plugin :: string where
  "network_plugin = ''io.kubephos.chaos.network.zones''"

definition deploy_plugin :: string where
  "deploy_plugin = ''io.kubephos.applications.kubernetes.deploy''"

fun first_index :: "('a \<Rightarrow> bool) \<Rightarrow> 'a list \<Rightarrow> nat" where
  "first_index p [] = 0"
| "first_index p (x # xs) = (if p x then 0 else Suc (first_index p xs))"

definition pipelineCleanupOrder :: "PipelineRunStage list \<Rightarrow> nat list" where
  "pipelineCleanupOrder stages =
     (let n = length stages;
          down = rev [0..<n];
          network = filter (\<lambda>i. st_PluginID (stages ! i) = network_plugin) down;
          order = filter (\<lambda>i. st_PluginID (stages ! i) \<noteq> network_plugin) down;
          pos = first_index (\<lambda>i. st_PluginID (stages ! i) = deploy_plugin) order
      in if pos = length order then map (\<lambda>i. n - 1 - i) [0..<n]
         else take pos order @ network @ drop pos order)"

datatype cleanup_failure = CleanupFailed string string | CleanupCanceled string

text \<open>The result pair: whether the cleanup has ended, and the failure it ended with.\<close>

definition cleanupStageResult :: "PipelineRunStage \<Rightarrow> bool \<times> cleanup_failure option" where
  "cleanupStageResult stage =
     (case st_CleanupStatus stage of
        Succeeded \<Rightarrow> (True, None)
      | Skipped \<Rightarrow> (True, None)
      | Failed \<Rightarrow>
          (let message = trim_space (st_CleanupError stage);
               message' = (if message = [] then ''cleanup operation failed'' else message)
           in (True, Some (CleanupFailed (st_Title stage) message')))
      | Canceled \<Rightarrow> (True, Some (CleanupCanceled (st_Title stage)))
      | _ \<Rightarrow> (False, None))"

definition cleanupStage :: "Plan \<Rightarrow> bool" where
  "cleanupStage plan \<longleftrightarrow> plan_Steps plan \<noteq> [] \<and> list_all ps_Cleanup (plan_Steps plan)"

text \<open>
  \<open>verifyCleanupPlan\<close> with its two callbacks: resolving a step's inputs at its position, and
  verifying the resolved step. Both may fail.
\<close>

fun verify_steps ::
  "(nat \<Rightarrow> PlanStep \<Rightarrow> 'e + PlanStep) \<Rightarrow> (PlanStep \<Rightarrow> 'e + HealthReport) \<Rightarrow>
   nat \<Rightarrow> PlanStep list \<Rightarrow> bool" where
  "verify_steps resolve verify position [] = True"
| "verify_steps resolve verify position (planned # rest) =
     (case resolve position planned of
        Inl e \<Rightarrow> False
      | Inr step \<Rightarrow>
          (case verify step of
             Inl e \<Rightarrow> False
           | Inr health \<Rightarrow>
               hr_Status health = HealthHealthy \<and>
               verify_steps resolve verify (Suc position) rest))"

definition verifyCleanupPlan ::
  "Plan \<Rightarrow> (nat \<Rightarrow> PlanStep \<Rightarrow> 'e + PlanStep) \<Rightarrow> (PlanStep \<Rightarrow> 'e + HealthReport) \<Rightarrow> bool" where
  "verifyCleanupPlan plan resolve verify \<longleftrightarrow>
     cleanupStage plan \<and> verify_steps resolve verify 0 (plan_Steps plan)"

subsection \<open>Cleanup plans\<close>

datatype cleanup_error = StepHistoryIncomplete | ErrNoCleanupSteps

definition cleanup_effects :: "ResourceEffect list \<Rightarrow> ResourceEffect list" where
  "cleanup_effects effects =
     map (\<lambda>e. e\<lparr>re_Action := ''delete''\<rparr>)
       (filter (\<lambda>e. re_Action e = ''create'' \<or> re_Action e = ''update'') effects)"

definition cleanup_eligible :: "PlanStep \<Rightarrow> OperationStep \<Rightarrow> bool" where
  "cleanup_eligible planned step \<longleftrightarrow>
     \<not> (ps_Cleanup planned \<or>
        os_Status step \<noteq> Succeeded \<and> os_Status step \<noteq> Failed \<and> os_Status step \<noteq> Canceled) \<and>
     \<not> (\<not> ps_Mutating planned \<and> cleanup_effects (ps_Effects planned) = [])"

definition cleanup_step :: "PlanStep \<Rightarrow> PlanStep" where
  "cleanup_step planned =
     \<lparr>ps_ID = ''cleanup-'' @ ps_ID planned, ps_Name = ''Clean up '' @ ps_Name planned,
      ps_Input = ps_Input planned, ps_Mutating = True, ps_Cleanup = True,
      ps_ArtifactInputs = ps_ArtifactInputs planned, ps_Outputs = [], ps_ResolvedInputs = [],
      ps_Effects = cleanup_effects (ps_Effects planned)\<rparr>"

definition CleanupPlan :: "Operation \<Rightarrow> cleanup_error + Plan" where
  "CleanupPlan source =
     (if length (plan_Steps (op_Plan source)) \<noteq> length (op_Steps source)
      then Inl StepHistoryIncomplete
      else let steps = map (\<lambda>(planned, step). cleanup_step planned)
                 (filter (\<lambda>(planned, step). cleanup_eligible planned step)
                   (rev (zip (plan_Steps (op_Plan source)) (op_Steps source))))
           in if steps = [] then Inl ErrNoCleanupSteps
              else Inr \<lparr>plan_PluginID = op_PluginID source, plan_Steps = steps\<rparr>)"

lemma first_index_le: "first_index P xs \<le> length xs"
  by (induction xs) auto

lemma first_index_found:
  "\<exists>x \<in> set xs. P x \<Longrightarrow> first_index P xs < length xs \<and> P (xs ! first_index P xs)"
  by (induction xs) auto

lemma first_index_before: "j < first_index P xs \<Longrightarrow> \<not> P (xs ! j)"
proof (induction xs arbitrary: j)
  case (Cons x xs)
  then show ?case by (cases j) (auto split: if_splits)
qed simp

lemma take_first_index: "x \<in> set (take (first_index P xs) xs) \<Longrightarrow> \<not> P x"
  by (induction xs) (auto split: if_splits)

section \<open>The scheduler against its reference\<close>

definition startable :: "PipelineDefinition \<Rightarrow> PipelineRunStage list \<Rightarrow> nat \<Rightarrow> bool" where
  "startable def stages i \<longleftrightarrow>
     st_OperationID (stages ! i) = [] \<and> st_Status (stages ! i) = Pending \<and>
     inputs_complete def stages (complete_stages stages) i"

lemma ready_loop_reference:
  assumes "length stages \<le> length (pd_Stages def)" and "stages = pre @ rest" and "i = length pre"
  shows "ready_loop def stages (complete_stages stages) limit i rest active =
           Some (take (limit - active) (filter (startable def stages) [i..<length stages]))"
  using assms(2,3)
proof (induction rest arbitrary: pre i active)
  case Nil
  then show ?case by simp
next
  case (Cons s rest)
  then have i: "i < length stages" "stages ! i = s" and step: "stages = (pre @ [s]) @ rest"
    by (simp_all add: nth_append)
  have IH: "ready_loop def stages (complete_stages stages) limit (Suc i) rest a =
      Some (take (limit - a) (filter (startable def stages) [Suc i..<length stages]))" for a
    using Cons.IH [OF step] Cons.prems(2) by simp
  have up: "[i..<length stages] = i # [Suc i..<length stages]" using i(1) by (rule upt_conv_Cons)
  show ?case
  proof (cases "limit \<le> active")
    case True
    then show ?thesis by simp
  next
    case False
    then have "limit - active = Suc (limit - Suc active)" by simp
    with False i assms(1) show ?thesis by (auto simp: IH up startable_def [of def stages i])
  qed
qed

lemma ready_reference:
  assumes "length stages \<le> length (pd_Stages def)"
  shows "readyPipelineStages def stages =
           Some (take (parallel_limit def - active_stages stages)
             (filter (startable def stages) [0..<length stages]))"
  using ready_loop_reference [OF assms, of "[]" stages 0] by (simp add: readyPipelineStages_def)

section \<open>Starting stages\<close>

text \<open>
  What the coordinator does with the positions it is given: the stage gets the operation and
  that operation's state (\<open>queued\<close>).
\<close>

definition mark_started :: "nat \<Rightarrow> string \<Rightarrow> PipelineRunStage list \<Rightarrow> PipelineRunStage list" where
  "mark_started i op stages =
     stages[i := (stages ! i)\<lparr>st_OperationID := op, st_Status := Queued\<rparr>]"

lemma length_mark_started [simp]: "length (mark_started i op stages) = length stages"
  by (simp add: mark_started_def)

lemma active_stages_mark_started:
  assumes "i < length stages" and "op \<noteq> []" and "\<not> stage_active (stages ! i)"
  shows "active_stages (mark_started i op stages) = Suc (active_stages stages)"
proof -
  have *: "stages = take i stages @ stages ! i # drop (Suc i) stages"
    using assms(1) by (rule id_take_nth_drop)
  have "mark_started i op stages =
      take i stages @ (stages ! i)\<lparr>st_OperationID := op, st_Status := Queued\<rparr> # drop (Suc i) stages"
    using assms(1) by (simp add: mark_started_def upd_conv_take_nth_drop)
  moreover have "stage_active ((stages ! i)\<lparr>st_OperationID := op, st_Status := Queued\<rparr>)"
    using assms(2) by (simp add: stage_active_def terminalOperation_def)
  moreover have "active_stages stages = active_stages (take i stages) + active_stages (drop (Suc i) stages)"
    using * assms(3) by (metis active_stages_def filter.simps(2) filter_append length_append)
  ultimately show ?thesis by (simp add: active_stages_def)
qed

fun start_all :: "(nat \<times> string) list \<Rightarrow> PipelineRunStage list \<Rightarrow> PipelineRunStage list" where
  "start_all [] stages = stages"
| "start_all ((i, op) # rest) stages = start_all rest (mark_started i op stages)"

text \<open>
  The contract between scheduler and coordinator: positions are distinct, denote inactive
  stages, and leave the number of active stages within the limit. Whoever keeps the
  contract can be started from without exceeding the limit.
\<close>

locale stage_scheduler =
  fixes ready :: "PipelineRunStage list \<Rightarrow> nat list" and limit :: nat
  assumes ready_distinct: "distinct (ready stages)"
    and ready_range: "i \<in> set (ready stages) \<Longrightarrow> i < length stages"
    and ready_inactive: "i \<in> set (ready stages) \<Longrightarrow> \<not> stage_active (stages ! i)"
    and ready_limit: "active_stages stages \<le> limit \<Longrightarrow> active_stages stages + length (ready stages) \<le> limit"
begin

lemma start_all_active:
  assumes "distinct (map fst ps)" and "\<forall>(i, op) \<in> set ps. i < length stages \<and> op \<noteq> [] \<and> \<not> stage_active (stages ! i)"
  shows "active_stages (start_all ps stages) = active_stages stages + length ps"
  using assms
proof (induction ps arbitrary: stages)
  case (Cons p ps)
  obtain i op where p: "p = (i, op)" by force
  let ?s = "mark_started i op stages"
  have rest: "\<forall>(j, q) \<in> set ps. j < length ?s \<and> q \<noteq> [] \<and> \<not> stage_active (?s ! j)"
  proof (rule ballI, clarify)
    fix j q assume jq: "(j, q) \<in> set ps"
    with Cons.prems p have "j \<noteq> i" by (auto simp: image_iff)
    then have "?s ! j = stages ! j" by (simp add: mark_started_def)
    moreover have "j < length stages \<and> q \<noteq> [] \<and> \<not> stage_active (stages ! j)"
      using Cons.prems(2) jq by auto
    ultimately show "j < length ?s \<and> q \<noteq> [] \<and> \<not> stage_active (?s ! j)" by simp
  qed
  have "active_stages (start_all ps ?s) = active_stages ?s + length ps"
    using Cons.IH [OF _ rest] Cons.prems(1) by simp
  moreover have "active_stages ?s = Suc (active_stages stages)"
    using Cons.prems p by (intro active_stages_mark_started) auto
  ultimately show ?case using p by simp
qed simp

lemma start_ready_within_limit:
  assumes "active_stages stages \<le> limit" and "map fst ps = ready stages" and "\<forall>p \<in> set ps. snd p \<noteq> []"
  shows "active_stages (start_all ps stages) \<le> limit"
proof -
  have "\<forall>(i, op) \<in> set ps. i < length stages \<and> op \<noteq> [] \<and> \<not> stage_active (stages ! i)"
  proof (rule ballI, clarify)
    fix i op assume ip: "(i, op) \<in> set ps"
    then have "i \<in> set (ready stages)" using assms(2) by (metis fst_conv image_eqI set_map)
    then have "i < length stages \<and> \<not> stage_active (stages ! i)"
      using ready_range ready_inactive by blast
    moreover have "op \<noteq> []" using assms(3) ip by auto
    ultimately show "i < length stages \<and> op \<noteq> [] \<and> \<not> stage_active (stages ! i)" by simp
  qed
  then have "active_stages (start_all ps stages) = active_stages stages + length ps"
    using start_all_active [of ps stages] ready_distinct [of stages] by (simp add: assms(2))
  moreover have "length ps = length (ready stages)" using assms(2) by (metis length_map)
  ultimately show ?thesis using ready_limit [OF assms(1)] by simp
qed

end

text \<open>
  The source's scheduler, as the function of the run's stages that the coordinator calls; a run
  that does not fit its definition (the panic) starts nothing.
\<close>

definition ready_or_none :: "PipelineDefinition \<Rightarrow> PipelineRunStage list \<Rightarrow> nat list" where
  "ready_or_none def stages =
     (if length stages \<le> length (pd_Stages def)
      then (case readyPipelineStages def stages of None \<Rightarrow> [] | Some ps \<Rightarrow> ps) else [])"

lemma ready_or_none_reference:
  "ready_or_none def stages =
     (if length stages \<le> length (pd_Stages def)
      then take (parallel_limit def - active_stages stages)
             (filter (startable def stages) [0..<length stages])
      else [])"
  by (simp add: ready_or_none_def ready_reference)

interpretation sched: stage_scheduler "ready_or_none def" "parallel_limit def" for def
proof
  fix stages i
  show "distinct (ready_or_none def stages)"
    by (simp add: ready_or_none_reference distinct_take)
  show "i < length stages" if "i \<in> set (ready_or_none def stages)"
    using that by (auto simp: ready_or_none_reference split: if_splits dest: in_set_takeD)
  show "\<not> stage_active (stages ! i)" if "i \<in> set (ready_or_none def stages)"
    using that
    by (auto simp: ready_or_none_reference startable_def stage_active_def split: if_splits dest: in_set_takeD)
  show "active_stages stages + length (ready_or_none def stages) \<le> parallel_limit def"
    if "active_stages stages \<le> parallel_limit def"
    using that by (auto simp: ready_or_none_reference)
qed



text \<open>
  Starting every stage the scheduler returns keeps the number of active stages within the
  limit of the definition.
\<close>

theorem started_within_limit:
  assumes "active_stages stages \<le> parallel_limit def"
    and "length stages \<le> length (pd_Stages def)"
    and "readyPipelineStages def stages = Some (map fst ps)"
    and "\<forall>p \<in> set ps. snd p \<noteq> []"
  shows "active_stages (start_all ps stages) \<le> parallel_limit def"
proof (rule sched.start_ready_within_limit [OF assms(1) _ assms(4)])
  show "map fst ps = ready_or_none def stages" using assms(2,3) by (simp add: ready_or_none_def)
qed

section \<open>No run blocks\<close>

definition ordered_definition :: "PipelineDefinition \<Rightarrow> bool" where
  "ordered_definition def \<longleftrightarrow>
     distinct (map pst_ID (pd_Stages def)) \<and>
     (\<forall>i < length (pd_Stages def).
        set (pst_DependsOn (pd_Stages def ! i)) \<union> pb_FromStage ` set (pst_Bindings (pd_Stages def ! i))
          \<subseteq> set (take i (map pst_ID (pd_Stages def))))"

definition run_of :: "PipelineDefinition \<Rightarrow> PipelineRunStage list \<Rightarrow> bool" where
  "run_of def stages \<longleftrightarrow> map st_StageID stages = map pst_ID (pd_Stages def)"

lemma run_of_length: "run_of def stages \<Longrightarrow> length stages = length (pd_Stages def)"
  unfolding run_of_def by (metis length_map)

lemma complete_stages_prefix:
  assumes "\<forall>j < i. st_Status (stages ! j) = Succeeded" and "i \<le> length stages"
  shows "set (take i (map st_StageID stages)) \<subseteq> set (complete_stages stages)"
proof
  fix x assume "x \<in> set (take i (map st_StageID stages))"
  then obtain j where "j < i" "x = st_StageID (stages ! j)"
    using assms(2) by (auto simp: in_set_conv_nth)
  then show "x \<in> set (complete_stages stages)"
    using assms by (force simp: complete_stages_def)
qed

lemma first_unfinished_startable:
  assumes "ordered_definition def" and "run_of def stages" and "i < length stages"
    and "\<forall>j < i. st_Status (stages ! j) = Succeeded"
    and "st_Status (stages ! i) = Pending" and "st_OperationID (stages ! i) = []"
  shows "startable def stages i"
proof -
  have ids: "map st_StageID stages = map pst_ID (pd_Stages def)" using assms(2) by (simp add: run_of_def)
  have len: "length stages = length (pd_Stages def)" using assms(2) by (rule run_of_length)
  have sub: "set (take i (map pst_ID (pd_Stages def))) \<subseteq> set (complete_stages stages)"
    using complete_stages_prefix [OF assms(4)] assms(3) ids by simp
  have "set (pst_DependsOn (pd_Stages def ! i)) \<union> pb_FromStage ` set (pst_Bindings (pd_Stages def ! i))
      \<subseteq> set (complete_stages stages)"
    using assms(1,3) len sub unfolding ordered_definition_def by (metis order_trans)
  moreover have "st_StageID (stages ! (i - 1)) \<in> set (complete_stages stages)" if "0 < i"
    using that assms(3,4) by (force simp: complete_stages_def)
  ultimately show ?thesis
    using assms(5,6) by (auto simp: startable_def inputs_complete_def)
qed

text \<open>
  C2: A run of an ordered definition never blocks: when no stage is active and none has failed
  or been canceled, either every stage has succeeded or the scheduler returns a stage to start.
\<close>

theorem ready_progress:
  assumes "ordered_definition def" and "run_of def stages"
    and "\<forall>s \<in> set stages. st_Status s = Succeeded \<or> st_Status s = Pending \<and> st_OperationID s = []"
    and "\<exists>s \<in> set stages. st_Status s \<noteq> Succeeded"
  shows "\<exists>p ps. readyPipelineStages def stages = Some (p # ps)"
proof -
  define i where "i = first_index (\<lambda>s. st_Status s \<noteq> Succeeded) stages"
  have i: "i < length stages" "st_Status (stages ! i) \<noteq> Succeeded"
    "\<forall>j < i. st_Status (stages ! j) = Succeeded"
    using first_index_found [OF assms(4)] first_index_before [of _ "\<lambda>s. st_Status s \<noteq> Succeeded" stages]
    by (auto simp: i_def)
  then have "startable def stages i"
    using first_unfinished_startable [OF assms(1,2)] assms(3) nth_mem [OF i(1)] by auto
  then have "filter (startable def stages) [0..<length stages] \<noteq> []"
    using i(1) by (auto simp: filter_empty_conv)
  moreover have "active_stages stages = 0"
    using assms(3) by (auto simp: active_stages_def stage_active_def terminalOperation_def filter_empty_conv)
  moreover have "0 < parallel_limit def" by (simp add: parallel_limit_def)
  ultimately show ?thesis
    using ready_reference [of stages def] run_of_length [OF assms(2)]
    by (cases "filter (startable def stages) [0..<length stages]"; cases "parallel_limit def") auto
qed


section \<open>Cleanup order\<close>

lemma mset_filter_partition: "mset (filter P xs) + mset (filter (\<lambda>x. \<not> P x) xs) = mset xs"
  by (induction xs) auto

lemma mset_take_mid_drop: "mset (take k xs @ ys @ drop k xs) = mset ys + mset xs"
proof -
  have "mset xs = mset (take k xs) + mset (drop k xs)" by (metis append_take_drop_id mset_append)
  then show ?thesis by (simp add: ac_simps)
qed

lemma filter_around:
  fixes Q :: "'a \<Rightarrow> bool"
  defines "keep \<equiv> filter (\<lambda>x. \<not> Q x)"
  shows "keep (take k (keep xs) @ filter Q xs @ drop k (keep xs)) = keep xs"
proof -
  have "keep (take k (keep xs) @ filter Q xs @ drop k (keep xs)) =
      keep (take k (keep xs)) @ keep (filter Q xs) @ keep (drop k (keep xs))"
    unfolding keep_def by (simp only: filter_append)
  also have "keep (filter Q xs) = []" by (simp add: keep_def filter_empty_conv)
  also have "keep (take k (keep xs)) @ [] @ keep (drop k (keep xs)) = keep (take k (keep xs) @ drop k (keep xs))"
    unfolding keep_def by (simp only: filter_append append_Nil)
  also have "\<dots> = keep (keep xs)" by (simp only: append_take_drop_id)
  also have "\<dots> = keep xs" by (simp add: keep_def)
  finally show ?thesis .
qed

lemma countdown: "map ((-) (n - Suc 0)) [0..<n] = rev [0..<n]"
  by (rule nth_equalityI) (simp_all add: rev_nth)

lemma cleanup_order_cases:
  fixes stages
  defines "down \<equiv> rev [0..<length stages]"
  defines "order \<equiv> filter (\<lambda>i. st_PluginID (stages ! i) \<noteq> network_plugin) down"
  defines "pos \<equiv> first_index (\<lambda>i. st_PluginID (stages ! i) = deploy_plugin) order"
  shows "pipelineCleanupOrder stages =
    (if pos = length order then down
     else take pos order @ filter (\<lambda>i. st_PluginID (stages ! i) = network_plugin) down @ drop pos order)"
  by (simp add: pipelineCleanupOrder_def Let_def countdown down_def order_def pos_def)

lemma cleanup_order_mset: "mset (pipelineCleanupOrder stages) = mset [0..<length stages]"
proof -
  let ?net = "\<lambda>i. st_PluginID (stages ! i) = network_plugin"
  let ?down = "rev [0..<length stages]"
  let ?order = "filter (\<lambda>i. \<not> ?net i) ?down"
  have "mset (take k ?order @ filter ?net ?down @ drop k ?order) = mset [0..<length stages]" for k
  proof -
    have "mset (take k ?order @ filter ?net ?down @ drop k ?order) = mset (filter ?net ?down) + mset ?order"
      by (rule mset_take_mid_drop)
    also have "\<dots> = mset ?down" by (rule mset_filter_partition)
    finally show ?thesis by simp
  qed
  then show ?thesis by (simp add: cleanup_order_cases)
qed

lemma cleanup_order_distinct: "distinct (pipelineCleanupOrder stages)"
  using cleanup_order_mset [of stages] by (metis distinct_upt mset_eq_imp_distinct_iff)

lemma cleanup_order_set: "set (pipelineCleanupOrder stages) = {..<length stages}"
  using cleanup_order_mset [of stages] by (metis atLeast_upt mset_eq_setD)

text \<open>
  The cleanup order visits every stage exactly once, and visits the stages that are not
  network shaping in exactly the reverse of their execution order.
\<close>

theorem cleanup_order_permutation:
  "mset (pipelineCleanupOrder stages) = mset [0..<length stages] \<and>
   filter (\<lambda>i. st_PluginID (stages ! i) \<noteq> network_plugin) (pipelineCleanupOrder stages) =
   rev (filter (\<lambda>i. st_PluginID (stages ! i) \<noteq> network_plugin) [0..<length stages])"
proof -
  let ?net = "\<lambda>i. st_PluginID (stages ! i) = network_plugin"
  let ?down = "rev [0..<length stages]"
  let ?order = "filter (\<lambda>i. \<not> ?net i) ?down"
  have "filter (\<lambda>i. \<not> ?net i) (take k ?order @ filter ?net ?down @ drop k ?order) = ?order" for k
    by (rule filter_around)
  then show ?thesis using cleanup_order_mset by (simp add: cleanup_order_cases rev_filter)
qed

text \<open>
  Network shaping is undone before any application namespace is deleted: in the cleanup
  order every network stage comes before every deployment stage.
\<close>

theorem network_before_deploy:
  assumes "i < length stages" and "st_PluginID (stages ! i) = network_plugin"
    and "j < length stages" and "st_PluginID (stages ! j) = deploy_plugin"
  shows "\<exists>xs ys zs. pipelineCleanupOrder stages = xs @ i # ys @ j # zs"
proof -
  let ?deploy = "\<lambda>i. st_PluginID (stages ! i) = deploy_plugin"
  let ?down = "rev [0..<length stages]"
  let ?net = "filter (\<lambda>i. st_PluginID (stages ! i) = network_plugin) ?down"
  let ?order = "filter (\<lambda>i. st_PluginID (stages ! i) \<noteq> network_plugin) ?down"
  let ?pos = "first_index ?deploy ?order"
  have "j \<in> set ?order" using assms(3,4) by (auto simp: network_plugin_def deploy_plugin_def)
  moreover have "j \<notin> set (take ?pos ?order)" using take_first_index [of j ?deploy ?order] assms(4) by blast
  ultimately have "j \<in> set (drop ?pos ?order)" and "?pos < length ?order"
    using first_index_found [of ?order ?deploy] assms(4) append_take_drop_id [of ?pos ?order]
    by (metis Un_iff set_append, blast)
  then obtain us zs where d: "drop ?pos ?order = us @ j # zs" by (metis split_list)
  obtain xs vs where n: "?net = xs @ i # vs"
    using assms(1,2) split_list [of i ?net] by auto
  have "pipelineCleanupOrder stages = (take ?pos ?order @ xs) @ i # (vs @ us) @ j # zs"
    using \<open>?pos < length ?order\<close> cleanup_order_cases [of stages] d n by simp
  then show ?thesis by blast
qed


section \<open>Cleanup plans\<close>

lemma zip_index: "length xs = length ys \<Longrightarrow> zip xs ys = map (\<lambda>i. (xs ! i, ys ! i)) [0..<length xs]"
  by (rule nth_equalityI) simp_all

definition eligible_positions :: "Operation \<Rightarrow> nat list" where
  "eligible_positions source =
     filter (\<lambda>i. cleanup_eligible (plan_Steps (op_Plan source) ! i) (op_Steps source ! i))
       (rev [0..<length (op_Steps source)])"

lemma CleanupPlan_positions:
  assumes "length (plan_Steps (op_Plan source)) = length (op_Steps source)"
  shows "CleanupPlan source =
    (if eligible_positions source = [] then Inl ErrNoCleanupSteps
     else Inr \<lparr>plan_PluginID = op_PluginID source,
       plan_Steps = map (\<lambda>i. cleanup_step (plan_Steps (op_Plan source) ! i)) (eligible_positions source)\<rparr>)"
  using assms
  by (simp add: CleanupPlan_def Let_def zip_index rev_map filter_map o_def eligible_positions_def)

lemma CleanupPlan_Inr:
  assumes "CleanupPlan source = Inr plan"
  shows "length (plan_Steps (op_Plan source)) = length (op_Steps source)"
    and "eligible_positions source \<noteq> []"
    and "plan_Steps plan = map (\<lambda>i. cleanup_step (plan_Steps (op_Plan source) ! i)) (eligible_positions source)"
proof -
  show len: "length (plan_Steps (op_Plan source)) = length (op_Steps source)"
    using assms by (simp add: CleanupPlan_def split: if_splits)
  show "eligible_positions source \<noteq> []"
    and "plan_Steps plan = map (\<lambda>i. cleanup_step (plan_Steps (op_Plan source) ! i)) (eligible_positions source)"
    using assms CleanupPlan_positions [OF len] by (auto split: if_splits)
qed

lemma sorted_wrt_rev_upt: "sorted_wrt (>) (rev [m..<n])"
  by (simp add: sorted_wrt_rev)

lemma cleanup_effects_delete: "e \<in> set (cleanup_effects es) \<Longrightarrow> re_Action e = ''delete''"
  by (auto simp: cleanup_effects_def)

text \<open>
  A derived cleanup plan consists of cleanup steps only, requests deletions only, and
  undoes exactly the finished, mutating steps of the source operation, latest first.
\<close>

theorem cleanup_plan_correct:
  assumes "CleanupPlan source = Inr plan"
  shows "cleanupStage plan \<and>
    (\<forall>s \<in> set (plan_Steps plan). ps_Mutating s \<and> (\<forall>e \<in> set (ps_Effects s). re_Action e = ''delete'')) \<and>
    (\<exists>positions. sorted_wrt (>) positions \<and>
       set positions = {i. i < length (op_Steps source) \<and>
         cleanup_eligible (plan_Steps (op_Plan source) ! i) (op_Steps source ! i)} \<and>
       plan_Steps plan = map (\<lambda>i. cleanup_step (plan_Steps (op_Plan source) ! i)) positions)"
proof (intro conjI exI [of _ "eligible_positions source"] ballI)
  note facts = CleanupPlan_Inr [OF assms]
  show "cleanupStage plan"
    using facts(2,3) by (simp add: cleanupStage_def list_all_iff cleanup_step_def)
  show "ps_Mutating s" if "s \<in> set (plan_Steps plan)" for s
    using that facts(3) by (auto simp: cleanup_step_def)
  show "re_Action e = ''delete''" if "s \<in> set (plan_Steps plan)" and "e \<in> set (ps_Effects s)" for s e
    using that facts(3) by (auto simp: cleanup_step_def dest: cleanup_effects_delete)
  show "sorted_wrt (>) (eligible_positions source)"
    unfolding eligible_positions_def by (intro sorted_wrt_filter sorted_wrt_rev_upt)
  show "set (eligible_positions source) = {i. i < length (op_Steps source) \<and>
      cleanup_eligible (plan_Steps (op_Plan source) ! i) (op_Steps source ! i)}"
    by (auto simp: eligible_positions_def)
  show "plan_Steps plan = map (\<lambda>i. cleanup_step (plan_Steps (op_Plan source) ! i)) (eligible_positions source)"
    by (rule facts(3))
qed

text \<open>
  No resource is left behind: whatever a finished step declared to create or update, the
  cleanup plan of its operation exists and contains the deletion of that resource.
\<close>

theorem cleanup_plan_deletes_created:
  assumes "length (plan_Steps (op_Plan source)) = length (op_Steps source)"
    and "i < length (op_Steps source)"
    and "terminalOperation (os_Status (op_Steps source ! i))"
    and "\<not> ps_Cleanup (plan_Steps (op_Plan source) ! i)"
    and "e \<in> set (ps_Effects (plan_Steps (op_Plan source) ! i))"
    and "re_Action e = ''create'' \<or> re_Action e = ''update''"
  shows "\<exists>plan. CleanupPlan source = Inr plan \<and>
    (\<exists>s \<in> set (plan_Steps plan). e\<lparr>re_Action := ''delete''\<rparr> \<in> set (ps_Effects s))"
proof -
  let ?p = "plan_Steps (op_Plan source) ! i"
  have del: "e\<lparr>re_Action := ''delete''\<rparr> \<in> set (cleanup_effects (ps_Effects ?p))"
    using assms(5,6) by (auto simp: cleanup_effects_def)
  then have "cleanup_effects (ps_Effects ?p) \<noteq> []" by (metis empty_iff list.set(1))
  then have "i \<in> set (eligible_positions source)"
    using assms(2-4) by (auto simp: eligible_positions_def cleanup_eligible_def terminalOperation_def)
  then show ?thesis
    using CleanupPlan_positions [OF assms(1)] del by (force simp: cleanup_step_def)
qed

section \<open>Witnesses\<close>

definition sample_run_stage :: "string \<Rightarrow> string \<Rightarrow> status \<Rightarrow> string \<Rightarrow> PipelineRunStage" where
  "sample_run_stage stage plugin status op =
     \<lparr>st_ID = ''prs_'' @ stage, st_RunID = ''run_1'', st_Position = 1, st_StageID = stage,
      st_PluginID = plugin, st_Title = stage, st_Status = status, st_OperationID = op,
      st_Spec = RawEmpty, st_Error = [], st_StartedAt = None, st_CompletedAt = None, st_CleanupOperationID = [],
      st_CleanupStatus = NoStatus, st_CleanupError = [], st_CleanupStartedAt = None,
      st_CleanupCompletedAt = None\<rparr>"

definition sample_stage :: "string \<Rightarrow> string list \<Rightarrow> PipelineStage" where
  "sample_stage stage deps =
     \<lparr>pst_DependsOn = deps, pst_ID = stage, pst_PluginID = ''p'', pst_Title = stage,
      pst_Spec = RawDoc (JObj []), pst_Bindings = []\<rparr>"

definition sample_definition :: PipelineDefinition where
  "sample_definition =
     \<lparr>pd_MaxParallelStages = 2,
      pd_Stages = [sample_stage ''a'' [], sample_stage ''b'' [], sample_stage ''c'' [''a'']],
      pd_Result = \<lparr>po_Stage = ''c'', po_Output = [], po_Type = [], po_Version = []\<rparr>,
      pd_CleanupAfterRun = True\<rparr>"

definition sample_run :: "PipelineRunStage list" where
  "sample_run =
     [sample_run_stage ''a'' network_plugin Pending [], sample_run_stage ''b'' deploy_plugin Pending [],
      sample_run_stage ''c'' ''p'' Pending []]"

lemmas sample_defs = sample_run_stage_def sample_stage_def sample_definition_def sample_run_def


theorem started_within_limit_witness:
  "readyPipelineStages sample_definition sample_run = Some (map fst [(0, ''op_1''), (1, ''op_2'')]) \<and>
   active_stages (start_all [(0, ''op_1''), (1, ''op_2'')] sample_run) \<le> parallel_limit sample_definition"
proof -
  have r: "readyPipelineStages sample_definition sample_run = Some (map fst [(0, ''op_1''), (1, ''op_2'')])"
    by code_simp
  show ?thesis
    using r started_within_limit [of sample_run sample_definition "[(0, ''op_1''), (1, ''op_2'')]"]
    by (simp add: sample_defs active_stages_def stage_active_def)
qed

theorem ready_progress_witness:
  "ordered_definition sample_definition \<and> (\<exists>p ps. readyPipelineStages sample_definition sample_run = Some (p # ps))"
proof -
  have o: "ordered_definition sample_definition"
    by (auto simp: sample_defs ordered_definition_def less_Suc_eq numeral_3_eq_3)
  have r: "run_of sample_definition sample_run" by (simp add: sample_defs run_of_def)
  show ?thesis using o ready_progress [OF o r] by (simp add: sample_defs)
qed

theorem network_before_deploy_witness:
  "\<exists>xs ys zs. pipelineCleanupOrder sample_run = xs @ 0 # ys @ 1 # zs"
  using network_before_deploy [of 0 sample_run 1] by (simp add: sample_defs)

definition sample_operation :: Operation where
  "sample_operation =
     \<lparr>op_ID = ''op_1'', op_WorkspaceID = ''ws_1'', op_PluginID = ''p'', op_PluginVersion = ''1'',
      op_PluginDigest = [], op_Title = ''t'', op_Status = Succeeded, op_Spec = RawDoc (JObj []),
      op_Plan = \<lparr>plan_PluginID = ''p'', plan_Steps =
        [\<lparr>ps_ID = ''s'', ps_Name = ''S'', ps_Input = RawDoc (JObj []), ps_Mutating = True,
          ps_Cleanup = False, ps_ArtifactInputs = [], ps_Outputs = [], ps_ResolvedInputs = [],
          ps_Effects = [\<lparr>re_Action = ''create'', re_ExternalID = ''vm/1'', re_Kind = ''vm'', re_Name = ''v''\<rparr>]\<rparr>]\<rparr>,
      op_Validation = \<lparr>vr_Valid = True, vr_Issues = [], vr_CheckedAt = 0\<rparr>, op_PlanHash = ''h'',
      op_CancelRequested = False, op_Error = [], op_CreatedAt = 0, op_QueuedAt = None,
      op_StartedAt = None, op_CompletedAt = None,
      op_Steps = [\<lparr>os_ID = ''op_1_s'', os_OperationID = ''op_1'', os_Position = 1, os_Name = ''S'',
        os_Status = Succeeded, os_Input = RawDoc (JObj []), os_Result = RawEmpty, os_Health = RawEmpty,
        os_Error = [], os_StartedAt = None, os_CompletedAt = None\<rparr>],
      op_Artifacts = []\<rparr>"

theorem cleanup_plan_correct_witness:
  "\<exists>plan. CleanupPlan sample_operation = Inr plan \<and> cleanupStage plan"
proof -
  obtain plan where plan: "CleanupPlan sample_operation = Inr plan"
    by (simp add: CleanupPlan_def sample_operation_def cleanup_eligible_def)
  then show ?thesis using cleanup_plan_correct [OF plan] by blast
qed

theorem cleanup_plan_deletes_created_witness:
  "\<exists>plan. CleanupPlan sample_operation = Inr plan \<and>
    (\<exists>s \<in> set (plan_Steps plan).
      \<lparr>re_Action = ''delete'', re_ExternalID = ''vm/1'', re_Kind = ''vm'', re_Name = ''v''\<rparr> \<in> set (ps_Effects s))"
  using cleanup_plan_deletes_created [of sample_operation 0
      "\<lparr>re_Action = ''create'', re_ExternalID = ''vm/1'', re_Kind = ''vm'', re_Name = ''v''\<rparr>"]
  by (simp add: sample_operation_def terminalOperation_def)

end
