(* ===== verification/Workflows.thy ===== *)
theory Workflows
  imports Artifacts Schema Plugins Scheduling
begin

text \<open>
  Pipeline definitions, \<open>workflows/validate.go\<close>: normalisation of a definition, binding of the
  outputs of earlier stages through placeholder tokens, validation of every stage against its
  plugin, and the replacement of the placeholders by artifact identifiers when a stage starts.
\<close>

section \<open>Errors and results\<close>

datatype workflow_error =
    ParallelismInvalid
  | StageCount
  | StageIDInvalid nat
  | StageIDDuplicated string
  | DependenciesInvalid string
  | StagePluginRequired string
  | StageTitleInvalid string
  | StageSpecInvalid string
  | BindingIncomplete string nat
  | PathBoundTwice string string
  | ResultStageRequired
  | StagePlugin string registry_error
  | SpecUndecodable
  | BindingNotEarlier string nat
  | BindingOutputMissing string nat string string
  | BindingPointer string nat pointer_error
  | StageSchema string schema_error
  | PlanningFailed string string
  | EmptyPlan string
  | CleanupUndeclared string string
  | StageArtifactGraph string plan_error
  | AmbiguousBinding string string
  | BindingMismatch string string
  | BindingUnused string string
  | OutputDuplicated string string
  | ResultStageUnavailable string
  | ResultAmbiguous string
  | ResultOutputMissing string string
  | ResultMismatch string
  | FingerprintFailed
  | StagePositionInvalid
  | ResolvedSpecInvalid string
  | StageOutputUnavailable string
  | OutputUnavailable string string
  | PlanInputInvalid string
  | BindingAbsent string nat

record Result =
  res_Definition :: PipelineDefinition
  res_Resolution :: PipelineResolution
  res_Validation :: ValidationReport
  res_Hash :: string

section \<open>Normalisation\<close>

definition stageIDPattern :: "string \<Rightarrow> bool" where
  "stageIDPattern = ident_match is_lower (\<lambda>c. is_lower c \<or> is_digit c \<or> c = CHR ''-'') 39"

definition trim_binding :: "PipelineBinding \<Rightarrow> PipelineBinding" where
  "trim_binding b =
     \<lparr>pb_Path = trim_space (pb_Path b), pb_FromStage = trim_space (pb_FromStage b),
      pb_FromOutput = trim_space (pb_FromOutput b)\<rparr>"

fun normalize_bindings ::
  "string \<Rightarrow> nat \<Rightarrow> PipelineBinding list \<Rightarrow> string list \<Rightarrow> workflow_error + PipelineBinding list" where
  "normalize_bindings stageID index [] paths = Inr []"
| "normalize_bindings stageID index (b # bs) paths =
     (let binding = trim_binding b in
      if pb_Path binding = [] \<or> pb_FromStage binding = [] then Inl (BindingIncomplete stageID (index + 1))
      else if pb_Path binding \<in> set paths then Inl (PathBoundTwice stageID (pb_Path binding))
      else case normalize_bindings stageID (index + 1) bs (pb_Path binding # paths) of
          Inl e \<Rightarrow> Inl e
        | Inr rest \<Rightarrow> Inr (binding # rest))"

fun dependencies_valid :: "string \<Rightarrow> string list \<Rightarrow> string list \<Rightarrow> string list \<Rightarrow> bool" where
  "dependencies_valid stageID seen [] dependencies \<longleftrightarrow> True"
| "dependencies_valid stageID seen (d # ds) dependencies \<longleftrightarrow>
     d \<noteq> stageID \<and> d \<in> set seen \<and> d \<notin> set dependencies \<and> dependencies_valid stageID seen ds (d # dependencies)"

text \<open>A specification must decode into a map that is not nil.\<close>

definition spec_object :: "golib \<Rightarrow> RawMessage \<Rightarrow> bool" where
  "spec_object L spec \<longleftrightarrow> (case unmarshal_any L spec of Some (JObj kvs) \<Rightarrow> True | _ \<Rightarrow> False)"

definition default_spec :: "RawMessage \<Rightarrow> RawMessage" where
  "default_spec spec = (if spec = RawEmpty then RawDoc (JObj []) else spec)"

definition trim_stage :: "PipelineStage \<Rightarrow> PipelineStage" where
  "trim_stage s =
     s\<lparr>pst_ID := trim_space (pst_ID s), pst_PluginID := trim_space (pst_PluginID s),
       pst_Title := trim_space (pst_Title s), pst_Spec := default_spec (pst_Spec s)\<rparr>"

definition normalize_stage :: "golib \<Rightarrow> nat \<Rightarrow> string list \<Rightarrow> PipelineStage \<Rightarrow> workflow_error + PipelineStage" where
  "normalize_stage L index seen s =
     (let stage = trim_stage s; sid = pst_ID stage in
      if \<not> stageIDPattern sid then Inl (StageIDInvalid (index + 1))
      else if sid \<in> set seen then Inl (StageIDDuplicated sid)
      else if \<not> dependencies_valid sid seen (pst_DependsOn stage) [] then Inl (DependenciesInvalid sid)
      else if pst_PluginID stage = [] then Inl (StagePluginRequired sid)
      else if pst_Title stage = [] \<or> 120 < length (pst_Title stage) then Inl (StageTitleInvalid sid)
      else if \<not> spec_object L (pst_Spec stage) then Inl (StageSpecInvalid sid)
      else case normalize_bindings sid 0 (pst_Bindings stage) [] of
          Inl e \<Rightarrow> Inl e
        | Inr bindings \<Rightarrow> Inr (stage\<lparr>pst_Bindings := bindings\<rparr>))"

fun normalize_stages :: "golib \<Rightarrow> nat \<Rightarrow> PipelineStage list \<Rightarrow> string list \<Rightarrow> workflow_error + PipelineStage list" where
  "normalize_stages L index [] seen = Inr []"
| "normalize_stages L index (s # ss) seen =
     (case normalize_stage L index seen s of
        Inl e \<Rightarrow> Inl e
      | Inr stage \<Rightarrow>
          (case normalize_stages L (index + 1) ss (pst_ID stage # seen) of
             Inl e \<Rightarrow> Inl e
           | Inr rest \<Rightarrow> Inr (stage # rest)))"

definition trim_result :: "PipelineOutput \<Rightarrow> PipelineOutput" where
  "trim_result r =
     \<lparr>po_Stage = trim_space (po_Stage r), po_Output = trim_space (po_Output r),
      po_Type = trim_space (po_Type r), po_Version = trim_space (po_Version r)\<rparr>"

definition normalize :: "golib \<Rightarrow> PipelineDefinition \<Rightarrow> workflow_error + PipelineDefinition" where
  "normalize L definition =
     (if pd_MaxParallelStages definition < 0 \<or> 4 < pd_MaxParallelStages definition then Inl ParallelismInvalid
      else if length (pd_Stages definition) < 1 \<or> 128 < length (pd_Stages definition) then Inl StageCount
      else case normalize_stages L 0 (pd_Stages definition) [] of
          Inl e \<Rightarrow> Inl e
        | Inr stages \<Rightarrow>
            if po_Stage (trim_result (pd_Result definition)) = [] then Inl ResultStageRequired
            else Inr (definition\<lparr>pd_Stages := stages, pd_Result := trim_result (pd_Result definition)\<rparr>))"

section \<open>Bindings\<close>

type_synonym stage_outputs = "(string \<times> ArtifactContract) list"

definition pipeline_token :: "nat \<Rightarrow> nat \<Rightarrow> string" where
  "pipeline_token position index = ''art_pipeline_'' @ show_nat (position + 1) @ ''_'' @ show_nat (index + 1)"

definition outputs_of :: "(string \<times> stage_outputs) list \<Rightarrow> string \<Rightarrow> stage_outputs" where
  "outputs_of outputs stageID = (case map_of outputs stageID of None \<Rightarrow> [] | Some m \<Rightarrow> m)"

definition bind_placeholder ::
  "string \<Rightarrow> nat \<Rightarrow> (string \<times> stage_outputs) list \<Rightarrow> nat \<times> PipelineBinding \<Rightarrow> json \<Rightarrow> workflow_error + json" where
  "bind_placeholder stageID position outputs = (\<lambda>(index, binding) spec.
     (if map_of outputs (pb_FromStage binding) = None then Inl (BindingNotEarlier stageID (index + 1))
      else if pb_FromOutput binding \<noteq> [] \<and>
          map_of (outputs_of outputs (pb_FromStage binding)) (pb_FromOutput binding) = None
      then Inl (BindingOutputMissing stageID (index + 1) (pb_FromOutput binding) (pb_FromStage binding))
      else case setPointer spec (pb_Path binding) (pipeline_token position index) of
          Inl e \<Rightarrow> Inl (BindingPointer stageID (index + 1) e)
        | Inr spec' \<Rightarrow> Inr spec'))"

definition binding_tokens :: "nat \<Rightarrow> PipelineBinding list \<Rightarrow> (string \<times> PipelineBinding) list" where
  "binding_tokens position bindings =
     map (\<lambda>(index, binding). (pipeline_token position index, binding)) (List.enumerate 0 bindings)"

definition bindPlaceholders ::
  "golib \<Rightarrow> PipelineStage \<Rightarrow> nat \<Rightarrow> (string \<times> stage_outputs) list \<Rightarrow>
   workflow_error + RawMessage \<times> (string \<times> PipelineBinding) list" where
  "bindPlaceholders L stage position outputs =
     (case unmarshal_any L (pst_Spec stage) of
        None \<Rightarrow> Inl SpecUndecodable
      | Some spec \<Rightarrow>
          (case fold_err (bind_placeholder (pst_ID stage) position outputs) (List.enumerate 0 (pst_Bindings stage)) spec of
             Inl e \<Rightarrow> Inl e
           | Inr spec' \<Rightarrow> Inr (marshal spec', binding_tokens position (pst_Bindings stage))))"

definition matching_outputs :: "stage_outputs \<Rightarrow> (ArtifactContract \<Rightarrow> bool) \<Rightarrow> string list" where
  "matching_outputs contracts p = map fst (filter (\<lambda>(name, contract). p contract) contracts)"

text \<open>A missing map entry is the zero value of the contract.\<close>

definition contract_of :: "stage_outputs \<Rightarrow> string \<Rightarrow> ArtifactContract" where
  "contract_of contracts name =
     (case map_of contracts name of None \<Rightarrow> \<lparr>ac_Type = [], ac_Version = []\<rparr> | Some c \<Rightarrow> c)"

definition input_contract :: "ArtifactInput \<Rightarrow> ArtifactContract" where
  "input_contract input = \<lparr>ac_Type = ai_Type input, ac_Version = ai_Version input\<rparr>"

definition set_output :: "string \<Rightarrow> string \<Rightarrow> PipelineBinding list \<Rightarrow> PipelineBinding list" where
  "set_output path name bindings =
     map (\<lambda>b. if pb_Path b = path then b\<lparr>pb_FromOutput := name\<rparr> else b) bindings"

text \<open>The name of the output an input of the plan takes its artifact from.\<close>

definition bound_output :: "(string \<times> stage_outputs) list \<Rightarrow> PipelineBinding \<Rightarrow> ArtifactInput \<Rightarrow> string option" where
  "bound_output outputs binding input =
     (if pb_FromOutput binding \<noteq> [] then Some (pb_FromOutput binding)
      else case matching_outputs (outputs_of outputs (pb_FromStage binding)) (\<lambda>c. c = input_contract input) of
          [name] \<Rightarrow> Some name
        | _ \<Rightarrow> None)"

definition check_bound_input ::
  "string \<Rightarrow> (string \<times> PipelineBinding) list \<Rightarrow> (string \<times> stage_outputs) list \<Rightarrow> ArtifactInput \<Rightarrow>
   string list \<times> PipelineBinding list \<Rightarrow> workflow_error + string list \<times> PipelineBinding list" where
  "check_bound_input stageID tokens outputs input = (\<lambda>(used, resolved).
     (case map_of tokens (ai_ArtifactID input) of
        None \<Rightarrow> Inr (used, resolved)
      | Some binding \<Rightarrow>
          (case bound_output outputs binding input of
             None \<Rightarrow> Inl (AmbiguousBinding stageID (pb_Path binding))
           | Some name \<Rightarrow>
               if contract_of (outputs_of outputs (pb_FromStage binding)) name \<noteq> input_contract input
               then Inl (BindingMismatch stageID (pb_Path binding))
               else Inr (ai_ArtifactID input # used,
                 if pb_FromOutput binding = [] then set_output (pb_Path binding) name resolved else resolved))))"

definition plan_inputs :: "Plan \<Rightarrow> ArtifactInput list" where
  "plan_inputs plan = concat (map ps_ArtifactInputs (plan_Steps plan))"

definition validateBoundInputs ::
  "PipelineStage \<Rightarrow> Plan \<Rightarrow> (string \<times> PipelineBinding) list \<Rightarrow> (string \<times> stage_outputs) list \<Rightarrow>
   workflow_error + PipelineBinding list" where
  "validateBoundInputs stage plan tokens outputs =
     (case fold_err (check_bound_input (pst_ID stage) tokens outputs) (plan_inputs plan) ([], pst_Bindings stage) of
        Inl e \<Rightarrow> Inl e
      | Inr (used, resolved) \<Rightarrow>
          (case find (\<lambda>(token, binding). token \<notin> set used) tokens of
             Some (token, binding) \<Rightarrow> Inl (BindingUnused (pst_ID stage) (pb_Path binding))
           | None \<Rightarrow> Inr resolved))"

definition collect_output :: "string \<Rightarrow> ArtifactOutput \<Rightarrow> stage_outputs \<Rightarrow> workflow_error + stage_outputs" where
  "collect_output stageID output result =
     (if map_of result (ao_Name output) \<noteq> None then Inl (OutputDuplicated stageID (ao_Name output))
      else Inr ((ao_Name output, \<lparr>ac_Type = ao_Type output, ac_Version = ao_Version output\<rparr>) # result))"

definition plan_outputs :: "Plan \<Rightarrow> ArtifactOutput list" where
  "plan_outputs plan = concat (map ps_Outputs (plan_Steps plan))"

definition collectOutputs :: "string \<Rightarrow> Plan \<Rightarrow> workflow_error + stage_outputs" where
  "collectOutputs stageID plan = fold_err (collect_output stageID) (plan_outputs plan) []"

definition mutatingPlan :: "Plan \<Rightarrow> bool" where
  "mutatingPlan plan \<longleftrightarrow> list_ex ps_Mutating (plan_Steps plan)"

section \<open>Validation\<close>

record validation_state =
  vs_Stages :: "PipelineStage list"
  vs_Resolved :: "ResolvedPipelineStage list"
  vs_Issues :: "ValidationIssue list"
  vs_Outputs :: "(string \<times> stage_outputs) list"
  vs_Visited :: "string list"

definition vissue :: "string \<Rightarrow> string \<Rightarrow> string \<Rightarrow> ValidationIssue" where
  "vissue level path message = \<lparr>vi_Level = level, vi_Path = path, vi_Message = message\<rparr>"

text \<open>The first binding to a stage that was visited and did not validate.\<close>

definition blocking_binding :: "validation_state \<Rightarrow> PipelineStage \<Rightarrow> PipelineBinding option" where
  "blocking_binding st stage =
     find (\<lambda>b. pb_FromStage b \<in> set (vs_Visited st) \<and> map_of (vs_Outputs st) (pb_FromStage b) = None) (pst_Bindings stage)"

definition resolved_stage ::
  "PipelineStage \<Rightarrow> Manifest \<Rightarrow> RawMessage \<Rightarrow> PipelineBinding list \<Rightarrow> Plan \<Rightarrow> ResolvedPipelineStage" where
  "resolved_stage stage manifest spec bindings plan =
     \<lparr>rps_ID = pst_ID stage, rps_PluginID = pst_PluginID stage, rps_PluginVersion = mf_Version manifest,
      rps_PluginDigest = mf_RuntimeDigest manifest, rps_Spec = spec, rps_Bindings = bindings, rps_Plan = plan\<rparr>"

definition stage_issue :: "string \<Rightarrow> PipelineStage \<Rightarrow> string \<Rightarrow> ValidationIssue" where
  "stage_issue level stage message = vissue level (''stages.'' @ pst_ID stage) message"

definition validated_message :: "Manifest \<Rightarrow> Plan \<Rightarrow> string" where
  "validated_message manifest plan =
     ''Validated '' @ mf_Name manifest @ '' '' @ mf_Version manifest @ '' with '' @
     show_nat (length (plan_Steps plan)) @ '' planned step(s).''"

definition blocked_message :: "PipelineBinding \<Rightarrow> string" where
  "blocked_message b =
     ''Cannot validate this stage because the earlier stage '' @ pb_FromStage b @ '' did not validate.''"

definition deferred_message :: string where
  "deferred_message = ''Runtime validation will run immediately before this stage starts.''"

text \<open>Everything after the plugin accepted the specification: planning and the checks of the plan.\<close>

definition plan_stage ::
  "bool \<Rightarrow> nat \<Rightarrow> PipelineStage \<Rightarrow> 'w Plugin \<Rightarrow> RawMessage \<Rightarrow> (string \<times> PipelineBinding) list \<Rightarrow>
   validation_state \<Rightarrow> workflow_error + validation_state" where
  "plan_stage cleanupAfterRun position stage plugin spec tokens st =
     (let manifest = plugin_Manifest plugin; sid = pst_ID stage in
      case plugin_Plan plugin spec of
        Inl e \<Rightarrow> Inl (PlanningFailed sid e)
      | Inr plan \<Rightarrow>
          if plan_Steps plan = [] then Inl (EmptyPlan sid)
          else if cleanupAfterRun \<and> mutatingPlan plan \<and> \<not> HasCapability manifest ''lifecycle.cleanup''
          then Inl (CleanupUndeclared sid (mf_ID manifest))
          else (case ValidatePlan plan (mf_ArtifactInputs manifest) (mf_ArtifactOutputs manifest) of
              Some e \<Rightarrow> Inl (StageArtifactGraph sid e)
            | None \<Rightarrow>
                (case validateBoundInputs stage plan tokens (vs_Outputs st) of
                   Inl e \<Rightarrow> Inl e
                 | Inr bindings \<Rightarrow>
                     (case collectOutputs sid plan of
                        Inl e \<Rightarrow> Inl e
                      | Inr outputs \<Rightarrow>
                          Inr (st\<lparr>vs_Stages := (vs_Stages st)[position := (vs_Stages st ! position)\<lparr>pst_Bindings := bindings\<rparr>],
                                  vs_Outputs := obj_set sid outputs (vs_Outputs st),
                                  vs_Resolved := vs_Resolved st @ [resolved_stage stage manifest spec bindings plan],
                                  vs_Issues := vs_Issues st @
                                    [stage_issue ''info'' stage (validated_message manifest plan)]\<rparr>)))))"

definition schema_issues :: "PipelineStage \<Rightarrow> Issue list \<Rightarrow> ValidationIssue list" where
  "schema_issues stage issues =
     map (\<lambda>i. vissue ''error'' (''stages.'' @ pst_ID stage @ ''.spec'' @ trim_prefix ''$'' (is_Path i)) (is_Message i)) issues"

definition plugin_issues :: "PipelineStage \<Rightarrow> ValidationIssue list \<Rightarrow> ValidationIssue list" where
  "plugin_issues stage issues =
     map (\<lambda>i. i\<lparr>vi_Path := ''stages.'' @ pst_ID stage @ ''.'' @ trim_prefix ''.'' (vi_Path i)\<rparr>) issues"

definition validate_stage ::
  "golib \<Rightarrow> 'w Registry \<Rightarrow> bool \<Rightarrow> bool \<Rightarrow> nat \<times> PipelineStage \<Rightarrow> validation_state \<Rightarrow> workflow_error + validation_state" where
  "validate_stage L registry cleanupAfterRun deferRuntimeValidation = (\<lambda>(position, stage) st.
     (let sid = pst_ID stage; visited = st\<lparr>vs_Visited := sid # vs_Visited st\<rparr> in
      case blocking_binding st stage of
        Some b \<Rightarrow>
          Inr (visited\<lparr>vs_Issues := vs_Issues st @ [stage_issue ''error'' stage (blocked_message b)]\<rparr>)
      | None \<Rightarrow>
          (case Get registry (pst_PluginID stage) of
             Inl e \<Rightarrow> Inl (StagePlugin sid e)
           | Inr plugin \<Rightarrow>
               (case bindPlaceholders L stage position (vs_Outputs st) of
                  Inl e \<Rightarrow> Inl e
                | Inr (spec, tokens) \<Rightarrow>
                    (case Validate L (mf_Schema (plugin_Manifest plugin)) spec of
                       Inl e \<Rightarrow> Inl (StageSchema sid e)
                     | Inr issues \<Rightarrow>
                         if issues \<noteq> [] then Inr (visited\<lparr>vs_Issues := vs_Issues st @ schema_issues stage issues\<rparr>)
                         else if deferRuntimeValidation
                         then plan_stage cleanupAfterRun position stage plugin spec tokens
                           (visited\<lparr>vs_Issues := vs_Issues st @ [stage_issue ''info'' stage deferred_message]\<rparr>)
                         else let report = plugin_Validate plugin spec;
                                st' = visited\<lparr>vs_Issues := vs_Issues st @ plugin_issues stage (vr_Issues report)\<rparr>
                              in if \<not> vr_Valid report then Inr st'
                                 else plan_stage cleanupAfterRun position stage plugin spec tokens st')))))"

definition has_error :: "ValidationIssue list \<Rightarrow> bool" where
  "has_error issues \<longleftrightarrow> list_ex (\<lambda>i. vi_Level i = ''error'') issues"

text \<open>The choice of the result output and the comparison with the requested contract.\<close>

definition wanted :: "PipelineOutput \<Rightarrow> ArtifactContract \<Rightarrow> bool" where
  "wanted r c \<longleftrightarrow> (po_Type r = [] \<or> ac_Type c = po_Type r) \<and> (po_Version r = [] \<or> ac_Version c = po_Version r)"

definition resolve_result :: "PipelineOutput \<Rightarrow> stage_outputs \<Rightarrow> workflow_error + PipelineOutput \<times> ArtifactContract" where
  "resolve_result r outputs =
     (case (if po_Output r \<noteq> [] then Inr (po_Output r)
            else case matching_outputs outputs (wanted r) of
                [name] \<Rightarrow> Inr name
              | _ \<Rightarrow> Inl (ResultAmbiguous (po_Stage r))) of
        Inl e \<Rightarrow> Inl e
      | Inr name \<Rightarrow>
          (case map_of outputs name of
             None \<Rightarrow> Inl (ResultOutputMissing name (po_Stage r))
           | Some contract \<Rightarrow>
               if \<not> wanted r contract then Inl (ResultMismatch name)
               else Inr (r\<lparr>po_Output := name, po_Type := ac_Type contract, po_Version := ac_Version contract\<rparr>, contract)))"

text \<open>
  \<open>fingerprint\<close> is the hexadecimal digest of the JSON encoding of definition and resolution,
  \<open>None\<close> when they do not encode; \<open>now\<close> is the time of the call.
\<close>

definition validate ::
  "golib \<Rightarrow> (PipelineDefinition \<Rightarrow> PipelineResolution \<Rightarrow> string option) \<Rightarrow> timestamp \<Rightarrow> 'w Registry \<Rightarrow>
   PipelineDefinition \<Rightarrow> bool \<Rightarrow> workflow_error + Result" where
  "validate L fingerprint now registry definition deferRuntimeValidation =
     (case normalize L definition of
        Inl e \<Rightarrow> Inl e
      | Inr normalized \<Rightarrow>
          (case fold_err (validate_stage L registry (pd_CleanupAfterRun normalized) deferRuntimeValidation)
             (List.enumerate 0 (pd_Stages normalized))
             \<lparr>vs_Stages = pd_Stages normalized, vs_Resolved = [], vs_Issues = [], vs_Outputs = [], vs_Visited = []\<rparr> of
             Inl e \<Rightarrow> Inl e
           | Inr st \<Rightarrow>
               (let definition' = normalized\<lparr>pd_Stages := vs_Stages st\<rparr>;
                    valid = (\<not> has_error (vs_Issues st));
                    validation = \<lparr>vr_Valid = valid, vr_Issues = vs_Issues st, vr_CheckedAt = now\<rparr>;
                    none = \<lparr>ac_Type = [], ac_Version = []\<rparr>
                in if \<not> valid
                   then Inr \<lparr>res_Definition = definition', res_Resolution = \<lparr>pr_Stages = vs_Resolved st, pr_Result = none\<rparr>,
                             res_Validation = validation, res_Hash = []\<rparr>
                   else (case map_of (vs_Outputs st) (po_Stage (pd_Result normalized)) of
                       None \<Rightarrow> Inl (ResultStageUnavailable (po_Stage (pd_Result normalized)))
                     | Some outputs \<Rightarrow>
                         (case resolve_result (pd_Result normalized) outputs of
                            Inl e \<Rightarrow> Inl e
                          | Inr (r, contract) \<Rightarrow>
                              (let definition'' = definition'\<lparr>pd_Result := r\<rparr>;
                                   resolution = \<lparr>pr_Stages = vs_Resolved st, pr_Result = contract\<rparr>
                               in case fingerprint definition'' resolution of
                                    None \<Rightarrow> Inl FingerprintFailed
                                  | Some hash \<Rightarrow>
                                      Inr \<lparr>res_Definition = definition'', res_Resolution = resolution,
                                           res_Validation = validation, res_Hash = hash\<rparr>))))))"

section \<open>Resolving a stage\<close>

definition replaceJSONToken :: "golib \<Rightarrow> RawMessage \<Rightarrow> string \<Rightarrow> string \<Rightarrow> (RawMessage \<times> bool) option" where
  "replaceJSONToken L raw token v =
     (case unmarshal_any L raw of
        None \<Rightarrow> None
      | Some decoded \<Rightarrow>
          (let (decoded', changed) = replaceValue token v decoded
           in if changed then Some (marshal decoded', True) else Some (raw, False)))"

definition replace_input :: "string \<Rightarrow> string \<Rightarrow> ArtifactInput \<Rightarrow> ArtifactInput" where
  "replace_input token v input = (if ai_ArtifactID input = token then input\<lparr>ai_ArtifactID := v\<rparr> else input)"

definition replace_step :: "golib \<Rightarrow> string \<Rightarrow> string \<Rightarrow> PlanStep \<Rightarrow> (PlanStep \<times> bool) option" where
  "replace_step L token v step =
     (case replaceJSONToken L (ps_Input step) token v of
        None \<Rightarrow> None
      | Some (input, changed) \<Rightarrow>
          Some (step\<lparr>ps_ArtifactInputs := map (replace_input token v) (ps_ArtifactInputs step), ps_Input := input\<rparr>,
                changed \<or> list_ex (\<lambda>i. ai_ArtifactID i = token) (ps_ArtifactInputs step)))"

fun replace_steps :: "golib \<Rightarrow> string \<Rightarrow> string \<Rightarrow> PlanStep list \<Rightarrow> (PlanStep list \<times> bool) option" where
  "replace_steps L token v [] = Some ([], False)"
| "replace_steps L token v (s # ss) =
     (case replace_step L token v s of
        None \<Rightarrow> None
      | Some (s', c) \<Rightarrow>
          (case replace_steps L token v ss of
             None \<Rightarrow> None
           | Some (ss', c') \<Rightarrow> Some (s' # ss', c \<or> c')))"

definition resolve_binding ::
  "golib \<Rightarrow> string \<Rightarrow> nat \<Rightarrow> (string \<times> (string \<times> string) list) list \<Rightarrow> nat \<times> PipelineBinding \<Rightarrow>
   json \<times> PlanStep list \<Rightarrow> workflow_error + json \<times> PlanStep list" where
  "resolve_binding L stageID position produced = (\<lambda>(index, binding) (spec, steps).
     (case map_of produced (pb_FromStage binding) of
        None \<Rightarrow> Inl (StageOutputUnavailable (pb_FromStage binding))
      | Some stageOutputs \<Rightarrow>
          (case map_of stageOutputs (pb_FromOutput binding) of
             None \<Rightarrow> Inl (OutputUnavailable (pb_FromOutput binding) (pb_FromStage binding))
           | Some artifactID \<Rightarrow>
               if artifactID = [] then Inl (OutputUnavailable (pb_FromOutput binding) (pb_FromStage binding))
               else (case setPointer spec (pb_Path binding) artifactID of
                   Inl e \<Rightarrow> Inl (BindingPointer stageID (index + 1) e)
                 | Inr spec' \<Rightarrow>
                     (case replace_steps L (pipeline_token position index) artifactID steps of
                        None \<Rightarrow> Inl (PlanInputInvalid stageID)
                      | Some (steps', replaced) \<Rightarrow>
                          if replaced then Inr (spec', steps') else Inl (BindingAbsent stageID (index + 1)))))))"

definition ResolveStage ::
  "golib \<Rightarrow> Pipeline \<Rightarrow> int \<Rightarrow> (string \<times> (string \<times> string) list) list \<Rightarrow> workflow_error + ResolvedPipelineStage" where
  "ResolveStage L pipeline position produced =
     (if position < 0 \<or> int (length (pr_Stages (pl_Resolution pipeline))) \<le> position \<or>
         int (length (pd_Stages (pl_Definition pipeline))) \<le> position
      then Inl StagePositionInvalid
      else let p = nat position; resolved = pr_Stages (pl_Resolution pipeline) ! p;
             definition = pd_Stages (pl_Definition pipeline) ! p
           in case unmarshal_any L (rps_Spec resolved) of
                None \<Rightarrow> Inl (ResolvedSpecInvalid (rps_ID resolved))
              | Some spec \<Rightarrow>
                  (case fold_err (resolve_binding L (rps_ID resolved) p produced)
                     (List.enumerate 0 (pst_Bindings definition)) (spec, plan_Steps (rps_Plan resolved)) of
                     Inl e \<Rightarrow> Inl e
                   | Inr (spec', steps) \<Rightarrow>
                       Inr (resolved\<lparr>rps_Plan := (rps_Plan resolved)\<lparr>plan_Steps := steps\<rparr>, rps_Spec := marshal spec'\<rparr>)))"

section \<open>Normalised definitions\<close>

lemma trim_binding_idem [simp]: "trim_binding (trim_binding b) = trim_binding b"
  by (simp add: trim_binding_def)

lemma trim_result_idem [simp]: "trim_result (trim_result r) = trim_result r"
  by (simp add: trim_result_def)

lemma trim_stage_idem [simp]: "trim_stage (trim_stage s) = trim_stage s"
  by (simp add: trim_stage_def default_spec_def)

lemma normalize_bindings_idem:
  "normalize_bindings sid index bs paths = Inr bs' \<Longrightarrow> normalize_bindings sid index bs' paths = Inr bs'"
proof (induction bs arbitrary: bs' index paths)
  case (Cons b bs)
  from Cons.prems obtain rest where "pb_Path (trim_binding b) \<noteq> []" "pb_FromStage (trim_binding b) \<noteq> []"
    "pb_Path (trim_binding b) \<notin> set paths" "bs' = trim_binding b # rest"
    "normalize_bindings sid (index + 1) bs (pb_Path (trim_binding b) # paths) = Inr rest"
    by (auto simp: Let_def split: if_splits sum.splits)
  with Cons.IH show ?case by (simp add: Let_def)
qed simp

lemma normalize_stage_parts:
  assumes "normalize_stage L index seen s = Inr t"
  shows "stageIDPattern (pst_ID t)" and "pst_ID t \<notin> set seen" and "pst_DependsOn t = pst_DependsOn s"
    and "dependencies_valid (pst_ID t) seen (pst_DependsOn t) []"
    and "normalize_stage L index seen t = Inr t"
  using assms normalize_bindings_idem
  by (auto simp: normalize_stage_def Let_def trim_stage_def default_spec_def split: if_splits sum.splits)

lemma normalize_stages_idem:
  "normalize_stages L index ss seen = Inr ts \<Longrightarrow> normalize_stages L index ts seen = Inr ts"
proof (induction L index ss seen arbitrary: ts rule: normalize_stages.induct)
  case (2 L index s ss seen)
  from "2.prems" obtain t rest where t: "normalize_stage L index seen s = Inr t"
    "normalize_stages L (index + 1) ss (pst_ID t # seen) = Inr rest" "ts = t # rest"
    by (auto split: sum.splits)
  with "2.IH" normalize_stage_parts(5) [OF t(1)] show ?case by simp
qed simp

lemma length_normalize_stages: "normalize_stages L index ss seen = Inr ts \<Longrightarrow> length ts = length ss"
  by (induction L index ss seen arbitrary: ts rule: normalize_stages.induct) (auto split: sum.splits)

text \<open>
  Normalisation is idempotent: a normalised definition passes every check again and is left
  as it is, so validating a stored definition anew starts from the same definition.
\<close>

theorem normalize_idempotent:
  assumes "normalize L definition = Inr normalized"
  shows "normalize L normalized = Inr normalized"
  using assms normalize_stages_idem length_normalize_stages
  by (fastforce simp: normalize_def split: if_splits sum.splits)

lemma dependencies_valid_subset: "dependencies_valid sid seen ds done \<Longrightarrow> set ds \<subseteq> set seen"
  by (induction sid seen ds "done" rule: dependencies_valid.induct) auto

lemma normalize_stages_ordered:
  assumes "normalize_stages L index ss seen = Inr ts"
  shows "distinct (map pst_ID ts) \<and> set (map pst_ID ts) \<inter> set seen = {} \<and>
    (\<forall>i < length ts. set (pst_DependsOn (ts ! i)) \<subseteq> set seen \<union> set (take i (map pst_ID ts)))"
  using assms
proof (induction L index ss seen arbitrary: ts rule: normalize_stages.induct)
  case (2 L index s ss seen)
  from "2.prems" obtain t rest where t: "normalize_stage L index seen s = Inr t"
    "normalize_stages L (index + 1) ss (pst_ID t # seen) = Inr rest" "ts = t # rest"
    by (auto split: sum.splits)
  have "set (pst_DependsOn t) \<subseteq> set seen"
    using normalize_stage_parts(4) [OF t(1)] by (rule dependencies_valid_subset)
  with "2.IH" [OF t(1) t(2)] normalize_stage_parts(2) [OF t(1)] t(3) show ?case
    by (auto simp: All_less_Suc2 less_Suc_eq_0_disj) blast
qed simp

lemma normalize_ordered:
  assumes "normalize L definition = Inr d"
  shows "distinct (map pst_ID (pd_Stages d))"
    and "i < length (pd_Stages d) \<Longrightarrow> set (pst_DependsOn (pd_Stages d ! i)) \<subseteq> set (take i (map pst_ID (pd_Stages d)))"
proof -
  from assms obtain ts where ts: "normalize_stages L 0 (pd_Stages definition) [] = Inr ts" "pd_Stages d = ts"
    by (auto simp: normalize_def split: if_splits sum.splits)
  with normalize_stages_ordered [OF ts(1)]
  show "distinct (map pst_ID (pd_Stages d))"
    and "i < length (pd_Stages d) \<Longrightarrow> set (pst_DependsOn (pd_Stages d ! i)) \<subseteq> set (take i (map pst_ID (pd_Stages d)))"
    by auto
qed

section \<open>One validated stage\<close>

lemma in_enumerateE:
  assumes "x \<in> set xs"
  obtains index where "(index, x) \<in> set (List.enumerate 0 xs)"
proof -
  from assms obtain i where "i < length xs" "xs ! i = x" by (auto simp: in_set_conv_nth)
  then have "(i, x) \<in> set (List.enumerate 0 xs)" by (simp add: in_set_enumerate_eq)
  then show thesis by (rule that)
qed

lemma bindPlaceholders_bound:
  assumes "bindPlaceholders L stage position outputs = Inr (spec, tokens)" and "b \<in> set (pst_Bindings stage)"
  shows "map_of outputs (pb_FromStage b) \<noteq> None"
proof -
  let ?f = "bind_placeholder (pst_ID stage) position outputs"
  from assms(1) obtain s s' where fold: "fold_err ?f (List.enumerate 0 (pst_Bindings stage)) s = Inr s'"
    by (auto simp: bindPlaceholders_def split: option.splits sum.splits)
  obtain index where index: "(index, b) \<in> set (List.enumerate 0 (pst_Bindings stage))"
    using assms(2) by (rule in_enumerateE)
  have "map_of outputs (pb_FromStage (snd (index, b))) \<noteq> None"
    by (rule fold_err_each [OF fold _ _ index]) (auto simp: bind_placeholder_def split: if_splits)
  then show ?thesis by simp
qed

lemma bindPlaceholders_tokens:
  "bindPlaceholders L stage position outputs = Inr (spec, tokens) \<Longrightarrow> tokens = binding_tokens position (pst_Bindings stage)"
  by (auto simp: bindPlaceholders_def split: option.splits sum.splits)

lemma has_error_append [simp]: "has_error (a @ b) \<longleftrightarrow> has_error a \<or> has_error b"
  by (simp add: has_error_def)

text \<open>The ways an iteration of \<open>validate\<close> can end without an error.\<close>

lemma validate_stage_cases:
  assumes "validate_stage L registry cleanup deferred (position, stage) st = Inr st'"
  obtains
    (failed) issues where "st' = st\<lparr>vs_Visited := pst_ID stage # vs_Visited st, vs_Issues := vs_Issues st @ issues\<rparr>"
      "has_error issues"
  | (rejected) plugin spec tokens where "\<not> deferred" "Get registry (pst_PluginID stage) = Inr plugin"
      "bindPlaceholders L stage position (vs_Outputs st) = Inr (spec, tokens)" "\<not> vr_Valid (plugin_Validate plugin spec)"
      "st' = st\<lparr>vs_Visited := pst_ID stage # vs_Visited st,
        vs_Issues := vs_Issues st @ plugin_issues stage (vr_Issues (plugin_Validate plugin spec))\<rparr>"
  | (planned) plugin spec tokens issues where "Get registry (pst_PluginID stage) = Inr plugin"
      "bindPlaceholders L stage position (vs_Outputs st) = Inr (spec, tokens)"
      "plan_stage cleanup position stage plugin spec tokens
        (st\<lparr>vs_Visited := pst_ID stage # vs_Visited st, vs_Issues := vs_Issues st @ issues\<rparr>) = Inr st'"
proof (cases "blocking_binding st stage")
  case (Some b)
  with assms show thesis by (intro failed) (auto simp: validate_stage_def Let_def stage_issue_def vissue_def has_error_def)
next
  case None
  with assms obtain plugin spec tokens issues where
    p: "Get registry (pst_PluginID stage) = Inr plugin" "bindPlaceholders L stage position (vs_Outputs st) = Inr (spec, tokens)"
    "Validate L (mf_Schema (plugin_Manifest plugin)) spec = Inr issues"
    by (auto simp: validate_stage_def Let_def split: sum.splits)
  show thesis
  proof (cases "issues = []")
    case False
    then have "has_error (schema_issues stage issues)"
      by (cases issues) (simp_all add: has_error_def schema_issues_def vissue_def)
    with False None p assms show thesis by (intro failed) (auto simp: validate_stage_def Let_def)
  next
    case True
    show thesis
    proof (cases deferred)
      case True
      with \<open>issues = []\<close> None p assms show thesis by (intro planned [OF p(1,2)]) (auto simp: validate_stage_def Let_def)
    next
      case False
      with \<open>issues = []\<close> None p assms show thesis
        by (cases "vr_Valid (plugin_Validate plugin spec)")
          (auto simp: validate_stage_def Let_def intro: planned [OF p(1,2)] rejected [OF _ p(1,2)])
    qed
  qed
qed

lemma plan_stage_parts:
  assumes "plan_stage cleanup position stage plugin spec tokens st = Inr st'"
  obtains plan bindings outputs where
    "plugin_Plan plugin spec = Inr plan" "plan_Steps plan \<noteq> []"
    "cleanup \<and> mutatingPlan plan \<longrightarrow> HasCapability (plugin_Manifest plugin) ''lifecycle.cleanup''"
    "ValidatePlan plan (mf_ArtifactInputs (plugin_Manifest plugin)) (mf_ArtifactOutputs (plugin_Manifest plugin)) = None"
    "validateBoundInputs stage plan tokens (vs_Outputs st) = Inr bindings" "collectOutputs (pst_ID stage) plan = Inr outputs"
    "st' = st\<lparr>vs_Stages := (vs_Stages st)[position := (vs_Stages st ! position)\<lparr>pst_Bindings := bindings\<rparr>],
       vs_Outputs := obj_set (pst_ID stage) outputs (vs_Outputs st),
       vs_Resolved := vs_Resolved st @ [resolved_stage stage (plugin_Manifest plugin) spec bindings plan],
       vs_Issues := vs_Issues st @ [stage_issue ''info'' stage (validated_message (plugin_Manifest plugin) plan)]\<rparr>"
proof -
  from assms obtain plan where plan: "plugin_Plan plugin spec = Inr plan"
    by (auto simp: plan_stage_def Let_def split: sum.splits)
  note step = assms [unfolded plan_stage_def Let_def plan sum.case]
  from step have steps: "plan_Steps plan \<noteq> []" by (rule contrapos_pn) simp
  with step have cleanup: "cleanup \<and> mutatingPlan plan \<longrightarrow> HasCapability (plugin_Manifest plugin) ''lifecycle.cleanup''"
    by (auto split: if_splits)
  with step steps have graph: "ValidatePlan plan (mf_ArtifactInputs (plugin_Manifest plugin))
      (mf_ArtifactOutputs (plugin_Manifest plugin)) = None"
    by (auto split: option.splits if_splits)
  have declared: "\<not> (cleanup \<and> mutatingPlan plan \<and> \<not> HasCapability (plugin_Manifest plugin) ''lifecycle.cleanup'')"
    using cleanup by blast
  note step = step [unfolded if_not_P [OF steps] if_not_P [OF declared] graph option.case]
  from step obtain bindings outputs where
    "validateBoundInputs stage plan tokens (vs_Outputs st) = Inr bindings" "collectOutputs (pst_ID stage) plan = Inr outputs"
    by (auto split: sum.splits)
  with step steps cleanup graph plan show thesis by (intro that) auto
qed

section \<open>Validated pipelines\<close>

text \<open>What validation may change of a stage: only the outputs its bindings name.\<close>

definition same_stage :: "PipelineStage \<Rightarrow> PipelineStage \<Rightarrow> bool" where
  "same_stage a b \<longleftrightarrow>
     pst_ID a = pst_ID b \<and> pst_DependsOn a = pst_DependsOn b \<and> pst_PluginID a = pst_PluginID b \<and>
     map pb_FromStage (pst_Bindings a) = map pb_FromStage (pst_Bindings b) \<and>
     map pb_Path (pst_Bindings a) = map pb_Path (pst_Bindings b)"

lemma same_stage_refl [simp]: "same_stage a a"
  by (simp add: same_stage_def)

lemma set_output_shape [simp]:
  "map pb_FromStage (set_output path name bs) = map pb_FromStage bs" "map pb_Path (set_output path name bs) = map pb_Path bs"
  by (induction bs) (auto simp: set_output_def)

lemma validateBoundInputs_shape:
  assumes "validateBoundInputs stage plan tokens outputs = Inr bindings"
  shows "map pb_FromStage bindings = map pb_FromStage (pst_Bindings stage) \<and> map pb_Path bindings = map pb_Path (pst_Bindings stage)"
proof -
  from assms obtain used where fold:
    "fold_err (check_bound_input (pst_ID stage) tokens outputs) (plan_inputs plan) ([], pst_Bindings stage) = Inr (used, bindings)"
    by (auto simp: validateBoundInputs_def split: sum.splits option.splits)
  let ?same = "\<lambda>u_bs. map pb_FromStage (snd u_bs) = map pb_FromStage (pst_Bindings stage) \<and>
      map pb_Path (snd u_bs) = map pb_Path (pst_Bindings stage)"
  have "?same (used, bindings)"
    by (rule fold_err_invariant [OF fold]) (auto simp: check_bound_input_def split: option.splits if_splits)
  then show ?thesis by simp
qed

text \<open>
  The state after \<open>k\<close> stages: the stages keep their shape, only visited stages have outputs, and
  as long as no error was reported every binding of a visited stage names an earlier stage.
\<close>

definition walked :: "PipelineStage list \<Rightarrow> nat \<Rightarrow> validation_state \<Rightarrow> bool" where
  "walked stages k st \<longleftrightarrow>
     list_all2 same_stage (vs_Stages st) stages \<and>
     fst ` set (vs_Outputs st) \<subseteq> set (take k (map pst_ID stages)) \<and>
     (\<not> has_error (vs_Issues st) \<longrightarrow>
        (\<forall>i < k. pb_FromStage ` set (pst_Bindings (stages ! i)) \<subseteq> set (take i (map pst_ID stages))))"

lemma take_map_Suc: "k < length xs \<Longrightarrow> set (take (Suc k) (map f xs)) = insert (f (xs ! k)) (set (take k (map f xs)))"
  by (simp add: take_Suc_conv_app_nth)

lemma walked_bound:
  assumes "walked stages k st" and "bindPlaceholders L (stages ! k) position (vs_Outputs st) = Inr (spec, tokens)"
  shows "pb_FromStage ` set (pst_Bindings (stages ! k)) \<subseteq> set (take k (map pst_ID stages))"
proof
  fix x assume "x \<in> pb_FromStage ` set (pst_Bindings (stages ! k))"
  then have "map_of (vs_Outputs st) x \<noteq> None" using bindPlaceholders_bound [OF assms(2)] by auto
  then have "x \<in> fst ` set (vs_Outputs st)" by (simp add: map_of_eq_None_iff)
  then show "x \<in> set (take k (map pst_ID stages))" using assms(1) by (auto simp: walked_def)
qed

lemma walked_step:
  assumes w: "walked stages k st" and k: "k < length stages"
    and step: "validate_stage L registry cleanup deferred (k, stages ! k) st = Inr st'"
  shows "walked stages (Suc k) st'"
  using step
proof (cases rule: validate_stage_cases)
  case (failed issues)
  with w k show ?thesis by (auto simp: walked_def take_map_Suc)
next
  case (rejected plugin spec tokens)
  with w k walked_bound [OF w rejected(3)] show ?thesis by (auto simp: walked_def take_map_Suc less_Suc_eq)
next
  case (planned plugin spec tokens issues)
  from planned(3) obtain plan bindings outputs where
    b: "validateBoundInputs (stages ! k) plan tokens (vs_Outputs st) = Inr bindings"
    and st': "vs_Stages st' = (vs_Stages st)[k := (vs_Stages st ! k)\<lparr>pst_Bindings := bindings\<rparr>]"
      "vs_Outputs st' = obj_set (pst_ID (stages ! k)) outputs (vs_Outputs st)"
      "has_error (vs_Issues st) \<Longrightarrow> has_error (vs_Issues st')"
    by (cases rule: plan_stage_parts) auto
  have stages: "list_all2 same_stage (vs_Stages st) stages" using w by (simp add: walked_def)
  then have len: "length (vs_Stages st) = length stages" by (rule list_all2_lengthD)
  have "same_stage (vs_Stages st ! k) (stages ! k)" using stages k len by (auto intro: list_all2_nthD)
  with validateBoundInputs_shape [OF b] have "same_stage ((vs_Stages st ! k)\<lparr>pst_Bindings := bindings\<rparr>) (stages ! k)"
    by (simp add: same_stage_def)
  with stages k have "list_all2 same_stage (vs_Stages st') stages"
    by (metis st'(1) list_all2_update_cong list_update_id)
  moreover have "fst ` set (vs_Outputs st') = insert (pst_ID (stages ! k)) (fst ` set (vs_Outputs st))"
    using fst_set_obj_set [of "pst_ID (stages ! k)" outputs "vs_Outputs st"] st'(2) by simp
  ultimately show ?thesis
    using w k walked_bound [OF w planned(2)] st'(3) by (auto simp: walked_def take_map_Suc less_Suc_eq)
qed

lemma validate_parts:
  assumes "validate L fp now registry definition deferred = Inr res"
  obtains normalized st where "normalize L definition = Inr normalized"
    "fold_err (validate_stage L registry (pd_CleanupAfterRun normalized) deferred) (List.enumerate 0 (pd_Stages normalized))
      \<lparr>vs_Stages = pd_Stages normalized, vs_Resolved = [], vs_Issues = [], vs_Outputs = [], vs_Visited = []\<rparr> = Inr st"
    "pd_Stages (res_Definition res) = vs_Stages st" "pr_Stages (res_Resolution res) = vs_Resolved st"
    "vr_Valid (res_Validation res) \<longleftrightarrow> \<not> has_error (vs_Issues st)"
    "vr_Valid (res_Validation res) \<Longrightarrow> \<exists>outputs. map_of (vs_Outputs st) (po_Stage (pd_Result normalized)) = Some outputs \<and>
       resolve_result (pd_Result normalized) outputs = Inr (pd_Result (res_Definition res), pr_Result (res_Resolution res))"
  using assms
  by (auto simp: validate_def Let_def split: sum.splits option.splits if_splits)

lemma walked_fold:
  assumes "fold_err (validate_stage L registry cleanup deferred) (List.enumerate 0 stages)
      \<lparr>vs_Stages = stages, vs_Resolved = [], vs_Issues = [], vs_Outputs = [], vs_Visited = []\<rparr> = Inr st"
  shows "walked stages (length stages) st"
proof (rule fold_err_enumerate [OF assms])
  show "walked stages 0 \<lparr>vs_Stages = stages, vs_Resolved = [], vs_Issues = [], vs_Outputs = [], vs_Visited = []\<rparr>"
    by (simp add: walked_def list_all2_refl)
qed (rule walked_step)

text \<open>
  C32: A pipeline that validation declares valid is ordered: its stage identifiers are distinct and
  every dependency and every binding of a stage names an earlier stage. This is the condition
  under which a run of the pipeline can always go on.
\<close>

theorem valid_pipeline_ordered:
  assumes "validate L fp now registry definition deferred = Inr res" and "vr_Valid (res_Validation res)"
  shows "ordered_definition (res_Definition res)"
proof -
  obtain d st where d: "normalize L definition = Inr d" and st: "pd_Stages (res_Definition res) = vs_Stages st"
    and w: "walked (pd_Stages d) (length (pd_Stages d)) st" and ok: "\<not> has_error (vs_Issues st)"
    using assms by (elim validate_parts) (auto dest: walked_fold)
  have same: "list_all2 same_stage (vs_Stages st) (pd_Stages d)" using w by (simp add: walked_def)
  then have ids: "map pst_ID (vs_Stages st) = map pst_ID (pd_Stages d)"
    by (induction rule: list_all2_induct) (auto simp: same_stage_def)
  have stage: "pst_DependsOn (vs_Stages st ! i) = pst_DependsOn (pd_Stages d ! i) \<and>
      pb_FromStage ` set (pst_Bindings (vs_Stages st ! i)) = pb_FromStage ` set (pst_Bindings (pd_Stages d ! i))"
    if "i < length (vs_Stages st)" for i
    using list_all2_nthD [OF same that] unfolding same_stage_def by (metis set_map)
  show ?thesis
    using normalize_ordered [OF d] w ok stage list_all2_lengthD [OF same]
    by (auto simp: ordered_definition_def st ids walked_def)
qed

text \<open>
  A plugin that rejects a specification says why: its report carries an issue of level error.
  The loop of \<open>validate\<close> relies on it, because it reads the verdict from the levels of the issues.
\<close>

definition rejections_reported :: "'w Registry \<Rightarrow> bool" where
  "rejections_reported registry \<longleftrightarrow>
     (\<forall>(k, plugin) \<in> set (reg_plugins registry). \<forall>spec.
        \<not> vr_Valid (plugin_Validate plugin spec) \<longrightarrow> has_error (vr_Issues (plugin_Validate plugin spec)))"

lemma has_error_plugin_issues [simp]: "has_error (plugin_issues stage issues) = has_error issues"
  by (simp add: has_error_def plugin_issues_def list_ex_iff)

definition resolves :: "ResolvedPipelineStage \<Rightarrow> PipelineStage \<Rightarrow> bool" where
  "resolves r s \<longleftrightarrow>
     rps_ID r = pst_ID s \<and> rps_PluginID r = pst_PluginID s \<and> rps_Bindings r = pst_Bindings s \<and>
     plan_Steps (rps_Plan r) \<noteq> []"

text \<open>After \<open>k\<close> stages without an error, the first \<open>k\<close> stages are resolved.\<close>

definition resolved_upto :: "PipelineStage list \<Rightarrow> nat \<Rightarrow> validation_state \<Rightarrow> bool" where
  "resolved_upto stages k st \<longleftrightarrow>
     walked stages k st \<and> (\<not> has_error (vs_Issues st) \<longrightarrow> list_all2 resolves (vs_Resolved st) (take k (vs_Stages st)))"

lemma resolved_step:
  assumes r: "resolved_upto stages k st" and k: "k < length stages" and rep: "deferred \<or> rejections_reported registry"
    and step: "validate_stage L registry cleanup deferred (k, stages ! k) st = Inr st'"
  shows "resolved_upto stages (Suc k) st'"
proof -
  have w: "walked stages k st" using r by (simp add: resolved_upto_def)
  have w': "walked stages (Suc k) st'" by (rule walked_step [OF w k step])
  have len: "length (vs_Stages st) = length stages" and same: "same_stage (vs_Stages st ! k) (stages ! k)"
    using w k by (auto simp: walked_def dest: list_all2_lengthD list_all2_nthD2)
  have "list_all2 resolves (vs_Resolved st') (take (Suc k) (vs_Stages st'))" if ok: "\<not> has_error (vs_Issues st')"
    using step
  proof (cases rule: validate_stage_cases)
    case (failed issues)
    with ok show ?thesis by simp
  next
    case (rejected plugin spec tokens)
    then have "(pst_PluginID (stages ! k), plugin) \<in> set (reg_plugins registry)"
      by (auto simp: Get_def split: option.splits dest: map_of_SomeD)
    with rejected rep have "has_error (vr_Issues (plugin_Validate plugin spec))"
      by (auto simp: rejections_reported_def)
    with rejected ok show ?thesis by simp
  next
    case (planned plugin spec tokens issues)
    from planned(3) show ?thesis
    proof (cases rule: plan_stage_parts)
      case (1 plan bindings outputs)
      let ?stage = "(vs_Stages st ! k)\<lparr>pst_Bindings := bindings\<rparr>"
      have "list_all2 resolves (vs_Resolved st) (take k (vs_Stages st))"
        using r 1(7) ok by (simp add: resolved_upto_def)
      moreover have "resolves (resolved_stage (stages ! k) (plugin_Manifest plugin) spec bindings plan) ?stage"
        using same 1(2) by (simp add: resolves_def resolved_stage_def same_stage_def)
      moreover have "take (Suc k) ((vs_Stages st)[k := ?stage]) = take k (vs_Stages st) @ [?stage]"
        using k len by (simp add: take_Suc_conv_app_nth)
      ultimately show ?thesis using 1(7) by (simp add: list_all2_appendI)
    qed
  qed
  with w' show ?thesis by (simp add: resolved_upto_def)
qed

lemma resolved_fold:
  assumes "fold_err (validate_stage L registry cleanup deferred) (List.enumerate 0 stages)
      \<lparr>vs_Stages = stages, vs_Resolved = [], vs_Issues = [], vs_Outputs = [], vs_Visited = []\<rparr> = Inr st"
    and "deferred \<or> rejections_reported registry"
  shows "resolved_upto stages (length stages) st"
proof (rule fold_err_enumerate [OF assms(1)])
  show "resolved_upto stages 0 \<lparr>vs_Stages = stages, vs_Resolved = [], vs_Issues = [], vs_Outputs = [], vs_Visited = []\<rparr>"
    by (simp add: resolved_upto_def walked_def list_all2_refl)
qed (rule resolved_step [OF _ _ assms(2)])

text \<open>
  C33: When rejecting plugins report an error, the resolution of a valid pipeline has exactly one
  entry per stage of the definition, in the same order, with the same plugin and bindings and a
  plan that is not empty. The position of a stage then means the same in both, as
  \<open>ResolveStage\<close> assumes.
\<close>

theorem valid_pipeline_resolved:
  assumes "validate L fp now registry definition deferred = Inr res" and "vr_Valid (res_Validation res)"
    and "deferred \<or> rejections_reported registry"
  shows "list_all2 resolves (pr_Stages (res_Resolution res)) (pd_Stages (res_Definition res))"
  using assms(1)
proof (cases rule: validate_parts)
  case (1 d st)
  have r: "resolved_upto (pd_Stages d) (length (pd_Stages d)) st"
    by (rule resolved_fold [OF 1(2) assms(3)])
  then have "length (vs_Stages st) = length (pd_Stages d)"
    by (auto simp: resolved_upto_def walked_def dest: list_all2_lengthD)
  with r 1 assms(2) show ?thesis by (simp add: resolved_upto_def)
qed

section \<open>The result of a pipeline\<close>

lemma collectOutputs_entries:
  assumes "collectOutputs sid plan = Inr outputs" and "map_of outputs name = Some c"
  shows "\<exists>out \<in> set (plan_outputs plan). ao_Name out = name \<and> ao_Type out = ac_Type c \<and> ao_Version out = ac_Version c"
proof -
  let ?I = "\<lambda>outs. \<forall>(n, c) \<in> set outs. \<exists>out \<in> set (plan_outputs plan). ao_Name out = n \<and> ao_Type out = ac_Type c \<and> ao_Version out = ac_Version c"
  have "?I outputs"
    by (rule fold_err_invariant [OF assms(1) [unfolded collectOutputs_def]])
      (auto simp: collect_output_def split: if_splits, fastforce+)
  with map_of_SomeD [OF assms(2)] show ?thesis by blast
qed

definition outputs_planned :: "validation_state \<Rightarrow> bool" where
  "outputs_planned st \<longleftrightarrow>
     (\<forall>(sid, outputs) \<in> set (vs_Outputs st). \<exists>r \<in> set (vs_Resolved st). rps_ID r = sid \<and> collectOutputs sid (rps_Plan r) = Inr outputs)"

lemma outputs_planned_step:
  assumes "outputs_planned st" and step: "validate_stage L registry cleanup deferred (k, stage) st = Inr st'"
  shows "outputs_planned st'"
  using step
proof (cases rule: validate_stage_cases)
  case (planned plugin spec tokens issues)
  from planned(3) show ?thesis
  proof (cases rule: plan_stage_parts)
    case (1 plan bindings outputs)
    have "\<exists>r \<in> set (vs_Resolved st'). rps_ID r = sid \<and> collectOutputs sid (rps_Plan r) = Inr outs"
      if "(sid, outs) \<in> set (vs_Outputs st')" for sid outs
    proof -
      from that 1(7) have "(sid, outs) \<in> insert (pst_ID stage, outputs) (set (vs_Outputs st))"
        using obj_set_entries [of "pst_ID stage" outputs "vs_Outputs st"] by auto
      with assms(1) 1(6,7) show ?thesis by (fastforce simp: outputs_planned_def resolved_stage_def)
    qed
    then show ?thesis by (auto simp: outputs_planned_def)
  qed
qed (use assms(1) in \<open>auto simp: outputs_planned_def\<close>)

lemma resolve_result_contract:
  assumes "resolve_result r outputs = Inr (r', c)"
  shows "po_Stage r' = po_Stage r \<and> map_of outputs (po_Output r') = Some c \<and> po_Type r' = ac_Type c \<and>
    po_Version r' = ac_Version c \<and> wanted r c"
  using assms by (auto simp: resolve_result_def split: sum.splits option.splits if_splits list.splits)

text \<open>
  The result of a valid pipeline exists: its stage is resolved, the stage's plan declares
  the named output, and the type and version recorded for the result are those of the output.
\<close>

theorem valid_pipeline_result:
  assumes "validate L fp now registry definition deferred = Inr res" and "vr_Valid (res_Validation res)"
  shows "\<exists>r \<in> set (pr_Stages (res_Resolution res)). rps_ID r = po_Stage (pd_Result (res_Definition res)) \<and>
    (\<exists>out \<in> set (plan_outputs (rps_Plan r)).
       ao_Name out = po_Output (pd_Result (res_Definition res)) \<and>
       ao_Type out = po_Type (pd_Result (res_Definition res)) \<and> ao_Version out = po_Version (pd_Result (res_Definition res)))"
  using assms(1)
proof (cases rule: validate_parts)
  case (1 d st)
  obtain outputs where outs: "map_of (vs_Outputs st) (po_Stage (pd_Result d)) = Some outputs"
    and result: "resolve_result (pd_Result d) outputs = Inr (pd_Result (res_Definition res), pr_Result (res_Resolution res))"
    using 1(6) assms(2) by blast
  have "outputs_planned st"
  proof (rule fold_err_invariant [OF 1(2)])
    show "outputs_planned st'" if "outputs_planned st"
      "validate_stage L registry (pd_CleanupAfterRun d) deferred x st = Inr st'" for x st st'
      using outputs_planned_step that by (cases x) blast
  qed (simp add: outputs_planned_def)
  with map_of_SomeD [OF outs] obtain r where
    r: "r \<in> set (vs_Resolved st)" "rps_ID r = po_Stage (pd_Result d)" "collectOutputs (po_Stage (pd_Result d)) (rps_Plan r) = Inr outputs"
    by (auto simp: outputs_planned_def)
  with resolve_result_contract [OF result] collectOutputs_entries [OF r(3)] show ?thesis
    unfolding 1(4) by metis
qed

section \<open>Placeholders\<close>

lemma pipeline_token_inj: "pipeline_token p k = pipeline_token p' k' \<Longrightarrow> p = p' \<and> k = k'"
proof -
  assume "pipeline_token p k = pipeline_token p' k'"
  moreover have "CHR ''_'' \<notin> set (show_nat n)" for n by (rule no_digit_show_nat) (simp add: is_digit_def)
  ultimately have "show_nat (p + 1) = show_nat (p' + 1) \<and> show_nat (k + 1) = show_nat (k' + 1)"
    by (simp add: pipeline_token_def separator_inj)
  then show ?thesis using show_nat_inj by fastforce
qed

lemma has_token_refloat [simp]: "has_token t (refloat L v) = has_token t v"
proof (induction L v rule: refloat.induct)
  case (3 L kvs)
  then have "has_token t (refloat L x) = has_token t x" if "(k, x) \<in> set kvs" for k x using that by blast
  then have "(\<exists>kx \<in> set kvs. has_token t (refloat L (snd kx))) \<longleftrightarrow> (\<exists>kx \<in> set kvs. has_token t (snd kx))"
    by (intro bex_cong) auto
  then show ?case by (simp add: list_ex_iff case_prod_unfold)
qed (simp_all add: list_ex_iff)

lemma replaceValue_keeps:
  "\<not> has_token t x \<Longrightarrow> v \<noteq> t \<Longrightarrow> \<not> has_token t (fst (replaceValue token v x))"
proof (induction token v x rule: replaceValue.induct)
  case (2 token v kvs)
  then have "\<not> has_token t (fst (replaceValue token v x))" if "(k, x) \<in> set kvs" for k x
    using that by (auto simp: list_ex_iff)
  then show ?case by (auto simp: list_ex_iff)
qed (auto simp: list_ex_iff)

text \<open>A plan step without a token, neither as an artifact reference nor inside its input.\<close>

definition token_free :: "string \<Rightarrow> PlanStep \<Rightarrow> bool" where
  "token_free t step \<longleftrightarrow>
     (\<forall>i \<in> set (ps_ArtifactInputs step). ai_ArtifactID i \<noteq> t) \<and>
     (\<forall>v. unmarshal (ps_Input step) = Some v \<longrightarrow> \<not> has_token t v)"

lemma replaceJSONToken_free:
  assumes "replaceJSONToken L raw token v = Some (raw', changed)" and "v \<noteq> t"
    and "t = token \<or> (\<forall>x. unmarshal raw = Some x \<longrightarrow> \<not> has_token t x)"
    and "unmarshal raw' = Some x'"
  shows "\<not> has_token t x'"
proof -
  from assms(1) obtain x where x: "unmarshal raw = Some x"
    and r: "raw' = (if has_token token x then marshal (fst (replaceValue token v (refloat L x))) else raw)"
    using replaceValue_changed [of token v]
    by (auto simp: replaceJSONToken_def unmarshal_any_def Let_def case_prod_unfold split: option.splits if_splits)
  show ?thesis
  proof (cases "has_token token x")
    case True
    then have "x' = fst (replaceValue token v (refloat L x))" using r assms(4) by simp
    then show ?thesis
      using assms(2,3) x replaceValue_removes [of v token] replaceValue_keeps [of t "refloat L x" v token] by auto
  next
    case False
    with r assms(3,4) x show ?thesis by auto
  qed
qed

lemma replace_steps_free:
  assumes "replace_steps L token v steps = Some (steps', changed)" and "v \<noteq> t"
    and "t = token \<or> list_all (token_free t) steps"
  shows "list_all (token_free t) steps'"
  using assms
proof (induction steps arbitrary: steps' changed)
  case (Cons s ss)
  from Cons.prems(1) obtain sc ssc where sc: "replace_step L token v s = Some sc" "replace_steps L token v ss = Some ssc"
    "steps' = fst sc # fst ssc"
    by (auto simp: case_prod_unfold split: option.splits)
  obtain s' c ss' c' where "sc = (s', c)" "ssc = (ss', c')" by (metis surj_pair)
  with sc have r: "replace_step L token v s = Some (s', c)" "replace_steps L token v ss = Some (ss', c')" "steps' = s' # ss'"
    by auto
  from r(1) obtain input ch where "replaceJSONToken L (ps_Input s) token v = Some (input, ch)"
    "s' = s\<lparr>ps_ArtifactInputs := map (replace_input token v) (ps_ArtifactInputs s), ps_Input := input\<rparr>"
    by (auto simp: replace_step_def split: option.splits)
  note step = this
  have "token_free t s'"
    unfolding token_free_def
  proof (intro conjI allI impI)
    have pre: "t = token \<or> token_free t s" using Cons.prems(3) by auto
    have inputs: "ai_ArtifactID (replace_input token v i) \<noteq> t" if "i \<in> set (ps_ArtifactInputs s)" for i
      using pre that Cons.prems(2) by (auto simp: replace_input_def token_free_def)
    show "\<forall>i \<in> set (ps_ArtifactInputs s'). ai_ArtifactID i \<noteq> t"
      using inputs by (simp add: step(2))
    fix x assume "unmarshal (ps_Input s') = Some x"
    then have "unmarshal input = Some x" by (simp add: step(2))
    moreover have "t = token \<or> (\<forall>x. unmarshal (ps_Input s) = Some x \<longrightarrow> \<not> has_token t x)"
      using pre unfolding token_free_def by blast
    ultimately show "\<not> has_token t x"
      using replaceJSONToken_free [OF step(1) Cons.prems(2)] by blast
  qed
  with Cons.IH [OF r(2) Cons.prems(2)] Cons.prems(3) r(3) show ?case by auto
qed simp

text \<open>
  A resolved stage has no placeholder left: after \<open>ResolveStage\<close>, no step of the plan refers
  to the token of any binding of the stage, provided that no produced artifact has a
  placeholder token as its identifier.
\<close>

theorem resolved_stage_has_no_placeholder:
  assumes "ResolveStage L pipeline position produced = Inr resolved"
    and "\<And>sid outputs name artifact p k. (sid, outputs) \<in> set produced \<Longrightarrow> (name, artifact) \<in> set outputs \<Longrightarrow>
      artifact \<noteq> pipeline_token p k"
    and "k < length (pst_Bindings (pd_Stages (pl_Definition pipeline) ! nat position))"
  shows "list_all (token_free (pipeline_token (nat position) k)) (plan_Steps (rps_Plan resolved))"
proof -
  let ?r = "pr_Stages (pl_Resolution pipeline) ! nat position"
  let ?bs = "pst_Bindings (pd_Stages (pl_Definition pipeline) ! nat position)"
  let ?f = "resolve_binding L (rps_ID ?r) (nat position) produced"
  let ?P = "\<lambda>x st. list_all (token_free (pipeline_token (nat position) (fst x))) (snd st)"
  from assms(1) obtain spec spec' steps where
    fold: "fold_err ?f (List.enumerate 0 ?bs) (spec, plan_Steps (rps_Plan ?r)) = Inr (spec', steps)"
    and steps: "plan_Steps (rps_Plan resolved) = steps"
    by (auto simp: ResolveStage_def Let_def split: if_splits option.splits sum.splits)
  have step: "\<exists>v c. replace_steps L (pipeline_token (nat position) (fst x)) v (snd st) = Some (snd st', c) \<and>
      (\<forall>p k. v \<noteq> pipeline_token p k)" if "?f x st = Inr st'" for x st st'
    using that assms(2)
    by (fastforce simp: resolve_binding_def case_prod_unfold split: option.splits sum.splits if_splits dest!: map_of_SomeD)
  have "?P (k, ?bs ! k) (spec', steps)"
  proof (rule fold_err_each [OF fold])
    show "?P x st'" if "?f x st = Inr st'" for x st st' using step [OF that] replace_steps_free by blast
    show "?P x st'" if "?P x st" "?f y st = Inr st'" for x y st st' using step [OF that(2)] that(1) replace_steps_free by blast
    show "(k, ?bs ! k) \<in> set (List.enumerate 0 ?bs)" using assms(3) by (simp add: in_set_enumerate_eq)
  qed
  with steps show ?thesis by simp
qed

section \<open>Bound inputs\<close>

lemma map_of_binding_tokens:
  "map_of (binding_tokens p bs) t = Some b \<longleftrightarrow> (\<exists>k < length bs. t = pipeline_token p k \<and> b = bs ! k)"
proof -
  let ?key = "\<lambda>x. pipeline_token p (fst x)"
  have "inj_on ?key (set (List.enumerate 0 bs))"
    by (auto simp: inj_on_def in_set_enumerate_eq dest: pipeline_token_inj)
  then have "distinct (map fst (binding_tokens p bs))"
    by (simp add: binding_tokens_def case_prod_unfold o_def distinct_map distinct_enumerate)
  then have "map_of (binding_tokens p bs) t = Some b \<longleftrightarrow> (t, b) \<in> set (binding_tokens p bs)" by simp
  also have "\<dots> \<longleftrightarrow> (\<exists>k < length bs. t = pipeline_token p k \<and> b = bs ! k)"
  proof
    assume "(t, b) \<in> set (binding_tokens p bs)"
    then show "\<exists>k < length bs. t = pipeline_token p k \<and> b = bs ! k"
      by (auto simp: binding_tokens_def in_set_enumerate_eq)
  next
    assume "\<exists>k < length bs. t = pipeline_token p k \<and> b = bs ! k"
    then obtain k where k: "k < length bs" "t = pipeline_token p k" "b = bs ! k" by blast
    then have "(k, b) \<in> set (List.enumerate 0 bs)" by (simp add: in_set_enumerate_eq)
    with k(2) show "(t, b) \<in> set (binding_tokens p bs)" unfolding binding_tokens_def set_map by (intro image_eqI [of _ _ "(k, b)"]) auto
  qed
  finally show ?thesis .
qed

lemma set_output_nth:
  assumes "k < length bs"
  shows "pb_FromOutput (set_output path name bs ! k) = (if pb_Path (bs ! k) = path then name else pb_FromOutput (bs ! k))"
  using assms by (simp add: set_output_def)

text \<open>What the loop over the inputs keeps: paths stay, and named outputs stay as they were named.\<close>

definition bound_inv :: "PipelineBinding list \<Rightarrow> string list \<times> PipelineBinding list \<Rightarrow> bool" where
  "bound_inv bs st \<longleftrightarrow>
     map pb_Path (snd st) = map pb_Path bs \<and>
     (\<forall>k < length bs. pb_FromOutput (bs ! k) \<noteq> [] \<longrightarrow> pb_FromOutput (snd st ! k) = pb_FromOutput (bs ! k))"

definition bound_done ::
  "nat \<Rightarrow> PipelineBinding list \<Rightarrow> (string \<times> stage_outputs) list \<Rightarrow> ArtifactInput \<Rightarrow> string list \<times> PipelineBinding list \<Rightarrow> bool" where
  "bound_done p bs outputs input st \<longleftrightarrow>
     (\<forall>k < length bs. ai_ArtifactID input = pipeline_token p k \<longrightarrow>
        bound_output outputs (bs ! k) input = Some (pb_FromOutput (snd st ! k)) \<and>
        contract_of (outputs_of outputs (pb_FromStage (bs ! k))) (pb_FromOutput (snd st ! k)) = input_contract input)"

lemma check_bound_input_cases:
  assumes "check_bound_input sid (binding_tokens p bs) outputs input st = Inr st'"
  obtains (free) "\<And>k. k < length bs \<Longrightarrow> ai_ArtifactID input \<noteq> pipeline_token p k" "st' = st"
  | (bound) k name where "k < length bs" "ai_ArtifactID input = pipeline_token p k"
      "bound_output outputs (bs ! k) input = Some name"
      "contract_of (outputs_of outputs (pb_FromStage (bs ! k))) name = input_contract input"
      "st' = (ai_ArtifactID input # fst st,
        if pb_FromOutput (bs ! k) = [] then set_output (pb_Path (bs ! k)) name (snd st) else snd st)"
proof (cases "map_of (binding_tokens p bs) (ai_ArtifactID input)")
  case None
  then have "ai_ArtifactID input \<noteq> pipeline_token p k" if "k < length bs" for k
    using that map_of_binding_tokens [of p bs "ai_ArtifactID input" "bs ! k"] by auto
  with None assms show thesis by (intro free) (auto simp: check_bound_input_def case_prod_unfold)
next
  case (Some b)
  then obtain k where k: "k < length bs" "ai_ArtifactID input = pipeline_token p k" "b = bs ! k"
    by (auto simp: map_of_binding_tokens)
  from Some assms obtain name where name: "bound_output outputs b input = Some name"
    "contract_of (outputs_of outputs (pb_FromStage b)) name = input_contract input"
    by (auto simp: check_bound_input_def case_prod_unfold split: option.splits if_splits)
  with Some assms k show thesis
    by (intro bound [OF k(1,2)]) (auto simp: check_bound_input_def case_prod_unfold)
qed

lemma check_bound_input_used:
  assumes "check_bound_input sid (binding_tokens p bs) outputs input st = Inr st'"
  shows "set (fst st') \<subseteq> insert (ai_ArtifactID input) (set (fst st))"
  using assms by (cases rule: check_bound_input_cases) auto

lemma bound_output_named: "pb_FromOutput b \<noteq> [] \<Longrightarrow> bound_output outputs b input = Some name \<Longrightarrow> name = pb_FromOutput b"
  by (simp add: bound_output_def)

lemma check_bound_input_done:
  assumes inv: "bound_inv bs st" and paths: "distinct (map pb_Path bs)"
    and step: "check_bound_input sid (binding_tokens p bs) outputs input st = Inr st'"
  shows "bound_inv bs st' \<and> bound_done p bs outputs input st'"
  using step
proof (cases rule: check_bound_input_cases)
  case free
  with inv show ?thesis by (simp add: bound_done_def)
next
  case (bound k name)
  have len: "length (snd st) = length bs" using inv by (metis bound_inv_def length_map)
  have path: "pb_Path (snd st ! j) = pb_Path (bs ! j)" if "j < length bs" for j
    using inv that len by (metis bound_inv_def nth_map)
  have other: "pb_Path (bs ! j) = pb_Path (bs ! k) \<longleftrightarrow> j = k" if "j < length bs" for j
    using paths that bound(1) by (simp add: distinct_conv_nth) (metis nth_map)
  have out: "pb_FromOutput (snd st' ! j) = (if j = k then name else pb_FromOutput (snd st ! j))" if "j < length bs" for j
    using that bound path other len inv bound_output_named [OF _ bound(3)]
    by (auto simp: set_output_nth bound_inv_def)
  have "map pb_Path (snd st') = map pb_Path bs" using inv bound(5) by (simp add: bound_inv_def)
  moreover have "pb_FromOutput (bs ! j) \<noteq> [] \<Longrightarrow> pb_FromOutput (snd st' ! j) = pb_FromOutput (bs ! j)" if "j < length bs" for j
    using out [OF that] inv that bound_output_named [OF _ bound(3)] by (auto simp: bound_inv_def)
  moreover have "bound_done p bs outputs input st'"
  proof -
    have "j = k" if "j < length bs" "ai_ArtifactID input = pipeline_token p j" for j
      using that bound(2) pipeline_token_inj [of p j p k] by simp
    with bound(1,3,4) out show ?thesis by (auto simp: bound_done_def)
  qed
  ultimately show ?thesis by (simp add: bound_inv_def)
qed

lemma check_bound_input_keeps:
  assumes inv: "bound_inv bs st" and paths: "distinct (map pb_Path bs)" and x: "bound_done p bs outputs x st"
    and one: "ai_ArtifactID x = ai_ArtifactID y \<Longrightarrow> input_contract x = input_contract y"
    and step: "check_bound_input sid (binding_tokens p bs) outputs y st = Inr st'"
  shows "bound_done p bs outputs x st'"
proof -
  have y: "bound_done p bs outputs y st'" using check_bound_input_done [OF inv paths step] by blast
  have same: "bound_output outputs b x = bound_output outputs b y" if "input_contract x = input_contract y" for b
    using that by (simp add: bound_output_def)
  show ?thesis
    using step
  proof (cases rule: check_bound_input_cases)
    case free
    with x show ?thesis by simp
  next
    case (bound k name)
    show ?thesis
    proof (cases "ai_ArtifactID x = ai_ArtifactID y")
      case True
      with y one [OF True] same [OF one [OF True]] show ?thesis by (simp add: bound_done_def)
    next
      case False
      have len: "length (snd st) = length bs" using inv by (metis bound_inv_def length_map)
      have "pb_FromOutput (snd st' ! j) = pb_FromOutput (snd st ! j)"
        if "j < length bs" "ai_ArtifactID x = pipeline_token p j" for j
      proof -
        have "j \<noteq> k" using False bound(2) that(2) by auto
        then have "pb_Path (bs ! j) \<noteq> pb_Path (bs ! k)"
          using paths that(1) bound(1) by (simp add: distinct_conv_nth)
        moreover have "pb_Path (snd st ! j) = pb_Path (bs ! j)"
          using inv that(1) len by (metis bound_inv_def nth_map)
        ultimately show ?thesis using bound(5) that(1) len by (simp add: set_output_nth)
      qed
      with x show ?thesis by (simp add: bound_done_def)
    qed
  qed
qed


section \<open>Witnesses\<close>

text \<open>
  A pipeline of two stages, the second of which uses a plugin that may reject its
  specification without reporting an issue.
\<close>

definition sample_plugin :: "string \<Rightarrow> bool \<Rightarrow> unit Plugin" where
  "sample_plugin pid accepts =
     (trivial_plugin pid)\<lparr>plugin_Manifest := \<lparr>mf_ID = pid, mf_Provider = [], mf_Name = ''n'', mf_Version = ''1'', mf_Schema = RawDoc (JObj []),
        mf_ArtifactInputs = [sample_contract], mf_ArtifactOutputs = [sample_contract], mf_Capabilities = [], mf_RuntimeDigest = ''d''\<rparr>,
      plugin_Validate := (\<lambda>_. \<lparr>vr_Valid = accepts, vr_Issues = [], vr_CheckedAt = 0\<rparr>),
      plugin_Plan := (\<lambda>_. Inr sample_plan)\<rparr>"

definition sample_registry :: "bool \<Rightarrow> unit Registry" where
  "sample_registry accepts =
     \<lparr>reg_plugins = [(''p'', sample_plugin ''p'' True), (''q'', sample_plugin ''q'' accepts)], reg_bundled = []\<rparr>"

definition sample_stage :: "string \<Rightarrow> string \<Rightarrow> PipelineStage" where
  "sample_stage sid pid =
     \<lparr>pst_DependsOn = [], pst_ID = sid, pst_PluginID = pid, pst_Title = ''t'', pst_Spec = RawDoc (JObj []), pst_Bindings = []\<rparr>"

definition sample_pipeline :: PipelineDefinition where
  "sample_pipeline =
     \<lparr>pd_MaxParallelStages = 1, pd_Stages = [sample_stage ''a'' ''p'', sample_stage ''b'' ''q''],
      pd_Result = \<lparr>po_Stage = ''a'', po_Output = ''o'', po_Type = [], po_Version = []\<rparr>, pd_CleanupAfterRun = False\<rparr>"

lemma sample_trim [simp]:
  "trim_space ''a'' = ''a''" "trim_space ''b'' = ''b''" "trim_space ''p'' = ''p''" "trim_space ''q'' = ''q''"
  "trim_space ''t'' = ''t''" "trim_space ''o'' = ''o''"
  by (rule trim_space_visible, simp add: visible_def)+

lemma sample_normalize: "normalize sample_lib sample_pipeline = Inr sample_pipeline"
  by (simp add: normalize_def sample_pipeline_def sample_stage_def normalize_stage_def trim_stage_def default_spec_def
      stageIDPattern_def ident_match_def is_lower_def spec_object_def unmarshal_any_def trim_result_def Let_def)

lemma sample_schema: "Validate L (RawDoc (JObj [])) (RawDoc (JObj [])) = Inr []"
  by (simp add: Validate_def validate_raw_def validateValue_object type_mismatch_def string_field_def enum_issues_def
      array_field_def required_issues_def stringSet_def sorted_names_def sort_keys_def)

lemma sample_outputs:
  "collectOutputs sid sample_plan = Inr [(''o'', sample_contract)]"
  by (simp add: collectOutputs_def plan_outputs_def sample_plan_def collect_output_def sample_contract_def)

lemma sample_inputs: "validateBoundInputs (sample_stage sid pid) sample_plan [] outputs = Inr []"
  by (simp add: validateBoundInputs_def plan_inputs_def sample_plan_def check_bound_input_def sample_stage_def)

lemma sample_plan_stage:
  "plan_stage False k (sample_stage sid pid) (sample_plugin pid ok) spec [] st =
     Inr (st\<lparr>vs_Stages := (vs_Stages st)[k := (vs_Stages st ! k)\<lparr>pst_Bindings := []\<rparr>],
       vs_Outputs := obj_set sid [(''o'', sample_contract)] (vs_Outputs st),
       vs_Resolved := vs_Resolved st @ [resolved_stage (sample_stage sid pid) (plugin_Manifest (sample_plugin pid ok)) spec [] sample_plan],
       vs_Issues := vs_Issues st @
         [stage_issue ''info'' (sample_stage sid pid) (validated_message (plugin_Manifest (sample_plugin pid ok)) sample_plan)]\<rparr>)"
proof -
  have "plan_Steps sample_plan \<noteq> []" by (simp add: sample_plan_def)
  then show ?thesis
    by (simp add: plan_stage_def Let_def sample_plugin_def sample_plan_valid sample_inputs sample_outputs)
      (simp add: sample_stage_def)
qed

lemma sample_validate_stage:
  assumes "Get registry pid = Inr (sample_plugin pid ok)"
  shows "validate_stage sample_lib registry False False (k, sample_stage sid pid) st =
    (let st' = st\<lparr>vs_Visited := sid # vs_Visited st\<rparr> in
     if ok then plan_stage False k (sample_stage sid pid) (sample_plugin pid ok) (RawDoc (JObj [])) [] st' else Inr st')"
  using assms sample_schema
  by (simp add: validate_stage_def Let_def blocking_binding_def sample_stage_def bindPlaceholders_def unmarshal_any_def
      binding_tokens_def marshal_def sample_plugin_def plugin_issues_def)

lemma sample_get:
  "Get (sample_registry ok) ''p'' = Inr (sample_plugin ''p'' True)" "Get (sample_registry ok) ''q'' = Inr (sample_plugin ''q'' ok)"
  by (simp_all add: Get_def sample_registry_def)

definition sample_fp :: "PipelineDefinition \<Rightarrow> PipelineResolution \<Rightarrow> string option" where
  "sample_fp d r = Some ''h''"

definition sample_result :: "bool \<Rightarrow> Result" where
  "sample_result ok =
     (let entry = (\<lambda>sid pid. resolved_stage (sample_stage sid pid) (plugin_Manifest (sample_plugin pid True)) (RawDoc (JObj [])) [] sample_plan);
          info = (\<lambda>sid pid. stage_issue ''info'' (sample_stage sid pid) (validated_message (plugin_Manifest (sample_plugin pid True)) sample_plan))
      in \<lparr>res_Definition = sample_pipeline\<lparr>pd_Result := \<lparr>po_Stage = ''a'', po_Output = ''o'', po_Type = ''K'', po_Version = ''v1''\<rparr>\<rparr>,
          res_Resolution = \<lparr>pr_Stages = entry ''a'' ''p'' # (if ok then [entry ''b'' ''q''] else []), pr_Result = sample_contract\<rparr>,
          res_Validation = \<lparr>vr_Valid = True, vr_Issues = info ''a'' ''p'' # (if ok then [info ''b'' ''q''] else []), vr_CheckedAt = 0\<rparr>,
          res_Hash = ''h''\<rparr>)"

lemma sample_no_error: "\<not> has_error [stage_issue ''info'' s m]"
  by (simp add: has_error_def stage_issue_def vissue_def)

lemma sample_validate:
  "validate sample_lib sample_fp 0 (sample_registry ok) sample_pipeline False = Inr (sample_result ok)"
proof -
  have stages: "pd_Stages sample_pipeline = [sample_stage ''a'' ''p'', sample_stage ''b'' ''q'']"
    "pd_CleanupAfterRun sample_pipeline = False"
    "pd_Result sample_pipeline = \<lparr>po_Stage = ''a'', po_Output = ''o'', po_Type = [], po_Version = []\<rparr>"
    by (simp_all add: sample_pipeline_def)
  have bare: "(sample_stage sid pid)\<lparr>pst_Bindings := []\<rparr> = sample_stage sid pid" for sid pid
    by (simp add: sample_stage_def)
  have result: "resolve_result \<lparr>po_Stage = ''a'', po_Output = ''o'', po_Type = [], po_Version = []\<rparr> [(''o'', sample_contract)] =
      Inr (\<lparr>po_Stage = ''a'', po_Output = ''o'', po_Type = ''K'', po_Version = ''v1''\<rparr>, sample_contract)"
    by (simp add: resolve_result_def wanted_def sample_contract_def)
  have same: "sample_pipeline\<lparr>pd_Stages := [sample_stage ''a'' ''p'', sample_stage ''b'' ''q'']\<rparr> = sample_pipeline"
    by (simp add: sample_pipeline_def)
  have noerr: "\<not> has_error (vs @ [stage_issue ''info'' s m])" if "\<not> has_error vs" for vs s m
    using that sample_no_error by simp
  show ?thesis
    using noerr [OF sample_no_error] sample_no_error
    by (cases ok)
      (simp_all add: validate_def sample_normalize stages sample_validate_stage [OF sample_get(1)]
        sample_validate_stage [OF sample_get(2)] sample_plan_stage Let_def bare same result sample_fp_def sample_result_def)
qed

theorem normalize_idempotent_witness:
  "normalize sample_lib sample_pipeline = Inr sample_pipeline"
  by (rule normalize_idempotent [OF sample_normalize])

lemma sample_valid: "vr_Valid (res_Validation (sample_result ok))"
  by (simp add: sample_result_def Let_def)

theorem valid_pipeline_ordered_witness: "ordered_definition (res_Definition (sample_result True))"
  by (rule valid_pipeline_ordered [OF sample_validate sample_valid])

theorem valid_pipeline_resolved_witness:
  "list_all2 resolves (pr_Stages (res_Resolution (sample_result True))) (pd_Stages (res_Definition (sample_result True)))"
proof -
  have "rejections_reported (sample_registry True)"
    by (simp add: rejections_reported_def sample_registry_def sample_plugin_def)
  then show ?thesis using valid_pipeline_resolved [OF sample_validate sample_valid] by blast
qed

theorem valid_pipeline_result_witness:
  "\<exists>r \<in> set (pr_Stages (res_Resolution (sample_result True))). rps_ID r = ''a''"
  using valid_pipeline_result [OF sample_validate sample_valid, of True]
  by (auto simp: sample_result_def Let_def sample_pipeline_def)

text \<open>
  A plugin that rejects a specification without an issue of level error is not noticed:
  validation declares the pipeline valid although a stage has no resolution, so that the
  positions of the definition and of the resolution no longer agree.
\<close>

theorem silent_rejection_accepted:
  "\<exists>registry :: unit Registry. \<exists>definition res.
     validate sample_lib sample_fp 0 registry definition False = Inr res \<and> vr_Valid (res_Validation res) \<and>
     length (pr_Stages (res_Resolution res)) < length (pd_Stages (res_Definition res))"
  using sample_validate [of False] sample_valid [of False]
  by (intro exI conjI) (assumption, assumption, simp add: sample_result_def sample_pipeline_def Let_def)

text \<open>A stage with one binding whose output is not named, and a plan with inputs of the given types.\<close>

definition sample_bound :: PipelineStage where
  "sample_bound = (sample_stage ''b'' ''q'')\<lparr>pst_Bindings := [\<lparr>pb_Path = ''/x'', pb_FromStage = ''a'', pb_FromOutput = []\<rparr>]\<rparr>"

definition sample_bound_plan :: "string \<Rightarrow> string list \<Rightarrow> Plan" where
  "sample_bound_plan aid types = \<lparr>plan_PluginID = ''q'', plan_Steps =
     [\<lparr>ps_ID = ''s'', ps_Name = ''S'', ps_Input = RawDoc (JObj [(''x'', JStr aid)]), ps_Mutating = False, ps_Cleanup = False,
       ps_ArtifactInputs = map (\<lambda>t. \<lparr>ai_Name = t, ai_Type = t, ai_Version = ''v1'', ai_ArtifactID = aid,
         ai_FromStep = [], ai_FromOutput = []\<rparr>) types,
       ps_Outputs = [], ps_ResolvedInputs = [], ps_Effects = []\<rparr>]\<rparr>"

definition sample_produced :: "(string \<times> stage_outputs) list" where
  "sample_produced = [(''a'', [(''k'', \<lparr>ac_Type = ''K'', ac_Version = ''v1''\<rparr>), (''l'', \<lparr>ac_Type = ''L'', ac_Version = ''v1''\<rparr>)])]"

lemmas sample_bound_defs = sample_bound_def sample_stage_def sample_bound_plan_def sample_produced_def plan_inputs_def
  validateBoundInputs_def binding_tokens_def check_bound_input_def bound_output_def matching_outputs_def outputs_of_def
  input_contract_def contract_of_def set_output_def


text \<open>
  A placeholder that two inputs use with different types is accepted, and the binding is
  resolved to the output of the last one: the artifact the first input will receive has
  another type than the input requires, although validation succeeded.
\<close>

theorem shared_placeholder_mistyped:
  "\<exists>bindings. validateBoundInputs sample_bound (sample_bound_plan (pipeline_token 1 0) [''K'', ''L''])
      (binding_tokens 1 (pst_Bindings sample_bound)) sample_produced = Inr bindings \<and>
    (\<exists>input \<in> set (plan_inputs (sample_bound_plan (pipeline_token 1 0) [''K'', ''L''])).
       ai_ArtifactID input = pipeline_token 1 0 \<and>
       contract_of (outputs_of sample_produced (pb_FromStage (bindings ! 0))) (pb_FromOutput (bindings ! 0)) \<noteq> input_contract input)"
  by (simp add: sample_bound_defs)

definition sample_stored :: Pipeline where
  "sample_stored =
     \<lparr>pl_ID = ''pl'', pl_WorkspaceID = ''w'', pl_Name = ''n'', pl_Description = [],
      pl_Definition = sample_pipeline\<lparr>pd_Stages := [sample_stage ''a'' ''p'',
        sample_bound\<lparr>pst_Bindings := [\<lparr>pb_Path = ''/x'', pb_FromStage = ''a'', pb_FromOutput = ''l''\<rparr>]\<rparr>]\<rparr>,
      pl_Resolution = \<lparr>pr_Stages = map (\<lambda>s. resolved_stage s (plugin_Manifest (sample_plugin ''q'' True)) (RawDoc (JObj [])) []
        (sample_bound_plan (pipeline_token 1 0) [''L''])) [sample_stage ''a'' ''p'', sample_bound], pr_Result = sample_contract\<rparr>,
      pl_Validation = \<lparr>vr_Valid = True, vr_Issues = [], vr_CheckedAt = 0\<rparr>, pl_Hash = ''h''\<rparr>"

lemma sample_pointer: "setPointer (JObj []) ''/x'' v = Inr (JObj [(''x'', JStr v)])"
  by (simp add: setPointer_def pointer_tokens_def unescape_token_def trim_prefix_def has_prefix_def replace_all.simps Let_def)

lemma sample_resolve:
  "\<exists>resolved. ResolveStage sample_lib sample_stored 1 [(''a'', [(''l'', ''art_1'')])] = Inr resolved"
  by (simp add: ResolveStage_def Let_def sample_stored_def resolved_stage_def unmarshal_any_def resolve_binding_def sample_pointer
      sample_bound_plan_def replace_step_def replaceJSONToken_def)

theorem resolved_stage_has_no_placeholder_witness:
  "\<exists>resolved. ResolveStage sample_lib sample_stored 1 [(''a'', [(''l'', ''art_1'')])] = Inr resolved \<and>
     list_all (token_free (pipeline_token 1 0)) (plan_Steps (rps_Plan resolved))"
proof -
  obtain resolved where r: "ResolveStage sample_lib sample_stored 1 [(''a'', [(''l'', ''art_1'')])] = Inr resolved"
    using sample_resolve by blast
  have "list_all (token_free (pipeline_token (nat 1) 0)) (plan_Steps (rps_Plan resolved))"
    by (rule resolved_stage_has_no_placeholder [OF r]) (auto simp: sample_stored_def pipeline_token_def)
  with r show ?thesis by auto
qed

end
