(* ===== verification/Store.thy ===== *)
theory Store
  imports Domain
begin

text \<open>
  The database of package \<open>internal/storage\<close>: one list of rows per table, in insertion order.
  Every store function is a transaction that either returns an error and leaves the database
  as it was, or returns the new database. SQL's \<open>now()\<close> is the argument \<open>now\<close>, a nullable column an
  option, and a \<open>jsonb\<close> column a \<^typ>\<open>RawMessage\<close> whose \<open>NULL\<close> is \<open>RawEmpty\<close>. Primary keys and the
  references between the modelled tables are enforced; references to tables outside the model
  (workspaces, users, connections) are taken to hold. Columns no statement reads (\<open>last_seen_at\<close>,
  \<open>updated_at\<close>) are left out.
\<close>

datatype store_error =
    ErrNotFound
  | ErrConflict
  | ErrNoRows
  | ErrDuplicate
  | ErrForeignKey
  | ErrEncode
  | ErrInvalid string
  | Panic

section \<open>Tables\<close>

text \<open>\<open>operations\<close>: the operation without its steps and artifacts, and its lease.\<close>

record op_row =
  opr_Op :: Operation
  opr_LeaseOwner :: "string option"
  opr_LeaseUntil :: "timestamp option"

record log_row =
  lg_OperationID :: string
  lg_StepID :: "string option"
  lg_Level :: string
  lg_Source :: string
  lg_Message :: string

text \<open>\<open>infrastructure_resources\<close>: the ledger of provider resources, keyed by provider and external id.\<close>

record infra_row =
  inf_Res :: InfrastructureResource
  inf_CreatedBy :: "string option"

record AuditEvent =
  au_Actor :: string
  au_Action :: string
  au_TargetType :: string
  au_TargetID :: string
  au_Outcome :: string
  au_Details :: RawMessage

record managed_row =
  mr_ID :: string
  mr_WorkspaceID :: string
  mr_Name :: string
  mr_Kind :: string
  mr_Provider :: string
  mr_ConnectionID :: "string option"
  mr_PluginID :: string
  mr_PluginVersion :: string
  mr_PluginDigest :: string
  mr_Spec :: RawMessage
  mr_OperationID :: "string option"
  mr_PipelineID :: "string option"
  mr_PipelineRunID :: "string option"
  mr_DeletionOperationID :: "string option"
  mr_DeletionPipelineID :: "string option"
  mr_DeletionPipelineRunID :: "string option"
  mr_RecreationPipelineID :: "string option"
  mr_RecreationPipelineRunID :: "string option"
  mr_DeletedAt :: "timestamp option"

text \<open>\<open>pipeline_runs\<close>, with the lease of the run's coordinator.\<close>

record run_row =
  rr_ID :: string
  rr_PipelineID :: string
  rr_WorkspaceID :: string
  rr_ClusterResourceID :: "string option"
  rr_OwnerUserID :: "string option"
  rr_IsolationMode :: string
  rr_Name :: string
  rr_Status :: status
  rr_PipelineHash :: string
  rr_ResultType :: string
  rr_ResultVersion :: string
  rr_ResultArtifactID :: "string option"
  rr_CancelRequested :: bool
  rr_TerminalStatus :: "status option"
  rr_Error :: string
  rr_CreatedAt :: timestamp
  rr_QueuedAt :: timestamp
  rr_ScheduledFor :: timestamp
  rr_StartedAt :: "timestamp option"
  rr_CompletedAt :: "timestamp option"
  rr_PauseBeforeStage :: string
  rr_ExecutionRequested :: bool
  rr_InitializedAt :: "timestamp option"
  rr_ApplicationNamespace :: string
  rr_LeaseOwner :: "string option"
  rr_LeaseUntil :: "timestamp option"

text \<open>\<open>experiments\<close>, \<open>experiment_variants\<close> and \<open>experiment_trials\<close>, and the cluster of an experiment configuration, as far as runs depend on them.\<close>

record experiment_row =
  ex_ID :: string
  ex_Status :: status

record variant_row =
  va_ID :: string
  va_ExperimentID :: string
  va_Position :: int
  va_ConfigurationID :: "string option"

record trial_row =
  tr_ID :: string
  tr_VariantID :: string
  tr_Position :: int
  tr_Status :: status
  tr_PipelineRunID :: "string option"
  tr_OperationID :: "string option"
  tr_ResultArtifactID :: "string option"
  tr_Error :: string
  tr_CompletedAt :: "timestamp option"

record configuration_row =
  ec_ID :: string
  ec_ClusterResourceID :: "string option"

record Store =
  db_operations :: "op_row list"
  db_steps :: "OperationStep list"
  db_logs :: "log_row list"
  db_artifacts :: "Artifact list"
  db_infra :: "infra_row list"
  db_audit :: "AuditEvent list"
  db_managed :: "managed_row list"
  db_dependencies :: "ManagedResourceDependency list"
  db_pipelines :: "Pipeline list"
  db_runs :: "run_row list"
  db_stages :: "PipelineRunStage list"
  db_experiments :: "experiment_row list"
  db_variants :: "variant_row list"
  db_trials :: "trial_row list"
  db_configurations :: "configuration_row list"

section \<open>Keys\<close>

definition op_key :: "op_row \<Rightarrow> string" where
  "op_key r = op_ID (opr_Op r)"

definition infra_key :: "infra_row \<Rightarrow> string \<times> string" where
  "infra_key r = (ir_Provider (inf_Res r), ir_ExternalID (inf_Res r))"

text \<open>Primary keys are unique: the invariant every transaction keeps.\<close>

definition keys_ok :: "Store \<Rightarrow> bool" where
  "keys_ok st \<longleftrightarrow>
     distinct (map op_key (db_operations st)) \<and> distinct (map os_ID (db_steps st)) \<and>
     distinct (map art_ID (db_artifacts st)) \<and> distinct (map infra_key (db_infra st)) \<and>
     distinct (map mr_ID (db_managed st)) \<and> distinct (map pl_ID (db_pipelines st)) \<and>
     distinct (map rr_ID (db_runs st)) \<and> distinct (map st_ID (db_stages st))"

definition empty_store :: Store where
  "empty_store =
     \<lparr>db_operations = [], db_steps = [], db_logs = [], db_artifacts = [], db_infra = [], db_audit = [],
      db_managed = [], db_dependencies = [], db_pipelines = [], db_runs = [], db_stages = [],
      db_experiments = [], db_variants = [], db_trials = [], db_configurations = []\<rparr>"

lemma keys_ok_empty: "keys_ok empty_store"
  by (simp add: keys_ok_def empty_store_def)

text \<open>An \<open>UPDATE\<close> that must affect exactly one row.\<close>

definition update_one :: "('r \<Rightarrow> bool) \<Rightarrow> ('r \<Rightarrow> 'r) \<Rightarrow> 'r list \<Rightarrow> 'r list option" where
  "update_one p f rows = (if rows_affected p rows = 1 then Some (update_where p f rows) else None)"

lemma update_one_Some: "update_one p f rows = Some rows' \<longleftrightarrow> rows_affected p rows = 1 \<and> rows' = update_where p f rows"
  by (auto simp: update_one_def)

text \<open>\<open>COALESCE(x, v)\<close>.\<close>

definition coalesce :: "'a option \<Rightarrow> 'a \<Rightarrow> 'a option" where
  "coalesce x v = (case x of None \<Rightarrow> Some v | Some y \<Rightarrow> Some y)"

definition coalesce_json :: "RawMessage \<Rightarrow> RawMessage \<Rightarrow> RawMessage" where
  "coalesce_json x v = (if x = RawEmpty then v else x)"

text \<open>\<open>NULLIF(x, '')\<close>.\<close>

definition null_if_empty :: "string \<Rightarrow> string option" where
  "null_if_empty s = (if s = [] then None else Some s)"

end
