(* ===== verification/OperationStore.thy ===== *)
theory OperationStore
  imports Store
begin

text \<open>
  Operations, their steps, logs and artifacts: \<open>storage/operations.go\<close> and
  \<open>storage/artifacts.go\<close>. An operation is created ready or queued, claimed by a worker under a
  lease, moved through its states by the worker, and ended by completion, failure,
  cancellation or the expiry of its lease.
\<close>

section \<open>Logs\<close>

definition AppendLog :: "string \<Rightarrow> string \<Rightarrow> string \<Rightarrow> string \<Rightarrow> string \<Rightarrow> Store \<Rightarrow> store_error + Store" where
  "AppendLog operationID stepID level source message st =
     (if find_row op_key operationID (db_operations st) = None then Inl ErrForeignKey
      else Inr (st\<lparr>db_logs := db_logs st @
        [\<lparr>lg_OperationID = operationID, lg_StepID = null_if_empty stepID, lg_Level = level, lg_Source = source,
          lg_Message = message\<rparr>]\<rparr>))"

section \<open>Creation\<close>

text \<open>A JSON column that must not be null takes exactly the texts that are one document.\<close>

definition is_doc :: "RawMessage \<Rightarrow> bool" where
  "is_doc raw \<longleftrightarrow> (case raw of RawDoc _ \<Rightarrow> True | _ \<Rightarrow> False)"

definition encodable :: "Operation \<Rightarrow> bool" where
  "encodable operation \<longleftrightarrow> is_doc (op_Spec operation) \<and> list_all (\<lambda>s. is_doc (ps_Input s)) (plan_Steps (op_Plan operation))"

text \<open>The row an operation is inserted as: cancellation, error and the later timestamps take their defaults.\<close>

definition new_operation :: "timestamp \<Rightarrow> status \<Rightarrow> bool \<Rightarrow> Operation \<Rightarrow> op_row" where
  "new_operation now status queued operation =
     \<lparr>opr_Op = operation\<lparr>op_Status := status, op_CancelRequested := False, op_Error := [], op_CreatedAt := now,
        op_QueuedAt := (if queued then Some now else None), op_StartedAt := None, op_CompletedAt := None,
        op_Steps := [], op_Artifacts := []\<rparr>,
      opr_LeaseOwner = None, opr_LeaseUntil = None\<rparr>"

definition planned_step :: "Operation \<Rightarrow> nat \<times> PlanStep \<Rightarrow> OperationStep" where
  "planned_step operation = (\<lambda>(position, planned).
     \<lparr>os_ID = op_ID operation @ ''_'' @ ps_ID planned, os_OperationID = op_ID operation, os_Position = int position + 1,
      os_Name = ps_Name planned, os_Status = Pending, os_Input = ps_Input planned, os_Result = RawEmpty,
      os_Health = RawEmpty, os_Error = [], os_StartedAt = None, os_CompletedAt = None\<rparr>)"

definition insert_step :: "OperationStep \<Rightarrow> OperationStep list \<Rightarrow> store_error + OperationStep list" where
  "insert_step step steps = (if os_ID step \<in> os_ID ` set steps then Inl ErrDuplicate else Inr (steps @ [step]))"

definition planned_steps :: "Operation \<Rightarrow> OperationStep list" where
  "planned_steps operation = map (planned_step operation) (List.enumerate 0 (plan_Steps (op_Plan operation)))"

text \<open>The statements \<open>insertOperation\<close> and the two pipeline functions share: the operation and its steps.\<close>

definition insert_rows :: "timestamp \<Rightarrow> status \<Rightarrow> bool \<Rightarrow> Operation \<Rightarrow> Store \<Rightarrow> store_error + Store" where
  "insert_rows now status queued operation st =
     (if \<not> encodable operation then Inl ErrEncode
      else if op_ID operation \<in> op_key ` set (db_operations st) then Inl ErrDuplicate
      else case fold_err insert_step (planned_steps operation) (db_steps st) of
          Inl e \<Rightarrow> Inl e
        | Inr steps \<Rightarrow>
            Inr (st\<lparr>db_operations := db_operations st @ [new_operation now status queued operation], db_steps := steps\<rparr>))"

definition returned_operation :: "timestamp \<Rightarrow> bool \<Rightarrow> Operation \<Rightarrow> Operation" where
  "returned_operation now queued operation =
     operation\<lparr>op_CreatedAt := now, op_QueuedAt := (if queued then Some now else None), op_Steps := planned_steps operation\<rparr>"

definition ready_message :: "Operation \<Rightarrow> string" where
  "ready_message operation =
     (if op_Status operation = Queued
      then ''Validation passed. Plan '' @ take 12 (op_PlanHash operation) @ '' was queued by the managed resource workflow.''
      else ''Validation passed. Plan '' @ take 12 (op_PlanHash operation) @ '' is ready for confirmation.'')"

text \<open>Slicing a plan hash of fewer than twelve bytes panics.\<close>

definition insertOperation :: "timestamp \<Rightarrow> Operation \<Rightarrow> Store \<Rightarrow> store_error + Operation \<times> Store" where
  "insertOperation now operation st =
     (let queued = (op_Status operation = Queued) in
      case insert_rows now (op_Status operation) queued operation st of
        Inl e \<Rightarrow> Inl e
      | Inr st' \<Rightarrow>
          if length (op_PlanHash operation) < 12 then Inl Panic
          else case AppendLog (op_ID operation) [] ''info'' (if queued then ''queue'' else ''validation'') (ready_message operation) st' of
              Inl e \<Rightarrow> Inl e
            | Inr st'' \<Rightarrow> Inr (returned_operation now queued operation, st''))"

definition CreateOperation :: "timestamp \<Rightarrow> Operation \<Rightarrow> Store \<Rightarrow> store_error + Operation \<times> Store" where
  "CreateOperation now operation st = insertOperation now operation st"

section \<open>Reading\<close>

definition ListSteps :: "string \<Rightarrow> Store \<Rightarrow> OperationStep list" where
  "ListSteps operationID st = sort_key os_Position (filter (\<lambda>s. os_OperationID s = operationID) (db_steps st))"

text \<open>Rows are kept in the order of their creation.\<close>

definition ListArtifacts :: "string \<Rightarrow> Store \<Rightarrow> Artifact list" where
  "ListArtifacts operationID st = filter (\<lambda>a. art_OperationID a = operationID) (db_artifacts st)"

definition GetOperation :: "string \<Rightarrow> Store \<Rightarrow> store_error + Operation" where
  "GetOperation operationID st =
     (case find_row op_key operationID (db_operations st) of
        None \<Rightarrow> Inl ErrNotFound
      | Some r \<Rightarrow> Inr ((opr_Op r)\<lparr>op_Steps := ListSteps operationID st, op_Artifacts := ListArtifacts operationID st\<rparr>))"

definition ListLogs :: "string \<Rightarrow> nat \<Rightarrow> nat \<Rightarrow> Store \<Rightarrow> (nat \<times> log_row) list" where
  "ListLogs operationID after limit st =
     take limit (filter (\<lambda>(sequence, l). lg_OperationID l = operationID \<and> after < sequence) (List.enumerate 1 (db_logs st)))"

definition OperationCancelRequested :: "string \<Rightarrow> Store \<Rightarrow> store_error + bool" where
  "OperationCancelRequested operationID st =
     (case find_row op_key operationID (db_operations st) of
        None \<Rightarrow> Inl ErrNoRows
      | Some r \<Rightarrow> Inr (op_CancelRequested (opr_Op r)))"

section \<open>Queueing and claiming\<close>

definition is_op :: "string \<Rightarrow> op_row \<Rightarrow> bool" where
  "is_op operationID r \<longleftrightarrow> op_key r = operationID"

definition queue_row :: "timestamp \<Rightarrow> op_row \<Rightarrow> op_row" where
  "queue_row now r = r\<lparr>opr_Op := (opr_Op r)\<lparr>op_Status := Queued, op_QueuedAt := Some now\<rparr>\<rparr>"

definition has_warning :: "ValidationReport \<Rightarrow> bool" where
  "has_warning v \<longleftrightarrow> list_ex (\<lambda>i. vi_Level i = ''warning'') (vr_Issues v)"

definition QueueOperation :: "timestamp \<Rightarrow> string \<Rightarrow> string \<Rightarrow> bool \<Rightarrow> Store \<Rightarrow> store_error + Operation \<times> Store" where
  "QueueOperation now operationID planHash acceptWarnings st =
     (case find_row op_key operationID (filter (\<lambda>r. op_Status (opr_Op r) = Ready) (db_operations st)) of
        None \<Rightarrow> Inl ErrConflict
      | Some r \<Rightarrow>
          if op_PlanHash (opr_Op r) \<noteq> planHash then Inl ErrConflict
          else if \<not> vr_Valid (op_Validation (opr_Op r)) then Inl ErrConflict
          else if \<not> acceptWarnings \<and> has_warning (op_Validation (opr_Op r)) then Inl ErrConflict
          else (case update_one (\<lambda>r. is_op operationID r \<and> op_Status (opr_Op r) = Ready) (queue_row now) (db_operations st) of
              None \<Rightarrow> Inl ErrConflict
            | Some rows \<Rightarrow>
                (case AppendLog operationID [] ''info'' ''queue'' ''Validated plan confirmed and queued.'' (st\<lparr>db_operations := rows\<rparr>) of
                   Inl e \<Rightarrow> Inl e
                 | Inr st' \<Rightarrow>
                     (case GetOperation operationID st' of
                        Inl e \<Rightarrow> Inl e
                      | Inr operation \<Rightarrow> Inr (operation, st')))))"

definition lease_seconds :: nat where
  "lease_seconds = 30"

definition claim_row :: "timestamp \<Rightarrow> string \<Rightarrow> op_row \<Rightarrow> op_row" where
  "claim_row now owner r =
     r\<lparr>opr_Op := (opr_Op r)\<lparr>op_Status := Prechecking, op_StartedAt := coalesce (op_StartedAt (opr_Op r)) now\<rparr>,
       opr_LeaseOwner := Some owner, opr_LeaseUntil := Some (now + lease_seconds)\<rparr>"

definition claimable :: "op_row \<Rightarrow> bool" where
  "claimable r \<longleftrightarrow> op_Status (opr_Op r) = Queued \<and> \<not> op_CancelRequested (opr_Op r)"

text \<open>
  \<open>FOR UPDATE SKIP LOCKED\<close>: rows that other transactions have locked at the moment are
  passed over; \<open>locked\<close> says which.
\<close>

definition ClaimOperation :: "timestamp \<Rightarrow> (string \<Rightarrow> bool) \<Rightarrow> string \<Rightarrow> Store \<Rightarrow> (Operation \<times> Store) option" where
  "ClaimOperation now locked owner st =
     (case first_min (\<lambda>r. op_QueuedAt (opr_Op r)) (filter (\<lambda>r. claimable r \<and> \<not> locked (op_key r)) (db_operations st)) of
        None \<Rightarrow> None
      | Some candidate \<Rightarrow>
          (let operationID = op_key candidate
           in Some ((opr_Op (claim_row now owner candidate))\<lparr>op_Steps := ListSteps operationID st\<rparr>,
                    st\<lparr>db_operations := update_where (is_op operationID) (claim_row now owner) (db_operations st)\<rparr>)))"

section \<open>The states of a running operation\<close>

definition status_row :: "timestamp \<Rightarrow> status \<Rightarrow> op_row \<Rightarrow> op_row" where
  "status_row now s r = r\<lparr>opr_Op := (opr_Op r)\<lparr>op_Status := s\<rparr>, opr_LeaseUntil := Some (now + lease_seconds)\<rparr>"

definition SetOperationStatus :: "timestamp \<Rightarrow> string \<Rightarrow> status \<Rightarrow> string \<Rightarrow> Store \<Rightarrow> store_error + Store" where
  "SetOperationStatus now operationID s message st =
     (let st' = st\<lparr>db_operations := update_where (is_op operationID) (status_row now s) (db_operations st)\<rparr>
      in if message \<noteq> [] then AppendLog operationID [] ''info'' ''engine'' message st' else Inr st')"

definition terminal_status :: "status \<Rightarrow> bool" where
  "terminal_status s \<longleftrightarrow> s = Succeeded \<or> s = Failed \<or> s = Canceled"

definition active_status :: "status \<Rightarrow> bool" where
  "active_status s \<longleftrightarrow> s = Prechecking \<or> s = Running \<or> s = Verifying"

definition step_row :: "timestamp \<Rightarrow> status \<Rightarrow> RawMessage \<Rightarrow> RawMessage \<Rightarrow> string \<Rightarrow> OperationStep \<Rightarrow> OperationStep" where
  "step_row now s result health failure step =
     step\<lparr>os_Status := s, os_Result := coalesce_json result (os_Result step), os_Health := coalesce_json health (os_Health step),
       os_Error := failure,
       os_StartedAt := (if s = Prechecking \<or> s = Running then coalesce (os_StartedAt step) now else os_StartedAt step),
       os_CompletedAt := (if terminal_status s then Some now else os_CompletedAt step)\<rparr>"

text \<open>A nullable JSON column takes an absent value or one document.\<close>

definition nullableJSON :: "RawMessage \<Rightarrow> bool" where
  "nullableJSON value \<longleftrightarrow> value = RawEmpty \<or> is_doc value"

definition SetStepState ::
  "timestamp \<Rightarrow> string \<Rightarrow> string \<Rightarrow> status \<Rightarrow> RawMessage \<Rightarrow> RawMessage \<Rightarrow> string \<Rightarrow> Store \<Rightarrow> store_error + Store" where
  "SetStepState now operationID stepID s result health failure st =
     (if \<not> nullableJSON result \<or> \<not> nullableJSON health then Inl ErrEncode
      else Inr (st\<lparr>db_steps := update_where (\<lambda>x. os_OperationID x = operationID \<and> os_ID x = stepID)
        (step_row now s result health failure) (db_steps st)\<rparr>))"

definition end_row :: "timestamp \<Rightarrow> status \<Rightarrow> op_row \<Rightarrow> op_row" where
  "end_row now s r =
     r\<lparr>opr_Op := (opr_Op r)\<lparr>op_Status := s, op_CompletedAt := Some now\<rparr>, opr_LeaseOwner := None, opr_LeaseUntil := None\<rparr>"

definition delete_managed :: "timestamp \<Rightarrow> managed_row \<Rightarrow> managed_row" where
  "delete_managed now m = m\<lparr>mr_DeletedAt := Some now\<rparr>"

definition CompleteOperation :: "timestamp \<Rightarrow> string \<Rightarrow> Store \<Rightarrow> store_error + Store" where
  "CompleteOperation now operationID st =
     AppendLog operationID [] ''info'' ''engine'' ''Operation completed after all health gates passed.''
       (st\<lparr>db_operations := update_where (is_op operationID) (end_row now Succeeded) (db_operations st),
          db_managed := update_where (\<lambda>m. mr_DeletionOperationID m = Some operationID \<and> mr_DeletedAt m = None)
            (delete_managed now) (db_managed st)\<rparr>)"

definition fail_row :: "timestamp \<Rightarrow> status \<Rightarrow> string \<Rightarrow> op_row \<Rightarrow> op_row" where
  "fail_row now s failure r = end_row now s (r\<lparr>opr_Op := (opr_Op r)\<lparr>op_Error := failure\<rparr>\<rparr>)"

definition FailOperation :: "timestamp \<Rightarrow> string \<Rightarrow> status \<Rightarrow> string \<Rightarrow> Store \<Rightarrow> store_error + Store" where
  "FailOperation now operationID s failure st =
     AppendLog operationID [] (if s = Canceled then ''warning'' else ''error'') ''engine'' failure
       (st\<lparr>db_operations := update_where (is_op operationID) (fail_row now s failure) (db_operations st)\<rparr>)"

definition cancel_row :: "timestamp \<Rightarrow> op_row \<Rightarrow> op_row" where
  "cancel_row now r =
     (let waiting = op_Status (opr_Op r) = Ready \<or> op_Status (opr_Op r) = Queued
      in r\<lparr>opr_Op := (opr_Op r)\<lparr>op_CancelRequested := True,
           op_Status := (if waiting then Canceled else op_Status (opr_Op r)),
           op_CompletedAt := (if waiting then Some now else op_CompletedAt (opr_Op r))\<rparr>\<rparr>)"

definition RequestCancel :: "timestamp \<Rightarrow> string \<Rightarrow> Store \<Rightarrow> store_error + Store" where
  "RequestCancel now operationID st =
     (let p = (\<lambda>r. is_op operationID r \<and> \<not> terminal_status (op_Status (opr_Op r)))
      in if rows_affected p (db_operations st) = 0 then Inl ErrConflict
         else AppendLog operationID [] ''warning'' ''user'' ''Cancellation requested.''
           (st\<lparr>db_operations := update_where p (cancel_row now) (db_operations st)\<rparr>))"

definition renew_row :: "timestamp \<Rightarrow> op_row \<Rightarrow> op_row" where
  "renew_row now r = r\<lparr>opr_LeaseUntil := Some (now + lease_seconds)\<rparr>"

definition RenewLease :: "timestamp \<Rightarrow> string \<Rightarrow> string \<Rightarrow> Store \<Rightarrow> store_error + Store" where
  "RenewLease now operationID owner st =
     (case update_one (\<lambda>r. is_op operationID r \<and> opr_LeaseOwner r = Some owner \<and> active_status (op_Status (opr_Op r)))
         (renew_row now) (db_operations st) of
        None \<Rightarrow> Inl ErrConflict
      | Some rows \<Rightarrow> Inr (st\<lparr>db_operations := rows\<rparr>))"

definition expired :: "timestamp \<Rightarrow> op_row \<Rightarrow> bool" where
  "expired now r \<longleftrightarrow>
     active_status (op_Status (opr_Op r)) \<and> (case opr_LeaseUntil r of None \<Rightarrow> False | Some t \<Rightarrow> t < now)"

definition interrupt_step :: "timestamp \<Rightarrow> OperationStep \<Rightarrow> OperationStep" where
  "interrupt_step now step =
     step\<lparr>os_Status := Failed, os_CompletedAt := Some now, os_Error := ''Worker lease expired before the step completed.''\<rparr>"

definition expiry_log :: "op_row \<Rightarrow> log_row" where
  "expiry_log r =
     \<lparr>lg_OperationID = op_key r, lg_StepID = None, lg_Level = ''error'', lg_Source = ''worker'',
      lg_Message = ''Worker lease expired. Automatic retry was blocked because the step outcome is unknown.''\<rparr>"

definition FailExpiredOperations :: "timestamp \<Rightarrow> Store \<Rightarrow> Store" where
  "FailExpiredOperations now st =
     (let ids = map op_key (filter (expired now) (db_operations st))
      in st\<lparr>db_operations := update_where (expired now)
             (fail_row now Failed ''Worker lease expired. Review logs and state before retrying.'') (db_operations st),
           db_steps := update_where (\<lambda>s. os_OperationID s \<in> set ids \<and> active_status (os_Status s)) (interrupt_step now) (db_steps st),
           db_logs := db_logs st @ map expiry_log (filter (expired now) (db_operations st))\<rparr>)"

section \<open>Artifacts\<close>

definition stored_artifact :: "timestamp \<Rightarrow> Artifact \<Rightarrow> Artifact" where
  "stored_artifact now a =
     a\<lparr>art_StorageDigest := (if art_StorageDigest a = [] then art_Digest a else art_StorageDigest a),
       art_StoredSizeBytes := (if art_StoredSizeBytes a = 0 \<and> 0 < art_SizeBytes a then art_SizeBytes a else art_StoredSizeBytes a),
       art_VerifiedAt := now\<rparr>"

text \<open>The unique indexes: identifier, storage key, and one artifact per output of a step.\<close>

definition artifact_clash :: "Artifact \<Rightarrow> Artifact \<Rightarrow> bool" where
  "artifact_clash a b \<longleftrightarrow>
     art_ID a = art_ID b \<or> art_StorageKey a = art_StorageKey b \<or>
     art_StepID a \<noteq> [] \<and> art_OutputName a \<noteq> [] \<and> art_OperationID a = art_OperationID b \<and>
       art_StepID a = art_StepID b \<and> art_OutputName a = art_OutputName b"

definition CreateArtifact :: "timestamp \<Rightarrow> Artifact \<Rightarrow> Store \<Rightarrow> store_error + Artifact \<times> Store" where
  "CreateArtifact now a st =
     (let artifact = stored_artifact now a in
      if find_row op_key (art_OperationID a) (db_operations st) = None then Inl ErrForeignKey
      else if list_ex (artifact_clash artifact) (db_artifacts st) then Inl ErrDuplicate
      else if art_Sensitive a \<noteq> (art_EncryptionNonce a \<noteq> []) then Inl (ErrInvalid ''artifacts_encryption_state_check'')
      else Inr (artifact, st\<lparr>db_artifacts := db_artifacts st @ [artifact]\<rparr>))"

definition GetArtifact :: "string \<Rightarrow> Store \<Rightarrow> store_error + Artifact" where
  "GetArtifact artifactID st =
     (case find_row art_ID artifactID (db_artifacts st) of None \<Rightarrow> Inl ErrNotFound | Some a \<Rightarrow> Inr a)"

definition GetArtifactByOutput :: "string \<Rightarrow> string \<Rightarrow> string \<Rightarrow> Store \<Rightarrow> store_error + Artifact" where
  "GetArtifactByOutput operationID stepID outputName st =
     (case find (\<lambda>a. art_OperationID a = operationID \<and> art_StepID a = stepID \<and> stepID \<noteq> [] \<and>
         art_OutputName a = outputName \<and> outputName \<noteq> []) (db_artifacts st) of
        None \<Rightarrow> Inl ErrNotFound
      | Some a \<Rightarrow> Inr a)"

section \<open>The row updates keep keys\<close>

lemmas op_rows = queue_row_def claim_row_def status_row_def end_row_def fail_row_def cancel_row_def renew_row_def op_key_def

interpretation queue_upd: keyed_update op_key "queue_row now" for now
  by unfold_locales (simp add: op_rows)
interpretation claim_upd: keyed_update op_key "claim_row now owner" for now owner
  by unfold_locales (simp add: op_rows)
interpretation status_upd: keyed_update op_key "status_row now s" for now s
  by unfold_locales (simp add: op_rows)
interpretation end_upd: keyed_update op_key "end_row now s" for now s
  by unfold_locales (simp add: op_rows)
interpretation fail_upd: keyed_update op_key "fail_row now s f" for now s f
  by unfold_locales (simp add: op_rows)
interpretation cancel_upd: keyed_update op_key "cancel_row now" for now
  by unfold_locales (simp add: op_rows Let_def)
interpretation renew_upd: keyed_update op_key "renew_row now" for now
  by unfold_locales (simp add: op_rows)

lemmas op_updates = queue_upd.find_updated claim_upd.find_updated status_upd.find_updated end_upd.find_updated
  fail_upd.find_updated cancel_upd.find_updated renew_upd.find_updated

interpretation step_upd: keyed_update os_ID "step_row now s result health failure" for now s result health failure
  by unfold_locales (simp add: step_row_def)
interpretation interrupt_upd: keyed_update os_ID "interrupt_step now" for now
  by unfold_locales (simp add: interrupt_step_def)

lemma AppendLog_ops: "AppendLog operationID stepID level source message st = Inr st' \<Longrightarrow> db_operations st' = db_operations st"
  by (auto simp: AppendLog_def split: if_splits)

section \<open>Claims\<close>

lemma ClaimOperation_Some:
  assumes "ClaimOperation now locked owner st = Some (operation, st')" and keys: "keys_ok st"
  obtains r where "r \<in> set (db_operations st)" "op_ID operation = op_key r" "claimable r" "\<not> locked (op_key r)"
    "\<And>r'. r' \<in> set (db_operations st) \<Longrightarrow> claimable r' \<Longrightarrow> \<not> locked (op_key r') \<Longrightarrow>
       rank_le (op_QueuedAt (opr_Op r)) (op_QueuedAt (opr_Op r'))"
    "find_row op_key (op_key r) (db_operations st) = Some r"
    "st' = st\<lparr>db_operations := update_where (is_op (op_key r)) (claim_row now owner) (db_operations st)\<rparr>"
    "operation = (opr_Op (claim_row now owner r))\<lparr>op_Steps := ListSteps (op_key r) st\<rparr>"
proof -
  let ?rows = "filter (\<lambda>r. claimable r \<and> \<not> locked (op_key r)) (db_operations st)"
  from assms(1) obtain r where r: "first_min (\<lambda>r. op_QueuedAt (opr_Op r)) ?rows = Some r"
    and eqs: "operation = (opr_Op (claim_row now owner r))\<lparr>op_Steps := ListSteps (op_key r) st\<rparr>"
      "st' = st\<lparr>db_operations := update_where (is_op (op_key r)) (claim_row now owner) (db_operations st)\<rparr>"
    by (auto simp: ClaimOperation_def Let_def split: option.splits)
  note min = first_min_Some [OF r]
  have "find_row op_key (op_key r) (db_operations st) = Some r"
    using min keys by (auto simp: keys_ok_def intro: distinct_find_row)
  with min eqs show thesis by (intro that) (auto simp: claim_row_def op_key_def)
qed

lemma ClaimOperation_after:
  assumes "ClaimOperation now locked owner st = Some (operation, st')" and "keys_ok st"
  shows "\<exists>r. find_row op_key (op_ID operation) (db_operations st') = Some (claim_row now owner r)"
  using assms by (elim ClaimOperation_Some) (auto simp: claim_upd.find_updated is_op_def)

text \<open>
  A claim hands out the oldest queued operation: the claimed row was queued, not canceled
  and not locked by another transaction, no such row was queued earlier, and after the claim it
  is prechecking under the owner's lease while every other operation is as before.
\<close>

theorem claim_takes_oldest:
  assumes "keys_ok st" and "ClaimOperation now locked owner st = Some (operation, st')"
  shows "\<exists>r. find_row op_key (op_ID operation) (db_operations st) = Some r \<and> claimable r \<and> \<not> locked (op_ID operation) \<and>
    (\<forall>r' \<in> set (db_operations st). claimable r' \<and> \<not> locked (op_key r') \<longrightarrow>
       rank_le (op_QueuedAt (opr_Op r)) (op_QueuedAt (opr_Op r'))) \<and>
    find_row op_key (op_ID operation) (db_operations st') = Some (claim_row now owner r) \<and>
    (\<forall>k. k \<noteq> op_ID operation \<longrightarrow> find_row op_key k (db_operations st') = find_row op_key k (db_operations st))"
proof -
  from assms(2,1) obtain r where r: "op_ID operation = op_key r" "claimable r" "\<not> locked (op_key r)"
    "\<And>r'. r' \<in> set (db_operations st) \<Longrightarrow> claimable r' \<Longrightarrow> \<not> locked (op_key r') \<Longrightarrow>
       rank_le (op_QueuedAt (opr_Op r)) (op_QueuedAt (opr_Op r'))"
    "find_row op_key (op_key r) (db_operations st) = Some r"
    "db_operations st' = update_where (is_op (op_key r)) (claim_row now owner) (db_operations st)"
    by (rule ClaimOperation_Some) simp
  have "find_row op_key k (db_operations st') = find_row op_key k (db_operations st)" if "k \<noteq> op_key r" for k
    unfolding r(6) using that by (intro claim_upd.find_other) (auto simp: is_op_def)
  with r show ?thesis by (auto simp: claim_upd.find_updated is_op_def)
qed

section \<open>The life of an operation\<close>

text \<open>
  The writes to operations that the program performs. A worker sets only the three active
  states and ends an operation only as failed or canceled.
\<close>

inductive op_step :: "Store \<Rightarrow> Store \<Rightarrow> bool" where
  insert: "insert_rows now s q operation st = Inr st' \<Longrightarrow> op_step st st'"
| log: "AppendLog operationID stepID level source message st = Inr st' \<Longrightarrow> op_step st st'"
| queue: "QueueOperation now operationID hash accept st = Inr (operation, st') \<Longrightarrow> op_step st st'"
| claim: "ClaimOperation now locked owner st = Some (operation, st') \<Longrightarrow> op_step st st'"
| set_status: "active_status s \<Longrightarrow> SetOperationStatus now operationID s message st = Inr st' \<Longrightarrow> op_step st st'"
| set_step: "SetStepState now operationID stepID s result health failure st = Inr st' \<Longrightarrow> op_step st st'"
| complete: "CompleteOperation now operationID st = Inr st' \<Longrightarrow> op_step st st'"
| fail: "s = Failed \<or> s = Canceled \<Longrightarrow> FailOperation now operationID s failure st = Inr st' \<Longrightarrow> op_step st st'"
| cancel: "RequestCancel now operationID st = Inr st' \<Longrightarrow> op_step st st'"
| renew: "RenewLease now operationID owner st = Inr st' \<Longrightarrow> op_step st st'"
| expire: "st' = FailExpiredOperations now st \<Longrightarrow> op_step st st'"
| artifact: "CreateArtifact now a st = Inr (b, st') \<Longrightarrow> op_step st st'"

text \<open>Waiting for confirmation, waiting for a worker, or past that.\<close>

definition op_level :: "op_row \<Rightarrow> nat" where
  "op_level r = (case op_Status (opr_Op r) of Ready \<Rightarrow> 0 | Queued \<Rightarrow> 1 | _ \<Rightarrow> 2)"

definition row_progress :: "op_row \<Rightarrow> op_row \<Rightarrow> bool" where
  "row_progress r r' \<longleftrightarrow> op_level r \<le> op_level r'"

definition ops_progress :: "op_row list \<Rightarrow> op_row list \<Rightarrow> bool" where
  "ops_progress rows rows' \<longleftrightarrow>
     (\<forall>k r. find_row op_key k rows = Some r \<longrightarrow> (\<exists>r'. find_row op_key k rows' = Some r' \<and> row_progress r r'))"

lemma ops_progress_refl [simp]: "ops_progress rows rows"
  by (simp add: ops_progress_def row_progress_def)

lemma ops_progress_trans: "ops_progress a b \<Longrightarrow> ops_progress b c \<Longrightarrow> ops_progress a c"
  unfolding ops_progress_def row_progress_def by (meson le_trans)

lemma ops_progress_append: "ops_progress rows (rows @ new)"
  by (auto simp: ops_progress_def row_progress_def find_row_append)

lemma ops_progress_update:
  assumes keys: "\<And>r. op_key (f r) = op_key r" and rows: "\<And>r. p r \<Longrightarrow> op_level r \<le> op_level (f r)"
  shows "ops_progress rows (update_where p f rows)"
proof -
  have "keyed_update op_key f" using keys by unfold_locales
  from keyed_update.find_updated [OF this] rows show ?thesis by (auto simp: ops_progress_def row_progress_def)
qed

lemma op_level_le [simp]: "op_level r \<le> 2"
  by (simp add: op_level_def split: status.splits)

lemma op_level_past: "op_Status (opr_Op r) \<noteq> Ready \<Longrightarrow> op_Status (opr_Op r) \<noteq> Queued \<Longrightarrow> op_level r = 2"
  by (simp add: op_level_def split: status.splits)

lemma op_level_rows [simp]:
  "op_level (claim_row now owner r) = 2" "op_level (end_row now Succeeded r) = 2" "op_level (renew_row now r) = op_level r"
  "active_status s \<Longrightarrow> op_level (status_row now s r) = 2"
  "s = Failed \<or> s = Canceled \<Longrightarrow> op_level (fail_row now s f r) = 2"
  "op_level (queue_row now r) = 1"
  by (auto simp: op_level_def op_rows active_status_def)

lemma op_level_cancel: "op_level r \<le> op_level (cancel_row now r)"
  by (auto simp: op_level_def cancel_row_def Let_def split: status.splits)

lemma op_step_progress: "op_step st st' \<Longrightarrow> ops_progress (db_operations st) (db_operations st')"
proof (induction rule: op_step.induct)
  case (insert now s q operation st st')
  then show ?case by (auto simp: insert_rows_def intro: ops_progress_append split: if_splits sum.splits)
next
  case (log operationID stepID level source message st st')
  then show ?case by (simp add: AppendLog_ops)
next
  case (queue now operationID hash accept st operation st')
  then have "db_operations st' = update_where (\<lambda>r. is_op operationID r \<and> op_Status (opr_Op r) = Ready) (queue_row now) (db_operations st)"
    by (auto simp: QueueOperation_def update_one_Some dest: AppendLog_ops split: option.splits if_splits sum.splits)
  then show ?case by (auto simp: op_level_def op_rows intro!: ops_progress_update)
next
  case (claim now locked owner st operation st')
  then show ?case
    by (auto simp: ClaimOperation_def Let_def claim_upd.keeps_key intro!: ops_progress_update split: option.splits)
next
  case (set_status s now operationID message st st')
  then show ?case
    by (auto simp: SetOperationStatus_def Let_def status_upd.keeps_key dest!: AppendLog_ops intro!: ops_progress_update split: if_splits)
next
  case (complete now operationID st st')
  then show ?case
    by (auto simp: CompleteOperation_def end_upd.keeps_key dest!: AppendLog_ops intro!: ops_progress_update)
next
  case (fail s now operationID failure st st')
  then show ?case
    by (auto simp: FailOperation_def fail_upd.keeps_key dest!: AppendLog_ops intro!: ops_progress_update)
next
  case (cancel now operationID st st')
  then show ?case
    by (auto simp: RequestCancel_def Let_def cancel_upd.keeps_key op_level_cancel dest!: AppendLog_ops
        intro!: ops_progress_update split: if_splits)
next
  case (renew now operationID owner st st')
  then show ?case
    by (auto simp: RenewLease_def update_one_Some renew_upd.keeps_key intro!: ops_progress_update split: option.splits)
next
  case (expire st' now st)
  then show ?case
    by (auto simp: FailExpiredOperations_def Let_def fail_upd.keeps_key intro!: ops_progress_update)
qed (auto simp: SetStepState_def CreateArtifact_def Let_def split: if_splits)

lemma op_steps_progress: "op_step\<^sup>*\<^sup>* st st' \<Longrightarrow> ops_progress (db_operations st) (db_operations st')"
  by (induction rule: rtranclp_induct) (auto intro: ops_progress_trans op_step_progress)

text \<open>Every step keeps the primary keys unique.\<close>

lemma insert_steps_distinct:
  assumes "fold_err insert_step xs steps = Inr steps'" and "distinct (map os_ID steps)"
  shows "distinct (map os_ID steps')"
  by (rule fold_err_invariant [OF assms(1), of "\<lambda>steps. distinct (map os_ID steps)"])
    (use assms(2) in \<open>auto simp: insert_step_def split: if_splits\<close>)

lemma AppendLog_keys: "AppendLog operationID stepID level source message st = Inr st' \<Longrightarrow> keys_ok st' = keys_ok st"
  by (auto simp: AppendLog_def keys_ok_def split: if_splits)

interpretation delete_managed_upd: keyed_update mr_ID "delete_managed now" for now
  by unfold_locales (simp add: delete_managed_def)

lemma op_step_keys: "op_step st st' \<Longrightarrow> keys_ok st \<Longrightarrow> keys_ok st'"
proof (induction rule: op_step.induct)
  case (insert now s q operation st st')
  then show ?case
    by (auto simp: insert_rows_def keys_ok_def new_operation_def op_key_def dest: insert_steps_distinct split: if_splits sum.splits)
next
  case (queue now operationID hash accept st operation st')
  then show ?case
    by (auto simp: QueueOperation_def update_one_Some keys_ok_def queue_upd.keys dest!: AppendLog_keys split: option.splits if_splits sum.splits)
next
  case (claim now locked owner st operation st')
  then show ?case by (auto simp: ClaimOperation_def Let_def keys_ok_def claim_upd.keys split: option.splits)
next
  case (set_status s now operationID message st st')
  then show ?case
    by (auto simp: SetOperationStatus_def Let_def keys_ok_def status_upd.keys dest!: AppendLog_keys split: if_splits)
next
  case (complete now operationID st st')
  then show ?case
    by (auto simp: CompleteOperation_def keys_ok_def end_upd.keys delete_managed_upd.keys dest!: AppendLog_keys)
next
  case (fail s now operationID failure st st')
  then show ?case by (auto simp: FailOperation_def keys_ok_def fail_upd.keys dest!: AppendLog_keys)
next
  case (cancel now operationID st st')
  then show ?case
    by (auto simp: RequestCancel_def Let_def keys_ok_def cancel_upd.keys dest!: AppendLog_keys split: if_splits)
next
  case (renew now operationID owner st st')
  then show ?case by (auto simp: RenewLease_def update_one_Some keys_ok_def renew_upd.keys split: option.splits)
next
  case (expire st' now st)
  then show ?case by (simp add: FailExpiredOperations_def Let_def keys_ok_def fail_upd.keys interrupt_upd.keys)
next
  case (artifact now a st b st')
  then show ?case
    by (auto simp: CreateArtifact_def Let_def keys_ok_def artifact_clash_def list_ex_iff split: if_splits)
next
  case (log operationID stepID level source message st st')
  then show ?case by (simp add: AppendLog_keys)
qed (auto simp: SetStepState_def keys_ok_def step_upd.keys split: if_splits)

lemma op_steps_keys: "op_step\<^sup>*\<^sup>* st st' \<Longrightarrow> keys_ok st \<Longrightarrow> keys_ok st'"
  by (induction rule: rtranclp_induct) (auto intro: op_step_keys)

text \<open>A row past its waiting is never claimed again.\<close>

lemma started_not_claimed:
  assumes "find_row op_key k (db_operations st) = Some r" and "op_level r = 2" and "op_step\<^sup>*\<^sup>* st st'"
    and "keys_ok st'" and "ClaimOperation now locked owner st' = Some (b, st'')"
  shows "op_ID b \<noteq> k"
proof
  assume b: "op_ID b = k"
  from assms(1,2) op_steps_progress [OF assms(3)] obtain r' where r': "find_row op_key k (db_operations st') = Some r'" "op_level r' = 2"
    unfolding ops_progress_def row_progress_def by (metis op_level_le le_antisym)
  from assms(5,4) b r'(1) have "claimable r'" by (elim ClaimOperation_Some) (auto simp: op_key_def)
  with r'(2) show False by (simp add: claimable_def op_level_def)
qed

text \<open>
  C37: An operation is claimed at most once in its life: after a claim, whatever the workers,
  the users and the expiry of leases do, no later claim returns the same operation. A step
  whose outcome is unknown is therefore never executed a second time.
\<close>

theorem operation_claimed_once:
  assumes "keys_ok st" and "ClaimOperation now locked owner st = Some (a, st1)" and "op_step\<^sup>*\<^sup>* st1 st2"
    and "ClaimOperation now' locked' owner' st2 = Some (b, st3)"
  shows "op_ID b \<noteq> op_ID a"
proof -
  obtain r where "find_row op_key (op_ID a) (db_operations st1) = Some (claim_row now owner r)"
    using ClaimOperation_after [OF assms(2,1)] by blast
  moreover have "keys_ok st2" using op_steps_keys [OF assms(3)] op_step_keys [OF op_step.claim [OF assms(2)] assms(1)] by blast
  ultimately show ?thesis using started_not_claimed [OF _ _ assms(3)] assms(4) by simp
qed

text \<open>
  Cancelling an operation that still waits ends it: it becomes canceled, and no worker ever
  claims it afterwards.
\<close>

theorem canceled_operation_never_starts:
  assumes "keys_ok st" and "find_row op_key k (db_operations st) = Some r"
    and "op_Status (opr_Op r) = Ready \<or> op_Status (opr_Op r) = Queued"
    and "RequestCancel now k st = Inr st1" and "op_step\<^sup>*\<^sup>* st1 st2"
    and "ClaimOperation now' locked owner st2 = Some (b, st3)"
  shows "op_ID b \<noteq> k"
proof -
  have "db_operations st1 = update_where (\<lambda>r. is_op k r \<and> \<not> terminal_status (op_Status (opr_Op r))) (cancel_row now) (db_operations st)"
    using assms(4) by (auto simp: RequestCancel_def Let_def dest!: AppendLog_ops split: if_splits)
  then have "find_row op_key k (db_operations st1) = Some (cancel_row now r)"
    using assms(2,3) find_row_key [OF assms(2)] by (auto simp: cancel_upd.find_updated is_op_def terminal_status_def)
  moreover have "op_level (cancel_row now r) = 2"
    using assms(3) by (auto simp: op_level_def cancel_row_def Let_def)
  moreover have "keys_ok st2" using op_steps_keys [OF assms(5)] op_step_keys [OF op_step.cancel [OF assms(4)] assms(1)] by blast
  ultimately show ?thesis using started_not_claimed [OF _ _ assms(5)] assms(6) by blast
qed

section \<open>Leases\<close>

lemma FailExpired_row:
  "find_row op_key k (db_operations (FailExpiredOperations now st)) =
     map_option (\<lambda>r. if expired now r
       then fail_row now Failed ''Worker lease expired. Review logs and state before retrying.'' r else r)
     (find_row op_key k (db_operations st))"
  by (simp add: FailExpiredOperations_def Let_def fail_upd.find_updated)

text \<open>
  Expiry fails exactly the active operations whose lease has run out, together with their
  active steps; every other operation and all steps of other operations are as before.
\<close>

theorem expiry_is_exact:
  assumes "keys_ok st" and "find_row op_key k (db_operations st) = Some r"
  shows "if expired now r
    then \<exists>r'. find_row op_key k (db_operations (FailExpiredOperations now st)) = Some r' \<and> op_Status (opr_Op r') = Failed \<and>
        opr_LeaseOwner r' = None \<and> (\<forall>s \<in> set (db_steps (FailExpiredOperations now st)). os_OperationID s = k \<longrightarrow> \<not> active_status (os_Status s))
    else find_row op_key k (db_operations (FailExpiredOperations now st)) = Some r \<and>
        ListSteps k (FailExpiredOperations now st) = ListSteps k st"
proof (cases "expired now r")
  case True
  have "r \<in> set (db_operations st)" "op_key r = k" using find_row_key [OF assms(2)] by auto
  then have "k \<in> set (map op_key (filter (expired now) (db_operations st)))" using True by auto
  then have "\<not> active_status (os_Status s)" if "s \<in> set (db_steps (FailExpiredOperations now st))" "os_OperationID s = k" for s
    using that by (auto simp: FailExpiredOperations_def Let_def set_update_where interrupt_step_def active_status_def split: if_splits)
  with True assms(2) show ?thesis by (auto simp: FailExpired_row fail_row_def end_row_def)
next
  case False
  have "k \<notin> set (map op_key (filter (expired now) (db_operations st)))"
  proof
    assume "k \<in> set (map op_key (filter (expired now) (db_operations st)))"
    then obtain r' where r': "r' \<in> set (db_operations st)" "op_key r' = k" "expired now r'" by auto
    with assms have "r' = r" using distinct_find_row [of op_key "db_operations st" r'] by (simp add: keys_ok_def)
    with r'(3) False show False by simp
  qed
  then have "filter (\<lambda>s. os_OperationID s = k) (update_where
      (\<lambda>s. os_OperationID s \<in> set (map op_key (filter (expired now) (db_operations st))) \<and> active_status (os_Status s)) (interrupt_step now) steps)
      = filter (\<lambda>s. os_OperationID s = k) steps" for steps
    by (induction steps) (auto simp: interrupt_step_def)
  then have "ListSteps k (FailExpiredOperations now st) = ListSteps k st"
    by (simp add: ListSteps_def FailExpiredOperations_def Let_def)
  with False assms(2) show ?thesis by (simp add: FailExpired_row)
qed

text \<open>
  A renewed lease protects: after a successful renewal, expiry leaves the operation alone
  for the whole length of the lease.
\<close>

theorem renewed_lease_protects:
  assumes "keys_ok st" and "RenewLease now k owner st = Inr st'" and "now' \<le> now + lease_seconds"
  shows "find_row op_key k (db_operations (FailExpiredOperations now' st')) = find_row op_key k (db_operations st')"
proof -
  let ?p = "\<lambda>r. is_op k r \<and> opr_LeaseOwner r = Some owner \<and> active_status (op_Status (opr_Op r))"
  have st': "db_operations st' = update_where ?p (renew_row now) (db_operations st)" and one: "rows_affected ?p (db_operations st) = 1"
    using assms(2) by (auto simp: RenewLease_def update_one_Some split: option.splits)
  then obtain r where r: "r \<in> set (db_operations st)" "?p r" using rows_affected_pos [of ?p "db_operations st"] by auto
  then have "find_row op_key k (db_operations st) = Some r"
    using assms(1) distinct_find_row [of op_key "db_operations st" r] by (simp add: keys_ok_def is_op_def)
  with r(2) have "find_row op_key k (db_operations st') = Some (renew_row now r)"
    by (simp add: st' renew_upd.find_updated)
  moreover have "\<not> expired now' (renew_row now r)" using assms(3) by (simp add: expired_def renew_row_def)
  ultimately show ?thesis by (simp add: FailExpired_row)
qed

section \<open>Witnesses\<close>

text \<open>A queued operation, and a store that holds only it.\<close>

definition sample_op :: "status \<Rightarrow> Operation" where
  "sample_op s =
     \<lparr>op_ID = ''op_1'', op_WorkspaceID = ''w'', op_PluginID = ''p'', op_PluginVersion = ''1'', op_PluginDigest = [],
      op_Title = ''t'', op_Status = s, op_Spec = RawDoc (JObj []), op_Plan = \<lparr>plan_PluginID = ''p'', plan_Steps = []\<rparr>,
      op_Validation = \<lparr>vr_Valid = True, vr_Issues = [], vr_CheckedAt = 0\<rparr>, op_PlanHash = ''0123456789ab'',
      op_CancelRequested = False, op_Error = [], op_CreatedAt = 0, op_QueuedAt = Some 0, op_StartedAt = None,
      op_CompletedAt = None, op_Steps = [], op_Artifacts = []\<rparr>"

definition sample_db :: "status \<Rightarrow> string option \<Rightarrow> timestamp option \<Rightarrow> Store" where
  "sample_db s owner until =
     empty_store\<lparr>db_operations := [\<lparr>opr_Op = sample_op s, opr_LeaseOwner = owner, opr_LeaseUntil = until\<rparr>]\<rparr>"

lemmas sample_db_defs = sample_db_def sample_op_def empty_store_def op_key_def

lemma sample_db_keys: "keys_ok (sample_db s owner until)"
  by (simp add: keys_ok_def sample_db_defs)

lemma sample_claim:
  "\<exists>operation st'. ClaimOperation 5 (\<lambda>_. False) ''me'' (sample_db Queued None None) = Some (operation, st') \<and> op_ID operation = ''op_1''"
  by (simp add: ClaimOperation_def Let_def sample_db_defs claimable_def claim_row_def)

theorem claim_takes_oldest_witness:
  "\<exists>operation st' r. ClaimOperation 5 (\<lambda>_. False) ''me'' (sample_db Queued None None) = Some (operation, st') \<and>
     find_row op_key ''op_1'' (db_operations st') = Some (claim_row 5 ''me'' r)"
proof -
  obtain operation st' where c: "ClaimOperation 5 (\<lambda>_. False) ''me'' (sample_db Queued None None) = Some (operation, st')"
    "op_ID operation = ''op_1''"
    using sample_claim by blast
  show ?thesis using c(1) claim_takes_oldest [OF sample_db_keys c(1)] unfolding c(2) by blast
qed

text \<open>Two operations, claimed one after the other.\<close>

definition sample_two :: Store where
  "sample_two = (sample_db Queued None None)\<lparr>db_operations :=
     db_operations (sample_db Queued None None) @
     [\<lparr>opr_Op = (sample_op Queued)\<lparr>op_ID := ''op_2''\<rparr>, opr_LeaseOwner = None, opr_LeaseUntil = None\<rparr>]\<rparr>"

theorem operation_claimed_once_witness:
  "\<exists>a st1 b st2. ClaimOperation 5 (\<lambda>_. False) ''me'' sample_two = Some (a, st1) \<and>
     ClaimOperation 6 (\<lambda>_. False) ''you'' st1 = Some (b, st2) \<and> op_ID b \<noteq> op_ID a"
proof -
  obtain a st1 where a: "ClaimOperation 5 (\<lambda>_. False) ''me'' sample_two = Some (a, st1)"
    by (simp add: ClaimOperation_def Let_def sample_two_def sample_db_defs claimable_def rank_le_def)
  moreover obtain b st2 where b: "ClaimOperation 6 (\<lambda>_. False) ''you'' st1 = Some (b, st2)"
    using a by (auto simp: ClaimOperation_def Let_def sample_two_def sample_db_defs claimable_def rank_le_def claim_row_def is_op_def)
  moreover have "keys_ok sample_two" by (simp add: keys_ok_def sample_two_def sample_db_defs)
  ultimately show ?thesis using operation_claimed_once [OF _ a rtranclp.rtrancl_refl b] by blast
qed

theorem canceled_operation_never_starts_witness:
  "\<exists>st1 b st2. RequestCancel 3 ''op_1'' sample_two = Inr st1 \<and> ClaimOperation 5 (\<lambda>_. False) ''me'' st1 = Some (b, st2) \<and> op_ID b \<noteq> ''op_1''"
proof -
  have k: "keys_ok sample_two" by (simp add: keys_ok_def sample_two_def sample_db_defs)
  have f: "find_row op_key ''op_1'' (db_operations sample_two) = Some (hd (db_operations sample_two))"
    by (simp add: sample_two_def sample_db_defs)
  have w: "op_Status (opr_Op (hd (db_operations sample_two))) = Ready \<or> op_Status (opr_Op (hd (db_operations sample_two))) = Queued"
    by (simp add: sample_two_def sample_db_defs)
  obtain st1 where c: "RequestCancel 3 ''op_1'' sample_two = Inr st1"
    by (simp add: RequestCancel_def Let_def AppendLog_def sample_two_def sample_db_defs is_op_def terminal_status_def cancel_row_def)
  obtain b st2 where b: "ClaimOperation 5 (\<lambda>_. False) ''me'' st1 = Some (b, st2)"
    using c by (auto simp: RequestCancel_def Let_def AppendLog_def sample_two_def sample_db_defs is_op_def terminal_status_def
        cancel_row_def ClaimOperation_def claimable_def)
  show ?thesis using c b canceled_operation_never_starts [OF k f w c rtranclp.rtrancl_refl b] by blast
qed

theorem expiry_is_exact_witness:
  "\<exists>r'. find_row op_key ''op_1'' (db_operations (FailExpiredOperations 31 (sample_db Running (Some ''me'') (Some 30)))) = Some r' \<and>
     op_Status (opr_Op r') = Failed"
proof -
  let ?st = "sample_db Running (Some ''me'') (Some 30)"
  have "find_row op_key ''op_1'' (db_operations ?st) = Some (hd (db_operations ?st))" by (simp add: sample_db_defs)
  from expiry_is_exact [OF sample_db_keys this, of 31] show ?thesis
    by (auto simp: expired_def active_status_def sample_db_defs)
qed

theorem renewed_lease_protects_witness:
  "\<exists>st'. RenewLease 10 ''op_1'' ''me'' (sample_db Running (Some ''me'') (Some 30)) = Inr st' \<and>
     find_row op_key ''op_1'' (db_operations (FailExpiredOperations 40 st')) = find_row op_key ''op_1'' (db_operations st')"
proof -
  obtain st' where r: "RenewLease 10 ''op_1'' ''me'' (sample_db Running (Some ''me'') (Some 30)) = Inr st'"
    by (simp add: RenewLease_def update_one_def is_op_def active_status_def sample_db_defs)
  have "(40 :: nat) \<le> 10 + lease_seconds" by (simp add: lease_seconds_def)
  with r renewed_lease_protects [OF sample_db_keys r] show ?thesis by blast
qed

text \<open>
  Terminal states are not final: an operation that lease expiry has failed is reported
  as succeeded when the worker that lost the lease still completes it, and it keeps the message
  of the expired lease.
\<close>

theorem expired_operation_resurrected:
  "\<exists>st1 st2 r1 r2. st1 = FailExpiredOperations 31 (sample_db Running (Some ''me'') (Some 30)) \<and>
     find_row op_key ''op_1'' (db_operations st1) = Some r1 \<and> op_Status (opr_Op r1) = Failed \<and>
     CompleteOperation 32 ''op_1'' st1 = Inr st2 \<and>
     find_row op_key ''op_1'' (db_operations st2) = Some r2 \<and> op_Status (opr_Op r2) = Succeeded \<and> op_Error (opr_Op r2) = op_Error (opr_Op r1)"
  by (simp add: FailExpiredOperations_def Let_def CompleteOperation_def AppendLog_def expired_def active_status_def sample_db_defs
      fail_row_def end_row_def is_op_def expiry_log_def)

end
