(* ===== verification/RunStore.thy ===== *)
theory RunStore
  imports OperationStore Json
begin

text \<open>
  Pipeline runs and their stages: \<open>storage/pipelines.go\<close> and \<open>storage/experiment_initialization.go\<close>,
  with the triggers and indexes the statements rely on (\<open>migrations/changes/036\<close>, \<open>044\<close>, \<open>053\<close> and
  \<open>054\<close>). A run is created queued, claimed by a coordinator for fifteen seconds at a time,
  gets one operation per stage and one cleanup operation per stage, and ends as succeeded,
  failed or canceled; the trial of an experiment follows its run.
\<close>

section \<open>Guards of the table\<close>

definition is_run :: "string \<Rightarrow> run_row \<Rightarrow> bool" where
  "is_run runID r \<longleftrightarrow> rr_ID r = runID"

text \<open>\<open>guard_cluster_maintenance\<close>: a queued or running run needs a cluster that is not being changed or deleted.\<close>

definition cluster_unavailable :: "Store \<Rightarrow> run_row \<Rightarrow> bool" where
  "cluster_unavailable st r \<longleftrightarrow>
     (case rr_ClusterResourceID r of
        None \<Rightarrow> False
      | Some c \<Rightarrow>
          (case find_row mr_ID c (db_managed st) of
             None \<Rightarrow> True
           | Some m \<Rightarrow> mr_DeletedAt m \<noteq> None \<or> mr_RecreationPipelineRunID m \<noteq> None \<or>
               mr_DeletionPipelineRunID m \<noteq> None \<or> mr_DeletionOperationID m \<noteq> None))"

text \<open>Another running run of the same owner; another running run on the cluster that excludes this one.\<close>

definition owner_busy :: "Store \<Rightarrow> run_row \<Rightarrow> bool" where
  "owner_busy st r \<longleftrightarrow> rr_OwnerUserID r \<noteq> None \<and>
     list_ex (\<lambda>a. rr_OwnerUserID a = rr_OwnerUserID r \<and> rr_ID a \<noteq> rr_ID r \<and> rr_Status a = Running) (db_runs st)"

definition excludes :: "run_row \<Rightarrow> run_row \<Rightarrow> bool" where
  "excludes r a \<longleftrightarrow> rr_IsolationMode r = ''exclusive'' \<or> rr_IsolationMode a = ''exclusive''"

definition same_namespace :: "run_row \<Rightarrow> run_row \<Rightarrow> bool" where
  "same_namespace r a \<longleftrightarrow> rr_ApplicationNamespace r \<noteq> [] \<and> rr_ApplicationNamespace a = rr_ApplicationNamespace r"

definition cluster_busy :: "(run_row \<Rightarrow> run_row \<Rightarrow> bool) \<Rightarrow> Store \<Rightarrow> run_row \<Rightarrow> bool" where
  "cluster_busy conflict st r \<longleftrightarrow> rr_ClusterResourceID r \<noteq> None \<and>
     list_ex (\<lambda>a. rr_ClusterResourceID a = rr_ClusterResourceID r \<and> rr_ID a \<noteq> rr_ID r \<and> rr_Status a = Running \<and> conflict r a)
       (db_runs st)"

text \<open>
  \<open>application_namespace_reserved\<close>: a deployment that is not deleted yet, and is neither created nor
  deleted by the run itself, holds the namespace of the cluster. The operator \<open>->>\<close> yields the
  text of a scalar; the text of an array or object is no identifier.
\<close>

fun json_text :: "json \<Rightarrow> string option" where
  "json_text (JStr s) = Some s"
| "json_text (JNum n) = Some n"
| "json_text (JBool b) = Some (if b then ''true'' else ''false'')"
| "json_text _ = None"

definition spec_field :: "string list \<Rightarrow> RawMessage \<Rightarrow> string option" where
  "spec_field path raw =
     (case unmarshal raw of
        None \<Rightarrow> None
      | Some v \<Rightarrow> Option.bind (foldl (\<lambda>v k. Option.bind v (json_field k)) (Some v) path) json_text)"

definition run_status :: "Store \<Rightarrow> string option \<Rightarrow> status option" where
  "run_status st runID = (case runID of None \<Rightarrow> None | Some k \<Rightarrow> map_option rr_Status (find_row rr_ID k (db_runs st)))"

definition application_namespace_reserved :: "Store \<Rightarrow> string option \<Rightarrow> string \<Rightarrow> string \<Rightarrow> bool" where
  "application_namespace_reserved st cluster_id namespace_name own_run \<longleftrightarrow>
     cluster_id \<noteq> None \<and>
     list_ex (\<lambda>m. mr_Kind m = ''application-deployment'' \<and>
         spec_field [''clusterResourceId''] (mr_Spec m) = cluster_id \<and>
         spec_field [''definition'', ''namespace''] (mr_Spec m) = Some namespace_name \<and>
         (own_run = [] \<or> mr_PipelineRunID m \<noteq> Some own_run) \<and>
         (own_run = [] \<or> mr_DeletionPipelineRunID m \<noteq> Some own_run) \<and>
         run_status st (mr_DeletionPipelineRunID m) \<noteq> Some Succeeded) (db_managed st)"

section \<open>Creation\<close>

text \<open>The row a run is inserted as; only \<open>CreatePipelineRun\<close> stores the stage to pause before.\<close>

definition new_run :: "timestamp \<Rightarrow> string \<Rightarrow> PipelineRun \<Rightarrow> run_row" where
  "new_run now pause run =
     \<lparr>rr_ID = run_ID run, rr_PipelineID = run_PipelineID run, rr_WorkspaceID = run_WorkspaceID run,
      rr_ClusterResourceID = null_if_empty (run_ClusterResourceID run), rr_OwnerUserID = null_if_empty (run_OwnerUserID run),
      rr_IsolationMode = (if run_IsolationMode run = [] then ''exclusive'' else run_IsolationMode run),
      rr_Name = run_Name run, rr_Status = Queued, rr_PipelineHash = run_PipelineHash run,
      rr_ResultType = run_ResultType run, rr_ResultVersion = run_ResultVersion run, rr_ResultArtifactID = None,
      rr_CancelRequested = False, rr_TerminalStatus = None, rr_Error = [], rr_CreatedAt = now, rr_QueuedAt = now,
      rr_ScheduledFor = (case run_ScheduledFor run of None \<Rightarrow> now | Some t \<Rightarrow> t), rr_StartedAt = None,
      rr_CompletedAt = None, rr_PauseBeforeStage = pause, rr_ExecutionRequested = False, rr_InitializedAt = None,
      rr_ApplicationNamespace = run_ApplicationNamespace run, rr_LeaseOwner = None, rr_LeaseUntil = None\<rparr>"

definition insert_run :: "run_row \<Rightarrow> Store \<Rightarrow> store_error + Store" where
  "insert_run r st =
     (if cluster_unavailable st r then Inl ErrDuplicate
      else if rr_IsolationMode r \<noteq> ''namespaced'' \<and> rr_IsolationMode r \<noteq> ''exclusive''
      then Inl (ErrInvalid ''pipeline_runs_isolation_mode_check'')
      else if length (rr_PipelineHash r) \<noteq> 64 then Inl (ErrInvalid ''pipeline_runs_pipeline_hash_check'')
      else if rr_ID r \<in> rr_ID ` set (db_runs st) then Inl ErrDuplicate
      else Inr (st\<lparr>db_runs := db_runs st @ [r]\<rparr>))"

definition new_stage :: "string \<Rightarrow> PipelineRunStage \<Rightarrow> PipelineRunStage" where
  "new_stage runID stage =
     stage\<lparr>st_RunID := runID, st_Status := Pending, st_OperationID := [], st_Spec := RawEmpty, st_Error := [],
       st_StartedAt := None, st_CompletedAt := None, st_CleanupOperationID := [], st_CleanupStatus := Pending,
       st_CleanupError := [], st_CleanupStartedAt := None, st_CleanupCompletedAt := None\<rparr>"

definition stage_clash :: "PipelineRunStage \<Rightarrow> PipelineRunStage \<Rightarrow> bool" where
  "stage_clash s s' \<longleftrightarrow> st_ID s = st_ID s' \<or>
     st_RunID s = st_RunID s' \<and> (st_Position s = st_Position s' \<or> st_StageID s = st_StageID s')"

definition insert_stage :: "PipelineRunStage \<Rightarrow> PipelineRunStage list \<Rightarrow> store_error + PipelineRunStage list" where
  "insert_stage s stages = (if list_ex (stage_clash s) stages then Inl ErrDuplicate else Inr (stages @ [s]))"

definition insert_stages :: "PipelineRun \<Rightarrow> Store \<Rightarrow> store_error + Store" where
  "insert_stages run st =
     (case fold_err insert_stage (map (new_stage (run_ID run)) (run_Stages run)) (db_stages st) of
        Inl e \<Rightarrow> Inl e
      | Inr stages \<Rightarrow> Inr (st\<lparr>db_stages := stages\<rparr>))"

definition returned_run :: "run_row \<Rightarrow> PipelineRun \<Rightarrow> PipelineRun" where
  "returned_run r run =
     run\<lparr>run_Status := Queued, run_CreatedAt := rr_CreatedAt r, run_QueuedAt := Some (rr_QueuedAt r),
       run_ScheduledFor := Some (rr_ScheduledFor r), run_Stages := map (\<lambda>s. s\<lparr>st_Status := Pending\<rparr>) (run_Stages run)\<rparr>"

definition run_matches :: "Pipeline \<Rightarrow> PipelineRun \<Rightarrow> bool" where
  "run_matches p run \<longleftrightarrow> pl_WorkspaceID p = run_WorkspaceID run \<and> pl_Hash p = run_PipelineHash run \<and>
     ac_Type (pr_Result (pl_Resolution p)) = run_ResultType run \<and>
     ac_Version (pr_Result (pl_Resolution p)) = run_ResultVersion run"

definition CreatePipelineRun :: "timestamp \<Rightarrow> PipelineRun \<Rightarrow> Store \<Rightarrow> store_error + PipelineRun \<times> Store" where
  "CreatePipelineRun now run st =
     (case find_row pl_ID (run_PipelineID run) (db_pipelines st) of
        None \<Rightarrow> Inl ErrNotFound
      | Some p \<Rightarrow>
          if \<not> run_matches p run then Inl ErrConflict
          else let r = new_run now (run_PauseBeforeStage run) run in
            (case insert_run r st of
               Inl e \<Rightarrow> Inl e
             | Inr st' \<Rightarrow>
                 (case insert_stages run st' of
                    Inl e \<Rightarrow> Inl e
                  | Inr st'' \<Rightarrow> Inr (returned_run r run, st''))))"

section \<open>Reading\<close>

definition empty_if_null :: "string option \<Rightarrow> string" where
  "empty_if_null x = (case x of None \<Rightarrow> [] | Some s \<Rightarrow> s)"

definition run_phase :: "run_row \<Rightarrow> string" where
  "run_phase r =
     (if rr_Status r = Running \<and> rr_TerminalStatus r = None \<and> \<not> rr_CancelRequested r \<and> rr_PauseBeforeStage r \<noteq> [] \<and>
         \<not> rr_ExecutionRequested r
      then (if rr_InitializedAt r \<noteq> None then ''initialized'' else ''initializing'')
      else [])"

definition scanPipelineRun :: "run_row \<Rightarrow> PipelineRun" where
  "scanPipelineRun r =
     \<lparr>run_ApplicationNamespace = rr_ApplicationNamespace r, run_PauseBeforeStage = rr_PauseBeforeStage r,
      run_ExecutionRequested = rr_ExecutionRequested r, run_InitializedAt = rr_InitializedAt r, run_Phase = run_phase r,
      run_ID = rr_ID r, run_PipelineID = rr_PipelineID r, run_WorkspaceID = rr_WorkspaceID r,
      run_ClusterResourceID = empty_if_null (rr_ClusterResourceID r), run_OwnerUserID = empty_if_null (rr_OwnerUserID r),
      run_IsolationMode = rr_IsolationMode r, run_Name = rr_Name r, run_Status = rr_Status r,
      run_PipelineHash = rr_PipelineHash r, run_ResultType = rr_ResultType r, run_ResultVersion = rr_ResultVersion r,
      run_ResultArtifactID = empty_if_null (rr_ResultArtifactID r), run_CancelRequested = rr_CancelRequested r,
      run_TerminalStatus = (case rr_TerminalStatus r of None \<Rightarrow> NoStatus | Some s \<Rightarrow> s), run_Error = rr_Error r,
      run_CreatedAt = rr_CreatedAt r, run_QueuedAt = Some (rr_QueuedAt r), run_ScheduledFor = Some (rr_ScheduledFor r),
      run_StartedAt = rr_StartedAt r, run_CompletedAt = rr_CompletedAt r, run_Stages = []\<rparr>"

definition listPipelineRunStages :: "string \<Rightarrow> Store \<Rightarrow> PipelineRunStage list" where
  "listPipelineRunStages runID st = sort_key st_Position (filter (\<lambda>s. st_RunID s = runID) (db_stages st))"

definition GetPipelineRun :: "string \<Rightarrow> Store \<Rightarrow> store_error + PipelineRun" where
  "GetPipelineRun runID st =
     (case find_row rr_ID runID (db_runs st) of
        None \<Rightarrow> Inl ErrNotFound
      | Some r \<Rightarrow> Inr ((scanPipelineRun r)\<lparr>run_Stages := listPipelineRunStages runID st\<rparr>))"

definition GetPipeline :: "string \<Rightarrow> Store \<Rightarrow> store_error + Pipeline" where
  "GetPipeline pipelineID st =
     (case find_row pl_ID pipelineID (db_pipelines st) of None \<Rightarrow> Inl ErrNotFound | Some p \<Rightarrow> Inr p)"

text \<open>Artifacts a run produced, in the order of its stages.\<close>

definition ListPipelineRunArtifacts :: "string \<Rightarrow> Store \<Rightarrow> Artifact list" where
  "ListPipelineRunArtifacts runID st =
     (case find_row rr_ID runID (db_runs st) of
        None \<Rightarrow> []
      | Some _ \<Rightarrow> concat (map (\<lambda>s. if st_OperationID s = [] then [] else ListArtifacts (st_OperationID s) st)
          (listPipelineRunStages runID st)))"

definition GetPipelineRunArtifactFromStage :: "string \<Rightarrow> string \<Rightarrow> string \<Rightarrow> Store \<Rightarrow> store_error + Artifact" where
  "GetPipelineRunArtifactFromStage runID stageID outputName st =
     (case find_row rr_ID runID (db_runs st) of
        None \<Rightarrow> Inl ErrNotFound
      | Some _ \<Rightarrow>
          (case find (\<lambda>a. art_OutputName a = outputName \<and> outputName \<noteq> [])
              (concat (map (\<lambda>s. if st_OperationID s = [] then [] else ListArtifacts (st_OperationID s) st)
                (filter (\<lambda>s. stageID = [] \<or> st_StageID s = stageID) (listPipelineRunStages runID st)))) of
             None \<Rightarrow> Inl ErrNotFound
           | Some a \<Rightarrow> Inr a))"

section \<open>Claiming\<close>

text \<open>The trial a run executes, and whether an earlier trial of its experiment has not ended.\<close>

definition trial_of :: "Store \<Rightarrow> string \<Rightarrow> trial_row option" where
  "trial_of st runID = find (\<lambda>t. tr_PipelineRunID t = Some runID) (db_trials st)"

definition variant_of :: "Store \<Rightarrow> trial_row \<Rightarrow> variant_row option" where
  "variant_of st t = find_row va_ID (tr_VariantID t) (db_variants st)"

definition before_trial :: "variant_row \<Rightarrow> trial_row \<Rightarrow> variant_row \<Rightarrow> trial_row \<Rightarrow> bool" where
  "before_trial v' t' v t \<longleftrightarrow> va_ExperimentID v' = va_ExperimentID v \<and>
     (va_Position v' < va_Position v \<or> va_Position v' = va_Position v \<and> tr_Position t' < tr_Position t)"

definition earlier_unfinished :: "Store \<Rightarrow> run_row \<Rightarrow> bool" where
  "earlier_unfinished st r \<longleftrightarrow>
     (case trial_of st (rr_ID r) of
        None \<Rightarrow> False
      | Some t \<Rightarrow>
          (case variant_of st t of
             None \<Rightarrow> False
           | Some v \<Rightarrow>
               list_ex (\<lambda>t'. case variant_of st t' of
                   None \<Rightarrow> False
                 | Some v' \<Rightarrow> before_trial v' t' v t \<and> \<not> terminal_status (tr_Status t')) (db_trials st)))"

definition candidate :: "timestamp \<Rightarrow> Store \<Rightarrow> run_row \<Rightarrow> bool" where
  "candidate now st r \<longleftrightarrow>
     (rr_Status r = Queued \<or> rr_Status r = Running) \<and> rr_ScheduledFor r \<le> now \<and>
     (rr_ApplicationNamespace r = [] \<or>
      \<not> application_namespace_reserved st (rr_ClusterResourceID r) (rr_ApplicationNamespace r) (rr_ID r)) \<and>
     (case rr_LeaseUntil r of None \<Rightarrow> True | Some t \<Rightarrow> t < now) \<and>
     \<not> earlier_unfinished st r \<and> \<not> owner_busy st r \<and>
     \<not> cluster_busy (\<lambda>r a. excludes r a \<or> same_namespace r a) st r"

text \<open>
  The statement selects from its snapshot \<open>seen\<close> and locks the row it takes, skipping rows that
  are locked; the current version of the row has to qualify too. The triggers and the unique
  index of the update see the current database. A violation of theirs is reported as finding
  no run.
\<close>

definition run_lease_seconds :: nat where
  "run_lease_seconds = 15"

definition claim_run :: "timestamp \<Rightarrow> string \<Rightarrow> run_row \<Rightarrow> run_row" where
  "claim_run now owner r =
     r\<lparr>rr_Status := Running, rr_StartedAt := coalesce (rr_StartedAt r) now, rr_LeaseOwner := Some owner,
       rr_LeaseUntil := Some (now + run_lease_seconds)\<rparr>"

definition claim_rejected :: "Store \<Rightarrow> run_row \<Rightarrow> bool" where
  "claim_rejected st r \<longleftrightarrow>
     rr_Status r \<noteq> Running \<and> (owner_busy st r \<or> cluster_busy excludes st r) \<or> cluster_unavailable st r \<or>
     rr_ApplicationNamespace r \<noteq> [] \<and>
       application_namespace_reserved st (rr_ClusterResourceID r) (rr_ApplicationNamespace r) (rr_ID r) \<or>
     cluster_busy same_namespace st r"

definition run_candidates :: "timestamp \<Rightarrow> (string \<Rightarrow> bool) \<Rightarrow> Store \<Rightarrow> Store \<Rightarrow> run_row list" where
  "run_candidates now locked seen st =
     sort_key rr_ScheduledFor (sort_key rr_CreatedAt
       (filter (\<lambda>r. candidate now seen r \<and> \<not> locked (rr_ID r) \<and>
          (case find_row rr_ID (rr_ID r) (db_runs st) of None \<Rightarrow> False | Some r' \<Rightarrow> candidate now seen r')) (db_runs seen)))"

definition ClaimPipelineRun ::
  "timestamp \<Rightarrow> (string \<Rightarrow> bool) \<Rightarrow> Store \<Rightarrow> string \<Rightarrow> Store \<Rightarrow> (PipelineRun \<times> Store) option" where
  "ClaimPipelineRun now locked seen owner st =
     (case run_candidates now locked seen st of
        [] \<Rightarrow> None
      | c # _ \<Rightarrow>
          (case find_row rr_ID (rr_ID c) (db_runs st) of
             None \<Rightarrow> None
           | Some r \<Rightarrow>
               if claim_rejected st r then None
               else let st' = st\<lparr>db_runs := update_where (is_run (rr_ID r)) (claim_run now owner) (db_runs st)\<rparr> in
                 (case GetPipelineRun (rr_ID r) st' of Inl e \<Rightarrow> None | Inr run \<Rightarrow> Some (run, st'))))"

definition release_run :: "timestamp \<Rightarrow> nat \<Rightarrow> run_row \<Rightarrow> run_row" where
  "release_run now delay r =
     r\<lparr>rr_LeaseOwner := None,
       rr_LeaseUntil := (if 0 < delay \<and> rr_Status r = Running then Some (now + delay) else None)\<rparr>"

definition ReleasePipelineRun :: "timestamp \<Rightarrow> string \<Rightarrow> string \<Rightarrow> nat \<Rightarrow> Store \<Rightarrow> Store" where
  "ReleasePipelineRun now runID owner delay st =
     st\<lparr>db_runs := update_where (\<lambda>r. is_run runID r \<and> rr_LeaseOwner r = Some owner) (release_run now delay) (db_runs st)\<rparr>"

definition extend_run :: "timestamp \<Rightarrow> run_row \<Rightarrow> run_row" where
  "extend_run now r = r\<lparr>rr_LeaseUntil := Some (now + run_lease_seconds)\<rparr>"

definition lease_valid :: "timestamp \<Rightarrow> string \<Rightarrow> run_row \<Rightarrow> bool" where
  "lease_valid now owner r \<longleftrightarrow> rr_Status r = Running \<and> rr_LeaseOwner r = Some owner \<and>
     (case rr_LeaseUntil r of None \<Rightarrow> False | Some t \<Rightarrow> now < t)"

definition RenewPipelineRunLease :: "timestamp \<Rightarrow> string \<Rightarrow> string \<Rightarrow> Store \<Rightarrow> store_error + Store" where
  "RenewPipelineRunLease now runID owner st =
     (case update_one (\<lambda>r. is_run runID r \<and> lease_valid now owner r) (extend_run now) (db_runs st) of
        None \<Rightarrow> Inl (ErrInvalid ''pipeline run lease was lost during cleanup verification'')
      | Some rows \<Rightarrow> Inr (st\<lparr>db_runs := rows\<rparr>))"

section \<open>Stages\<close>

definition queued_operation :: "timestamp \<Rightarrow> Operation \<Rightarrow> Operation" where
  "queued_operation now operation =
     operation\<lparr>op_CreatedAt := now, op_QueuedAt := Some now, op_Status := Queued,
       op_Steps := op_Steps operation @ planned_steps operation\<rparr>"

text \<open>The stage with its run, when the owner holds the run's lease.\<close>

definition leased_stage :: "timestamp \<Rightarrow> string \<Rightarrow> string \<Rightarrow> string \<Rightarrow> Store \<Rightarrow> PipelineRunStage option" where
  "leased_stage now runID runStageID owner st =
     (case find_row st_ID runStageID (db_stages st) of
        None \<Rightarrow> None
      | Some s \<Rightarrow>
          if st_RunID s = runID \<and>
            (case find_row rr_ID runID (db_runs st) of None \<Rightarrow> False | Some r \<Rightarrow> lease_valid now owner r)
          then Some s else None)"

definition start_stage :: "timestamp \<Rightarrow> Operation \<Rightarrow> PipelineRunStage \<Rightarrow> PipelineRunStage" where
  "start_stage now operation s =
     s\<lparr>st_Status := Queued, st_OperationID := op_ID operation, st_Spec := op_Spec operation, st_StartedAt := Some now\<rparr>"

definition CreatePipelineStageOperation ::
  "timestamp \<Rightarrow> string \<Rightarrow> string \<Rightarrow> string \<Rightarrow> Operation \<Rightarrow> Store \<Rightarrow> store_error + Operation \<times> Store" where
  "CreatePipelineStageOperation now runID runStageID owner operation st =
     (case leased_stage now runID runStageID owner st of
        None \<Rightarrow> Inl ErrConflict
      | Some s \<Rightarrow>
          if st_Status s \<noteq> Pending then Inl ErrConflict
          else (case insert_rows now Queued True operation st of
              Inl e \<Rightarrow> Inl e
            | Inr st' \<Rightarrow>
                (case AppendLog (op_ID operation) [] ''info'' ''pipeline''
                    (''Pipeline run '' @ runID @ '' queued validated stage '' @ runStageID @ ''.'') st' of
                   Inl e \<Rightarrow> Inl e
                 | Inr st'' \<Rightarrow>
                     (case update_one (\<lambda>s. st_ID s = runStageID \<and> st_Status s = Pending) (start_stage now operation) (db_stages st'') of
                        None \<Rightarrow> Inl ErrConflict
                      | Some stages \<Rightarrow> Inr (queued_operation now operation, st''\<lparr>db_stages := stages\<rparr>)))))"

definition synced_status :: "status \<Rightarrow> status" where
  "synced_status s = (if s = Ready \<or> s = Queued then Queued else s)"

definition sync_stage :: "timestamp \<Rightarrow> Operation \<Rightarrow> PipelineRunStage \<Rightarrow> PipelineRunStage" where
  "sync_stage now operation s =
     (let status = synced_status (op_Status operation)
      in s\<lparr>st_Status := status, st_Error := op_Error operation,
           st_CompletedAt := (if terminal_status status then coalesce (st_CompletedAt s) now else st_CompletedAt s)\<rparr>)"

definition SyncPipelineRunStage :: "timestamp \<Rightarrow> string \<Rightarrow> Operation \<Rightarrow> Store \<Rightarrow> Store" where
  "SyncPipelineRunStage now runStageID operation st =
     st\<lparr>db_stages := update_where (\<lambda>s. st_ID s = runStageID \<and> st_OperationID s \<noteq> [] \<and> st_OperationID s = op_ID operation)
       (sync_stage now operation) (db_stages st)\<rparr>"

definition start_cleanup :: "timestamp \<Rightarrow> Operation \<Rightarrow> PipelineRunStage \<Rightarrow> PipelineRunStage" where
  "start_cleanup now operation s =
     s\<lparr>st_CleanupStatus := Queued, st_CleanupOperationID := op_ID operation, st_CleanupStartedAt := Some now\<rparr>"

definition CreatePipelineCleanupOperation ::
  "timestamp \<Rightarrow> string \<Rightarrow> string \<Rightarrow> string \<Rightarrow> Operation \<Rightarrow> Store \<Rightarrow> store_error + Operation \<times> Store" where
  "CreatePipelineCleanupOperation now runID runStageID owner operation st =
     (case leased_stage now runID runStageID owner st of
        None \<Rightarrow> Inl ErrConflict
      | Some s \<Rightarrow>
          if \<not> terminal_status (st_Status s) \<or> st_CleanupStatus s \<noteq> Pending then Inl ErrConflict
          else (case insert_rows now Queued True operation st of
              Inl e \<Rightarrow> Inl e
            | Inr st' \<Rightarrow>
                (case AppendLog (op_ID operation) [] ''info'' ''pipeline''
                    (''Pipeline run '' @ runID @ '' queued verified cleanup for stage '' @ runStageID @ ''.'') st' of
                   Inl e \<Rightarrow> Inl e
                 | Inr st'' \<Rightarrow>
                     (case update_one (\<lambda>s. st_ID s = runStageID \<and> st_CleanupStatus s = Pending) (start_cleanup now operation)
                         (db_stages st'') of
                        None \<Rightarrow> Inl ErrConflict
                      | Some stages \<Rightarrow> Inr (queued_operation now operation, st''\<lparr>db_stages := stages\<rparr>)))))"

definition sync_cleanup :: "timestamp \<Rightarrow> Operation \<Rightarrow> PipelineRunStage \<Rightarrow> PipelineRunStage" where
  "sync_cleanup now operation s =
     (let status = synced_status (op_Status operation)
      in s\<lparr>st_CleanupStatus := status, st_CleanupError := op_Error operation,
           st_CleanupCompletedAt :=
             (if terminal_status status then coalesce (st_CleanupCompletedAt s) now else st_CleanupCompletedAt s)\<rparr>)"

definition SyncPipelineRunStageCleanup :: "timestamp \<Rightarrow> string \<Rightarrow> Operation \<Rightarrow> Store \<Rightarrow> Store" where
  "SyncPipelineRunStageCleanup now runStageID operation st =
     st\<lparr>db_stages := update_where
       (\<lambda>s. st_ID s = runStageID \<and> st_CleanupOperationID s \<noteq> [] \<and> st_CleanupOperationID s = op_ID operation)
       (sync_cleanup now operation) (db_stages st)\<rparr>"

definition skip_cleanup :: "timestamp \<Rightarrow> PipelineRunStage \<Rightarrow> PipelineRunStage" where
  "skip_cleanup now s = s\<lparr>st_CleanupStatus := Skipped, st_CleanupCompletedAt := Some now\<rparr>"

definition SkipPipelineRunStageCleanup :: "timestamp \<Rightarrow> string \<Rightarrow> string \<Rightarrow> string \<Rightarrow> Store \<Rightarrow> store_error + Store" where
  "SkipPipelineRunStageCleanup now runID runStageID owner st =
     (case update_one (\<lambda>s. st_ID s = runStageID \<and> st_RunID s = runID \<and> st_CleanupStatus s = Pending \<and>
          (case find_row rr_ID runID (db_runs st) of None \<Rightarrow> False | Some r \<Rightarrow> lease_valid now owner r))
          (skip_cleanup now) (db_stages st) of
        None \<Rightarrow> Inl ErrConflict
      | Some stages \<Rightarrow> Inr (st\<lparr>db_stages := stages\<rparr>))"

definition fail_stage :: "timestamp \<Rightarrow> status \<Rightarrow> string \<Rightarrow> PipelineRunStage \<Rightarrow> PipelineRunStage" where
  "fail_stage now status message s = s\<lparr>st_Status := status, st_Error := message, st_CompletedAt := Some now\<rparr>"

definition FailPipelineRunStage :: "timestamp \<Rightarrow> string \<Rightarrow> status \<Rightarrow> string \<Rightarrow> Store \<Rightarrow> store_error + Store" where
  "FailPipelineRunStage now runStageID status message st =
     (if status \<noteq> Failed \<and> status \<noteq> Canceled then Inl (ErrInvalid ''pipeline stage terminal status is invalid'')
      else Inr (st\<lparr>db_stages := update_where (\<lambda>s. st_ID s = runStageID \<and> \<not> terminal_status (st_Status s))
        (fail_stage now status message) (db_stages st)\<rparr>))"

section \<open>The end of a run\<close>

definition end_run :: "timestamp \<Rightarrow> status \<Rightarrow> run_row \<Rightarrow> run_row" where
  "end_run now status r =
     r\<lparr>rr_Status := status, rr_CompletedAt := Some now, rr_LeaseOwner := None, rr_LeaseUntil := None\<rparr>"

definition owned_run :: "string \<Rightarrow> string \<Rightarrow> run_row \<Rightarrow> bool" where
  "owned_run runID owner r \<longleftrightarrow> is_run runID r \<and> rr_LeaseOwner r = Some owner \<and> rr_Status r = Running"

text \<open>The resource that was recreated by the run takes the run's pipeline as its own.\<close>

definition adopt_recreation :: "managed_row \<Rightarrow> managed_row" where
  "adopt_recreation m =
     m\<lparr>mr_PipelineID := mr_RecreationPipelineID m, mr_PipelineRunID := mr_RecreationPipelineRunID m,
       mr_RecreationPipelineID := None, mr_RecreationPipelineRunID := None\<rparr>"

definition finish_managed :: "timestamp \<Rightarrow> string \<Rightarrow> managed_row list \<Rightarrow> managed_row list" where
  "finish_managed now runID rows =
     update_where (\<lambda>m. mr_RecreationPipelineRunID m = Some runID \<and> mr_DeletedAt m = None) adopt_recreation
       (update_where (\<lambda>m. mr_DeletionPipelineRunID m = Some runID \<and> mr_DeletedAt m = None) (delete_managed now) rows)"

definition complete_run :: "timestamp \<Rightarrow> string \<Rightarrow> run_row \<Rightarrow> run_row" where
  "complete_run now artifactID r = end_run now Succeeded (r\<lparr>rr_ResultArtifactID := null_if_empty artifactID\<rparr>)"

definition stages_succeeded :: "string \<Rightarrow> Store \<Rightarrow> bool" where
  "stages_succeeded runID st \<longleftrightarrow> list_all (\<lambda>s. st_RunID s = runID \<longrightarrow> st_Status s = Succeeded) (db_stages st)"

definition CompletePipelineRun :: "timestamp \<Rightarrow> string \<Rightarrow> string \<Rightarrow> string \<Rightarrow> Store \<Rightarrow> store_error + Store" where
  "CompletePipelineRun now runID owner artifactID st =
     (case update_one (\<lambda>r. owned_run runID owner r \<and> stages_succeeded runID st) (complete_run now artifactID) (db_runs st) of
        None \<Rightarrow> Inl ErrConflict
      | Some rows \<Rightarrow>
          if artifactID \<noteq> [] \<and> find_row art_ID artifactID (db_artifacts st) = None then Inl ErrForeignKey
          else Inr (st\<lparr>db_runs := rows, db_managed := finish_managed now runID (db_managed st)\<rparr>))"

definition terminating_run :: "status \<Rightarrow> string \<Rightarrow> run_row \<Rightarrow> run_row" where
  "terminating_run status message r = r\<lparr>rr_TerminalStatus := Some status, rr_Error := message\<rparr>"

definition BeginPipelineRunTermination :: "string \<Rightarrow> string \<Rightarrow> status \<Rightarrow> string \<Rightarrow> Store \<Rightarrow> store_error + Store" where
  "BeginPipelineRunTermination runID owner status message st =
     (if status \<noteq> Failed \<and> status \<noteq> Canceled then Inl (ErrInvalid ''pipeline terminal status is invalid'')
      else case update_one (owned_run runID owner) (terminating_run status message) (db_runs st) of
          None \<Rightarrow> Inl ErrConflict
        | Some rows \<Rightarrow> Inr (st\<lparr>db_runs := rows\<rparr>))"

definition fail_run :: "timestamp \<Rightarrow> status \<Rightarrow> string \<Rightarrow> run_row \<Rightarrow> run_row" where
  "fail_run now status message r = end_run now status (r\<lparr>rr_Error := message\<rparr>)"

text \<open>The later trials of the experiment that have not started, and the trials of the runs canceled with them.\<close>

definition later_trial :: "Store \<Rightarrow> string \<Rightarrow> trial_row \<Rightarrow> bool" where
  "later_trial st runID t' \<longleftrightarrow>
     (case (trial_of st runID, variant_of st t') of
        (Some t, Some v') \<Rightarrow> (case variant_of st t of None \<Rightarrow> False | Some v \<Rightarrow> before_trial v t v' t')
      | _ \<Rightarrow> False)"

definition later_run :: "Store \<Rightarrow> string \<Rightarrow> run_row \<Rightarrow> bool" where
  "later_run st runID r \<longleftrightarrow>
     rr_Status r = Queued \<and> list_ex (\<lambda>t. tr_PipelineRunID t = Some (rr_ID r) \<and> later_trial st runID t) (db_trials st)"

definition not_started :: string where
  "not_started = ''Not started because an earlier sequential run failed or was canceled.''"

definition cancel_trial :: "timestamp \<Rightarrow> string \<Rightarrow> trial_row \<Rightarrow> trial_row" where
  "cancel_trial now message t = t\<lparr>tr_Status := Canceled, tr_Error := message, tr_CompletedAt := Some now\<rparr>"

definition cancel_later :: "timestamp \<Rightarrow> string \<Rightarrow> Store \<Rightarrow> Store" where
  "cancel_later now runID st =
     (let ids = map rr_ID (filter (later_run st runID) (db_runs st))
      in st\<lparr>db_runs := update_where (later_run st runID) (fail_run now Canceled not_started) (db_runs st),
           db_trials := update_where (\<lambda>t. (case tr_PipelineRunID t of None \<Rightarrow> False | Some k \<Rightarrow> k \<in> set ids) \<and> tr_Status t = Queued)
             (cancel_trial now not_started) (db_trials st)\<rparr>)"

definition FailPipelineRun :: "timestamp \<Rightarrow> string \<Rightarrow> string \<Rightarrow> status \<Rightarrow> string \<Rightarrow> Store \<Rightarrow> store_error + Store" where
  "FailPipelineRun now runID owner status message st =
     (if status \<noteq> Failed \<and> status \<noteq> Canceled then Inl (ErrInvalid ''pipeline terminal status is invalid'')
      else case update_one (owned_run runID owner) (fail_run now status message) (db_runs st) of
          None \<Rightarrow> Inl ErrConflict
        | Some rows \<Rightarrow> Inr (cancel_later now runID (st\<lparr>db_runs := rows\<rparr>)))"

definition cancel_run :: "run_row \<Rightarrow> run_row" where
  "cancel_run r = r\<lparr>rr_CancelRequested := True\<rparr>"

definition RequestPipelineRunCancel :: "string \<Rightarrow> Store \<Rightarrow> store_error + Store" where
  "RequestPipelineRunCancel runID st =
     (case update_one (\<lambda>r. is_run runID r \<and> (rr_Status r = Queued \<or> rr_Status r = Running)) cancel_run (db_runs st) of
        None \<Rightarrow> Inl ErrConflict
      | Some rows \<Rightarrow> Inr (st\<lparr>db_runs := rows\<rparr>))"

section \<open>Experiments\<close>

definition trial_in :: "Store \<Rightarrow> string \<Rightarrow> trial_row \<Rightarrow> bool" where
  "trial_in st experimentID t \<longleftrightarrow> (case variant_of st t of None \<Rightarrow> False | Some v \<Rightarrow> va_ExperimentID v = experimentID)"

definition run_in :: "Store \<Rightarrow> string \<Rightarrow> string \<Rightarrow> bool" where
  "run_in st experimentID runID \<longleftrightarrow>
     list_ex (\<lambda>t. tr_PipelineRunID t = Some runID \<and> trial_in st experimentID t) (db_trials st)"

definition cancelableExperimentStatus :: "status \<Rightarrow> bool" where
  "cancelableExperimentStatus s \<longleftrightarrow> s = Queued \<or> s = Running \<or> s = Initializing \<or> s = Initialized"

definition set_experiment :: "string \<Rightarrow> status \<Rightarrow> Store \<Rightarrow> Store" where
  "set_experiment experimentID s st =
     st\<lparr>db_experiments := update_where (\<lambda>e. ex_ID e = experimentID) (\<lambda>e. e\<lparr>ex_Status := s\<rparr>) (db_experiments st)\<rparr>"

definition canceled_by_user :: string where
  "canceled_by_user = ''Canceled by user before start.''"

definition cancel_queued :: "timestamp \<Rightarrow> run_row \<Rightarrow> run_row" where
  "cancel_queued now r = fail_run now Canceled canceled_by_user (cancel_run r)"

text \<open>The statements of \<open>RequestExperimentCancel\<close>, each on the result of the one before.\<close>

definition cancel_queued_runs :: "timestamp \<Rightarrow> string \<Rightarrow> Store \<Rightarrow> Store" where
  "cancel_queued_runs now experimentID st =
     st\<lparr>db_runs := update_where (\<lambda>r. run_in st experimentID (rr_ID r) \<and> rr_Status r = Queued) (cancel_queued now) (db_runs st)\<rparr>"

definition cancel_pending_stages :: "timestamp \<Rightarrow> string \<Rightarrow> Store \<Rightarrow> Store" where
  "cancel_pending_stages now experimentID st =
     st\<lparr>db_stages := update_where
       (\<lambda>s. run_in st experimentID (st_RunID s) \<and> run_status st (Some (st_RunID s)) = Some Canceled \<and> st_Status s = Pending)
       (fail_stage now Canceled canceled_by_user) (db_stages st)\<rparr>"

definition cancel_running_runs :: "string \<Rightarrow> Store \<Rightarrow> Store" where
  "cancel_running_runs experimentID st =
     st\<lparr>db_runs := update_where (\<lambda>r. run_in st experimentID (rr_ID r) \<and> rr_Status r = Running) cancel_run (db_runs st)\<rparr>"

definition cancel_queued_trials :: "timestamp \<Rightarrow> string \<Rightarrow> Store \<Rightarrow> Store" where
  "cancel_queued_trials now experimentID st =
     st\<lparr>db_trials := update_where
       (\<lambda>t. trial_in st experimentID t \<and> run_status st (tr_PipelineRunID t) = Some Canceled \<and> tr_Status t = Queued)
       (cancel_trial now canceled_by_user) (db_trials st)\<rparr>"

definition runs_with :: "Store \<Rightarrow> string \<Rightarrow> status \<Rightarrow> nat" where
  "runs_with st experimentID s = rows_affected (\<lambda>r. run_in st experimentID (rr_ID r) \<and> rr_Status r = s) (db_runs st)"

definition RequestExperimentCancel :: "timestamp \<Rightarrow> string \<Rightarrow> Store \<Rightarrow> store_error + Store" where
  "RequestExperimentCancel now experimentID st =
     (case find_row ex_ID experimentID (db_experiments st) of
        None \<Rightarrow> Inl ErrNotFound
      | Some e \<Rightarrow>
          if \<not> cancelableExperimentStatus (ex_Status e) then Inl ErrConflict
          else let queued = runs_with st experimentID Queued;
                   st1 = cancel_pending_stages now experimentID (cancel_queued_runs now experimentID st);
                   running = runs_with st1 experimentID Running;
                   st2 = cancel_running_runs experimentID st1
            in if queued + running = 0 then Inl ErrConflict
               else Inr (set_experiment experimentID (if 0 < running then Running else Canceled)
                 (cancel_queued_trials now experimentID st2)))"

definition trial_status :: "run_row \<Rightarrow> status" where
  "trial_status r =
     (if rr_Status r = Running \<and> rr_TerminalStatus r = None \<and> \<not> rr_CancelRequested r \<and> rr_PauseBeforeStage r \<noteq> [] \<and>
         \<not> rr_ExecutionRequested r
      then (if rr_InitializedAt r = None then Initializing else Initialized)
      else rr_Status r)"

definition last_operation :: "string \<Rightarrow> Store \<Rightarrow> string option" where
  "last_operation runID st =
     (case filter (\<lambda>s. st_OperationID s \<noteq> []) (rev (listPipelineRunStages runID st)) of
        [] \<Rightarrow> None
      | s # _ \<Rightarrow> Some (st_OperationID s))"

definition sync_trial :: "Store \<Rightarrow> run_row \<Rightarrow> trial_row \<Rightarrow> trial_row" where
  "sync_trial st r t =
     t\<lparr>tr_Status := trial_status r, tr_OperationID := last_operation (rr_ID r) st, tr_ResultArtifactID := rr_ResultArtifactID r,
       tr_Error := rr_Error r, tr_CompletedAt := rr_CompletedAt r\<rparr>"

text \<open>The state of an experiment with the given trial states.\<close>

definition summary_status :: "status list \<Rightarrow> status" where
  "summary_status ss =
     (if list_all (\<lambda>s. s = Succeeded) ss then Succeeded
      else if list_all terminal_status ss \<and> Failed \<in> set ss then Failed
      else if list_all terminal_status ss then Canceled
      else if Initialized \<in> set ss then Initialized
      else if Initializing \<in> set ss then Initializing
      else if list_ex (\<lambda>s. s \<noteq> Queued) ss then Running
      else Queued)"

definition experiment_of :: "Store \<Rightarrow> string \<Rightarrow> string option" where
  "experiment_of st runID =
     (case trial_of st runID of
        None \<Rightarrow> None
      | Some t \<Rightarrow>
          (case variant_of st t of
             None \<Rightarrow> None
           | Some v \<Rightarrow> map_option ex_ID (find_row ex_ID (va_ExperimentID v) (db_experiments st))))"

definition SyncExperimentPipelineRun :: "string \<Rightarrow> Store \<Rightarrow> Store" where
  "SyncExperimentPipelineRun runID st =
     (case (experiment_of st runID, find_row rr_ID runID (db_runs st)) of
        (Some experimentID, Some r) \<Rightarrow>
          (let st' = st\<lparr>db_trials := update_where (\<lambda>t. tr_PipelineRunID t = Some runID \<and> variant_of st t \<noteq> None)
             (sync_trial st r) (db_trials st)\<rparr>
           in set_experiment experimentID
             (summary_status (map tr_Status (filter (trial_in st' experimentID) (db_trials st')))) st')
      | _ \<Rightarrow> st)"

definition initialize_run :: "timestamp \<Rightarrow> run_row \<Rightarrow> run_row" where
  "initialize_run now r = r\<lparr>rr_InitializedAt := coalesce (rr_InitializedAt r) now\<rparr>"

definition MarkPipelineInitialized :: "timestamp \<Rightarrow> string \<Rightarrow> string \<Rightarrow> Store \<Rightarrow> store_error + Store" where
  "MarkPipelineInitialized now runID owner st =
     (case update_one (\<lambda>r. owned_run runID owner r \<and> rr_TerminalStatus r = None \<and> \<not> rr_CancelRequested r \<and>
          \<not> rr_ExecutionRequested r \<and> rr_PauseBeforeStage r \<noteq> []) (initialize_run now) (db_runs st) of
        None \<Rightarrow> Inl ErrConflict
      | Some rows \<Rightarrow> Inr (st\<lparr>db_runs := rows\<rparr>))"

definition request_execution :: "run_row \<Rightarrow> run_row" where
  "request_execution r = r\<lparr>rr_ExecutionRequested := True\<rparr>"

definition executing :: "Store \<Rightarrow> string option \<Rightarrow> bool" where
  "executing st runID \<longleftrightarrow>
     (case runID of
        None \<Rightarrow> False
      | Some k \<Rightarrow>
          (case find_row rr_ID k (db_runs st) of None \<Rightarrow> False | Some r \<Rightarrow> rr_Status r = Running \<and> rr_ExecutionRequested r))"

definition StartExperimentTraffic :: "string \<Rightarrow> string \<Rightarrow> Store \<Rightarrow> store_error + Store" where
  "StartExperimentTraffic experimentID runID st =
     (case find_row ex_ID experimentID (db_experiments st) of
        None \<Rightarrow> Inl ErrNotFound
      | Some e \<Rightarrow>
          if ex_Status e \<noteq> Initialized then Inl ErrConflict
          else (case update_one (\<lambda>r. is_run runID r \<and> rr_Status r = Running \<and> rr_TerminalStatus r = None \<and>
                \<not> rr_CancelRequested r \<and> rr_InitializedAt r \<noteq> None \<and> \<not> rr_ExecutionRequested r \<and>
                run_in st experimentID (rr_ID r)) request_execution (db_runs st) of
              None \<Rightarrow> Inl ErrConflict
            | Some rows \<Rightarrow>
                let st' = st\<lparr>db_runs := rows\<rparr> in
                Inr (set_experiment experimentID Running (st'\<lparr>db_trials :=
                  update_where (\<lambda>t. trial_in st' experimentID t \<and> executing st' (tr_PipelineRunID t))
                    (\<lambda>t. t\<lparr>tr_Status := Running\<rparr>) (db_trials st')\<rparr>))))"

end
