(* ===== verification/ManagedStore.thy ===== *)
theory ManagedStore
  imports RunStore
begin

text \<open>
  Managed resources: the first half of \<open>storage/operations.go\<close>. A resource is created by an
  operation or by a pipeline run, may be recreated by another run, and is deleted by a further
  operation or run; its state is derived from the states of these. The triggers and unique
  indexes of the table are those of \<open>migrations/changes/019\<close>, \<open>027\<close> and \<open>054\<close>.
\<close>

section \<open>Inserting rows\<close>

text \<open>\<open>json.Marshal\<close> also rejects a raw message that is not one document, and writes an absent one as null.\<close>

definition pipeline_encodable :: "Pipeline \<Rightarrow> bool" where
  "pipeline_encodable p \<longleftrightarrow>
     list_all (\<lambda>s. nullableJSON (pst_Spec s)) (pd_Stages (pl_Definition p)) \<and>
     list_all (\<lambda>s. nullableJSON (rps_Spec s) \<and> list_all (\<lambda>x. nullableJSON (ps_Input x)) (plan_Steps (rps_Plan s)))
       (pr_Stages (pl_Resolution p))"

definition insert_pipeline :: "Pipeline \<Rightarrow> Store \<Rightarrow> store_error + Store" where
  "insert_pipeline p st =
     (if \<not> pipeline_encodable p then Inl ErrEncode
      else if length (pl_Hash p) \<noteq> 64 then Inl (ErrInvalid ''pipelines_pipeline_hash_check'')
      else if list_ex (\<lambda>q. pl_ID q = pl_ID p \<or> pl_WorkspaceID q = pl_WorkspaceID p \<and> pl_Name q = pl_Name p) (db_pipelines st)
      then Inl ErrDuplicate
      else Inr (st\<lparr>db_pipelines := db_pipelines st @ [p]\<rparr>))"

definition insertPipelineLifecycle :: "timestamp \<Rightarrow> Pipeline \<Rightarrow> PipelineRun \<Rightarrow> Store \<Rightarrow> store_error + Store" where
  "insertPipelineLifecycle now pipeline run st =
     (case insert_pipeline pipeline st of
        Inl e \<Rightarrow> Inl e
      | Inr st' \<Rightarrow>
          if run_PipelineID run \<noteq> pl_ID pipeline \<or> \<not> run_matches pipeline run then Inl ErrConflict
          else (case insert_run (new_run now [] run) st' of
              Inl e \<Rightarrow> Inl e
            | Inr st'' \<Rightarrow> insert_stages run st''))"

definition new_managed :: "ManagedResource \<Rightarrow> string option \<Rightarrow> string option \<Rightarrow> string option \<Rightarrow> managed_row" where
  "new_managed resource operationID pipelineID runID =
     \<lparr>mr_ID = mg_ID resource, mr_WorkspaceID = mg_WorkspaceID resource, mr_Name = mg_Name resource, mr_Kind = mg_Kind resource,
      mr_Provider = mg_Provider resource, mr_ConnectionID = null_if_empty (mg_ConnectionID resource),
      mr_PluginID = mg_PluginID resource, mr_PluginVersion = mg_PluginVersion resource,
      mr_PluginDigest = mg_PluginDigest resource, mr_Spec = mg_Spec resource, mr_OperationID = operationID,
      mr_PipelineID = pipelineID, mr_PipelineRunID = runID, mr_DeletionOperationID = None,
      mr_DeletionPipelineID = None, mr_DeletionPipelineRunID = None, mr_RecreationPipelineID = None,
      mr_RecreationPipelineRunID = None, mr_DeletedAt = None\<rparr>"

text \<open>
  \<open>guard_application_deployment_namespace\<close>: \<open>None\<close> when the row may be stored. The unique index on
  live names does not compare rows without a connection.
\<close>

definition deployment_guard :: "Store \<Rightarrow> managed_row \<Rightarrow> store_error option" where
  "deployment_guard st m =
     (if mr_Kind m \<noteq> ''application-deployment'' then None
      else case (spec_field [''clusterResourceId''] (mr_Spec m), spec_field [''definition'', ''namespace''] (mr_Spec m)) of
          (Some cluster_id, Some namespace_name) \<Rightarrow>
            if cluster_id = [] \<or> namespace_name = [] then Some (ErrInvalid ''application deployment requires cluster and namespace'')
            else if application_namespace_reserved st (Some cluster_id) namespace_name (empty_if_null (mr_PipelineRunID m)) \<or>
                list_ex (\<lambda>a. rr_ClusterResourceID a = Some cluster_id \<and> rr_ApplicationNamespace a = namespace_name \<and>
                  rr_Status a = Running \<and> Some (rr_ID a) \<noteq> mr_PipelineRunID m) (db_runs st)
            then Some ErrDuplicate else None
        | _ \<Rightarrow> Some (ErrInvalid ''application deployment requires cluster and namespace''))"

definition managed_clash :: "managed_row \<Rightarrow> managed_row \<Rightarrow> bool" where
  "managed_clash m n \<longleftrightarrow> mr_ID m = mr_ID n \<or>
     mr_DeletedAt n = None \<and> mr_ConnectionID m \<noteq> None \<and> mr_ConnectionID m = mr_ConnectionID n \<and>
     mr_Kind m = mr_Kind n \<and> mr_Provider m = mr_Provider n \<and> mr_Name m = mr_Name n"

definition insert_managed :: "managed_row \<Rightarrow> Store \<Rightarrow> store_error + Store" where
  "insert_managed m st =
     (if \<not> is_doc (mr_Spec m) then Inl ErrEncode
      else case deployment_guard st m of
          Some e \<Rightarrow> Inl e
        | None \<Rightarrow>
            if list_ex (managed_clash m) (db_managed st) then Inl ErrDuplicate
            else Inr (st\<lparr>db_managed := db_managed st @ [m]\<rparr>))"

section \<open>Creation\<close>

definition CreateManagedResource ::
  "timestamp \<Rightarrow> ManagedResource \<Rightarrow> Operation \<Rightarrow> Store \<Rightarrow> store_error + ManagedResource \<times> Store" where
  "CreateManagedResource now resource operation st =
     (case insertOperation now operation st of
        Inl e \<Rightarrow> Inl e
      | Inr (operation', st') \<Rightarrow>
          (case insert_managed (new_managed resource (Some (op_ID operation')) None None) st' of
             Inl e \<Rightarrow> Inl e
           | Inr st'' \<Rightarrow>
               Inr (resource\<lparr>mg_OperationID := op_ID operation', mg_Status := ''pending'',
                      mg_Validation := op_Validation operation'\<rparr>, st'')))"

definition insert_dependency ::
  "string \<Rightarrow> ManagedResourceDependency \<Rightarrow> Store \<Rightarrow> store_error + Store" where
  "insert_dependency resourceID d st =
     (if mrd_ResourceID d \<noteq> resourceID \<or> mrd_DependsOnID d = [] \<or> mrd_Relation d = [] then Inl ErrConflict
      else if mrd_ResourceID d = mrd_DependsOnID d then Inl (ErrInvalid ''managed_resource_dependencies_check'')
      else if d \<in> set (db_dependencies st) then Inl ErrDuplicate
      else if find_row mr_ID (mrd_DependsOnID d) (db_managed st) = None then Inl ErrForeignKey
      else Inr (st\<lparr>db_dependencies := db_dependencies st @ [d]\<rparr>))"

definition CreateManagedPipelineResource ::
  "timestamp \<Rightarrow> ManagedResource \<Rightarrow> Pipeline \<Rightarrow> PipelineRun \<Rightarrow> ManagedResourceDependency list \<Rightarrow> Store \<Rightarrow>
     store_error + ManagedResource \<times> Store" where
  "CreateManagedPipelineResource now resource pipeline run dependencies st =
     (case insertPipelineLifecycle now pipeline run st of
        Inl e \<Rightarrow> Inl e
      | Inr st' \<Rightarrow>
          (case insert_managed (new_managed resource None (Some (pl_ID pipeline)) (Some (run_ID run))) st' of
             Inl e \<Rightarrow> Inl e
           | Inr st'' \<Rightarrow>
               (case fold_err (insert_dependency (mg_ID resource)) dependencies st'' of
                  Inl e \<Rightarrow> Inl e
                | Inr st3 \<Rightarrow>
                    Inr (resource\<lparr>mg_PipelineID := pl_ID pipeline, mg_PipelineRunID := run_ID run,
                           mg_Status := ''provisioning'', mg_Validation := pl_Validation pipeline\<rparr>, st3))))"

section \<open>The state of a resource\<close>

definition managedResourceState ::
  "status \<Rightarrow> string \<Rightarrow> status \<Rightarrow> string \<Rightarrow> status \<Rightarrow> string \<Rightarrow> string \<times> string" where
  "managedResourceState creationStatus creationError deletionStatus deletionError recreationStatus recreationError =
     (if deletionStatus \<noteq> NoStatus then
        (if deletionStatus = Succeeded then (''deleted'', [])
         else if deletionStatus = Failed \<or> deletionStatus = Canceled then (''deletion-failed'', deletionError)
         else (''deleting'', []))
      else if recreationStatus \<noteq> NoStatus then
        (if recreationStatus = Failed \<or> recreationStatus = Canceled then (''recreation-failed'', recreationError)
         else (''recreating'', []))
      else if creationStatus = Succeeded then (''ready'', [])
      else if creationStatus = Failed \<or> creationStatus = Canceled then (''failed'', creationError)
      else (''provisioning'', []))"

text \<open>The rows joined to a resource; \<open>coalesced\<close> takes the operation's value before the run's.\<close>

definition joined_op :: "Store \<Rightarrow> string option \<Rightarrow> Operation option" where
  "joined_op st k = (case k of None \<Rightarrow> None | Some operationID \<Rightarrow> map_option opr_Op (find_row op_key operationID (db_operations st)))"

definition joined_run :: "Store \<Rightarrow> string option \<Rightarrow> run_row option" where
  "joined_run st k = (case k of None \<Rightarrow> None | Some runID \<Rightarrow> find_row rr_ID runID (db_runs st))"

definition coalesced :: "(Operation \<Rightarrow> 'a) \<Rightarrow> (run_row \<Rightarrow> 'a) \<Rightarrow> Operation option \<Rightarrow> run_row option \<Rightarrow> 'a option" where
  "coalesced f g operation run = (case operation of Some x \<Rightarrow> Some (f x) | None \<Rightarrow> map_option g run)"

definition creation_status :: "Store \<Rightarrow> managed_row \<Rightarrow> status option" where
  "creation_status st m = coalesced op_Status rr_Status (joined_op st (mr_OperationID m)) (joined_run st (mr_PipelineRunID m))"

definition deletion_status :: "Store \<Rightarrow> managed_row \<Rightarrow> status option" where
  "deletion_status st m =
     coalesced op_Status rr_Status (joined_op st (mr_DeletionOperationID m)) (joined_run st (mr_DeletionPipelineRunID m))"

definition resource_artifact :: "Store \<Rightarrow> managed_row \<Rightarrow> string" where
  "resource_artifact st m =
     (case (case mr_OperationID m of
              None \<Rightarrow> None
            | Some operationID \<Rightarrow> find (\<lambda>a. art_Type a \<noteq> ''RunResult'') (ListArtifacts operationID st)) of
        Some a \<Rightarrow> art_ID a
      | None \<Rightarrow> empty_if_null (Option.bind (joined_run st (mr_PipelineRunID m)) rr_ResultArtifactID))"

definition maintenance_state :: "string \<Rightarrow> string \<Rightarrow> string" where
  "maintenance_state recreationName s =
     (if has_prefix ''Maintain '' recreationName then
        (if s = ''recreating'' then ''maintaining'' else if s = ''recreation-failed'' then ''maintenance-failed'' else s)
      else s)"

text \<open>A row whose creation is unknown has a null state, which the scan rejects.\<close>

definition scanManagedResource :: "Store \<Rightarrow> managed_row \<Rightarrow> store_error + ManagedResource" where
  "scanManagedResource st m =
     (case (creation_status st m,
            case joined_op st (mr_OperationID m) of
              Some x \<Rightarrow> Some (op_Validation x)
            | None \<Rightarrow> map_option pl_Validation (case mr_PipelineID m of None \<Rightarrow> None | Some k \<Rightarrow> find_row pl_ID k (db_pipelines st))) of
        (Some creationStatus, Some validation) \<Rightarrow>
          (let creationError = empty_if_null (coalesced op_Error rr_Error (joined_op st (mr_OperationID m)) (joined_run st (mr_PipelineRunID m)));
               deletionStatus = (case deletion_status st m of None \<Rightarrow> NoStatus | Some s \<Rightarrow> s);
               deletionError = empty_if_null (coalesced op_Error rr_Error (joined_op st (mr_DeletionOperationID m))
                 (joined_run st (mr_DeletionPipelineRunID m)));
               recreation = joined_run st (mr_RecreationPipelineRunID m);
               recreationStatus = (case recreation of None \<Rightarrow> NoStatus | Some r \<Rightarrow> rr_Status r);
               (state, message) = managedResourceState creationStatus creationError deletionStatus deletionError recreationStatus
                 (empty_if_null (map_option rr_Error recreation))
           in Inr \<lparr>mg_ID = mr_ID m, mg_WorkspaceID = mr_WorkspaceID m, mg_Name = mr_Name m, mg_Kind = mr_Kind m,
                mg_Provider = mr_Provider m, mg_ConnectionID = empty_if_null (mr_ConnectionID m), mg_PluginID = mr_PluginID m,
                mg_PluginVersion = mr_PluginVersion m, mg_PluginDigest = mr_PluginDigest m, mg_Spec = mr_Spec m,
                mg_OperationID = empty_if_null (mr_OperationID m), mg_PipelineID = empty_if_null (mr_PipelineID m),
                mg_PipelineRunID = empty_if_null (mr_PipelineRunID m), mg_ArtifactID = resource_artifact st m,
                mg_DeletionOperationID = empty_if_null (mr_DeletionOperationID m),
                mg_DeletionPipelineID = empty_if_null (mr_DeletionPipelineID m),
                mg_DeletionPipelineRunID = empty_if_null (mr_DeletionPipelineRunID m),
                mg_RecreationPipelineID = empty_if_null (mr_RecreationPipelineID m),
                mg_RecreationPipelineRunID = empty_if_null (mr_RecreationPipelineRunID m),
                mg_Status = maintenance_state (empty_if_null (map_option rr_Name recreation)) state,
                mg_Error = message, mg_Validation = validation\<rparr>)
      | _ \<Rightarrow> Inl (ErrInvalid ''cannot scan NULL''))"

definition GetManagedResource :: "string \<Rightarrow> Store \<Rightarrow> store_error + ManagedResource" where
  "GetManagedResource resourceID st =
     (case find_row mr_ID resourceID (db_managed st) of None \<Rightarrow> Inl ErrNotFound | Some m \<Rightarrow> scanManagedResource st m)"

text \<open>Newest first: the reverse of the order of creation.\<close>

definition ListManagedResources :: "string \<Rightarrow> Store \<Rightarrow> store_error + ManagedResource list" where
  "ListManagedResources kind st =
     fold_err (\<lambda>m result. map_sum id (\<lambda>x. result @ [x]) (scanManagedResource st m))
       (rev (filter (\<lambda>m. mr_Kind m = kind \<and> deletion_status st m \<noteq> Some Succeeded) (db_managed st))) []"

section \<open>Deletion\<close>

text \<open>A resource is in use while a resource that depends on it is not deleted.\<close>

definition in_use :: "string \<Rightarrow> Store \<Rightarrow> bool" where
  "in_use resourceID st \<longleftrightarrow>
     list_ex (\<lambda>d. mrd_DependsOnID d = resourceID \<and>
         (case find_row mr_ID (mrd_ResourceID d) (db_managed st) of
            None \<Rightarrow> False
          | Some consumer \<Rightarrow> deletion_status st consumer \<noteq> Some Succeeded)) (db_dependencies st)"

definition ended_status :: "status option \<Rightarrow> bool" where
  "ended_status s \<longleftrightarrow> (case s of None \<Rightarrow> False | Some x \<Rightarrow> terminal_status x)"

definition CreateManagedResourceDeletion :: "timestamp \<Rightarrow> string \<Rightarrow> Operation \<Rightarrow> Store \<Rightarrow> store_error + Store" where
  "CreateManagedResourceDeletion now resourceID operation st =
     (case find_row mr_ID resourceID (db_managed st) of
        None \<Rightarrow> Inl ErrNotFound
      | Some m \<Rightarrow>
          (case joined_op st (mr_OperationID m) of
             None \<Rightarrow> Inl ErrNotFound
           | Some creation \<Rightarrow>
               if \<not> terminal_status (op_Status creation) \<or> mr_DeletionOperationID m \<noteq> None then Inl ErrConflict
               else if in_use resourceID st then Inl ErrConflict
               else (case insertOperation now operation st of
                   Inl e \<Rightarrow> Inl e
                 | Inr (operation', st') \<Rightarrow>
                     (case update_one (\<lambda>m. mr_ID m = resourceID) (\<lambda>m. m\<lparr>mr_DeletionOperationID := Some (op_ID operation')\<rparr>)
                         (db_managed st') of
                        None \<Rightarrow> Inl ErrNotFound
                      | Some rows \<Rightarrow> Inr (st'\<lparr>db_managed := rows\<rparr>)))))"

definition CreateManagedPipelineResourceDeletion ::
  "timestamp \<Rightarrow> string \<Rightarrow> Pipeline \<Rightarrow> PipelineRun \<Rightarrow> Store \<Rightarrow> store_error + Store" where
  "CreateManagedPipelineResourceDeletion now resourceID pipeline run st =
     (case find_row mr_ID resourceID (db_managed st) of
        None \<Rightarrow> Inl ErrNotFound
      | Some m \<Rightarrow>
          if creation_status st m = None then Inl (ErrInvalid ''cannot scan NULL'')
          else if \<not> ended_status (creation_status st m) \<or> mr_DeletionOperationID m \<noteq> None \<or> mr_DeletionPipelineRunID m \<noteq> None
          then Inl ErrConflict
          else if in_use resourceID st then Inl ErrConflict
          else (case insertPipelineLifecycle now pipeline run st of
              Inl e \<Rightarrow> Inl e
            | Inr st' \<Rightarrow>
                (case update_one (\<lambda>m. mr_ID m = resourceID)
                    (\<lambda>m. m\<lparr>mr_DeletionPipelineID := Some (pl_ID pipeline), mr_DeletionPipelineRunID := Some (run_ID run)\<rparr>)
                    (db_managed st') of
                   None \<Rightarrow> Inl ErrNotFound
                 | Some rows \<Rightarrow> Inr (st'\<lparr>db_managed := rows\<rparr>))))"

definition failed_status :: "status option \<Rightarrow> bool" where
  "failed_status s \<longleftrightarrow> s = Some Failed \<or> s = Some Canceled"

definition ResetFailedManagedResourceDeletion :: "string \<Rightarrow> Store \<Rightarrow> store_error + Store" where
  "ResetFailedManagedResourceDeletion resourceID st =
     (case update_one
         (\<lambda>m. mr_ID m = resourceID \<and>
            (failed_status (map_option op_Status (joined_op st (mr_DeletionOperationID m))) \<or>
             failed_status (run_status st (mr_DeletionPipelineRunID m))))
         (\<lambda>m. m\<lparr>mr_DeletionOperationID := None, mr_DeletionPipelineID := None, mr_DeletionPipelineRunID := None\<rparr>) (db_managed st) of
        None \<Rightarrow> Inl ErrConflict
      | Some rows \<Rightarrow> Inr (st\<lparr>db_managed := rows\<rparr>))"

text \<open>
  Removing the row of a resource whose creation failed before any stage had an operation. Runs,
  configurations and dependencies that refer to it restrict the deletion; its own dependencies
  go with it.
\<close>

definition DeleteFailedManagedResource :: "string \<Rightarrow> Store \<Rightarrow> store_error + Store" where
  "DeleteFailedManagedResource resourceID st =
     (case find_row mr_ID resourceID (db_managed st) of
        None \<Rightarrow> Inl ErrConflict
      | Some m \<Rightarrow>
          if mr_DeletionOperationID m \<noteq> None \<or> mr_DeletionPipelineRunID m \<noteq> None \<or>
            list_ex (\<lambda>s. mr_PipelineRunID m = Some (st_RunID s) \<and> st_OperationID s \<noteq> []) (db_stages st)
          then Inl ErrConflict
          else if creation_status st m = None then Inl (ErrInvalid ''cannot scan NULL'')
          else if \<not> failed_status (creation_status st m) then Inl ErrConflict
          else if list_ex (\<lambda>r. rr_ClusterResourceID r = Some resourceID) (db_runs st) \<or>
            list_ex (\<lambda>c. ec_ClusterResourceID c = Some resourceID) (db_configurations st) \<or>
            list_ex (\<lambda>d. mrd_DependsOnID d = resourceID) (db_dependencies st)
          then Inl ErrForeignKey
          else Inr (st\<lparr>db_managed := filter (\<lambda>m. mr_ID m \<noteq> resourceID) (db_managed st),
            db_dependencies := filter (\<lambda>d. mrd_ResourceID d \<noteq> resourceID) (db_dependencies st)\<rparr>))"

section \<open>Recreation\<close>

text \<open>A queued or running run on the cluster, or an unfinished experiment that uses it.\<close>

definition experiment_uses :: "string \<Rightarrow> Store \<Rightarrow> experiment_row \<Rightarrow> bool" where
  "experiment_uses resourceID st e \<longleftrightarrow>
     list_ex (\<lambda>v. va_ExperimentID v = ex_ID e \<and>
       ((case va_ConfigurationID v of
           None \<Rightarrow> False
         | Some k \<Rightarrow>
             (case find_row ec_ID k (db_configurations st) of
                None \<Rightarrow> False
              | Some c \<Rightarrow> ec_ClusterResourceID c = Some resourceID)) \<or>
        list_ex (\<lambda>t. tr_VariantID t = va_ID v \<and>
          (case joined_run st (tr_PipelineRunID t) of None \<Rightarrow> False | Some r \<Rightarrow> rr_ClusterResourceID r = Some resourceID))
          (db_trials st))) (db_variants st)"

definition cluster_active :: "string \<Rightarrow> Store \<Rightarrow> bool" where
  "cluster_active resourceID st \<longleftrightarrow>
     list_ex (\<lambda>r. rr_ClusterResourceID r = Some resourceID \<and> (rr_Status r = Queued \<or> rr_Status r = Running)) (db_runs st) \<or>
     list_ex (\<lambda>e. cancelableExperimentStatus (ex_Status e) \<and> experiment_uses resourceID st e) (db_experiments st)"

text \<open>
  The stages of the failed attempt that a retry of the mesh stage takes over: the new run has
  the same stages, all but the last succeeded, and the last is the failed mesh stage.
\<close>

definition stage_pairs :: "string \<Rightarrow> string \<Rightarrow> Store \<Rightarrow> (PipelineRunStage \<times> PipelineRunStage) list" where
  "stage_pairs oldRunID newRunID st =
     [(old, current). old \<leftarrow> filter (\<lambda>s. st_RunID s = oldRunID) (db_stages st),
                      current \<leftarrow> filter (\<lambda>s. st_RunID s = newRunID \<and> st_Position s = st_Position old) (db_stages st)]"

definition reusable_stage :: "int \<Rightarrow> string \<Rightarrow> Store \<Rightarrow> PipelineRunStage \<Rightarrow> bool" where
  "reusable_stage n workspaceID st old \<longleftrightarrow>
     (if st_Position old = n
      then st_StageID old = ''mesh'' \<and> st_PluginID old = ''io.kubephos.cluster.cilium.mesh'' \<and>
        (st_Status old = Failed \<or> st_Status old = Canceled)
      else st_Status old = Succeeded \<and>
        (case joined_op st (null_if_empty (st_OperationID old)) of
           None \<Rightarrow> False
         | Some operation \<Rightarrow> op_Status operation = Succeeded \<and> op_WorkspaceID operation = workspaceID))"

definition reusable_run :: "string \<Rightarrow> string \<Rightarrow> nat \<Rightarrow> string \<Rightarrow> Store \<Rightarrow> bool" where
  "reusable_run oldRunID newRunID n workspaceID st \<longleftrightarrow>
     (let pairs = stage_pairs oldRunID newRunID st
      in 1 < length pairs \<and> length pairs = n \<and>
         length (filter (\<lambda>s. st_RunID s = oldRunID) (db_stages st)) = n \<and>
         failed_status (run_status st (Some oldRunID)) \<and>
         list_all (\<lambda>(old, current). st_StageID old = st_StageID current \<and> st_PluginID old = st_PluginID current) pairs \<and>
         list_all (\<lambda>(old, current). reusable_stage (int n) workspaceID st old) pairs)"

definition take_over :: "PipelineRunStage \<Rightarrow> PipelineRunStage \<Rightarrow> PipelineRunStage" where
  "take_over old current =
     current\<lparr>st_Status := st_Status old, st_OperationID := st_OperationID old, st_Spec := st_Spec old,
       st_StartedAt := st_StartedAt old, st_CompletedAt := st_CompletedAt old\<rparr>"

definition reuse_stages :: "string \<Rightarrow> string \<Rightarrow> nat \<Rightarrow> PipelineRunStage list \<Rightarrow> PipelineRunStage list" where
  "reuse_stages oldRunID newRunID n stages =
     map (\<lambda>current.
       case find (\<lambda>old. st_RunID old = oldRunID \<and> st_Position old = st_Position current \<and> st_Position old < int n) stages of
         Some old \<Rightarrow> if st_RunID current = newRunID then take_over old current else current
       | None \<Rightarrow> current) stages"

definition createManagedResourceRecreation ::
  "timestamp \<Rightarrow> string \<Rightarrow> string \<Rightarrow> RawMessage \<Rightarrow> Pipeline \<Rightarrow> PipelineRun \<Rightarrow> bool \<Rightarrow> Store \<Rightarrow> store_error + Store" where
  "createManagedResourceRecreation now resourceID expectedRunID desiredSpec pipeline run reuseCompleted st =
     (case find_row mr_ID resourceID
         (filter (\<lambda>m. mr_DeletedAt m = None \<and> mr_DeletionOperationID m = None \<and> mr_DeletionPipelineRunID m = None) (db_managed st)) of
        None \<Rightarrow> Inl ErrNotFound
      | Some m \<Rightarrow>
          let recreationRunID = empty_if_null (mr_RecreationPipelineRunID m);
              currentRunID = (if recreationRunID \<noteq> [] then recreationRunID else empty_if_null (mr_PipelineRunID m))
          in if creation_status st m = None then Inl (ErrInvalid ''cannot scan NULL'')
             else if recreationRunID \<noteq> [] \<and> \<not> failed_status (run_status st (mr_RecreationPipelineRunID m)) then Inl ErrConflict
             else if mr_Kind m \<noteq> ''kubernetes-cluster'' \<or> expectedRunID = [] \<or> currentRunID \<noteq> expectedRunID \<or>
               \<not> ended_status (creation_status st m) then Inl ErrConflict
             else if cluster_active resourceID st then Inl ErrConflict
             else (case insertPipelineLifecycle now pipeline run st of
                 Inl e \<Rightarrow> Inl e
               | Inr st' \<Rightarrow>
                   if reuseCompleted \<and> \<not> reusable_run expectedRunID (run_ID run) (length (run_Stages run)) (pl_WorkspaceID pipeline) st'
                   then Inl ErrConflict
                   else if \<not> is_doc desiredSpec then Inl ErrEncode
                   else let stages = (if reuseCompleted
                           then reuse_stages expectedRunID (run_ID run) (length (run_Stages run)) (db_stages st') else db_stages st')
                     in (case update_one (\<lambda>m. mr_ID m = resourceID)
                         (\<lambda>m. m\<lparr>mr_Spec := desiredSpec, mr_RecreationPipelineID := Some (pl_ID pipeline),
                            mr_RecreationPipelineRunID := Some (run_ID run)\<rparr>) (db_managed st') of
                        None \<Rightarrow> Inl ErrNotFound
                      | Some rows \<Rightarrow> Inr (st'\<lparr>db_managed := rows, db_stages := stages\<rparr>))))"

definition CreateManagedResourceRecreation ::
  "timestamp \<Rightarrow> string \<Rightarrow> string \<Rightarrow> RawMessage \<Rightarrow> Pipeline \<Rightarrow> PipelineRun \<Rightarrow> Store \<Rightarrow> store_error + Store" where
  "CreateManagedResourceRecreation now resourceID expectedRunID desiredSpec pipeline run st =
     createManagedResourceRecreation now resourceID expectedRunID desiredSpec pipeline run False st"

definition RetryManagedClusterMesh ::
  "timestamp \<Rightarrow> string \<Rightarrow> string \<Rightarrow> RawMessage \<Rightarrow> Pipeline \<Rightarrow> PipelineRun \<Rightarrow> Store \<Rightarrow> store_error + Store" where
  "RetryManagedClusterMesh now resourceID expectedRunID desiredSpec pipeline run st =
     createManagedResourceRecreation now resourceID expectedRunID desiredSpec pipeline run True st"

end
