(* ===== verification/RunLife.thy ===== *)
theory RunLife
  imports ManagedStore
begin

text \<open>
  The life of pipeline runs: the transactions on runs as a step relation, the exclusivity of
  running runs, the lease of a run as a refinement of a small state machine, and the operations
  of a stage.
\<close>

section \<open>Updates of the run table\<close>

text \<open>What a transaction must not change of a run, and that only a claim makes a run running.\<close>

definition run_identity :: "run_row \<Rightarrow> string \<times> string option \<times> string option \<times> string \<times> string" where
  "run_identity r = (rr_ID r, rr_ClusterResourceID r, rr_OwnerUserID r, rr_IsolationMode r, rr_ApplicationNamespace r)"

definition runs_from :: "run_row list \<Rightarrow> run_row list \<Rightarrow> bool" where
  "runs_from rows rows' \<longleftrightarrow> map rr_ID rows' = map rr_ID rows \<and>
     (\<forall>r' \<in> set rows'. rr_Status r' = Running \<longrightarrow>
        (\<exists>r \<in> set rows. rr_Status r = Running \<and> run_identity r = run_identity r'))"

lemma runs_from_refl [simp]: "runs_from rows rows"
  by (auto simp: runs_from_def)

lemma runs_from_trans: "runs_from a b \<Longrightarrow> runs_from b c \<Longrightarrow> runs_from a c"
  unfolding runs_from_def by metis

locale run_update = keyed_update rr_ID upd for upd :: "run_row \<Rightarrow> run_row" +
  assumes identity: "run_identity (upd r) = run_identity r"
    and not_started: "rr_Status (upd r) = Running \<Longrightarrow> rr_Status r = Running"
begin

lemma runs_from: "runs_from rows (update_where p upd rows)"
  unfolding runs_from_def set_update_where using identity not_started by (force simp: keys split: if_splits)

end

lemmas run_rows = claim_run_def release_run_def extend_run_def end_run_def complete_run_def terminating_run_def fail_run_def
  cancel_run_def cancel_queued_def initialize_run_def request_execution_def

interpretation release_run: run_update "release_run now delay" for now delay
  by unfold_locales (auto simp: run_rows run_identity_def)
interpretation extend_run: run_update "extend_run now" for now
  by unfold_locales (auto simp: run_rows run_identity_def)
interpretation complete_run: run_update "complete_run now artifactID" for now artifactID
  by unfold_locales (auto simp: run_rows run_identity_def)
interpretation terminating_run: run_update "terminating_run s message" for s message
  by unfold_locales (auto simp: run_rows run_identity_def)
interpretation cancel_run: run_update cancel_run
  by unfold_locales (auto simp: run_rows run_identity_def)
interpretation cancel_queued: run_update "cancel_queued now" for now
  by unfold_locales (auto simp: run_rows run_identity_def)
interpretation initialize_run: run_update "initialize_run now" for now
  by unfold_locales (auto simp: run_rows run_identity_def)
interpretation request_execution: run_update request_execution
  by unfold_locales (auto simp: run_rows run_identity_def)

lemma fail_run_update: "s = Failed \<or> s = Canceled \<Longrightarrow> run_update (fail_run now s message)"
  by unfold_locales (auto simp: run_rows run_identity_def)

interpretation fail_keyed: keyed_update rr_ID "fail_run now s message" for now s message
  by unfold_locales (simp add: run_rows)
interpretation claim_keyed: keyed_update rr_ID "claim_run now owner" for now owner
  by unfold_locales (simp add: run_rows)

section \<open>Transactions\<close>

text \<open>
  Every transaction of the program that writes runs, stages, trials, experiments or managed
  resources, and the operation transactions beside them. A stage is synchronised with the state
  of an operation, which is never \<open>Pending\<close>.
\<close>

inductive run_step :: "timestamp \<Rightarrow> Store \<Rightarrow> Store \<Rightarrow> bool" where
  create: "CreatePipelineRun now run st = Inr (run', st') \<Longrightarrow> run_step now st st'"
| create_resource: "CreateManagedPipelineResource now resource pipeline run deps st = Inr (resource', st') \<Longrightarrow> run_step now st st'"
| delete_resource: "CreateManagedPipelineResourceDeletion now k pipeline run st = Inr st' \<Longrightarrow> run_step now st st'"
| recreate_resource: "createManagedResourceRecreation now k expected spec pipeline run reuse st = Inr st' \<Longrightarrow> run_step now st st'"
| reset_deletion: "ResetFailedManagedResourceDeletion k st = Inr st' \<Longrightarrow> run_step now st st'"
| drop_failed: "DeleteFailedManagedResource k st = Inr st' \<Longrightarrow> run_step now st st'"
| claim: "ClaimPipelineRun now locked seen owner st = Some (run, st') \<Longrightarrow> run_step now st st'"
| release: "st' = ReleasePipelineRun now runID owner delay st \<Longrightarrow> run_step now st st'"
| renew: "RenewPipelineRunLease now runID owner st = Inr st' \<Longrightarrow> run_step now st st'"
| stage: "CreatePipelineStageOperation now runID k owner operation st = Inr (operation', st') \<Longrightarrow> run_step now st st'"
| sync: "op_Status operation \<noteq> Pending \<Longrightarrow> st' = SyncPipelineRunStage now k operation st \<Longrightarrow> run_step now st st'"
| cleanup: "CreatePipelineCleanupOperation now runID k owner operation st = Inr (operation', st') \<Longrightarrow> run_step now st st'"
| sync_cleanup: "op_Status operation \<noteq> Pending \<Longrightarrow> st' = SyncPipelineRunStageCleanup now k operation st \<Longrightarrow> run_step now st st'"
| skip: "SkipPipelineRunStageCleanup now runID k owner st = Inr st' \<Longrightarrow> run_step now st st'"
| fail_stage: "FailPipelineRunStage now k s message st = Inr st' \<Longrightarrow> run_step now st st'"
| complete: "CompletePipelineRun now runID owner artifactID st = Inr st' \<Longrightarrow> run_step now st st'"
| terminate: "BeginPipelineRunTermination runID owner s message st = Inr st' \<Longrightarrow> run_step now st st'"
| fail: "FailPipelineRun now runID owner s message st = Inr st' \<Longrightarrow> run_step now st st'"
| cancel: "RequestPipelineRunCancel runID st = Inr st' \<Longrightarrow> run_step now st st'"
| cancel_experiment: "RequestExperimentCancel now e st = Inr st' \<Longrightarrow> run_step now st st'"
| sync_experiment: "st' = SyncExperimentPipelineRun runID st \<Longrightarrow> run_step now st st'"
| initialized: "MarkPipelineInitialized now runID owner st = Inr st' \<Longrightarrow> run_step now st st'"
| traffic: "StartExperimentTraffic e runID st = Inr st' \<Longrightarrow> run_step now st st'"
| operation: "op_step st st' \<Longrightarrow> run_step now st st'"

inductive run_reach :: "Store \<Rightarrow> Store \<Rightarrow> bool" where
  run_here [intro]: "run_reach st st"
| run_next [intro]: "run_reach st st' \<Longrightarrow> run_step now st' st'' \<Longrightarrow> run_reach st st''"

section \<open>The lease of a run\<close>

text \<open>
  The abstract view of a run: it waits, is held by a coordinator until a time, is running but
  held by nobody, possibly with a time before which it is not to be claimed, or has ended.
\<close>

datatype run_state =
    Absent
  | Waiting
  | Held string "timestamp option"
  | Idle "timestamp option"
  | Ended status

definition abs_row :: "run_row \<Rightarrow> run_state" where
  "abs_row r =
     (if rr_Status r = Queued then Waiting
      else if rr_Status r = Running
      then (case rr_LeaseOwner r of Some owner \<Rightarrow> Held owner (rr_LeaseUntil r) | None \<Rightarrow> Idle (rr_LeaseUntil r))
      else Ended (rr_Status r))"

definition abs_run :: "string \<Rightarrow> Store \<Rightarrow> run_state" where
  "abs_run k st = (case find_row rr_ID k (db_runs st) of None \<Rightarrow> Absent | Some r \<Rightarrow> abs_row r)"

definition passed :: "timestamp \<Rightarrow> timestamp option \<Rightarrow> bool" where
  "passed now u \<longleftrightarrow> (case u of None \<Rightarrow> True | Some t \<Rightarrow> t < now)"

inductive lease_step :: "timestamp \<Rightarrow> run_state \<Rightarrow> run_state \<Rightarrow> bool" where
  create: "lease_step now Absent Waiting"
| claim: "lease_step now Waiting (Held owner (Some (now + 15)))"
| resume: "passed now u \<Longrightarrow> lease_step now (Idle u) (Held owner (Some (now + 15)))"
| take_over: "passed now u \<Longrightarrow> lease_step now (Held other u) (Held owner (Some (now + 15)))"
| renew: "now < t \<Longrightarrow> lease_step now (Held owner (Some t)) (Held owner (Some (now + 15)))"
| release: "u = None \<or> (\<exists>d > 0. u = Some (now + d)) \<Longrightarrow> lease_step now (Held owner v) (Idle u)"
| finish: "terminal_status s \<Longrightarrow> lease_step now (Held owner u) (Ended s)"
| drop: "lease_step now Waiting (Ended Canceled)"

inductive_cases lease_step_EndedE: "lease_step now (Ended s) x"
inductive_cases lease_step_HeldE: "lease_step now (Held owner (Some t)) x"

definition lease_step_or_stay :: "timestamp \<Rightarrow> run_state \<Rightarrow> run_state \<Rightarrow> bool" where
  "lease_step_or_stay now x y \<longleftrightarrow> x = y \<or> lease_step now x y"

lemma lease_stay [simp]: "lease_step_or_stay now x x"
  by (simp add: lease_step_or_stay_def)

lemma abs_rows [simp]:
  "abs_row (cancel_run r) = abs_row r" "abs_row (terminating_run s message r) = abs_row r"
  "abs_row (initialize_run now r) = abs_row r" "abs_row (request_execution r) = abs_row r"
  "terminal_status s \<Longrightarrow> abs_row (fail_run now s message r) = Ended s"
  "abs_row (complete_run now artifactID r) = Ended Succeeded" "abs_row (cancel_queued now r) = Ended Canceled"
  "abs_row (claim_run now owner r) = Held owner (Some (now + 15))" "abs_row (new_run now pause run) = Waiting"
  by (auto simp: abs_row_def run_rows terminal_status_def new_run_def run_lease_seconds_def split: option.splits)

lemma owned_run_abs: "owned_run runID owner r \<Longrightarrow> abs_row r = Held owner (rr_LeaseUntil r)"
  by (simp add: owned_run_def abs_row_def)

text \<open>Two updates in a row of which the second leaves the rows of the first alone are one update.\<close>

lemma update_where_seq:
  "\<forall>r. p r \<longrightarrow> \<not> q (f r) \<Longrightarrow>
     update_where q g (update_where p f rows) = update_where (\<lambda>r. p r \<or> q r) (\<lambda>r. if p r then f r else g r) rows"
  by (induction rows) auto

lemma insert_run_Inr:
  "insert_run r st = Inr st' \<longleftrightarrow> \<not> cluster_unavailable st r \<and>
     (rr_IsolationMode r = ''namespaced'' \<or> rr_IsolationMode r = ''exclusive'') \<and> length (rr_PipelineHash r) = 64 \<and>
     rr_ID r \<notin> rr_ID ` set (db_runs st) \<and> st' = st\<lparr>db_runs := db_runs st @ [r]\<rparr>"
  by (auto simp: insert_run_def)

lemma insert_stages_runs: "insert_stages run st = Inr st' \<Longrightarrow> db_runs st' = db_runs st"
  by (auto simp: insert_stages_def split: sum.splits)

lemma insertPipelineLifecycle_runs:
  assumes "insertPipelineLifecycle now pipeline run st = Inr st'"
  shows "db_runs st' = db_runs st @ [new_run now [] run]" "run_ID run \<notin> rr_ID ` set (db_runs st)"
  using assms
  by (auto simp: insertPipelineLifecycle_def insert_pipeline_def insert_run_Inr new_run_def
      dest!: insert_stages_runs split: sum.splits if_splits)

lemma insert_managed_frame: "insert_managed m st = Inr st' \<Longrightarrow> st' = st\<lparr>db_managed := db_managed st @ [m]\<rparr>"
  by (auto simp: insert_managed_def split: if_splits option.splits)

lemma insert_dependencies_frame:
  "fold_err (insert_dependency k) deps st = Inr st' \<Longrightarrow>
     db_runs st' = db_runs st \<and> db_stages st' = db_stages st \<and> db_managed st' = db_managed st"
  by (induction deps arbitrary: st) (fastforce simp: insert_dependency_def split: if_splits sum.splits)+

text \<open>
  What a transaction does to the table of runs: nothing, a new row, a claim, or an update that
  keeps the identity of runs, starts none, and moves each run along the lease machine.
\<close>

definition lease_update :: "timestamp \<Rightarrow> (run_row \<Rightarrow> bool) \<Rightarrow> (run_row \<Rightarrow> run_row) \<Rightarrow> bool" where
  "lease_update now p f \<longleftrightarrow> run_update f \<and> (\<forall>r. p r \<longrightarrow> lease_step_or_stay now (abs_row r) (abs_row (f r)))"

lemma lease_update_stay: "run_update f \<Longrightarrow> (\<And>r. abs_row (f r) = abs_row r) \<Longrightarrow> lease_update now p f"
  by (simp add: lease_update_def)

lemma lease_update_finish:
  "run_update f \<Longrightarrow> (\<And>r. p r \<Longrightarrow> owned_run runID owner r) \<Longrightarrow> (\<And>r. abs_row (f r) = Ended s) \<Longrightarrow> terminal_status s \<Longrightarrow>
     lease_update now p f"
  unfolding lease_update_def lease_step_or_stay_def by (metis lease_step.finish owned_run_abs)

lemma lease_update_drop:
  "run_update f \<Longrightarrow> (\<And>r. p r \<Longrightarrow> rr_Status r = Queued) \<Longrightarrow> (\<And>r. abs_row (f r) = Ended Canceled) \<Longrightarrow> lease_update now p f"
  by (auto simp: lease_update_def lease_step_or_stay_def abs_row_def intro: lease_step.drop)

lemma lease_update_seq:
  assumes "lease_update now p f" "lease_update now q g"
  shows "lease_update now (\<lambda>r. p r \<or> q r) (\<lambda>r. if p r then f r else g r)"
proof -
  from assms have f: "run_update f" and g: "run_update g" by (auto simp: lease_update_def)
  have "run_update (\<lambda>r. if p r then f r else g r)"
  proof
    fix r
    show same: "run_identity (if p r then f r else g r) = run_identity r"
      by (simp add: run_update.identity [OF f] run_update.identity [OF g])
    then show "rr_ID (if p r then f r else g r) = rr_ID r" by (simp add: run_identity_def)
    show "rr_Status r = Running" if "rr_Status (if p r then f r else g r) = Running"
      using that run_update.not_started [OF f, of r] run_update.not_started [OF g, of r] by (simp split: if_splits)
  qed
  with assms show ?thesis by (auto simp: lease_update_def)
qed

inductive runs_change :: "timestamp \<Rightarrow> Store \<Rightarrow> run_row list \<Rightarrow> bool" where
  same: "runs_change now st (db_runs st)"
| insert: "run_ID run \<notin> rr_ID ` set (db_runs st) \<Longrightarrow> runs_change now st (db_runs st @ [new_run now pause run])"
| claim: "find_row rr_ID (rr_ID r) (db_runs st) = Some r \<Longrightarrow> rr_Status r = Queued \<or> rr_Status r = Running \<Longrightarrow>
    passed now (rr_LeaseUntil r) \<Longrightarrow> \<not> claim_rejected st r \<Longrightarrow>
    runs_change now st (update_where (is_run (rr_ID r)) (claim_run now owner) (db_runs st))"
| update: "lease_update now p f \<Longrightarrow> runs_change now st (update_where p f (db_runs st))"

lemma op_step_frame: "op_step st st' \<Longrightarrow> db_runs st' = db_runs st \<and> db_stages st' = db_stages st"
  by (induction rule: op_step.induct)
    (auto simp: insert_rows_def AppendLog_def QueueOperation_def ClaimOperation_def SetOperationStatus_def SetStepState_def
      CompleteOperation_def FailOperation_def RequestCancel_def RenewLease_def FailExpiredOperations_def CreateArtifact_def Let_def
      split: if_splits sum.splits option.splits)

lemma AppendLog_frame: "AppendLog a b c d e st = Inr st' \<Longrightarrow> db_runs st' = db_runs st \<and> db_stages st' = db_stages st"
  by (auto simp: AppendLog_def split: if_splits)

lemma insert_rows_frame: "insert_rows now s q operation st = Inr st' \<Longrightarrow> db_runs st' = db_runs st \<and> db_stages st' = db_stages st"
  by (auto simp: insert_rows_def split: if_splits sum.splits)

lemma claim_run_change:
  assumes "ClaimPipelineRun now locked seen owner st = Some (run, st')"
  shows "\<exists>r. find_row rr_ID (rr_ID r) (db_runs st) = Some r \<and> candidate now seen r \<and> \<not> claim_rejected st r \<and>
    st' = st\<lparr>db_runs := update_where (is_run (rr_ID r)) (claim_run now owner) (db_runs st)\<rparr> \<and> run_ID run = rr_ID r"
proof -
  from assms obtain c cs where c: "run_candidates now locked seen st = c # cs" by (auto simp: ClaimPipelineRun_def split: list.splits)
  then have "c \<in> set (run_candidates now locked seen st)" by simp
  then have "case find_row rr_ID (rr_ID c) (db_runs st) of None \<Rightarrow> False | Some r' \<Rightarrow> candidate now seen r'"
    by (simp add: run_candidates_def)
  then obtain r where r: "find_row rr_ID (rr_ID c) (db_runs st) = Some r" "candidate now seen r" by (auto split: option.splits)
  then have key: "rr_ID r = rr_ID c" by (auto dest: find_row_key)
  let ?st = "st\<lparr>db_runs := update_where (is_run (rr_ID r)) (claim_run now owner) (db_runs st)\<rparr>"
  from assms c r have "\<not> claim_rejected st r" "GetPipelineRun (rr_ID r) ?st = Inr run" "st' = ?st"
    by (auto simp: ClaimPipelineRun_def Let_def split: if_splits sum.splits)
  moreover from this(2) have "run_ID run = rr_ID r"
    by (auto simp: GetPipelineRun_def scanPipelineRun_def dest: find_row_key split: option.splits)
  ultimately show ?thesis using r unfolding key [symmetric] by blast
qed

lemma fail_run_effect:
  assumes "FailPipelineRun now runID owner s message st = Inr st'"
  shows "runs_change now st (db_runs st')"
proof -
  let ?p = "owned_run runID owner" and ?f = "fail_run now s message" and ?g = "fail_run now Canceled RunStore.not_started"
  let ?st = "st\<lparr>db_runs := update_where ?p ?f (db_runs st)\<rparr>"
  from assms have s: "s = Failed \<or> s = Canceled" and st': "st' = cancel_later now runID ?st"
    by (auto simp: FailPipelineRun_def update_one_Some split: if_splits option.splits)
  from s have run: "run_update ?f" "run_update ?g" and ends: "terminal_status s" by (auto intro: fail_run_update simp: terminal_status_def)
  have "\<not> later_run ?st runID (?f r)" for r using s by (auto simp: later_run_def run_rows)
  then have "db_runs st' = update_where (\<lambda>r. ?p r \<or> later_run ?st runID r) (\<lambda>r. if ?p r then ?f r else ?g r) (db_runs st)"
    by (simp add: st' cancel_later_def Let_def update_where_seq)
  moreover have "lease_update now ?p ?f"
    using run ends by (intro lease_update_finish) (auto simp: terminal_status_def)
  moreover have "lease_update now (later_run ?st runID) ?g"
    using run by (intro lease_update_drop) (auto simp: later_run_def terminal_status_def)
  ultimately show ?thesis by (simp add: lease_update_seq runs_change.update)
qed

lemma cancel_experiment_effect:
  assumes "RequestExperimentCancel now e st = Inr st'"
  shows "runs_change now st (db_runs st')"
proof -
  let ?p = "\<lambda>r. run_in st e (rr_ID r) \<and> rr_Status r = Queued"
  let ?st1 = "cancel_pending_stages now e (cancel_queued_runs now e st)"
  let ?q = "\<lambda>r. run_in ?st1 e (rr_ID r) \<and> rr_Status r = Running"
  from assms have "db_runs st' = update_where ?q cancel_run (update_where ?p (cancel_queued now) (db_runs st))"
    by (auto simp: RequestExperimentCancel_def Let_def set_experiment_def cancel_queued_trials_def cancel_running_runs_def
        cancel_pending_stages_def cancel_queued_runs_def split: option.splits if_splits)
  also have "\<dots> = update_where (\<lambda>r. ?p r \<or> ?q r) (\<lambda>r. if ?p r then cancel_queued now r else cancel_run r) (db_runs st)"
    by (rule update_where_seq) (simp add: run_rows)
  moreover have "lease_update now ?p (cancel_queued now)"
    by (rule lease_update_drop) (auto intro: cancel_queued.run_update_axioms)
  moreover have "lease_update now ?q cancel_run"
    by (rule lease_update_stay) (auto intro: cancel_run.run_update_axioms)
  ultimately show ?thesis by (simp add: lease_update_seq runs_change.update)
qed

lemma release_effect: "lease_update now (\<lambda>r. is_run runID r \<and> rr_LeaseOwner r = Some owner) (release_run now delay)"
  using release_run.run_update_axioms
  by (auto simp: lease_update_def lease_step_or_stay_def abs_row_def release_run_def intro!: lease_step.release)

lemma renew_effect: "lease_update now (\<lambda>r. is_run runID r \<and> lease_valid now owner r) (extend_run now)"
  using extend_run.run_update_axioms
  by (auto simp: lease_update_def lease_step_or_stay_def abs_row_def extend_run_def lease_valid_def run_lease_seconds_def
      intro!: lease_step.renew split: option.splits)

lemma complete_effect: "lease_update now (\<lambda>r. owned_run runID owner r \<and> stages_succeeded runID st) (complete_run now artifactID)"
  by (rule lease_update_finish) (auto intro: complete_run.run_update_axioms simp: terminal_status_def)

lemmas stay_effects =
  lease_update_stay [OF terminating_run.run_update_axioms] lease_update_stay [OF cancel_run.run_update_axioms]
  lease_update_stay [OF initialize_run.run_update_axioms] lease_update_stay [OF request_execution.run_update_axioms]

lemma runs_change_same: "db_runs st' = db_runs st \<Longrightarrow> runs_change now st (db_runs st')"
  by (simp add: runs_change.same)

lemma runs_change_update: "lease_update now p f \<Longrightarrow> db_runs st' = update_where p f (db_runs st) \<Longrightarrow> runs_change now st (db_runs st')"
  by (simp add: runs_change.update)

lemma runs_change_insert:
  "db_runs st' = db_runs st @ [new_run now pause run] \<Longrightarrow> run_ID run \<notin> rr_ID ` set (db_runs st) \<Longrightarrow> runs_change now st (db_runs st')"
  by (simp add: runs_change.insert)

lemma run_step_runs: "run_step now st st' \<Longrightarrow> runs_change now st (db_runs st')"
proof (induction rule: run_step.induct)
  case (create now run st run' st')
  then obtain st1 where "insert_run (new_run now (run_PauseBeforeStage run) run) st = Inr st1" "insert_stages run st1 = Inr st'"
    by (auto simp: CreatePipelineRun_def Let_def split: option.splits if_splits sum.splits)
  then show ?case by (intro runs_change_insert) (auto simp: insert_run_Inr new_run_def dest: insert_stages_runs)
next
  case (create_resource now resource pipeline run deps st resource' st')
  then obtain st1 st2 where st1: "insertPipelineLifecycle now pipeline run st = Inr st1"
    and "insert_managed (new_managed resource None (Some (pl_ID pipeline)) (Some (run_ID run))) st1 = Inr st2"
    and "fold_err (insert_dependency (mg_ID resource)) deps st2 = Inr st'"
    by (auto simp: CreateManagedPipelineResource_def split: sum.splits)
  then have "db_runs st' = db_runs st1" by (auto dest!: insert_managed_frame insert_dependencies_frame)
  with insertPipelineLifecycle_runs [OF st1] show ?case by (intro runs_change_insert) auto
next
  case (delete_resource now k pipeline run st st')
  then obtain st1 where st1: "insertPipelineLifecycle now pipeline run st = Inr st1" and "db_runs st' = db_runs st1"
    by (auto simp: CreateManagedPipelineResourceDeletion_def split: option.splits if_splits sum.splits)
  with insertPipelineLifecycle_runs [OF st1] show ?case by (intro runs_change_insert) auto
next
  case (recreate_resource now k expected spec pipeline run reuse st st')
  then obtain st1 where st1: "insertPipelineLifecycle now pipeline run st = Inr st1" and "db_runs st' = db_runs st1"
    by (auto simp: createManagedResourceRecreation_def Let_def split: option.splits if_splits sum.splits)
  with insertPipelineLifecycle_runs [OF st1] show ?case by (intro runs_change_insert) auto
next
  case (claim now locked seen owner st run st')
  from claim_run_change [OF claim.hyps] show ?case
    by (auto simp: candidate_def passed_def intro!: runs_change.claim split: option.splits)
next
  case (release st' now runID owner delay st)
  then show ?case by (intro runs_change_update [OF release_effect]) (simp add: ReleasePipelineRun_def)
next
  case (renew now runID owner st st')
  then show ?case
    by (intro runs_change_update [OF renew_effect]) (auto simp: RenewPipelineRunLease_def update_one_Some split: option.splits)
next
  case (complete now runID owner artifactID st st')
  then show ?case
    by (intro runs_change_update [OF complete_effect [of now runID owner st artifactID]])
      (auto simp: CompletePipelineRun_def update_one_Some split: option.splits if_splits)
next
  case (terminate runID owner s message st st' now)
  then show ?case
    by (intro runs_change_update [OF stay_effects(1) [of s message]])
      (auto simp: BeginPipelineRunTermination_def update_one_Some split: option.splits if_splits)
next
  case (cancel runID st st' now)
  then show ?case
    by (intro runs_change_update [OF stay_effects(2)]) (auto simp: RequestPipelineRunCancel_def update_one_Some split: option.splits)
next
  case (initialized now runID owner st st')
  then show ?case
    by (intro runs_change_update [OF stay_effects(3)]) (auto simp: MarkPipelineInitialized_def update_one_Some split: option.splits)
next
  case (traffic e runID st st' now)
  then show ?case
    by (intro runs_change_update [OF stay_effects(4)])
      (auto simp: StartExperimentTraffic_def update_one_Some set_experiment_def Let_def split: option.splits if_splits)
next
  case (stage now runID k owner operation st operation' st')
  then show ?case
    by (intro runs_change_same)
      (auto simp: CreatePipelineStageOperation_def dest!: AppendLog_frame insert_rows_frame split: option.splits if_splits sum.splits)
next
  case (cleanup now runID k owner operation st operation' st')
  then show ?case
    by (intro runs_change_same)
      (auto simp: CreatePipelineCleanupOperation_def dest!: AppendLog_frame insert_rows_frame split: option.splits if_splits sum.splits)
next
  case (sync_experiment st' runID st now)
  then show ?case
    by (intro runs_change_same) (auto simp: SyncExperimentPipelineRun_def set_experiment_def Let_def split: option.splits)
next
  case (operation st st' now)
  then show ?case by (intro runs_change_same) (auto dest: op_step_frame)
next
  case (fail now runID owner s message st st')
  then show ?case by (rule fail_run_effect)
next
  case (cancel_experiment now e st st')
  then show ?case by (rule cancel_experiment_effect)
qed (intro runs_change_same; auto simp: ResetFailedManagedResourceDeletion_def DeleteFailedManagedResource_def
    SyncPipelineRunStage_def SyncPipelineRunStageCleanup_def SkipPipelineRunStageCleanup_def FailPipelineRunStage_def
    split: option.splits if_splits)+

lemma abs_change:
  assumes "runs_change now st rows" "db_runs st' = rows"
  shows "lease_step_or_stay now (abs_run k st) (abs_run k st')"
  using assms
proof (cases rule: runs_change.cases)
  case (insert run pause)
  have key: "rr_ID (new_run now pause run) = run_ID run" by (simp add: new_run_def)
  show ?thesis
  proof (cases "find_row rr_ID k (db_runs st)")
    case None
    with insert assms(2) key show ?thesis
      by (simp add: abs_run_def find_row_append lease_step_or_stay_def lease_step.create)
  next
    case (Some r)
    with insert assms(2) show ?thesis by (simp add: abs_run_def find_row_append)
  qed
next
  case (claim r owner)
  have "lease_step now (abs_row r) (Held owner (Some (now + 15)))"
    using claim(3,4) by (auto simp: abs_row_def intro: lease_step.intros split: option.splits)
  then show ?thesis using claim(1,2) assms(2)
    by (cases "k = rr_ID r")
      (auto simp: abs_run_def claim_keyed.find_updated is_run_def lease_step_or_stay_def split: option.splits dest: find_row_key)
next
  case (update p f)
  then have f: "run_update f" and "\<forall>r. p r \<longrightarrow> lease_step_or_stay now (abs_row r) (abs_row (f r))"
    by (auto simp: lease_update_def)
  then show ?thesis using update(1) assms(2) run_update.axioms(1) [OF f, THEN keyed_update.find_updated]
    by (auto simp: abs_run_def split: option.splits)
qed (use assms in \<open>auto simp: abs_run_def\<close>)


section \<open>Exclusive runs\<close>

text \<open>
  Two running runs have different owners, and on one cluster neither is exclusive and they use
  different namespaces.
\<close>

definition compatible :: "run_row \<Rightarrow> run_row \<Rightarrow> bool" where
  "compatible a b \<longleftrightarrow>
     (rr_OwnerUserID a \<noteq> None \<longrightarrow> rr_OwnerUserID a \<noteq> rr_OwnerUserID b) \<and>
     (rr_ClusterResourceID a \<noteq> None \<and> rr_ClusterResourceID a = rr_ClusterResourceID b \<longrightarrow>
        \<not> excludes a b \<and> \<not> same_namespace a b)"

definition runs_exclusive :: "run_row list \<Rightarrow> bool" where
  "runs_exclusive rows \<longleftrightarrow> distinct (map rr_ID rows) \<and>
     (\<forall>a \<in> set rows. \<forall>b \<in> set rows. rr_Status a = Running \<and> rr_Status b = Running \<and> rr_ID a \<noteq> rr_ID b \<longrightarrow> compatible a b)"

lemma compatible_sym: "compatible a b \<Longrightarrow> compatible b a"
  by (auto simp: compatible_def excludes_def same_namespace_def)

lemma compatible_identity:
  "run_identity a = run_identity a' \<Longrightarrow> run_identity b = run_identity b' \<Longrightarrow> compatible a b \<Longrightarrow> compatible a' b'"
  by (auto simp: compatible_def run_identity_def excludes_def same_namespace_def)

lemma identity_ID: "run_identity a = run_identity b \<Longrightarrow> rr_ID a = rr_ID b"
  by (simp add: run_identity_def)

lemma runs_exclusive_from:
  assumes "runs_exclusive rows" "runs_from rows rows'"
  shows "runs_exclusive rows'"
  unfolding runs_exclusive_def
proof (intro conjI ballI impI)
  show "distinct (map rr_ID rows')" using assms by (simp add: runs_exclusive_def runs_from_def)
  fix a b assume ab: "a \<in> set rows'" "b \<in> set rows'" "rr_Status a = Running \<and> rr_Status b = Running \<and> rr_ID a \<noteq> rr_ID b"
  with assms(2) obtain a' b' where "a' \<in> set rows" "b' \<in> set rows" "rr_Status a' = Running" "rr_Status b' = Running"
    and same: "run_identity a' = run_identity a" "run_identity b' = run_identity b" unfolding runs_from_def by blast
  moreover from this ab have "rr_ID a' \<noteq> rr_ID b'" by (auto dest!: identity_ID)
  ultimately have "compatible a' b'" using assms(1) by (simp add: runs_exclusive_def)
  with same show "compatible a b" by (rule compatible_identity)
qed

text \<open>The guards of a claim compare the claimed run with every other running run.\<close>

lemma claim_accepted_compatible:
  assumes "\<not> claim_rejected st r" "rr_Status r \<noteq> Running" "a \<in> set (db_runs st)" "rr_Status a = Running" "rr_ID a \<noteq> rr_ID r"
  shows "compatible r a"
  using assms by (auto simp: compatible_def claim_rejected_def owner_busy_def cluster_busy_def list_ex_iff)

lemma claim_identity: "run_identity (claim_run now owner r) = run_identity r"
  by (simp add: run_identity_def claim_run_def)

lemma runs_exclusive_claim:
  assumes "runs_exclusive (db_runs st)" "r \<in> set (db_runs st)" "\<not> claim_rejected st r"
  shows "runs_exclusive (update_where (is_run (rr_ID r)) (claim_run now owner) (db_runs st))" (is "runs_exclusive ?rows")
  unfolding runs_exclusive_def
proof (intro conjI ballI impI)
  from assms(1) have dist: "distinct (map rr_ID (db_runs st))" by (simp add: runs_exclusive_def)
  then show "distinct (map rr_ID ?rows)" by (rule claim_keyed.distinct_keys)
  have row: "x = claim_run now owner r \<or> x \<in> set (db_runs st) \<and> rr_ID x \<noteq> rr_ID r" if "x \<in> set ?rows" for x
    using that dist assms(2) by (auto simp: set_update_where is_run_def inj_on_eq_iff distinct_map)
  have new: "compatible (claim_run now owner r) x" if "x \<in> set (db_runs st)" "rr_Status x = Running" "rr_ID x \<noteq> rr_ID r" for x
  proof -
    have "compatible r x"
      using assms that claim_accepted_compatible [of st r x] by (cases "rr_Status r = Running") (auto simp: runs_exclusive_def)
    then show ?thesis by (rule compatible_identity [OF claim_identity [symmetric] refl])
  qed
  fix a b assume "a \<in> set ?rows" "b \<in> set ?rows" and ab: "rr_Status a = Running \<and> rr_Status b = Running \<and> rr_ID a \<noteq> rr_ID b"
  with row have "a = claim_run now owner r \<or> a \<in> set (db_runs st) \<and> rr_ID a \<noteq> rr_ID r"
    "b = claim_run now owner r \<or> b \<in> set (db_runs st) \<and> rr_ID b \<noteq> rr_ID r" by blast+
  then show "compatible a b"
    using ab new [of a] new [of b] assms(1) by (auto simp: runs_exclusive_def claim_keyed.keeps_key intro: compatible_sym)
qed

lemma runs_exclusive_change:
  assumes "runs_change now st rows" "runs_exclusive (db_runs st)"
  shows "runs_exclusive rows"
  using assms(1)
proof (cases rule: runs_change.cases)
  case (insert run pause)
  then show ?thesis using assms(2) by (auto simp: runs_exclusive_def new_run_def)
next
  case (claim r owner)
  then show ?thesis using assms(2) by (auto intro!: runs_exclusive_claim dest: find_row_key)
next
  case (update p f)
  then show ?thesis using assms(2) by (auto simp: lease_update_def intro: runs_exclusive_from run_update.runs_from)
qed (use assms(2) in simp)

text \<open>
  C3: Whatever transactions run, and whatever older snapshot of the database each claim chose its
  candidate from, no two runs of one owner are running at the same time, an exclusive run shares
  its cluster with no other running run, and no two running runs use one namespace of a cluster.
\<close>

theorem running_runs_exclusive:
  assumes "run_reach st st'" "runs_exclusive (db_runs st)"
  shows "runs_exclusive (db_runs st')"
  using assms by (induction rule: run_reach.induct) (auto intro: runs_exclusive_change [OF run_step_runs])

section \<open>Witnesses\<close>

definition sample_run :: "string \<Rightarrow> string option \<Rightarrow> status \<Rightarrow> timestamp \<Rightarrow> run_row" where
  "sample_run k cluster s due =
     \<lparr>rr_ID = k, rr_PipelineID = ''pipe_1'', rr_WorkspaceID = ''ws_1'', rr_ClusterResourceID = cluster,
      rr_OwnerUserID = Some (''user of '' @ k), rr_IsolationMode = ''exclusive'', rr_Name = k, rr_Status = s,
      rr_PipelineHash = replicate 64 CHR ''a'', rr_ResultType = [], rr_ResultVersion = [], rr_ResultArtifactID = None,
      rr_CancelRequested = False, rr_TerminalStatus = None, rr_Error = [], rr_CreatedAt = 1, rr_QueuedAt = 1,
      rr_ScheduledFor = due, rr_StartedAt = None, rr_CompletedAt = None, rr_PauseBeforeStage = [],
      rr_ExecutionRequested = False, rr_InitializedAt = None, rr_ApplicationNamespace = [], rr_LeaseOwner = None,
      rr_LeaseUntil = None\<rparr>"

definition sample_runs :: Store where
  "sample_runs = empty_store\<lparr>db_runs := [sample_run ''run_1'' None Queued 2]\<rparr>"

definition sample_claimed :: Store where
  "sample_claimed = sample_runs\<lparr>db_runs := [claim_run 5 ''w-pipelines'' (sample_run ''run_1'' None Queued 2)]\<rparr>"

lemma sample_claim_step: "run_step 5 sample_runs sample_claimed"
proof (rule run_step.claim)
  show "ClaimPipelineRun 5 (\<lambda>_. False) sample_runs ''w-pipelines'' sample_runs =
      Some (scanPipelineRun (claim_run 5 ''w-pipelines'' (sample_run ''run_1'' None Queued 2)), sample_claimed)"
    by (simp add: sample_runs_def sample_claimed_def ClaimPipelineRun_def run_candidates_def candidate_def sample_run_def empty_store_def
        earlier_unfinished_def trial_of_def owner_busy_def cluster_busy_def claim_rejected_def cluster_unavailable_def is_run_def
        GetPipelineRun_def claim_run_def listPipelineRunStages_def scanPipelineRun_def)
qed


theorem running_runs_exclusive_witness:
  "run_reach sample_runs sample_claimed \<and> runs_exclusive (db_runs sample_runs) \<and> runs_exclusive (db_runs sample_claimed)"
proof -
  have reach: "run_reach sample_runs sample_claimed" by (blast intro: sample_claim_step)
  have "runs_exclusive (db_runs sample_runs)" by (simp add: runs_exclusive_def sample_runs_def sample_run_def)
  with running_runs_exclusive [OF reach] reach show ?thesis by blast
qed

end
