(* ===== verification/StageLife.thy ===== *)
theory StageLife
  imports RunLife
begin

text \<open>
  The stages of a run: every stage gets at most one operation and at most one cleanup operation,
  a completed run has only succeeded stages, and a failed run takes the later trials of its
  experiment with it.
\<close>

section \<open>Updates of the stage table\<close>

definition stage_ok :: "PipelineRunStage \<Rightarrow> bool" where
  "stage_ok s \<longleftrightarrow> (st_Status s = Pending \<longrightarrow> st_OperationID s = []) \<and> (st_CleanupStatus s = Pending \<longrightarrow> st_CleanupOperationID s = [])"

definition stages_ok :: "Store \<Rightarrow> bool" where
  "stages_ok st \<longleftrightarrow> distinct (map st_ID (db_stages st)) \<and>
     (\<forall>s \<in> set (db_stages st). stage_ok s \<and> st_RunID s \<in> rr_ID ` set (db_runs st))"

text \<open>An operation, once given, stays.\<close>

definition stage_kept :: "PipelineRunStage \<Rightarrow> PipelineRunStage \<Rightarrow> bool" where
  "stage_kept s s' \<longleftrightarrow> st_RunID s' = st_RunID s \<and>
     (st_OperationID s \<noteq> [] \<longrightarrow> st_OperationID s' = st_OperationID s) \<and>
     (st_CleanupOperationID s \<noteq> [] \<longrightarrow> st_CleanupOperationID s' = st_CleanupOperationID s)"

definition stages_kept :: "PipelineRunStage list \<Rightarrow> PipelineRunStage list \<Rightarrow> bool" where
  "stages_kept rows rows' \<longleftrightarrow>
     (\<forall>k s. find_row st_ID k rows = Some s \<longrightarrow> (\<exists>s'. find_row st_ID k rows' = Some s' \<and> stage_kept s s'))"

lemma stage_kept_refl [simp]: "stage_kept s s"
  by (simp add: stage_kept_def)

lemma stages_kept_refl [simp]: "stages_kept rows rows"
  by (simp add: stages_kept_def)

lemma stages_kept_append: "stages_kept rows (rows @ new)"
  by (simp add: stages_kept_def find_row_append)

lemma stages_kept_trans: "stages_kept a b \<Longrightarrow> stages_kept b c \<Longrightarrow> stages_kept a c"
  unfolding stages_kept_def stage_kept_def by metis

text \<open>A stage update that keeps the key and, on the rows it applies to, the invariant and the operations.\<close>

locale stage_update = keyed_update st_ID upd for upd :: "PipelineRunStage \<Rightarrow> PipelineRunStage" +
  fixes p :: "PipelineRunStage \<Rightarrow> bool"
  assumes keeps: "p s \<Longrightarrow> stage_ok s \<Longrightarrow> stage_ok (upd s) \<and> stage_kept s (upd s)"
begin

lemma updated: "stage_ok s \<Longrightarrow> stage_ok (if p s then upd s else s) \<and> stage_kept s (if p s then upd s else s)"
  using keeps by simp

lemma stages_kept: "\<forall>s \<in> set rows. stage_ok s \<Longrightarrow> stages_kept rows (update_where p upd rows)"
  unfolding stages_kept_def find_updated using keeps by (auto dest!: find_row_key)

lemma stages_ok:
  assumes "stages_ok st" "db_stages st' = update_where p upd (db_stages st)" "db_runs st' = db_runs st"
  shows "stages_ok st' \<and> stages_kept (db_stages st) (db_stages st')"
proof
  have "stage_ok s \<and> st_RunID s \<in> rr_ID ` set (db_runs st)" if "s \<in> set (update_where p upd (db_stages st))" for s
  proof -
    from that obtain s0 where "s0 \<in> set (db_stages st)" "s = (if p s0 then upd s0 else s0)" by (auto simp: set_update_where)
    with assms(1) updated [of s0] show ?thesis unfolding stages_ok_def stage_kept_def by metis
  qed
  with assms show "stages_ok st'" by (simp add: stages_ok_def keys)
  show "stages_kept (db_stages st) (db_stages st')" using assms stages_kept by (simp add: stages_ok_def)
qed

end

lemmas stage_rows = start_stage_def sync_stage_def start_cleanup_def sync_cleanup_def skip_cleanup_def fail_stage_def

lemma synced_not_pending: "s \<noteq> Pending \<Longrightarrow> synced_status s \<noteq> Pending"
  by (simp add: synced_status_def)

interpretation start_stage: stage_update "start_stage now operation" "\<lambda>s. st_ID s = k \<and> st_Status s = Pending" for now operation k
  by unfold_locales (auto simp: stage_rows stage_ok_def stage_kept_def)
interpretation start_cleanup: stage_update "start_cleanup now operation" "\<lambda>s. st_ID s = k \<and> st_CleanupStatus s = Pending"
  for now operation k
  by unfold_locales (auto simp: stage_rows stage_ok_def stage_kept_def)
interpretation skip_cleanup: stage_update "skip_cleanup now" p for now p
  by unfold_locales (auto simp: stage_rows stage_ok_def stage_kept_def)

lemma sync_stage_update: "op_Status operation \<noteq> Pending \<Longrightarrow> stage_update (sync_stage now operation) p"
  by unfold_locales (auto simp: stage_rows stage_ok_def stage_kept_def Let_def synced_not_pending)

lemma sync_cleanup_update: "op_Status operation \<noteq> Pending \<Longrightarrow> stage_update (sync_cleanup now operation) p"
  by unfold_locales (auto simp: stage_rows stage_ok_def stage_kept_def Let_def synced_not_pending)

lemma fail_stage_update: "s = Failed \<or> s = Canceled \<Longrightarrow> stage_update (fail_stage now s message) p"
  by unfold_locales (auto simp: stage_rows stage_ok_def stage_kept_def)

section \<open>New stages\<close>

lemma insert_stage_all:
  "fold_err insert_stage xs rows = Inr rows' \<Longrightarrow>
     rows' = rows @ xs \<and> (distinct (map st_ID rows) \<longrightarrow> distinct (map st_ID rows'))"
proof (induction xs arbitrary: rows)
  case (Cons s xs)
  then have "\<forall>x \<in> set rows. \<not> stage_clash s x" "fold_err insert_stage xs (rows @ [s]) = Inr rows'"
    by (auto simp: insert_stage_def [of s] list_ex_iff split: if_splits)
  then have "st_ID s \<notin> st_ID ` set rows" "rows' = rows @ s # xs"
    "distinct (map st_ID rows @ [st_ID s]) \<longrightarrow> distinct (map st_ID rows')"
    using Cons.IH [of "rows @ [s]"] by (auto simp only: stage_clash_def map_append list.map append.assoc append.simps image_iff)
  then show ?case by simp
qed simp

lemma new_stage_ok: "stage_ok (new_stage k s)" "st_RunID (new_stage k s) = k" "st_OperationID (new_stage k s) = []"
  by (simp_all add: new_stage_def stage_ok_def)

lemma insert_stages_Inr:
  assumes "insert_stages run st = Inr st'"
  shows "db_stages st' = db_stages st @ map (new_stage (run_ID run)) (run_Stages run)"
    and "distinct (map st_ID (db_stages st)) \<Longrightarrow> distinct (map st_ID (db_stages st'))"
  using assms insert_stage_all by (fastforce simp: insert_stages_def split: sum.splits)+

text \<open>The common tail of the creators: the run, then its stages.\<close>

lemma new_run_stages:
  assumes "stages_ok st" "db_stages st1 = db_stages st" "db_runs st1 = db_runs st @ [new_run now pause run]"
    and "insert_stages run st1 = Inr st2"
  shows "stages_ok st2 \<and> stages_kept (db_stages st) (db_stages st2)"
proof -
  have key: "rr_ID (new_run now pause run) = run_ID run" by (simp add: new_run_def)
  note rows = insert_stages_Inr [OF assms(4)] insert_stages_runs [OF assms(4)]
  have "distinct (map st_ID (db_stages st2))" using rows(2) assms by (simp add: stages_ok_def)
  moreover have "stage_ok s \<and> st_RunID s \<in> rr_ID ` set (db_runs st2)" if "s \<in> set (db_stages st2)" for s
    using that assms rows(1,3) key by (auto simp: stages_ok_def new_stage_ok image_Un)
  ultimately show ?thesis using rows(1) assms(2) by (simp add: stages_ok_def stages_kept_append)
qed

lemma lifecycle_stages:
  assumes "insertPipelineLifecycle now pipeline run st = Inr st'" "stages_ok st"
  shows "stages_ok st' \<and> stages_kept (db_stages st) (db_stages st')"
    and "s \<in> set (db_stages st') \<Longrightarrow> st_RunID s = run_ID run \<Longrightarrow> st_OperationID s = []"
proof -
  from assms(1) obtain st0 st1 where "insert_pipeline pipeline st = Inr st0" "insert_run (new_run now [] run) st0 = Inr st1"
    and ins: "insert_stages run st1 = Inr st'"
    by (auto simp: insertPipelineLifecycle_def split: sum.splits if_splits)
  then have st1: "db_stages st1 = db_stages st" "db_runs st1 = db_runs st @ [new_run now [] run]" "insert_stages run st1 = Inr st'"
    by (auto simp: insert_pipeline_def insert_run_Inr split: if_splits)
  from new_run_stages [OF assms(2) this] show "stages_ok st' \<and> stages_kept (db_stages st) (db_stages st')" .
  show "st_OperationID s = []" if "s \<in> set (db_stages st')" "st_RunID s = run_ID run"
  proof -
    have "s \<notin> set (db_stages st)"
      using assms(2) that(2) insertPipelineLifecycle_runs(2) [OF assms(1)] unfolding stages_ok_def by metis
    with that(1) insert_stages_Inr(1) [OF st1(3)] st1(1) show ?thesis by (auto simp: new_stage_ok)
  qed
qed

text \<open>A retry hands operations only to stages that have none.\<close>

lemma reuse_stages_ok:
  assumes "stages_ok st" "db_stages st' = reuse_stages oldRunID newRunID n (db_stages st)" "db_runs st' = db_runs st"
    and fresh: "\<And>s. s \<in> set (db_stages st) \<Longrightarrow> st_RunID s = newRunID \<Longrightarrow> st_OperationID s = []"
  shows "stages_ok st' \<and> stages_kept (db_stages st) (db_stages st')"
proof -
  define g where "g = (\<lambda>current.
       case find (\<lambda>old. st_RunID old = oldRunID \<and> st_Position old = st_Position current \<and> st_Position old < int n) (db_stages st) of
         Some old \<Rightarrow> if st_RunID current = newRunID then take_over old current else current
       | None \<Rightarrow> current)"
  have rows: "db_stages st' = map g (db_stages st)" using assms(2) by (simp add: reuse_stages_def g_def)
  have key: "st_ID (g s) = st_ID s" for s by (auto simp: g_def take_over_def split: option.splits)
  have g: "stage_ok (g s) \<and> stage_kept s (g s)" if s: "s \<in> set (db_stages st)" for s
  proof (cases "g s = s")
    case False
    then obtain old where old: "find (\<lambda>old. st_RunID old = oldRunID \<and> st_Position old = st_Position s \<and> st_Position old < int n) (db_stages st) = Some old"
      and gs: "g s = take_over old s" "st_RunID s = newRunID" by (auto simp: g_def split: option.splits if_splits)
    from old have "old \<in> set (db_stages st)" by (auto simp: find_Some_iff)
    with assms(1) s have "stage_ok old" "stage_ok s" by (auto simp: stages_ok_def)
    with gs fresh [OF s] show ?thesis by (auto simp: take_over_def stage_ok_def stage_kept_def)
  qed (use assms(1) s in \<open>auto simp: stages_ok_def\<close>)
  have "find_row st_ID k (map g rows) = map_option g (find_row st_ID k rows)" for k rows
    by (induction rows) (auto simp: key)
  then have "stages_kept (db_stages st) (db_stages st')"
    unfolding stages_kept_def rows using g by (auto dest!: find_row_key)
  moreover have "map st_ID (map g (db_stages st)) = map st_ID (db_stages st)" by (simp add: key)
  moreover have "st_RunID (g s) = st_RunID s" if "s \<in> set (db_stages st)" for s using g [OF that] by (simp add: stage_kept_def)
  ultimately show ?thesis using assms(1,3) g rows by (auto simp: stages_ok_def simp flip: map_map)
qed

section \<open>One operation per stage\<close>

lemma stages_ok_frame:
  assumes "stages_ok st" "db_stages st' = db_stages st" "map rr_ID (db_runs st') = map rr_ID (db_runs st)"
  shows "stages_ok st' \<and> stages_kept (db_stages st) (db_stages st')"
proof -
  from assms(3) have "rr_ID ` set (db_runs st') = rr_ID ` set (db_runs st)" by (metis set_map)
  with assms show ?thesis by (simp add: stages_ok_def)
qed

lemma update_ids: "(\<And>r. rr_ID (f r) = rr_ID r) \<Longrightarrow> map rr_ID (update_where p f rows) = map rr_ID rows"
  by (simp add: update_where_def)

lemma run_row_ids:
  "rr_ID (claim_run now owner r) = rr_ID r" "rr_ID (release_run now d r) = rr_ID r" "rr_ID (extend_run now r) = rr_ID r"
  "rr_ID (complete_run now a r) = rr_ID r" "rr_ID (terminating_run s m r) = rr_ID r" "rr_ID (fail_run now s m r) = rr_ID r"
  "rr_ID (cancel_run r) = rr_ID r" "rr_ID (cancel_queued now r) = rr_ID r" "rr_ID (initialize_run now r) = rr_ID r"
  "rr_ID (request_execution r) = rr_ID r"
  by (simp_all add: run_rows)

lemmas run_only_defs = ReleasePipelineRun_def RenewPipelineRunLease_def CompletePipelineRun_def BeginPipelineRunTermination_def
  FailPipelineRun_def cancel_later_def RequestPipelineRunCancel_def MarkPipelineInitialized_def StartExperimentTraffic_def
  SyncExperimentPipelineRun_def set_experiment_def ResetFailedManagedResourceDeletion_def DeleteFailedManagedResource_def

lemma run_step_stages:
  "run_step now st st' \<Longrightarrow> stages_ok st \<Longrightarrow> stages_ok st' \<and> stages_kept (db_stages st) (db_stages st')"
proof (induction rule: run_step.induct)
  case (create now run st run' st')
  then obtain st1 where "insert_run (new_run now (run_PauseBeforeStage run) run) st = Inr st1" "insert_stages run st1 = Inr st'"
    by (auto simp: CreatePipelineRun_def Let_def split: option.splits if_splits sum.splits)
  then show ?case by (intro new_run_stages [OF create.prems]) (auto simp: insert_run_Inr)
next
  case (create_resource now resource pipeline run deps st resource' st')
  then obtain st1 st2 where st1: "insertPipelineLifecycle now pipeline run st = Inr st1"
    and "insert_managed (new_managed resource None (Some (pl_ID pipeline)) (Some (run_ID run))) st1 = Inr st2"
    and "fold_err (insert_dependency (mg_ID resource)) deps st2 = Inr st'"
    by (auto simp: CreateManagedPipelineResource_def split: sum.splits)
  then have "db_runs st' = db_runs st1" "db_stages st' = db_stages st1" by (auto dest!: insert_managed_frame insert_dependencies_frame)
  with lifecycle_stages(1) [OF st1 create_resource.prems] show ?case by (simp add: stages_ok_def)
next
  case (delete_resource now k pipeline run st st')
  then obtain st1 where st1: "insertPipelineLifecycle now pipeline run st = Inr st1" and "db_runs st' = db_runs st1" "db_stages st' = db_stages st1"
    by (auto simp: CreateManagedPipelineResourceDeletion_def split: option.splits if_splits sum.splits)
  with lifecycle_stages(1) [OF st1 delete_resource.prems] show ?case by (simp add: stages_ok_def)
next
  case (recreate_resource now k expected spec pipeline run reuse st st')
  then obtain st1 where st1: "insertPipelineLifecycle now pipeline run st = Inr st1" and runs: "db_runs st' = db_runs st1"
    and stages: "db_stages st' = (if reuse then reuse_stages expected (run_ID run) (length (run_Stages run)) (db_stages st1) else db_stages st1)"
    by (auto simp: createManagedResourceRecreation_def Let_def split: option.splits if_splits sum.splits)
  note new = lifecycle_stages [OF st1 recreate_resource.prems]
  have "stages_ok st' \<and> stages_kept (db_stages st1) (db_stages st')"
  proof (cases reuse)
    case True
    with new stages runs show ?thesis by (intro reuse_stages_ok) auto
  qed (use new stages runs in \<open>auto simp: stages_ok_def\<close>)
  with new(1) show ?case by (auto intro: stages_kept_trans)
next
  case (stage now runID k owner operation st operation' st')
  then show ?case
    by (intro start_stage.stages_ok [of _ _ k now operation])
      (auto simp: CreatePipelineStageOperation_def update_one_Some dest!: AppendLog_frame insert_rows_frame
        split: option.splits if_splits sum.splits)
next
  case (cleanup now runID k owner operation st operation' st')
  then show ?case
    by (intro start_cleanup.stages_ok [of _ _ k now operation])
      (auto simp: CreatePipelineCleanupOperation_def update_one_Some dest!: AppendLog_frame insert_rows_frame
        split: option.splits if_splits sum.splits)
next
  case (sync operation st' now k st)
  then show ?case by (intro stage_update.stages_ok [OF sync_stage_update]) (auto simp: SyncPipelineRunStage_def)
next
  case (sync_cleanup operation st' now k st)
  then show ?case by (intro stage_update.stages_ok [OF sync_cleanup_update]) (auto simp: SyncPipelineRunStageCleanup_def)
next
  case (skip now runID k owner st st')
  then obtain p where "db_stages st' = update_where p (skip_cleanup now) (db_stages st)" "db_runs st' = db_runs st"
    unfolding SkipPipelineRunStageCleanup_def by (auto simp: update_one_Some split: option.splits simp del: not_None_eq)
  with skip show ?case by (intro skip_cleanup.stages_ok)
next
  case (fail_stage now k s message st st')
  then have s: "s = Failed \<or> s = Canceled" by (auto simp: FailPipelineRunStage_def split: if_splits)
  show ?case
    by (rule stage_update.stages_ok [OF fail_stage_update [OF s] fail_stage.prems, of _ _ now message])
      (use fail_stage.hyps in \<open>auto simp: FailPipelineRunStage_def split: if_splits\<close>)
next
  case (cancel_experiment now e st st')
  let ?st1 = "cancel_queued_runs now e st"
  have kept: "db_stages ?st1 = db_stages st" by (simp add: cancel_queued_runs_def)
  have st1: "stages_ok ?st1"
    using stages_ok_frame [OF cancel_experiment.prems kept] by (simp add: cancel_queued_runs_def update_ids run_row_ids)
  have st2: "stages_ok (cancel_pending_stages now e ?st1) \<and>
      stages_kept (db_stages ?st1) (db_stages (cancel_pending_stages now e ?st1))"
    by (rule stage_update.stages_ok [OF fail_stage_update st1]) (auto simp: cancel_pending_stages_def)
  moreover from cancel_experiment.hyps have "db_stages st' = db_stages (cancel_pending_stages now e ?st1)"
    "map rr_ID (db_runs st') = map rr_ID (db_runs (cancel_pending_stages now e ?st1))"
    by (auto simp: RequestExperimentCancel_def Let_def set_experiment_def cancel_queued_trials_def cancel_running_runs_def
        update_ids run_row_ids split: option.splits if_splits)
  ultimately show ?case using stages_ok_frame [of "cancel_pending_stages now e ?st1" st'] kept by simp
next
  case (claim now locked seen owner st run st')
  from claim_run_change [OF claim.hyps] claim.prems show ?case
    by (intro stages_ok_frame) (auto simp: update_ids run_row_ids)
next
  case (operation st st' now)
  then show ?case by (intro stages_ok_frame) (auto dest: op_step_frame)
qed (intro stages_ok_frame; auto simp: run_only_defs update_one_Some Let_def update_ids run_row_ids split: option.splits if_splits)+

lemma run_reach_stages:
  "run_reach st st' \<Longrightarrow> stages_ok st \<Longrightarrow> stages_ok st' \<and> stages_kept (db_stages st) (db_stages st')"
  by (induction rule: run_reach.induct) (auto dest: run_step_stages intro: stages_kept_trans)

text \<open>
  A stage is executed by at most one operation and cleaned up by at most one: once a stage has
  an operation or a cleanup operation, it keeps it through every sequence of transactions.
\<close>

theorem stage_operation_fixed:
  assumes "run_reach st st'" "stages_ok st" "find_row st_ID k (db_stages st) = Some s"
  shows "\<exists>s'. find_row st_ID k (db_stages st') = Some s' \<and> st_RunID s' = st_RunID s \<and>
    (st_OperationID s \<noteq> [] \<longrightarrow> st_OperationID s' = st_OperationID s) \<and>
    (st_CleanupOperationID s \<noteq> [] \<longrightarrow> st_CleanupOperationID s' = st_CleanupOperationID s)"
  using run_reach_stages [OF assms(1,2)] assms(3) by (auto simp: stages_kept_def stage_kept_def)

section \<open>The end of a run\<close>

lemma update_one_key:
  assumes "update_one p f rows = Some rows'" "\<And>r. p r \<Longrightarrow> key r = k" "\<And>r. key (f r) = key r" "distinct (map key rows)"
  obtains r where "find_row key k rows = Some r" "p r" "find_row key k rows' = Some (f r)"
proof -
  from assms(1) have "0 < rows_affected p rows" "rows' = update_where p f rows" by (auto simp: update_one_Some)
  then obtain r where r: "r \<in> set rows" "p r" by (auto simp: rows_affected_pos)
  with assms(2,4) have "find_row key k rows = Some r" by (metis distinct_find_row)
  moreover have "keyed_update key f" using assms(3) by unfold_locales
  ultimately show thesis using that r \<open>rows' = _\<close> by (simp add: keyed_update.find_updated)
qed

text \<open>What the completion of a run does to a live managed resource.\<close>

definition finished_row :: "timestamp \<Rightarrow> string \<Rightarrow> managed_row \<Rightarrow> managed_row \<Rightarrow> bool" where
  "finished_row now runID m m' \<longleftrightarrow> mr_ID m' = mr_ID m \<and>
     (if mr_DeletionPipelineRunID m = Some runID then mr_DeletedAt m' = Some now
      else if mr_RecreationPipelineRunID m = Some runID then mr_PipelineRunID m' = Some runID \<and> mr_RecreationPipelineRunID m' = None
      else m' = m)"

lemma finish_managed_rows:
  assumes "m \<in> set rows" "mr_DeletedAt m = None"
  shows "\<exists>m' \<in> set (finish_managed now runID rows). finished_row now runID m m'"
proof -
  consider "mr_DeletionPipelineRunID m = Some runID"
    | "mr_DeletionPipelineRunID m \<noteq> Some runID" "mr_RecreationPipelineRunID m = Some runID"
    | "mr_DeletionPipelineRunID m \<noteq> Some runID" "mr_RecreationPipelineRunID m \<noteq> Some runID" by blast
  then show ?thesis
  proof cases
    case 1
    with assms have "delete_managed now m \<in> set (finish_managed now runID rows)" "finished_row now runID m (delete_managed now m)"
      by (force simp: finish_managed_def set_update_where delete_managed_def finished_row_def)+
    then show ?thesis by blast
  next
    case 2
    with assms have "adopt_recreation m \<in> set (finish_managed now runID rows)" "finished_row now runID m (adopt_recreation m)"
      by (force simp: finish_managed_def set_update_where adopt_recreation_def finished_row_def)+
    then show ?thesis by blast
  next
    case 3
    with assms have "m \<in> set (finish_managed now runID rows)" "finished_row now runID m m"
      by (force simp: finish_managed_def set_update_where finished_row_def)+
    then show ?thesis by blast
  qed
qed

text \<open>
  C31: A run is completed only by the coordinator that holds it and only when every one of its
  stages has succeeded; the run then has its result, nobody holds it, resources it was to delete
  count as deleted and resources it recreated take its pipeline as their own.
\<close>

theorem completed_run_succeeded:
  assumes "CompletePipelineRun now runID owner artifactID st = Inr st'" "keys_ok st"
  shows "(\<exists>r. find_row rr_ID runID (db_runs st) = Some r \<and> owned_run runID owner r \<and>
      find_row rr_ID runID (db_runs st') = Some (complete_run now artifactID r)) \<and>
    (\<forall>s \<in> set (db_stages st'). st_RunID s = runID \<longrightarrow> st_Status s = Succeeded) \<and>
    (\<forall>m \<in> set (db_managed st). mr_DeletedAt m = None \<longrightarrow>
      (\<exists>m' \<in> set (db_managed st'). finished_row now runID m m'))"
proof -
  let ?p = "\<lambda>r. owned_run runID owner r \<and> stages_succeeded runID st"
  from assms(1) obtain rows where rows: "update_one ?p (complete_run now artifactID) (db_runs st) = Some rows"
    and st': "st' = st\<lparr>db_runs := rows, db_managed := finish_managed now runID (db_managed st)\<rparr>"
    by (auto simp: CompletePipelineRun_def split: option.splits if_splits)
  obtain r where "find_row rr_ID runID (db_runs st) = Some r" "?p r" "find_row rr_ID runID rows = Some (complete_run now artifactID r)"
    using update_one_key [OF rows, of rr_ID runID] assms(2) by (auto simp: owned_run_def is_run_def run_row_ids keys_ok_def)
  then show ?thesis using finish_managed_rows by (auto simp: st' stages_succeeded_def list_all_iff)
qed

text \<open>
  A run that fails or is canceled takes with it exactly the queued runs of the later trials of
  its experiment; every other run stays as it was.
\<close>

theorem failed_run_cancels_later:
  assumes "FailPipelineRun now runID owner s message st = Inr st'" "keys_ok st" "find_row rr_ID k (db_runs st) = Some r"
  shows "find_row rr_ID k (db_runs st') =
    Some (if k = runID then fail_run now s message r
          else if later_run st runID r then fail_run now Canceled RunStore.not_started r else r)"
proof -
  let ?p = "owned_run runID owner" and ?f = "fail_run now s message" and ?g = "fail_run now Canceled RunStore.not_started"
  from assms(1) obtain rows where rows: "update_one ?p ?f (db_runs st) = Some rows" and s: "s = Failed \<or> s = Canceled"
    and st': "st' = cancel_later now runID (st\<lparr>db_runs := rows\<rparr>)" by (auto simp: FailPipelineRun_def split: if_splits option.splits)
  have later: "later_run (st\<lparr>db_runs := x\<rparr>) runID = later_run st runID" for x
    by (rule ext) (simp add: later_run_def later_trial_def trial_of_def variant_of_def cong: option.case_cong)
  obtain r0 where r0: "find_row rr_ID runID (db_runs st) = Some r0" "?p r0"
    using update_one_key [OF rows, of rr_ID runID] assms(2) by (auto simp: owned_run_def is_run_def run_row_ids keys_ok_def)
  have "find_row rr_ID k rows = Some (if ?p r then ?f r else r)"
    using rows assms(3) by (simp add: update_one_Some fail_keyed.find_updated)
  then have found: "find_row rr_ID k (db_runs st') =
      Some (let x = if ?p r then ?f r else r in if later_run st runID x then ?g x else x)"
    by (simp add: st' cancel_later_def Let_def later fail_keyed.find_updated)
  have owned: "?p r \<longleftrightarrow> k = runID"
    using r0 assms(3) by (auto simp: owned_run_def is_run_def dest: find_row_key)
  have "\<not> later_run st runID (?f r)" using s by (auto simp: later_run_def run_rows)
  with found owned show ?thesis by (simp add: Let_def)
qed

section \<open>The order of claims\<close>

lemma sort_two_keys:
  fixes f g :: "'a \<Rightarrow> nat"
  assumes "sort_key f (sort_key g xs) = c # cs"
  shows "c \<in> set xs \<and> (\<forall>x \<in> set xs. f c < f x \<or> f c = f x \<and> g c \<le> g x)"
proof
  have set: "set (c # cs) = set xs" using assms by (metis set_sort)
  then show "c \<in> set xs" by auto
  show "\<forall>x \<in> set xs. f c < f x \<or> f c = f x \<and> g c \<le> g x"
  proof
    fix x assume x: "x \<in> set xs"
    have "sorted (map f (c # cs))" using assms by (metis sorted_sort_key)
    with x set have "f c \<le> f x" by auto
    moreover have "g c \<le> g x" if eq: "f c = f x"
    proof -
      have "filter (\<lambda>y. f y = f c) (c # cs) = filter (\<lambda>y. f y = f c) (sort_key g xs)"
        using sort_key_stable [of f "f c" "sort_key g xs"] assms by simp
      moreover have "sorted (map g (filter (\<lambda>y. f y = f c) (sort_key g xs)))" by (simp add: sorted_filter)
      ultimately have "sorted (map g (c # filter (\<lambda>y. f y = f c) cs))" by simp
      with x set eq show ?thesis by auto
    qed
    ultimately show "f c < f x \<or> f c = f x \<and> g c \<le> g x" by linarith
  qed
qed

text \<open>
  A claim takes the run that is due first: it was queued or left by its coordinator, its
  cluster is available, every earlier trial of its experiment has ended, and no other candidate
  that is not locked is scheduled or, at the same time, created before it.
\<close>

theorem claim_in_turn:
  assumes "ClaimPipelineRun now locked st owner st = Some (run, st')" "keys_ok st"
  shows "\<exists>r. find_row rr_ID (run_ID run) (db_runs st) = Some r \<and> (rr_Status r = Queued \<or> rr_Status r = Running) \<and>
    passed now (rr_LeaseUntil r) \<and> \<not> earlier_unfinished st r \<and> \<not> cluster_unavailable st r \<and>
    (\<forall>r' \<in> set (db_runs st). candidate now st r' \<and> \<not> locked (rr_ID r') \<longrightarrow>
       rr_ScheduledFor r < rr_ScheduledFor r' \<or> rr_ScheduledFor r = rr_ScheduledFor r' \<and> rr_CreatedAt r \<le> rr_CreatedAt r')"
proof -
  let ?cs = "filter (\<lambda>r. candidate now st r \<and> \<not> locked (rr_ID r) \<and>
      (case find_row rr_ID (rr_ID r) (db_runs st) of None \<Rightarrow> False | Some r' \<Rightarrow> candidate now st r')) (db_runs st)"
  have self: "find_row rr_ID (rr_ID r) (db_runs st) = Some r" if "r \<in> set (db_runs st)" for r
    using that assms(2) by (auto simp: keys_ok_def intro: distinct_find_row)
  from assms(1) obtain c cs where c: "sort_key rr_ScheduledFor (sort_key rr_CreatedAt ?cs) = c # cs"
    by (auto simp: ClaimPipelineRun_def run_candidates_def split: list.splits)
  note first = sort_two_keys [OF c]
  then have cand: "c \<in> set (db_runs st)" "candidate now st c" by auto
  have found: "find_row rr_ID (rr_ID c) (db_runs st) = Some c" using self cand by simp
  then have "\<not> claim_rejected st c" "run_ID run = rr_ID c"
    using assms(1) c
    by (auto simp: ClaimPipelineRun_def run_candidates_def Let_def GetPipelineRun_def claim_keyed.find_updated is_run_def
        scanPipelineRun_def run_row_ids split: if_splits)
  moreover have "\<forall>r' \<in> set (db_runs st). candidate now st r' \<and> \<not> locked (rr_ID r') \<longrightarrow>
       rr_ScheduledFor c < rr_ScheduledFor r' \<or> rr_ScheduledFor c = rr_ScheduledFor r' \<and> rr_CreatedAt c \<le> rr_CreatedAt r'"
    using first self by auto
  ultimately show ?thesis using found cand(2)
    by (auto simp: candidate_def claim_rejected_def passed_def intro!: exI [of _ c] split: option.splits)
qed

text \<open>
  When the run that is due first is bound to a cluster that is being deleted or recreated, no
  run is claimed at all, however many others could be: the candidate is chosen without
  regard to maintenance, the trigger then refuses the update, and every later claim chooses the
  same candidate again.
\<close>

theorem maintenance_blocks_queue:
  assumes "run_candidates now locked st st = c # others" "cluster_unavailable st c" "keys_ok st"
  shows "ClaimPipelineRun now locked st owner st = None"
proof -
  have "c \<in> set (run_candidates now locked st st)" using assms(1) by simp
  then have "c \<in> set (db_runs st)" by (simp add: run_candidates_def)
  then have "find_row rr_ID (rr_ID c) (db_runs st) = Some c" using assms(3) by (auto simp: keys_ok_def intro: distinct_find_row)
  with assms(1,2) show ?thesis by (simp add: ClaimPipelineRun_def claim_rejected_def)
qed

section \<open>Witnesses\<close>

definition sample_stage_row :: "status \<Rightarrow> PipelineRunStage" where
  "sample_stage_row s =
     \<lparr>st_ID = ''prs_1'', st_RunID = ''run_1'', st_Position = 1, st_StageID = ''a'', st_PluginID = ''p'', st_Title = ''a'',
      st_Status = s, st_OperationID = ''op_1'', st_Spec = RawEmpty, st_Error = [], st_StartedAt = None, st_CompletedAt = None,
      st_CleanupOperationID = [], st_CleanupStatus = Pending, st_CleanupError = [], st_CleanupStartedAt = None,
      st_CleanupCompletedAt = None\<rparr>"

definition sample_held :: Store where
  "sample_held = sample_claimed\<lparr>db_stages := [sample_stage_row Succeeded]\<rparr>"

lemmas sample_defs = sample_held_def sample_claimed_def sample_runs_def sample_run_def sample_stage_row_def empty_store_def

theorem stage_operation_fixed_witness:
  "stages_ok sample_held \<and>
   (\<exists>s'. find_row st_ID ''prs_1'' (db_stages (ReleasePipelineRun 6 ''run_1'' ''w-pipelines'' 2 sample_held)) = Some s' \<and>
      st_OperationID s' = ''op_1'')"
proof -
  have ok: "stages_ok sample_held"
    by (simp add: stages_ok_def stage_ok_def sample_defs claim_run_def)
  have found: "find_row st_ID ''prs_1'' (db_stages sample_held) = Some (sample_stage_row Succeeded)"
    by (simp add: sample_defs)
  have "run_reach sample_held (ReleasePipelineRun 6 ''run_1'' ''w-pipelines'' 2 sample_held)"
    by (blast intro: run_step.release)
  from stage_operation_fixed [OF this ok found] ok show ?thesis by (auto simp: sample_stage_row_def)
qed

definition sample_completed :: Store where
  "sample_completed = sample_held\<lparr>db_runs := [complete_run 7 [] (claim_run 5 ''w-pipelines'' (sample_run ''run_1'' None Queued 2))]\<rparr>"

theorem completed_run_succeeded_witness:
  "CompletePipelineRun 7 ''run_1'' ''w-pipelines'' [] sample_held = Inr sample_completed \<and>
   (\<exists>r. find_row rr_ID ''run_1'' (db_runs sample_held) = Some r \<and> owned_run ''run_1'' ''w-pipelines'' r \<and>
      find_row rr_ID ''run_1'' (db_runs sample_completed) = Some (complete_run 7 [] r))"
proof -
  have "CompletePipelineRun 7 ''run_1'' ''w-pipelines'' [] sample_held = Inr sample_completed"
    by (simp add: CompletePipelineRun_def sample_completed_def sample_defs update_one_def owned_run_def is_run_def claim_run_def
        stages_succeeded_def complete_run_def end_run_def null_if_empty_def finish_managed_def)
  moreover have "keys_ok sample_held" by (simp add: keys_ok_def sample_defs claim_run_def)
  ultimately show ?thesis using completed_run_succeeded by blast
qed

text \<open>Two trials of one experiment; the run of the first is held by a coordinator.\<close>

definition sample_trial :: "string \<Rightarrow> int \<Rightarrow> trial_row" where
  "sample_trial runID position =
     \<lparr>tr_ID = ''trial of '' @ runID, tr_VariantID = ''var_1'', tr_Position = position, tr_Status = Queued,
      tr_PipelineRunID = Some runID, tr_OperationID = None, tr_ResultArtifactID = None, tr_Error = [], tr_CompletedAt = None\<rparr>"

definition sample_trials :: Store where
  "sample_trials = empty_store\<lparr>
     db_runs := [claim_run 5 ''w-pipelines'' (sample_run ''run_1'' None Queued 2), sample_run ''run_2'' None Queued 3],
     db_variants := [\<lparr>va_ID = ''var_1'', va_ExperimentID = ''exp_1'', va_Position = 1, va_ConfigurationID = None\<rparr>],
     db_trials := [sample_trial ''run_1'' 1, sample_trial ''run_2'' 2]\<rparr>"

theorem failed_run_cancels_later_witness:
  "\<exists>st'. FailPipelineRun 7 ''run_1'' ''w-pipelines'' Failed ''x'' sample_trials = Inr st' \<and>
     find_row rr_ID ''run_2'' (db_runs st') = Some (fail_run 7 Canceled RunStore.not_started (sample_run ''run_2'' None Queued 3))"
proof -
  obtain st' where st': "FailPipelineRun 7 ''run_1'' ''w-pipelines'' Failed ''x'' sample_trials = Inr st'"
    by (simp add: FailPipelineRun_def sample_trials_def sample_run_def empty_store_def update_one_def owned_run_def is_run_def claim_run_def)
  have keys: "keys_ok sample_trials" by (simp add: keys_ok_def sample_trials_def empty_store_def sample_run_def claim_run_def)
  have found: "find_row rr_ID ''run_2'' (db_runs sample_trials) = Some (sample_run ''run_2'' None Queued 3)"
    by (simp add: sample_trials_def empty_store_def sample_run_def claim_run_def)
  have "later_run sample_trials ''run_1'' (sample_run ''run_2'' None Queued 3)"
    by (simp add: later_run_def later_trial_def trial_of_def variant_of_def before_trial_def sample_trials_def sample_trial_def
        empty_store_def sample_run_def)
  with failed_run_cancels_later [OF st' keys found] st' show ?thesis by auto
qed

theorem claim_in_turn_witness:
  "\<exists>run st' r. ClaimPipelineRun 5 (\<lambda>_. False) sample_runs ''w-pipelines'' sample_runs = Some (run, st') \<and>
     find_row rr_ID (run_ID run) (db_runs sample_runs) = Some r \<and> \<not> earlier_unfinished sample_runs r"
proof -
  obtain run st' where claim: "ClaimPipelineRun 5 (\<lambda>_. False) sample_runs ''w-pipelines'' sample_runs = Some (run, st')"
    by (simp add: sample_runs_def ClaimPipelineRun_def run_candidates_def candidate_def sample_run_def empty_store_def
        earlier_unfinished_def trial_of_def owner_busy_def cluster_busy_def claim_rejected_def cluster_unavailable_def is_run_def
        GetPipelineRun_def claim_run_def Let_def)
  have "keys_ok sample_runs" by (simp add: keys_ok_def sample_defs)
  from claim_in_turn [OF claim this] claim show ?thesis by blast
qed

text \<open>A cluster whose deletion has begun, a run that waits for it, and a run that waits for nothing.\<close>

definition sample_cluster :: managed_row where
  "sample_cluster =
     \<lparr>mr_ID = ''res_1'', mr_WorkspaceID = ''ws_1'', mr_Name = ''c'', mr_Kind = ''kubernetes-cluster'', mr_Provider = ''p'',
      mr_ConnectionID = None, mr_PluginID = ''p'', mr_PluginVersion = ''1'', mr_PluginDigest = [], mr_Spec = RawDoc (JObj []),
      mr_OperationID = None, mr_PipelineID = Some ''pipe_0'', mr_PipelineRunID = Some ''run_0'', mr_DeletionOperationID = None,
      mr_DeletionPipelineID = Some ''pipe_9'', mr_DeletionPipelineRunID = Some ''run_9'', mr_RecreationPipelineID = None,
      mr_RecreationPipelineRunID = None, mr_DeletedAt = None\<rparr>"

definition sample_blocked :: Store where
  "sample_blocked = empty_store\<lparr>db_managed := [sample_cluster],
     db_runs := [sample_run ''run_1'' (Some ''res_1'') Queued 2, sample_run ''run_9'' None Queued 3]\<rparr>"

theorem maintenance_blocks_queue_witness:
  "ClaimPipelineRun 5 (\<lambda>_. False) sample_blocked ''w'' sample_blocked = None \<and>
   candidate 5 sample_blocked (sample_run ''run_9'' None Queued 3) \<and> \<not> claim_rejected sample_blocked (sample_run ''run_9'' None Queued 3)"
proof
  note defs = sample_blocked_def sample_cluster_def empty_store_def sample_run_def candidate_def earlier_unfinished_def trial_of_def
    owner_busy_def cluster_busy_def
  have "run_candidates 5 (\<lambda>_. False) sample_blocked sample_blocked =
      [sample_run ''run_1'' (Some ''res_1'') Queued 2, sample_run ''run_9'' None Queued 3]"
    by (simp add: run_candidates_def defs)
  moreover have "cluster_unavailable sample_blocked (sample_run ''run_1'' (Some ''res_1'') Queued 2)"
    by (simp add: cluster_unavailable_def defs)
  moreover have "keys_ok sample_blocked" by (simp add: keys_ok_def defs)
  ultimately show "ClaimPipelineRun 5 (\<lambda>_. False) sample_blocked ''w'' sample_blocked = None"
    by (rule maintenance_blocks_queue)
  show "candidate 5 sample_blocked (sample_run ''run_9'' None Queued 3) \<and> \<not> claim_rejected sample_blocked (sample_run ''run_9'' None Queued 3)"
    by (simp add: claim_rejected_def cluster_unavailable_def defs)
qed

end
