(* ===== verification/Ledger.thy ===== *)
theory Ledger
  imports Store
begin

text \<open>
  The ledger of infrastructure resources, \<open>storage/managed_resources.go\<close>: reservation of
  resources before a step creates them, completion, state changes, authorisation of updates
  and deletions, and the import of discovered resources. A resource is identified by its
  provider and external identifier; its ownership says whether KubePhos may touch it.
\<close>

section \<open>Statements\<close>

definition has_key :: "string \<Rightarrow> string \<Rightarrow> infra_row \<Rightarrow> bool" where
  "has_key provider externalID r \<longleftrightarrow> infra_key r = (provider, externalID)"

definition managed_resource :: "infra_row \<Rightarrow> bool" where
  "managed_resource r \<longleftrightarrow> ir_Ownership (inf_Res r) = ''managed'' \<and> ir_Protection (inf_Res r) = ''managed''"

definition default_metadata :: "RawMessage \<Rightarrow> RawMessage" where
  "default_metadata m = (if m = RawEmpty then RawDoc (JObj []) else m)"

text \<open>One \<open>INSERT \<dots> ON CONFLICT DO UPDATE\<close> of \<open>SyncDiscoveredResources\<close>.\<close>

definition import_row :: "InfrastructureResource \<Rightarrow> infra_row \<Rightarrow> infra_row" where
  "import_row res r =
     r\<lparr>inf_Res := (inf_Res r)\<lparr>ir_Kind := ir_Kind res, ir_Name := ir_Name res, ir_State := ir_State res,
        ir_Metadata := default_metadata (ir_Metadata res)\<rparr>\<rparr>"

definition new_import :: "InfrastructureResource \<Rightarrow> infra_row" where
  "new_import res =
     \<lparr>inf_Res = res\<lparr>ir_Ownership := ''imported'', ir_Protection := ''read-only'',
        ir_Metadata := default_metadata (ir_Metadata res)\<rparr>, inf_CreatedBy = None\<rparr>"

definition sync_resource :: "InfrastructureResource \<Rightarrow> infra_row list \<Rightarrow> infra_row list" where
  "sync_resource res rows =
     (if find_row infra_key (ir_Provider res, ir_ExternalID res) rows = None then rows @ [new_import res]
      else update_where (has_key (ir_Provider res) (ir_ExternalID res)) (import_row res) rows)"

definition SyncDiscoveredResources :: "InfrastructureResource list \<Rightarrow> Store \<Rightarrow> Store" where
  "SyncDiscoveredResources resources st = st\<lparr>db_infra := fold sync_resource resources (db_infra st)\<rparr>"

text \<open>
  One iteration of \<open>ReserveManagedResources\<close>: a new row, the reuse of a row whose resource was
  deleted or cleaned, or a row this operation already reserved.
\<close>

definition new_reservation :: "string \<Rightarrow> InfrastructureResource \<Rightarrow> infra_row" where
  "new_reservation operationID res =
     \<lparr>inf_Res = res\<lparr>ir_State := ''reserved'', ir_Ownership := ''managed'', ir_Protection := ''managed'',
        ir_Metadata := RawDoc (JObj [])\<rparr>, inf_CreatedBy = Some operationID\<rparr>"

definition reserve_row :: "string \<Rightarrow> InfrastructureResource \<Rightarrow> infra_row \<Rightarrow> infra_row" where
  "reserve_row operationID res r =
     r\<lparr>inf_Res := (inf_Res r)\<lparr>ir_WorkspaceID := ir_WorkspaceID res, ir_Kind := ir_Kind res, ir_Name := ir_Name res,
         ir_State := ''reserved'', ir_Metadata := RawDoc (JObj [])\<rparr>, inf_CreatedBy := Some operationID\<rparr>"

definition reusable :: "infra_row \<Rightarrow> bool" where
  "reusable r \<longleftrightarrow> managed_resource r \<and> ir_State (inf_Res r) \<in> {''deleted'', ''cleaned''}"

definition reserve_resource ::
  "string \<Rightarrow> InfrastructureResource \<Rightarrow> infra_row list \<times> (string \<times> string) list \<Rightarrow>
   store_error + infra_row list \<times> (string \<times> string) list" where
  "reserve_resource operationID res = (\<lambda>(rows, reserved).
     (case find_row infra_key (ir_Provider res, ir_ExternalID res) rows of
        None \<Rightarrow> Inr (rows @ [new_reservation operationID res], (ir_ExternalID res, ir_ID res) # reserved)
      | Some r \<Rightarrow>
          if reusable r
          then Inr (update_where (has_key (ir_Provider res) (ir_ExternalID res)) (reserve_row operationID res) rows,
                    (ir_ExternalID res, ir_ID res) # reserved)
          else if inf_CreatedBy r \<noteq> Some operationID then Inl ErrConflict
          else Inr (rows, (ir_ExternalID res, ir_ID (inf_Res r)) # reserved)))"

definition ReserveManagedResources ::
  "InfrastructureResource list \<Rightarrow> string \<Rightarrow> Store \<Rightarrow> store_error + (string \<times> string) list \<times> Store" where
  "ReserveManagedResources resources operationID st =
     (case fold_err (reserve_resource operationID) resources (db_infra st, []) of
        Inl e \<Rightarrow> Inl e
      | Inr (rows, reserved) \<Rightarrow> Inr (reserved, st\<lparr>db_infra := rows\<rparr>))"

definition set_state :: "string \<Rightarrow> infra_row \<Rightarrow> infra_row" where
  "set_state s r = r\<lparr>inf_Res := (inf_Res r)\<lparr>ir_State := s\<rparr>\<rparr>"

definition release_resource :: "string \<Rightarrow> InfrastructureResource \<Rightarrow> infra_row list \<Rightarrow> infra_row list" where
  "release_resource operationID res rows =
     update_where (\<lambda>r. has_key (ir_Provider res) (ir_ExternalID res) r \<and> inf_CreatedBy r = Some operationID \<and>
         ir_State (inf_Res r) = ''reserved'')
       (set_state ''cleaned'') rows"

definition ReleaseManagedResourceReservations :: "InfrastructureResource list \<Rightarrow> string \<Rightarrow> Store \<Rightarrow> Store" where
  "ReleaseManagedResourceReservations resources operationID st =
     st\<lparr>db_infra := fold (release_resource operationID) resources (db_infra st)\<rparr>"

definition EnsureResourceAvailable :: "string \<Rightarrow> string \<Rightarrow> Store \<Rightarrow> store_error option" where
  "EnsureResourceAvailable provider externalID st =
     (case find_row infra_key (provider, externalID) (db_infra st) of
        None \<Rightarrow> None
      | Some r \<Rightarrow> if reusable r then None else Some ErrConflict)"

definition SetOperationManagedResourcesState :: "string \<Rightarrow> string \<Rightarrow> Store \<Rightarrow> Store" where
  "SetOperationManagedResourcesState operationID state st =
     st\<lparr>db_infra := update_where
       (\<lambda>r. inf_CreatedBy r = Some operationID \<and> ir_Ownership (inf_Res r) = ''managed'' \<and>
          (state \<noteq> ''failed'' \<or> ir_State (inf_Res r) \<notin> {''cleaned'', ''deleted''}))
       (set_state state) (db_infra st)\<rparr>"

definition authorizeManagedResource :: "bool \<Rightarrow> string \<Rightarrow> string \<Rightarrow> string \<Rightarrow> Store \<Rightarrow> store_error option" where
  "authorizeManagedResource allowDeleted provider externalID workspaceID st =
     (case find_row infra_key (provider, externalID)
        (filter (\<lambda>r. ir_State (inf_Res r) \<noteq> ''deleted'' \<or> allowDeleted) (db_infra st)) of
        None \<Rightarrow> Some ErrConflict
      | Some r \<Rightarrow>
          if \<not> managed_resource r \<or> ir_WorkspaceID (inf_Res r) \<noteq> workspaceID then Some ErrConflict else None)"

definition AuthorizeManagedResource :: "string \<Rightarrow> string \<Rightarrow> string \<Rightarrow> Store \<Rightarrow> store_error option" where
  "AuthorizeManagedResource = authorizeManagedResource False"

definition AuthorizeManagedCleanup :: "string \<Rightarrow> string \<Rightarrow> string \<Rightarrow> Store \<Rightarrow> store_error option" where
  "AuthorizeManagedCleanup = authorizeManagedResource True"

text \<open>The fields a finished step writes back; \<open>UpdateManagedResource\<close> stores the metadata as given.\<close>

definition describe_row :: "DiscoveredResource \<Rightarrow> RawMessage \<Rightarrow> infra_row \<Rightarrow> infra_row" where
  "describe_row d metadata r =
     r\<lparr>inf_Res := (inf_Res r)\<lparr>ir_Name := dr_Name d, ir_Kind := dr_Kind d, ir_State := dr_State d, ir_Metadata := metadata\<rparr>\<rparr>"

definition CompleteManagedResource :: "string \<Rightarrow> string \<Rightarrow> DiscoveredResource \<Rightarrow> Store \<Rightarrow> store_error + Store" where
  "CompleteManagedResource operationID provider d st =
     (case update_one (\<lambda>r. inf_CreatedBy r = Some operationID \<and> has_key provider (dr_ExternalID d) r \<and> managed_resource r)
         (describe_row d (default_metadata (dr_Metadata d))) (db_infra st) of
        None \<Rightarrow> Inl ErrConflict
      | Some rows \<Rightarrow> Inr (st\<lparr>db_infra := rows\<rparr>))"

definition SetManagedResourceState :: "string \<Rightarrow> string \<Rightarrow> string \<Rightarrow> string \<Rightarrow> Store \<Rightarrow> store_error + Store" where
  "SetManagedResourceState provider externalID workspaceID state st =
     (case update_one (\<lambda>r. has_key provider externalID r \<and> ir_WorkspaceID (inf_Res r) = workspaceID \<and>
           workspaceID \<noteq> [] \<and> managed_resource r)
         (set_state state) (db_infra st) of
        None \<Rightarrow> Inl ErrConflict
      | Some rows \<Rightarrow> Inr (st\<lparr>db_infra := rows\<rparr>))"

definition UpdateManagedResource :: "string \<Rightarrow> string \<Rightarrow> DiscoveredResource \<Rightarrow> Store \<Rightarrow> store_error + Store" where
  "UpdateManagedResource provider workspaceID d st =
     (if dr_Metadata d = RawEmpty \<and>
         rows_affected (\<lambda>r. has_key provider (dr_ExternalID d) r \<and> ir_WorkspaceID (inf_Res r) = workspaceID \<and>
           workspaceID \<noteq> [] \<and> managed_resource r \<and> ir_State (inf_Res r) \<noteq> ''deleted'') (db_infra st) \<noteq> 0
      then Inl ErrEncode
      else case update_one (\<lambda>r. has_key provider (dr_ExternalID d) r \<and> ir_WorkspaceID (inf_Res r) = workspaceID \<and>
           workspaceID \<noteq> [] \<and> managed_resource r \<and> ir_State (inf_Res r) \<noteq> ''deleted'')
         (describe_row d (dr_Metadata d)) (db_infra st) of
        None \<Rightarrow> Inl ErrConflict
      | Some rows \<Rightarrow> Inr (st\<lparr>db_infra := rows\<rparr>))"

section \<open>The row updates keep keys\<close>

lemmas infra_defs = infra_key_def import_row_def reserve_row_def set_state_def describe_row_def new_import_def new_reservation_def

interpretation import_upd: keyed_update infra_key "import_row res" for res
  by unfold_locales (simp add: infra_defs)

interpretation reserve_upd: keyed_update infra_key "reserve_row operationID res" for operationID res
  by unfold_locales (simp add: infra_defs)

interpretation state_upd: keyed_update infra_key "set_state s" for s
  by unfold_locales (simp add: infra_defs)

interpretation describe_upd: keyed_update infra_key "describe_row d m" for d m
  by unfold_locales (simp add: infra_defs)

section \<open>Any sequence of ledger operations\<close>

datatype ledger_op =
    SyncL "InfrastructureResource list"
  | ReserveL "InfrastructureResource list" string
  | ReleaseL "InfrastructureResource list" string
  | OperationStateL string string
  | CompleteL string string DiscoveredResource
  | StateL string string string string
  | UpdateL string string DiscoveredResource

definition committed :: "Store \<Rightarrow> store_error + Store \<Rightarrow> Store" where
  "committed st result = (case result of Inl _ \<Rightarrow> st | Inr st' \<Rightarrow> st')"

fun run_ledger :: "ledger_op \<Rightarrow> Store \<Rightarrow> Store" where
  "run_ledger (SyncL rs) st = SyncDiscoveredResources rs st"
| "run_ledger (ReserveL rs op) st = (case ReserveManagedResources rs op st of Inl _ \<Rightarrow> st | Inr (ids, st') \<Rightarrow> st')"
| "run_ledger (ReleaseL rs op) st = ReleaseManagedResourceReservations rs op st"
| "run_ledger (OperationStateL op s) st = SetOperationManagedResourcesState op s st"
| "run_ledger (CompleteL op p d) st = committed st (CompleteManagedResource op p d st)"
| "run_ledger (StateL p x w s) st = committed st (SetManagedResourceState p x w s st)"
| "run_ledger (UpdateL p w d) st = committed st (UpdateManagedResource p w d st)"

fun is_sync :: "ledger_op \<Rightarrow> bool" where
  "is_sync (SyncL _) \<longleftrightarrow> True"
| "is_sync _ \<longleftrightarrow> False"

text \<open>
  A resource KubePhos has only discovered: not managed, and created by no operation. How a row
  may change: its ownership and protection never; an imported row only by a discovery, and
  then neither its workspace nor its creator.
\<close>

definition imported :: "infra_row \<Rightarrow> bool" where
  "imported r \<longleftrightarrow> ir_Ownership (inf_Res r) \<noteq> ''managed'' \<and> inf_CreatedBy r = None"

definition row_change :: "bool \<Rightarrow> infra_row \<Rightarrow> infra_row \<Rightarrow> bool" where
  "row_change discovery r r' \<longleftrightarrow>
     ir_Ownership (inf_Res r') = ir_Ownership (inf_Res r) \<and> ir_Protection (inf_Res r') = ir_Protection (inf_Res r) \<and>
     (imported r \<longrightarrow>
        (if discovery then inf_CreatedBy r' = inf_CreatedBy r \<and> ir_WorkspaceID (inf_Res r') = ir_WorkspaceID (inf_Res r)
         else r' = r))"

lemma row_change_refl [simp]: "row_change d r r"
  by (simp add: row_change_def)

lemma row_change_trans: "row_change d r r' \<Longrightarrow> row_change d r' r'' \<Longrightarrow> row_change d r r''"
  by (auto simp: row_change_def imported_def split: if_splits)

lemma row_change_weaken: "row_change d r r' \<Longrightarrow> row_change True r r'"
  by (auto simp: row_change_def split: if_splits)

lemmas row_change_rows = row_change_def imported_def import_row_def reserve_row_def set_state_def describe_row_def

text \<open>The rows of a table under one change.\<close>

definition table_change :: "bool \<Rightarrow> infra_row list \<Rightarrow> infra_row list \<Rightarrow> bool" where
  "table_change d rows rows' \<longleftrightarrow>
     (\<forall>k r. find_row infra_key k rows = Some r \<longrightarrow> (\<exists>r'. find_row infra_key k rows' = Some r' \<and> row_change d r r'))"

lemma table_change_refl [simp]: "table_change d rows rows"
  by (simp add: table_change_def)

lemma table_change_trans: "table_change d a b \<Longrightarrow> table_change d b c \<Longrightarrow> table_change d a c"
  unfolding table_change_def by (meson row_change_trans)

lemma table_change_append: "table_change d rows (rows @ new)"
  by (auto simp: table_change_def find_row_append)

lemma table_change_fold: "(\<And>x rows. table_change d rows (f x rows)) \<Longrightarrow> table_change d rows (fold f xs rows)"
  by (induction xs arbitrary: rows) (auto intro: table_change_trans)

text \<open>An update that keeps keys changes the table as it changes each row.\<close>

lemma table_change_update:
  assumes keys: "\<And>r. infra_key (f r) = infra_key r" and rows: "\<And>r. p r \<Longrightarrow> row_change d r (f r)"
  shows "table_change d rows (update_where p f rows)"
proof -
  have "keyed_update infra_key f" using keys by unfold_locales
  from keyed_update.find_updated [OF this] rows show ?thesis by (auto simp: table_change_def)
qed

lemma sync_table_change: "table_change True rows (fold sync_resource resources rows)"
proof (rule table_change_fold)
  show "table_change True rows (sync_resource res rows)" for res rows
    by (auto simp: sync_resource_def row_change_rows infra_key_def intro!: table_change_append table_change_update)
qed

lemma reserve_table_change:
  assumes "reserve_resource op res s = Inr s'"
  shows "table_change False (fst s) (fst s')"
proof -
  obtain rows ids where s: "s = (rows, ids)" by fastforce
  have only: "has_key (ir_Provider res) (ir_ExternalID res) r \<and> reusable r \<longrightarrow> row_change False r (reserve_row op res r)" for r
    by (simp add: reusable_def managed_resource_def row_change_rows)
  show ?thesis
  proof (cases "find_row infra_key (ir_Provider res, ir_ExternalID res) rows")
    case None
    with assms s show ?thesis by (auto simp: reserve_resource_def intro: table_change_append)
  next
    case (Some r)
    then have key: "find_row infra_key k rows = Some r' \<Longrightarrow> has_key (ir_Provider res) (ir_ExternalID res) r' \<Longrightarrow> r' = r" for k r'
      using find_row_key [of infra_key k rows r'] by (auto simp: has_key_def)
    show ?thesis
    proof (cases "reusable r")
      case True
      with Some s assms have s': "fst s' = update_where (has_key (ir_Provider res) (ir_ExternalID res)) (reserve_row op res) rows"
        by (auto simp: reserve_resource_def)
      have "row_change False r' (if has_key (ir_Provider res) (ir_ExternalID res) r' then reserve_row op res r' else r')"
        if "find_row infra_key k rows = Some r'" for k r'
        using key [OF that] True only [of r'] by auto
      then show ?thesis by (auto simp: table_change_def s s' reserve_upd.find_updated)
    next
      case False
      with Some s assms show ?thesis by (auto simp: reserve_resource_def split: if_splits)
    qed
  qed
qed

lemma run_ledger_change: "table_change (is_sync op) (db_infra st) (db_infra (run_ledger op st))"
proof (cases op)
  case (SyncL rs)
  then show ?thesis by (simp add: SyncDiscoveredResources_def sync_table_change)
next
  case (ReserveL rs operation)
  show ?thesis
  proof (cases "fold_err (reserve_resource operation) rs (db_infra st, [])")
    case (Inr s')
    have "table_change False (db_infra st) (fst s')"
      by (rule fold_err_invariant [OF Inr, of "\<lambda>s. table_change False (db_infra st) (fst s)"])
        (auto intro: table_change_trans dest: reserve_table_change)
    with ReserveL Inr show ?thesis by (simp add: ReserveManagedResources_def case_prod_unfold)
  qed (simp add: ReserveL ReserveManagedResources_def)
next
  case (ReleaseL rs operation)
  have "table_change False rows (release_resource operation res rows)" for res rows
    unfolding release_resource_def
    by (rule table_change_update) (auto simp: infra_defs row_change_rows)
  with ReleaseL show ?thesis by (simp add: ReleaseManagedResourceReservations_def table_change_fold)
qed (auto simp: SetOperationManagedResourcesState_def CompleteManagedResource_def SetManagedResourceState_def
      UpdateManagedResource_def committed_def update_one_def managed_resource_def infra_defs row_change_rows
      intro!: table_change_update)

text \<open>
  Whatever sequence of ledger operations runs, no resource ever changes hands: every
  recorded resource keeps its ownership and protection, an imported one keeps its workspace
  and stays without a creator, and without a discovery its row is not written at all.
\<close>

theorem ledger_ownership_fixed:
  assumes "find_row infra_key k (db_infra st) = Some r"
  shows "\<exists>r'. find_row infra_key k (db_infra (fold run_ledger ops st)) = Some r' \<and>
    ir_Ownership (inf_Res r') = ir_Ownership (inf_Res r) \<and> ir_Protection (inf_Res r') = ir_Protection (inf_Res r) \<and>
    (imported r \<longrightarrow> imported r' \<and> ir_WorkspaceID (inf_Res r') = ir_WorkspaceID (inf_Res r) \<and>
       (list_all (\<lambda>op. \<not> is_sync op) ops \<longrightarrow> r' = r))"
proof -
  have "table_change (list_ex is_sync ops) (db_infra st) (db_infra (fold run_ledger ops st))"
  proof (induction ops arbitrary: st)
    case (Cons op ops)
    have weak: "table_change True a b" if "table_change d a b" for d a b
      using that row_change_weaken unfolding table_change_def by meson
    show ?case
      using run_ledger_change [of op st] Cons.IH [of "run_ledger op st"]
      by (cases "is_sync op"; cases "list_ex is_sync ops") (auto intro: table_change_trans dest: weak)
  qed simp
  with assms obtain r' where r': "find_row infra_key k (db_infra (fold run_ledger ops st)) = Some r'"
    "row_change (list_ex is_sync ops) r r'"
    unfolding table_change_def by blast
  have "\<not> list_ex is_sync ops" if "list_all (\<lambda>op. \<not> is_sync op) ops"
    using that by (auto simp: list_ex_iff list_all_iff)
  with r' show ?thesis
    by (intro exI [of _ r']) (auto simp: row_change_def imported_def split: if_splits)
qed

section \<open>Reservations\<close>

lemma reserve_other_row:
  assumes "reserve_resource op res s = Inr s'" and "(ir_Provider res, ir_ExternalID res) \<noteq> k"
  shows "find_row infra_key k (fst s') = find_row infra_key k (fst s)"
proof -
  obtain rows ids where s: "s = (rows, ids)" by fastforce
  have new: "infra_key (new_reservation op res) = (ir_Provider res, ir_ExternalID res)" by (simp add: infra_defs)
  show ?thesis
    using assms new
    by (auto simp: reserve_resource_def s find_row_append has_key_def reserve_upd.find_other
        split: option.splits if_splits)
qed


section \<open>Witnesses\<close>

definition sample_resource :: "string \<Rightarrow> InfrastructureResource" where
  "sample_resource rid =
     \<lparr>ir_ID = rid, ir_Provider = ''px'', ir_ExternalID = ''vm/1'', ir_WorkspaceID = ''w'', ir_Kind = ''vm'', ir_Name = ''v'',
      ir_State = [], ir_Ownership = ''managed'', ir_Protection = ''managed'', ir_Metadata = RawEmpty\<rparr>"

definition sample_ledger :: "string \<Rightarrow> Store" where
  "sample_ledger state =
     empty_store\<lparr>db_infra := [\<lparr>inf_Res = (sample_resource ''res_1'')\<lparr>ir_State := state\<rparr>, inf_CreatedBy = Some ''op_1''\<rparr>]\<rparr>"

lemmas sample_ledger_defs = sample_ledger_def sample_resource_def empty_store_def infra_key_def reusable_def managed_resource_def

theorem ledger_ownership_fixed_witness:
  "\<exists>r'. find_row infra_key (''px'', ''vm/1'') (db_infra (fold run_ledger [OperationStateL ''op_1'' ''failed''] (sample_ledger ''reserved''))) = Some r' \<and>
     ir_Ownership (inf_Res r') = ''managed''"
  using ledger_ownership_fixed [of "(''px'', ''vm/1'')" "sample_ledger ''reserved''" "hd (db_infra (sample_ledger ''reserved''))"
      "[OperationStateL ''op_1'' ''failed'']"]
  by (auto simp: sample_ledger_defs)


text \<open>
  Reserving a resource whose earlier row was deleted reuses that row under its old
  identifier, but the identifier returned for it is the one of the row that was not inserted:
  no row of the ledger has it.
\<close>

theorem reused_reservation_reports_wrong_id:
  "\<exists>reserved st'. ReserveManagedResources [sample_resource ''res_2''] ''op_2'' (sample_ledger ''deleted'') = Inr (reserved, st') \<and>
     map_of reserved ''vm/1'' = Some ''res_2'' \<and> map (ir_ID \<circ> inf_Res) (db_infra st') = [''res_1'']"
  by (simp add: ReserveManagedResources_def reserve_resource_def sample_ledger_defs has_key_def reserve_row_def)

end
