(* ===== verification/Worker.thy ===== *)
theory Worker
  imports OperationStore Ledger Plugins Artifacts "HOL-Library.State_Monad"
begin

text \<open>
  The operation worker: \<open>engine/worker.go\<close>, and the artifact client of \<open>artifacts/seaweed.go\<close> it
  stores values with. The worker is a program over the database, the object store and the world
  its plugins act on. What it cannot control is the environment: the clock, faults of the
  database and the object store (a call may fail before or after it took effect), the
  transactions other sessions commit between its calls, changes to stored objects, the
  cancellation of its context, the registry as it is at each lookup, fresh identifiers, the
  vault, and the library functions for digests, JSON texts and path escaping.
\<close>

section \<open>The environment and the state\<close>

record vault =
  EncryptBound :: "nat \<Rightarrow> string \<Rightarrow> string \<Rightarrow> failure + string \<times> string"
  DecryptBound :: "string \<Rightarrow> string \<Rightarrow> string \<Rightarrow> failure + string"

text \<open>The functions are indexed by the number of calls the worker has made before.\<close>

record 'w Env =
  env_now :: "nat \<Rightarrow> timestamp"
  env_fault :: "nat \<Rightarrow> (failure \<times> bool) option"
  env_others :: "nat \<Rightarrow> Store \<Rightarrow> Store"
  env_objects :: "nat \<Rightarrow> (string \<times> string) list \<Rightarrow> (string \<times> string) list"
  env_ctx :: "nat \<Rightarrow> failure option"
  env_registry :: "nat \<Rightarrow> 'w Registry"
  env_id :: "nat \<Rightarrow> string"
  env_vault :: "vault option"
  env_digest :: "string \<Rightarrow> string"
  env_json :: "string \<Rightarrow> RawMessage"
  env_escape :: "string \<Rightarrow> string"
  env_result :: "Operation \<Rightarrow> OperationStep list \<Rightarrow> timestamp \<Rightarrow> failure + string"

text \<open>
  The trace records the calls of plugins, the milestones of an operation and, for the pipeline
  coordinator, what it read (\<open>Saw\<close>, \<open>LoadedPipeline\<close>, \<open>Loaded\<close>) and what it asked the database to do; nothing reads it.
\<close>

datatype event =
    Prechecked string bool
  | Reserved string
  | Executed string
  | Verified string bool
  | CleanedUp string
  | Completed string
  | Saw string status
  | LoadedPipeline Pipeline
  | Loaded Artifact
  | Started nat
  | CleanupStarted nat
  | CleanupSkipped nat
  | RunCompleted string
  | RunFailed status
  | TerminationBegun status

record 'w Engine =
  eng_store :: Store
  eng_objects :: "(string \<times> string) list"
  eng_world :: 'w
  eng_tick :: nat
  eng_trace :: "event list"

type_synonym ('w, 'a) worker = "('w Engine, 'a) state"

definition attempt :: "('s, 'e + 'a) state \<Rightarrow> ('e \<Rightarrow> ('s, 'b) state) \<Rightarrow> ('a \<Rightarrow> ('s, 'b) state) \<Rightarrow> ('s, 'b) state" where
  "attempt m failed succeeded = do {
     r \<leftarrow> m;
     case r of Inl e \<Rightarrow> failed e | Inr x \<Rightarrow> succeeded x
   }"

text \<open>\<open>if err != nil { return err }\<close>.\<close>

definition check :: "('s, 'e + 'a) state \<Rightarrow> ('a \<Rightarrow> ('s, 'e + 'b) state) \<Rightarrow> ('s, 'e + 'b) state" where
  "check m succeeded = attempt m (\<lambda>e. State_Monad.return (Inl e)) succeeded"

definition newError :: "string \<Rightarrow> failure" where
  "newError message = \<lparr>fl_Message = message, fl_Canceled = False\<rparr>"

text \<open>\<open>fmt.Errorf("prefix: %w", err)\<close>.\<close>

definition wrap :: "string \<Rightarrow> failure \<Rightarrow> failure" where
  "wrap msg e = e\<lparr>fl_Message := msg @ '': '' @ fl_Message e\<rparr>"

definition join :: "failure \<Rightarrow> failure \<Rightarrow> failure" where
  "join a b = \<lparr>fl_Message = fl_Message a @ [CHR 0x0A] @ fl_Message b, fl_Canceled = fl_Canceled a \<or> fl_Canceled b\<rparr>"

definition emit :: "event \<Rightarrow> ('w, unit) worker" where
  "emit ev = State_Monad.update (\<lambda>s. s\<lparr>eng_trace := eng_trace s @ [ev]\<rparr>)"

definition store_failure :: "store_error \<Rightarrow> failure" where
  "store_failure e =
     newError (case e of ErrNotFound \<Rightarrow> ''not found'' | ErrConflict \<Rightarrow> ''conflict'' | ErrInvalid message \<Rightarrow> message | _ \<Rightarrow> ''database error'')"

text \<open>
  A database call: other sessions first commit what they commit; then the call fails or the
  statement runs. A fault reports an error, and its flag tells whether the statement took
  effect nevertheless.
\<close>

definition db :: "'w Env \<Rightarrow> (timestamp \<Rightarrow> Store \<Rightarrow> store_error + 'a \<times> Store) \<Rightarrow> ('w, failure + 'a) worker" where
  "db env f = State (\<lambda>s.
     let n = eng_tick s;
         st = env_others env n (eng_store s);
         result = f (env_now env n) st;
         after = (case result of Inl _ \<Rightarrow> st | Inr (_, st') \<Rightarrow> st');
         s' = s\<lparr>eng_tick := Suc n, eng_store := st\<rparr>
     in case env_fault env n of
          Some (e, effective) \<Rightarrow> (Inl e, if effective then s'\<lparr>eng_store := after\<rparr> else s')
        | None \<Rightarrow>
            ((case result of Inl e \<Rightarrow> Inl (store_failure e) | Inr (x, _) \<Rightarrow> Inr x), s'\<lparr>eng_store := after\<rparr>))"

definition db_write :: "'w Env \<Rightarrow> (timestamp \<Rightarrow> Store \<Rightarrow> store_error + Store) \<Rightarrow> ('w, failure + unit) worker" where
  "db_write env f = db env (\<lambda>now st. map_sum id (Pair ()) (f now st))"

definition db_read :: "'w Env \<Rightarrow> (Store \<Rightarrow> store_error + 'a) \<Rightarrow> ('w, failure + 'a) worker" where
  "db_read env f = db env (\<lambda>now st. map_sum id (\<lambda>x. (x, st)) (f st))"

text \<open>A call of a plugin on the world.\<close>

definition on_world :: "('w \<Rightarrow> 'a \<times> 'w) \<Rightarrow> ('w, 'a) worker" where
  "on_world f = State (\<lambda>s. let (x, w) = f (eng_world s) in (x, s\<lparr>eng_world := w, eng_tick := Suc (eng_tick s)\<rparr>))"

definition ctx_err :: "'w Env \<Rightarrow> ('w, failure option) worker" where
  "ctx_err env = State (\<lambda>s. (env_ctx env (eng_tick s), s\<lparr>eng_tick := Suc (eng_tick s)\<rparr>))"

definition new_id :: "'w Env \<Rightarrow> string \<Rightarrow> ('w, string) worker" where
  "new_id env kind = State (\<lambda>s. (kind @ ''_'' @ env_id env (eng_tick s), s\<lparr>eng_tick := Suc (eng_tick s)\<rparr>))"

definition get_plugin :: "'w Env \<Rightarrow> string \<Rightarrow> ('w, failure + 'w Plugin) worker" where
  "get_plugin env pluginID = State (\<lambda>s.
     ((case Get (env_registry env (eng_tick s)) pluginID of
         Inl _ \<Rightarrow> Inl (newError (''plugin '' @ pluginID @ '' is not installed''))
       | Inr p \<Rightarrow> Inr p), s\<lparr>eng_tick := Suc (eng_tick s)\<rparr>))"

section \<open>The artifact client\<close>

record Stored =
  stored_Key :: string
  stored_Digest :: string
  stored_Size :: int

definition normalizeKey :: "string \<Rightarrow> string" where
  "normalizeKey key = (if has_prefix ''/'' key then key else ''/'' @ key)"

definition OperationKey :: "'w Env \<Rightarrow> string \<Rightarrow> string \<Rightarrow> string" where
  "OperationKey env operationID filename =
     ''/kubephos/operations/'' @ env_escape env operationID @ ''/'' @ env_escape env filename"

definition StepOutputKey :: "'w Env \<Rightarrow> string \<Rightarrow> string \<Rightarrow> string \<Rightarrow> string" where
  "StepOutputKey env operationID stepID output_name =
     ''/kubephos/operations/'' @ env_escape env operationID @ ''/steps/'' @ env_escape env stepID @ ''/'' @
     env_escape env output_name @ ''.json''"

definition Put :: "'w Env \<Rightarrow> string \<Rightarrow> string \<Rightarrow> ('w, failure + Stored) worker" where
  "Put env key value = State (\<lambda>s.
     let n = eng_tick s;
         s' = s\<lparr>eng_tick := Suc n, eng_objects := env_objects env n (eng_objects s)\<rparr>;
         after = s'\<lparr>eng_objects := obj_set (normalizeKey key) value (eng_objects s')\<rparr>
     in case env_fault env n of
          Some (e, effective) \<Rightarrow> (Inl e, if effective then after else s')
        | None \<Rightarrow>
            (Inr \<lparr>stored_Key = normalizeKey key, stored_Digest = env_digest env value, stored_Size = int (length value)\<rparr>, after))"

definition max_stored :: nat where
  "max_stored = MaxArtifactBytes + 1024"

definition read_object :: "'w Env \<Rightarrow> string \<Rightarrow> ('w, failure + string) worker" where
  "read_object env key = State (\<lambda>s.
     let n = eng_tick s;
         s' = s\<lparr>eng_tick := Suc n, eng_objects := env_objects env n (eng_objects s)\<rparr>
     in ((case env_fault env n of
            Some (e, _) \<Rightarrow> Inl e
          | None \<Rightarrow>
              (case map_of (eng_objects s') (normalizeKey key) of
                 None \<Rightarrow> Inl (newError ''artifact download returned 404 Not Found'')
               | Some value \<Rightarrow> Inr (take (max_stored + 1) value))), s'))"

definition ReadVerified :: "'w Env \<Rightarrow> string \<Rightarrow> string \<Rightarrow> int \<Rightarrow> ('w, failure + string) worker" where
  "ReadVerified env key expectedDigest expectedSize =
     (if expectedSize < 0 \<or> int max_stored < expectedSize
      then State_Monad.return (Inl (newError ''stored artifact size is outside the permitted range''))
      else check (read_object env key) (\<lambda>value.
        State_Monad.return
          (if max_stored < length value then Inl (newError ''stored artifact exceeds the limit'')
           else case Verify (env_digest env) value expectedDigest expectedSize of
               Some _ \<Rightarrow> Inl (newError ''artifact mismatch'')
             | None \<Rightarrow> Inr value)))"

section \<open>Ending an operation\<close>

definition append_log :: "'w Env \<Rightarrow> string \<Rightarrow> string \<Rightarrow> string \<Rightarrow> string \<Rightarrow> string \<Rightarrow> ('w, failure + unit) worker" where
  "append_log env operationID stepID level source message =
     db_write env (\<lambda>now. AppendLog operationID stepID level source message)"

definition set_step :: "'w Env \<Rightarrow> string \<Rightarrow> string \<Rightarrow> status \<Rightarrow> RawMessage \<Rightarrow> RawMessage \<Rightarrow> string \<Rightarrow> ('w, failure + unit) worker" where
  "set_step env operationID stepID s result health message =
     db_write env (\<lambda>now. SetStepState now operationID stepID s result health message)"

definition set_status :: "'w Env \<Rightarrow> string \<Rightarrow> status \<Rightarrow> string \<Rightarrow> ('w, failure + unit) worker" where
  "set_status env operationID s message = db_write env (\<lambda>now. SetOperationStatus now operationID s message)"

definition failWithHealth :: "'w Env \<Rightarrow> string \<Rightarrow> string \<Rightarrow> RawMessage \<Rightarrow> failure \<Rightarrow> ('w, unit) worker" where
  "failWithHealth env operationID stepID health e = do {
     _ \<leftarrow> db_write env (\<lambda>now st. Inr (SetOperationManagedResourcesState operationID ''failed'' st));
     _ \<leftarrow> (if stepID \<noteq> [] then set_step env operationID stepID Failed RawEmpty health (fl_Message e)
           else State_Monad.return (Inr ()));
     _ \<leftarrow> db_write env (\<lambda>now. FailOperation now operationID Failed (fl_Message e));
     State_Monad.return ()
   }"

definition fail :: "'w Env \<Rightarrow> string \<Rightarrow> string \<Rightarrow> failure \<Rightarrow> ('w, unit) worker" where
  "fail env operationID stepID e = failWithHealth env operationID stepID RawEmpty e"

definition stop :: "'w Env \<Rightarrow> string \<Rightarrow> string \<Rightarrow> failure \<Rightarrow> ('w, unit) worker" where
  "stop env operationID stepID cause = do {
     requested \<leftarrow> db_read env (OperationCancelRequested operationID);
     if requested = Inr True then do {
       _ \<leftarrow> (if stepID \<noteq> [] then set_step env operationID stepID Canceled RawEmpty RawEmpty ''Canceled by user.''
             else State_Monad.return (Inr ()));
       _ \<leftarrow> db_write env (\<lambda>now. FailOperation now operationID Canceled ''Operation canceled by user.'');
       State_Monad.return ()
     }
     else if fl_Canceled cause
     then fail env operationID stepID
       (newError ''worker stopped before the current step completed; review logs and state before retrying'')
     else fail env operationID stepID cause
   }"

definition stopOrFail :: "'w Env \<Rightarrow> string \<Rightarrow> string \<Rightarrow> failure \<Rightarrow> ('w, unit) worker" where
  "stopOrFail env operationID stepID e =
     (if fl_Canceled e then stop env operationID stepID e else fail env operationID stepID e)"

text \<open>Undoing a step that may have changed the world; the failure that caused it is passed on.\<close>

definition cleanup :: "'w Env \<Rightarrow> Operation \<Rightarrow> PlanStep \<Rightarrow> RawMessage \<Rightarrow> 'w Plugin \<Rightarrow> failure \<Rightarrow> ('w, failure) worker" where
  "cleanup env operation step result plugin cause =
     (if \<not> ps_Mutating step \<and> ps_Effects step = [] then State_Monad.return cause
      else do {
        _ \<leftarrow> emit (CleanedUp (ps_ID step));
        failed \<leftarrow> on_world (plugin_Cleanup plugin step result);
        (case failed of
           Some e \<Rightarrow> State_Monad.return (join cause (wrap ''cleanup failed'' e))
         | None \<Rightarrow> do {
             _ \<leftarrow> db_write env (\<lambda>now st. Inr (SetOperationManagedResourcesState (op_ID operation) ''cleaned'' st));
             State_Monad.return cause
           })
      })"

section \<open>Typed inputs and outputs\<close>

definition persistedStepResult :: "PlanStep \<Rightarrow> RawMessage \<Rightarrow> RawMessage" where
  "persistedStepResult step result =
     (if ps_Outputs step = [] then result
      else RawDoc (JObj [(''artifactOutputs'', JArr (map (\<lambda>output.
        JObj [(''name'', JStr (ao_Name output)), (''sensitive'', JBool (ao_Sensitive output)),
              (''type'', JStr (ao_Type output)), (''version'', JStr (ao_Version output))]) (ps_Outputs step)))]))"

text \<open>The identifiers of the steps before a position, by the identifiers of their planned steps.\<close>

definition earlier_steps :: "Operation \<Rightarrow> nat \<Rightarrow> (string \<times> string) list" where
  "earlier_steps operation position =
     rev (zip (map ps_ID (take position (plan_Steps (op_Plan operation)))) (map os_ID (take position (op_Steps operation))))"

definition find_input :: "'w Env \<Rightarrow> Operation \<Rightarrow> nat \<Rightarrow> ArtifactInput \<Rightarrow> ('w, failure + Artifact) worker" where
  "find_input env operation position input =
     (if ai_ArtifactID input \<noteq> [] then
        check (db_read env (GetArtifact (ai_ArtifactID input))) (\<lambda>artifact.
        check (db_read env (GetOperation (art_OperationID artifact))) (\<lambda>source.
        State_Monad.return
          (if op_WorkspaceID source \<noteq> op_WorkspaceID operation \<or> op_Status source \<noteq> Succeeded
           then Inl (newError ''external artifact does not belong to a successful operation in this workspace'')
           else Inr artifact)))
      else case map_of (earlier_steps operation position) (ai_FromStep input) of
          None \<Rightarrow> State_Monad.return (Inl (newError (''references unavailable step '' @ ai_FromStep input)))
        | Some producerStepID \<Rightarrow> db_read env (GetArtifactByOutput (op_ID operation) producerStepID (ai_FromOutput input)))"

definition open_artifact :: "'w Env \<Rightarrow> Artifact \<Rightarrow> string \<Rightarrow> failure + string" where
  "open_artifact env artifact storedValue =
     (if \<not> art_Sensitive artifact then Inr storedValue
      else case env_vault env of
          None \<Rightarrow> Inl (newError ''cannot be decrypted because the artifact vault is unavailable'')
        | Some v \<Rightarrow> map_sum (wrap ''decrypt'') id (DecryptBound v (art_EncryptionNonce artifact) storedValue (art_ID artifact)))"

definition resolve_input :: "'w Env \<Rightarrow> Operation \<Rightarrow> nat \<Rightarrow> ArtifactInput \<Rightarrow> ('w, failure + ResolvedArtifact) worker" where
  "resolve_input env operation position input =
     check (find_input env operation position input) (\<lambda>artifact.
     if art_Type artifact \<noteq> ai_Type input \<or> art_Version artifact \<noteq> ai_Version input
     then State_Monad.return (Inl (newError (''input '' @ ai_Name input @ '' has another type'')))
     else check (ReadVerified env (art_StorageKey artifact) (art_StorageDigest artifact) (art_StoredSizeBytes artifact)) (\<lambda>storedValue.
     State_Monad.return
       (case open_artifact env artifact storedValue of
          Inl e \<Rightarrow> Inl e
        | Inr value \<Rightarrow>
            if Verify (env_digest env) value (art_Digest artifact) (art_SizeBytes artifact) \<noteq> None
            then Inl (newError ''plaintext mismatch'')
            else if art_MediaType artifact = ''application/json'' \<and> \<not> is_doc (env_json env value)
            then Inl (newError ''contains invalid JSON'')
            else Inr \<lparr>ra_ID = art_ID artifact, ra_Type = art_Type artifact, ra_Version = art_Version artifact,
              ra_MediaType = art_MediaType artifact, ra_Digest = art_Digest artifact, ra_SizeBytes = art_SizeBytes artifact,
              ra_Sensitive = art_Sensitive artifact, ra_Value = env_json env value\<rparr>)))"

fun resolve_inputs ::
  "'w Env \<Rightarrow> Operation \<Rightarrow> nat \<Rightarrow> ArtifactInput list \<Rightarrow> (string \<times> ResolvedArtifact) list \<Rightarrow>
     ('w, failure + (string \<times> ResolvedArtifact) list) worker" where
  "resolve_inputs env operation position [] resolved = State_Monad.return (Inr resolved)"
| "resolve_inputs env operation position (input # inputs) resolved =
     check (resolve_input env operation position input) (\<lambda>artifact.
     resolve_inputs env operation position inputs (obj_set (ai_Name input) artifact resolved))"

definition resolveArtifactInputs :: "'w Env \<Rightarrow> Operation \<Rightarrow> nat \<Rightarrow> PlanStep \<Rightarrow> ('w, failure + PlanStep) worker" where
  "resolveArtifactInputs env operation position step =
     (if ps_ArtifactInputs step = [] then State_Monad.return (Inr step)
      else check (resolve_inputs env operation position (ps_ArtifactInputs step) []) (\<lambda>resolved.
        State_Monad.return (Inr (step\<lparr>ps_ResolvedInputs := resolved\<rparr>))))"

text \<open>The value to store for an output and its nonce: a sensitive value is encrypted and bound to its artifact.\<close>

definition seal :: "'w Env \<Rightarrow> ArtifactOutput \<Rightarrow> string \<Rightarrow> string \<Rightarrow> ('w, failure + string \<times> string) worker" where
  "seal env output artifactID value =
     (if \<not> ao_Sensitive output then State_Monad.return (Inr ([], value))
      else case env_vault env of
          None \<Rightarrow> State_Monad.return (Inl (newError ''artifact vault is unavailable''))
        | Some v \<Rightarrow> State (\<lambda>s. (EncryptBound v (eng_tick s) value artifactID, s\<lparr>eng_tick := Suc (eng_tick s)\<rparr>)))"

definition persist_output ::
  "'w Env \<Rightarrow> Operation \<Rightarrow> OperationStep \<Rightarrow> RawMessage \<Rightarrow> ArtifactOutput \<Rightarrow> ('w, failure + unit) worker" where
  "persist_output env operation step result output =
     (case ExtractJSON result (ao_Source output) of
        Inl _ \<Rightarrow> State_Monad.return (Inl (newError (''extract output '' @ ao_Name output)))
      | Inr document \<Rightarrow> do {
          artifactID \<leftarrow> new_id env ''art'';
          check (seal env output artifactID (render document)) (\<lambda>(encryptionNonce, storageValue).
          check (Put env (StepOutputKey env (op_ID operation) (os_ID step) (ao_Name output)) storageValue) (\<lambda>stored.
          check (ReadVerified env (stored_Key stored) (stored_Digest stored) (stored_Size stored)) (\<lambda>_.
          check (db env (\<lambda>now. CreateArtifact now
            \<lparr>art_ID = artifactID, art_OperationID = op_ID operation, art_StepID = os_ID step, art_OutputName = ao_Name output,
             art_Name = ao_Name output, art_Type = ao_Type output, art_Version = ao_Version output, art_MediaType = ao_MediaType output,
             art_StorageKey = stored_Key stored, art_Digest = env_digest env (render document),
             art_SizeBytes = int (length (render document)), art_StorageDigest = stored_Digest stored,
             art_StoredSizeBytes = stored_Size stored, art_EncryptionNonce = encryptionNonce,
             art_Sensitive = ao_Sensitive output, art_VerifiedAt = 0\<rparr>)) (\<lambda>_.
          append_log env (op_ID operation) (os_ID step) ''info'' (op_PluginID operation)
            (''Stored and verified '' @ ao_Type output @ ''/'' @ ao_Version output @ '' output '' @ ao_Name output)))))
        })"

fun persistStepOutputs ::
  "'w Env \<Rightarrow> Operation \<Rightarrow> OperationStep \<Rightarrow> RawMessage \<Rightarrow> ArtifactOutput list \<Rightarrow> ('w, failure + unit) worker" where
  "persistStepOutputs env operation step result [] = State_Monad.return (Inr ())"
| "persistStepOutputs env operation step result (output # outputs) =
     check (persist_output env operation step result output) (\<lambda>_. persistStepOutputs env operation step result outputs)"

section \<open>Resource effects\<close>

text \<open>Decoding a result into \<open>domain.DiscoveryResult\<close>: keys match without regard to case, null leaves a field as it is.\<close>

fun decode_text :: "string \<Rightarrow> (string \<times> json) list \<Rightarrow> string \<Rightarrow> string option" where
  "decode_text key [] current = Some current"
| "decode_text key ((k, v) # kvs) current =
     (if map lower_char k = key
      then (case v of JStr s \<Rightarrow> decode_text key kvs s | JNull \<Rightarrow> decode_text key kvs current | _ \<Rightarrow> None)
      else decode_text key kvs current)"

definition decode_raw :: "string \<Rightarrow> (string \<times> json) list \<Rightarrow> RawMessage" where
  "decode_raw key kvs = (case map_of (rev (map (\<lambda>(k, v). (map lower_char k, v)) kvs)) key of None \<Rightarrow> RawEmpty | Some v \<Rightarrow> RawDoc v)"

definition decode_resource :: "json \<Rightarrow> DiscoveredResource option" where
  "decode_resource v =
     (let resource = (\<lambda>e k n t kvs.
        \<lparr>dr_ExternalID = e, dr_Kind = k, dr_Name = n, dr_State = t, dr_Metadata = decode_raw ''metadata'' kvs\<rparr>)
      in case v of
        JNull \<Rightarrow> Some (resource [] [] [] [] [])
      | JObj kvs \<Rightarrow>
          (case (decode_text ''externalid'' kvs [], decode_text ''kind'' kvs [], decode_text ''name'' kvs [], decode_text ''state'' kvs []) of
             (Some e, Some k, Some n, Some t) \<Rightarrow> Some (resource e k n t kvs)
           | _ \<Rightarrow> None)
      | _ \<Rightarrow> None)"

fun decode_resources :: "(string \<times> json) list \<Rightarrow> DiscoveredResource list \<Rightarrow> DiscoveredResource list option" where
  "decode_resources [] current = Some current"
| "decode_resources ((k, v) # kvs) current =
     (if map lower_char k = ''resources''
      then (case v of
              JArr xs \<Rightarrow>
                (if list_all (\<lambda>x. decode_resource x \<noteq> None) xs then decode_resources kvs (map (the \<circ> decode_resource) xs) else None)
            | JNull \<Rightarrow> decode_resources kvs []
            | _ \<Rightarrow> None)
      else decode_resources kvs current)"

definition decode_discovery :: "RawMessage \<Rightarrow> DiscoveredResource list option" where
  "decode_discovery raw =
     (case unmarshal raw of Some (JObj kvs) \<Rightarrow> decode_resources kvs [] | Some JNull \<Rightarrow> Some [] | _ \<Rightarrow> None)"

definition AppendAuditEvent :: "AuditEvent \<Rightarrow> Store \<Rightarrow> store_error + Store" where
  "AppendAuditEvent event st =
     (if \<not> nullableJSON (au_Details event) then Inl ErrEncode
      else Inr (st\<lparr>db_audit := db_audit st @ [event\<lparr>au_Details := default_metadata (au_Details event)\<rparr>]\<rparr>))"

definition audit :: "'w Env \<Rightarrow> string \<Rightarrow> string \<Rightarrow> string \<Rightarrow> json \<Rightarrow> ('w, failure + unit) worker" where
  "audit env action targetType targetID details =
     db_write env (\<lambda>now. AppendAuditEvent
       \<lparr>au_Actor = ''worker'', au_Action = action, au_TargetType = targetType, au_TargetID = targetID,
        au_Outcome = ''succeeded'', au_Details = RawDoc details\<rparr>)"

definition effect_details :: "string \<Rightarrow> string \<Rightarrow> string \<Rightarrow> json" where
  "effect_details operationID ledgerID state =
     JObj [(''externalId'', JStr ledgerID), (''operationId'', JStr operationID), (''state'', JStr state)]"

definition ledger_failure :: failure where
  "ledger_failure = newError ''managed resource requires a connection and an external identity''"

text \<open>The resources a step declares to create, each with a fresh identifier.\<close>

fun collect_creates ::
  "'w Env \<Rightarrow> string \<Rightarrow> string \<Rightarrow> RawMessage \<Rightarrow> ResourceEffect list \<Rightarrow> InfrastructureResource list \<Rightarrow>
     ('w, failure + InfrastructureResource list) worker" where
  "collect_creates env provider workspaceID input [] creates = State_Monad.return (Inr creates)"
| "collect_creates env provider workspaceID input (effect # effects) creates =
     (case LedgerID provider input (re_ExternalID effect) of
        None \<Rightarrow> State_Monad.return (Inl ledger_failure)
      | Some ledgerID \<Rightarrow>
          if re_Action effect = ''create'' then do {
            resourceID \<leftarrow> new_id env ''res'';
            collect_creates env provider workspaceID input effects (creates @
              [\<lparr>ir_ID = resourceID, ir_Provider = provider, ir_ExternalID = ledgerID, ir_WorkspaceID = workspaceID,
                ir_Kind = re_Kind effect, ir_Name = re_Name effect, ir_State = [], ir_Ownership = ''managed'',
                ir_Protection = ''managed'', ir_Metadata = RawEmpty\<rparr>])
          }
          else collect_creates env provider workspaceID input effects creates)"

text \<open>Recording or authorising one effect; a failed record of a reservation releases the reservations.\<close>

definition release :: "'w Env \<Rightarrow> string \<Rightarrow> InfrastructureResource list \<Rightarrow> failure \<Rightarrow> ('w, failure + unit) worker" where
  "release env operationID creates e = do {
     _ \<leftarrow> db_write env (\<lambda>now st. Inr (ReleaseManagedResourceReservations creates operationID st));
     State_Monad.return (Inl e)
   }"

definition authorize_effect ::
  "'w Env \<Rightarrow> Operation \<Rightarrow> string \<Rightarrow> PlanStep \<Rightarrow> string \<Rightarrow> InfrastructureResource list \<Rightarrow> (string \<times> string) list \<Rightarrow> ResourceEffect \<Rightarrow>
     ('w, failure + unit) worker" where
  "authorize_effect env operation stepID step provider creates createIDs effect =
     (case LedgerID provider (ps_Input step) (re_ExternalID effect) of
        None \<Rightarrow> State_Monad.return (Inl ledger_failure)
      | Some ledgerID \<Rightarrow>
          if re_Action effect = ''create'' then
            attempt (audit env ''infrastructure.reserve'' (re_Kind effect)
                (case map_of createIDs ledgerID of None \<Rightarrow> [] | Some k \<Rightarrow> k) (effect_details (op_ID operation) ledgerID ''reserved''))
              (release env (op_ID operation) creates) (\<lambda>_.
            attempt (append_log env (op_ID operation) stepID ''info'' (op_PluginID operation)
                (''Reserved managed resource '' @ re_ExternalID effect @ '' before execution''))
              (release env (op_ID operation) creates) (\<lambda>_. State_Monad.return (Inr ())))
          else if re_Action effect = ''delete'' \<or> re_Action effect = ''update'' then
            check (db_read env (\<lambda>st.
                case (if ps_Cleanup step then AuthorizeManagedCleanup provider ledgerID (op_WorkspaceID operation) st
                      else AuthorizeManagedResource provider ledgerID (op_WorkspaceID operation) st) of
                  Some e \<Rightarrow> Inl e
                | None \<Rightarrow> Inr ())) (\<lambda>_.
            append_log env (op_ID operation) stepID ''warning'' (op_PluginID operation)
              (''Authorized '' @ re_Action effect @ '' of managed resource '' @ re_ExternalID effect))
          else State_Monad.return (Inl (newError (''unsupported resource effect '' @ re_Action effect))))"

fun authorize_effects ::
  "'w Env \<Rightarrow> Operation \<Rightarrow> string \<Rightarrow> PlanStep \<Rightarrow> string \<Rightarrow> InfrastructureResource list \<Rightarrow> (string \<times> string) list \<Rightarrow> ResourceEffect list \<Rightarrow>
     ('w, failure + unit) worker" where
  "authorize_effects env operation stepID step provider creates createIDs [] = State_Monad.return (Inr ())"
| "authorize_effects env operation stepID step provider creates createIDs (effect # effects) =
     check (authorize_effect env operation stepID step provider creates createIDs effect) (\<lambda>_.
     authorize_effects env operation stepID step provider creates createIDs effects)"

definition reserveEffects :: "'w Env \<Rightarrow> Operation \<Rightarrow> string \<Rightarrow> PlanStep \<Rightarrow> ('w, failure + unit) worker" where
  "reserveEffects env operation stepID step =
     check (get_plugin env (op_PluginID operation)) (\<lambda>plugin.
     let provider = mf_Provider (plugin_Manifest plugin) in
     if provider = [] \<and> ps_Effects step \<noteq> []
     then State_Monad.return (Inl (newError ''resource effects require a provider identity''))
     else check (collect_creates env provider (op_WorkspaceID operation) (ps_Input step) (ps_Effects step) []) (\<lambda>creates.
       check (db env (\<lambda>now. ReserveManagedResources creates (op_ID operation))) (\<lambda>createIDs.
       authorize_effects env operation stepID step provider creates createIDs (ps_Effects step))))"

definition complete_effect ::
  "'w Env \<Rightarrow> Operation \<Rightarrow> PlanStep \<Rightarrow> string \<Rightarrow> (string \<times> DiscoveredResource) list \<Rightarrow> ResourceEffect \<Rightarrow> ('w, failure + unit) worker" where
  "complete_effect env operation step provider resources effect =
     (case LedgerID provider (ps_Input step) (re_ExternalID effect) of
        None \<Rightarrow> State_Monad.return (Inl ledger_failure)
      | Some ledgerID \<Rightarrow>
          if re_Action effect = ''create'' \<or> re_Action effect = ''update'' then
            (case map_of resources (re_ExternalID effect) of
               None \<Rightarrow> State_Monad.return (Inl (newError (if re_Action effect = ''create''
                 then ''managed resource result is missing '' @ re_ExternalID effect
                 else ''updated resource '' @ re_ExternalID effect @ '' is missing'')))
             | Some found \<Rightarrow>
                 let resource = found\<lparr>dr_ExternalID := ledgerID\<rparr> in
                 check (db_write env (\<lambda>now st.
                     if re_Action effect = ''create'' then CompleteManagedResource (op_ID operation) provider resource st
                     else UpdateManagedResource provider (op_WorkspaceID operation) resource st)) (\<lambda>_.
                 audit env (''infrastructure.'' @ re_Action effect) (re_Kind effect) ledgerID
                   (effect_details (op_ID operation) ledgerID (dr_State resource))))
          else if re_Action effect = ''delete'' then
            check (db_write env (\<lambda>now. SetManagedResourceState provider ledgerID (op_WorkspaceID operation) ''deleted'')) (\<lambda>_.
            audit env ''infrastructure.delete'' (re_Kind effect) ledgerID (effect_details (op_ID operation) ledgerID ''deleted''))
          else State_Monad.return (Inr ()))"

fun complete_effects ::
  "'w Env \<Rightarrow> Operation \<Rightarrow> PlanStep \<Rightarrow> string \<Rightarrow> (string \<times> DiscoveredResource) list \<Rightarrow> ResourceEffect list \<Rightarrow> ('w, failure + unit) worker" where
  "complete_effects env operation step provider resources [] = State_Monad.return (Inr ())"
| "complete_effects env operation step provider resources (effect # effects) =
     check (complete_effect env operation step provider resources effect) (\<lambda>_.
     complete_effects env operation step provider resources effects)"

definition completeEffects :: "'w Env \<Rightarrow> Operation \<Rightarrow> PlanStep \<Rightarrow> RawMessage \<Rightarrow> ('w, failure + unit) worker" where
  "completeEffects env operation step raw =
     check (get_plugin env (op_PluginID operation)) (\<lambda>plugin.
     case decode_discovery raw of
       None \<Rightarrow> State_Monad.return (Inl (newError ''decode managed resource result''))
     | Some resources \<Rightarrow>
         complete_effects env operation step (mf_Provider (plugin_Manifest plugin))
           (rev (map (\<lambda>r. (dr_ExternalID r, r)) resources)) (ps_Effects step))"

fun import_resources ::
  "'w Env \<Rightarrow> string \<Rightarrow> RawMessage \<Rightarrow> DiscoveredResource list \<Rightarrow> InfrastructureResource list \<Rightarrow>
     ('w, failure + InfrastructureResource list) worker" where
  "import_resources env provider spec [] resources = State_Monad.return (Inr resources)"
| "import_resources env provider spec (discovered # rest) resources =
     (if dr_ExternalID discovered = [] \<or> dr_Kind discovered = [] \<or> dr_Name discovered = []
      then State_Monad.return (Inl (newError ''discovery result contains an incomplete resource identity''))
      else case LedgerID provider spec (dr_ExternalID discovered) of
          None \<Rightarrow> State_Monad.return (Inl ledger_failure)
        | Some ledgerID \<Rightarrow> do {
            resourceID \<leftarrow> new_id env ''res'';
            import_resources env provider spec rest (resources @
              [\<lparr>ir_ID = resourceID, ir_Provider = provider, ir_ExternalID = ledgerID, ir_WorkspaceID = [],
                ir_Kind = dr_Kind discovered, ir_Name = dr_Name discovered, ir_State = dr_State discovered,
                ir_Ownership = ''imported'', ir_Protection = ''read-only'', ir_Metadata = dr_Metadata discovered\<rparr>])
          })"

definition captureDiscovery :: "'w Env \<Rightarrow> Operation \<Rightarrow> string \<Rightarrow> RawMessage \<Rightarrow> ('w, failure + unit) worker" where
  "captureDiscovery env operation stepID raw =
     check (get_plugin env (op_PluginID operation)) (\<lambda>plugin.
     let provider = mf_Provider (plugin_Manifest plugin) in
     if provider = [] then State_Monad.return (Inl (newError ''infrastructure discovery requires a provider identity''))
     else case decode_discovery raw of
         None \<Rightarrow> State_Monad.return (Inl (newError ''decode discovery result''))
       | Some [] \<Rightarrow> State_Monad.return (Inr ())
       | Some discovered \<Rightarrow>
           check (import_resources env provider (op_Spec operation) discovered []) (\<lambda>resources.
           check (db_write env (\<lambda>now st. Inr (SyncDiscoveredResources resources st))) (\<lambda>_.
           check (audit env ''infrastructure.discovery'' ''provider'' (op_PluginID operation)
             (JObj [(''count'', JNum (show_nat (length resources))), (''operationId'', JStr (op_ID operation)),
                    (''ownership'', JStr ''imported''), (''protection'', JStr ''read-only'')])) (\<lambda>_.
           append_log env (op_ID operation) stepID ''info'' (op_PluginID operation)
             (''Inventory ledger updated with '' @ show_nat (length resources) @ '' imported read-only resource(s)'')))))"

section \<open>Processing an operation\<close>

definition health_name :: "health_status \<Rightarrow> string" where
  "health_name h =
     (case h of HealthUnknown \<Rightarrow> ''unknown'' | HealthHealthy \<Rightarrow> ''healthy'' | HealthDegraded \<Rightarrow> ''degraded'' | HealthUnhealthy \<Rightarrow> ''unhealthy'')"

definition health_raw :: "HealthReport \<Rightarrow> RawMessage" where
  "health_raw h =
     RawDoc (JObj [(''status'', JStr (health_name (hr_Status h))), (''summary'', JStr (hr_Summary h)),
       (''checks'', JObj (map (\<lambda>(k, v). (k, JStr v)) (hr_Checks h)))])"

definition healthy :: "HealthReport \<Rightarrow> bool" where
  "healthy h \<longleftrightarrow> hr_Status h = HealthHealthy"

definition healthy_result :: "failure + HealthReport \<Rightarrow> bool" where
  "healthy_result r \<longleftrightarrow> (case r of Inl _ \<Rightarrow> False | Inr h \<Rightarrow> healthy h)"

definition precheck :: "'w Plugin \<Rightarrow> PlanStep \<Rightarrow> ('w, failure + HealthReport) worker" where
  "precheck plugin step = do {
     r \<leftarrow> on_world (plugin_Precheck plugin step);
     _ \<leftarrow> emit (Prechecked (ps_ID step) (healthy_result r));
     State_Monad.return r
   }"

definition verify :: "'w Plugin \<Rightarrow> PlanStep \<Rightarrow> RawMessage \<Rightarrow> ('w, failure + HealthReport) worker" where
  "verify plugin step result = do {
     r \<leftarrow> on_world (plugin_Verify plugin step result);
     _ \<leftarrow> emit (Verified (ps_ID step) (healthy_result r));
     State_Monad.return r
   }"

definition execute :: "'w Plugin \<Rightarrow> PlanStep \<Rightarrow> ('w, failure \<times> RawMessage + RawMessage) worker" where
  "execute plugin step = do {
     _ \<leftarrow> emit (Executed (ps_ID step));
     r \<leftarrow> on_world (plugin_Execute plugin step);
     State_Monad.return (case r of (result, Some e) \<Rightarrow> Inl (e, result) | (result, None) \<Rightarrow> Inr result)
   }"

definition runCleanupStep ::
  "'w Env \<Rightarrow> Operation \<Rightarrow> string \<Rightarrow> PlanStep \<Rightarrow> 'w Plugin \<Rightarrow> RawMessage \<Rightarrow> ('w, failure + unit) worker" where
  "runCleanupStep env operation stepID step plugin prechecked = do {
     _ \<leftarrow> emit (CleanedUp (ps_ID step));
     failed \<leftarrow> on_world (plugin_Cleanup plugin step RawEmpty);
     (case failed of
        Some e \<Rightarrow> State_Monad.return (Inl (wrap ''cleanup execution failed'' e))
      | None \<Rightarrow>
          check (set_step env (op_ID operation) stepID Verifying RawEmpty prechecked []) (\<lambda>_.
          check (set_status env (op_ID operation) Verifying (''Verifying '' @ ps_Name step @ ''.'')) (\<lambda>_.
          check (verify plugin step RawEmpty) (\<lambda>health.
          if \<not> healthy health then State_Monad.return (Inl (newError (''cleanup health gate failed: '' @ hr_Summary health)))
          else check (if ps_Effects step \<noteq> [] then completeEffects env operation step (RawDoc (JObj [(''resources'', JArr [])]))
                      else State_Monad.return (Inr ())) (\<lambda>_.
            set_step env (op_ID operation) stepID Succeeded (RawDoc (JObj [(''cleanup'', JStr ''completed'')]))
              (health_raw health) [])))))
   }"

text \<open>How a step ends: the loop goes on, the function returns, or it panics.\<close>

datatype outcome = Continue | Returned | Panicked

definition give_up :: "('w, unit) worker \<Rightarrow> ('w, outcome) worker" where
  "give_up m = do { _ \<leftarrow> m; State_Monad.return Returned }"

text \<open>\<open>err = w.cleanup(...); w.fail(...)\<close>, the ending of a step that has been executed.\<close>

definition undo ::
  "'w Env \<Rightarrow> Operation \<Rightarrow> PlanStep \<Rightarrow> RawMessage \<Rightarrow> 'w Plugin \<Rightarrow> (failure \<Rightarrow> ('w, unit) worker) \<Rightarrow> failure \<Rightarrow> ('w, outcome) worker" where
  "undo env operation step result plugin report e = do {
     e' \<leftarrow> cleanup env operation step result plugin e;
     give_up (report e')
   }"

text \<open>From the result of a step to its success: verification, outputs, discovery and effects.\<close>

definition settle_step ::
  "'w Env \<Rightarrow> Operation \<Rightarrow> OperationStep \<Rightarrow> PlanStep \<Rightarrow> PlanStep \<Rightarrow> 'w Plugin \<Rightarrow> RawMessage \<Rightarrow> ('w, outcome) worker" where
  "settle_step env operation step planned runtimeStep plugin result =
     (let failing = undo env operation runtimeStep result plugin (fail env (op_ID operation) (os_ID step));
          persisted = persistedStepResult planned result
      in attempt (set_step env (op_ID operation) (os_ID step) Verifying persisted RawEmpty []) failing (\<lambda>_.
         attempt (set_status env (op_ID operation) Verifying (''Verifying '' @ os_Name step @ ''.'')) failing (\<lambda>_.
         attempt (verify plugin runtimeStep result)
           (undo env operation runtimeStep result plugin (stopOrFail env (op_ID operation) (os_ID step))) (\<lambda>health.
         if \<not> healthy health
         then undo env operation runtimeStep result plugin
           (failWithHealth env (op_ID operation) (os_ID step) (health_raw health))
           (newError (''health gate failed: '' @ hr_Summary health))
         else attempt (persistStepOutputs env operation step result (ps_Outputs planned))
           (\<lambda>e. failing (wrap ''persist typed outputs'' e)) (\<lambda>_.
         attempt (if HasCapability (plugin_Manifest plugin) ''infrastructure.discovery''
                  then captureDiscovery env operation (os_ID step) result else State_Monad.return (Inr ()))
           (\<lambda>e. give_up (fail env (op_ID operation) (os_ID step) e)) (\<lambda>_.
         attempt (if ps_Effects planned \<noteq> [] then completeEffects env operation planned result else State_Monad.return (Inr ()))
           failing (\<lambda>_.
         attempt (set_step env (op_ID operation) (os_ID step) Succeeded persisted (health_raw health) []) failing (\<lambda>_.
         State_Monad.return Continue))))))))"

definition perform_step ::
  "'w Env \<Rightarrow> Operation \<Rightarrow> OperationStep \<Rightarrow> nat \<Rightarrow> PlanStep \<Rightarrow> 'w Plugin \<Rightarrow> ('w, outcome) worker" where
  "perform_step env operation step position planned plugin =
     (let failing = (\<lambda>e. give_up (fail env (op_ID operation) (os_ID step) e))
      in attempt (set_step env (op_ID operation) (os_ID step) Prechecking RawEmpty RawEmpty []) failing (\<lambda>_.
         attempt (set_status env (op_ID operation) Prechecking (''Prechecking '' @ os_Name step @ ''.'')) failing (\<lambda>_.
         attempt (resolveArtifactInputs env operation position planned) (\<lambda>e. failing (wrap ''validate artifact inputs'' e)) (\<lambda>runtimeStep.
         attempt (if ps_ResolvedInputs runtimeStep \<noteq> []
                  then append_log env (op_ID operation) (os_ID step) ''info'' (op_PluginID operation)
                    (''Verified '' @ show_nat (length (ps_ResolvedInputs runtimeStep)) @ '' typed artifact input(s) before execution'')
                  else State_Monad.return (Inr ())) failing (\<lambda>_.
         attempt (precheck plugin runtimeStep) (\<lambda>e. give_up (stopOrFail env (op_ID operation) (os_ID step) e)) (\<lambda>health.
         if \<not> healthy health
         then give_up (failWithHealth env (op_ID operation) (os_ID step) (health_raw health)
           (newError (''precheck failed: '' @ hr_Summary health)))
         else attempt (set_step env (op_ID operation) (os_ID step) Running RawEmpty (health_raw health) []) failing (\<lambda>_.
         attempt (set_status env (op_ID operation) Running (''Running '' @ os_Name step @ ''.'')) failing (\<lambda>_.
         attempt (reserveEffects env operation (os_ID step) planned) failing (\<lambda>_. do {
           _ \<leftarrow> emit (Reserved (ps_ID planned));
           if ps_Cleanup planned
           then attempt (runCleanupStep env operation (os_ID step) runtimeStep plugin (health_raw health))
             (\<lambda>e. give_up (stopOrFail env (op_ID operation) (os_ID step) e)) (\<lambda>_. State_Monad.return Continue)
           else attempt (execute plugin runtimeStep)
             (\<lambda>(e, result). undo env operation runtimeStep result plugin (stopOrFail env (op_ID operation) (os_ID step)) e)
             (settle_step env operation step planned runtimeStep plugin)
         })))))))))"

text \<open>One turn of the loop over the steps: the context is checked, and the planned step is looked up by position.\<close>

definition process_step :: "'w Env \<Rightarrow> Operation \<Rightarrow> 'w Plugin \<Rightarrow> nat \<Rightarrow> OperationStep \<Rightarrow> ('w, outcome) worker" where
  "process_step env operation plugin position step = do {
     canceled \<leftarrow> ctx_err env;
     (case canceled of
        Some e \<Rightarrow> give_up (stop env (op_ID operation) (os_ID step) e)
      | None \<Rightarrow>
          if position < length (plan_Steps (op_Plan operation))
          then perform_step env operation step position (plan_Steps (op_Plan operation) ! position) plugin
          else State_Monad.return Panicked)
   }"

fun process_steps :: "'w Env \<Rightarrow> Operation \<Rightarrow> 'w Plugin \<Rightarrow> nat \<Rightarrow> OperationStep list \<Rightarrow> ('w, outcome) worker" where
  "process_steps env operation plugin position [] = State_Monad.return Continue"
| "process_steps env operation plugin position (step # steps) = do {
     r \<leftarrow> process_step env operation plugin position step;
     (if r = Continue then process_steps env operation plugin (Suc position) steps else State_Monad.return r)
   }"

text \<open>After the last step: the result artifact, and the completion of the operation.\<close>

definition finish :: "'w Env \<Rightarrow> Operation \<Rightarrow> ('w, unit) worker" where
  "finish env operation =
     (let failing = fail env (op_ID operation) []
      in attempt (db_read env (GetOperation (op_ID operation))) (\<lambda>e. failing (wrap ''read completed steps'' e)) (\<lambda>latest.
         attempt (State (\<lambda>s. (env_result env operation (op_Steps latest) (env_now env (eng_tick s)), s))) failing (\<lambda>value.
         attempt (Put env (OperationKey env (op_ID operation) ''result.json'') value) (\<lambda>e. failing (wrap ''store result artifact'' e)) (\<lambda>stored. do {
           artifactID \<leftarrow> new_id env ''art'';
           attempt (db env (\<lambda>now. CreateArtifact now
             \<lparr>art_ID = artifactID, art_OperationID = op_ID operation, art_StepID = [], art_OutputName = [], art_Name = ''Result'',
              art_Type = ''RunResult'', art_Version = ''v1alpha1'', art_MediaType = ''application/json'',
              art_StorageKey = stored_Key stored, art_Digest = stored_Digest stored, art_SizeBytes = stored_Size stored,
              art_StorageDigest = [], art_StoredSizeBytes = 0, art_EncryptionNonce = [], art_Sensitive = False, art_VerifiedAt = 0\<rparr>))
             (\<lambda>e. failing (wrap ''save artifact metadata'' e)) (\<lambda>_. do {
             _ \<leftarrow> append_log env (op_ID operation) [] ''info'' ''artifacts'' ''Result artifact stored and verified.'';
             _ \<leftarrow> emit (Completed (op_ID operation));
             _ \<leftarrow> db_write env (\<lambda>now. CompleteOperation now (op_ID operation));
             State_Monad.return ()
           })
         }))))"

definition process :: "'w Env \<Rightarrow> string \<Rightarrow> Operation \<Rightarrow> ('w, unit) worker" where
  "process env owner operation =
     attempt (get_plugin env (op_PluginID operation)) (fail env (op_ID operation) []) (\<lambda>plugin.
     if \<not> Matches (plugin_Manifest plugin) (op_PluginVersion operation) (op_PluginDigest operation)
     then fail env (op_ID operation) [] (newError ''installed plugin runtime no longer matches the validated operation'')
     else do {
       _ \<leftarrow> append_log env (op_ID operation) [] ''info'' ''worker'' (''Worker '' @ owner @ '' claimed the operation.'');
       r \<leftarrow> process_steps env operation plugin 0 (op_Steps operation);
       (if r = Continue then finish env operation else State_Monad.return ())
     })"

text \<open>A slot claims one operation and processes it; finding none it only waits.\<close>

definition run_slot :: "'w Env \<Rightarrow> (string \<Rightarrow> bool) \<Rightarrow> string \<Rightarrow> ('w, unit) worker" where
  "run_slot env locked owner =
     attempt (db env (\<lambda>now st. case ClaimOperation now locked owner st of
         None \<Rightarrow> Inr (None, st)
       | Some (operation, st') \<Rightarrow> Inr (Some operation, st'))) (\<lambda>_. State_Monad.return ())
     (\<lambda>claimed. case claimed of None \<Rightarrow> State_Monad.return () | Some operation \<Rightarrow> process env owner operation)"

end
