(* ===== verification/Coordinator.thy ===== *)
theory Coordinator
  imports Worker Workflows RunStore
begin

text \<open>
  The pipeline coordinator of \<open>engine/pipelines.go\<close> and \<open>engine/pipeline_scheduling.go\<close>: one
  reconciliation of a claimed run. It reads the states of the stages' operations, starts the
  stages that are ready, cleans up after a run and ends it. Like the worker it is a program over
  the environment of theory \<open>Worker\<close>; every call may fail, and other sessions commit in between.
  The heartbeat that renews the lease during a health check is such a session.
\<close>

section \<open>Library functions and errors\<close>

text \<open>
  The Go functions the coordinator uses beside those of \<^typ>\<open>golib\<close>: the JSON texts of plans and of
  the hashed part of a stage (\<open>None\<close>: encoding or decoding fails), the hexadecimal digest, and the
  texts of errors; and the configured poll interval in seconds.
\<close>

record runtime =
  rt_lib :: golib
  rt_plan_text :: "Plan \<Rightarrow> string option"
  rt_plan_parse :: "string \<Rightarrow> Plan option"
  rt_stage_text :: "ResolvedPipelineStage \<Rightarrow> string option"
  rt_sha256 :: "string \<Rightarrow> string"
  rt_error :: "workflow_error \<Rightarrow> string"
  rt_poll :: nat

text \<open>A function ends with an error or panics; a deferred call runs in both cases.\<close>

datatype fault = Error failure | Crash

definition lifted :: "('w, failure + 'a) worker \<Rightarrow> ('w, fault + 'a) worker" where
  "lifted m = do { r \<leftarrow> m; State_Monad.return (map_sum Error id r) }"

definition status_name :: "status \<Rightarrow> string" where
  "status_name s =
     (case s of
        Ready \<Rightarrow> ''ready'' | Queued \<Rightarrow> ''queued'' | Prechecking \<Rightarrow> ''prechecking'' | Running \<Rightarrow> ''running''
      | Verifying \<Rightarrow> ''verifying'' | Succeeded \<Rightarrow> ''succeeded'' | Failed \<Rightarrow> ''failed'' | Canceled \<Rightarrow> ''canceled''
      | Pending \<Rightarrow> ''pending'' | Skipped \<Rightarrow> ''skipped'' | NoStatus \<Rightarrow> [] | Initializing \<Rightarrow> ''initializing''
      | Initialized \<Rightarrow> ''initialized'')"

section \<open>Stopping and ending a run\<close>

definition observe :: "'w Env \<Rightarrow> string \<Rightarrow> ('w, failure + Operation) worker" where
  "observe env operationID =
     check (db_read env (GetOperation operationID)) (\<lambda>operation. do {
       _ \<leftarrow> emit (Saw operationID (op_Status operation));
       State_Monad.return (Inr operation)
     })"

text \<open>A cancellation that conflicts with the end of the operation is ignored.\<close>

definition request_stop :: "'w Env \<Rightarrow> string \<Rightarrow> ('w, failure + unit) worker" where
  "request_stop env operationID =
     db_write env (\<lambda>now st. case RequestCancel now operationID st of Inl ErrConflict \<Rightarrow> Inr st | r \<Rightarrow> r)"

fun stopPipelineOperations :: "'w Env \<Rightarrow> PipelineRunStage list \<Rightarrow> bool \<Rightarrow> ('w, failure + bool) worker" where
  "stopPipelineOperations env [] stopped = State_Monad.return (Inr stopped)"
| "stopPipelineOperations env (stage # stages) stopped =
     (if st_OperationID stage = [] then stopPipelineOperations env stages stopped
      else check (observe env (st_OperationID stage)) (\<lambda>operation.
        check (db_write env (\<lambda>now st. Inr (SyncPipelineRunStage now (st_ID stage) operation st))) (\<lambda>_.
        if terminalOperation (op_Status operation) then stopPipelineOperations env stages stopped
        else check (request_stop env (op_ID operation)) (\<lambda>_. stopPipelineOperations env stages False))))"

definition fail_run_stage :: "'w Env \<Rightarrow> PipelineRun \<Rightarrow> int \<Rightarrow> status \<Rightarrow> failure \<Rightarrow> ('w, failure + unit) worker" where
  "fail_run_stage env run position s cause =
     (if 0 \<le> position \<and> position < int (length (run_Stages run))
      then db_write env (\<lambda>now. FailPipelineRunStage now (st_ID (run_Stages run ! nat position)) s (fl_Message cause))
      else State_Monad.return (Inr ()))"

definition end_failed :: "'w Env \<Rightarrow> string \<Rightarrow> PipelineRun \<Rightarrow> status \<Rightarrow> string \<Rightarrow> ('w, failure + unit) worker" where
  "end_failed env owner run s message = do {
     _ \<leftarrow> emit (RunFailed s);
     db_write env (\<lambda>now. FailPipelineRun now (run_ID run) owner s message)
   }"

definition failPipelineRun :: "'w Env \<Rightarrow> string \<Rightarrow> PipelineRun \<Rightarrow> int \<Rightarrow> failure \<Rightarrow> ('w, failure + unit) worker" where
  "failPipelineRun env owner run position cause =
     check (fail_run_stage env run position Failed cause) (\<lambda>_. end_failed env owner run Failed (fl_Message cause))"

definition begin_termination :: "'w Env \<Rightarrow> string \<Rightarrow> PipelineRun \<Rightarrow> status \<Rightarrow> failure \<Rightarrow> ('w, failure + unit) worker" where
  "begin_termination env owner run s cause =
     check (stopPipelineOperations env (run_Stages run) True) (\<lambda>_. do {
       _ \<leftarrow> emit (TerminationBegun s);
       db_write env (\<lambda>now. BeginPipelineRunTermination (run_ID run) owner s (fl_Message cause))
     })"

definition deferPipelineTermination ::
  "'w Env \<Rightarrow> string \<Rightarrow> PipelineRun \<Rightarrow> Pipeline \<Rightarrow> int \<Rightarrow> status \<Rightarrow> failure \<Rightarrow> ('w, failure + unit) worker" where
  "deferPipelineTermination env owner run pipeline position s cause =
     check (fail_run_stage env run position (if s = Canceled then Canceled else Failed) cause) (\<lambda>_.
     if \<not> pd_CleanupAfterRun (pl_Definition pipeline) \<and> pd_MaxParallelStages (pl_Definition pipeline) \<le> 1
     then check (stopPipelineOperations env (run_Stages run) True) (\<lambda>stopped.
       if stopped then end_failed env owner run s (fl_Message cause) else begin_termination env owner run s cause)
     else begin_termination env owner run s cause)"

section \<open>Starting a stage\<close>

definition ResolveRuntimeTokens ::
  "runtime \<Rightarrow> ResolvedPipelineStage \<Rightarrow> (string \<times> string) list \<Rightarrow> failure + ResolvedPipelineStage" where
  "ResolveRuntimeTokens rt stage values =
     (case rt_plan_text rt (rps_Plan stage) of
        None \<Rightarrow> Inl (newError ''plan encoding'')
      | Some raw \<Rightarrow>
          (case rt_plan_parse rt (fold (\<lambda>(token, replacement) value. replace_all token replacement value) values raw) of
             None \<Rightarrow> Inl (newError ''plan decoding'')
           | Some plan \<Rightarrow> Inr (stage\<lparr>rps_Plan := plan\<rparr>)))"

definition RuntimeExecutionIDToken :: string where
  "RuntimeExecutionIDToken = ''${KUBEPHOS_EXECUTION_ID}''"

definition pipelineStageHash :: "runtime \<Rightarrow> ResolvedPipelineStage \<Rightarrow> failure + string" where
  "pipelineStageHash rt stage =
     (case rt_stage_text rt stage of None \<Rightarrow> Inl (newError ''stage encoding'') | Some payload \<Rightarrow> Inr (rt_sha256 rt payload))"

definition info_issue :: "string \<Rightarrow> ValidationIssue" where
  "info_issue message = \<lparr>vi_Level = ''info'', vi_Path = ''pipeline'', vi_Message = message\<rparr>"

definition separator :: string where
  "separator = '' '' @ [CHR 0xC2, CHR 0xB7] @ '' ''"

definition stage_title :: "string \<Rightarrow> PipelineRun \<Rightarrow> PipelineRunStage \<Rightarrow> string" where
  "stage_title part run stage = run_Name run @ separator @ part @ st_Title stage"

text \<open>The operation a stage is executed or cleaned up by, before it is stored.\<close>

definition stage_operation ::
  "string \<Rightarrow> string \<Rightarrow> string \<Rightarrow> ResolvedPipelineStage \<Rightarrow> ValidationReport \<Rightarrow> string \<Rightarrow> Operation" where
  "stage_operation operationID workspaceID title resolved validation planHash =
     \<lparr>op_ID = operationID, op_WorkspaceID = workspaceID, op_PluginID = rps_PluginID resolved,
      op_PluginVersion = rps_PluginVersion resolved, op_PluginDigest = rps_PluginDigest resolved, op_Title = title, op_Status = Queued,
      op_Spec = rps_Spec resolved, op_Plan = rps_Plan resolved, op_Validation = validation, op_PlanHash = planHash,
      op_CancelRequested = False, op_Error = [], op_CreatedAt = 0, op_QueuedAt = None, op_StartedAt = None, op_CompletedAt = None,
      op_Steps = [], op_Artifacts = []\<rparr>"

definition clock :: "'w Env \<Rightarrow> ('w, timestamp) worker" where
  "clock env = State (\<lambda>s. (env_now env (eng_tick s), s))"

text \<open>The report of a stage that starts: a cleanup stage is not validated again.\<close>

definition start_report :: "'w Plugin \<Rightarrow> ResolvedPipelineStage \<Rightarrow> ValidationReport" where
  "start_report plugin resolved =
     (if cleanupStage (rps_Plan resolved)
      then \<lparr>vr_Valid = True,
            vr_Issues = [info_issue ''Cleanup stage was generated from an immutable, previously validated lifecycle.''], vr_CheckedAt = 0\<rparr>
      else plugin_Validate plugin (rps_Spec resolved))"

definition resolve_start ::
  "runtime \<Rightarrow> PipelineRun \<Rightarrow> Pipeline \<Rightarrow> nat \<Rightarrow> (string \<times> (string \<times> string) list) list \<Rightarrow> failure + ResolvedPipelineStage" where
  "resolve_start rt run pipeline position produced =
     (case ResolveStage (rt_lib rt) pipeline (int position) produced of
        Inl e \<Rightarrow> Inl (newError (rt_error rt e))
      | Inr resolved \<Rightarrow> ResolveRuntimeTokens rt resolved [(RuntimeExecutionIDToken, replace_all ''_'' ''-'' (run_ID run))])"

definition note_started :: "nat \<Rightarrow> Operation \<Rightarrow> PipelineRun \<Rightarrow> PipelineRun" where
  "note_started position operation run =
     run\<lparr>run_Stages := (run_Stages run)[position :=
       (run_Stages run ! position)\<lparr>st_OperationID := op_ID operation, st_Status := op_Status operation\<rparr>]\<rparr>"

text \<open>Slicing a pipeline hash of fewer than twelve bytes panics, as does a position outside the run.\<close>

definition startPipelineStage ::
  "'w Env \<Rightarrow> runtime \<Rightarrow> string \<Rightarrow> PipelineRun \<Rightarrow> Pipeline \<Rightarrow> nat \<Rightarrow> (string \<times> (string \<times> string) list) list \<Rightarrow>
     ('w, fault + PipelineRun) worker" where
  "startPipelineStage env rt owner run pipeline position produced =
     check (State_Monad.return (map_sum Error id (resolve_start rt run pipeline position produced))) (\<lambda>resolved.
     check (lifted (get_plugin env (rps_PluginID resolved))) (\<lambda>plugin.
     if \<not> Matches (plugin_Manifest plugin) (rps_PluginVersion resolved) (rps_PluginDigest resolved) \<or>
        plan_PluginID (rps_Plan resolved) \<noteq> rps_PluginID resolved
     then State_Monad.return (Inl (Error (newError (''stage '' @ lib_quote (rt_lib rt) (rps_ID resolved) @ '' plugin version or identity changed''))))
     else if \<not> vr_Valid (start_report plugin resolved)
     then State_Monad.return (Inl (Error (newError (''stage '' @ lib_quote (rt_lib rt) (rps_ID resolved) @ '' configuration is no longer valid''))))
     else if length (pl_Hash pipeline) < 12 then State_Monad.return (Inl Crash)
     else do {
       checkedAt \<leftarrow> clock env;
       let report = start_report plugin resolved;
       let validation = report\<lparr>vr_CheckedAt := checkedAt, vr_Issues := vr_Issues report @
         [info_issue (''Stage configuration and typed inputs were resolved from validated pipeline '' @ take 12 (pl_Hash pipeline) @ ''.'')]\<rparr>;
       check (State_Monad.return (map_sum Error id (pipelineStageHash rt resolved))) (\<lambda>planHash.
         if length (run_Stages run) \<le> position then State_Monad.return (Inl Crash)
         else do {
         operationID \<leftarrow> new_id env ''op'';
         _ \<leftarrow> emit (Started position);
         check (lifted (db env (\<lambda>now. CreatePipelineStageOperation now (run_ID run) (st_ID (run_Stages run ! position)) owner
           (stage_operation operationID (run_WorkspaceID run) (stage_title [] run (run_Stages run ! position)) resolved validation planHash))))
           (\<lambda>operation. State_Monad.return (Inr (note_started position operation run)))
       })
     }))"

text \<open>The stages to start, in order; a failure ends the loop with its position.\<close>

fun start_stages ::
  "'w Env \<Rightarrow> runtime \<Rightarrow> string \<Rightarrow> PipelineRun \<Rightarrow> Pipeline \<Rightarrow> (string \<times> (string \<times> string) list) list \<Rightarrow> nat list \<Rightarrow>
     ('w, fault + PipelineRun \<times> (nat \<times> failure) option) worker" where
  "start_stages env rt owner run pipeline produced [] = State_Monad.return (Inr (run, None))"
| "start_stages env rt owner run pipeline produced (position # positions) =
     attempt (startPipelineStage env rt owner run pipeline position produced)
       (\<lambda>e. State_Monad.return (case e of Error cause \<Rightarrow> Inr (run, Some (position, cause)) | Crash \<Rightarrow> Inl Crash))
       (\<lambda>run'. start_stages env rt owner run' pipeline produced positions)"

section \<open>Cleaning up after a run\<close>

definition cleanup_failure_text :: "runtime \<Rightarrow> cleanup_failure \<Rightarrow> string" where
  "cleanup_failure_text rt f =
     (case f of
        CleanupFailed title message \<Rightarrow> ''cleanup for stage '' @ lib_quote (rt_lib rt) title @ '' failed: '' @ message
      | CleanupCanceled title \<Rightarrow> ''cleanup for stage '' @ lib_quote (rt_lib rt) title @ '' was canceled'')"

definition skip_stage :: "'w Env \<Rightarrow> string \<Rightarrow> PipelineRun \<Rightarrow> nat \<Rightarrow> string \<Rightarrow> ('w, failure + unit) worker" where
  "skip_stage env owner run position stageID = do {
     _ \<leftarrow> emit (CleanupSkipped position);
     db_write env (\<lambda>now. SkipPipelineRunStageCleanup now (run_ID run) stageID owner)
   }"

definition cleanup_report :: "timestamp \<Rightarrow> ValidationReport" where
  "cleanup_report now =
     \<lparr>vr_Valid = True, vr_Issues = [info_issue ''Cleanup was generated from the completed validated stage operation.''], vr_CheckedAt = now\<rparr>"

definition cleanup_resolved :: "Operation \<Rightarrow> Plan \<Rightarrow> ResolvedPipelineStage" where
  "cleanup_resolved source plan =
     \<lparr>rps_ID = [], rps_PluginID = op_PluginID source, rps_PluginVersion = op_PluginVersion source,
      rps_PluginDigest = op_PluginDigest source, rps_Spec = op_Spec source, rps_Bindings = [], rps_Plan = plan\<rparr>"

definition clean_stage ::
  "'w Env \<Rightarrow> runtime \<Rightarrow> string \<Rightarrow> PipelineRun \<Rightarrow> nat \<Rightarrow> PipelineRunStage \<Rightarrow> Operation \<Rightarrow> Plan \<Rightarrow> ('w, failure + unit) worker" where
  "clean_stage env rt owner run position stage source plan =
     check (get_plugin env (op_PluginID source)) (\<lambda>plugin.
     if \<not> Matches (plugin_Manifest plugin) (op_PluginVersion source) (op_PluginDigest source) \<or>
        \<not> HasCapability (plugin_Manifest plugin) ''lifecycle.cleanup''
     then State_Monad.return (Inl (newError
       (''stage '' @ lib_quote (rt_lib rt) (st_Title stage) @ '' cleanup capability or plugin identity changed'')))
     else do {
       checkedAt \<leftarrow> clock env;
       check (State_Monad.return (pipelineStageHash rt (cleanup_resolved source plan))) (\<lambda>planHash. do {
         operationID \<leftarrow> new_id env ''op'';
         _ \<leftarrow> emit (CleanupStarted position);
         check (db env (\<lambda>now. CreatePipelineCleanupOperation now (run_ID run) (st_ID stage) owner
           (stage_operation operationID (run_WorkspaceID run) (stage_title (''Reset'' @ separator) run stage)
             (cleanup_resolved source plan) (cleanup_report checkedAt) planHash)))
           (\<lambda>_. State_Monad.return (Inr ()))
       })
     })"

text \<open>
  The loop over the stages in cleanup order. It yields \<open>None\<close> when a cleanup has just been started
  or is still running, and the stages with their cleanup states when all have ended.
\<close>

fun cleanup_stages ::
  "'w Env \<Rightarrow> runtime \<Rightarrow> string \<Rightarrow> PipelineRun \<Rightarrow> PipelineRunStage list \<Rightarrow> nat list \<Rightarrow>
     ('w, failure + PipelineRunStage list option) worker" where
  "cleanup_stages env rt owner run stages [] = State_Monad.return (Inr (Some stages))"
| "cleanup_stages env rt owner run stages (position # positions) =
     (let stage = stages ! position; quoted = lib_quote (rt_lib rt) (st_Title stage) in
      if fst (cleanupStageResult stage) then cleanup_stages env rt owner run stages positions
      else if st_OperationID stage = [] then
        check (skip_stage env owner run position (st_ID stage)) (\<lambda>_. cleanup_stages env rt owner run stages positions)
      else if st_CleanupOperationID stage = [] then
        attempt (observe env (st_OperationID stage))
          (\<lambda>e. State_Monad.return (Inl (wrap (''load cleanup source for stage '' @ quoted) e))) (\<lambda>source.
        case CleanupPlan source of
          Inl ErrNoCleanupSteps \<Rightarrow>
            check (skip_stage env owner run position (st_ID stage)) (\<lambda>_. cleanup_stages env rt owner run stages positions)
        | Inl StepHistoryIncomplete \<Rightarrow>
            State_Monad.return (Inl (newError (''plan cleanup for stage '' @ quoted @ '': source operation step history is incomplete'')))
        | Inr plan \<Rightarrow>
            check (clean_stage env rt owner run position stage source plan) (\<lambda>_. State_Monad.return (Inr None)))
      else
        attempt (observe env (st_CleanupOperationID stage))
          (\<lambda>e. State_Monad.return (Inl (wrap (''load cleanup for stage '' @ quoted) e))) (\<lambda>operation.
        check (db_write env (\<lambda>now st. Inr (SyncPipelineRunStageCleanup now (st_ID stage) operation st))) (\<lambda>_.
        let stage' = stage\<lparr>st_CleanupStatus := op_Status operation, st_CleanupError := op_Error operation\<rparr> in
        if fst (cleanupStageResult stage')
        then cleanup_stages env rt owner run (stages[position := stage']) positions
        else State_Monad.return (Inr None))))"

text \<open>\<open>verifyCleanupPlan\<close> with the callbacks of \<open>recheckNamespaceCleanup\<close>.\<close>

fun recheck_steps :: "'w Env \<Rightarrow> Operation \<Rightarrow> 'w Plugin \<Rightarrow> nat \<Rightarrow> PlanStep list \<Rightarrow> ('w, bool) worker" where
  "recheck_steps env operation plugin position [] = State_Monad.return True"
| "recheck_steps env operation plugin position (planned # rest) =
     attempt (resolveArtifactInputs env operation position planned) (\<lambda>_. State_Monad.return False) (\<lambda>step.
     attempt (verify plugin step RawEmpty) (\<lambda>_. State_Monad.return False) (\<lambda>health.
     if healthy health then recheck_steps env operation plugin (Suc position) rest else State_Monad.return False))"

definition renew_run :: "'w Env \<Rightarrow> string \<Rightarrow> string \<Rightarrow> ('w, failure + unit) worker" where
  "renew_run env runID owner = db_write env (\<lambda>now. RenewPipelineRunLease now runID owner)"

definition recheckNamespaceCleanup :: "'w Env \<Rightarrow> string \<Rightarrow> string \<Rightarrow> PipelineRunStage \<Rightarrow> ('w, failure + bool) worker" where
  "recheckNamespaceCleanup env runID owner stage =
     check (observe env (st_CleanupOperationID stage)) (\<lambda>operation.
     check (get_plugin env (op_PluginID operation)) (\<lambda>plugin.
     if \<not> Matches (plugin_Manifest plugin) (op_PluginVersion operation) (op_PluginDigest operation) \<or> \<not> cleanupStage (op_Plan operation)
     then State_Monad.return (Inr False)
     else check (renew_run env runID owner) (\<lambda>_. do {
       gone \<leftarrow> recheck_steps env operation plugin 0 (plan_Steps (op_Plan operation));
       (if \<not> gone then State_Monad.return (Inr False)
        else check (append_log env (op_ID operation) [] ''warning'' ''cleanup-recheck''
            ''The initial namespace cleanup timed out, but the final verified health gate confirms absence after all remaining cleanups. Pipeline cleanup recovered.'') (\<lambda>_.
          check (renew_run env runID owner) (\<lambda>_.
          check (db_write env (\<lambda>now st. Inr (SyncPipelineRunStageCleanup now (st_ID stage)
            (operation\<lparr>op_Status := Succeeded, op_Error := []\<rparr>) st))) (\<lambda>_. State_Monad.return (Inr True)))))
     })))"

definition recoverable :: "PipelineRunStage \<Rightarrow> bool" where
  "recoverable stage \<longleftrightarrow>
     st_CleanupStatus stage = Failed \<and> st_PluginID stage = deploy_plugin \<and>
     contains_str ''namespace cleanup timed out'' (st_CleanupError stage)"

fun cleanup_failures ::
  "'w Env \<Rightarrow> string \<Rightarrow> string \<Rightarrow> PipelineRunStage list \<Rightarrow> cleanup_failure list \<Rightarrow> ('w, failure + cleanup_failure list) worker" where
  "cleanup_failures env runID owner [] failures = State_Monad.return (Inr failures)"
| "cleanup_failures env runID owner (stage # stages) failures =
     check (if recoverable stage then recheckNamespaceCleanup env runID owner stage else State_Monad.return (Inr False)) (\<lambda>recovered.
     cleanup_failures env runID owner stages
       (if recovered then failures
        else case snd (cleanupStageResult stage) of None \<Rightarrow> failures | Some f \<Rightarrow> failures @ [f]))"

definition reconcilePipelineCleanup :: "'w Env \<Rightarrow> runtime \<Rightarrow> string \<Rightarrow> PipelineRun \<Rightarrow> ('w, failure + bool) worker" where
  "reconcilePipelineCleanup env rt owner run =
     check (cleanup_stages env rt owner run (run_Stages run) (pipelineCleanupOrder (run_Stages run))) (\<lambda>ended.
     case ended of
       None \<Rightarrow> State_Monad.return (Inr False)
     | Some stages \<Rightarrow>
         check (cleanup_failures env (run_ID run) owner stages []) (\<lambda>failures.
         State_Monad.return
           (if failures = [] then Inr True
            else Inl (newError (join_on [CHR 0x0A] (map (cleanup_failure_text rt) failures))))))"

section \<open>Reconciling a run\<close>

definition stage_outputs :: "Operation \<Rightarrow> (string \<times> string) list" where
  "stage_outputs operation =
     fold (\<lambda>artifact outputs. if art_OutputName artifact \<noteq> [] then obj_set (art_OutputName artifact) (art_ID artifact) outputs else outputs)
       (op_Artifacts operation) []"

definition stage_failure :: "runtime \<Rightarrow> PipelineRunStage \<Rightarrow> Operation \<Rightarrow> failure" where
  "stage_failure rt stage operation =
     newError (''stage '' @ lib_quote (rt_lib rt) (st_Title stage) @ '' '' @ status_name (op_Status operation) @ '': '' @ op_Error operation)"

text \<open>
  The loop that brings the states of the operations into the stages: it yields the stages with
  their new states and either the outputs of the succeeded stages or the position, state and
  cause the run ends with.
\<close>

fun sync_stages ::
  "'w Env \<Rightarrow> runtime \<Rightarrow> PipelineRunStage list \<Rightarrow> PipelineRunStage list \<Rightarrow> (string \<times> (string \<times> string) list) list \<Rightarrow>
     ('w, failure + PipelineRunStage list \<times> (nat \<times> status \<times> failure + (string \<times> (string \<times> string) list) list)) worker" where
  "sync_stages env rt synced [] produced = State_Monad.return (Inr (synced, Inr produced))"
| "sync_stages env rt synced (stage # stages) produced =
     (if st_OperationID stage = [] then sync_stages env rt (synced @ [stage]) stages produced
      else attempt (observe env (st_OperationID stage))
        (\<lambda>e. State_Monad.return (Inr (synced @ stage # stages, Inl (length synced, Failed, wrap ''load stage operation'' e)))) (\<lambda>operation.
        check (db_write env (\<lambda>now st. Inr (SyncPipelineRunStage now (st_ID stage) operation st))) (\<lambda>_.
        let stage' = stage\<lparr>st_Status := op_Status operation\<rparr> in
        if op_Status operation = Succeeded
        then sync_stages env rt (synced @ [stage']) stages (obj_set (st_StageID stage) (stage_outputs operation) produced)
        else if op_Status operation = Failed \<or> op_Status operation = Canceled
        then State_Monad.return (Inr (synced @ stage' # stages, Inl (length synced, op_Status operation, stage_failure rt stage operation)))
        else sync_stages env rt (synced @ [stage']) stages produced)))"

text \<open>The manual start: what may start before the gate, and whether everything before it has succeeded.\<close>

datatype gate_state = GateUnavailable | GateReached | GatePanic | Allowed "nat list"

definition gate_of :: "PipelineDefinition \<Rightarrow> PipelineRun \<Rightarrow> nat" where
  "gate_of def run = first_index (\<lambda>stage. pst_ID stage = run_PauseBeforeStage run) (pd_Stages def)"

definition gate_check :: "PipelineDefinition \<Rightarrow> PipelineRun \<Rightarrow> nat list \<Rightarrow> gate_state" where
  "gate_check def run positions =
     (let gate = gate_of def run in
      if run_PauseBeforeStage run = [] \<or> run_ExecutionRequested run then Allowed positions
      else if gate = length (pd_Stages def) then GateUnavailable
      else if length (run_Stages run) < gate then GatePanic
      else if list_all (\<lambda>stage. st_Status stage = Succeeded) (take gate (run_Stages run)) then GateReached
      else Allowed (filter (\<lambda>position. position < gate) positions))"

text \<open>A function that returns the error of its last call has not released the run.\<close>

definition unreleased :: "('w, failure + unit) worker \<Rightarrow> ('w, fault + bool) worker" where
  "unreleased m = check (lifted m) (\<lambda>_. State_Monad.return (Inr False))"

definition end_completed :: "'w Env \<Rightarrow> string \<Rightarrow> PipelineRun \<Rightarrow> string \<Rightarrow> ('w, fault + bool) worker" where
  "end_completed env owner run artifactID = do {
     _ \<leftarrow> emit (RunCompleted artifactID);
     check (lifted (db_write env (\<lambda>now. CompletePipelineRun now (run_ID run) owner artifactID))) (\<lambda>_. State_Monad.return (Inr True))
   }"

definition load_result :: "'w Env \<Rightarrow> string \<Rightarrow> ('w, failure + Artifact) worker" where
  "load_result env artifactID =
     check (db_read env (GetArtifact artifactID)) (\<lambda>artifact. do {
       _ \<leftarrow> emit (Loaded artifact);
       State_Monad.return (Inr artifact)
     })"

text \<open>The end of a run whose stages have all succeeded.\<close>

definition finish_run ::
  "'w Env \<Rightarrow> runtime \<Rightarrow> string \<Rightarrow> PipelineRun \<Rightarrow> Pipeline \<Rightarrow> (string \<times> (string \<times> string) list) list \<Rightarrow> ('w, fault + bool) worker" where
  "finish_run env rt owner run pipeline produced =
     (let result = pd_Result (pl_Definition pipeline);
          ending = (\<lambda>cause. unreleased (deferPipelineTermination env owner run pipeline (int (length (run_Stages run)) - 1) Failed cause));
          outputs = (case map_of produced (po_Stage result) of None \<Rightarrow> [] | Some outputs \<Rightarrow> outputs);
          artifactID = (case map_of outputs (po_Output result) of None \<Rightarrow> [] | Some artifactID \<Rightarrow> artifactID)
      in if run_ResultType run = [] \<and> run_ResultVersion run = [] then end_completed env owner run []
         else if artifactID = [] then ending (newError ''validated result artifact was not produced'')
         else attempt (load_result env artifactID) (\<lambda>e. ending (wrap ''load result artifact'' e)) (\<lambda>artifact.
           if art_Type artifact \<noteq> run_ResultType run \<or> art_Version artifact \<noteq> run_ResultVersion run \<or> art_VerifiedAt artifact = 0
           then ending (newError ''result artifact does not satisfy the validated contract'')
           else if \<not> pd_CleanupAfterRun (pl_Definition pipeline) then end_completed env owner run artifactID
           else attempt (reconcilePipelineCleanup env rt owner run)
             (\<lambda>e. unreleased (failPipelineRun env owner run (- 1) e))
             (\<lambda>ended. if ended then end_completed env owner run artifactID else State_Monad.return (Inr False))))"

definition advance_run ::
  "'w Env \<Rightarrow> runtime \<Rightarrow> string \<Rightarrow> PipelineRun \<Rightarrow> Pipeline \<Rightarrow> (string \<times> (string \<times> string) list) list \<Rightarrow> nat list \<Rightarrow> ('w, fault + bool) worker" where
  "advance_run env rt owner run pipeline produced positions =
     check (start_stages env rt owner run pipeline produced positions) (\<lambda>(run', failed).
     case failed of
       Some (position, cause) \<Rightarrow> unreleased (deferPipelineTermination env owner run' pipeline (int position) Failed cause)
     | None \<Rightarrow>
         if list_all (\<lambda>stage. st_Status stage = Succeeded) (run_Stages run') then finish_run env rt owner run' pipeline produced
         else State_Monad.return (Inr False))"

text \<open>A run that is not terminating: what follows the states of its stages, and the whole.\<close>

definition continue_run ::
  "'w Env \<Rightarrow> runtime \<Rightarrow> string \<Rightarrow> PipelineRun \<Rightarrow> Pipeline \<Rightarrow> nat \<times> status \<times> failure + (string \<times> (string \<times> string) list) list \<Rightarrow>
     ('w, fault + bool) worker" where
  "continue_run env rt owner run pipeline state =
     (let ending = (\<lambda>position s cause. unreleased (deferPipelineTermination env owner run pipeline position s cause)) in
      case state of
        Inl (position, s, cause) \<Rightarrow> ending (int position) s cause
      | Inr produced \<Rightarrow>
          if run_CancelRequested run then ending (- 1) Canceled (newError ''pipeline cancellation requested'')
          else (case readyPipelineStages (pl_Definition pipeline) (run_Stages run) of
              None \<Rightarrow> State_Monad.return (Inl Crash)
            | Some positions \<Rightarrow>
                (case gate_check (pl_Definition pipeline) run positions of
                   GateUnavailable \<Rightarrow> ending (- 1) Failed (newError ''manual start stage is unavailable'')
                 | GatePanic \<Rightarrow> State_Monad.return (Inl Crash)
                 | GateReached \<Rightarrow>
                     unreleased (if run_InitializedAt run = None
                       then db_write env (\<lambda>now. MarkPipelineInitialized now (run_ID run) owner) else State_Monad.return (Inr ()))
                 | Allowed allowed \<Rightarrow> advance_run env rt owner run pipeline produced allowed)))"

definition reconcile_running :: "'w Env \<Rightarrow> runtime \<Rightarrow> string \<Rightarrow> PipelineRun \<Rightarrow> Pipeline \<Rightarrow> ('w, fault + bool) worker" where
  "reconcile_running env rt owner run pipeline =
     check (lifted (sync_stages env rt [] (run_Stages run) [])) (\<lambda>(stages, state).
     continue_run env rt owner (run\<lparr>run_Stages := stages\<rparr>) pipeline state)"

text \<open>A run that is to end as failed or canceled.\<close>

definition reconcile_terminating :: "'w Env \<Rightarrow> runtime \<Rightarrow> string \<Rightarrow> PipelineRun \<Rightarrow> Pipeline \<Rightarrow> ('w, fault + bool) worker" where
  "reconcile_terminating env rt owner run pipeline =
     check (lifted (stopPipelineOperations env (run_Stages run) True)) (\<lambda>stopped.
     if \<not> stopped then State_Monad.return (Inr False)
     else if \<not> pd_CleanupAfterRun (pl_Definition pipeline)
     then unreleased (end_failed env owner run (run_TerminalStatus run) (run_Error run))
     else attempt (reconcilePipelineCleanup env rt owner run)
       (\<lambda>e. check (lifted (end_failed env owner run (run_TerminalStatus run) (fl_Message (join (newError (run_Error run)) e))))
         (\<lambda>_. State_Monad.return (Inr True)))
       (\<lambda>ended. if \<not> ended then State_Monad.return (Inr False)
         else check (lifted (end_failed env owner run (run_TerminalStatus run) (run_Error run))) (\<lambda>_. State_Monad.return (Inr True))))"

definition load_pipeline :: "'w Env \<Rightarrow> string \<Rightarrow> ('w, failure + Pipeline) worker" where
  "load_pipeline env pipelineID =
     check (db_read env (GetPipeline pipelineID)) (\<lambda>pipeline. do {
       _ \<leftarrow> emit (LoadedPipeline pipeline);
       State_Monad.return (Inr pipeline)
     })"

definition reconcile_loaded :: "'w Env \<Rightarrow> runtime \<Rightarrow> string \<Rightarrow> PipelineRun \<Rightarrow> ('w, fault + bool) worker" where
  "reconcile_loaded env rt owner run =
     attempt (load_pipeline env (run_PipelineID run))
       (\<lambda>e. unreleased (failPipelineRun env owner run (- 1) (wrap ''load pipeline'' e))) (\<lambda>pipeline.
     if pl_Hash pipeline \<noteq> run_PipelineHash run \<or> pl_WorkspaceID pipeline \<noteq> run_WorkspaceID run
     then unreleased (failPipelineRun env owner run (- 1) (newError ''validated pipeline identity changed''))
     else if run_TerminalStatus run \<noteq> NoStatus then reconcile_terminating env rt owner run pipeline
     else reconcile_running env rt owner run pipeline)"

text \<open>The deferred calls: the release unless it happened, then the experiment.\<close>

definition reconcilePipelineRun :: "'w Env \<Rightarrow> runtime \<Rightarrow> string \<Rightarrow> PipelineRun \<Rightarrow> ('w, fault option) worker" where
  "reconcilePipelineRun env rt owner run = do {
     r \<leftarrow> reconcile_loaded env rt owner run;
     _ \<leftarrow> (if r = Inr True then State_Monad.return (Inr ())
           else db_write env (\<lambda>now st. Inr (ReleasePipelineRun now (run_ID run) owner (rt_poll rt) st)));
     _ \<leftarrow> db_write env (\<lambda>now st. Inr (SyncExperimentPipelineRun (run_ID run) st));
     State_Monad.return (case r of Inl e \<Rightarrow> Some e | Inr _ \<Rightarrow> None)
   }"

text \<open>One turn of the coordinator: claim a run and reconcile it, or wait.\<close>

definition runPipelineCoordinator ::
  "'w Env \<Rightarrow> runtime \<Rightarrow> string \<Rightarrow> (string \<Rightarrow> bool) \<Rightarrow> Store \<Rightarrow> ('w, fault option) worker" where
  "runPipelineCoordinator env rt instanceID locked seen =
     attempt (db env (\<lambda>now st. case ClaimPipelineRun now locked seen (instanceID @ ''-pipelines'') st of
         None \<Rightarrow> Inr (None, st)
       | Some (run, st') \<Rightarrow> Inr (Some run, st'))) (\<lambda>_. State_Monad.return None)
     (\<lambda>claimed. case claimed of
         None \<Rightarrow> State_Monad.return None
       | Some run \<Rightarrow> reconcilePipelineRun env rt (instanceID @ ''-pipelines'') run)"

end
