(* ===== verification/WorkerTrace.thy ===== *)
theory WorkerTrace
  imports Worker
begin

text \<open>
  What the worker does to the world, as the trace of its plugin calls and milestones: the order
  in which a step is prechecked, reserved, executed and verified, that an executed step is
  cleaned up when it fails, and that an operation completes only after every step passed its
  health gate.
\<close>

section \<open>A calculus of traces\<close>

text \<open>\<open>emits m R\<close>: every run of \<open>m\<close> extends the trace by events that are related to its result by \<open>R\<close>.\<close>

definition emits :: "('w, 'a) worker \<Rightarrow> ('a \<Rightarrow> event list \<Rightarrow> bool) \<Rightarrow> bool" where
  "emits m R \<longleftrightarrow>
     (\<forall>s. \<exists>evs. eng_trace (snd (run_state m s)) = eng_trace s @ evs \<and> R (fst (run_state m s)) evs)"

abbreviation quiet :: "('w, 'a) worker \<Rightarrow> bool" where
  "quiet m \<equiv> emits m (\<lambda>_ evs. evs = [])"

named_theorems quiet \<open>programs that record no event\<close>

lemma emits_weaken: "emits m Q \<Longrightarrow> (\<And>x evs. Q x evs \<Longrightarrow> R x evs) \<Longrightarrow> emits m R"
  unfolding emits_def by blast

lemma emits_return: "R x [] \<Longrightarrow> emits (State_Monad.return x) R"
  by (simp add: emits_def)

lemma emits_bind:
  assumes "emits m Q" "\<And>x evs. Q x evs \<Longrightarrow> emits (f x) (\<lambda>y evs'. R y (evs @ evs'))"
  shows "emits (State_Monad.bind m f) R"
  unfolding emits_def
proof
  fix s
  obtain x s1 where m: "run_state m s = (x, s1)" by fastforce
  with assms(1) obtain evs where evs: "eng_trace s1 = eng_trace s @ evs" "Q x evs" unfolding emits_def by (metis fst_conv snd_conv)
  from assms(2) [OF evs(2)] obtain evs' where
    "eng_trace (snd (run_state (f x) s1)) = eng_trace s1 @ evs'" "R (fst (run_state (f x) s1)) (evs @ evs')"
    unfolding emits_def by blast
  with evs(1) m show "\<exists>evs. eng_trace (snd (run_state (State_Monad.bind m f) s)) = eng_trace s @ evs \<and>
      R (fst (run_state (State_Monad.bind m f) s)) evs"
    by auto
qed

lemma emits_quiet_bind: "quiet m \<Longrightarrow> (\<And>x. emits (f x) R) \<Longrightarrow> emits (State_Monad.bind m f) R"
  by (rule emits_bind [of m "\<lambda>_ evs. evs = []"]) auto

lemma emits_attempt:
  assumes "emits m Q" "\<And>e evs. Q (Inl e) evs \<Longrightarrow> emits (h e) (\<lambda>y evs'. R y (evs @ evs'))"
    and "\<And>x evs. Q (Inr x) evs \<Longrightarrow> emits (f x) (\<lambda>y evs'. R y (evs @ evs'))"
  shows "emits (attempt m h f) R"
  unfolding attempt_def using assms by (auto intro!: emits_bind [of m Q] split: sum.splits)

lemma emits_quiet_attempt:
  "quiet m \<Longrightarrow> (\<And>e. emits (h e) R) \<Longrightarrow> (\<And>x. emits (f x) R) \<Longrightarrow> emits (attempt m h f) R"
  by (rule emits_attempt [of m "\<lambda>_ evs. evs = []"]) auto

lemma emits_quiet: "quiet m \<Longrightarrow> (\<And>y. R y []) \<Longrightarrow> emits m R"
  by (rule emits_weaken [of m "\<lambda>_ evs. evs = []"]) auto

lemma attempt_return [simp]: "attempt (State_Monad.return (Inr x)) h f = f x"
  by (simp add: attempt_def)

lemma quiet_check [quiet]: "quiet m \<Longrightarrow> (\<And>x. quiet (f x)) \<Longrightarrow> quiet (check m f)"
  unfolding check_def by (rule emits_quiet_attempt) (auto intro: emits_return)

lemma quiet_attempt: "quiet m \<Longrightarrow> (\<And>e. quiet (h e)) \<Longrightarrow> (\<And>x. quiet (f x)) \<Longrightarrow> quiet (attempt m h f)"
  by (rule emits_quiet_attempt)

lemma quiet_return [quiet]: "quiet (State_Monad.return x)"
  by (rule emits_return) simp

lemma quiet_bind: "quiet m \<Longrightarrow> (\<And>x. quiet (f x)) \<Longrightarrow> quiet (State_Monad.bind m f)"
  by (rule emits_quiet_bind)

lemma quiet_State: "(\<And>s. eng_trace (snd (g s)) = eng_trace s) \<Longrightarrow> quiet (State g)"
  by (simp add: emits_def)

lemma emits_emit: "emits (emit ev) (\<lambda>_ evs. evs = [ev])"
  by (simp add: emits_def emit_def State_Monad.update_def)

lemma quiet_if: "quiet m \<Longrightarrow> quiet n \<Longrightarrow> quiet (if b then m else n)"
  by simp

section \<open>Programs without events\<close>

lemma quiet_db [quiet]: "quiet (db env f)"
  unfolding db_def by (rule quiet_State) (auto simp: Let_def split: option.splits sum.splits)

lemma quiet_db_write [quiet]: "quiet (db_write env f)"
  unfolding db_write_def by (rule quiet_db)

lemma quiet_db_read [quiet]: "quiet (db_read env f)"
  unfolding db_read_def by (rule quiet_db)

lemma quiet_world [quiet]: "quiet (on_world f)"
  unfolding on_world_def by (rule quiet_State) (auto simp: Let_def split: prod.splits)

lemma quiet_ctx_err [quiet]: "quiet (ctx_err env)"
  unfolding ctx_err_def by (rule quiet_State) simp

lemma quiet_new_id [quiet]: "quiet (new_id env k)"
  unfolding new_id_def by (rule quiet_State) simp

lemma quiet_get_plugin [quiet]: "quiet (get_plugin env k)"
  unfolding get_plugin_def by (rule quiet_State) simp

lemma quiet_Put [quiet]: "quiet (Put env key value)"
  unfolding Put_def by (rule quiet_State) (auto simp: Let_def split: option.splits)

lemma quiet_ReadVerified [quiet]: "quiet (ReadVerified env key digest bytes)"
proof -
  have "quiet (read_object env key)"
    unfolding read_object_def by (rule quiet_State) (auto simp: Let_def split: option.splits)
  then show ?thesis unfolding ReadVerified_def by (auto intro!: quiet)
qed

lemmas call_defs = append_log_def set_step_def set_status_def audit_def

lemma quiet_calls [quiet]:
  "quiet (append_log env a b c d e)" "quiet (set_step env a b s result health m)" "quiet (set_status env a s m)"
  "quiet (audit env a b c details)"
  by (simp_all add: call_defs quiet)

lemma quiet_failWithHealth [quiet]: "quiet (failWithHealth env operationID stepID health e)"
  unfolding failWithHealth_def by (intro quiet_bind quiet_if quiet)

lemma quiet_fail [quiet]: "quiet (fail env operationID stepID e)"
  by (simp add: fail_def quiet)

lemma quiet_stop [quiet]: "quiet (stop env operationID stepID e)"
  unfolding stop_def by (intro quiet_bind quiet_if quiet)

lemma quiet_stopOrFail [quiet]: "quiet (stopOrFail env operationID stepID e)"
  unfolding stopOrFail_def by (intro quiet_if quiet)

lemma quiet_seal [quiet]: "quiet (seal env output artifactID value)"
  unfolding seal_def by (auto intro!: quiet quiet_State split: option.splits)

lemma quiet_find_input [quiet]: "quiet (find_input env operation position input)"
  unfolding find_input_def by (auto intro!: quiet split: option.splits)

lemma quiet_resolve_input [quiet]: "quiet (resolve_input env operation position input)"
  unfolding resolve_input_def by (auto intro!: quiet)

lemma quiet_resolve_inputs [quiet]: "quiet (resolve_inputs env operation position inputs resolved)"
  by (induction inputs arbitrary: resolved) (auto intro!: quiet)

lemma quiet_resolveArtifactInputs [quiet]: "quiet (resolveArtifactInputs env operation position step)"
  unfolding resolveArtifactInputs_def by (auto intro!: quiet)

lemma quiet_persist_output [quiet]: "quiet (persist_output env operation step result output)"
  unfolding persist_output_def by (auto intro!: quiet quiet_bind split: sum.splits)

lemma quiet_persistStepOutputs [quiet]: "quiet (persistStepOutputs env operation step result outputs)"
  by (induction outputs) (auto intro!: quiet)

lemma quiet_collect_creates [quiet]: "quiet (collect_creates env provider workspaceID input effects creates)"
  by (induction effects arbitrary: creates) (auto intro!: quiet quiet_bind split: option.splits)

lemma quiet_release [quiet]: "quiet (release env operationID creates e)"
  unfolding release_def by (intro quiet_bind quiet)

lemma quiet_authorize_effect [quiet]: "quiet (authorize_effect env operation stepID step provider creates createIDs effect)"
  unfolding authorize_effect_def by (auto intro!: quiet quiet_attempt split: option.splits)

lemma quiet_authorize_effects [quiet]: "quiet (authorize_effects env operation stepID step provider creates createIDs effects)"
  by (induction effects) (auto intro!: quiet)

lemma quiet_reserveEffects [quiet]: "quiet (reserveEffects env operation stepID step)"
  unfolding reserveEffects_def Let_def by (auto intro!: quiet)

lemma quiet_complete_effect [quiet]: "quiet (complete_effect env operation step provider resources effect)"
  unfolding complete_effect_def Let_def by (auto intro!: quiet split: option.splits)

lemma quiet_complete_effects [quiet]: "quiet (complete_effects env operation step provider resources effects)"
  by (induction effects) (auto intro!: quiet)

lemma quiet_completeEffects [quiet]: "quiet (completeEffects env operation step raw)"
  unfolding completeEffects_def by (auto intro!: quiet split: option.splits)

lemma quiet_import_resources [quiet]: "quiet (import_resources env provider spec discovered resources)"
  by (induction discovered arbitrary: resources) (auto intro!: quiet quiet_bind split: option.splits)

lemma quiet_captureDiscovery [quiet]: "quiet (captureDiscovery env operation stepID raw)"
  unfolding captureDiscovery_def Let_def by (auto intro!: quiet simp del: import_resources.simps split: option.splits list.splits)

section \<open>The trace of a step\<close>

definition success_events :: "PlanStep \<Rightarrow> event list" where
  "success_events step =
     [Prechecked (ps_ID step) True, Reserved (ps_ID step),
      if ps_Cleanup step then CleanedUp (ps_ID step) else Executed (ps_ID step), Verified (ps_ID step) True]"

definition undo_events :: "PlanStep \<Rightarrow> event list" where
  "undo_events step = (if ps_Mutating step \<or> ps_Effects step \<noteq> [] then [CleanedUp (ps_ID step)] else [])"

text \<open>
  A step that does not continue stops before its reservation, or after its execution and then is
  undone. Only the capture of discovered resources fails without undoing the step.
\<close>

definition failure_events :: "bool \<Rightarrow> PlanStep \<Rightarrow> event list \<Rightarrow> bool" where
  "failure_events discovery step evs \<longleftrightarrow>
     (let k = ps_ID step; start = [Prechecked k True, Reserved k] in
      evs = [] \<or> (\<exists>b. evs = [Prechecked k b]) \<or>
      (if ps_Cleanup step then evs = start @ [CleanedUp k] \<or> (\<exists>b. evs = start @ [CleanedUp k, Verified k b])
       else evs = start @ [Executed k] @ undo_events step \<or> (\<exists>b. evs = start @ [Executed k, Verified k b] @ undo_events step) \<or>
         discovery \<and> evs = start @ [Executed k, Verified k True]))"

definition step_events :: "bool \<Rightarrow> PlanStep \<Rightarrow> outcome \<Rightarrow> event list \<Rightarrow> bool" where
  "step_events discovery step r evs \<longleftrightarrow>
     (case r of Continue \<Rightarrow> evs = success_events step | Returned \<Rightarrow> failure_events discovery step evs | Panicked \<Rightarrow> evs = [])"

lemma emits_give_up: "quiet m \<Longrightarrow> R Returned [] \<Longrightarrow> emits (give_up m) R"
  unfolding give_up_def by (intro emits_quiet_bind emits_return)

lemma emits_undo:
  assumes "\<And>e. quiet (report e)" "R Returned (undo_events step)"
  shows "emits (undo env operation step result plugin report e) R"
proof -
  have "emits (cleanup env operation step result plugin e) (\<lambda>_ evs. evs = undo_events step)"
    unfolding cleanup_def undo_events_def
    by (auto intro!: emits_return emits_bind [OF emits_emit] emits_quiet_bind quiet split: option.splits)
  then show ?thesis unfolding undo_def
    by (rule emits_bind) (use assms in \<open>auto intro!: emits_give_up\<close>)
qed

lemma emits_precheck: "emits (precheck plugin step) (\<lambda>r evs. evs = [Prechecked (ps_ID step) (healthy_result r)])"
  unfolding precheck_def by (auto intro!: emits_quiet_bind quiet emits_bind [OF emits_emit] emits_return)

lemma emits_verify: "emits (verify plugin step result) (\<lambda>r evs. evs = [Verified (ps_ID step) (healthy_result r)])"
  unfolding verify_def by (auto intro!: emits_quiet_bind quiet emits_bind [OF emits_emit] emits_return)

lemma emits_execute: "emits (execute plugin step) (\<lambda>r evs. evs = [Executed (ps_ID step)])"
  unfolding execute_def by (auto intro!: emits_quiet_bind quiet emits_bind [OF emits_emit] emits_return)

lemma emits_resolve:
  "emits (resolveArtifactInputs env operation position step)
     (\<lambda>r evs. evs = [] \<and> (\<forall>x. r = Inr x \<longrightarrow> (\<exists>inputs. x = step\<lparr>ps_ResolvedInputs := inputs\<rparr>)))"
proof (cases "ps_ArtifactInputs step = []")
  case True
  then show ?thesis by (auto simp: resolveArtifactInputs_def intro!: emits_return exI [of _ "ps_ResolvedInputs step"])
next
  case False
  then show ?thesis
    by (auto simp: resolveArtifactInputs_def check_def intro!: emits_quiet_attempt emits_return quiet)
qed

lemma emits_cleanup_step:
  "emits (runCleanupStep env operation stepID step plugin prechecked) (\<lambda>r evs.
     if r = Inr () then evs = [CleanedUp (ps_ID step), Verified (ps_ID step) True]
     else evs = [CleanedUp (ps_ID step)] \<or> (\<exists>b. evs = [CleanedUp (ps_ID step), Verified (ps_ID step) b]))"
  unfolding runCleanupStep_def check_def
  apply (rule emits_bind [OF emits_emit], rule emits_quiet_bind [OF quiet_world], split option.split, intro conjI allI impI)
   apply (rule emits_quiet_attempt [OF quiet_calls(2)], rule emits_return, simp)
   apply (rule emits_quiet_attempt [OF quiet_calls(3)], rule emits_return, simp)
   apply (rule emits_attempt [OF emits_verify])
  by (auto intro!: emits_return emits_quiet_attempt emits_quiet [OF quiet_calls(2)] quiet simp: healthy_result_def)

text \<open>The second half of a step, after its execution.\<close>

definition settle_events :: "bool \<Rightarrow> PlanStep \<Rightarrow> outcome \<Rightarrow> event list \<Rightarrow> bool" where
  "settle_events discovery step r evs \<longleftrightarrow>
     (case r of
        Continue \<Rightarrow> evs = [Verified (ps_ID step) True]
      | Returned \<Rightarrow> evs = undo_events step \<or> (\<exists>b. evs = Verified (ps_ID step) b # undo_events step) \<or>
          discovery \<and> evs = [Verified (ps_ID step) True]
      | Panicked \<Rightarrow> False)"

lemma emits_settle:
  "emits (settle_step env operation step planned runtimeStep plugin result)
     (settle_events (HasCapability (plugin_Manifest plugin) ''infrastructure.discovery'') runtimeStep)"
  unfolding settle_step_def Let_def
  apply (rule emits_quiet_attempt [OF quiet_calls(2)], rule emits_undo, rule quiet_fail, simp add: settle_events_def)
  apply (rule emits_quiet_attempt [OF quiet_calls(3)], rule emits_undo, rule quiet_fail, simp add: settle_events_def)
  apply (rule emits_attempt [OF emits_verify], rule emits_undo, rule quiet_stopOrFail, simp add: settle_events_def)
  apply (split if_split, intro conjI impI)
   apply (rule emits_undo, rule quiet_failWithHealth, simp add: settle_events_def)
  apply (rule emits_quiet_attempt [OF quiet_persistStepOutputs], rule emits_undo, rule quiet_fail, simp add: settle_events_def)
  by (cases "HasCapability (plugin_Manifest plugin) ''infrastructure.discovery''"; cases "ps_Effects planned = []")
    (auto simp: settle_events_def healthy_result_def
      intro!: emits_quiet_attempt [OF quiet_captureDiscovery] emits_quiet_attempt [OF quiet_completeEffects]
        emits_quiet_attempt [OF quiet_calls(2)] emits_give_up emits_undo emits_return quiet)

lemma runtime_step_events:
  "ps_ID (step\<lparr>ps_ResolvedInputs := x\<rparr>) = ps_ID step" "undo_events (step\<lparr>ps_ResolvedInputs := x\<rparr>) = undo_events step"
  by (simp_all add: undo_events_def)

lemma emits_perform:
  "emits (perform_step env operation step position planned plugin)
     (step_events (HasCapability (plugin_Manifest plugin) ''infrastructure.discovery'') planned)"
  unfolding perform_step_def Let_def
  apply (rule emits_quiet_attempt [OF quiet_calls(2)], rule emits_give_up, rule quiet_fail, simp add: step_events_def failure_events_def)
  apply (rule emits_quiet_attempt [OF quiet_calls(3)], rule emits_give_up, rule quiet_fail, simp add: step_events_def failure_events_def)
  apply (rule emits_attempt [OF emits_resolve], rule emits_give_up, rule quiet_fail, simp add: step_events_def failure_events_def)
  apply (rule emits_quiet_attempt, intro quiet_if quiet, rule emits_give_up, rule quiet_fail, simp add: step_events_def failure_events_def)
  apply (rule emits_attempt [OF emits_precheck], rule emits_give_up, rule quiet_stopOrFail)
   apply (auto simp: step_events_def failure_events_def runtime_step_events Let_def) []
  apply (split if_split, intro conjI impI)
   apply (rule emits_give_up, rule quiet_failWithHealth)
   apply (auto simp: step_events_def failure_events_def runtime_step_events Let_def) []
  apply (rule emits_quiet_attempt [OF quiet_calls(2)], rule emits_give_up, rule quiet_fail)
   apply (auto simp: step_events_def failure_events_def runtime_step_events Let_def) []
  apply (rule emits_quiet_attempt [OF quiet_calls(3)], rule emits_give_up, rule quiet_fail)
   apply (auto simp: step_events_def failure_events_def runtime_step_events Let_def) []
  apply (rule emits_quiet_attempt [OF quiet_reserveEffects], rule emits_give_up, rule quiet_fail)
   apply (auto simp: step_events_def failure_events_def runtime_step_events Let_def) []
  apply (rule emits_bind [OF emits_emit], split if_split, intro conjI impI)
   apply (rule emits_attempt [OF emits_cleanup_step], rule emits_give_up, rule quiet_stopOrFail)
    apply (auto simp: step_events_def failure_events_def runtime_step_events healthy_result_def Let_def) []
   apply (rule emits_return)
   apply (auto simp: step_events_def success_events_def runtime_step_events healthy_result_def) []
  apply (rule emits_attempt [OF emits_execute])
   apply (auto simp: step_events_def failure_events_def runtime_step_events healthy_result_def Let_def intro!: emits_undo quiet) []
  apply (rule emits_weaken [OF emits_settle])
  by (auto simp: settle_events_def step_events_def failure_events_def success_events_def runtime_step_events healthy_result_def Let_def
      split: outcome.splits)


text \<open>
  A step that may have changed the world is undone: when a mutating step, or one with declared
  effects, was executed and the worker then gives it up, the last thing that happened is
  its cleanup.
\<close>

theorem executed_step_undone:
  assumes "run_state (perform_step env operation step position planned plugin) s = (Returned, s')" "eng_trace s = []"
    and "Executed (ps_ID planned) \<in> set (eng_trace s')" "ps_Mutating planned \<or> ps_Effects planned \<noteq> []"
    and "\<not> HasCapability (plugin_Manifest plugin) ''infrastructure.discovery''"
  shows "last (eng_trace s') = CleanedUp (ps_ID planned)"
proof -
  have "step_events (HasCapability (plugin_Manifest plugin) ''infrastructure.discovery'') planned Returned (eng_trace s')"
    using emits_perform [of env operation step position planned plugin] assms(1,2) unfolding emits_def
    by (metis append_Nil fst_conv snd_conv)
  with assms(3-5) show ?thesis
    by (auto simp: step_events_def failure_events_def undo_events_def Let_def split: if_splits)
qed

section \<open>The trace of an operation\<close>

lemma emits_process_step:
  "emits (process_step env operation plugin position step) (\<lambda>r evs. \<forall>k. Completed k \<notin> set evs \<and>
     (r = Continue \<longrightarrow> position < length (plan_Steps (op_Plan operation)) \<and> evs = success_events (plan_Steps (op_Plan operation) ! position)))"
proof -
  have "emits (perform_step env operation step position planned plugin) (\<lambda>r evs. \<forall>k. Completed k \<notin> set evs \<and>
      (r = Continue \<longrightarrow> evs = success_events planned))" for planned
    by (rule emits_weaken [OF emits_perform])
      (auto simp: step_events_def failure_events_def success_events_def undo_events_def Let_def split: outcome.splits if_splits)
  then show ?thesis
    unfolding process_step_def
    by (auto intro!: emits_quiet_bind emits_give_up emits_return quiet intro: emits_weaken split: option.splits)
qed

lemma emits_process_steps:
  "emits (process_steps env operation plugin position steps) (\<lambda>r evs. \<forall>k. Completed k \<notin> set evs \<and>
     (r = Continue \<longrightarrow> position + length steps \<le> max position (length (plan_Steps (op_Plan operation))) \<and>
       evs = concat (map success_events (take (length steps) (drop position (plan_Steps (op_Plan operation)))))))"
proof (induction steps arbitrary: position)
  case Nil
  then show ?case by (auto intro!: emits_return)
next
  case (Cons step steps)
  show ?case
  proof (simp only: process_steps.simps, rule emits_bind [OF emits_process_step], split if_split, intro conjI impI)
    fix r evs
    assume r: "\<forall>k. Completed k \<notin> set evs \<and> (r = Continue \<longrightarrow> position < length (plan_Steps (op_Plan operation)) \<and>
        evs = success_events (plan_Steps (op_Plan operation) ! position))"
    { assume "r = Continue"
      with r show "emits (process_steps env operation plugin (Suc position) steps) (\<lambda>r evs'. \<forall>k. Completed k \<notin> set (evs @ evs') \<and>
          (r = Continue \<longrightarrow> position + length (step # steps) \<le> max position (length (plan_Steps (op_Plan operation))) \<and>
            evs @ evs' = concat (map success_events (take (length (step # steps)) (drop position (plan_Steps (op_Plan operation)))))))"
        by (intro emits_weaken [OF Cons.IH]) (auto simp: Cons_nth_drop_Suc [symmetric]) }
    { assume "r \<noteq> Continue"
      with r show "emits (State_Monad.return r) (\<lambda>r evs'. \<forall>k. Completed k \<notin> set (evs @ evs') \<and>
          (r = Continue \<longrightarrow> position + length (step # steps) \<le> max position (length (plan_Steps (op_Plan operation))) \<and>
            evs @ evs' = concat (map success_events (take (length (step # steps)) (drop position (plan_Steps (op_Plan operation)))))))"
        by (intro emits_return) auto }
  qed
qed

lemma quiet_result: "quiet (State (\<lambda>s. (g s, s)))"
  by (rule quiet_State) simp

lemma emits_finish: "emits (finish env operation) (\<lambda>_ evs. evs = [] \<or> evs = [Completed (op_ID operation)])"
  unfolding finish_def Let_def
  by (rule emits_quiet_attempt [OF quiet_db_read] emits_quiet_attempt [OF quiet_result] emits_quiet_attempt [OF quiet_Put]
      emits_quiet_attempt [OF quiet_db] emits_quiet_bind [OF quiet_new_id] emits_quiet_bind [OF quiet_calls(1)]
      emits_bind [OF emits_emit] emits_quiet [OF quiet_fail] | simp)+ (auto intro!: emits_quiet_bind quiet emits_return)

text \<open>
  C6: An operation is completed only after every one of its steps went through the whole protocol
  with a healthy verification: the trace of a completed operation consists of the successful
  traces of its steps, in the order of the plan, and then its completion.
\<close>

theorem completed_after_health_gates:
  assumes "run_state (process env owner operation) s = (u, s')" "eng_trace s = []" "Completed k \<in> set (eng_trace s')"
  shows "k = op_ID operation \<and> length (op_Steps operation) \<le> length (plan_Steps (op_Plan operation)) \<and>
    eng_trace s' = concat (map success_events (take (length (op_Steps operation)) (plan_Steps (op_Plan operation)))) @ [Completed k]"
proof -
  let ?R = "\<lambda>u evs. \<forall>k. Completed k \<in> set evs \<longrightarrow> k = op_ID operation \<and>
      length (op_Steps operation) \<le> length (plan_Steps (op_Plan operation)) \<and>
      evs = concat (map success_events (take (length (op_Steps operation)) (plan_Steps (op_Plan operation)))) @ [Completed k]"
  have "emits (process env owner operation) ?R"
    unfolding process_def
    apply (rule emits_quiet_attempt [OF quiet_get_plugin], rule emits_quiet [OF quiet_fail], simp)
    apply (split if_split, intro conjI impI, rule emits_quiet [OF quiet_fail], simp)
    apply (rule emits_quiet_bind [OF quiet_calls(1)], rule emits_bind [OF emits_process_steps], split if_split, intro conjI impI)
     apply (rule emits_weaken [OF emits_finish], auto) []
    by (rule emits_return) simp
  then obtain evs where "eng_trace s' = eng_trace s @ evs" "?R u evs" unfolding emits_def using assms(1) by (metis fst_conv snd_conv)
  with assms(2,3) show ?thesis by auto
qed

section \<open>A run of the worker\<close>

text \<open>Evaluating a program call by call.\<close>

lemma run_attempt:
  "run_state (attempt m h f) s = (case run_state m s of (r, s') \<Rightarrow> run_state (case r of Inl e \<Rightarrow> h e | Inr x \<Rightarrow> f x) s')"
  by (simp add: attempt_def State_Monad.bind_def)

lemma run_check:
  "run_state (check m f) s = (case run_state m s of (r, s') \<Rightarrow> (case r of Inl e \<Rightarrow> (Inl e, s') | Inr x \<Rightarrow> run_state (f x) s'))"
  by (auto simp: check_def run_attempt split: prod.splits sum.splits)

lemma run_db:
  "env_fault env (eng_tick s) = None \<Longrightarrow>
   run_state (db env f) s =
     (case f (env_now env (eng_tick s)) (env_others env (eng_tick s) (eng_store s)) of
        Inl e \<Rightarrow> (Inl (store_failure e), s\<lparr>eng_tick := Suc (eng_tick s), eng_store := env_others env (eng_tick s) (eng_store s)\<rparr>)
      | Inr r \<Rightarrow> (Inr (fst r), s\<lparr>eng_tick := Suc (eng_tick s), eng_store := snd r\<rparr>))"
  by (auto simp: db_def Let_def split: sum.splits prod.splits)

lemma run_write:
  "env_fault env (eng_tick s) = None \<Longrightarrow>
   run_state (db_write env f) s =
     (case f (env_now env (eng_tick s)) (env_others env (eng_tick s) (eng_store s)) of
        Inl e \<Rightarrow> (Inl (store_failure e), s\<lparr>eng_tick := Suc (eng_tick s), eng_store := env_others env (eng_tick s) (eng_store s)\<rparr>)
      | Inr st \<Rightarrow> (Inr (), s\<lparr>eng_tick := Suc (eng_tick s), eng_store := st\<rparr>))"
  by (auto simp: db_write_def run_db split: sum.splits)

lemma run_emit: "run_state (emit ev) s = ((), s\<lparr>eng_trace := eng_trace s @ [ev]\<rparr>)"
  by (simp add: emit_def State_Monad.update_def)

lemma run_world:
  "run_state (on_world f) s = (fst (f (eng_world s)), s\<lparr>eng_world := snd (f (eng_world s)), eng_tick := Suc (eng_tick s)\<rparr>)"
  by (simp add: on_world_def Let_def split: prod.splits)

lemma run_get_plugin:
  "run_state (get_plugin env k) s =
     ((case Get (env_registry env (eng_tick s)) k of
         Inl _ \<Rightarrow> Inl (newError (''plugin '' @ k @ '' is not installed'')) | Inr p \<Rightarrow> Inr p), s\<lparr>eng_tick := Suc (eng_tick s)\<rparr>)"
  by (simp add: get_plugin_def)

lemmas run_rules = run_attempt run_check run_write run_db run_emit run_world run_get_plugin State_Monad.bind_def

lemmas worker_defs = perform_step_def  resolveArtifactInputs_def reserveEffects_def precheck_def execute_def verify_def healthy_def healthy_result_def
  cleanup_def undo_def give_up_def fail_def failWithHealth_def stopOrFail_def append_log_def set_step_def set_status_def

text \<open>A plugin over a one-point world, an undisturbed environment and an operation of one mutating step.\<close>

definition sample_manifest :: "string list \<Rightarrow> Manifest" where
  "sample_manifest capabilities =
     \<lparr>mf_ID = ''p'', mf_Provider = [], mf_Name = ''P'', mf_Version = ''1'', mf_Schema = RawEmpty, mf_ArtifactInputs = [],
      mf_ArtifactOutputs = [], mf_Capabilities = capabilities, mf_RuntimeDigest = []\<rparr>"

definition sample_plugin :: "string list \<Rightarrow> failure option \<Rightarrow> unit Plugin" where
  "sample_plugin capabilities failed =
     (let health = \<lparr>hr_Status = HealthHealthy, hr_Summary = [], hr_Checks = []\<rparr> in
      \<lparr>plugin_Manifest = sample_manifest capabilities,
       plugin_Validate = (\<lambda>_. \<lparr>vr_Valid = True, vr_Issues = [], vr_CheckedAt = 0\<rparr>), plugin_Plan = (\<lambda>_. Inl []),
       plugin_Precheck = (\<lambda>_ w. (Inr health, w)), plugin_Execute = (\<lambda>_ w. ((RawDoc JNull, failed), w)),
       plugin_Verify = (\<lambda>_ _ w. (Inr health, w)), plugin_Cleanup = (\<lambda>_ _ w. (None, w))\<rparr>)"

definition sample_env :: "string list \<Rightarrow> failure option \<Rightarrow> unit Env" where
  "sample_env capabilities failed =
     \<lparr>env_now = (\<lambda>_. 0), env_fault = (\<lambda>_. None), env_others = (\<lambda>_ st. st), env_objects = (\<lambda>_ xs. xs), env_ctx = (\<lambda>_. None),
      env_registry = (\<lambda>_. \<lparr>reg_plugins = [(''p'', sample_plugin capabilities failed)], reg_bundled = []\<rparr>), env_id = (\<lambda>_. ''1''),
      env_vault = None, env_digest = (\<lambda>v. v), env_json = RawInvalid, env_escape = (\<lambda>v. v),
      env_result = (\<lambda>_ _ _. Inr ''done'')\<rparr>"

definition sample_planned :: PlanStep where
  "sample_planned =
     \<lparr>ps_ID = ''s'', ps_Name = ''S'', ps_Input = RawDoc JNull, ps_Mutating = True, ps_Cleanup = False, ps_ArtifactInputs = [],
      ps_Outputs = [], ps_ResolvedInputs = [], ps_Effects = []\<rparr>"

definition sample_running :: Operation where
  "sample_running = (sample_op Prechecking)\<lparr>op_Plan := \<lparr>plan_PluginID = ''p'', plan_Steps = [sample_planned]\<rparr>\<rparr>"

definition sample_step :: OperationStep where
  "sample_step = planned_step sample_running (0, sample_planned)"

definition sample_engine :: "unit Engine" where
  "sample_engine =
     \<lparr>eng_store = empty_store\<lparr>db_operations := [\<lparr>opr_Op = sample_running, opr_LeaseOwner = Some ''w'', opr_LeaseUntil = Some 30\<rparr>],
        db_steps := [sample_step]\<rparr>, eng_objects = [], eng_world = (), eng_tick = 0, eng_trace = []\<rparr>"

definition sample_store :: Store where
  "sample_store = eng_store sample_engine"

lemmas sample_engine_defs = sample_engine_def sample_env_def sample_plugin_def sample_manifest_def sample_running_def
  sample_planned_def sample_step_def sample_op_def empty_store_def planned_step_def

lemma sample_selectors:
  "env_fault (sample_env c e) n = None" "env_now (sample_env c e) n = 0" "env_others (sample_env c e) n st = st"
  "env_registry (sample_env c e) n = \<lparr>reg_plugins = [(''p'', sample_plugin c e)], reg_bundled = []\<rparr>"
  "plugin_Precheck (sample_plugin c e) x w = (Inr \<lparr>hr_Status = HealthHealthy, hr_Summary = [], hr_Checks = []\<rparr>, w)"
  "plugin_Execute (sample_plugin c e) x w = ((RawDoc JNull, e), w)"
  "plugin_Cleanup (sample_plugin c e) x y w = (None, w)"
  "op_ID sample_running = ''op_1''" "op_PluginID sample_running = ''p''" "mf_Provider (plugin_Manifest (sample_plugin c e)) = []"
  "op_WorkspaceID sample_running = ''w''"
  "ps_ID sample_planned = ''s''" "ps_Mutating sample_planned" "\<not> ps_Cleanup sample_planned" "ps_ArtifactInputs sample_planned = []"
  "ps_Effects sample_planned = []" "ps_ResolvedInputs sample_planned = []" "ps_Input sample_planned = RawDoc JNull"
  "env_ctx (sample_env c e) n = None" "env_result (sample_env c e) o1 o2 o3 = Inr ''done''" "ps_Outputs sample_planned = []"
  "env_objects (sample_env c e) n xs = xs"
  "plugin_Verify (sample_plugin c e) x r w = (Inr \<lparr>hr_Status = HealthHealthy, hr_Summary = [], hr_Checks = []\<rparr>, w)"
  "plan_Steps (op_Plan sample_running) = [sample_planned]" "mf_Capabilities (plugin_Manifest (sample_plugin c e)) = c"
  "mf_Version (plugin_Manifest (sample_plugin c e)) = ''1''" "mf_RuntimeDigest (plugin_Manifest (sample_plugin c e)) = []"
  "op_PluginVersion sample_running = ''1''" "op_PluginDigest sample_running = []" "db_artifacts sample_store = []"
  "eng_tick sample_engine = 0" "eng_trace sample_engine = []" "eng_world sample_engine = ()" "eng_store sample_engine = sample_store"
  by (simp_all add: sample_engine_defs Let_def sample_store_def)


lemma plain_failure:
  "\<not> fl_Canceled (newError message)" "\<not> fl_Canceled (wrap m e) \<longleftrightarrow> \<not> fl_Canceled e"
  by (simp_all add: newError_def wrap_def)

lemma sample_found:
  "find_row op_key ''op_1'' (db_operations sample_store) =
     Some \<lparr>opr_Op = sample_running, opr_LeaseOwner = Some ''w'', opr_LeaseUntil = Some 30\<rparr>"
  by (simp add: sample_store_def sample_engine_def op_key_def empty_store_def sample_running_def sample_op_def)

lemmas call_rules = SetStepState_def health_raw_def nullableJSON_def is_doc_def SetOperationStatus_def AppendLog_def FailOperation_def
  SetOperationManagedResourcesState_def ReserveManagedResources_def op_updates sample_found Get_def plain_failure

lemmas eval_step = worker_defs Let_def run_rules sample_selectors call_rules

lemmas eval_process = process_def process_step_def settle_step_def finish_def ctx_err_def Put_def new_id_def Matches_def
  HasCapability_def persistedStepResult_def CreateArtifact_def CompleteOperation_def GetOperation_def db_read_def

lemma sample_failure:
  "\<exists>s'. run_state (perform_step (sample_env [] (Some (newError ''x''))) sample_running sample_step 0 sample_planned
      (sample_plugin [] (Some (newError ''x'')))) sample_engine = (Returned, s') \<and> Executed ''s'' \<in> set (eng_trace s')"
  by (simp add: eval_step)

theorem executed_step_undone_witness:
  "\<exists>s'. run_state (perform_step (sample_env [] (Some (newError ''x''))) sample_running sample_step 0 sample_planned
      (sample_plugin [] (Some (newError ''x'')))) sample_engine = (Returned, s') \<and> last (eng_trace s') = CleanedUp ''s''"
proof -
  obtain s' where s': "run_state (perform_step (sample_env [] (Some (newError ''x''))) sample_running sample_step 0 sample_planned
      (sample_plugin [] (Some (newError ''x'')))) sample_engine = (Returned, s')" "Executed ''s'' \<in> set (eng_trace s')"
    using sample_failure by blast
  have "last (eng_trace s') = CleanedUp (ps_ID sample_planned)"
    by (rule executed_step_undone [OF s'(1)]) (use s'(2) in \<open>simp_all add: sample_selectors HasCapability_def\<close>)
  with s'(1) show ?thesis by (simp add: sample_selectors)
qed

lemma sample_completion:
  "\<exists>u s'. run_state (process (sample_env [] None) ''w'' (sample_running\<lparr>op_Steps := [sample_step]\<rparr>)) sample_engine = (u, s') \<and>
     Completed ''op_1'' \<in> set (eng_trace s')"
  by (simp add: eval_step eval_process)

theorem completed_after_health_gates_witness:
  "\<exists>u s'. run_state (process (sample_env [] None) ''w'' (sample_running\<lparr>op_Steps := [sample_step]\<rparr>)) sample_engine = (u, s') \<and>
     eng_trace s' = [Prechecked ''s'' True, Reserved ''s'', Executed ''s'', Verified ''s'' True, Completed ''op_1'']"
proof -
  obtain u s' where s': "run_state (process (sample_env [] None) ''w'' (sample_running\<lparr>op_Steps := [sample_step]\<rparr>)) sample_engine = (u, s')"
    "Completed ''op_1'' \<in> set (eng_trace s')"
    using sample_completion by blast
  with completed_after_health_gates [OF s'(1) _ s'(2)] show ?thesis
    by (simp add: sample_selectors success_events_def)
qed

text \<open>
  The exception of the protocol: when the resources a step discovered cannot be recorded, a step
  that changed the world is given up without its cleanup.
\<close>

theorem discovery_failure_not_undone:
  "\<exists>s'. run_state (perform_step (sample_env [''infrastructure.discovery''] None) sample_running sample_step 0 sample_planned
      (sample_plugin [''infrastructure.discovery''] None)) sample_engine = (Returned, s') \<and>
     ps_Mutating sample_planned \<and> Executed ''s'' \<in> set (eng_trace s') \<and> CleanedUp ''s'' \<notin> set (eng_trace s')"
  by (simp add: eval_step eval_process captureDiscovery_def)

end
