(* ===== verification/CoordinatorTrace.thy ===== *)
theory CoordinatorTrace
  imports Coordinator WorkerTrace
begin

text \<open>
  What a reconciliation does, read off its trace: stages start only in turn, a run completes only
  with its verified result, fails only after its operations have ended, and its stages are
  cleaned up one after the other in the cleanup order. Every call of the database may fail in
  between.
\<close>

section \<open>Accumulated traces\<close>

text \<open>\<open>after m acc R\<close>: run after the events \<open>acc\<close>, the program \<open>m\<close> ends with a result and a trace related by \<open>R\<close>.\<close>

definition after :: "('w, 'a) worker \<Rightarrow> event list \<Rightarrow> ('a \<Rightarrow> event list \<Rightarrow> bool) \<Rightarrow> bool" where
  "after m acc R \<longleftrightarrow> emits m (\<lambda>y evs. R y (acc @ evs))"

lemma after_spec: "emits m Q \<Longrightarrow> (\<And>y evs. Q y evs \<Longrightarrow> R y (acc @ evs)) \<Longrightarrow> after m acc R"
  unfolding after_def by (rule emits_weaken)

lemma after_return: "R x acc \<Longrightarrow> after (State_Monad.return x) acc R"
  by (simp add: after_def emits_return)

lemma after_bind:
  "emits m Q \<Longrightarrow> (\<And>x evs. Q x evs \<Longrightarrow> after (f x) (acc @ evs) R) \<Longrightarrow> after (State_Monad.bind m f) acc R"
  unfolding after_def by (rule emits_bind [of m Q]) auto

lemma after_emit: "after (f ()) (acc @ [ev]) R \<Longrightarrow> after (State_Monad.bind (emit ev) f) acc R"
  by (rule after_bind [OF emits_emit]) simp

lemma after_quiet_bind: "quiet m \<Longrightarrow> (\<And>x. after (f x) acc R) \<Longrightarrow> after (State_Monad.bind m f) acc R"
  by (rule after_bind [of m "\<lambda>_ evs. evs = []"]) auto

lemma after_attempt:
  assumes "emits m Q" "\<And>e evs. Q (Inl e) evs \<Longrightarrow> after (h e) (acc @ evs) R" "\<And>x evs. Q (Inr x) evs \<Longrightarrow> after (f x) (acc @ evs) R"
  shows "after (attempt m h f) acc R"
  unfolding attempt_def by (rule after_bind [OF assms(1)]) (use assms(2,3) in \<open>auto split: sum.splits\<close>)

lemma after_check:
  assumes "emits m Q" "\<And>e evs. Q (Inl e) evs \<Longrightarrow> R (Inl e) (acc @ evs)" "\<And>x evs. Q (Inr x) evs \<Longrightarrow> after (f x) (acc @ evs) R"
  shows "after (check m f) acc R"
  unfolding check_def by (rule after_attempt [OF assms(1)]) (use assms(2,3) in \<open>auto intro: after_return\<close>)

lemma after_quiet_check: "quiet m \<Longrightarrow> (\<And>e. R (Inl e) acc) \<Longrightarrow> (\<And>x. after (f x) acc R) \<Longrightarrow> after (check m f) acc R"
  by (rule after_check [of m "\<lambda>_ evs. evs = []"]) auto

lemma after_quiet_attempt: "quiet m \<Longrightarrow> (\<And>e. after (h e) acc R) \<Longrightarrow> (\<And>x. after (f x) acc R) \<Longrightarrow> after (attempt m h f) acc R"
  by (rule after_attempt [of m "\<lambda>_ evs. evs = []"]) auto

lemma after_quiet: "quiet m \<Longrightarrow> (\<And>y. R y acc) \<Longrightarrow> after m acc R"
  by (rule after_spec [of m "\<lambda>_ evs. evs = []"]) auto

lemma after_if: "(b \<Longrightarrow> after m acc R) \<Longrightarrow> (\<not> b \<Longrightarrow> after n acc R) \<Longrightarrow> after (if b then m else n) acc R"
  by simp

lemma after_lifted: "after m acc (\<lambda>r evs. R (map_sum Error id r) evs) \<Longrightarrow> after (lifted m) acc R"
  unfolding lifted_def after_def by (erule emits_bind) (auto intro: emits_return)

lemma emitsI: "after m [] R \<Longrightarrow> emits m R"
  by (simp add: after_def)

lemma emits_lifted: "emits m Q \<Longrightarrow> emits (lifted m) (\<lambda>r evs. \<exists>x. r = map_sum Error id x \<and> Q x evs)"
  by (rule emitsI, rule after_lifted, erule after_spec) auto

lemma quiet_lifted [quiet]: "quiet m \<Longrightarrow> quiet (lifted m)"
  unfolding lifted_def by (intro quiet_bind quiet)

lemma quiet_clock [quiet]: "quiet (clock env)"
  unfolding clock_def by (rule quiet_State) simp

section \<open>Reading operations and stopping them\<close>

lemma emits_observe:
  "emits (observe env k) (\<lambda>r evs. case r of Inl _ \<Rightarrow> evs = [] | Inr operation \<Rightarrow> evs = [Saw k (op_Status operation)])"
  unfolding observe_def by (rule emitsI, rule after_quiet_check [OF quiet_db_read]) (auto intro!: after_emit after_return)

lemma quiet_request_stop [quiet]: "quiet (request_stop env k)"
  unfolding request_stop_def by (rule quiet)

lemma quiet_fail_run_stage [quiet]: "quiet (fail_run_stage env run position s cause)"
  unfolding fail_run_stage_def by (intro quiet_if quiet)

text \<open>Every operation of the stages was seen in a terminal state.\<close>

definition drained :: "PipelineRunStage list \<Rightarrow> event list \<Rightarrow> bool" where
  "drained stages evs \<longleftrightarrow>
     (\<forall>stage \<in> set stages. st_OperationID stage \<noteq> [] \<longrightarrow>
       (\<exists>s. terminalOperation s \<and> Saw (st_OperationID stage) s \<in> set evs))"

definition is_saw :: "event \<Rightarrow> bool" where
  "is_saw ev \<longleftrightarrow> (case ev of Saw _ _ \<Rightarrow> True | _ \<Rightarrow> False)"

lemma is_saw_Saw [simp]: "is_saw (Saw k s)"
  by (simp add: is_saw_def)

lemma after_stop:
  "list_all is_saw acc \<Longrightarrow> (stopped \<Longrightarrow> drained before acc) \<Longrightarrow>
   after (stopPipelineOperations env stages stopped) acc
     (\<lambda>r evs. list_all is_saw evs \<and> (r = Inr True \<longrightarrow> drained (before @ stages) evs))"
proof (induction stages arbitrary: stopped acc before)
  case Nil
  then show ?case by (auto intro!: after_return)
next
  case (Cons stage stages)
  show ?case
  proof (cases "st_OperationID stage = []")
    case True
    have "after (stopPipelineOperations env stages stopped) acc
        (\<lambda>r evs. list_all is_saw evs \<and> (r = Inr True \<longrightarrow> drained ((before @ [stage]) @ stages) evs))"
      by (rule Cons.IH) (use Cons.prems True in \<open>auto simp: drained_def\<close>)
    with True show ?thesis by simp
  next
    case False
    have step: "after (stopPipelineOperations env stages b) (acc @ [Saw (st_OperationID stage) s])
        (\<lambda>r evs. list_all is_saw evs \<and> (r = Inr True \<longrightarrow> drained ((before @ [stage]) @ stages) evs))"
      if "b \<Longrightarrow> stopped \<and> terminalOperation s" for b s
      by (rule Cons.IH) (use Cons.prems that in \<open>auto simp: drained_def\<close>)
    from False Cons.prems(1) show ?thesis
      by (auto intro!: after_check [OF emits_observe] after_quiet_check quiet step [simplified] split: sum.splits)
  qed
qed

lemma emits_stop:
  "emits (stopPipelineOperations env stages True) (\<lambda>r evs. list_all is_saw evs \<and> (r = Inr True \<longrightarrow> drained stages evs))"
  using after_stop [of "[]" True "[]" env stages] by (simp add: after_def drained_def)

lemma emits_db:
  "emits (db env f) (\<lambda>r evs. evs = [] \<and> (\<forall>x. r = Inr x \<longrightarrow> (\<exists>now st st'. f now st = Inr (x, st'))))"
  unfolding emits_def db_def by (auto simp: Let_def split: option.splits sum.splits prod.splits)

lemma emits_end_failed: "emits (end_failed env owner run s message) (\<lambda>_ evs. evs = [RunFailed s])"
  unfolding end_failed_def by (rule emitsI, rule after_emit, rule after_quiet) (auto intro: quiet)

lemma emits_failPipelineRun: "emits (failPipelineRun env owner run position cause) (\<lambda>_ evs. evs = [] \<or> evs = [RunFailed Failed])"
  unfolding failPipelineRun_def
  by (rule emitsI, rule after_quiet_check) (auto intro!: quiet after_spec [OF emits_end_failed])

lemma emits_begin_termination:
  "emits (begin_termination env owner run s cause) (\<lambda>_ evs. \<forall>ev \<in> set evs. is_saw ev \<or> ev = TerminationBegun s)"
  unfolding begin_termination_def
  by (rule emitsI, rule after_check [OF emits_stop])
    (auto simp: list_all_iff intro!: after_emit after_quiet quiet)

definition ending_events :: "PipelineRunStage list \<Rightarrow> status \<Rightarrow> event list \<Rightarrow> bool" where
  "ending_events stages s evs \<longleftrightarrow>
     (\<forall>ev \<in> set evs. is_saw ev \<or> ev = TerminationBegun s \<or> ev = RunFailed s) \<and> (RunFailed s \<in> set evs \<longrightarrow> drained stages evs)"

lemma is_saw_not_failed: "is_saw ev \<Longrightarrow> ev \<noteq> RunFailed s"
  by (auto simp: is_saw_def)

lemma drained_mono: "drained stages evs \<Longrightarrow> set evs \<subseteq> set evs' \<Longrightarrow> drained stages evs'"
  unfolding drained_def by blast

lemma ending_no_failure: "(\<forall>ev \<in> set evs. is_saw ev \<or> ev = TerminationBegun s) \<Longrightarrow> ending_events stages s evs"
  by (auto simp: ending_events_def is_saw_def)

lemma emits_defer:
  "emits (deferPipelineTermination env owner run pipeline position s cause) (\<lambda>_ evs. ending_events (run_Stages run) s evs)"
proof -
  have begun: "after (begin_termination env owner run s cause) acc (\<lambda>_ evs. ending_events (run_Stages run) s evs)"
    if "list_all is_saw acc" for acc
    by (rule after_spec [OF emits_begin_termination], rule ending_no_failure) (use that in \<open>auto simp: list_all_iff\<close>)
  have failed: "after (end_failed env owner run s (fl_Message cause)) acc (\<lambda>_ evs. ending_events (run_Stages run) s evs)"
    if "list_all is_saw acc" "drained (run_Stages run) acc" for acc
    by (rule after_spec [OF emits_end_failed])
      (use that in \<open>auto simp: ending_events_def list_all_iff intro: drained_mono\<close>)
  show ?thesis
    unfolding deferPipelineTermination_def
    by (rule emitsI, rule after_quiet_check)
      (auto intro!: quiet begun failed after_if after_check [OF emits_stop] ending_no_failure simp: list_all_iff)
qed

lemma emits_unreleased: "emits m (\<lambda>_ evs. R evs) \<Longrightarrow> emits (unreleased m) (\<lambda>r evs. R evs \<and> r \<noteq> Inr True)"
  unfolding unreleased_def
  by (rule emitsI, rule after_check [OF emits_lifted]) (auto intro: after_return)

section \<open>Cleanup in order\<close>

definition housekeeping :: "event \<Rightarrow> bool" where
  "housekeeping ev \<longleftrightarrow>
     (case ev of Saw _ _ \<Rightarrow> True | CleanupStarted _ \<Rightarrow> True | CleanupSkipped _ \<Rightarrow> True | Verified _ _ \<Rightarrow> True | _ \<Rightarrow> False)"

lemma housekeeping_simps [simp]:
  "housekeeping (Saw k s)" "housekeeping (CleanupStarted p)" "housekeeping (CleanupSkipped p)" "housekeeping (Verified k b)"
  by (simp_all add: housekeeping_def)

text \<open>The cleanup of a stage has ended, was seen to have ended, or is skipped.\<close>

definition ended_cleanup :: "status \<Rightarrow> bool" where
  "ended_cleanup s \<longleftrightarrow> terminalOperation s \<or> s = Skipped"

definition cleaned :: "PipelineRunStage list \<Rightarrow> event list \<Rightarrow> nat \<Rightarrow> bool" where
  "cleaned stages evs position \<longleftrightarrow>
     fst (cleanupStageResult (stages ! position)) \<or> CleanupSkipped position \<in> set evs \<or>
     (\<exists>s. Saw (st_CleanupOperationID (stages ! position)) s \<in> set evs \<and> ended_cleanup s)"

definition cleanup_order_kept :: "PipelineRunStage list \<Rightarrow> nat list \<Rightarrow> event list \<Rightarrow> bool" where
  "cleanup_order_kept stages order evs \<longleftrightarrow>
     list_all housekeeping evs \<and>
     (\<forall>p. CleanupStarted p \<in> set evs \<longrightarrow>
       (\<exists>earlier later. order = earlier @ p # later \<and> list_all (cleaned stages evs) earlier))"


lemma emits_skip_stage: "emits (skip_stage env owner run position stageID) (\<lambda>_ evs. evs = [CleanupSkipped position])"
  unfolding skip_stage_def by (rule emitsI, rule after_emit, rule after_quiet) (auto intro: quiet)

lemma emits_clean_stage:
  "emits (clean_stage env rt owner run position stage source plan) (\<lambda>_ evs. evs = [] \<or> evs = [CleanupStarted position])"
  unfolding clean_stage_def
  by (rule emitsI, rule after_quiet_check)
    (auto intro!: quiet after_if after_return after_emit after_quiet_bind after_quiet_check)

lemma cleaned_mono: "cleaned stages evs p \<Longrightarrow> set evs \<subseteq> set evs' \<Longrightarrow> cleaned stages evs' p"
  by (auto simp: cleaned_def)

lemma cleaned_list_mono: "list_all (cleaned stages evs) ps \<Longrightarrow> set evs \<subseteq> set evs' \<Longrightarrow> list_all (cleaned stages evs') ps"
  by (auto simp: list_all_iff intro: cleaned_mono)

lemma cleanup_ended: "fst (cleanupStageResult stage) \<Longrightarrow> ended_cleanup (st_CleanupStatus stage)"
  by (auto simp: cleanupStageResult_def ended_cleanup_def terminalOperation_def Let_def split: status.splits)

definition same_cleanup :: "PipelineRunStage list \<Rightarrow> PipelineRunStage list \<Rightarrow> nat list \<Rightarrow> bool" where
  "same_cleanup stages stages' positions \<longleftrightarrow> length stages' = length stages \<and> (\<forall>p \<in> set positions. stages' ! p = stages ! p)"

lemma after_cleanup_stages:
  assumes "distinct (past @ positions)" "same_cleanup stages stages' positions" "set positions \<subseteq> {..< length stages}"
    and "list_all housekeeping acc" "list_all (cleaned stages acc) past" "\<forall>p. CleanupStarted p \<notin> set acc"
  shows "after (cleanup_stages env rt owner run stages' positions) acc
    (\<lambda>r evs. cleanup_order_kept stages (past @ positions) evs)"
  using assms
proof (induction positions arbitrary: stages' acc past)
  case Nil
  then show ?case by (auto simp: cleanup_order_kept_def list_all_iff intro!: after_return)
next
  case (Cons p ps)
  have here: "stages' ! p = stages ! p" using Cons.prems(2) by (simp add: same_cleanup_def)
  have next_stage: "after (cleanup_stages env rt owner run stages'' ps) acc' (\<lambda>r evs. cleanup_order_kept stages (past @ p # ps) evs)"
    if "same_cleanup stages stages'' ps" "set acc \<subseteq> set acc'" "list_all housekeeping acc'" "cleaned stages acc' p"
      "\<forall>p. CleanupStarted p \<notin> set acc'" for stages'' acc'
    using Cons.IH [of "past @ [p]" stages'' acc'] Cons.prems that by (auto intro: cleaned_list_mono)
  have same: "same_cleanup stages stages' ps" "same_cleanup stages (stages'[p := x]) ps" for x
    using Cons.prems(1,2) by (auto simp: same_cleanup_def) (metis nth_list_update_neq)
  have stopped: "cleanup_order_kept stages (past @ p # ps) acc'"
    if "list_all housekeeping acc'" "\<forall>p. CleanupStarted p \<notin> set acc'" for acc'
    using that by (simp add: cleanup_order_kept_def)
  have started: "cleanup_order_kept stages (past @ p # ps) acc'"
    if "set acc \<subseteq> set acc'" "list_all housekeeping acc'" "\<forall>q. CleanupStarted q \<in> set acc' \<longrightarrow> q = p" for acc'
    using that cleaned_list_mono [OF Cons.prems(5) that(1)] by (auto simp: cleanup_order_kept_def)
  have skip: "after (check (skip_stage env owner run p k) (\<lambda>_. cleanup_stages env rt owner run stages' ps)) acc'
      (\<lambda>r evs. cleanup_order_kept stages (past @ p # ps) evs)"
    if "set acc \<subseteq> set acc'" "list_all housekeeping acc'" "\<forall>p. CleanupStarted p \<notin> set acc'" for k acc'
    by (rule after_check [OF emits_skip_stage]) (use that in \<open>auto simp: cleaned_def intro!: stopped next_stage same\<close>)
  have ended: "cleaned stages (acc @ [Saw (st_CleanupOperationID (stages ! p)) (op_Status operation)]) p"
    if "fst (cleanupStageResult ((stages ! p)\<lparr>st_CleanupStatus := op_Status operation, st_CleanupError := message\<rparr>))"
    for operation :: Operation and message
    using cleanup_ended [OF that] by (auto simp: cleaned_def)
  have clean: "after (check (clean_stage env rt owner run p (stages ! p) source plan) (\<lambda>_. State_Monad.return (Inr None)))
      (acc @ [Saw k s]) (\<lambda>r evs. cleanup_order_kept stages (past @ p # ps) evs)" for source plan k s
    by (rule after_check [OF emits_clean_stage]) (use Cons.prems(4,6) in \<open>auto intro!: started after_return\<close>)
  have synced: "after (check (db_write env f) (\<lambda>_. cleanup_stages env rt owner run (stages'[p := stage']) ps))
      (acc @ [Saw (st_CleanupOperationID (stages ! p)) (op_Status operation)]) (\<lambda>r evs. cleanup_order_kept stages (past @ p # ps) evs)"
    if "fst (cleanupStageResult ((stages ! p)\<lparr>st_CleanupStatus := op_Status operation, st_CleanupError := op_Error operation\<rparr>))"
    for operation :: Operation and stage' f
    by (rule after_quiet_check [OF quiet_db_write]) (use Cons.prems(4,6) that in \<open>auto intro!: stopped next_stage same ended\<close>)
  have waiting: "after (check (db_write env f) (\<lambda>_. State_Monad.return (Inr None)))
      (acc @ [Saw k s]) (\<lambda>r evs. cleanup_order_kept stages (past @ p # ps) evs)" for k s f
    by (rule after_quiet_check [OF quiet_db_write]) (use Cons.prems(4,6) in \<open>auto intro!: stopped after_return\<close>)
  show ?case
  proof (simp only: cleanup_stages.simps Let_def here, intro after_if)
    show "after (cleanup_stages env rt owner run stages' ps) acc (\<lambda>r evs. cleanup_order_kept stages (past @ p # ps) evs)"
      if "fst (cleanupStageResult (stages ! p))"
      using that Cons.prems(4,6) by (auto intro!: next_stage same simp: cleaned_def)
  qed (use Cons.prems(4,6) in \<open>auto intro!: skip clean synced waiting stopped after_attempt [OF emits_observe] after_return
      split: sum.splits cleanup_error.splits\<close>)
qed

lemma cleanup_order_append:
  "cleanup_order_kept stages order evs \<Longrightarrow> list_all housekeeping evs' \<Longrightarrow> \<forall>p. CleanupStarted p \<notin> set evs' \<Longrightarrow>
   cleanup_order_kept stages order (evs @ evs')"
  unfolding cleanup_order_kept_def
  by (auto intro: cleaned_list_mono) (metis cleaned_list_mono set_append sup_ge1)

definition inspecting :: "event list \<Rightarrow> bool" where
  "inspecting evs \<longleftrightarrow> list_all housekeeping evs \<and> (\<forall>p. CleanupStarted p \<notin> set evs)"

lemma inspecting_append [simp]: "inspecting (a @ b) \<longleftrightarrow> inspecting a \<and> inspecting b"
  by (auto simp: inspecting_def)

lemma inspecting_simps [simp]:
  "inspecting []" "inspecting (Saw k s # evs) \<longleftrightarrow> inspecting evs" "inspecting (Verified k b # evs) \<longleftrightarrow> inspecting evs"
  by (simp_all add: inspecting_def)

lemma after_recheck_steps:
  "inspecting acc \<Longrightarrow> after (recheck_steps env operation plugin position steps) acc (\<lambda>_ evs. inspecting evs)"
proof (induction steps arbitrary: position acc)
  case Nil
  then show ?case by (auto intro: after_return)
next
  case (Cons step steps)
  then show ?case
    by (auto intro!: after_quiet_attempt [OF quiet_resolveArtifactInputs] after_attempt [OF emits_verify] after_return)
qed

lemma quiet_renew_run [quiet]: "quiet (renew_run env runID owner)"
  unfolding renew_run_def by (rule quiet)

lemma emits_recheck: "emits (recheckNamespaceCleanup env runID owner stage) (\<lambda>_ evs. inspecting evs)"
proof -
  have tail: "after (if b then m else check (append_log env a1 a2 a3 a4 a5) (\<lambda>_. check (renew_run env runID owner) (\<lambda>_.
      check (db_write env f) (\<lambda>_. State_Monad.return (Inr True))))) acc (\<lambda>_ evs. inspecting evs)"
    if "inspecting acc" "quiet m" for b m acc f a1 a2 a3 a4 a5
    using that by (auto intro!: after_quiet after_quiet_check quiet after_return)
  show ?thesis
    unfolding recheckNamespaceCleanup_def
    by (rule emitsI, rule after_check [OF emits_observe])
      (auto intro!: after_quiet_check quiet after_if after_return after_bind [OF after_recheck_steps [of "[]", unfolded after_def append_Nil]]
        tail split: sum.splits simp: quiet)
qed

lemma after_cleanup_failures:
  "inspecting acc \<Longrightarrow> after (cleanup_failures env runID owner stages failures) acc (\<lambda>_ evs. inspecting evs)"
proof (induction stages arbitrary: failures acc)
  case Nil
  then show ?case by (auto intro: after_return)
next
  case (Cons stage stages)
  then show ?case
    by (auto intro!: after_check [OF emits_recheck] after_quiet_check [OF quiet_return])
qed

lemma emits_reconcile_cleanup:
  "emits (reconcilePipelineCleanup env rt owner run)
     (\<lambda>_ evs. cleanup_order_kept (run_Stages run) (pipelineCleanupOrder (run_Stages run)) evs)"
proof -
  let ?R = "\<lambda>evs. cleanup_order_kept (run_Stages run) (pipelineCleanupOrder (run_Stages run)) evs"
  have stages: "emits (cleanup_stages env rt owner run (run_Stages run) (pipelineCleanupOrder (run_Stages run))) (\<lambda>_ evs. ?R evs)"
    using after_cleanup_stages [of "[]" "pipelineCleanupOrder (run_Stages run)" "run_Stages run" "run_Stages run" "[]" env rt owner run]
    by (simp add: cleanup_order_distinct cleanup_order_set same_cleanup_def after_def)
  have failures: "emits (cleanup_failures env runID owner stages []) (\<lambda>_ evs. inspecting evs)" for runID stages
    using after_cleanup_failures [of "[]"] by (simp add: after_def)
  show ?thesis
    unfolding reconcilePipelineCleanup_def
    by (rule emitsI, rule after_check [OF stages])
      (auto intro!: after_check [OF failures] after_return cleanup_order_append simp: inspecting_def split: option.splits)
qed


section \<open>Synchronising and starting stages\<close>

text \<open>A stage with the state in which its operation was seen.\<close>

definition seen :: "event list \<Rightarrow> PipelineRunStage \<Rightarrow> PipelineRunStage \<Rightarrow> bool" where
  "seen evs stage stage' \<longleftrightarrow>
     (if st_OperationID stage = [] then stage' = stage
      else \<exists>s. stage' = stage\<lparr>st_Status := s\<rparr> \<and> Saw (st_OperationID stage) s \<in> set evs)"

definition same_operation :: "PipelineRunStage \<Rightarrow> PipelineRunStage \<Rightarrow> bool" where
  "same_operation stage stage' \<longleftrightarrow> (st_OperationID stage \<noteq> [] \<longrightarrow> st_OperationID stage' = st_OperationID stage)"

lemma seen_same: "seen evs stage stage' \<Longrightarrow> same_operation stage stage'"
  by (auto simp: seen_def same_operation_def split: if_splits)

lemma seen_mono: "seen evs a b \<Longrightarrow> set evs \<subseteq> set evs' \<Longrightarrow> seen evs' a b"
  by (auto simp: seen_def split: if_splits)

lemma seen_list_mono: "list_all2 (seen evs) as bs \<Longrightarrow> set evs \<subseteq> set evs' \<Longrightarrow> list_all2 (seen evs') as bs"
  by (auto intro: list_all2_mono seen_mono)

definition sync_events :: "PipelineRunStage list \<Rightarrow> failure + PipelineRunStage list \<times> ('x + 'y) \<Rightarrow> event list \<Rightarrow> bool" where
  "sync_events stages r evs \<longleftrightarrow>
     list_all is_saw evs \<and>
     (\<forall>stages' state. r = Inr (stages', state) \<longrightarrow>
       list_all2 same_operation stages stages' \<and> (\<forall>produced. state = Inr produced \<longrightarrow> list_all2 (seen evs) stages stages'))"

lemma after_sync:
  "list_all is_saw acc \<Longrightarrow> list_all2 (seen acc) before synced \<Longrightarrow>
   after (sync_stages env rt synced stages produced) acc (sync_events (before @ stages))"
proof (induction stages arbitrary: acc before synced produced)
  case Nil
  then show ?case by (auto simp: sync_events_def intro!: after_return intro: list_all2_mono seen_same)
next
  case (Cons stage stages)
  have same: "list_all2 same_operation before synced" using Cons.prems(2) by (rule list_all2_mono) (rule seen_same)
  have step: "after (sync_stages env rt (synced @ [stage']) stages produced') acc' (sync_events (before @ stage # stages))"
    if "set acc \<subseteq> set acc'" "list_all is_saw acc'" "seen acc' stage stage'" for stage' produced' acc'
    using Cons.IH [of acc' "before @ [stage]" "synced @ [stage']"] that seen_list_mono [OF Cons.prems(2) that(1)]
    by (auto intro!: list_all2_appendI)
  have ending: "after (State_Monad.return (Inr (synced @ stage' # stages, Inl x))) acc' (sync_events (before @ stage # stages))"
    if "list_all is_saw acc'" "same_operation stage stage'" for stage' x acc'
    using that same by (auto simp: sync_events_def same_operation_def intro!: after_return list_all2_appendI list_all2_refl)
  have refl: "same_operation stage (stage\<lparr>st_Status := s\<rparr>)" "same_operation stage stage" for s
    by (simp_all add: same_operation_def)
  have failed: "sync_events (before @ stage # stages) (Inl e) acc'" if "list_all is_saw acc'" for e acc'
    using that by (simp add: sync_events_def)
  show ?case
  proof (cases "st_OperationID stage = []")
    case True
    then show ?thesis using Cons.prems(1) by (auto intro!: step simp: seen_def)
  next
    case False
    then show ?thesis using Cons.prems(1)
      by (auto simp: Let_def seen_def split: sum.splits
        intro!: after_attempt [OF emits_observe] ending refl after_quiet_check [OF quiet_db_write] failed step after_if)
  qed
qed

lemma emits_sync: "emits (sync_stages env rt [] stages []) (sync_events stages)"
  using after_sync [of "[]" "[]" "[]" env rt stages "[]"] by (simp add: after_def)


lemma ready_loop_positions:
  assumes "ready_loop def stages ids limit i rest active = Some ps" "stages = pre @ rest" "i = length pre" "p \<in> set ps"
  shows "i \<le> p \<and> p < length stages \<and> st_OperationID (stages ! p) = []"
  using assms
proof (induction rest arbitrary: i pre active ps)
  case Nil
  then show ?case by simp
next
  case (Cons stage rest)
  have more: "i \<le> p \<and> p < length stages \<and> st_OperationID (stages ! p) = []"
    if "ready_loop def stages ids limit (Suc i) rest active' = Some ps'" "p \<in> set ps'" for active' ps'
    using Cons.IH [OF that(1), of "pre @ [stage]"] Cons.prems(2,3) that(2) by auto
  show ?case
    using Cons.prems more by (auto split: if_splits)
qed

lemma ready_positions:
  "readyPipelineStages def stages = Some ps \<Longrightarrow> p \<in> set ps \<Longrightarrow> p < length stages \<and> st_OperationID (stages ! p) = []"
  unfolding readyPipelineStages_def using ready_loop_positions [of def stages _ _ 0 stages _ ps "[]" p] by auto

lemma created_queued:
  "CreatePipelineStageOperation now runID stageID owner operation st = Inr (operation', st') \<Longrightarrow> op_Status operation' = Queued"
  by (auto simp: CreatePipelineStageOperation_def queued_operation_def split: option.splits sum.splits if_splits)

lemma lifted_Inr: "map_sum Error id x = Inr y \<longleftrightarrow> x = Inr y" "Inr y = map_sum Error id x \<longleftrightarrow> x = Inr y"
  by (cases x; auto)+

lemma emits_start:
  "emits (startPipelineStage env rt owner run pipeline p produced) (\<lambda>r evs.
     (evs = [] \<or> evs = [Started p]) \<and> (\<forall>run'. r = Inr run' \<longrightarrow> (\<exists>operation. op_Status operation = Queued \<and> run' = note_started p operation run)))"
proof -
  have create: "emits (lifted (db env (\<lambda>now. CreatePipelineStageOperation now runID stageID owner operation)))
      (\<lambda>r evs. evs = [] \<and> (\<forall>x. r = Inr x \<longrightarrow> op_Status x = Queued))" for runID stageID operation
    by (rule emits_weaken [OF emits_lifted [OF emits_db]]) (auto dest: created_queued simp: lifted_Inr)
  show ?thesis
    unfolding startPipelineStage_def Let_def
    by (rule emitsI)
      (auto intro!: after_quiet_check [OF quiet_return] after_quiet_check [OF quiet_lifted [OF quiet_get_plugin]] after_if after_return
        after_quiet_bind [OF quiet_clock] after_quiet_bind [OF quiet_new_id] after_emit after_check [OF create])
qed

definition start_events :: "PipelineRun \<Rightarrow> nat list \<Rightarrow> fault + PipelineRun \<times> (nat \<times> failure) option \<Rightarrow> event list \<Rightarrow> bool" where
  "start_events run positions r evs \<longleftrightarrow>
     (\<forall>ev \<in> set evs. \<exists>p \<in> set positions. ev = Started p) \<and>
     (\<forall>run' failed. r = Inr (run', failed) \<longrightarrow>
       (\<exists>stages. run' = run\<lparr>run_Stages := stages\<rparr> \<and> length stages = length (run_Stages run) \<and>
         (\<forall>i. i \<notin> set positions \<longrightarrow> stages ! i = run_Stages run ! i) \<and>
         (failed = None \<longrightarrow> (\<forall>p \<in> set positions. p < length stages \<longrightarrow> st_Status (stages ! p) = Queued))))"

lemma emits_start_stages: "emits (start_stages env rt owner run pipeline produced positions) (start_events run positions)"
proof (induction positions arbitrary: run)
  case Nil
  then show ?case by (auto simp: start_events_def intro!: emits_return exI [of _ "run_Stages run"])
next
  case (Cons p ps)
  have rest: "start_events run (p # ps) r (acc @ evs)"
    if r: "start_events (note_started p operation run) ps r evs" and "op_Status operation = Queued" "acc = [] \<or> acc = [Started p]"
    for operation r evs acc
    unfolding start_events_def
  proof (intro conjI allI impI)
    show "\<forall>ev \<in> set (acc @ evs). \<exists>q \<in> set (p # ps). ev = Started q" using that by (auto simp: start_events_def)
    fix run' failed assume "r = Inr (run', failed)"
    with r obtain stages where "run' = (note_started p operation run)\<lparr>run_Stages := stages\<rparr>"
      "length stages = length (run_Stages run)"
      "\<forall>i. i \<notin> set ps \<longrightarrow> stages ! i = run_Stages (note_started p operation run) ! i"
      "failed = None \<longrightarrow> (\<forall>p \<in> set ps. p < length stages \<longrightarrow> st_Status (stages ! p) = Queued)"
      by (auto simp: start_events_def note_started_def)
    then show "\<exists>stages. run' = run\<lparr>run_Stages := stages\<rparr> \<and> length stages = length (run_Stages run) \<and>
        (\<forall>i. i \<notin> set (p # ps) \<longrightarrow> stages ! i = run_Stages run ! i) \<and>
        (failed = None \<longrightarrow> (\<forall>p \<in> set (p # ps). p < length stages \<longrightarrow> st_Status (stages ! p) = Queued))"
      using that(2) by (intro exI [of _ stages]) (auto simp: note_started_def nth_list_update)
  qed
  have failed: "start_events run (p # ps) (case e of Error cause \<Rightarrow> Inr (run, Some (p, cause)) | Crash \<Rightarrow> Inl Crash) acc"
    if "acc = [] \<or> acc = [Started p]" for e acc
    using that by (auto simp: start_events_def intro!: exI [of _ "run_Stages run"] split: fault.splits)
  show ?case
    by (simp only: start_stages.simps, rule emitsI, rule after_attempt [OF emits_start])
      (auto intro!: after_return after_spec [OF Cons.IH] rest failed)
qed


section \<open>The trace of a reconciliation\<close>

text \<open>The pipeline the run was validated with has been read.\<close>

definition loaded :: "PipelineRun \<Rightarrow> event list \<Rightarrow> Pipeline \<Rightarrow> bool" where
  "loaded run evs pipeline \<longleftrightarrow>
     LoadedPipeline pipeline \<in> set evs \<and> pl_Hash pipeline = run_PipelineHash run \<and> pl_WorkspaceID pipeline = run_WorkspaceID run"

definition start_allowed :: "PipelineRun \<Rightarrow> event list \<Rightarrow> nat \<Rightarrow> bool" where
  "start_allowed run evs p \<longleftrightarrow>
     (\<exists>pipeline stages positions. loaded run evs pipeline \<and> run_TerminalStatus run = NoStatus \<and> \<not> run_CancelRequested run \<and>
       list_all2 (seen evs) (run_Stages run) stages \<and> readyPipelineStages (pl_Definition pipeline) stages = Some positions \<and>
       p \<in> set positions \<and>
       (run_PauseBeforeStage run = [] \<or> run_ExecutionRequested run \<or> p < gate_of (pl_Definition pipeline) run))"

definition completion_allowed :: "PipelineRun \<Rightarrow> event list \<Rightarrow> string \<Rightarrow> bool" where
  "completion_allowed run evs artifactID \<longleftrightarrow>
     (\<exists>stages. list_all2 (seen evs) (run_Stages run) stages \<and> list_all (\<lambda>stage. st_Status stage = Succeeded) stages) \<and>
     (if run_ResultType run = [] \<and> run_ResultVersion run = [] then artifactID = []
      else \<exists>artifact. Loaded artifact \<in> set evs \<and> art_ID artifact = artifactID \<and> art_Type artifact = run_ResultType run \<and>
        art_Version artifact = run_ResultVersion run \<and> art_VerifiedAt artifact \<noteq> 0)"

definition run_trace :: "PipelineRun \<Rightarrow> event list \<Rightarrow> bool" where
  "run_trace run evs \<longleftrightarrow>
     (\<forall>p. Started p \<in> set evs \<longrightarrow> start_allowed run evs p) \<and>
     (\<forall>a. RunCompleted a \<in> set evs \<longrightarrow> completion_allowed run evs a) \<and>
     (\<forall>s pipeline. RunFailed s \<in> set evs \<and> loaded run evs pipeline \<longrightarrow> drained (run_Stages run) evs)"

definition steady :: "event \<Rightarrow> bool" where
  "steady ev \<longleftrightarrow>
     (case ev of Started _ \<Rightarrow> False | RunCompleted _ \<Rightarrow> False | RunFailed _ \<Rightarrow> False | LoadedPipeline _ \<Rightarrow> False | _ \<Rightarrow> True)"

lemma steady_simps [simp]:
  "steady (Saw k s)" "steady (Loaded artifact)" "steady (TerminationBegun s)" "\<not> steady (Started p)" "\<not> steady (RunCompleted a)"
  "\<not> steady (RunFailed s)" "\<not> steady (LoadedPipeline pipeline)"
  by (simp_all add: steady_def)

lemma saw_steady: "is_saw ev \<Longrightarrow> steady ev"
  by (auto simp: is_saw_def split: event.splits)

lemma housekeeping_steady: "housekeeping ev \<Longrightarrow> steady ev"
  by (auto simp: housekeeping_def steady_def split: event.splits)

lemma loaded_mono: "loaded run evs pipeline \<Longrightarrow> set evs \<subseteq> set evs' \<Longrightarrow> loaded run evs' pipeline"
  by (auto simp: loaded_def)

lemma start_allowed_mono: "start_allowed run evs p \<Longrightarrow> set evs \<subseteq> set evs' \<Longrightarrow> start_allowed run evs' p"
  unfolding start_allowed_def using loaded_mono seen_list_mono by (metis (full_types))

lemma completion_allowed_mono: "completion_allowed run evs a \<Longrightarrow> set evs \<subseteq> set evs' \<Longrightarrow> completion_allowed run evs' a"
  unfolding completion_allowed_def using seen_list_mono by (auto split: if_splits) (meson subsetD)+

lemma run_trace_grow:
  assumes "run_trace run evs" "\<And>ev. ev \<in> set new \<Longrightarrow> \<not> steady ev \<Longrightarrow>
      (\<exists>p. ev = Started p \<and> start_allowed run (evs @ new) p) \<or> (\<exists>a. ev = RunCompleted a \<and> completion_allowed run (evs @ new) a) \<or>
      (\<exists>s. ev = RunFailed s \<and> drained (run_Stages run) (evs @ new))"
  shows "run_trace run (evs @ new)"
proof -
  have fresh: "loaded run (evs @ new) pipeline \<longleftrightarrow> loaded run evs pipeline" for pipeline
    using assms(2) [of "LoadedPipeline pipeline"] by (auto simp: loaded_def)
  have sub: "set evs \<subseteq> set (evs @ new)" by simp
  show ?thesis
    unfolding run_trace_def fresh
  proof (intro conjI allI impI)
    fix p assume "Started p \<in> set (evs @ new)"
    then show "start_allowed run (evs @ new) p"
      using assms(1) assms(2) [of "Started p"] start_allowed_mono [OF _ sub, of run p] by (auto simp: run_trace_def)
  next
    fix a assume "RunCompleted a \<in> set (evs @ new)"
    then show "completion_allowed run (evs @ new) a"
      using assms(1) assms(2) [of "RunCompleted a"] completion_allowed_mono [OF _ sub, of run a] by (auto simp: run_trace_def)
  next
    fix s pipeline assume "RunFailed s \<in> set (evs @ new) \<and> loaded run evs pipeline"
    then show "drained (run_Stages run) (evs @ new)"
      using assms(1) assms(2) [of "RunFailed s"] drained_mono [OF _ sub, of "run_Stages run"] by (auto simp: run_trace_def)
  qed
qed

lemma run_trace_steady: "run_trace run evs \<Longrightarrow> \<forall>ev \<in> set new. steady ev \<Longrightarrow> run_trace run (evs @ new)"
  by (rule run_trace_grow) auto

lemma drained_same:
  assumes "drained stages' evs" "list_all2 same_operation stages stages'"
  shows "drained stages evs"
  unfolding drained_def
proof (intro ballI impI)
  fix stage assume "stage \<in> set stages" "st_OperationID stage \<noteq> []"
  with assms(2) obtain stage' where "stage' \<in> set stages'" "same_operation stage stage'"
    by (metis in_set_conv_nth list_all2_conv_all_nth)
  with assms(1) \<open>st_OperationID stage \<noteq> []\<close>
  show "\<exists>s. terminalOperation s \<and> Saw (st_OperationID stage) s \<in> set evs"
    by (auto simp: drained_def same_operation_def dest!: bspec [of _ _ stage'])
qed

lemma run_trace_ending:
  assumes "run_trace run evs" "list_all2 same_operation (run_Stages run) stages" "ending_events stages s new"
  shows "run_trace run (evs @ new)"
proof (rule run_trace_grow [OF assms(1)])
  fix ev assume ev: "ev \<in> set new" "\<not> steady ev"
  with assms(3) have "ev = RunFailed s" by (auto simp: ending_events_def dest: saw_steady)
  with assms(3) ev(1) have "drained stages new" by (simp add: ending_events_def)
  then have "drained (run_Stages run) (evs @ new)" using drained_mono [OF drained_same [OF _ assms(2)]] by simp
  with \<open>ev = RunFailed s\<close> show "(\<exists>p. ev = Started p \<and> start_allowed run (evs @ new) p) \<or>
      (\<exists>a. ev = RunCompleted a \<and> completion_allowed run (evs @ new) a) \<or>
      (\<exists>s. ev = RunFailed s \<and> drained (run_Stages run) (evs @ new))" by blast
qed


lemma run_trace_failed: "run_trace run evs \<Longrightarrow> drained (run_Stages run) evs \<Longrightarrow> run_trace run (evs @ [RunFailed s])"
  by (rule run_trace_grow) (auto intro: drained_mono)

lemma run_trace_completed: "run_trace run evs \<Longrightarrow> completion_allowed run evs a \<Longrightarrow> run_trace run (evs @ [RunCompleted a])"
  by (rule run_trace_grow) (auto intro: completion_allowed_mono)

lemma after_ending:
  assumes "run_trace run acc" "list_all2 same_operation (run_Stages run) (run_Stages run')"
  shows "after (unreleased (deferPipelineTermination env owner run' pipeline position s cause)) acc (\<lambda>_ evs. run_trace run evs)"
  by (rule after_spec [OF emits_unreleased [OF emits_defer]]) (use run_trace_ending [OF assms] in auto)

lemma after_completed:
  assumes "run_trace run acc" "completion_allowed run acc a"
  shows "after (end_completed env owner run' a) acc (\<lambda>_ evs. run_trace run evs)"
  unfolding end_completed_def
  by (rule after_emit, rule after_quiet_check [OF quiet_lifted [OF quiet_db_write]])
    (use run_trace_completed [OF assms] in \<open>auto intro: after_return\<close>)

lemma after_end_failed:
  assumes "run_trace run acc" "drained (run_Stages run) acc"
  shows "after (check (lifted (end_failed env owner run' s message)) (\<lambda>_. State_Monad.return x)) acc (\<lambda>_ evs. run_trace run evs)"
  by (rule after_check [OF emits_lifted [OF emits_end_failed]]) (use run_trace_failed [OF assms] in \<open>auto intro: after_return\<close>)

lemma after_fail_run:
  assumes "run_trace run acc" "drained (run_Stages run) acc"
  shows "after (unreleased (failPipelineRun env owner run' position e)) acc (\<lambda>_ evs. run_trace run evs)"
  by (rule after_spec [OF emits_unreleased [OF emits_failPipelineRun]]) (use assms run_trace_failed [OF assms] in auto)

lemma cleanup_steady: "cleanup_order_kept stages order evs \<Longrightarrow> ev \<in> set evs \<Longrightarrow> steady ev"
  by (auto simp: cleanup_order_kept_def list_all_iff intro: housekeeping_steady)

lemma db_read_result: "emits (db_read env f) (\<lambda>r evs. evs = [] \<and> (\<forall>x. r = Inr x \<longrightarrow> (\<exists>st. f st = Inr x)))"
  unfolding db_read_def
  by (rule emits_weaken [OF emits_db]) (auto simp: map_sum_def split: sum.splits, metis obj_sumE)

lemma emits_load_result:
  "emits (load_result env k) (\<lambda>r evs. case r of Inl _ \<Rightarrow> evs = [] | Inr artifact \<Rightarrow> evs = [Loaded artifact] \<and> art_ID artifact = k)"
proof -
  have found: "art_ID artifact = k" if "GetArtifact k st = Inr artifact" for artifact st
    using that by (auto simp: GetArtifact_def dest: find_row_key split: option.splits)
  show ?thesis
    unfolding load_result_def by (rule emitsI, rule after_check [OF db_read_result]) (auto dest: found intro!: after_emit after_return)
qed

lemma emits_load_pipeline:
  "emits (load_pipeline env k) (\<lambda>r evs. case r of Inl _ \<Rightarrow> evs = [] | Inr pipeline \<Rightarrow> evs = [LoadedPipeline pipeline])"
  unfolding load_pipeline_def by (rule emitsI, rule after_quiet_check [OF quiet_db_read]) (auto intro!: after_emit after_return)

lemma after_finish_run:
  assumes "run_trace run acc" "list_all2 (seen acc) (run_Stages run) stages" "list_all (\<lambda>stage. st_Status stage = Succeeded) stages"
  shows "after (finish_run env rt owner (run\<lparr>run_Stages := stages\<rparr>) pipeline produced) acc (\<lambda>_ evs. run_trace run evs)"
proof -
  let ?run = "run\<lparr>run_Stages := stages\<rparr>"
  have same: "list_all2 same_operation (run_Stages run) (run_Stages ?run)"
    using assms(2) by (auto intro: list_all2_mono seen_same)
  have drained: "drained (run_Stages run) (acc @ evs)" for evs
    unfolding drained_def
  proof (intro ballI impI)
    fix stage assume stage: "stage \<in> set (run_Stages run)" "st_OperationID stage \<noteq> []"
    with assms(2) obtain stage' where "stage' \<in> set stages" "seen acc stage stage'" by (metis in_set_conv_nth list_all2_conv_all_nth)
    with stage(2) assms(3) have "Saw (st_OperationID stage) Succeeded \<in> set acc" by (auto simp: seen_def list_all_iff)
    then show "\<exists>s. terminalOperation s \<and> Saw (st_OperationID stage) s \<in> set (acc @ evs)" by (auto simp: terminalOperation_def)
  qed
  have ending: "after (unreleased (deferPipelineTermination env owner ?run pipeline position s cause)) (acc @ evs) (\<lambda>_ evs. run_trace run evs)"
    if "\<forall>ev \<in> set evs. steady ev" for evs position s cause
    by (rule after_ending [OF run_trace_steady [OF assms(1) that] same])
  have allowed: "completion_allowed run (acc @ evs) a"
    if "if run_ResultType run = [] \<and> run_ResultVersion run = [] then a = []
      else \<exists>artifact. Loaded artifact \<in> set evs \<and> art_ID artifact = a \<and> art_Type artifact = run_ResultType run \<and>
        art_Version artifact = run_ResultVersion run \<and> art_VerifiedAt artifact \<noteq> 0" for evs a
    using that assms(3) seen_list_mono [OF assms(2), of "acc @ evs"] unfolding completion_allowed_def by (auto split: if_splits)
  have steady: "run_trace run (acc @ Loaded artifact # evs)" if "\<forall>ev \<in> set evs. steady ev" for evs artifact
    using run_trace_steady [OF assms(1), of "Loaded artifact # evs"] that by simp
  have checked: "completion_allowed run (acc @ Loaded artifact # evs) a"
    if "art_ID artifact = a" "art_Type artifact = run_ResultType run" "art_Version artifact = run_ResultVersion run" "art_VerifiedAt artifact \<noteq> 0"
      "\<not> (run_ResultType run = [] \<and> run_ResultVersion run = [])" for artifact evs a
    by (rule allowed) (use that in auto)
  have cleanup: "after (attempt (reconcilePipelineCleanup env rt owner ?run) (\<lambda>e. unreleased (failPipelineRun env owner ?run (- 1) e))
      (\<lambda>ended. if ended then end_completed env owner ?run a else State_Monad.return (Inr False)))
      (acc @ [Loaded artifact]) (\<lambda>_ evs. run_trace run evs)"
    if "art_ID artifact = a" "art_Type artifact = run_ResultType run" "art_Version artifact = run_ResultVersion run" "art_VerifiedAt artifact \<noteq> 0"
      "\<not> (run_ResultType run = [] \<and> run_ResultVersion run = [])" for artifact a
    by (rule after_attempt [OF emits_reconcile_cleanup])
      (use that drained checked in \<open>auto intro!: after_fail_run after_completed after_return after_if steady dest: cleanup_steady\<close>)
  show ?thesis
    unfolding finish_run_def Let_def
    using assms(1) ending [of "[]"] allowed [of "[]" "[]"]
    by (auto intro!: after_if after_completed after_attempt [OF emits_load_result] ending cleanup checked
        steady [of "[]", simplified] split: sum.splits)
qed


lemma after_advance:
  assumes trace: "run_trace run acc" and seen: "list_all2 (seen acc) (run_Stages run) stages"
    and ready: "\<And>p. p \<in> set positions \<Longrightarrow> p < length stages \<and> st_OperationID (stages ! p) = [] \<and> start_allowed run acc p"
  shows "after (advance_run env rt owner (run\<lparr>run_Stages := stages\<rparr>) pipeline produced positions) acc (\<lambda>_ evs. run_trace run evs)"
proof -
  let ?run = "run\<lparr>run_Stages := stages\<rparr>"
  have grown: "run_trace run (acc @ evs)" if "start_events ?run positions r evs" for r evs
  proof (rule run_trace_grow [OF trace])
    fix ev assume "ev \<in> set evs"
    with that obtain p where "p \<in> set positions" "ev = Started p" by (auto simp: start_events_def)
    then have "ev = Started p \<and> start_allowed run (acc @ evs) p" using ready [of p] start_allowed_mono [of run acc p "acc @ evs"] by simp
    then show "(\<exists>p. ev = Started p \<and> start_allowed run (acc @ evs) p) \<or>
        (\<exists>a. ev = RunCompleted a \<and> completion_allowed run (acc @ evs) a) \<or>
        (\<exists>s. ev = RunFailed s \<and> drained (run_Stages run) (acc @ evs))" by blast
  qed
  have same: "list_all2 same_operation (run_Stages run) stages'"
    if "length stages' = length stages" "\<forall>i. i \<notin> set positions \<longrightarrow> stages' ! i = stages ! i" for stages'
  proof (rule list_all2_all_nthI)
    show "length (run_Stages run) = length stages'" using seen that(1) by (simp add: list_all2_lengthD)
    fix i assume i: "i < length (run_Stages run)"
    then have "seen acc (run_Stages run ! i) (stages ! i)" using seen by (simp add: list_all2_nthD)
    then show "same_operation (run_Stages run ! i) (stages' ! i)"
      using that(2) ready [of i] by (cases "i \<in> set positions") (auto simp: seen_def same_operation_def split: if_splits)
  qed
  have finish: "after (finish_run env rt owner (run\<lparr>run_Stages := stages'\<rparr>) pipeline produced) (acc @ evs) (\<lambda>_ evs. run_trace run evs)"
    if "start_events ?run positions (Inr (run\<lparr>run_Stages := stages'\<rparr>, None)) evs"
      "length stages' = length stages" "\<forall>i. i \<notin> set positions \<longrightarrow> stages' ! i = stages ! i"
      "\<forall>p \<in> set positions. p < length stages' \<longrightarrow> st_Status (stages' ! p) = Queued"
      "list_all (\<lambda>stage. st_Status stage = Succeeded) stages'" for stages' evs
  proof -
    have "positions = []" using that(2,4,5) ready [of "hd positions"] by (cases positions) (auto simp: list_all_length)
    with that(1-3) have "evs = []" "stages' = stages" by (auto simp: start_events_def intro: nth_equalityI)
    with that(5) after_finish_run [OF trace seen] show ?thesis by simp
  qed
  show ?thesis
    unfolding advance_run_def
  proof (rule after_check [OF emits_start_stages])
    fix x evs assume x: "start_events ?run positions (Inr x) evs"
    obtain run' failed where run': "x = (run', failed)" by fastforce
    with x obtain stages' where stages': "run' = ?run\<lparr>run_Stages := stages'\<rparr>" "length stages' = length stages"
      "\<forall>i. i \<notin> set positions \<longrightarrow> stages' ! i = stages ! i"
      "failed = None \<longrightarrow> (\<forall>p \<in> set positions. p < length stages' \<longrightarrow> st_Status (stages' ! p) = Queued)"
      by (auto simp: start_events_def)
    show "after (case x of (run', Some (position, cause)) \<Rightarrow>
          unreleased (deferPipelineTermination env owner run' pipeline (int position) Failed cause)
        | (run', None) \<Rightarrow> if list_all (\<lambda>stage. st_Status stage = Succeeded) (run_Stages run') then finish_run env rt owner run' pipeline produced
          else State_Monad.return (Inr False)) (acc @ evs) (\<lambda>_ evs. run_trace run evs)"
    proof (cases failed)
      case None
      with x run' stages' show ?thesis by (auto intro!: after_return finish grown)
    next
      case (Some failure)
      with same [OF stages'(2,3)] grown [OF x] stages'(1) run' show ?thesis by (auto intro!: after_ending split: prod.splits)
    qed
  qed (rule grown)
qed


lemma quiet_unreleased: "quiet m \<Longrightarrow> quiet (unreleased m)"
  unfolding unreleased_def by (intro quiet)

lemma after_continue:
  assumes trace: "run_trace run acc" and run: "loaded run acc pipeline" "run_TerminalStatus run = NoStatus"
    and same: "list_all2 same_operation (run_Stages run) stages"
    and seen: "\<And>produced. state = Inr produced \<Longrightarrow> list_all2 (seen acc) (run_Stages run) stages"
  shows "after (continue_run env rt owner (run\<lparr>run_Stages := stages\<rparr>) pipeline state) acc (\<lambda>_ evs. run_trace run evs)"
proof -
  have ending: "after (unreleased (deferPipelineTermination env owner (run\<lparr>run_Stages := stages\<rparr>) pipeline position s cause)) acc
      (\<lambda>_ evs. run_trace run evs)" for position s cause
    by (rule after_ending [OF trace]) (use same in simp)
  have advance: "after (advance_run env rt owner (run\<lparr>run_Stages := stages\<rparr>) pipeline produced allowed) acc (\<lambda>_ evs. run_trace run evs)"
    if "state = Inr produced" "\<not> run_CancelRequested run" "readyPipelineStages (pl_Definition pipeline) stages = Some positions"
      "gate_check (pl_Definition pipeline) (run\<lparr>run_Stages := stages\<rparr>) positions = Allowed allowed" for produced positions allowed
  proof (rule after_advance [OF trace seen [OF that(1)]])
    fix p assume "p \<in> set allowed"
    then have p: "p \<in> set positions"
      "run_PauseBeforeStage run = [] \<or> run_ExecutionRequested run \<or> p < gate_of (pl_Definition pipeline) run"
      using that(4) by (auto simp: gate_check_def gate_of_def Let_def split: if_splits)
    with that(2,3) seen [OF that(1)] run have "start_allowed run acc p" unfolding start_allowed_def by blast
    with ready_positions [OF that(3) p(1)] show "p < length stages \<and> st_OperationID (stages ! p) = [] \<and> start_allowed run acc p" by simp
  qed
  have gate: "after (unreleased m) acc (\<lambda>_ evs. run_trace run evs)" if "quiet m" for m
    by (rule after_quiet [OF quiet_unreleased [OF that]]) (rule trace)
  show ?thesis
    unfolding continue_run_def Let_def
    by (auto intro!: ending advance gate after_return trace quiet split: sum.splits option.splits gate_state.splits)
qed

lemma after_running:
  assumes "run_trace run acc" "loaded run acc pipeline" "run_TerminalStatus run = NoStatus"
  shows "after (reconcile_running env rt owner run pipeline) acc (\<lambda>_ evs. run_trace run evs)"
proof -
  have trace: "run_trace run (acc @ evs)" if "sync_events (run_Stages run) r evs" for r :: "failure + _ \<times> (_ + _)" and evs
    by (rule run_trace_steady [OF assms(1)]) (use that in \<open>auto simp: sync_events_def list_all_iff intro: saw_steady\<close>)
  have synced: "after (continue_run env rt owner (run\<lparr>run_Stages := stages\<rparr>) pipeline state) (acc @ evs) (\<lambda>_ evs. run_trace run evs)"
    if "sync_events (run_Stages run) (Inr (stages, state)) evs" for stages state evs
    by (rule after_continue [OF trace [OF that] loaded_mono [OF assms(2)] assms(3)])
      (use that seen_list_mono in \<open>auto simp: sync_events_def\<close>)
  show ?thesis
    unfolding reconcile_running_def
    by (rule after_check [OF emits_lifted [OF emits_sync]]) (auto simp: lifted_Inr intro: trace intro!: synced)
qed

lemma after_terminating:
  assumes "run_trace run acc"
  shows "after (reconcile_terminating env rt owner run pipeline) acc (\<lambda>_ evs. run_trace run evs)"
proof -
  have stopped: "run_trace run (acc @ evs)" if "list_all is_saw evs" for evs
    by (rule run_trace_steady [OF assms]) (use that in \<open>auto simp: list_all_iff intro: saw_steady\<close>)
  have cleaned: "run_trace run ((acc @ evs) @ evs')" "drained (run_Stages run) ((acc @ evs) @ evs')"
    if "list_all is_saw evs" "drained (run_Stages run) evs" "cleanup_order_kept stages order evs'" for evs evs' stages order
    using run_trace_steady [OF stopped [OF that(1)], of evs'] cleanup_steady [OF that(3)] drained_mono [OF that(2), of "(acc @ evs) @ evs'"]
    by auto
  have drained: "drained (run_Stages run) (acc @ evs)" if "drained (run_Stages run) evs" for evs
    using drained_mono [OF that] by simp
  show ?thesis
    unfolding reconcile_terminating_def unreleased_def
    by (rule after_check [OF emits_lifted [OF emits_stop]])
      (auto simp: lifted_Inr simp del: append_assoc intro!: after_if after_return stopped drained after_end_failed cleaned
        after_attempt [OF emits_reconcile_cleanup])
qed

lemma emits_reconcile: "emits (reconcilePipelineRun env rt owner run) (\<lambda>_ evs. run_trace run evs)"
proof -
  have start: "run_trace run []" "run_trace run [LoadedPipeline pipeline]" for pipeline
    by (simp_all add: run_trace_def)
  have unread: "after (unreleased (failPipelineRun env owner run position e)) acc (\<lambda>_ evs. run_trace run evs)"
    if "acc = [] \<or> (\<exists>pipeline. acc = [LoadedPipeline pipeline] \<and> \<not> loaded run acc pipeline)" for acc position e
    by (rule after_spec [OF emits_unreleased [OF emits_failPipelineRun]]) (use that in \<open>auto simp: run_trace_def loaded_def\<close>)
  have "emits (reconcile_loaded env rt owner run) (\<lambda>_ evs. run_trace run evs)"
    unfolding reconcile_loaded_def
    by (rule emitsI, rule after_attempt [OF emits_load_pipeline])
      (auto intro!: unread after_if after_terminating after_running start simp: loaded_def split: sum.splits)
  then show ?thesis
    unfolding reconcilePipelineRun_def
    by (rule emits_bind) (auto intro!: emits_quiet_bind quiet quiet_if emits_return)
qed

section \<open>Properties\<close>


text \<open>
  C8: A reconciliation completes a run only after it saw the operations of all stages succeeded, and
  only with the result the pipeline was validated for: the artifact it names was read, has the
  type and the version of the run's result and was verified when it was stored.
\<close>

theorem run_completes_with_result:
  assumes "run_state (reconcilePipelineRun env rt owner run) s = (r, s')" "eng_trace s = []" "RunCompleted a \<in> set (eng_trace s')"
  shows "completion_allowed run (eng_trace s') a"
  using emits_reconcile [of env rt owner run] assms unfolding emits_def run_trace_def by (metis append_Nil snd_conv)


text \<open>
  C10: The cleanup of a stage is started only when the cleanups of all stages before it in the cleanup
  order have ended or were skipped.
\<close>

theorem cleanup_in_order:
  assumes "run_state (reconcilePipelineCleanup env rt owner run) s = (r, s')" "eng_trace s = []" "CleanupStarted p \<in> set (eng_trace s')"
  shows "\<exists>earlier later. pipelineCleanupOrder (run_Stages run) = earlier @ p # later \<and>
    list_all (cleaned (run_Stages run) (eng_trace s')) earlier"
  using emits_reconcile_cleanup [of env rt owner run] assms unfolding emits_def cleanup_order_kept_def by (metis append_Nil snd_conv)

section \<open>Runs of the coordinator\<close>

text \<open>The database goes down after the first \<open>k\<close> calls.\<close>

definition sample_down :: "nat \<Rightarrow> string list \<Rightarrow> unit Env" where
  "sample_down k capabilities = (sample_env capabilities None)\<lparr>env_fault := (\<lambda>n. if n < k then None else Some (newError ''down'', False))\<rparr>"

lemma run_db_down:
  "env_fault env (eng_tick s) = Some (e, False) \<Longrightarrow>
   run_state (db env f) s = (Inl e, s\<lparr>eng_tick := Suc (eng_tick s), eng_store := env_others env (eng_tick s) (eng_store s)\<rparr>)"
  by (simp add: db_def Let_def)

lemma run_read:
  "env_fault env (eng_tick s) = None \<Longrightarrow>
   run_state (db_read env f) s =
     (map_sum store_failure id (f (env_others env (eng_tick s) (eng_store s))),
      s\<lparr>eng_tick := Suc (eng_tick s), eng_store := env_others env (eng_tick s) (eng_store s)\<rparr>)"
  by (cases "f (env_others env (eng_tick s) (eng_store s))") (auto simp: db_read_def run_db)

lemma run_read_down:
  "env_fault env (eng_tick s) = Some (e, False) \<Longrightarrow>
   run_state (db_read env f) s = (Inl e, s\<lparr>eng_tick := Suc (eng_tick s), eng_store := env_others env (eng_tick s) (eng_store s)\<rparr>)"
  by (simp add: db_read_def run_db_down)

lemma run_write_down:
  "env_fault env (eng_tick s) = Some (e, False) \<Longrightarrow>
   run_state (db_write env f) s = (Inl e, s\<lparr>eng_tick := Suc (eng_tick s), eng_store := env_others env (eng_tick s) (eng_store s)\<rparr>)"
  by (simp add: db_write_def run_db_down)

lemma run_bind: "run_state (State_Monad.bind m f) s = (case run_state m s of (x, s') \<Rightarrow> run_state (f x) s')"
  by (simp add: State_Monad.bind_def)

lemma run_new_id: "run_state (new_id env k) s = (k @ ''_'' @ env_id env (eng_tick s), s\<lparr>eng_tick := Suc (eng_tick s)\<rparr>)"
  by (simp add: new_id_def)

definition coord_stage :: "string \<Rightarrow> PipelineRunStage" where
  "coord_stage operationID =
     \<lparr>st_ID = ''prs_1'', st_RunID = ''run_1'', st_Position = 1, st_StageID = ''a'', st_PluginID = ''p'', st_Title = ''A'',
      st_Status = Pending, st_OperationID = operationID, st_Spec = RawEmpty, st_Error = [], st_StartedAt = None, st_CompletedAt = None,
      st_CleanupOperationID = [], st_CleanupStatus = Pending, st_CleanupError = [], st_CleanupStartedAt = None, st_CleanupCompletedAt = None\<rparr>"

definition coord_pipeline :: "bool \<Rightarrow> Pipeline" where
  "coord_pipeline cleanup_after =
     \<lparr>pl_ID = ''pipe_1'', pl_WorkspaceID = ''w'', pl_Name = ''P'', pl_Description = [],
      pl_Definition = \<lparr>pd_MaxParallelStages = 1, pd_Stages = [\<lparr>pst_DependsOn = [], pst_ID = ''a'', pst_PluginID = ''p'', pst_Title = ''A'',
        pst_Spec = RawDoc JNull, pst_Bindings = []\<rparr>], pd_Result = \<lparr>po_Stage = ''a'', po_Output = ''out'', po_Type = ''K'', po_Version = ''v1''\<rparr>,
        pd_CleanupAfterRun = cleanup_after\<rparr>,
      pl_Resolution = \<lparr>pr_Stages = [\<lparr>rps_ID = ''a'', rps_PluginID = ''p'', rps_PluginVersion = ''1'', rps_PluginDigest = [],
        rps_Spec = RawDoc JNull, rps_Bindings = [], rps_Plan = \<lparr>plan_PluginID = ''p'', plan_Steps = [sample_planned]\<rparr>\<rparr>],
        pr_Result = \<lparr>ac_Type = ''K'', ac_Version = ''v1''\<rparr>\<rparr>,
      pl_Validation = \<lparr>vr_Valid = True, vr_Issues = [], vr_CheckedAt = 0\<rparr>, pl_Hash = ''0123456789ab''\<rparr>"

definition sample_pipeline_run :: "status \<Rightarrow> PipelineRunStage list \<Rightarrow> PipelineRun" where
  "sample_pipeline_run terminal stages =
     \<lparr>run_ApplicationNamespace = [], run_PauseBeforeStage = [], run_ExecutionRequested = False, run_InitializedAt = None, run_Phase = [],
      run_ID = ''run_1'', run_PipelineID = ''pipe_1'', run_WorkspaceID = ''w'', run_ClusterResourceID = [], run_OwnerUserID = [],
      run_IsolationMode = ''exclusive'', run_Name = ''R'', run_Status = Running, run_PipelineHash = ''0123456789ab'', run_ResultType = ''K'',
      run_ResultVersion = ''v1'', run_ResultArtifactID = [], run_CancelRequested = False, run_TerminalStatus = terminal, run_Error = [],
      run_CreatedAt = 0, run_QueuedAt = None, run_ScheduledFor = None, run_StartedAt = None, run_CompletedAt = None, run_Stages = stages\<rparr>"

definition sample_runtime :: runtime where
  "sample_runtime =
     \<lparr>rt_lib = \<lparr>lib_regexp = (\<lambda>_. None), lib_absolute_uri = (\<lambda>_. False), lib_float = (\<lambda>_. None), lib_show_float = (\<lambda>_. []),
        lib_quote = (\<lambda>s. s), lib_refloat = (\<lambda>s. s)\<rparr>,
      rt_plan_text = (\<lambda>_. Some []), rt_plan_parse = (\<lambda>_. Some \<lparr>plan_PluginID = ''p'', plan_Steps = [sample_planned]\<rparr>),
      rt_stage_text = (\<lambda>_. Some []), rt_sha256 = (\<lambda>s. s), rt_error = (\<lambda>_. []), rt_poll = 2\<rparr>"

definition sample_result :: Artifact where
  "sample_result =
     \<lparr>art_ID = ''art_1'', art_OperationID = ''op_1'', art_StepID = ''op_1_s'', art_OutputName = ''out'', art_Name = ''out'', art_Type = ''K'',
      art_Version = ''v1'', art_MediaType = ''application/json'', art_StorageKey = ''/k'', art_Digest = [], art_SizeBytes = 0,
      art_StorageDigest = [], art_StoredSizeBytes = 0, art_EncryptionNonce = [], art_Sensitive = False, art_VerifiedAt = 1\<rparr>"

definition sample_pool :: "bool \<Rightarrow> status \<Rightarrow> unit Engine" where
  "sample_pool cleanup_after s =
     \<lparr>eng_store = empty_store\<lparr>
        db_operations := [\<lparr>opr_Op = sample_running\<lparr>op_Status := s\<rparr>, opr_LeaseOwner = None, opr_LeaseUntil = None\<rparr>],
        db_steps := [sample_step\<lparr>os_Status := s\<rparr>], db_artifacts := [sample_result], db_pipelines := [coord_pipeline cleanup_after]\<rparr>,
      eng_objects = [], eng_world = (), eng_tick = 0, eng_trace = []\<rparr>"

definition pool_store :: "bool \<Rightarrow> status \<Rightarrow> Store" where
  "pool_store cleanup_after s = eng_store (sample_pool cleanup_after s)"

lemmas sample_coordinator_defs = sample_down_def coord_stage_def coord_pipeline_def sample_pipeline_run_def sample_runtime_def
  sample_result_def sample_pool_def pool_store_def sample_env_def sample_plugin_def sample_manifest_def empty_store_def

lemma coordinator_selectors:
  "env_fault (sample_down k c) n = (if n < k then None else Some (newError ''down'', False))"
  "env_others (sample_down k c) n st = st" "env_now (sample_down k c) n = 0"
  "env_registry (sample_down k c) n = \<lparr>reg_plugins = [(''p'', sample_plugin c None)], reg_bundled = []\<rparr>"
  "env_id (sample_down k c) n = ''1''" "plugin_Manifest (sample_plugin c None) = sample_manifest c"
  "plugin_Validate (sample_plugin c None) x = \<lparr>vr_Valid = True, vr_Issues = [], vr_CheckedAt = 0\<rparr>"
  "mf_Version (sample_manifest c) = ''1''" "mf_RuntimeDigest (sample_manifest c) = []" "mf_Capabilities (sample_manifest c) = c"
  "eng_tick (sample_pool b s) = 0" "eng_trace (sample_pool b s) = []" "eng_store (sample_pool b s) = pool_store b s"
  "db_pipelines (pool_store b s) = [coord_pipeline b]" "db_artifacts (pool_store b s) = [sample_result]"
  "db_operations (pool_store b s) = [\<lparr>opr_Op = sample_running\<lparr>op_Status := s\<rparr>, opr_LeaseOwner = None, opr_LeaseUntil = None\<rparr>]"
  "db_steps (pool_store b s) = [sample_step\<lparr>os_Status := s\<rparr>]"
  "pl_ID (coord_pipeline b) = ''pipe_1''" "pl_Hash (coord_pipeline b) = ''0123456789ab''" "pl_WorkspaceID (coord_pipeline b) = ''w''"
  "rt_stage_text sample_runtime x1 = Some []" "rt_sha256 sample_runtime x2 = x2"
  "run_ID (sample_pipeline_run t stages) = ''run_1''" "run_PipelineID (sample_pipeline_run t stages) = ''pipe_1''"
  "run_PipelineHash (sample_pipeline_run t stages) = ''0123456789ab''" "run_WorkspaceID (sample_pipeline_run t stages) = ''w''"
  "run_TerminalStatus (sample_pipeline_run t stages) = t" "run_Stages (sample_pipeline_run t stages) = stages"
  "\<not> run_CancelRequested (sample_pipeline_run t stages)" "run_PauseBeforeStage (sample_pipeline_run t stages) = []"
  "run_ResultType (sample_pipeline_run t stages) = ''K''" "run_ResultVersion (sample_pipeline_run t stages) = ''v1''"
  "run_Error (sample_pipeline_run t stages) = []" "run_Name (sample_pipeline_run t stages) = ''R''"
  "st_OperationID (coord_stage k') = k'" "st_Status (coord_stage k') = Pending" "st_StageID (coord_stage k') = ''a''"
  "st_ID (coord_stage k') = ''prs_1''" "st_CleanupStatus (coord_stage k') = Pending" "st_CleanupOperationID (coord_stage k') = []"
  "st_PluginID (coord_stage k') = ''p''" "st_Title (coord_stage k') = ''A''"
  by (simp_all add: sample_coordinator_defs Let_def)

lemma sample_update [simp]: "(sample_pipeline_run t stages)\<lparr>run_Stages := stages'\<rparr> = sample_pipeline_run t stages'"
  by (simp add: sample_pipeline_run_def)

lemmas run_rules_down = run_attempt run_check run_write run_db run_emit run_world run_get_plugin run_bind run_db_down run_read run_read_down run_write_down run_new_id

lemmas coordinator_defs = reconcilePipelineRun_def reconcile_loaded_def load_pipeline_def reconcile_running_def continue_run_def
  advance_run_def unreleased_def lifted_def deferPipelineTermination_def fail_run_stage_def observe_def end_failed_def

lemmas eval_coordinator = coordinator_defs run_rules_down coordinator_selectors GetPipeline_def Let_def

lemma sample_resolved:
  "resolve_start sample_runtime (sample_pipeline_run t stages) (coord_pipeline b) 0 produced =
     Inr \<lparr>rps_ID = ''a'', rps_PluginID = ''p'', rps_PluginVersion = ''1'', rps_PluginDigest = [], rps_Spec = RawDoc JNull, rps_Bindings = [],
       rps_Plan = \<lparr>plan_PluginID = ''p'', plan_Steps = [sample_planned]\<rparr>\<rparr>"
  by (simp add: resolve_start_def ResolveStage_def ResolveRuntimeTokens_def coord_pipeline_def sample_runtime_def unmarshal_any_def
      Let_def marshal_def)

lemma sample_ready:
  "readyPipelineStages (pl_Definition (coord_pipeline b)) [coord_stage []] = Some [0]"
  by (simp add: readyPipelineStages_def parallel_limit_def active_stages_def stage_active_def inputs_complete_def coord_pipeline_def
      coord_stage_def complete_stages_def)

lemma sample_none_ready:
  "readyPipelineStages (pl_Definition (coord_pipeline b)) [(coord_stage ''op_1'')\<lparr>st_Status := Succeeded\<rparr>] = Some []"
  by (simp add: readyPipelineStages_def parallel_limit_def active_stages_def stage_active_def coord_stage_def terminalOperation_def)

lemma sample_result_stage:
  "pd_Result (pl_Definition (coord_pipeline b)) = \<lparr>po_Stage = ''a'', po_Output = ''out'', po_Type = ''K'', po_Version = ''v1''\<rparr>"
  "pd_CleanupAfterRun (pl_Definition (coord_pipeline b)) = b"
  by (simp_all add: coord_pipeline_def)

lemma sample_ungated: "gate_check def (sample_pipeline_run t stages) positions = Allowed positions"
  by (simp add: gate_check_def coordinator_selectors Let_def)

lemma sample_start:
  "\<exists>r s'. run_state (reconcilePipelineRun (sample_down 1 []) sample_runtime ''me'' (sample_pipeline_run NoStatus [coord_stage []]))
      (sample_pool False Succeeded) = (r, s') \<and> Started 0 \<in> set (eng_trace s')"
  by (simp add: eval_coordinator sample_ready sample_ungated startPipelineStage_def sample_resolved Get_def Matches_def start_report_def cleanupStage_def sample_selectors pipelineStageHash_def clock_def)


lemma sample_seen:
  "ListArtifacts ''op_1'' (pool_store b s) = [sample_result]"
  "art_ID sample_result = ''art_1''" "art_OutputName sample_result = ''out''" "art_Type sample_result = ''K''" "art_Version sample_result = ''v1''"
  "art_VerifiedAt sample_result = 1"
  by (simp_all add: coordinator_selectors ListArtifacts_def sample_result_def)

lemmas eval_stages = eval_coordinator sample_ungated sample_selectors sample_seen sample_none_ready sample_result_stage GetOperation_def op_key_def

lemma sample_complete:
  "\<exists>r s'. run_state (reconcilePipelineRun (sample_down 4 []) sample_runtime ''me'' (sample_pipeline_run NoStatus [coord_stage ''op_1'']))
      (sample_pool False Succeeded) = (r, s') \<and> RunCompleted ''art_1'' \<in> set (eng_trace s')"
  by (simp add: eval_stages stage_outputs_def finish_run_def load_result_def GetArtifact_def SyncPipelineRunStage_def end_completed_def)

lemma sample_terminal: "terminalOperation Succeeded"
  by (simp add: terminalOperation_def)

lemma sample_failed:
  "\<exists>r s'. run_state (reconcilePipelineRun (sample_down 3 []) sample_runtime ''me'' (sample_pipeline_run Failed [coord_stage ''op_1'']))
      (sample_pool False Succeeded) = (r, s') \<and> RunFailed Failed \<in> set (eng_trace s') \<and>
      loaded (sample_pipeline_run Failed [coord_stage ''op_1'']) (eng_trace s') (coord_pipeline False)"
  by (simp add: reconcilePipelineRun_def reconcile_loaded_def load_pipeline_def reconcile_terminating_def run_rules_down
      coordinator_selectors GetPipeline_def observe_def lifted_def unreleased_def sample_result_stage GetOperation_def op_key_def
      sample_selectors sample_terminal end_failed_def loaded_def)

lemma sample_cleanup_order: "pipelineCleanupOrder [coord_stage a, (coord_stage b)\<lparr>st_CleanupStatus := Succeeded\<rparr>] = [1, 0]"
  by (simp add: pipelineCleanupOrder_def coord_stage_def network_plugin_def deploy_plugin_def)

lemma sample_cleanup:
  "\<exists>r s'. run_state (reconcilePipelineCleanup (sample_down 1 [''lifecycle.cleanup'']) sample_runtime ''me''
      (sample_pipeline_run NoStatus [coord_stage ''op_1'', (coord_stage ''op_2'')\<lparr>st_CleanupStatus := Succeeded\<rparr>]))
      (sample_pool True Succeeded) = (r, s') \<and> CleanupStarted 0 \<in> set (eng_trace s')"
  by (simp add: eval_stages reconcilePipelineCleanup_def sample_cleanup_order cleanupStageResult_def CleanupPlan_def ListSteps_def cleanup_eligible_def
     clean_stage_def Get_def Matches_def HasCapability_def pipelineStageHash_def clock_def sample_step_def planned_step_def)

section \<open>A pipeline that cannot be read\<close>

lemma emits_run: "emits m Q \<Longrightarrow> run_state m s = (r, s') \<Longrightarrow> \<exists>evs. eng_trace s' = eng_trace s @ evs \<and> Q r evs"
  unfolding emits_def by (metis fst_conv snd_conv)

lemma fault_read:
  "env_fault env (eng_tick s) = Some (e, effective) \<Longrightarrow> \<exists>s'. run_state (db_read env f) s = (Inl e, s') \<and> eng_trace s' = eng_trace s"
  by (auto simp: db_read_def db_def Let_def split: sum.splits)

lemma emits_fail_at_once: "emits (unreleased (failPipelineRun env owner run (- 1) cause)) (\<lambda>_ evs. evs = [RunFailed Failed])"
proof -
  have "emits (failPipelineRun env owner run (- 1) cause) (\<lambda>_ evs. evs = [RunFailed Failed])"
    using emits_end_failed by (simp add: failPipelineRun_def fail_run_stage_def check_def attempt_def)
  then show ?thesis by (rule emits_weaken [OF emits_unreleased [of _ "\<lambda>evs. evs = [RunFailed Failed]"]]) simp
qed

text \<open>
  C39: A failed read of the pipeline ends the run at once: the only call that follows fails the run,
  and no operation of its stages is looked at or stopped.
\<close>

theorem unread_pipeline_fails_undrained:
  assumes "env_fault env (eng_tick s) = Some (e, effective)" "run_state (reconcilePipelineRun env rt owner run) s = (r, s')"
  shows "eng_trace s' = eng_trace s @ [RunFailed Failed]"
proof -
  let ?rest = "do {
    r \<leftarrow> unreleased (failPipelineRun env owner run (- 1) (wrap ''load pipeline'' e));
    _ \<leftarrow> (if r = Inr True then State_Monad.return (Inr ())
          else db_write env (\<lambda>now st. Inr (ReleasePipelineRun now (run_ID run) owner (rt_poll rt) st)));
    _ \<leftarrow> db_write env (\<lambda>now st. Inr (SyncExperimentPipelineRun (run_ID run) st));
    State_Monad.return (case r of Inl e \<Rightarrow> Some e | Inr _ \<Rightarrow> None)
  }"
  obtain s1 where s1: "run_state (db_read env (GetPipeline (run_PipelineID run))) s = (Inl e, s1)" "eng_trace s1 = eng_trace s"
    using fault_read [OF assms(1)] by blast
  then have "run_state (load_pipeline env (run_PipelineID run)) s = (Inl e, s1)" by (simp add: load_pipeline_def run_check)
  then have fallback: "run_state (reconcile_loaded env rt owner run) s =
      run_state (unreleased (failPipelineRun env owner run (- 1) (wrap ''load pipeline'' e))) s1"
    by (simp only: reconcile_loaded_def run_attempt prod.case sum.case)
  have "emits ?rest (\<lambda>_ evs. evs = [RunFailed Failed])"
    by (rule emits_bind [OF emits_fail_at_once], intro emits_quiet_bind quiet_if emits_return) (simp_all add: quiet)
  moreover have "run_state (reconcilePipelineRun env rt owner run) s = run_state ?rest s1"
    by (simp only: reconcilePipelineRun_def run_bind fallback)
  ultimately show ?thesis using emits_run [of ?rest _ s1 r s'] assms(2) s1(2) by (simp only:) blast
qed

section \<open>Witnesses\<close>


theorem run_completes_with_result_witness:
  "\<exists>r s'. run_state (reconcilePipelineRun (sample_down 4 []) sample_runtime ''me'' (sample_pipeline_run NoStatus [coord_stage ''op_1'']))
      (sample_pool False Succeeded) = (r, s') \<and> completion_allowed (sample_pipeline_run NoStatus [coord_stage ''op_1'']) (eng_trace s') ''art_1''"
proof -
  obtain r s' where s': "run_state (reconcilePipelineRun (sample_down 4 []) sample_runtime ''me''
      (sample_pipeline_run NoStatus [coord_stage ''op_1''])) (sample_pool False Succeeded) = (r, s')" "RunCompleted ''art_1'' \<in> set (eng_trace s')"
    using sample_complete by blast
  show ?thesis using s'(1) run_completes_with_result [OF s'(1) _ s'(2)] by (auto simp: coordinator_selectors)
qed


theorem cleanup_in_order_witness:
  "\<exists>r s'. run_state (reconcilePipelineCleanup (sample_down 1 [''lifecycle.cleanup'']) sample_runtime ''me''
      (sample_pipeline_run NoStatus [coord_stage ''op_1'', (coord_stage ''op_2'')\<lparr>st_CleanupStatus := Succeeded\<rparr>]))
      (sample_pool True Succeeded) = (r, s') \<and> CleanupStarted 0 \<in> set (eng_trace s') \<and>
    (\<exists>earlier later. [1, 0] = earlier @ 0 # later \<and>
      list_all (cleaned [coord_stage ''op_1'', (coord_stage ''op_2'')\<lparr>st_CleanupStatus := Succeeded\<rparr>] (eng_trace s')) earlier)"
proof -
  obtain r s' where s': "run_state (reconcilePipelineCleanup (sample_down 1 [''lifecycle.cleanup'']) sample_runtime ''me''
      (sample_pipeline_run NoStatus [coord_stage ''op_1'', (coord_stage ''op_2'')\<lparr>st_CleanupStatus := Succeeded\<rparr>]))
      (sample_pool True Succeeded) = (r, s')" "CleanupStarted 0 \<in> set (eng_trace s')"
    using sample_cleanup by blast
  show ?thesis
    using s' cleanup_in_order [OF s'(1) _ s'(2)] by (simp add: coordinator_selectors sample_cleanup_order)
qed

theorem unread_pipeline_fails_undrained_witness:
  "\<exists>r s'. run_state (reconcilePipelineRun (sample_down 0 []) sample_runtime ''me'' (sample_pipeline_run NoStatus [coord_stage ''op_1'']))
      (sample_pool False Running) = (r, s') \<and> eng_trace s' = [RunFailed Failed]"
proof -
  obtain r s' where s': "run_state (reconcilePipelineRun (sample_down 0 []) sample_runtime ''me''
      (sample_pipeline_run NoStatus [coord_stage ''op_1''])) (sample_pool False Running) = (r, s')" by fastforce
  have "env_fault (sample_down 0 []) (eng_tick (sample_pool False Running)) = Some (newError ''down'', False)" by (simp add: sample_down_def)
  from unread_pipeline_fails_undrained [OF this s'] s' show ?thesis by (simp add: coordinator_selectors)
qed

end
