(* ===== verification/Monitor.thy ===== *)
theory Monitor
  imports WorkerTrace
begin

text \<open>
  The monitor of a running operation and the sweep for expired leases: \<open>monitorOperation\<close> and
  \<open>expireLeases\<close> of \<open>engine/worker.go\<close>. The monitor renews the lease and watches for a cancellation;
  what it relies on is an interface of the store, stated as a locale and provided by the operation
  store. With the intervals of the code a worker that lives keeps its lease, even when some
  renewals fail.
\<close>

section \<open>The monitor\<close>

text \<open>What wakes the loop of \<open>monitorOperation\<close> up; the list ends with the process.\<close>

datatype signal = OperationDone | ContextDone | TickerFired

text \<open>The result says whether the monitor canceled the context of the operation.\<close>

fun monitorOperation :: "'w Env \<Rightarrow> string \<Rightarrow> string \<Rightarrow> signal list \<Rightarrow> ('w, bool) worker" where
  "monitorOperation env owner operationID [] = State_Monad.return False"
| "monitorOperation env owner operationID (OperationDone # signals) = State_Monad.return False"
| "monitorOperation env owner operationID (ContextDone # signals) = State_Monad.return False"
| "monitorOperation env owner operationID (TickerFired # signals) = do {
     _ \<leftarrow> db_write env (\<lambda>now. RenewLease now operationID owner);
     requested \<leftarrow> db_read env (OperationCancelRequested operationID);
     (if requested = Inr True then State_Monad.return True else monitorOperation env owner operationID signals)
   }"

text \<open>The seconds between two ticks, the bound on the calls of one turn, and the turn of the sweeper.\<close>

definition monitor_interval :: nat where
  "monitor_interval = 2"

definition monitor_timeout :: nat where
  "monitor_timeout = 5"

text \<open>
  A turn starts at the later of the next tick and the end of the turn before, and its renewal takes
  effect before the turn times out.
\<close>

definition monitor_gap :: nat where
  "monitor_gap = max monitor_interval monitor_timeout + monitor_timeout"

definition expireLeases :: "'w Env \<Rightarrow> ('w, failure + unit) worker" where
  "expireLeases env = db_write env (\<lambda>now st. Inr (FailExpiredOperations now st))"

section \<open>What the monitor relies on\<close>

text \<open>
  An attempt to renew, which may fail before it reaches the store, or a sweep, each at its time.
\<close>

datatype lease_event = Renewal bool | Sweep

fun lease_run ::
  "(timestamp \<Rightarrow> 'st \<Rightarrow> 'e + 'st) \<Rightarrow> (timestamp \<Rightarrow> 'st \<Rightarrow> 'st) \<Rightarrow> (timestamp \<times> lease_event) list \<Rightarrow> 'st \<Rightarrow> 'st" where
  "lease_run renew sweep [] st = st"
| "lease_run renew sweep ((now, Sweep) # events) st = lease_run renew sweep events (sweep now st)"
| "lease_run renew sweep ((now, Renewal reached) # events) st =
     lease_run renew sweep events (if reached then (case renew now st of Inl _ \<Rightarrow> st | Inr st' \<Rightarrow> st') else st)"

text \<open>
  Attempts are at most \<open>gap\<close> seconds apart and at most \<open>misses\<close> of them fail in a row; \<open>latest\<close> is the time
  of the attempt before, and \<open>failed\<close> the number of failures since the last success.
\<close>

fun timely :: "nat \<Rightarrow> nat \<Rightarrow> timestamp \<Rightarrow> nat \<Rightarrow> (timestamp \<times> lease_event) list \<Rightarrow> bool" where
  "timely gap misses latest failed [] \<longleftrightarrow> True"
| "timely gap misses latest failed ((now, Sweep) # events) \<longleftrightarrow> now \<le> latest + gap \<and> timely gap misses latest failed events"
| "timely gap misses latest failed ((now, Renewal reached) # events) \<longleftrightarrow>
     latest \<le> now \<and> now \<le> latest + gap \<and>
     (if reached then timely gap misses now 0 events else failed < misses \<and> timely gap misses now (Suc failed) events)"

locale lease_store =
  fixes held :: "'st \<Rightarrow> timestamp option" and renew :: "timestamp \<Rightarrow> 'st \<Rightarrow> 'e + 'st" and sweep :: "timestamp \<Rightarrow> 'st \<Rightarrow> 'st"
    and inv :: "'st \<Rightarrow> bool" and lease :: nat
  assumes renew_held: "inv st \<Longrightarrow> held st = Some until \<Longrightarrow> \<exists>st'. renew now st = Inr st' \<and> inv st' \<and> held st' = Some (now + lease)"
    and sweep_held: "inv st \<Longrightarrow> held st = Some until \<Longrightarrow> now \<le> until \<Longrightarrow> inv (sweep now st) \<and> held (sweep now st) = Some until"
begin

lemma lease_kept:
  assumes "Suc misses * gap \<le> lease" "timely gap misses latest failed events" "inv st" "held st = Some until"
    "latest + lease \<le> until + failed * gap" "failed \<le> misses"
  shows "\<exists>until'. held (lease_run renew sweep events st) = Some until'"
  using assms(2-)
proof (induction events arbitrary: latest failed st until)
  case Nil
  then show ?case by simp
next
  case (Cons event events)
  have room: "latest + gap \<le> until"
  proof -
    have "Suc failed * gap \<le> Suc misses * gap" using Cons.prems(5) by (intro mult_le_mono1) simp
    also note assms(1)
    finally have "failed * gap + gap \<le> lease" by simp
    with Cons.prems(4) show ?thesis by linarith
  qed
  obtain now ev where event: "event = (now, ev)" by fastforce
  show ?case
  proof (cases ev)
    case Sweep
    with Cons.prems event room have "inv (sweep now st)" "held (sweep now st) = Some until" using sweep_held [of st until now] by auto
    with Cons.IH Cons.prems event Sweep show ?thesis by auto
  next
    case (Renewal reached)
    show ?thesis
    proof (cases reached)
      case True
      obtain st' where "renew now st = Inr st'" "inv st'" "held st' = Some (now + lease)" using renew_held Cons.prems(2,3) by blast
      with Cons.IH [of now 0 st' "now + lease"] Cons.prems event Renewal True show ?thesis by simp
    next
      case False
      with Cons.IH [of now "Suc failed" st until] Cons.prems event Renewal show ?thesis by (auto simp: algebra_simps)
    qed
  qed
qed

end

text \<open>The operation store: who holds the lease of an active operation, and until when.\<close>

definition held_until :: "string \<Rightarrow> string \<Rightarrow> Store \<Rightarrow> timestamp option" where
  "held_until operationID owner st =
     (case find_row op_key operationID (db_operations st) of
        None \<Rightarrow> None
      | Some r \<Rightarrow> if opr_LeaseOwner r = Some owner \<and> active_status (op_Status (opr_Op r)) then opr_LeaseUntil r else None)"

interpretation op_lease: lease_store "held_until k owner" "\<lambda>now. RenewLease now k owner" FailExpiredOperations keys_ok lease_seconds
  for k owner
proof
  fix st until now
  assume keys: "keys_ok st" and held: "held_until k owner st = Some until"
  then obtain r where r: "find_row op_key k (db_operations st) = Some r" "opr_LeaseOwner r = Some owner"
    "active_status (op_Status (opr_Op r))" "opr_LeaseUntil r = Some until"
    by (auto simp: held_until_def split: option.splits if_splits)
  let ?p = "\<lambda>r. is_op k r \<and> opr_LeaseOwner r = Some owner \<and> active_status (op_Status (opr_Op r))"
  show "\<exists>st'. RenewLease now k owner st = Inr st' \<and> keys_ok st' \<and> held_until k owner st' = Some (now + lease_seconds)"
  proof -
    have "?p r" "r \<in> set (db_operations st)" using r find_row_key [OF r(1)] by (auto simp: is_op_def)
    then have "rows_affected ?p (db_operations st) = 1"
      using rows_affected_pos [of ?p "db_operations st"] rows_affected_key_le [of op_key "db_operations st" ?p k] keys
      by (fastforce simp: keys_ok_def is_op_def)
    then have renewed: "RenewLease now k owner st = Inr (st\<lparr>db_operations := update_where ?p (renew_row now) (db_operations st)\<rparr>)"
      by (simp add: RenewLease_def update_one_def)
    moreover have "held_until k owner (st\<lparr>db_operations := update_where ?p (renew_row now) (db_operations st)\<rparr>) = Some (now + lease_seconds)"
      using r \<open>?p r\<close> by (simp add: held_until_def renew_upd.find_updated renew_row_def)
    ultimately show ?thesis using op_step_keys [OF op_step.renew [OF renewed] keys] by blast
  qed
  show "keys_ok (FailExpiredOperations now st) \<and> held_until k owner (FailExpiredOperations now st) = Some until" if "now \<le> until"
    using that r op_step_keys [OF op_step.expire [OF refl] keys] by (simp add: held_until_def FailExpired_row expired_def)
qed

text \<open>
  C14: A living worker keeps its lease. Two attempts to renew it take effect at most \<open>monitor_gap\<close>
  seconds apart; then no sweep takes the operation away from the worker, even when two attempts in
  a row do not reach the database.
\<close>

theorem monitor_keeps_lease:
  assumes "keys_ok st" "held_until k owner st = Some (start + lease_seconds)"
    and "timely monitor_gap 2 start 0 events"
  shows "\<exists>until. held_until k owner (lease_run (\<lambda>now. RenewLease now k owner) FailExpiredOperations events st) = Some until"
  by (rule op_lease.lease_kept [of 2 _ start 0, OF _ assms(3,1,2)])
    (simp_all add: monitor_interval_def monitor_timeout_def monitor_gap_def lease_seconds_def)

text \<open>A third failure in a row can lose the lease: the bound is sharp.\<close>

lemma three_misses_lose_lease:
  "timely monitor_gap 3 0 0 [(10, Renewal False), (20, Renewal False), (30, Renewal False), (31, Sweep)]"
  "held_until ''op_1'' ''me'' (lease_run (\<lambda>now. RenewLease now ''op_1'' ''me'') FailExpiredOperations
     [(10, Renewal False), (20, Renewal False), (30, Renewal False), (31, Sweep)]
     (sample_db Running (Some ''me'') (Some 30))) = None"
  by (simp_all add: monitor_interval_def monitor_timeout_def monitor_gap_def held_until_def FailExpired_row sample_db_defs expired_def active_status_def
      fail_row_def end_row_def)

theorem monitor_keeps_lease_witness:
  "\<exists>until. held_until ''op_1'' ''me'' (lease_run (\<lambda>now. RenewLease now ''op_1'' ''me'') FailExpiredOperations
     [(5, Sweep), (7, Renewal False), (14, Renewal True), (20, Sweep)] (sample_db Running (Some ''me'') (Some 30))) = Some until"
proof (rule monitor_keeps_lease [OF sample_db_keys])
  show "held_until ''op_1'' ''me'' (sample_db Running (Some ''me'') (Some 30)) = Some (0 + lease_seconds)"
    by (simp add: held_until_def sample_db_defs active_status_def lease_seconds_def)
  show "timely monitor_gap 2 0 0 [(5, Sweep), (7, Renewal False), (14, Renewal True), (20, Sweep)]"
    by (simp add: monitor_interval_def monitor_timeout_def monitor_gap_def)
qed

section \<open>Cancellation\<close>

lemma db_write_tick: "eng_tick (snd (run_state (db_write env f) s)) = Suc (eng_tick s)"
  by (auto simp: db_write_def db_def Let_def split: option.splits)

lemma renewed_cancel_requested: "RenewLease now j owner st = Inr st' \<Longrightarrow> OperationCancelRequested k st' = OperationCancelRequested k st"
  by (auto simp: RenewLease_def OperationCancelRequested_def update_one_Some renew_upd.find_updated renew_row_def split: option.splits if_splits)

text \<open>
  The monitor cancels the operation at the first turn whose check reaches the database after the
  request was committed, whether the renewal before it succeeds or not.
\<close>

lemma monitor_cancels:
  assumes "\<And>n st. OperationCancelRequested k st = Inr True \<Longrightarrow> OperationCancelRequested k (env_others env n st) = Inr True"
    and "OperationCancelRequested k (eng_store s) = Inr True" "env_fault env (Suc (eng_tick s)) = None"
  shows "fst (run_state (monitorOperation env owner k (TickerFired # signals)) s)"
proof -
  let ?s = "snd (run_state (db_write env (\<lambda>now. RenewLease now k owner)) s)"
  have "OperationCancelRequested k (eng_store ?s) = Inr True"
    using assms(1) [OF assms(2), of "eng_tick s"]
    by (cases "RenewLease (env_now env (eng_tick s)) k owner (env_others env (eng_tick s) (eng_store s))")
      (auto simp: db_write_def db_def Let_def renewed_cancel_requested split: option.splits)
  then have "fst (run_state (db_read env (OperationCancelRequested k)) ?s) = Inr True"
    using assms(1,3) by (simp add: db_read_def run_db db_write_tick)
  then show ?thesis by (simp add: State_Monad.bind_def split_def)
qed

end
