(* ===== verification/Addresses.thy ===== *)
theory Addresses
  imports KP_Prelude "HOL-Library.Word"
begin

unbundle bit_operations_syntax

text \<open>
  IPv4 addresses as the provisioning code uses them: \<open>netip.Addr\<close> of an IPv4 address is its 32-bit value,
  \<open>netip.ParseAddr\<close> and \<open>String\<close> convert it from and to dotted decimal text, and \<open>netip.Prefix\<close> masks and
  compares the leading bits.
\<close>

section \<open>Canonical numerals\<close>

definition canonical :: "string \<Rightarrow> bool" where
  "canonical s \<longleftrightarrow> s \<noteq> [] \<and> list_all is_digit s \<and> (length s = 1 \<or> hd s \<noteq> CHR ''0'')"

lemma digit_value_char: "is_digit c \<Longrightarrow> digit_value c < 10 \<and> digit_char (digit_value c) = c"
  by (auto simp: is_digit_def digit_value_def digit_char_def)

lemma digit_value_zero: "is_digit c \<Longrightarrow> digit_value c = 0 \<longleftrightarrow> c = CHR ''0''"
  by (auto simp: is_digit_def digit_value_def)

lemma decimal_value_Cons_pos: "is_digit c \<Longrightarrow> c \<noteq> CHR ''0'' \<Longrightarrow> 0 < decimal_value (c # ds)"
proof (induction ds rule: rev_induct)
  case Nil
  then show ?case using digit_value_zero [of c] by (simp add: decimal_value_def)
next
  case (snoc d ds)
  then show ?case using decimal_value_snoc [of "c # ds" d] by simp
qed

lemma show_nat_canonical: "canonical (show_nat n)"
proof (induction n rule: show_nat.induct)
  case (1 n)
  show ?case
  proof (cases "n < 10")
    case True
    then show ?thesis using show_nat_digits [of n] by (simp add: canonical_def show_nat.simps [of n])
  next
    case False
    let ?m = "n div 10"
    have "hd (show_nat ?m) \<noteq> CHR ''0''"
    proof
      assume zero: "hd (show_nat ?m) = CHR ''0''"
      with 1 False have "length (show_nat ?m) = 1" by (simp add: canonical_def)
      with zero have "show_nat ?m = ''0''" by (cases "show_nat ?m") auto
      then have "?m = 0" using show_nat_digits [of ?m] by (simp add: decimal_value_def digit_value_def)
      with False show False by simp
    qed
    then show ?thesis using False show_nat_digits [of n] show_nat_digits [of ?m]
      by (simp add: canonical_def show_nat.simps [of n])
  qed
qed

lemma canonical_show:
  assumes "canonical s"
  shows "show_nat (decimal_value s) = s"
  using assms
proof (induction s rule: rev_induct)
  case Nil
  then show ?case by (simp add: canonical_def)
next
  case (snoc c s)
  then have c: "is_digit c" by (simp add: canonical_def)
  show ?case
  proof (cases s)
    case Nil
    with c digit_value_char [of c] show ?thesis by (simp add: decimal_value_def show_nat.simps)
  next
    case (Cons d ds)
    with snoc have s: "canonical s" and d: "is_digit d" "d \<noteq> CHR ''0''" by (auto simp: canonical_def)
    have "0 < decimal_value s" using decimal_value_Cons_pos [OF d] Cons by simp
    with snoc.IH [OF s] digit_value_char [OF c] show ?thesis
      by (subst show_nat.simps) (simp add: decimal_value_snoc)
  qed
qed

section \<open>Dotted decimal\<close>

text \<open>
  \<open>netip.ParseAddr\<close> followed by \<open>Is4\<close>: four decimal fields up to 255 without leading zeros.
\<close>

definition octet :: "string \<Rightarrow> nat option" where
  "octet s = (if canonical s \<and> decimal_value s < 256 then Some (decimal_value s) else None)"

definition parse_ip4 :: "string \<Rightarrow> 32 word option" where
  "parse_ip4 s =
     (case map octet (split_on CHR ''.'' s) of
        [Some a, Some b, Some c, Some d] \<Rightarrow> Some (of_nat (((a * 256 + b) * 256 + c) * 256 + d))
      | _ \<Rightarrow> None)"

definition octets :: "32 word \<Rightarrow> nat list" where
  "octets w = map (\<lambda>k. unat (take_bit 8 (drop_bit k w))) [24, 16, 8, 0]"

definition show_ip4 :: "32 word \<Rightarrow> string" where
  "show_ip4 w = join_on ''.'' (map show_nat (octets w))"

lemma octet_show: "n < 256 \<Longrightarrow> octet (show_nat n) = Some n"
  using show_nat_digits [of n] by (simp add: octet_def show_nat_canonical)

lemma octet_Some: "octet s = Some n \<longleftrightarrow> n < 256 \<and> s = show_nat n"
  using canonical_show [of s] show_nat_digits [of n] show_nat_canonical [of n] by (auto simp: octet_def)

lemma ip4_bound: "unat (w :: 32 word) < 2 ^ 32"
  using unsigned_less [of w] by simp

lemma unat_drop: "unat (drop_bit k w) = unat w div 2 ^ k"
  by (simp only: unat_drop_bit_eq drop_bit_nat_def)

lemma unat_low_byte: "unat (take_bit 8 w) = unat w mod 256"
  by (simp only: unsigned_take_bit_eq take_bit_nat_def) simp

lemma byte_split: "d < 256 \<Longrightarrow> (x * 256 + d) div 256 = x" "d < 256 \<Longrightarrow> (x * 256 + d) mod 256 = (d::nat)"
  by simp_all

lemma interval_div: "0 < m \<Longrightarrow> n div m = q \<longleftrightarrow> q * m \<le> n \<and> n < q * m + (m::nat)"
  using div_nat_eqI [of m q n] dividend_less_div_times [of m n] by (auto simp: mult.commute add.commute)

lemma unat_of_nat_less: "n < 2 ^ 32 \<Longrightarrow> unat (of_nat n :: 32 word) = n"
  by (simp only: unat_of_nat) simp

lemma octets_nat:
  fixes w :: "32 word"
  shows "octets w = (let n = unat w in [n div 256 div 256 div 256, n div 256 div 256 mod 256, n div 256 mod 256, n mod 256])"
proof -
  have "unat w div 256 div 256 div 256 mod 256 = unat w div 256 div 256 div 256" using ip4_bound [of w] by simp
  then show ?thesis
    by (simp add: octets_def Let_def unat_low_byte unat_drop div_mult2_eq [symmetric])
qed

lemma octets_bound: "n \<in> set (octets w) \<Longrightarrow> n < 256"
  using ip4_bound [of w] by (auto simp: octets_nat Let_def)

lemma split_show: "split_on CHR ''.'' (show_ip4 w) = map show_nat (octets w)"
  unfolding show_ip4_def by (rule split_join_on) (auto simp: octets_def no_digit_show_nat is_digit_def)

lemma parse_show_ip4 [simp]: "parse_ip4 (show_ip4 w) = Some w"
proof -
  let ?n = "unat w"
  obtain a b c d where o: "octets w = [a, b, c, d]"
    and parts: "a = ?n div 256 div 256 div 256" "b = ?n div 256 div 256 mod 256" "c = ?n div 256 mod 256" "d = ?n mod 256"
    by (simp only: octets_nat Let_def list.inject)
  then have "((a * 256 + b) * 256 + c) * 256 + d = ?n" by (simp only: div_mult_mod_eq)
  then have "(of_nat (((a * 256 + b) * 256 + c) * 256 + d) :: 32 word) = w" by (simp only:) simp
  moreover have "a < 256" "b < 256" "c < 256" "d < 256" using octets_bound [of _ w] o by auto
  ultimately show ?thesis by (simp only: parse_ip4_def split_show o list.map octet_show list.case option.case)
qed

lemma octets_of_nat:
  assumes "a < 256" "b < 256" "c < 256" "d < 256"
  shows "octets (of_nat (((a * 256 + b) * 256 + c) * 256 + d)) = [a, b, c, d]"
proof -
  let ?n = "((a * 256 + b) * 256 + c) * 256 + d"
  have "?n < 2 ^ 32" using assms by simp
  then have "unat (of_nat ?n :: 32 word) = ?n" by (rule unat_of_nat_less)
  then show ?thesis using assms by (simp only: octets_nat Let_def byte_split mod_less)
qed

lemma parse_ip4_Some:
  assumes "parse_ip4 s = Some w"
  shows "show_ip4 w = s"
proof -
  obtain a b c d where fields: "map octet (split_on CHR ''.'' s) = [Some a, Some b, Some c, Some d]"
    and w: "w = of_nat (((a * 256 + b) * 256 + c) * 256 + d)"
    using assms by (auto simp: parse_ip4_def split: list.splits option.splits)
  then have "split_on CHR ''.'' s = map show_nat [a, b, c, d]" and bound: "a < 256" "b < 256" "c < 256" "d < 256"
    by (auto simp: octet_Some)
  then have "s = join_on ''.'' (map show_nat [a, b, c, d])" using join_split_on [of "CHR ''.''" s] by simp
  then show ?thesis unfolding show_ip4_def w octets_of_nat [OF bound] by simp
qed

lemma show_ip4_inj [simp]: "show_ip4 v = show_ip4 w \<longleftrightarrow> v = w"
  using parse_show_ip4 by (metis option.inject)

lemma show_ip4_nonempty [simp]: "show_ip4 w \<noteq> []"
  using parse_show_ip4 [of w] by (auto simp: parse_ip4_def octet_def canonical_def)

section \<open>Prefixes\<close>

text \<open>\<open>netip.PrefixFrom(ip, bits).Masked()\<close>, \<open>Contains\<close>, and the last address of the prefix, for host parts of \<open>k = 32 - bits\<close> bits.\<close>

definition masked :: "nat \<Rightarrow> 32 word \<Rightarrow> 32 word" where
  "masked k a = push_bit k (drop_bit k a)"

definition prefix_contains :: "nat \<Rightarrow> 32 word \<Rightarrow> 32 word \<Rightarrow> bool" where
  "prefix_contains k net a \<longleftrightarrow> drop_bit k (net XOR a) = 0"

lemma unat_masked: "unat (masked k a) = unat a div 2 ^ k * 2 ^ k"
proof -
  have "unat a div 2 ^ k * 2 ^ k < 2 ^ 32" using ip4_bound [of a] by (meson div_times_less_eq_dividend le_less_trans)
  then show ?thesis unfolding masked_def
    by (simp only: unsigned_push_bit_eq unat_drop push_bit_nat_def) (simp add: take_bit_nat_eq_self)
qed

lemma xor_zero: "(a :: 32 word) XOR b = 0 \<longleftrightarrow> a = b"
  by (auto simp: bit_eq_iff bit_xor_iff)

lemma prefix_contains_div: "prefix_contains k net a \<longleftrightarrow> unat net div 2 ^ k = unat a div 2 ^ k"
  by (simp only: prefix_contains_def drop_bit_xor xor_zero) (simp only: word_unat_eq_iff unat_drop)

lemma contains_masked:
  "prefix_contains k (masked k a) b \<longleftrightarrow> unat (masked k a) \<le> unat b \<and> unat b < unat (masked k a) + 2 ^ k"
proof -
  have "prefix_contains k (masked k a) b \<longleftrightarrow> unat b div 2 ^ k = unat a div 2 ^ k"
    by (auto simp: prefix_contains_div unat_masked)
  also have "\<dots> \<longleftrightarrow> unat a div 2 ^ k * 2 ^ k \<le> unat b \<and> unat b < unat a div 2 ^ k * 2 ^ k + 2 ^ k"
    by (rule interval_div) simp
  finally show ?thesis by (simp add: unat_masked)
qed

end
