(* ===== verification/Provisioning.thy ===== *)
theory Provisioning
  imports Addresses Schema
begin

text \<open>
  Allocation of consecutive virtual machine identifiers and IPv4 addresses
  (\<open>provisioning/allocation.go\<close>): the inventory of what is taken, the check of a requested range, the
  search for a free one, and the networks of a machine configuration.
\<close>

section \<open>Data\<close>

record Network =
  nw_Address :: string
  nw_PrefixLength :: int
  nw_Gateway :: string
  nw_DNSServer :: string
  nw_Bridge :: string

text \<open>
  The two sets of the inventory are Go maps; a list holds their keys in the order an iteration
  visits them.
\<close>

record Inventory =
  in_VMIDs :: "int list"
  in_Addresses :: "string list"
  in_Networks :: "Network list"

record Allocation =
  al_VMID :: int
  al_Network :: Network

definition no_network :: Network where
  "no_network = \<lparr>nw_Address = [], nw_PrefixLength = 0, nw_Gateway = [], nw_DNSServer = [], nw_Bridge = []\<rparr>"

definition NewInventory :: Inventory where
  "NewInventory = \<lparr>in_VMIDs = [], in_Addresses = [], in_Networks = []\<rparr>"

definition prefix_ok :: "int \<Rightarrow> bool" where
  "prefix_ok p \<longleftrightarrow> 8 \<le> p \<and> p \<le> 30"

definition AddNetwork :: "Network \<Rightarrow> Inventory \<Rightarrow> Inventory" where
  "AddNetwork network inventory =
     (case parse_ip4 (nw_Address network) of
        None \<Rightarrow> inventory
      | Some ip \<Rightarrow>
          inventory\<lparr>in_Addresses := List.insert (show_ip4 ip) (in_Addresses inventory),
            in_Networks := in_Networks inventory @ (if prefix_ok (nw_PrefixLength network) then [network] else [])\<rparr>)"

text \<open>The signed 64-bit result of an addition on Go's \<open>int\<close>.\<close>

definition int64 :: "int \<Rightarrow> int" where
  "int64 n = (n + 2 ^ 63) mod 2 ^ 64 - 2 ^ 63"

lemma int64_id: "- (2 ^ 63) \<le> n \<Longrightarrow> n < 2 ^ 63 \<Longrightarrow> int64 n = n"
  by (simp add: int64_def)

section \<open>Checking a range\<close>

definition last_vmid :: int where
  "last_vmid = 999999999"

definition vmid_range_ok :: "int \<Rightarrow> int \<Rightarrow> bool" where
  "vmid_range_ok vmid count \<longleftrightarrow> \<not> (count < 1 \<or> 108 < count \<or> vmid < 100 \<or> last_vmid - count + 1 < vmid)"

definition used_vmid :: "Inventory \<Rightarrow> int \<Rightarrow> int \<Rightarrow> int option" where
  "used_vmid inventory vmid count = find (\<lambda>k. k \<in> set (in_VMIDs inventory)) [vmid..vmid + count - 1]"

definition host_bits :: "int \<Rightarrow> nat" where
  "host_bits p = nat (32 - p)"

definition broadcast_of :: "nat \<Rightarrow> 64 word \<Rightarrow> 64 word" where
  "broadcast_of k network = network + push_bit k 1 - 1"

definition gateway_ok :: "nat \<Rightarrow> 32 word \<Rightarrow> 64 word \<Rightarrow> 64 word \<Rightarrow> 32 word \<Rightarrow> bool" where
  "gateway_ok k subnet network broadcast g \<longleftrightarrow>
     \<not> (\<not> prefix_contains k subnet g \<or> ucast g = network \<or> ucast g = broadcast)"

text \<open>The addresses of a range, computed in 32 bits.\<close>

definition range_addresses :: "32 word \<Rightarrow> int \<Rightarrow> string list" where
  "range_addresses first count = map (\<lambda>i. show_ip4 (first + of_nat i)) [0..<nat count]"

definition address_conflict :: "Inventory \<Rightarrow> string \<Rightarrow> string \<Rightarrow> string option" where
  "address_conflict inventory gateway ip =
     (if ip = gateway then Some (''The IP range includes the gateway '' @ ip @ ''.'')
      else if ip \<in> set (in_Addresses inventory) then Some (''IP address '' @ ip @ '' is already in use or reserved.'')
      else None)"

fun first_conflict :: "Inventory \<Rightarrow> string \<Rightarrow> string list \<Rightarrow> string option" where
  "first_conflict inventory gateway [] = None"
| "first_conflict inventory gateway (ip # ips) =
     (case address_conflict inventory gateway ip of None \<Rightarrow> first_conflict inventory gateway ips | Some e \<Rightarrow> Some e)"

definition check_network :: "Inventory \<Rightarrow> Network \<Rightarrow> int \<Rightarrow> string option" where
  "check_network inventory network count =
     (case parse_ip4 (nw_Address network) of
        None \<Rightarrow> Some ''Use an IPv4 address and a prefix between 8 and 30.''
      | Some ip \<Rightarrow>
          if \<not> prefix_ok (nw_PrefixLength network) then Some ''Use an IPv4 address and a prefix between 8 and 30.''
          else let
            k = host_bits (nw_PrefixLength network);
            subnet = masked k ip;
            first = ucast ip :: 64 word;
            start = ucast subnet;
            broadcast = broadcast_of k start
          in if first \<le> start \<or> broadcast \<le> first + of_int count - 1
             then Some ''The IP range must fit within the subnet, excluding network and broadcast addresses.''
             else case parse_ip4 (nw_Gateway network) of
                None \<Rightarrow> Some ''Gateway must be a host address in the same subnet.''
              | Some g \<Rightarrow>
                  if \<not> gateway_ok k subnet start broadcast g then Some ''Gateway must be a host address in the same subnet.''
                  else case first_conflict inventory (show_ip4 g) (range_addresses (ucast first) count) of
                     Some e \<Rightarrow> Some e
                   | None \<Rightarrow> if parse_ip4 (nw_DNSServer network) = None then Some ''Use a valid IPv4 DNS server.'' else None)"

text \<open>\<open>Validate\<close>: \<open>None\<close> is \<open>nil\<close>, otherwise the message of the error.\<close>

definition ValidateAllocation :: "Inventory \<Rightarrow> Allocation \<Rightarrow> int \<Rightarrow> string option" where
  "ValidateAllocation inventory v count =
     (if \<not> vmid_range_ok (al_VMID v) count then Some ''Select a valid VM ID range.''
      else case used_vmid inventory (al_VMID v) count of
        Some k \<Rightarrow> Some (''VM ID '' @ show_nat (nat k) @ '' is already in use or reserved.'')
      | None \<Rightarrow> if nw_Address (al_Network v) = [] then None else check_network inventory (al_Network v) count)"

section \<open>Proposing a range\<close>

definition highest_vmid :: "int list \<Rightarrow> int" where
  "highest_vmid used = fold (\<lambda>k v. if v \<le> k then int64 (k + 1) else v) used 100"

text \<open>The search for a gap; \<open>gap_conflict\<close> is the offset of the first identifier in use.\<close>

definition gap_conflict :: "int list \<Rightarrow> int \<Rightarrow> int \<Rightarrow> int option" where
  "gap_conflict used count v = find (\<lambda>i. v + i \<in> set used) [0..count - 1]"

lemma gap_conflict_offset: "gap_conflict used count v = Some i \<Longrightarrow> 0 \<le> i \<and> i < count \<and> v + i \<in> set used"
  by (auto simp: gap_conflict_def find_Some_iff nth_upto)

function gap_search :: "int list \<Rightarrow> int \<Rightarrow> int \<Rightarrow> int" where
  "gap_search used count v =
     (if v \<le> last_vmid - count + 1 then
        (case gap_conflict used count v of None \<Rightarrow> v | Some i \<Rightarrow> gap_search used count (v + (i + 1)))
      else v)"
  by pat_completeness auto
termination
  by (relation "measure (\<lambda>(used, count, v). nat (last_vmid - count + 2 - v))") (auto dest: gap_conflict_offset)

declare gap_search.simps [simp del]

definition suggest_vmid :: "int list \<Rightarrow> int \<Rightarrow> int" where
  "suggest_vmid used count =
     (let v = highest_vmid used in if last_vmid - count + 1 < v then gap_search used count 100 else v)"

text \<open>The profiles the search may use.\<close>

definition profile_usable :: "Network \<Rightarrow> int \<Rightarrow> Network \<Rightarrow> bool" where
  "profile_usable preferred vmid profile \<longleftrightarrow>
     parse_ip4 (nw_Address profile) \<noteq> None \<and> prefix_ok (nw_PrefixLength profile) \<and>
     \<not> (nw_Gateway profile = [] \<or> nw_DNSServer profile = []) \<and>
     \<not> (nw_Bridge preferred \<noteq> [] \<and> nw_Bridge profile \<noteq> [] \<and> nw_Bridge profile \<noteq> nw_Bridge preferred) \<and>
     ValidateAllocation NewInventory \<lparr>al_VMID = vmid, al_Network = profile\<rparr> 1 = None"

definition after_used :: "nat \<Rightarrow> 32 word \<Rightarrow> string list \<Rightarrow> 32 word \<Rightarrow> 32 word" where
  "after_used k subnet used start =
     fold (\<lambda>text start. case parse_ip4 text of
         None \<Rightarrow> start
       | Some a \<Rightarrow> if prefix_contains k subnet a \<and> start \<le> a then a + 1 else start) used start"

definition at_address :: "int \<Rightarrow> Network \<Rightarrow> nat \<Rightarrow> Allocation" where
  "at_address vmid profile candidate = \<lparr>al_VMID = vmid, al_Network = profile\<lparr>nw_Address := show_ip4 (of_nat candidate)\<rparr>\<rparr>"

text \<open>
  The loop over candidate addresses, on the \<open>uint64\<close> values of the code: they start from 32-bit
  addresses and stay below \<open>end\<close>, so that no addition wraps.
\<close>

function scan_addresses :: "Inventory \<Rightarrow> int \<Rightarrow> Network \<Rightarrow> int \<Rightarrow> nat \<Rightarrow> nat \<Rightarrow> Allocation option" where
  "scan_addresses inventory vmid profile count candidate limit =
     (if candidate + nat count \<le> limit then
        (if ValidateAllocation inventory (at_address vmid profile candidate) count = None
         then Some (at_address vmid profile candidate)
         else scan_addresses inventory vmid profile count (candidate + 1) limit)
      else None)"
  by pat_completeness auto
termination
  by (relation "measure (\<lambda>(inventory, vmid, profile, count, candidate, limit). Suc limit - candidate)") auto

declare scan_addresses.simps [simp del]

text \<open>First after the last assigned address of the subnet, then from its beginning.\<close>

definition profile_limit :: "nat \<Rightarrow> 32 word \<Rightarrow> nat" where
  "profile_limit k subnet = unat subnet + 2 ^ k - 1"

definition try_profile :: "Inventory \<Rightarrow> Network \<Rightarrow> int \<Rightarrow> int \<Rightarrow> Network \<Rightarrow> Allocation option" where
  "try_profile inventory preferred vmid count profile =
     (case parse_ip4 (nw_Address profile) of
        None \<Rightarrow> None
      | Some ip \<Rightarrow>
          if \<not> profile_usable preferred vmid profile then None
          else let
            k = host_bits (nw_PrefixLength profile);
            subnet = masked k ip;
            start = after_used k subnet (in_Addresses inventory) (ip + 1);
            limit = profile_limit k subnet
          in case scan_addresses inventory vmid profile count (unat start) limit of
               Some v \<Rightarrow> Some v
             | None \<Rightarrow> scan_addresses inventory vmid profile count (unat (subnet + 1)) limit)"

fun try_profiles :: "Inventory \<Rightarrow> Network \<Rightarrow> int \<Rightarrow> int \<Rightarrow> Network list \<Rightarrow> Allocation option" where
  "try_profiles inventory preferred vmid count [] = None"
| "try_profiles inventory preferred vmid count (profile # profiles) =
     (case try_profile inventory preferred vmid count profile of
        Some v \<Rightarrow> Some v
      | None \<Rightarrow> try_profiles inventory preferred vmid count profiles)"

definition Suggest :: "Inventory \<Rightarrow> int \<Rightarrow> Network \<Rightarrow> string + Allocation" where
  "Suggest inventory count preferred =
     (if count < 1 \<or> 108 < count then Inl ''Invalid machine count.''
      else let vmid = suggest_vmid (in_VMIDs inventory) count
           in case try_profiles inventory preferred vmid count (preferred # in_Networks inventory) of
                Some v \<Rightarrow> Inr v
              | None \<Rightarrow> Inr \<lparr>al_VMID = vmid, al_Network = no_network\<rparr>)"

section \<open>Reserving a range\<close>

definition reserve_one :: "int \<Rightarrow> Network \<Rightarrow> nat \<Rightarrow> Inventory \<Rightarrow> Inventory" where
  "reserve_one vmid network i inventory =
     (let taken = inventory\<lparr>in_VMIDs := List.insert (int64 (vmid + int i)) (in_VMIDs inventory)\<rparr>
      in case parse_ip4 (nw_Address network) of
           None \<Rightarrow> taken
         | Some ip \<Rightarrow> AddNetwork (network\<lparr>nw_Address := show_ip4 (ip + of_nat i)\<rparr>) taken)"

definition Reserve :: "int \<Rightarrow> int \<Rightarrow> Network \<Rightarrow> Inventory \<Rightarrow> Inventory" where
  "Reserve vmid count network inventory = fold (reserve_one vmid network) [0..<nat count] inventory"

section \<open>Networks of a configuration\<close>

text \<open>\<open>netip.ParsePrefix\<close> for an IPv4 prefix: the bits are a decimal numeral without sign or leading zero.\<close>

definition parse_prefix4 :: "string \<Rightarrow> (32 word \<times> int) option" where
  "parse_prefix4 s =
     (case rev (split_on CHR ''/'' s) of
        bits # rest \<Rightarrow>
          (if rest = [] then None
           else case parse_ip4 (join_on ''/'' (rev rest)) of
             None \<Rightarrow> None
           | Some ip \<Rightarrow> if canonical bits \<and> decimal_value bits \<le> 32 then Some (ip, int (decimal_value bits)) else None)
      | [] \<Rightarrow> None)"

text \<open>\<open>strings.SplitN(part, "=", 2)\<close> when it has two parts, and the map the parts fill: the last wins.\<close>

definition key_value :: "string \<Rightarrow> (string \<times> string) option" where
  "key_value part =
     (let key = takeWhile (\<lambda>c. c \<noteq> CHR ''='') part
      in if key = part then None else Some (key, drop (length key + 1) part))"

definition config_fields :: "string \<Rightarrow> string \<Rightarrow> string" where
  "config_fields text key =
     (case map_of (rev (List.map_filter key_value (split_on CHR '','' text))) key of None \<Rightarrow> [] | Some v \<Rightarrow> v)"

definition text_of :: "json option \<Rightarrow> string" where
  "text_of v = (case v of Some (JStr s) \<Rightarrow> s | _ \<Rightarrow> [])"

definition trim_suffix :: "string \<Rightarrow> string \<Rightarrow> string" where
  "trim_suffix s e = rev (trim_prefix (rev e) (rev s))"

definition last_with_prefix :: "string \<Rightarrow> string list \<Rightarrow> string" where
  "last_with_prefix p parts =
     (case rev (filter (has_prefix p) parts) of [] \<Rightarrow> [] | part # _ \<Rightarrow> trim_prefix p part)"

definition bridge_of :: "(string \<times> json) list \<Rightarrow> string \<Rightarrow> string \<Rightarrow> string" where
  "bridge_of config key text =
     (if has_prefix ''ipconfig'' key then
        (let parts = split_on CHR '','' (text_of (map_of config (''net'' @ trim_prefix ''ipconfig'' key)));
             name = last_with_prefix ''bridge='' parts;
             tag = last_with_prefix ''tag='' parts
         in name @ (if tag \<noteq> [] then ''/'' @ tag else []))
      else config_fields text ''bridge'' @ ''/'' @ config_fields text ''tag'')"

text \<open>The first of \<open>strings.Fields\<close>: up to the next white space after the leading one.\<close>

fun take_field :: "string \<Rightarrow> string" where
  "take_field [] = []"
| "take_field (c # s) = (if find (\<lambda>w. has_prefix w (c # s)) white_space \<noteq> None then [] else c # take_field s)"

definition first_dns :: "string \<Rightarrow> string" where
  "first_dns dns =
     (let field = take_field (strip_seqs white_space (replace_all '','' '' '' dns)) in if field = [] then dns else field)"

definition config_network :: "(string \<times> json) list \<Rightarrow> string \<Rightarrow> Network list" where
  "config_network config key =
     (if \<not> has_prefix ''ipconfig'' key \<and> \<not> has_prefix ''net'' key then []
      else let text = text_of (map_of config key)
           in case parse_prefix4 (config_fields text ''ip'') of
                None \<Rightarrow> []
              | Some (ip, bits) \<Rightarrow>
                  [\<lparr>nw_Address = show_ip4 ip, nw_PrefixLength = bits, nw_Gateway = config_fields text ''gw'',
                    nw_DNSServer = first_dns (text_of (map_of config ''nameserver'')),
                    nw_Bridge = trim_suffix (bridge_of config key text) ''/''\<rparr>])"

definition ConfigNetworks :: "(string \<times> json) list \<Rightarrow> Network list" where
  "ConfigNetworks config = concat (map (config_network config) (map fst (sort_keys config)))"

text \<open>
  \<open>strconv.Atoi\<close> keeps the nearest value when the numeral is out of range; the callers drop the error.
  \<open>fmt\<close> is how \<open>fmt.Sprint\<close> prints the float of a number.
\<close>

definition atoi :: "string \<Rightarrow> int" where
  "atoi s =
     (case parse_int64 s of
        Some n \<Rightarrow> n
      | None \<Rightarrow>
          let neg = (s \<noteq> [] \<and> hd s = CHR ''-'');
              ds = (if s \<noteq> [] \<and> (hd s = CHR ''-'' \<or> hd s = CHR ''+'') then tl s else s)
          in if ds = [] \<or> \<not> list_all is_digit ds then 0 else if neg then - (2 ^ 63) else 2 ^ 63 - 1)"

definition intField :: "(string \<Rightarrow> string) \<Rightarrow> (string \<times> json) list \<Rightarrow> string \<Rightarrow> int" where
  "intField fmt spec key = atoi (sprint fmt (case map_of spec key of None \<Rightarrow> JNull | Some v \<Rightarrow> v))"

definition NetworkFromSpec :: "(string \<Rightarrow> string) \<Rightarrow> (string \<times> json) list \<Rightarrow> Network" where
  "NetworkFromSpec fmt spec =
     (let value = (\<lambda>key. text_of (map_of spec key)); ip = value ''address''
      in \<lparr>nw_Address = (if ip = [] then value ''addressStart'' else ip), nw_PrefixLength = intField fmt spec ''prefixLength'',
          nw_Gateway = value ''gateway'', nw_DNSServer = value ''dnsServer'', nw_Bridge = value ''bridge''\<rparr>)"

section \<open>What the check decides\<close>

definition network_free :: "Inventory \<Rightarrow> Network \<Rightarrow> int \<Rightarrow> bool" where
  "network_free inventory network count \<longleftrightarrow>
     prefix_ok (nw_PrefixLength network) \<and> parse_ip4 (nw_DNSServer network) \<noteq> None \<and>
     (\<exists>ip g. parse_ip4 (nw_Address network) = Some ip \<and> parse_ip4 (nw_Gateway network) = Some g \<and>
       (let k = host_bits (nw_PrefixLength network); net = unat (masked k ip); top = net + 2 ^ k - 1;
            addresses = {unat ip..<unat ip + nat count}
        in net < unat ip \<and> unat ip + nat count \<le> top \<and> net < unat g \<and> unat g < top \<and> unat g \<notin> addresses \<and>
           (\<forall>a \<in> addresses. show_ip4 (of_nat a) \<notin> set (in_Addresses inventory))))"

definition allocation_free :: "Inventory \<Rightarrow> Allocation \<Rightarrow> int \<Rightarrow> bool" where
  "allocation_free inventory v count \<longleftrightarrow>
     1 \<le> count \<and> count \<le> 108 \<and> 100 \<le> al_VMID v \<and> al_VMID v + count - 1 \<le> last_vmid \<and>
     {al_VMID v..<al_VMID v + count} \<inter> set (in_VMIDs inventory) = {} \<and>
     (nw_Address (al_Network v) = [] \<or> network_free inventory (al_Network v) count)"

text \<open>The 64-bit arithmetic of the code does not wrap.\<close>

lemma unat_up [simp]: "unat (ucast (w :: 32 word) :: 64 word) = unat w"
  using ip4_bound [of w] by (simp add: unsigned_ucast_eq take_bit_nat_eq_self)

lemma up_of_nat: "(ucast (w :: 32 word) :: 64 word) = of_nat (unat w)"
  by (rule word_unat_eq_iff [THEN iffD2], unfold unat_up) (use ip4_bound [of w] in \<open>simp add: unat_of_nat\<close>)

lemma up_inj: "(ucast (a :: 32 word) :: 64 word) = w \<longleftrightarrow> unat a = unat w"
  by (simp add: word_unat_eq_iff)

lemma down_up [simp]: "ucast (ucast (w :: 32 word) :: 64 word) = w"
  by (rule ucast_up_ucast_id) (simp add: is_up)

lemma host_bits_range: "prefix_ok p \<Longrightarrow> 2 \<le> host_bits p \<and> host_bits p \<le> 24"
  by (auto simp: prefix_ok_def host_bits_def)

lemma host_bits_power: "prefix_ok p \<Longrightarrow> 4 \<le> (2::nat) ^ host_bits p \<and> (2::nat) ^ host_bits p \<le> 2 ^ 24"
  using host_bits_range [of p] power_increasing [of 2 "host_bits p" "2::nat"] power_increasing [of "host_bits p" 24 "2::nat"]
  by simp

lemma unat_broadcast:
  assumes "prefix_ok p"
  shows "unat (broadcast_of (host_bits p) (ucast (net :: 32 word))) = unat net + 2 ^ host_bits p - 1"
proof -
  let ?n = "unat net + 2 ^ host_bits p - 1"
  have "broadcast_of (host_bits p) (ucast net) = of_nat (unat net + 2 ^ host_bits p) - 1"
    by (simp only: broadcast_of_def up_of_nat push_bit_eq_mult mult_1 of_nat_add of_nat_power of_nat_numeral)
  also have "\<dots> = of_nat ?n" using host_bits_power [OF assms] by (simp add: of_nat_diff)
  finally have "unat (broadcast_of (host_bits p) (ucast net)) = ?n mod 2 ^ 64" by (simp add: unat_of_nat)
  moreover have "?n < 2 ^ 64"
  proof -
    have "?n < 2 ^ 32 + 2 ^ 24" using host_bits_power [OF assms] ip4_bound [of net] by linarith
    then show ?thesis by simp
  qed
  ultimately show ?thesis by simp
qed

lemma unat_last:
  assumes "1 \<le> count" "count \<le> 108"
  shows "unat (ucast (ip :: 32 word) + of_int count - 1 :: 64 word) = unat ip + nat count - 1"
proof -
  have "(ucast ip + of_int count - 1 :: 64 word) = of_nat (unat ip + nat count) - 1"
    using assms by (simp only: up_of_nat of_nat_add) simp
  also have "\<dots> = of_nat (unat ip + nat count - 1)" using assms by (simp add: of_nat_diff)
  finally have "unat (ucast ip + of_int count - 1 :: 64 word) = (unat ip + nat count - 1) mod 2 ^ 64" by (simp add: unat_of_nat)
  moreover have "unat ip + nat count - 1 < 2 ^ 64" using ip4_bound [of ip] assms by simp
  ultimately show ?thesis by simp
qed


lemma range_addresses_set:
  assumes "unat ip + nat count \<le> 2 ^ 32"
  shows "set (range_addresses ip count) = (\<lambda>a. show_ip4 (of_nat a)) ` {unat ip..<unat ip + nat count}"
proof -
  have "{unat ip..<unat ip + nat count} = (\<lambda>i. unat ip + i) ` {0..<nat count}"
    by (simp add: image_add_atLeastLessThan add.commute)
  then show ?thesis by (simp only: range_addresses_def image_image set_map set_upt of_nat_add) simp
qed

lemma masked_top:
  assumes "k \<le> 32"
  shows "unat (masked k ip) + 2 ^ k \<le> 2 ^ 32"
proof -
  let ?q = "unat ip div 2 ^ k"
  have whole: "(2::nat) ^ 32 = 2 ^ (32 - k) * 2 ^ k" using assms by (simp flip: power_add)
  have "?q * 2 ^ k < 2 ^ 32" using ip4_bound [of "masked k ip"] by (simp only: unat_masked)
  then have "?q < 2 ^ (32 - k)" by (simp only: whole) simp
  then have "Suc ?q * 2 ^ k \<le> 2 ^ (32 - k) * 2 ^ k" by (intro mult_le_mono1) simp
  then show ?thesis by (simp only: unat_masked whole) simp
qed

lemma address_in_range:
  assumes "n \<le> 2 ^ 32"
  shows "show_ip4 g \<in> (\<lambda>a. show_ip4 (of_nat a)) ` {m..<n} \<longleftrightarrow> unat g \<in> {m..<n}"
proof -
  have "of_nat a = g \<longleftrightarrow> a = unat g" if "a < n" for a
    using that assms unat_of_nat_less [of a] by auto
  then show ?thesis by force
qed

lemma first_conflict_None:
  "first_conflict inventory gateway ips = None \<longleftrightarrow> gateway \<notin> set ips \<and> set ips \<inter> set (in_Addresses inventory) = {}"
  by (induction ips) (auto simp: address_conflict_def split: if_splits)

lemma used_vmid_None: "used_vmid inventory vmid count = None \<longleftrightarrow> {vmid..<vmid + count} \<inter> set (in_VMIDs inventory) = {}"
  by (auto simp: used_vmid_def find_None_iff)

lemma check_network_iff:
  assumes "1 \<le> count" "count \<le> 108"
  shows "check_network inventory network count = None \<longleftrightarrow> network_free inventory network count"
proof (cases "parse_ip4 (nw_Address network)")
  case None
  then show ?thesis by (simp add: check_network_def network_free_def)
next
  case (Some ip)
  show ?thesis
  proof (cases "prefix_ok (nw_PrefixLength network)")
    case False
    with Some show ?thesis by (simp add: check_network_def network_free_def)
  next
    case True
    let ?k = "host_bits (nw_PrefixLength network)"
    let ?net = "masked ?k ip"
    let ?top = "unat ?net + 2 ^ ?k - 1"
    have gateway: "gateway_ok ?k ?net (ucast ?net) (broadcast_of ?k (ucast ?net)) g \<longleftrightarrow> unat ?net < unat g \<and> unat g < ?top" for g
      using host_bits_power [OF True]
      by (auto simp: gateway_ok_def contains_masked up_inj unat_broadcast [OF True])
    have fits: "((ucast ip :: 64 word) \<le> ucast ?net \<or> broadcast_of ?k (ucast ?net) \<le> ucast ip + of_int count - 1) \<longleftrightarrow>
        \<not> (unat ?net < unat ip \<and> unat ip + nat count \<le> ?top)"
      using assms by (auto simp: word_le_nat_alt unat_broadcast [OF True] unat_last)
    have free: "first_conflict inventory (show_ip4 g) (range_addresses ip count) = None \<longleftrightarrow>
        unat g \<notin> {unat ip..<unat ip + nat count} \<and> (\<forall>a \<in> {unat ip..<unat ip + nat count}. show_ip4 (of_nat a) \<notin> set (in_Addresses inventory))"
      if "unat ip + nat count \<le> ?top" for g
    proof -
      have "unat ip + nat count \<le> 2 ^ 32" using that masked_top [of ?k ip] host_bits_range [OF True] by simp
      then show ?thesis by (auto simp: first_conflict_None range_addresses_set address_in_range)
    qed
    have "check_network inventory network count = None \<longleftrightarrow> parse_ip4 (nw_DNSServer network) \<noteq> None \<and>
        (\<exists>g. parse_ip4 (nw_Gateway network) = Some g \<and> unat ?net < unat ip \<and> unat ip + nat count \<le> ?top \<and>
          unat ?net < unat g \<and> unat g < ?top \<and> first_conflict inventory (show_ip4 g) (range_addresses ip count) = None)"
      unfolding check_network_def Let_def by (simp only: Some True option.case fits gateway down_up) (auto split: option.splits)
    then show ?thesis using Some True free by (auto simp: network_free_def Let_def)
  qed
qed

lemma validate_iff: "ValidateAllocation inventory v count = None \<longleftrightarrow> allocation_free inventory v count"
proof (cases "used_vmid inventory (al_VMID v) count")
  case None
  moreover from this have "{al_VMID v..<al_VMID v + count} \<inter> set (in_VMIDs inventory) = {}" by (simp only: used_vmid_None)
  ultimately show ?thesis
    by (auto simp: ValidateAllocation_def allocation_free_def vmid_range_ok_def check_network_iff)
next
  case (Some k)
  then have "{al_VMID v..<al_VMID v + count} \<inter> set (in_VMIDs inventory) \<noteq> {}" by (simp flip: used_vmid_None)
  with Some show ?thesis by (simp add: ValidateAllocation_def allocation_free_def)
qed

text \<open>
  C12: The check decides the declarative rules, on natural numbers and without wrap-around: a range
  passes exactly when the machine count and the identifiers are within bounds and unused, and the
  addresses, if any, are unused host addresses of the subnet beside a host gateway outside the range.
\<close>

theorem validate_decides: "ValidateAllocation inventory v count = None \<longleftrightarrow> allocation_free inventory v count"
  by (rule validate_iff)

text \<open>
  Addresses round trip: a text is read as an address exactly when it is the text the address is
  printed as, so that the text keys of the inventory stand for addresses one to one.
\<close>

theorem address_round_trip: "parse_ip4 s = Some w \<longleftrightarrow> s = show_ip4 w"
  using parse_ip4_Some by auto

section \<open>What the search finds\<close>

definition vmids_free :: "int list \<Rightarrow> int \<Rightarrow> int \<Rightarrow> bool" where
  "vmids_free used count v \<longleftrightarrow> {v..<v + count} \<inter> set used = {}"

lemma gap_conflict_None: "gap_conflict used count v = None \<longleftrightarrow> vmids_free used count v"
proof -
  have "(\<forall>i \<in> {0..count - 1}. v + i \<notin> set used) \<longleftrightarrow> (\<forall>w \<in> {v..<v + count}. w \<notin> set used)"
    (is "?l \<longleftrightarrow> ?r")
  proof
    assume ?l
    then have "v + (w - v) \<notin> set used" if "w \<in> {v..<v + count}" for w using that by (intro bspec [of _ _ "w - v"]) auto
    then show ?r by simp
  qed auto
  then show ?thesis by (auto simp: gap_conflict_def vmids_free_def find_None_iff)
qed

definition first_gap :: "int list \<Rightarrow> int \<Rightarrow> int \<Rightarrow> int \<Rightarrow> bool" where
  "first_gap used count v r \<longleftrightarrow>
     v \<le> r \<and> (r \<le> last_vmid - count + 1 \<longrightarrow> vmids_free used count r) \<and>
     (\<forall>w. v \<le> w \<and> w < r \<and> w \<le> last_vmid - count + 1 \<longrightarrow> \<not> vmids_free used count w)"

lemma first_gap_skip:
  assumes "first_gap used count (v + (i + 1)) r" "0 \<le> i" "i < count" "v + i \<in> set used"
  shows "first_gap used count v r"
proof -
  have "\<not> vmids_free used count w" if "v \<le> w" "w < r" "w \<le> last_vmid - count + 1" for w
  proof (cases "w \<le> v + i")
    case True
    with that assms(2-4) have "v + i \<in> {w..<w + count} \<inter> set used" by auto
    then show ?thesis by (auto simp: vmids_free_def)
  next
    case False
    with that assms(1) show ?thesis by (auto simp: first_gap_def)
  qed
  with assms(1,2) show ?thesis by (auto simp: first_gap_def)
qed

lemma gap_search_first: "first_gap used count v (gap_search used count v)"
proof (induction used count v rule: gap_search.induct)
  case (1 used count v)
  show ?case
  proof (cases "v \<le> last_vmid - count + 1")
    case False
    then show ?thesis by (auto simp: gap_search.simps [of used count v] first_gap_def)
  next
    case True
    show ?thesis
    proof (cases "gap_conflict used count v")
      case None
      with True have "gap_search used count v = v" by (simp add: gap_search.simps [of used count v])
      moreover from None have "vmids_free used count v" by (simp only: gap_conflict_None)
      ultimately show ?thesis by (auto simp: first_gap_def)
    next
      case (Some i)
      note i = gap_conflict_offset [OF Some]
      from 1 [OF True Some] i have "first_gap used count v (gap_search used count (v + (i + 1)))"
        by (intro first_gap_skip [of used count v i]) auto
      with Some True show ?thesis by (simp add: gap_search.simps [of used count v])
    qed
  qed
qed

lemma highest_vmid_above:
  assumes "\<forall>k \<in> set used. k < 2 ^ 63 - 1"
  shows "100 \<le> highest_vmid used \<and> (\<forall>k \<in> set used. k < highest_vmid used)"
proof -
  let ?f = "\<lambda>k v. if v \<le> k then int64 (k + 1) else v"
  have "v \<le> fold ?f used v \<and> (\<forall>k \<in> set used. k < fold ?f used v)" if "100 \<le> v" for v
    using assms that
  proof (induction used arbitrary: v)
    case Nil
    then show ?case by simp
  next
    case (Cons k used)
    have "v \<le> ?f k v \<and> k < ?f k v" using Cons.prems int64_id [of "k + 1"] by auto
    moreover have "100 \<le> ?f k v" using calculation Cons.prems by linarith
    ultimately show ?case using Cons.IH [of "?f k v"] Cons.prems by fastforce
  qed
  then show ?thesis by (simp add: highest_vmid_def)
qed

lemma suggest_vmid_free:
  assumes "\<forall>k \<in> set used. k < 2 ^ 63 - 1" "100 \<le> w" "w \<le> last_vmid - count + 1" "vmids_free used count w" "1 \<le> count"
  shows "100 \<le> suggest_vmid used count \<and> suggest_vmid used count \<le> last_vmid - count + 1 \<and> vmids_free used count (suggest_vmid used count)"
proof (cases "highest_vmid used \<le> last_vmid - count + 1")
  case True
  then show ?thesis using highest_vmid_above [OF assms(1)] by (fastforce simp: suggest_vmid_def vmids_free_def)
next
  case False
  moreover have "gap_search used count 100 \<le> w"
    using gap_search_first [of used count 100] assms(2-4) by (force simp: first_gap_def)
  ultimately show ?thesis using gap_search_first [of used count 100] assms(3) by (auto simp: suggest_vmid_def first_gap_def)
qed

text \<open>
  The search for a gap ends for every inventory, at the least start from which all identifiers
  are free; when there is none, past the last possible start.
\<close>

theorem gap_search_least: "first_gap used count v (gap_search used count v)"
  by (rule gap_search_first)

lemma scan_valid:
  "scan_addresses inventory vmid profile count candidate limit = Some v \<Longrightarrow>
   ValidateAllocation inventory v count = None \<and> al_VMID v = vmid \<and> nw_Address (al_Network v) \<noteq> []"
proof (induction inventory vmid profile count candidate limit rule: scan_addresses.induct)
  case (1 inventory vmid profile count candidate limit)
  then show ?case
    by (subst (asm) (2) scan_addresses.simps) (auto simp: at_address_def split: if_splits)
qed

lemma scan_finds:
  assumes "candidate \<le> c" "c + nat count \<le> limit" "ValidateAllocation inventory (at_address vmid profile c) count = None"
  shows "scan_addresses inventory vmid profile count candidate limit \<noteq> None"
  using assms
proof (induction inventory vmid profile count candidate limit rule: scan_addresses.induct)
  case (1 inventory vmid profile count candidate limit)
  show ?case
  proof (cases "ValidateAllocation inventory (at_address vmid profile candidate) count = None")
    case True
    with "1.prems" show ?thesis by (subst scan_addresses.simps) simp
  next
    case False
    with "1.prems" have "candidate + 1 \<le> c" by (metis Suc_eq_plus1 Suc_leI le_neq_implies_less)
    with 1 False show ?thesis by (subst scan_addresses.simps) simp
  qed
qed

lemma try_profile_valid:
  "try_profile inventory preferred vmid count profile = Some v \<Longrightarrow>
   ValidateAllocation inventory v count = None \<and> al_VMID v = vmid \<and> nw_Address (al_Network v) \<noteq> []"
  by (auto simp: try_profile_def Let_def dest: scan_valid split: option.splits if_splits)

lemma try_profiles_valid:
  "try_profiles inventory preferred vmid count profiles = Some v \<Longrightarrow>
   ValidateAllocation inventory v count = None \<and> al_VMID v = vmid \<and> nw_Address (al_Network v) \<noteq> []"
  by (induction profiles) (auto dest: try_profile_valid split: option.splits)

text \<open>
  C13: What the search proposes passes the check: when some range of identifiers is free, the proposal
  is accepted for the requested number of machines, with or without an address.
\<close>

theorem suggestion_valid:
  assumes "Suggest inventory count preferred = Inr v" "\<forall>k \<in> set (in_VMIDs inventory). k < 2 ^ 63 - 1"
    and "100 \<le> w" "w + count - 1 \<le> last_vmid" "vmids_free (in_VMIDs inventory) count w"
  shows "ValidateAllocation inventory v count = None"
proof -
  let ?vmid = "suggest_vmid (in_VMIDs inventory) count"
  have count: "1 \<le> count" "count \<le> 108" using assms(1) by (auto simp: Suggest_def split: if_splits)
  have free: "100 \<le> ?vmid \<and> ?vmid \<le> last_vmid - count + 1 \<and> vmids_free (in_VMIDs inventory) count ?vmid"
    using assms count by (intro suggest_vmid_free [of _ w]) auto
  show ?thesis
  proof (cases "try_profiles inventory preferred ?vmid count (preferred # in_Networks inventory)")
    case None
    with assms(1) count have "v = \<lparr>al_VMID = ?vmid, al_Network = no_network\<rparr>" by (simp add: Suggest_def Let_def)
    with free count show ?thesis by (simp add: validate_iff allocation_free_def vmids_free_def no_network_def)
  next
    case (Some u)
    with assms(1) count have "v = u" by (simp add: Suggest_def Let_def)
    with try_profiles_valid [OF Some] show ?thesis by simp
  qed
qed

text \<open>The subnet of a usable profile, and its addresses.\<close>

lemma valid_candidate_range:
  assumes "ValidateAllocation inventory (at_address vmid profile c) count = None" "c < 2 ^ 32"
    and "masked (host_bits (nw_PrefixLength profile)) (of_nat c) = subnet"
  shows "unat subnet < c \<and> c + nat count \<le> profile_limit (host_bits (nw_PrefixLength profile)) subnet"
  using assms unat_of_nat_less [OF assms(2)]
  by (auto simp: validate_iff allocation_free_def network_free_def at_address_def profile_limit_def Let_def)

lemma unat_after_subnet: "unat (masked k ip) < c \<Longrightarrow> c < 2 ^ 32 \<Longrightarrow> unat (masked k ip + 1) \<le> c"
  by (simp add: unat_plus_if')

lemma try_profile_finds:
  assumes "profile_usable preferred vmid profile" "parse_ip4 (nw_Address profile) = Some ip" "c < 2 ^ 32"
    and "masked (host_bits (nw_PrefixLength profile)) (of_nat c) = masked (host_bits (nw_PrefixLength profile)) ip"
    and "ValidateAllocation inventory (at_address vmid profile c) count = None"
  shows "try_profile inventory preferred vmid count profile \<noteq> None"
proof -
  let ?k = "host_bits (nw_PrefixLength profile)"
  have range: "unat (masked ?k ip) < c" "c + nat count \<le> profile_limit ?k (masked ?k ip)"
    using valid_candidate_range [OF assms(5,3,4)] by auto
  have "scan_addresses inventory vmid profile count (unat (masked ?k ip + 1)) (profile_limit ?k (masked ?k ip)) \<noteq> None"
    using scan_finds [OF unat_after_subnet [OF range(1) assms(3)] range(2) assms(5)] .
  with assms(1,2) show ?thesis by (auto simp: try_profile_def Let_def split: option.splits)
qed

lemma try_profiles_finds:
  "profile \<in> set profiles \<Longrightarrow> try_profile inventory preferred vmid count profile \<noteq> None \<Longrightarrow>
   try_profiles inventory preferred vmid count profiles \<noteq> None"
  by (induction profiles) (auto split: option.splits)

text \<open>
  The search is complete: when the subnet of a usable profile has a free range of addresses, the
  proposal comes with an address.
\<close>

theorem suggestion_complete:
  assumes "Suggest inventory count preferred = Inr v" "vmid = suggest_vmid (in_VMIDs inventory) count"
    and "profile \<in> set (preferred # in_Networks inventory)" "profile_usable preferred vmid profile"
    and "parse_ip4 (nw_Address profile) = Some ip" "c < 2 ^ 32"
    and "masked (host_bits (nw_PrefixLength profile)) (of_nat c) = masked (host_bits (nw_PrefixLength profile)) ip"
    and "ValidateAllocation inventory (at_address vmid profile c) count = None"
  shows "nw_Address (al_Network v) \<noteq> []"
proof -
  obtain u where "try_profiles inventory preferred vmid count (preferred # in_Networks inventory) = Some u"
    using try_profiles_finds [OF assms(3) try_profile_finds [OF assms(4-8)]] by auto
  moreover from this assms(1,2) have "v = u" by (auto simp: Suggest_def Let_def split: if_splits)
  ultimately show ?thesis using try_profiles_valid by blast
qed

section \<open>Reservations\<close>

lemma AddNetwork_sets:
  "in_VMIDs (AddNetwork network inventory) = in_VMIDs inventory"
  "set (in_Addresses (AddNetwork network inventory)) =
     (case parse_ip4 (nw_Address network) of None \<Rightarrow> {} | Some ip \<Rightarrow> {show_ip4 ip}) \<union> set (in_Addresses inventory)"
  by (auto simp: AddNetwork_def split: option.splits)

lemma reserve_fold:
  "set (in_VMIDs (fold (reserve_one vmid network) is inventory)) =
     (\<lambda>i. int64 (vmid + int i)) ` set is \<union> set (in_VMIDs inventory)"
  "set (in_Addresses (fold (reserve_one vmid network) is inventory)) =
     (case parse_ip4 (nw_Address network) of None \<Rightarrow> {} | Some ip \<Rightarrow> (\<lambda>i. show_ip4 (ip + of_nat i)) ` set is) \<union> set (in_Addresses inventory)"
  by (induction "is" arbitrary: inventory) (auto simp: reserve_one_def Let_def AddNetwork_sets split: option.splits)

text \<open>The identifiers and addresses a range covers.\<close>

definition range_vmids :: "int \<Rightarrow> int \<Rightarrow> int set" where
  "range_vmids vmid count = {vmid..<vmid + count}"

definition range_ips :: "Network \<Rightarrow> int \<Rightarrow> 32 word set" where
  "range_ips network count =
     (case parse_ip4 (nw_Address network) of None \<Rightarrow> {} | Some ip \<Rightarrow> (\<lambda>i. ip + of_nat i) ` {0..<nat count})"

lemma reserved_vmids:
  assumes "0 \<le> vmid" "vmid + count < 2 ^ 63" "0 \<le> count"
  shows "set (in_VMIDs (Reserve vmid count network inventory)) = range_vmids vmid count \<union> set (in_VMIDs inventory)"
proof -
  have "(\<lambda>i. int64 (vmid + int i)) ` {0..<nat count} = (\<lambda>i. vmid + int i) ` {0..<nat count}"
    using assms by (intro image_cong) (auto simp: int64_id)
  also have "\<dots> = range_vmids vmid count"
    using assms(3) by (auto simp: range_vmids_def image_iff intro!: bexI [of _ "nat (x - vmid)" for x])
  finally show ?thesis by (simp add: Reserve_def reserve_fold)
qed

lemma reserved_ips:
  "set (in_Addresses (Reserve vmid count network inventory)) = show_ip4 ` range_ips network count \<union> set (in_Addresses inventory)"
  by (auto simp: Reserve_def reserve_fold range_ips_def image_image split: option.splits)

lemma valid_vmids:
  "ValidateAllocation inventory v count = None \<Longrightarrow>
   range_vmids (al_VMID v) count \<inter> set (in_VMIDs inventory) = {} \<and> 100 \<le> al_VMID v \<and> al_VMID v + count < 2 ^ 63 \<and> 1 \<le> count"
  by (auto simp: validate_iff allocation_free_def range_vmids_def last_vmid_def)

lemma valid_ips:
  assumes "ValidateAllocation inventory v count = None"
  shows "show_ip4 ` range_ips (al_Network v) count \<inter> set (in_Addresses inventory) = {}"
proof (cases "parse_ip4 (nw_Address (al_Network v))")
  case None
  then show ?thesis by (simp add: range_ips_def)
next
  case (Some ip)
  then have "nw_Address (al_Network v) \<noteq> []" using parse_ip4_Some by fastforce
  with assms Some have "\<forall>a \<in> {unat ip..<unat ip + nat count}. show_ip4 (of_nat a) \<notin> set (in_Addresses inventory)"
    by (auto simp: validate_iff allocation_free_def network_free_def Let_def)
  then have "show_ip4 (of_nat (unat ip + i)) \<notin> set (in_Addresses inventory)" if "i < nat count" for i
    using that by (elim bspec) simp
  then have "show_ip4 (ip + of_nat i) \<notin> set (in_Addresses inventory)" if "i < nat count" for i
    using that by simp
  then show ?thesis using Some by (auto simp: range_ips_def)
qed

text \<open>
  A range that was checked and reserved is not given out again: whatever passes the check
  afterwards shares neither an identifier nor an address with it.
\<close>

theorem reservations_disjoint:
  assumes "ValidateAllocation inventory first m = None"
    and "ValidateAllocation (Reserve (al_VMID first) m (al_Network first) inventory) second n = None"
  shows "range_vmids (al_VMID first) m \<inter> range_vmids (al_VMID second) n = {} \<and>
    range_ips (al_Network first) m \<inter> range_ips (al_Network second) n = {}"
proof -
  have "range_vmids (al_VMID second) n \<inter> range_vmids (al_VMID first) m = {}"
    using valid_vmids [OF assms(1)] valid_vmids [OF assms(2)] reserved_vmids [of "al_VMID first" m "al_Network first" inventory] by auto
  moreover have "show_ip4 ` range_ips (al_Network second) n \<inter> show_ip4 ` range_ips (al_Network first) m = {}"
    using valid_ips [OF assms(2)] by (auto simp: reserved_ips)
  ultimately show ?thesis by auto
qed

section \<open>Witnesses\<close>

lemma suggest_returns: "1 \<le> count \<Longrightarrow> count \<le> 108 \<Longrightarrow> \<exists>v. Suggest inventory count preferred = Inr v"
  by (cases "try_profiles inventory preferred (suggest_vmid (in_VMIDs inventory) count) count (preferred # in_Networks inventory)")
    (simp_all add: Suggest_def Let_def)

definition sample_network :: "string \<Rightarrow> Network" where
  "sample_network ip = \<lparr>nw_Address = ip, nw_PrefixLength = 24, nw_Gateway = ''10.0.0.1'', nw_DNSServer = ''1.1.1.1'', nw_Bridge = []\<rparr>"

lemmas parse_defs = parse_ip4_def octet_def canonical_def decimal_value_def digit_value_def is_digit_def

lemma sample_addresses:
  "parse_ip4 ''10.0.0.1'' = Some 167772161" "parse_ip4 ''1.1.1.1'' = Some 16843009"
  "parse_ip4 ''10.0.0.4'' = Some 167772164" "parse_ip4 ''10.0.0.6'' = Some 167772166"
  by (simp_all add: parse_defs)

lemma sample_prefix: "prefix_ok 24" "host_bits 24 = 8"
  by (simp_all add: prefix_ok_def host_bits_def)

lemma sample_masked: "masked 8 167772161 = 167772160" "masked 8 167772164 = 167772160" "masked 8 167772166 = 167772160"
  by (simp_all add: masked_def)

lemmas sample_free_defs = validate_iff allocation_free_def network_free_def Let_def sample_network_def sample_addresses sample_prefix
  sample_masked last_vmid_def

lemma sample_range_valid:
  "ValidateAllocation NewInventory \<lparr>al_VMID = 100, al_Network = sample_network ''10.0.0.4''\<rparr> 2 = None"
  by (simp add: sample_free_defs NewInventory_def)

lemma sample_range_valid_again:
  "ValidateAllocation (Reserve 100 2 (sample_network ''10.0.0.4'') NewInventory) \<lparr>al_VMID = 102, al_Network = sample_network ''10.0.0.6''\<rparr> 2 = None"
proof -
  define inv where "inv = Reserve 100 2 (sample_network ''10.0.0.4'') NewInventory"
  have vmids: "set (in_VMIDs inv) = {100, 101}"
  proof -
    have "{100..<102} = {100, 101::int}" by auto
    then show ?thesis by (simp add: inv_def reserved_vmids range_vmids_def NewInventory_def)
  qed
  have two: "{0..<2} = {0, 1::nat}" by auto
  have "range_ips (sample_network ''10.0.0.4'') 2 = {167772164, 167772165}"
    by (simp add: range_ips_def sample_network_def sample_addresses two)
  then have ips: "set (in_Addresses inv) = {show_ip4 167772164, show_ip4 167772165}"
    by (simp add: inv_def reserved_ips NewInventory_def)
  have "{167772166..<167772168} = {167772166, 167772167::nat}" by auto
  then show ?thesis unfolding inv_def [symmetric] by (simp add: sample_free_defs vmids ips)
qed

theorem reservations_disjoint_witness:
  "range_vmids 100 2 \<inter> range_vmids 102 2 = {} \<and>
   range_ips (sample_network ''10.0.0.4'') 2 \<inter> range_ips (sample_network ''10.0.0.6'') 2 = {}"
  using reservations_disjoint [of NewInventory "\<lparr>al_VMID = 100, al_Network = sample_network ''10.0.0.4''\<rparr>" 2
      "\<lparr>al_VMID = 102, al_Network = sample_network ''10.0.0.6''\<rparr>" 2] sample_range_valid sample_range_valid_again
  by (simp only: Allocation.simps)

lemma sample_suggest_vmid: "suggest_vmid [100] 2 = 101"
  by (simp add: suggest_vmid_def highest_vmid_def int64_def last_vmid_def)

theorem suggestion_valid_witness:
  "\<exists>v. Suggest (NewInventory\<lparr>in_VMIDs := [100]\<rparr>) 2 no_network = Inr v \<and>
     ValidateAllocation (NewInventory\<lparr>in_VMIDs := [100]\<rparr>) v 2 = None"
proof -
  let ?inv = "NewInventory\<lparr>in_VMIDs := [100]\<rparr>"
  obtain v where v: "Suggest ?inv 2 no_network = Inr v"
    using suggest_returns [of 2] by auto
  have "ValidateAllocation ?inv v 2 = None"
    by (rule suggestion_valid [OF v, of 300]) (simp_all add: last_vmid_def vmids_free_def)
  with v show ?thesis by blast
qed

theorem suggestion_complete_witness:
  "\<exists>v. Suggest NewInventory 2 (sample_network ''10.0.0.4'') = Inr v \<and> nw_Address (al_Network v) \<noteq> []"
proof -
  let ?net = "sample_network ''10.0.0.4''"
  obtain v where v: "Suggest NewInventory 2 ?net = Inr v"
    using suggest_returns [of 2] by auto
  have vmid: "100 = suggest_vmid (in_VMIDs NewInventory) 2"
    by (simp add: NewInventory_def suggest_vmid_def highest_vmid_def last_vmid_def)
  have at: "at_address 100 ?net 167772166 = \<lparr>al_VMID = 100, al_Network = sample_network ''10.0.0.6''\<rparr>"
    using parse_ip4_Some [OF sample_addresses(4)] by (simp add: at_address_def sample_network_def)
  have "ValidateAllocation NewInventory (at_address 100 ?net 167772166) 2 = None"
    unfolding at by (simp add: sample_free_defs NewInventory_def)
  moreover have "profile_usable ?net 100 ?net"
    by (simp add: profile_usable_def sample_free_defs NewInventory_def)
  ultimately have "nw_Address (al_Network v) \<noteq> []"
    by (intro suggestion_complete [OF v vmid, of ?net 167772164 167772166])
      (simp_all add: sample_network_def sample_addresses sample_prefix sample_masked)
  with v show ?thesis by blast
qed

end
