(* ===== verification/ProvisioningApi.thy ===== *)
theory ProvisioningApi
  imports Provisioning ManagedStore
begin

text \<open>
  The handlers that allocate machines (\<open>api/provisioning.go\<close>, the member loop of
  \<open>api/multiclusters.go\<close>, \<open>storage/provisioning.go\<close>): the inventory of a connection is what the
  provider reports together with the allocations of the saved resources, and a request checks its
  range under an advisory lock before it saves a resource of its own.
\<close>

section \<open>The inventory of a connection\<close>

text \<open>A guest the provider reports (\<open>proxmoxvm.AllocationVM\<close>).\<close>

record AllocationVM =
  vm_VMID :: int
  vm_Config :: "(string \<times> json) list"
  vm_Addresses :: "string list"

type_synonym spec = "(string \<times> json) list"

record ProvisioningClaim =
  pc_Kind :: string
  pc_Spec :: RawMessage

definition ProvisioningClaims :: "string \<Rightarrow> Store \<Rightarrow> ProvisioningClaim list" where
  "ProvisioningClaims connectionID st =
     map (\<lambda>m. \<lparr>pc_Kind = mr_Kind m, pc_Spec = mr_Spec m\<rparr>)
       (rev (filter (\<lambda>m. mr_ConnectionID m = Some connectionID \<and> mr_DeletedAt m = None) (db_managed st)))"

definition suffix_after :: "string \<Rightarrow> string \<Rightarrow> string option" where
  "suffix_after key part = (if length key < length part \<and> take (length key) part = key then Some (drop (length key) part) else None)"

definition last_part :: "string \<Rightarrow> string list \<Rightarrow> string" where
  "last_part key parts = (case rev (List.map_filter (suffix_after key) parts) of [] \<Rightarrow> [] | v # _ \<Rightarrow> v)"

definition networkBridge :: "string \<Rightarrow> string" where
  "networkBridge text =
     (let parts = split_on CHR '','' text; bridge = last_part ''bridge='' parts; tag = last_part ''tag='' parts
      in if tag \<noteq> [] then bridge @ ''/'' @ tag else bridge)"

text \<open>Decoding into \<open>map[string]any\<close>: an object or null.\<close>

definition decode_spec :: "RawMessage \<Rightarrow> spec option" where
  "decode_spec raw = (case unmarshal raw of Some (JObj kvs) \<Rightarrow> Some kvs | Some JNull \<Rightarrow> Some [] | _ \<Rightarrow> None)"

definition provisioningClaimSpecs :: "spec \<Rightarrow> spec list" where
  "provisioningClaimSpecs spec =
     (if map_of spec ''mode'' \<noteq> Some (JStr ''multi'') then [spec]
      else case map_of spec ''members'' of
        Some (JArr members) \<Rightarrow> List.map_filter (\<lambda>v. case v of JObj kvs \<Rightarrow> Some kvs | _ \<Rightarrow> None) members
      | _ \<Rightarrow> [])"

definition pool_count :: "(string \<Rightarrow> string) \<Rightarrow> json \<Rightarrow> int" where
  "pool_count fmt pool = (case pool of JObj item \<Rightarrow> intField fmt item ''count'' | _ \<Rightarrow> 0)"

definition claim_count :: "(string \<Rightarrow> string) \<Rightarrow> spec \<Rightarrow> int" where
  "claim_count fmt spec =
     (let count = intField fmt spec ''controlPlanes'';
          count = (case map_of spec ''managementPool'' of Some (JObj pool) \<Rightarrow> int64 (count + intField fmt pool ''count'') | _ \<Rightarrow> count)
      in case map_of spec ''applicationPools'' of
           Some (JArr pools) \<Rightarrow> foldl (\<lambda>count pool. int64 (count + pool_count fmt pool)) count pools
         | _ \<Rightarrow> count)"

text \<open>A range of machines as the code passes it around: first identifier, count and network.\<close>

type_synonym range = "int \<times> int \<times> Network"

definition claim_range :: "(string \<Rightarrow> string) \<Rightarrow> string \<Rightarrow> spec \<Rightarrow> range" where
  "claim_range fmt kind spec =
     (if kind = ''kubernetes-cluster''
      then (intField fmt spec ''baseVMID'', claim_count fmt spec, NetworkFromSpec fmt spec)
      else (intField fmt spec ''vmid'', 1, NetworkFromSpec fmt spec))"

definition reserve_range :: "range \<Rightarrow> Inventory \<Rightarrow> Inventory" where
  "reserve_range r inventory =
     (case r of (vmid, count, network) \<Rightarrow>
        if 100 \<le> vmid \<and> 0 < count \<and> count \<le> 108 then Reserve vmid count network inventory else inventory)"

definition reserve_claim :: "(string \<Rightarrow> string) \<Rightarrow> ProvisioningClaim \<Rightarrow> Inventory \<Rightarrow> string + Inventory" where
  "reserve_claim fmt claim inventory =
     (case decode_spec (pc_Spec claim) of
        None \<Rightarrow> Inl ''Could not read saved VM allocations.''
      | Some spec \<Rightarrow> Inr (fold (\<lambda>member. reserve_range (claim_range fmt (pc_Kind claim) member)) (provisioningClaimSpecs spec) inventory))"

text \<open>A reported guest: its identifier, its networks, and the preferred network if it is the template.\<close>

definition add_vm :: "int \<Rightarrow> AllocationVM \<Rightarrow> Inventory \<times> Network \<Rightarrow> Inventory \<times> Network" where
  "add_vm templateVMID vm state =
     (case state of (inventory, preferred) \<Rightarrow>
        let networks = ConfigNetworks (vm_Config vm);
            taken = fold AddNetwork networks (inventory\<lparr>in_VMIDs := List.insert (vm_VMID vm) (in_VMIDs inventory)\<rparr>);
            chosen = (case networks of [] \<Rightarrow> preferred | network # _ \<Rightarrow> network);
            bridged = (if nw_Bridge chosen = [] then
                (case map_of (vm_Config vm) ''net0'' of
                   Some (JStr net0) \<Rightarrow> chosen\<lparr>nw_Bridge := networkBridge net0\<rparr>
                 | _ \<Rightarrow> chosen) else chosen)
        in (fold (\<lambda>a. AddNetwork (no_network\<lparr>nw_Address := a\<rparr>)) (vm_Addresses vm) taken,
            if vm_VMID vm = templateVMID then bridged else preferred))"

text \<open>Profiles of saved resources come before those of the reported guests.\<close>

definition merge_claims :: "(string \<Rightarrow> string) \<Rightarrow> ProvisioningClaim list \<Rightarrow> Inventory \<Rightarrow> string + Inventory" where
  "merge_claims fmt claims inventory =
     (case fold_err (reserve_claim fmt) claims (inventory\<lparr>in_Networks := []\<rparr>) of
        Inl e \<Rightarrow> Inl e
      | Inr merged \<Rightarrow> Inr (merged\<lparr>in_Networks := in_Networks merged @ in_Networks inventory\<rparr>))"

definition template_network :: "(string \<Rightarrow> string) \<Rightarrow> string \<Rightarrow> string \<Rightarrow> Store \<Rightarrow> string + Network \<times> int" where
  "template_network fmt connectionID templateID st =
     (if templateID = [] then Inr (no_network, 0)
      else case GetManagedResource templateID st of
        Inl _ \<Rightarrow> Inl ''Select a template on the same Proxmox connection.''
      | Inr template \<Rightarrow>
          if mg_Kind template \<noteq> ''machine-template'' \<or> mg_ConnectionID template \<noteq> connectionID
          then Inl ''Select a template on the same Proxmox connection.''
          else let spec = (case decode_spec (mg_Spec template) of None \<Rightarrow> [] | Some kvs \<Rightarrow> kvs)
               in Inr (NetworkFromSpec fmt spec, intField fmt spec ''vmid''))"

text \<open>
  \<open>read\<close> is the provider's answer for the connection, with or without the networks of the guests; its
  error is a text and whether it is \<open>ErrNetworkAllocationsUnavailable\<close>.
\<close>

type_synonym provider = "bool \<Rightarrow> (string \<times> bool) + AllocationVM list"

definition provisioningInventory ::
  "(string \<Rightarrow> string) \<Rightarrow> provider \<Rightarrow> string \<Rightarrow> string \<Rightarrow> bool \<Rightarrow> Store \<Rightarrow> (string \<times> bool) + Inventory \<times> Network" where
  "provisioningInventory fmt read connectionID templateID readNetwork st =
     (case read readNetwork of
        Inl e \<Rightarrow> Inl e
      | Inr vms \<Rightarrow>
          (case template_network fmt connectionID templateID st of
             Inl e \<Rightarrow> Inl (e, False)
           | Inr (preferred, templateVMID) \<Rightarrow>
               (case fold (add_vm templateVMID) vms (NewInventory, preferred) of
                  (inventory, preferred) \<Rightarrow>
                    (case merge_claims fmt (ProvisioningClaims connectionID st) inventory of
                       Inl e \<Rightarrow> Inl (e, False)
                     | Inr merged \<Rightarrow> Inr (merged, preferred)))))"

section \<open>Requests\<close>

text \<open>A proposal; when the networks cannot be read, identifiers only.\<close>

definition getProvisioningSuggestions ::
  "(string \<Rightarrow> string) \<Rightarrow> provider \<Rightarrow> string \<Rightarrow> string \<Rightarrow> string \<Rightarrow> Store \<Rightarrow> string + Allocation" where
  "getProvisioningSuggestions fmt read connectionID templateID raw st =
     (let count = (if raw = [] then Some 1 else parse_int64 raw)
      in case count of
        None \<Rightarrow> Inl ''Select a valid machine count.''
      | Some count \<Rightarrow>
          if raw \<noteq> [] \<and> (count < 1 \<or> 108 < count) then Inl ''Select a valid machine count.''
          else case provisioningInventory fmt read connectionID templateID True st of
            Inr (inventory, preferred) \<Rightarrow> Suggest inventory count preferred
          | Inl (e, unavailable) \<Rightarrow>
              if \<not> unavailable then Inl e
              else case provisioningInventory fmt read connectionID templateID False st of
                Inl _ \<Rightarrow> Inl e
              | Inr (inventory, _) \<Rightarrow> Suggest (inventory\<lparr>in_Networks := []\<rparr>) count no_network)"

text \<open>The range a request asks for, and its check; the caller holds the lock.\<close>

definition requested_range :: "(string \<Rightarrow> string) \<Rightarrow> spec \<Rightarrow> int \<Rightarrow> range" where
  "requested_range fmt spec count =
     (let vmid = intField fmt spec ''vmid''
      in (if vmid = 0 then intField fmt spec ''baseVMID'' else vmid, count, NetworkFromSpec fmt spec))"

definition check_range :: "Inventory \<Rightarrow> range \<Rightarrow> string option" where
  "check_range inventory r =
     (case r of (vmid, count, network) \<Rightarrow> ValidateAllocation inventory \<lparr>al_VMID = vmid, al_Network = network\<rparr> count)"

definition validateProvisioning ::
  "(string \<Rightarrow> string) \<Rightarrow> provider \<Rightarrow> string \<Rightarrow> spec \<Rightarrow> int \<Rightarrow> Store \<Rightarrow> string option" where
  "validateProvisioning fmt read connectionID spec count st =
     (case provisioningInventory fmt read connectionID [] (nw_Address (NetworkFromSpec fmt spec) \<noteq> []) st of
        Inl (e, _) \<Rightarrow> Some e
      | Inr (inventory, _) \<Rightarrow> check_range inventory (requested_range fmt spec count))"

text \<open>
  The members of a new multi-cluster: each range is checked against the inventory, its subnet against
  the pod and service networks of all members (\<open>netip.Prefix.Overlaps\<close>), and then reserved.
\<close>

definition prefixes_overlap :: "32 word \<times> int \<Rightarrow> 32 word \<times> int \<Rightarrow> bool" where
  "prefixes_overlap p q \<longleftrightarrow> (let k = host_bits (min (snd p) (snd q)) in masked k (fst p) = masked k (fst q))"

definition network_overlap :: "string list \<Rightarrow> Network \<Rightarrow> bool" where
  "network_overlap cidrs network \<longleftrightarrow>
     (case parse_ip4 (nw_Address network) of
        None \<Rightarrow> False
      | Some ip \<Rightarrow> list_ex (\<lambda>cidr. case parse_prefix4 cidr of
            None \<Rightarrow> False
          | Some p \<Rightarrow> prefixes_overlap p (ip, nw_PrefixLength network)) cidrs)"

definition admit_member :: "string list \<Rightarrow> string \<times> range \<Rightarrow> Inventory \<Rightarrow> string + Inventory" where
  "admit_member cidrs member inventory =
     (case member of (name, r) \<Rightarrow>
        (case check_range inventory r of
           Some e \<Rightarrow> Inl (name @ '': '' @ e)
         | None \<Rightarrow>
             (case r of (vmid, count, network) \<Rightarrow>
                if network_overlap cidrs network then Inl ''VM, pod and service networks must not overlap.''
                else Inr (Reserve vmid count network inventory))))"

definition admit_members :: "string list \<Rightarrow> (string \<times> range) list \<Rightarrow> Inventory \<Rightarrow> string + Inventory" where
  "admit_members cidrs = fold_err (admit_member cidrs)"

section \<open>Saved ranges stay reserved\<close>

definition range_vm :: "range \<Rightarrow> int set" where
  "range_vm r = (case r of (vmid, count, network) \<Rightarrow> range_vmids vmid count)"

definition range_ip :: "range \<Rightarrow> 32 word set" where
  "range_ip r = (case r of (vmid, count, network) \<Rightarrow> range_ips network count)"

definition ranges_apart :: "range \<Rightarrow> range \<Rightarrow> bool" where
  "ranges_apart r q \<longleftrightarrow> range_vm r \<inter> range_vm q = {} \<and> range_ip r \<inter> range_ip q = {}"

definition covered :: "Inventory \<Rightarrow> range \<Rightarrow> bool" where
  "covered inventory r \<longleftrightarrow>
     range_vm r \<subseteq> set (in_VMIDs inventory) \<and> show_ip4 ` range_ip r \<subseteq> set (in_Addresses inventory)"

text \<open>The ranges a saved resource is read as; only plausible ones are reserved.\<close>

definition plausible :: "range \<Rightarrow> bool" where
  "plausible r \<longleftrightarrow> (case r of (vmid, count, network) \<Rightarrow> 100 \<le> vmid \<and> 0 < count \<and> count \<le> 108 \<and> vmid + count < 2 ^ 63)"

definition claim_ranges :: "(string \<Rightarrow> string) \<Rightarrow> ProvisioningClaim \<Rightarrow> range list" where
  "claim_ranges fmt claim =
     (case decode_spec (pc_Spec claim) of
        None \<Rightarrow> []
      | Some spec \<Rightarrow> filter plausible (map (claim_range fmt (pc_Kind claim)) (provisioningClaimSpecs spec)))"

definition grows :: "Inventory \<Rightarrow> Inventory \<Rightarrow> bool" where
  "grows a b \<longleftrightarrow> set (in_VMIDs a) \<subseteq> set (in_VMIDs b) \<and> set (in_Addresses a) \<subseteq> set (in_Addresses b)"

lemma grows_refl [simp]: "grows a a"
  by (simp add: grows_def)

lemma grows_trans [trans]: "grows a b \<Longrightarrow> grows b c \<Longrightarrow> grows a c"
  by (auto simp: grows_def)

lemma covered_mono: "covered a r \<Longrightarrow> grows a b \<Longrightarrow> covered b r"
  by (auto simp: covered_def grows_def)

lemma grows_reserve: "grows inventory (Reserve vmid count network inventory)"
  by (auto simp: grows_def Reserve_def reserve_fold)

lemma covered_reserve: "plausible (vmid, count, network) \<Longrightarrow> covered (Reserve vmid count network inventory) (vmid, count, network)"
  by (auto simp: covered_def plausible_def range_vm_def range_ip_def reserved_vmids reserved_ips)

lemma reserve_range_covers: "grows inventory (reserve_range r inventory) \<and> (plausible r \<longrightarrow> covered (reserve_range r inventory) r)"
  by (cases r) (auto simp: reserve_range_def grows_reserve covered_reserve plausible_def)

lemma reserve_fold_covers:
  "grows inventory (fold (\<lambda>member. reserve_range (f member)) members inventory) \<and>
   (\<forall>member \<in> set members. plausible (f member) \<longrightarrow> covered (fold (\<lambda>member. reserve_range (f member)) members inventory) (f member))"
proof (induction members arbitrary: inventory)
  case Nil
  then show ?case by simp
next
  case (Cons m members)
  let ?one = "reserve_range (f m) inventory"
  from Cons [of ?one] reserve_range_covers [of inventory "f m"] show ?case
    by (auto intro: grows_trans covered_mono)
qed

lemma reserve_claim_covers:
  assumes "reserve_claim fmt claim inventory = Inr inventory'"
  shows "grows inventory inventory' \<and> (\<forall>r \<in> set (claim_ranges fmt claim). covered inventory' r)"
  using assms reserve_fold_covers [of inventory "claim_range fmt (pc_Kind claim)"]
  by (auto simp: reserve_claim_def claim_ranges_def split: option.splits)

lemma reserve_claims_cover:
  assumes "fold_err (reserve_claim fmt) claims inventory = Inr inventory'"
  shows "grows inventory inventory' \<and> (\<forall>claim \<in> set claims. \<forall>r \<in> set (claim_ranges fmt claim). covered inventory' r)"
  using assms
proof (induction claims arbitrary: inventory)
  case Nil
  then show ?case by simp
next
  case (Cons claim claims)
  then obtain mid where mid: "reserve_claim fmt claim inventory = Inr mid" "fold_err (reserve_claim fmt) claims mid = Inr inventory'"
    by (auto split: sum.splits)
  from reserve_claim_covers [OF mid(1)] Cons.IH [OF mid(2)] show ?case by (auto intro: grows_trans covered_mono)
qed

lemma merge_claims_cover:
  assumes "merge_claims fmt claims inventory = Inr merged" "claim \<in> set claims" "r \<in> set (claim_ranges fmt claim)"
  shows "covered merged r"
proof -
  obtain x where x: "fold_err (reserve_claim fmt) claims (inventory\<lparr>in_Networks := []\<rparr>) = Inr x"
      "merged = x\<lparr>in_Networks := in_Networks x @ in_Networks inventory\<rparr>"
    using assms(1) by (auto simp: merge_claims_def split: sum.splits)
  with reserve_claims_cover [OF x(1)] assms(2,3) have "covered x r" by blast
  with x(2) show ?thesis by (simp add: covered_def)
qed

lemma checked_apart:
  assumes "check_range inventory q = None" "covered inventory r"
  shows "ranges_apart r q"
proof -
  obtain vmid count network where q: "q = (vmid, count, network)" by (cases q) auto
  let ?v = "\<lparr>al_VMID = vmid, al_Network = network\<rparr>"
  have valid: "ValidateAllocation inventory ?v count = None" using assms(1) by (simp add: check_range_def q)
  show ?thesis using valid_vmids [OF valid] valid_ips [OF valid] assms(2)
    by (fastforce simp: ranges_apart_def covered_def range_vm_def range_ip_def q)
qed

lemma checked_plausible: "check_range inventory q = None \<Longrightarrow> plausible q"
  by (cases q) (auto simp: check_range_def plausible_def validate_iff allocation_free_def last_vmid_def)

lemma admit_members_apart:
  assumes "admit_members cidrs members inventory = Inr inventory'"
  shows "sorted_wrt ranges_apart (map snd members) \<and> (\<forall>r. covered inventory r \<longrightarrow> (\<forall>q \<in> set (map snd members). ranges_apart r q))"
  using assms unfolding admit_members_def
proof (induction members arbitrary: inventory)
  case Nil
  then show ?case by simp
next
  case (Cons member members)
  obtain name q where member: "member = (name, q)" by (cases member) auto
  obtain vmid count network where q: "q = (vmid, count, network)" by (cases q) auto
  let ?next = "Reserve vmid count network inventory"
  have step: "check_range inventory q = None" "fold_err (admit_member cidrs) members ?next = Inr inventory'"
    using Cons.prems by (auto simp: member q admit_member_def [of cidrs "(name, vmid, count, network)"] split: option.splits if_splits)
  have reserved: "covered ?next q" using covered_reserve [of vmid count network inventory] checked_plausible [OF step(1)] by (simp add: q)
  have later: "sorted_wrt ranges_apart (map snd members)" "\<And>r. covered ?next r \<Longrightarrow> \<forall>p \<in> set (map snd members). ranges_apart r p"
    using Cons.IH [OF step(2)] by blast+
  have "\<forall>p \<in> set (map snd (member # members)). ranges_apart r p" if "covered inventory r" for r
    using checked_apart [OF step(1) that] later(2) [OF covered_mono [OF that grows_reserve]] by (simp add: member)
  with later(1) later(2) [OF reserved] show ?case by (simp add: member)
qed

section \<open>Requests under the lock\<close>

text \<open>
  Requests on one connection: each takes the advisory lock, checks against the resources saved so far,
  saves its own resource, and releases the lock when it returns; resources are removed at any time.
\<close>

datatype 'c phase = Idle | Holding | Checked 'c | Saved

record 'c provisioning =
  pv_holder :: "nat option"
  pv_phase :: "nat \<Rightarrow> 'c phase"
  pv_claims :: "'c list"

definition free_lock :: "nat \<Rightarrow> 'c provisioning \<Rightarrow> 'c provisioning" where
  "free_lock r s = s\<lparr>pv_holder := None, pv_phase := (pv_phase s)(r := Idle)\<rparr>"

inductive provisioning_step :: "('c list \<Rightarrow> 'c \<Rightarrow> bool) \<Rightarrow> 'c provisioning \<Rightarrow> 'c provisioning \<Rightarrow> bool"
  for admits :: "'c list \<Rightarrow> 'c \<Rightarrow> bool" where
  take_lock: "pv_holder s = None \<Longrightarrow> pv_phase s r = Idle \<Longrightarrow>
    provisioning_step admits s (s\<lparr>pv_holder := Some r, pv_phase := (pv_phase s)(r := Holding)\<rparr>)"
| accept: "pv_phase s r = Holding \<Longrightarrow> admits (pv_claims s) c \<Longrightarrow>
    provisioning_step admits s (s\<lparr>pv_phase := (pv_phase s)(r := Checked c)\<rparr>)"
| save: "pv_phase s r = Checked c \<Longrightarrow>
    provisioning_step admits s (s\<lparr>pv_phase := (pv_phase s)(r := Saved), pv_claims := pv_claims s @ [c]\<rparr>)"
| return: "pv_phase s r \<noteq> Idle \<Longrightarrow> provisioning_step admits s (free_lock r s)"
| remove: "provisioning_step admits s (s\<lparr>pv_claims := filter p (pv_claims s)\<rparr>)"

definition provisioning_start :: "'c provisioning" where
  "provisioning_start = \<lparr>pv_holder = None, pv_phase = (\<lambda>_. Idle), pv_claims = []\<rparr>"

text \<open>Only the holder of the lock is under way, and what it has checked is apart from everything saved.\<close>

definition lock_inv :: "('c \<Rightarrow> 'r list) \<Rightarrow> ('r \<Rightarrow> 'r \<Rightarrow> bool) \<Rightarrow> 'c provisioning \<Rightarrow> bool" where
  "lock_inv parts apart s \<longleftrightarrow>
     (\<forall>r. pv_phase s r \<noteq> Idle \<longrightarrow> pv_holder s = Some r) \<and>
     sorted_wrt apart (concat (map parts (pv_claims s))) \<and>
     (\<forall>r c. pv_phase s r = Checked c \<longrightarrow> sorted_wrt apart (parts c) \<and>
        (\<forall>d \<in> set (pv_claims s). \<forall>q \<in> set (parts d). \<forall>p \<in> set (parts c). apart q p))"

text \<open>What the requests rely on: an admitted resource is apart from itself and from those saved before.\<close>

locale admission =
  fixes parts :: "'c \<Rightarrow> 'r list" and apart :: "'r \<Rightarrow> 'r \<Rightarrow> bool" and admits :: "'c list \<Rightarrow> 'c \<Rightarrow> bool"
  assumes admits_apart: "admits claims c \<Longrightarrow>
    sorted_wrt apart (parts c) \<and> (\<forall>d \<in> set claims. \<forall>r \<in> set (parts d). \<forall>q \<in> set (parts c). apart r q)"
begin

lemma sorted_filter: "sorted_wrt apart (concat (map parts cs)) \<Longrightarrow> sorted_wrt apart (concat (map parts (filter p cs)))"
  by (induction cs) (auto simp: sorted_wrt_append)

lemma lock_alone: "lock_inv parts apart s \<Longrightarrow> pv_phase s i \<noteq> Idle \<Longrightarrow> pv_phase s j \<noteq> Idle \<Longrightarrow> i = j"
  unfolding lock_inv_def by (metis option.inject)

lemma step_inv: "provisioning_step admits s t \<Longrightarrow> lock_inv parts apart s \<Longrightarrow> lock_inv parts apart t"
proof (induction rule: provisioning_step.induct)
  case (take_lock s r)
  then show ?case by (auto simp: lock_inv_def split: if_splits)
next
  case (accept s r c)
  then show ?case using admits_apart [OF accept(2)] by (auto simp: lock_inv_def)
next
  case (save s r c)
  have holder: "r' = r" if "pv_phase s r' = Checked d" for r' d
    using lock_alone [OF save(2), of r' r] save(1) that by simp
  have old: "sorted_wrt apart (concat (map parts (pv_claims s)))" "sorted_wrt apart (parts c)"
      "\<forall>d \<in> set (pv_claims s). \<forall>q \<in> set (parts d). \<forall>p \<in> set (parts c). apart q p"
    using save by (simp_all add: lock_inv_def)
  then have "sorted_wrt apart (concat (map parts (pv_claims s @ [c])))" by (simp add: sorted_wrt_append)
  moreover have "((pv_phase s)(r := Saved)) i \<noteq> Checked d" for i d using holder by (cases "i = r") auto
  moreover have "((pv_phase s)(r := Saved)) i \<noteq> Idle \<Longrightarrow> pv_holder s = Some i" for i
    using save by (cases "i = r") (simp_all add: lock_inv_def)
  ultimately show ?case by (simp add: lock_inv_def)
next
  case (return s r)
  then have "((pv_phase s)(r := Idle)) i = Idle" for i using lock_alone [of s i r] by auto
  with return show ?case by (simp add: lock_inv_def free_lock_def)
next
  case (remove s p)
  then show ?case by (auto simp: lock_inv_def sorted_filter)
qed

lemma reachable_apart:
  assumes "(provisioning_step admits)\<^sup>*\<^sup>* provisioning_start s"
  shows "sorted_wrt apart (concat (map parts (pv_claims s)))"
proof -
  have "lock_inv parts apart s" using assms
  proof (induction rule: rtranclp_induct)
    case base
    then show ?case by (simp add: lock_inv_def provisioning_start_def)
  next
    case (step t u)
    then show ?case by (blast intro: step_inv)
  qed
  then show ?thesis by (simp add: lock_inv_def)
qed

end

text \<open>
  A resource is admitted when its ranges passed the checks against an inventory that holds what the
  provider reports and what is saved, and when its saved form is read as these ranges.
\<close>

definition admitted :: "(string \<Rightarrow> string) \<Rightarrow> ProvisioningClaim list \<Rightarrow> ProvisioningClaim \<Rightarrow> bool" where
  "admitted fmt claims claim \<longleftrightarrow>
     (\<exists>live inventory cidrs members result.
        merge_claims fmt claims live = Inr inventory \<and> admit_members cidrs members inventory = Inr result \<and>
        claim_ranges fmt claim = map snd members)"

interpretation machines: admission "claim_ranges fmt" ranges_apart "admitted fmt" for fmt
proof
  fix claims claim
  assume "admitted fmt claims claim"
  then obtain live inventory cidrs members result where
    parts: "merge_claims fmt claims live = Inr inventory" "admit_members cidrs members inventory = Inr result"
      "claim_ranges fmt claim = map snd members"
    by (auto simp: admitted_def)
  show "sorted_wrt ranges_apart (claim_ranges fmt claim) \<and>
      (\<forall>d \<in> set claims. \<forall>r \<in> set (claim_ranges fmt d). \<forall>q \<in> set (claim_ranges fmt claim). ranges_apart r q)"
    using admit_members_apart [OF parts(2)] merge_claims_cover [OF parts(1)] unfolding parts(3) by blast
qed

text \<open>
  C11: However requests interleave, the machine ranges of all saved resources of a connection are
  pairwise disjoint, in identifiers and in addresses, as long as every resource is read back as the
  ranges that were checked for it.
\<close>

theorem saved_ranges_disjoint:
  assumes "(provisioning_step (admitted fmt))\<^sup>*\<^sup>* provisioning_start s"
  shows "sorted_wrt ranges_apart (concat (map (claim_ranges fmt) (pv_claims s)))"
  using assms by (rule machines.reachable_apart)

lemma admitted_single:
  assumes "merge_claims fmt claims live = Inr inventory" "claim_ranges fmt claim = [r]" "check_range inventory r = None"
  shows "admitted fmt claims claim"
proof -
  have "\<exists>result. admit_members [] [([], r)] inventory = Inr result"
    using assms(3) by (cases r) (simp add: admit_members_def admit_member_def network_overlap_def split: option.splits)
  with assms(1,2) show ?thesis unfolding admitted_def by fastforce
qed

text \<open>A request of one range is admitted by \<open>validateProvisioning\<close>.\<close>

lemma validated_admitted:
  assumes "validateProvisioning fmt read connectionID spec count st = None"
    and "claim_ranges fmt claim = [requested_range fmt spec count]"
  shows "admitted fmt (ProvisioningClaims connectionID st) claim"
proof -
  obtain live preferred inventory where
    parts: "merge_claims fmt (ProvisioningClaims connectionID st) live = Inr inventory" "check_range inventory (requested_range fmt spec count) = None"
    using assms(1) by (auto simp: validateProvisioning_def provisioningInventory_def split: sum.splits prod.splits)
  then show ?thesis by (rule admitted_single [OF _ assms(2)])
qed

section \<open>Identifiers above a million\<close>

text \<open>
  \<open>fmt.Sprint\<close> prints a float of a million or more with an exponent, which \<open>strconv.Atoi\<close> does not
  read: the saved identifier is taken for 0 and nothing is reserved.
\<close>

definition large_members :: "(string \<times> range) list" where
  "large_members = [(''east'', 1000000, 1, no_network)]"

definition large_claim :: ProvisioningClaim where
  "large_claim = \<lparr>pc_Kind = ''kubernetes-cluster'', pc_Spec = RawDoc (JObj [(''mode'', JStr ''multi''),
     (''members'', JArr [JObj [(''baseVMID'', JNum ''1000000''), (''controlPlanes'', JNum ''1'')]])])\<rparr>"

lemmas claim_defs = claim_ranges_def decode_spec_def provisioningClaimSpecs_def claim_range_def claim_count_def List.map_filter_def
  intField_def atoi_def parse_int64_def decimal_value_def is_digit_def digit_value_def plausible_def NetworkFromSpec_def text_of_def

lemma large_claim_unreserved:
  assumes "fmt ''1000000'' = ''1e+06''" "fmt ''1'' = ''1''"
  shows "merge_claims fmt [large_claim] inventory = Inr inventory"
  using assms by (simp add: merge_claims_def reserve_claim_def reserve_range_def large_claim_def claim_defs)

lemma large_members_admitted: "\<exists>result. admit_members [] large_members NewInventory = Inr result"
  by (simp add: admit_members_def large_members_def admit_member_def check_range_def validate_iff allocation_free_def
      last_vmid_def NewInventory_def no_network_def network_overlap_def split: option.splits)



section \<open>A run of two requests\<close>

definition machine_claim :: "string \<Rightarrow> ProvisioningClaim" where
  "machine_claim n = \<lparr>pc_Kind = ''machine-template'', pc_Spec = RawDoc (JObj [(''vmid'', JNum n)])\<rparr>"

definition idle_with :: "'c list \<Rightarrow> 'c provisioning" where
  "idle_with claims = provisioning_start\<lparr>pv_claims := claims\<rparr>"

lemma request_saves:
  assumes "admits claims c"
  shows "(provisioning_step admits)\<^sup>*\<^sup>* (idle_with claims) (idle_with (claims @ [c]))"
proof -
  let ?s = "\<lambda>phase claims. \<lparr>pv_holder = Some 0, pv_phase = (\<lambda>_. Idle)(0 := phase), pv_claims = claims\<rparr>"
  have idle: "(\<lambda>_. Idle)(0 := Idle) = (\<lambda>_. Idle)" by auto
  have "provisioning_step admits (idle_with claims) (?s Holding claims)"
    using provisioning_step.take_lock [of "idle_with claims" 0 admits] by (simp add: idle_with_def provisioning_start_def)
  moreover have "provisioning_step admits (?s Holding claims) (?s (Checked c) claims)"
    using provisioning_step.accept [of "?s Holding claims" 0 admits c] assms by simp
  moreover have "provisioning_step admits (?s (Checked c) claims) (?s Saved (claims @ [c]))"
    using provisioning_step.save [of "?s (Checked c) claims" 0 c admits] by simp
  moreover have "provisioning_step admits (?s Saved (claims @ [c])) (idle_with (claims @ [c]))"
    using provisioning_step.return [of "?s Saved (claims @ [c])" 0 admits] by (simp add: idle_with_def provisioning_start_def free_lock_def idle)
  ultimately show ?thesis by (meson converse_rtranclp_into_rtranclp rtranclp.rtrancl_refl)
qed

lemma machine_ranges:
  "claim_ranges id (machine_claim ''100'') = [(100, 1, no_network)]"
  "claim_ranges id (machine_claim ''101'') = [(101, 1, no_network)]"
  by (simp_all add: machine_claim_def claim_defs no_network_def)

lemma machine_merged: "merge_claims id [machine_claim ''100''] NewInventory = Inr (NewInventory\<lparr>in_VMIDs := [100]\<rparr>)"
  by (simp add: merge_claims_def reserve_claim_def reserve_range_def machine_claim_def claim_defs Reserve_def reserve_one_def
      parse_ip4_def octet_def canonical_def int64_def NewInventory_def)

lemma machine_admitted:
  "admitted id [] (machine_claim ''100'')" "admitted id [machine_claim ''100''] (machine_claim ''101'')"
  by (rule admitted_single [of _ _ NewInventory NewInventory _ "(100, 1, no_network)"],
      simp_all add: merge_claims_def NewInventory_def machine_ranges check_range_def validate_iff allocation_free_def last_vmid_def no_network_def)
    (rule admitted_single [OF machine_merged, of _ "(101, 1, no_network)"],
      simp_all add: NewInventory_def machine_ranges check_range_def validate_iff allocation_free_def last_vmid_def no_network_def)

theorem saved_ranges_disjoint_witness:
  "sorted_wrt ranges_apart (concat (map (claim_ranges id) [machine_claim ''100'', machine_claim ''101'']))"
proof -
  let ?s = "idle_with [machine_claim ''100'', machine_claim ''101'']"
  have "(provisioning_step (admitted id))\<^sup>*\<^sup>* provisioning_start ?s"
    using request_saves [of "admitted id", OF machine_admitted(1)] request_saves [of "admitted id", OF machine_admitted(2)]
    by (simp add: idle_with_def provisioning_start_def)
  from saved_ranges_disjoint [OF this] show ?thesis by (simp add: idle_with_def)
qed

end
