(* ===== verification/Connectivity.thy ===== *)
theory Connectivity
  imports Worker ManagedStore Addresses
begin

text \<open>
  Checks of saved connections and managed services: the probes of \<open>connectivity/probe.go\<close>, the rounds of
  \<open>engine/connectivity.go\<close> and the statements of \<open>storage/connectivity.go\<close>. A failure is shown only when
  two checks in a row find it, and a row is checked at most once a minute by all workers together.
\<close>

section \<open>Reports\<close>

record ConnectivityTarget =
  ct_Name :: string
  ct_Status :: string
  ct_Message :: string

record Connectivity =
  cn_Status :: string
  cn_CheckedAt :: timestamp
  cn_Message :: string
  cn_Targets :: "ConnectivityTarget list"

definition probe_result :: "string \<Rightarrow> string \<Rightarrow> string \<Rightarrow> ConnectivityTarget" where
  "probe_result name s message = \<lparr>ct_Name = name, ct_Status = s, ct_Message = message\<rparr>"

text \<open>A status that is no key of the map has priority 0.\<close>

definition priority :: "string \<Rightarrow> nat" where
  "priority s =
     (case map_of [(''reachable'', 0), (''unknown'', 1), (''checking'', 2), (''unavailable'', 3), (''access-denied'', 4), (''unreachable'', 5)] s of
        None \<Rightarrow> 0 | Some n \<Rightarrow> n)"

definition worse :: "ConnectivityTarget \<Rightarrow> Connectivity \<Rightarrow> Connectivity" where
  "worse target report =
     (if priority (cn_Status report) < priority (ct_Status target)
      then report\<lparr>cn_Status := ct_Status target, cn_Message := ct_Message target\<rparr> else report)"

definition connectivityReport :: "timestamp \<Rightarrow> ConnectivityTarget list \<Rightarrow> Connectivity" where
  "connectivityReport now targets =
     (let report = fold worse targets \<lparr>cn_Status = ''reachable'', cn_CheckedAt = now, cn_Message = [], cn_Targets = targets\<rparr>
      in if targets = [] then report\<lparr>cn_Status := ''unknown'', cn_Message := ''No verified service endpoint is available.''\<rparr>
         else report)"

section \<open>Probes\<close>

record HTTPOptions =
  ho_Name :: string
  ho_Address :: string
  ho_Authorization :: string
  ho_VerifyTLS :: bool
  ho_CABundle :: string
  ho_Service :: string

text \<open>
  What a server answers: the status code, the registry version header, and the first mebibyte of the
  body as a JSON text.
\<close>

record http_response =
  hr_StatusCode :: int
  hr_RegistryVersion :: string
  hr_Body :: RawMessage

record url =
  url_Scheme :: string
  url_Host :: string
  url_Hostname :: string
  url_User :: bool

text \<open>
  The library, the saved connections with their encrypted credentials, and the network: one exchange
  each. What the vault decrypts is given as the JSON text it is read as.
\<close>

datatype exchange = NoConnection | NoRequest | Answer "8 word list"

record 'w Probes =
  pr_url :: "string \<Rightarrow> url option"
  pr_pem :: "string \<Rightarrow> bool"
  pr_base64 :: "string \<Rightarrow> string"
  pr_connection :: "string \<Rightarrow> RawMessage option"
  pr_credential :: "string \<Rightarrow> (string \<times> string) option"
  pr_decrypt :: "string \<Rightarrow> string \<Rightarrow> RawMessage option"
  pr_http :: "HTTPOptions \<Rightarrow> 'w \<Rightarrow> http_response option \<times> 'w"
  pr_kubectl :: "string \<Rightarrow> 'w \<Rightarrow> (string \<times> bool) \<times> 'w"
  pr_nfs :: "string \<Rightarrow> 8 word list \<Rightarrow> 'w \<Rightarrow> exchange \<times> 'w"

text \<open>Decoding the first document of a stream into a struct: an object or null.\<close>

definition decode_object :: "RawMessage \<Rightarrow> (string \<times> json) list option" where
  "decode_object raw =
     (case raw of
        RawDoc (JObj kvs) \<Rightarrow> Some kvs | RawTrailing (JObj kvs) _ \<Rightarrow> Some kvs
      | RawDoc JNull \<Rightarrow> Some [] | RawTrailing JNull _ \<Rightarrow> Some []
      | _ \<Rightarrow> None)"

definition string_field :: "(string \<times> json) list \<Rightarrow> string \<Rightarrow> string option" where
  "string_field kvs key = (case map_of kvs key of None \<Rightarrow> Some [] | Some JNull \<Rightarrow> Some [] | Some (JStr s) \<Rightarrow> Some s | _ \<Rightarrow> None)"

definition http_username :: "RawMessage \<Rightarrow> string option" where
  "http_username body = (case decode_object body of None \<Rightarrow> None | Some kvs \<Rightarrow> string_field kvs ''username'')"

definition http_data :: "RawMessage \<Rightarrow> bool" where
  "http_data body = (case decode_object body of Some kvs \<Rightarrow> (case map_of kvs ''data'' of Some (JArr _) \<Rightarrow> True | _ \<Rightarrow> False) | None \<Rightarrow> False)"

definition http_answer :: "HTTPOptions \<Rightarrow> http_response \<Rightarrow> ConnectivityTarget" where
  "http_answer options response =
     (let registry = (ho_Service options = ''registry''); code = hr_StatusCode response; name = ho_Name options
      in if registry \<and> (code = 200 \<or> code = 401) \<and> hr_RegistryVersion response = ''registry/2.0'' then probe_result name ''reachable'' []
         else if ho_Service options = ''harbor'' \<and> 200 \<le> code \<and> code < 300 then
           (case http_username (hr_Body response) of
              Some (c # cs) \<Rightarrow> probe_result name ''reachable'' []
            | _ \<Rightarrow> probe_result name ''unavailable'' ''Harbor did not return a valid account response.'')
         else if \<not> registry \<and> 200 \<le> code \<and> code < 300 then
           (if http_data (hr_Body response) then probe_result name ''reachable'' []
            else probe_result name ''unavailable'' ''The endpoint did not return a valid Proxmox response.'')
         else if code = 401 \<or> code = 403
         then probe_result name ''access-denied'' ''The service rejected access. Check its credentials and permissions.''
         else probe_result name ''unavailable'' ''The service responds but is not available.'')"

definition HTTP :: "'w Probes \<Rightarrow> HTTPOptions \<Rightarrow> ('w, ConnectivityTarget) worker" where
  "HTTP pr options =
     (let name = ho_Name options; parsed = pr_url pr (ho_Address options)
      in if (case parsed of
               None \<Rightarrow> True
             | Some u \<Rightarrow> url_Host u = [] \<or> url_User u \<or> url_Scheme u \<noteq> ''http'' \<and> url_Scheme u \<noteq> ''https'')
         then State_Monad.return (probe_result name ''unknown'' ''The saved service address is invalid.'')
         else if ho_CABundle options \<noteq> [] \<and> \<not> pr_pem pr (ho_CABundle options)
         then State_Monad.return (probe_result name ''unknown'' ''The saved service certificate is invalid.'')
         else do {
           answer \<leftarrow> on_world (pr_http pr options);
           State_Monad.return (case answer of
               None \<Rightarrow> probe_result name ''unreachable'' ''Could not connect to the service. Check its address, network and TLS settings.''
             | Some response \<Rightarrow> http_answer options response)
         })"

text \<open>\<open>strings.ToLower\<close> on the letters of ASCII, the only ones the texts below have.\<close>

definition to_lower :: "string \<Rightarrow> string" where
  "to_lower s = map (\<lambda>c. if is_upper c then char_of (of_char c + 32 :: nat) else c) s"

definition has_suffix :: "string \<Rightarrow> string \<Rightarrow> bool" where
  "has_suffix s e \<longleftrightarrow> has_prefix (rev e) (rev s)"

definition not_ready_texts :: "string list" where
  "not_ready_texts = [''readyz check failed'', ''internalerror'', ''toomanyrequests'', ''too many requests'', ''overloaded'',
     ''serviceunavailable'', ''service unavailable'']"

definition kubernetesResult :: "string \<Rightarrow> string \<Rightarrow> bool \<Rightarrow> ConnectivityTarget" where
  "kubernetesResult name out failed =
     (let message = to_lower out
      in if \<not> failed \<and> (trim_space out = ''ok'' \<or> has_suffix (trim_space out) (CHR 0x0A # ''ok'')) then probe_result name ''reachable'' []
         else if contains_str ''forbidden'' message \<or> contains_str ''unauthorized'' message
         then probe_result name ''access-denied'' ''Kubernetes rejected access. Check the saved credentials and permissions.''
         else if list_ex (\<lambda>t. contains_str t message) not_ready_texts
         then probe_result name ''unavailable'' ''The Kubernetes API responds but is not ready.''
         else probe_result name ''unreachable'' ''Could not connect to the Kubernetes API.'')"

definition Kubernetes :: "'w Probes \<Rightarrow> string \<Rightarrow> string \<Rightarrow> ('w, ConnectivityTarget) worker" where
  "Kubernetes pr name config = do {
     r \<leftarrow> on_world (pr_kubectl pr config);
     State_Monad.return (kubernetesResult name (fst r) (snd r))
   }"

subsection \<open>NFS\<close>

text \<open>\<open>binary.BigEndian.Uint32\<close> of four bytes from an index; \<open>None\<close> is the panic of a slice out of range.\<close>

definition be32 :: "8 word list \<Rightarrow> nat \<Rightarrow> 32 word option" where
  "be32 bytes i =
     (case take 4 (drop i bytes) of
        [a, b, c, d] \<Rightarrow> Some (of_nat (((unat a * 256 + unat b) * 256 + unat c) * 256 + unat d))
      | _ \<Rightarrow> None)"

definition reply_size :: "32 word \<Rightarrow> 32 word" where
  "reply_size marker = marker AND 0x7fffffff"

definition padded_offset :: "32 word \<Rightarrow> 64 word" where
  "padded_offset verifierSize = 20 + ((ucast verifierSize + 3) AND NOT 3)"

text \<open>The condition is evaluated from left to right; later reads happen only when the earlier tests passed.\<close>

definition reply_rejected :: "8 word list \<Rightarrow> bool option" where
  "reply_rejected reply =
     (case be32 reply 16 of None \<Rightarrow> None | Some verifierSize \<Rightarrow>
      let offset = padded_offset verifierSize in
      case be32 reply 0 of None \<Rightarrow> None | Some xid \<Rightarrow>
      if xid \<noteq> 1 then Some True
      else case be32 reply 4 of None \<Rightarrow> None | Some kind \<Rightarrow>
      if kind \<noteq> 1 then Some True
      else case be32 reply 8 of None \<Rightarrow> None | Some stat \<Rightarrow>
      if stat \<noteq> 0 then Some True
      else if of_nat (length reply) < offset + 4 then Some True
      else case be32 reply (unat offset) of None \<Rightarrow> None | Some accepted \<Rightarrow> Some (accepted \<noteq> 0))"

definition nfs_answer :: "string \<Rightarrow> exchange \<Rightarrow> ConnectivityTarget option" where
  "nfs_answer name e =
     (case e of
        NoConnection \<Rightarrow> Some (probe_result name ''unreachable'' ''Could not connect to the NFS service.'')
      | NoRequest \<Rightarrow> Some (probe_result name ''unreachable'' ''The NFS service did not respond.'')
      | Answer stream \<Rightarrow>
          if length stream < 4 then Some (probe_result name ''unreachable'' ''The NFS service did not respond.'')
          else case be32 stream 0 of None \<Rightarrow> None | Some marker \<Rightarrow>
            let size = reply_size marker in
            if size < 24 \<or> 16384 < size \<or> marker AND 0x80000000 = 0
            then Some (probe_result name ''unavailable'' ''The endpoint did not return a valid NFS response.'')
            else if length (drop 4 stream) < unat size then Some (probe_result name ''unreachable'' ''The NFS service did not respond.'')
            else case reply_rejected (take (unat size) (drop 4 stream)) of
                None \<Rightarrow> None
              | Some True \<Rightarrow> Some (probe_result name ''unavailable'' ''NFSv4 is not available at the saved endpoint.'')
              | Some False \<Rightarrow> Some (probe_result name ''reachable'' []))"

text \<open>The call: record marker, transaction, program, version, procedure, and empty credentials.\<close>

definition put_be32 :: "32 word \<Rightarrow> 8 word list" where
  "put_be32 w = map (\<lambda>n. ucast (drop_bit n w)) [24, 16, 8, 0]"

definition nfs_packet :: "8 word list" where
  "nfs_packet = concat (map put_be32 [0x80000028, 1, 0, 2, 100003, 4, 0, 0, 0, 0, 0])"

text \<open>\<open>net.JoinHostPort\<close> brackets an address with a colon.\<close>

definition join_host_port :: "string \<Rightarrow> string \<Rightarrow> string" where
  "join_host_port host port = (if CHR '':'' \<in> set host then ''['' @ host @ '']:'' @ port else host @ '':'' @ port)"

definition NFS :: "'w Probes \<Rightarrow> string \<Rightarrow> string \<Rightarrow> ('w, ConnectivityTarget option) worker" where
  "NFS pr name server = do {
     e \<leftarrow> on_world (pr_nfs pr (join_host_port server ''2049'') nfs_packet);
     State_Monad.return (nfs_answer name e)
   }"

section \<open>Probing a connection or a resource\<close>

text \<open>\<open>json.Unmarshal\<close> into a struct: an object or null, whose fields have their types.\<close>

definition decode_struct :: "RawMessage \<Rightarrow> (string \<times> json) list option" where
  "decode_struct raw = (case unmarshal raw of Some (JObj kvs) \<Rightarrow> Some kvs | Some JNull \<Rightarrow> Some [] | _ \<Rightarrow> None)"

definition bool_field :: "(string \<times> json) list \<Rightarrow> string \<Rightarrow> bool option" where
  "bool_field kvs key = (case map_of kvs key of None \<Rightarrow> Some False | Some JNull \<Rightarrow> Some False | Some (JBool b) \<Rightarrow> Some b | _ \<Rightarrow> None)"

definition object_field :: "(string \<times> json) list \<Rightarrow> string \<Rightarrow> (string \<times> json) list option" where
  "object_field kvs key = (case map_of kvs key of None \<Rightarrow> Some [] | Some JNull \<Rightarrow> Some [] | Some (JObj fs) \<Rightarrow> Some fs | _ \<Rightarrow> None)"

definition trim_right :: "char \<Rightarrow> string \<Rightarrow> string" where
  "trim_right c s = rev (dropWhile (\<lambda>d. d = c) (rev s))"

definition proxmox_endpoint :: "string \<Rightarrow> string" where
  "proxmox_endpoint endpoint =
     (let s = trim_right CHR ''/'' endpoint
      in (if has_suffix s ''/api2/json'' then take (length s - length ''/api2/json'') s else s) @ ''/api2/json/nodes'')"

definition connection_config :: "RawMessage \<Rightarrow> (string \<times> string \<times> bool) option" where
  "connection_config raw =
     (case decode_struct raw of
        None \<Rightarrow> None
      | Some kvs \<Rightarrow>
          (case (string_field kvs ''endpoint'', string_field kvs ''credentialRef'', bool_field kvs ''verifyTLS'') of
             (Some endpoint, Some credentialRef, Some verifyTLS) \<Rightarrow> Some (endpoint, credentialRef, verifyTLS)
           | _ \<Rightarrow> None))"

definition connection_token :: "RawMessage \<Rightarrow> (string \<times> string) option" where
  "connection_token raw =
     (case decode_struct raw of
        None \<Rightarrow> None
      | Some kvs \<Rightarrow>
          (case (string_field kvs ''tokenId'', string_field kvs ''tokenSecret'') of
             (Some k, Some secret) \<Rightarrow> if k = [] \<or> secret = [] then None else Some (k, secret)
           | _ \<Rightarrow> None))"

text \<open>The options of the probe, \<open>None\<close> where the saved connection cannot be read.\<close>

definition connection_options :: "'w Env \<Rightarrow> 'w Probes \<Rightarrow> string \<Rightarrow> string \<Rightarrow> HTTPOptions option" where
  "connection_options env pr resourceID name =
     (case pr_connection pr resourceID of None \<Rightarrow> None | Some configuration \<Rightarrow>
      case connection_config configuration of None \<Rightarrow> None | Some (endpoint, credentialRef, verifyTLS) \<Rightarrow>
      if env_vault env = None then None
      else case pr_credential pr credentialRef of None \<Rightarrow> None | Some (nonce, ciphertext) \<Rightarrow>
      case pr_decrypt pr nonce ciphertext of None \<Rightarrow> None | Some raw \<Rightarrow>
      case connection_token raw of None \<Rightarrow> None | Some (k, secret) \<Rightarrow>
        Some \<lparr>ho_Name = name, ho_Address = proxmox_endpoint endpoint, ho_Authorization = ''PVEAPIToken='' @ k @ ''='' @ secret,
          ho_VerifyTLS = verifyTLS, ho_CABundle = [], ho_Service = ''proxmox''\<rparr>)"

definition report_now :: "'w Env \<Rightarrow> ConnectivityTarget list \<Rightarrow> ('w, Connectivity) worker" where
  "report_now env targets = State (\<lambda>s. (connectivityReport (env_now env (eng_tick s)) targets, s))"

definition probeConnection :: "'w Env \<Rightarrow> 'w Probes \<Rightarrow> string \<Rightarrow> string \<Rightarrow> ('w, Connectivity) worker" where
  "probeConnection env pr resourceID name =
     (case connection_options env pr resourceID name of
        None \<Rightarrow> report_now env [probe_result name ''unknown'' ''Could not read the saved Proxmox connection credentials.'']
      | Some options \<Rightarrow> do {
          target \<leftarrow> HTTP pr options;
          report_now env [target]
        })"

definition readConnectivityArtifact :: "'w Env \<Rightarrow> Artifact \<Rightarrow> ('w, failure + RawMessage) worker" where
  "readConnectivityArtifact env artifact =
     check (ReadVerified env (art_StorageKey artifact) (art_StorageDigest artifact) (art_StoredSizeBytes artifact)) (\<lambda>stored.
     State_Monad.return
       (case open_artifact env artifact stored of
          Inl e \<Rightarrow> Inl e
        | Inr raw \<Rightarrow>
            if Verify (env_digest env) raw (art_Digest artifact) (art_SizeBytes artifact) \<noteq> None then Inl (newError ''artifact mismatch'')
            else Inr (env_json env raw)))"

definition member_name :: "json \<Rightarrow> string option" where
  "member_name v = (case v of JObj kvs \<Rightarrow> string_field kvs ''name'' | JNull \<Rightarrow> Some [] | _ \<Rightarrow> None)"

text \<open>The mode and the names of the members of a cluster specification.\<close>

definition cluster_spec :: "RawMessage \<Rightarrow> (string \<times> string list) option" where
  "cluster_spec raw =
     (case decode_struct raw of
        None \<Rightarrow> None
      | Some kvs \<Rightarrow>
          (case string_field kvs ''mode'' of
             None \<Rightarrow> None
           | Some mode \<Rightarrow>
               (case map_of kvs ''members'' of
                  None \<Rightarrow> Some (mode, [])
                | Some JNull \<Rightarrow> Some (mode, [])
                | Some (JArr members) \<Rightarrow>
                    (if None \<in> set (map member_name members) then None else Some (mode, map (\<lambda>m. the (member_name m)) members))
                | _ \<Rightarrow> None)))"

definition kubeconfig_of :: "RawMessage \<Rightarrow> string option" where
  "kubeconfig_of raw =
     (case decode_struct raw of
        None \<Rightarrow> None
      | Some kvs \<Rightarrow>
          (case (string_field kvs ''kind'', object_field kvs ''spec'') of
             (Some kind, Some spec) \<Rightarrow>
               (case string_field spec ''kubeconfig'' of
                  Some config \<Rightarrow> if kind \<noteq> ''ClusterConnection'' \<or> config = [] then None else Some config
                | None \<Rightarrow> None)
           | _ \<Rightarrow> None))"

definition usable_connection :: "Artifact \<Rightarrow> bool" where
  "usable_connection artifact \<longleftrightarrow>
     art_Type artifact = ''ClusterConnection'' \<and> art_Sensitive artifact \<and> art_VerifiedAt artifact \<noteq> 0"

definition probe_member :: "'w Env \<Rightarrow> 'w Probes \<Rightarrow> string \<Rightarrow> string \<Rightarrow> string \<Rightarrow> ('w, ConnectivityTarget) worker" where
  "probe_member env pr runID stage name = do {
     found \<leftarrow> db_read env (GetPipelineRunArtifactFromStage runID stage ''cluster-connection'');
     case found of
       Inl _ \<Rightarrow> State_Monad.return (probe_result name ''unknown'' ''A verified Kubernetes connection is unavailable.'')
     | Inr artifact \<Rightarrow>
         if \<not> usable_connection artifact
         then State_Monad.return (probe_result name ''unknown'' ''A verified Kubernetes connection is unavailable.'')
         else do {
           raw \<leftarrow> readConnectivityArtifact env artifact;
           case raw of
             Inl _ \<Rightarrow> State_Monad.return (probe_result name ''unknown'' ''Could not read the saved Kubernetes connection.'')
           | Inr text \<Rightarrow>
               (case kubeconfig_of text of
                  None \<Rightarrow> State_Monad.return (probe_result name ''unknown'' ''The saved Kubernetes connection is invalid.'')
                | Some config \<Rightarrow> Kubernetes pr name config)
         }
   }"

fun probe_members :: "'w Env \<Rightarrow> 'w Probes \<Rightarrow> string \<Rightarrow> bool \<Rightarrow> nat \<Rightarrow> string list \<Rightarrow> ('w, ConnectivityTarget list) worker" where
  "probe_members env pr runID multi index [] = State_Monad.return []"
| "probe_members env pr runID multi index (name # names) = do {
     target \<leftarrow> probe_member env pr runID (if multi then ''c'' @ show_nat (index + 1) @ ''-kubernetes'' else ''kubernetes'') name;
     targets \<leftarrow> probe_members env pr runID multi (index + 1) names;
     State_Monad.return (target # targets)
   }"

record endpoint_spec =
  es_Server :: string
  es_URL :: string
  es_Insecure :: bool
  es_CABundle :: string

definition endpoint_of :: "RawMessage \<Rightarrow> endpoint_spec option" where
  "endpoint_of raw =
     (case decode_struct raw of
        None \<Rightarrow> None
      | Some kvs \<Rightarrow>
          (case object_field kvs ''spec'' of
             None \<Rightarrow> None
           | Some spec \<Rightarrow>
               (case (string_field spec ''server'', string_field spec ''url'', bool_field spec ''insecure'', string_field spec ''caBundle'') of
                  (Some server, Some u, Some insecure, Some ca) \<Rightarrow> Some \<lparr>es_Server = server, es_URL = u, es_Insecure = insecure, es_CABundle = ca\<rparr>
                | _ \<Rightarrow> None)))"

definition access_of :: "RawMessage \<Rightarrow> (string \<times> string \<times> string) option" where
  "access_of raw =
     (case decode_struct raw of
        None \<Rightarrow> None
      | Some kvs \<Rightarrow>
          (case object_field kvs ''spec'' of
             None \<Rightarrow> None
           | Some spec \<Rightarrow>
               (case (string_field spec ''username'', string_field spec ''password'', string_field spec ''server'') of
                  (Some user, Some password, Some server) \<Rightarrow> if user = [] \<or> password = [] then None else Some (user, password, server)
                | _ \<Rightarrow> None)))"

definition unknown_report :: "'w Env \<Rightarrow> string \<Rightarrow> ('w, Connectivity) worker" where
  "unknown_report env name = report_now env [probe_result name ''unknown'' ''Could not read the saved service access configuration.'']"

text \<open>Harbor: the account first, then the registry without a credential.\<close>

definition harbor_options :: "'w Probes \<Rightarrow> endpoint_spec \<Rightarrow> string \<Rightarrow> string \<Rightarrow> HTTPOptions" where
  "harbor_options pr spec user password =
     \<lparr>ho_Name = ''Harbor'', ho_Address = trim_right CHR ''/'' (es_URL spec) @ ''/api/v2.0/users/current'',
       ho_Authorization = ''Basic '' @ pr_base64 pr (user @ '':'' @ password), ho_VerifyTLS = \<not> es_Insecure spec,
       ho_CABundle = es_CABundle spec, ho_Service = ''harbor''\<rparr>"

definition probe_harbor :: "'w Env \<Rightarrow> 'w Probes \<Rightarrow> ManagedResource \<Rightarrow> endpoint_spec \<Rightarrow> ('w, Connectivity) worker" where
  "probe_harbor env pr resource spec =
     attempt (db_read env (GetPipelineRunArtifactFromStage (mg_PipelineRunID resource) [] ''registry-management-credential''))
       (\<lambda>_. unknown_report env (mg_Name resource)) (\<lambda>credential.
     if art_Type credential \<noteq> ''RegistryCredential'' \<or> \<not> art_Sensitive credential \<or> art_VerifiedAt credential = 0
     then unknown_report env (mg_Name resource)
     else attempt (readConnectivityArtifact env credential) (\<lambda>_. unknown_report env (mg_Name resource)) (\<lambda>secret.
       case access_of secret of
         None \<Rightarrow> unknown_report env (mg_Name resource)
       | Some (user, password, server) \<Rightarrow>
           (case pr_url pr (es_URL spec) of
              None \<Rightarrow> unknown_report env (mg_Name resource)
            | Some u \<Rightarrow>
                if server \<noteq> url_Hostname u \<and> server \<noteq> url_Host u then unknown_report env (mg_Name resource)
                else do {
                  account \<leftarrow> HTTP pr (harbor_options pr spec user password);
                  if ct_Status account \<noteq> ''reachable'' then report_now env [account]
                  else do {
                    registry \<leftarrow> HTTP pr ((harbor_options pr spec user password)
                      \<lparr>ho_Address := trim_right CHR ''/'' (es_URL spec) @ ''/v2/'', ho_Authorization := [], ho_Service := ''registry''\<rparr>);
                    report_now env [registry]
                  }
                })))"

definition probe_nfs :: "'w Env \<Rightarrow> 'w Probes \<Rightarrow> ManagedResource \<Rightarrow> endpoint_spec \<Rightarrow> ('w, Connectivity option) worker" where
  "probe_nfs env pr resource spec =
     (if es_Server spec = [] then do { r \<leftarrow> unknown_report env (mg_Name resource); State_Monad.return (Some r) }
      else do {
        target \<leftarrow> NFS pr ''NFS'' (es_Server spec);
        case target of
          None \<Rightarrow> State_Monad.return None
        | Some t \<Rightarrow> do { r \<leftarrow> report_now env [t]; State_Monad.return (Some r) }
      })"

definition returned :: "('w, 'a) worker \<Rightarrow> ('w, 'a option) worker" where
  "returned m = do { x \<leftarrow> m; State_Monad.return (Some x) }"

definition probe_service :: "'w Env \<Rightarrow> 'w Probes \<Rightarrow> ManagedResource \<Rightarrow> ('w, Connectivity option) worker" where
  "probe_service env pr resource =
     attempt (db_read env (\<lambda>st. Inr (ListPipelineRunArtifacts (mg_PipelineRunID resource) st)))
       (\<lambda>_. returned (unknown_report env (mg_Name resource))) (\<lambda>outputs.
     case find (\<lambda>artifact. art_Type artifact = (if mg_Kind resource = ''nfs'' then ''SharedStorageEndpoint'' else ''RegistryEndpoint'') \<and>
         art_VerifiedAt artifact \<noteq> 0) outputs of
       None \<Rightarrow> returned (unknown_report env (mg_Name resource))
     | Some artifact \<Rightarrow>
         attempt (readConnectivityArtifact env artifact) (\<lambda>_. returned (unknown_report env (mg_Name resource))) (\<lambda>raw.
           case endpoint_of raw of
             None \<Rightarrow> returned (unknown_report env (mg_Name resource))
           | Some spec \<Rightarrow>
               if mg_Kind resource = ''nfs'' then probe_nfs env pr resource spec
               else returned (probe_harbor env pr resource spec)))"

text \<open>\<open>None\<close> is a panic of the probe; \<open>nfs_reply_decided\<close> shows that there is none.\<close>

definition probeResource :: "'w Env \<Rightarrow> 'w Probes \<Rightarrow> ManagedResource \<Rightarrow> ('w, Connectivity option) worker" where
  "probeResource env pr resource =
     (case cluster_spec (mg_Spec resource) of
        None \<Rightarrow> returned (unknown_report env (mg_Name resource))
      | Some (mode, members) \<Rightarrow>
          if mg_Kind resource = ''kubernetes-cluster'' then returned (do {
            targets \<leftarrow> probe_members env pr (mg_PipelineRunID resource) (mode = ''multi'') 0 (if mode = ''multi'' then members else [mg_Name resource]);
            report_now env targets
          })
          else probe_service env pr resource)"

section \<open>The columns of a checked row\<close>

text \<open>The connectivity columns of \<open>provider_connections\<close> and \<open>managed_resources\<close>.\<close>

record check_row =
  ck_ID :: string
  ck_NextCheckAt :: timestamp
  ck_LeaseID :: "string option"
  ck_Failures :: nat
  ck_Connectivity :: Connectivity

record check_store =
  cs_connections :: "check_row list"
  cs_resources :: "check_row list"

definition connectivityTable :: "bool \<Rightarrow> check_store \<Rightarrow> check_row list" where
  "connectivityTable connection st = (if connection then cs_connections st else cs_resources st)"

definition set_table :: "bool \<Rightarrow> check_row list \<Rightarrow> check_store \<Rightarrow> check_store" where
  "set_table connection rows st = (if connection then st\<lparr>cs_connections := rows\<rparr> else st\<lparr>cs_resources := rows\<rparr>)"

definition check_interval :: nat where
  "check_interval = 60"

definition due_row :: "timestamp \<Rightarrow> string \<Rightarrow> check_row \<Rightarrow> bool" where
  "due_row now resourceID r \<longleftrightarrow> ck_ID r = resourceID \<and> ck_NextCheckAt r \<le> now"

definition claim_check :: "timestamp \<Rightarrow> string \<Rightarrow> check_row \<Rightarrow> check_row" where
  "claim_check now lease r = r\<lparr>ck_NextCheckAt := now + check_interval, ck_LeaseID := Some lease\<rparr>"

definition ClaimConnectivityCheck :: "timestamp \<Rightarrow> bool \<Rightarrow> string \<Rightarrow> string \<Rightarrow> check_store \<Rightarrow> bool \<times> check_store" where
  "ClaimConnectivityCheck now connection resourceID lease st =
     (let rows = connectivityTable connection st; p = due_row now resourceID
      in (0 < rows_affected p rows, set_table connection (update_where p (claim_check now lease) rows) st))"

definition failed_report :: "Connectivity \<Rightarrow> bool" where
  "failed_report report \<longleftrightarrow> cn_Status report = ''unreachable'' \<or> cn_Status report = ''unavailable'' \<or> cn_Status report = ''access-denied''"

definition save_report :: "Connectivity \<Rightarrow> check_row \<Rightarrow> check_row" where
  "save_report report r =
     r\<lparr>ck_Connectivity := (if failed_report report \<and> ck_Failures r = 0
         then report\<lparr>cn_Status := ''checking'', cn_Message := ''Connection check failed; retrying.''\<rparr> else report),
       ck_Failures := (if failed_report report then ck_Failures r + 1 else 0)\<rparr>"

text \<open>A report without a time gets the current one.\<close>

definition SaveConnectivity :: "timestamp \<Rightarrow> bool \<Rightarrow> string \<Rightarrow> string \<Rightarrow> Connectivity \<Rightarrow> check_store \<Rightarrow> check_store" where
  "SaveConnectivity now connection resourceID lease report st =
     (let report = (if cn_CheckedAt report = 0 then report\<lparr>cn_CheckedAt := now\<rparr> else report)
      in set_table connection
           (update_where (\<lambda>r. ck_ID r = resourceID \<and> ck_LeaseID r = Some lease) (save_report report) (connectivityTable connection st)) st)"

section \<open>A round of checks\<close>

text \<open>The targets of a round: saved Proxmox connections and ready resources of three kinds.\<close>

datatype check_target = OfConnection string string | OfResource ManagedResource

fun target_row :: "check_target \<Rightarrow> bool \<times> string" where
  "target_row (OfConnection k name) = (True, k)"
| "target_row (OfResource resource) = (False, mg_ID resource)"

definition monitored_kinds :: "string list" where
  "monitored_kinds = [''kubernetes-cluster'', ''harbor'', ''nfs'']"

text \<open>\<open>connections\<close> lists identifier, name and provider; a kind that cannot be listed is left out.\<close>

definition connectivity_targets :: "(string \<times> string \<times> string) list \<Rightarrow> (string \<Rightarrow> ManagedResource list option) \<Rightarrow> check_target list" where
  "connectivity_targets connections resources =
     map (\<lambda>(k, name, provider). OfConnection k name) (filter (\<lambda>(k, name, provider). provider = ''proxmox'') connections) @
     concat (map (\<lambda>kind. case resources kind of
         None \<Rightarrow> []
       | Some rs \<Rightarrow> map OfResource (filter (\<lambda>r. mg_Status r = ''ready'') rs)) monitored_kinds)"

text \<open>
  One job: claim the row, probe, save under the lease of the claim. \<open>probe\<close> is the report of the probe,
  \<open>None\<close> when the context ended before it was complete.
\<close>

definition connectivity_job ::
  "timestamp \<times> timestamp \<Rightarrow> string \<Rightarrow> (check_target \<Rightarrow> Connectivity option) \<Rightarrow> check_target \<Rightarrow> check_store \<Rightarrow> check_store" where
  "connectivity_job moments lease probe target st =
     (case (moments, target_row target) of ((claimed_at, saved_at), connection, k) \<Rightarrow>
        (case ClaimConnectivityCheck claimed_at connection k lease st of
           (False, st') \<Rightarrow> st'
         | (True, st') \<Rightarrow>
             (case probe target of
                None \<Rightarrow> st'
              | Some report \<Rightarrow> SaveConnectivity saved_at connection k lease report st')))"

section \<open>What a row shows\<close>

interpretation claim_upd: keyed_update ck_ID "claim_check now lease" for now lease
  by unfold_locales (simp add: claim_check_def)

interpretation save_upd: keyed_update ck_ID "save_report report" for report
  by unfold_locales (simp add: save_report_def)

text \<open>The statements of one row in the order the database runs them; a save names the lease of its claim.\<close>

datatype row_event = Claim timestamp string | Save timestamp string Connectivity

fun row_run :: "bool \<Rightarrow> string \<Rightarrow> row_event list \<Rightarrow> check_store \<Rightarrow> check_store" where
  "row_run connection k [] st = st"
| "row_run connection k (Claim now lease # events) st = row_run connection k events (snd (ClaimConnectivityCheck now connection k lease st))"
| "row_run connection k (Save now lease report # events) st = row_run connection k events (SaveConnectivity now connection k lease report st)"

lemma table_set [simp]: "connectivityTable connection (set_table connection rows st) = rows"
  by (simp add: connectivityTable_def set_table_def)

lemma find_claimed:
  assumes "find_row ck_ID k (connectivityTable connection st) = Some r"
  shows "find_row ck_ID k (connectivityTable connection (snd (ClaimConnectivityCheck now connection k lease st))) =
    Some (if ck_NextCheckAt r \<le> now then claim_check now lease r else r)"
  using assms find_row_key [OF assms]
  by (simp add: ClaimConnectivityCheck_def Let_def claim_upd.find_updated due_row_def)

lemma find_saved:
  assumes "find_row ck_ID k (connectivityTable connection st) = Some r"
  shows "find_row ck_ID k (connectivityTable connection (SaveConnectivity now connection k lease report st)) =
    Some (if ck_LeaseID r = Some lease
          then save_report (if cn_CheckedAt report = 0 then report\<lparr>cn_CheckedAt := now\<rparr> else report) r else r)"
  using assms find_row_key [OF assms] by (simp add: SaveConnectivity_def Let_def save_upd.find_updated)

text \<open>The reports that reach the row: those whose lease is the row's when they are saved.\<close>

fun effective :: "check_row \<Rightarrow> row_event list \<Rightarrow> Connectivity list" where
  "effective r [] = []"
| "effective r (Claim now lease # events) = effective (if ck_NextCheckAt r \<le> now then claim_check now lease r else r) events"
| "effective r (Save now lease report # events) =
     (if ck_LeaseID r = Some lease then report # effective r events else effective r events)"

definition confirmed :: "check_row \<Rightarrow> Connectivity list \<Rightarrow> bool" where
  "confirmed r past \<longleftrightarrow>
     ck_Failures r = length (takeWhile failed_report (rev past)) \<and> (failed_report (ck_Connectivity r) \<longrightarrow> 2 \<le> ck_Failures r)"

lemma failed_time [simp]: "failed_report (report\<lparr>cn_CheckedAt := now\<rparr>) = failed_report report"
  by (simp add: failed_report_def)

lemma checking_not_failed [simp]: "\<not> failed_report (report\<lparr>cn_Status := ''checking'', cn_Message := m\<rparr>)"
  by (simp add: failed_report_def)

lemma confirmed_save: "confirmed r past \<Longrightarrow> confirmed (save_report report r) (past @ [report])"
  by (simp add: confirmed_def save_report_def Suc_le_eq)

lemma confirmed_save_at:
  assumes "confirmed r past"
  shows "confirmed (save_report (if cn_CheckedAt report = 0 then report\<lparr>cn_CheckedAt := now\<rparr> else report) r) (past @ [report])"
  using confirmed_save [OF assms, of report] confirmed_save [OF assms, of "report\<lparr>cn_CheckedAt := now\<rparr>"]
  by (auto simp: confirmed_def split: if_splits)

lemma confirmed_claim: "confirmed (claim_check now lease r) past = confirmed r past"
  by (simp add: confirmed_def claim_check_def)

lemma effective_columns: "ck_NextCheckAt r = ck_NextCheckAt s \<Longrightarrow> ck_LeaseID r = ck_LeaseID s \<Longrightarrow> effective r events = effective s events"
proof (induction events arbitrary: r s)
  case (Cons event events)
  show ?case
  proof (cases event)
    case (Claim now lease)
    have "effective (claim_check now lease r) events = effective (claim_check now lease s) events"
      by (rule Cons.IH) (simp_all add: claim_check_def)
    with Claim Cons.prems(1) Cons.IH [OF Cons.prems] show ?thesis by simp
  next
    case (Save now lease report)
    with Cons.prems(2) Cons.IH [OF Cons.prems] show ?thesis by simp
  qed
qed simp

lemma run_confirmed:
  assumes "find_row ck_ID k (connectivityTable connection st) = Some r" "confirmed r past"
  shows "\<exists>r'. find_row ck_ID k (connectivityTable connection (row_run connection k events st)) = Some r' \<and> confirmed r' (past @ effective r events)"
  using assms
proof (induction events arbitrary: st r past)
  case Nil
  then show ?case by simp
next
  case (Cons event events)
  show ?case
  proof (cases event)
    case (Claim now lease)
    let ?r = "if ck_NextCheckAt r \<le> now then claim_check now lease r else r"
    have "confirmed ?r past" using Cons.prems(2) by (simp add: confirmed_claim)
    from Cons.IH [OF find_claimed [OF Cons.prems(1)] this] Claim show ?thesis by simp
  next
    case (Save now lease report)
    show ?thesis
    proof (cases "ck_LeaseID r = Some lease")
      case True
      let ?report = "if cn_CheckedAt report = 0 then report\<lparr>cn_CheckedAt := now\<rparr> else report"
      have found: "find_row ck_ID k (connectivityTable connection (SaveConnectivity now connection k lease report st)) = Some (save_report ?report r)"
        using find_saved [OF Cons.prems(1), of now lease report] True by simp
      have "effective (save_report ?report r) events = effective r events" for events
        by (rule effective_columns) (simp_all add: save_report_def)
      with Cons.IH [OF found confirmed_save_at [OF Cons.prems(2)]] Save True show ?thesis by simp
    next
      case False
      then have "find_row ck_ID k (connectivityTable connection (SaveConnectivity now connection k lease report st)) = Some r"
        using find_saved [OF Cons.prems(1), of now lease report] by simp
      from Cons.IH [OF this Cons.prems(2)] Save False show ?thesis by simp
    qed
  qed
qed
text \<open>
  C15: A failure is shown only when it is confirmed: whatever claims and saves run on a row that starts
  without a failure, when the row shows a failed status, the last two reports that reached it under
  its current lease both failed.
\<close>

theorem failure_confirmed:
  assumes "find_row ck_ID k (connectivityTable connection st) = Some r" "ck_Failures r = 0" "\<not> failed_report (ck_Connectivity r)"
    and "find_row ck_ID k (connectivityTable connection (row_run connection k events st)) = Some r'" "failed_report (ck_Connectivity r')"
  shows "\<exists>older a b. effective r events = older @ [a, b] \<and> failed_report a \<and> failed_report b"
proof -
  have "confirmed r []" using assms(2,3) by (simp add: confirmed_def)
  then have "confirmed r' (effective r events)" using run_confirmed [OF assms(1), of "[]" events] assms(4) by simp
  then have two: "2 \<le> length (takeWhile failed_report (rev (effective r events)))" using assms(5) by (simp add: confirmed_def)
  then obtain b a rest where shape: "rev (effective r events) = b # a # rest"
    by (metis One_nat_def Suc_1 Suc_le_length_iff length_takeWhile_le le_trans)
  have "effective r events = rev rest @ [a, b]" using arg_cong [OF shape, of rev] by simp
  moreover have "failed_report a" "failed_report b" using two unfolding shape by (auto split: if_splits)
  ultimately show ?thesis by blast
qed

section \<open>How often a row is checked\<close>

text \<open>The times of the claims that succeed.\<close>

fun claim_times :: "bool \<Rightarrow> string \<Rightarrow> row_event list \<Rightarrow> check_store \<Rightarrow> timestamp list" where
  "claim_times connection k [] st = []"
| "claim_times connection k (Claim now lease # events) st =
     (let (claimed, st') = ClaimConnectivityCheck now connection k lease st
      in (if claimed then [now] else []) @ claim_times connection k events st')"
| "claim_times connection k (Save now lease report # events) st =
     claim_times connection k events (SaveConnectivity now connection k lease report st)"

definition unique_rows :: "check_store \<Rightarrow> bool" where
  "unique_rows st \<longleftrightarrow> distinct (map ck_ID (cs_connections st)) \<and> distinct (map ck_ID (cs_resources st))"

lemma unique_table: "unique_rows st \<Longrightarrow> distinct (map ck_ID (connectivityTable connection st))"
  by (simp add: unique_rows_def connectivityTable_def)

lemma unique_steps:
  assumes "unique_rows st"
  shows "unique_rows (snd (ClaimConnectivityCheck now connection k lease st))" "unique_rows (SaveConnectivity now connection k lease report st)"
  using assms
  by (simp_all add: unique_rows_def ClaimConnectivityCheck_def SaveConnectivity_def Let_def set_table_def connectivityTable_def
      claim_upd.keys save_upd.keys)

lemma claimed_iff:
  assumes "unique_rows st"
  shows "fst (ClaimConnectivityCheck now connection k lease st) \<longleftrightarrow>
    (\<exists>r. find_row ck_ID k (connectivityTable connection st) = Some r \<and> ck_NextCheckAt r \<le> now)"
  using distinct_find_row [OF unique_table [OF assms, of connection]] find_row_key [of ck_ID k "connectivityTable connection st"]
  by (fastforce simp: ClaimConnectivityCheck_def Let_def rows_affected_pos due_row_def)

lemma claim_times_after:
  assumes "unique_rows st" "\<And>r. find_row ck_ID k (connectivityTable connection st) = Some r \<Longrightarrow> t \<le> ck_NextCheckAt r"
  shows "sorted_wrt (\<lambda>a b. a + check_interval \<le> b) (claim_times connection k events st) \<and> (\<forall>a \<in> set (claim_times connection k events st). t \<le> a)"
  using assms
proof (induction events arbitrary: st t)
  case Nil
  then show ?case by simp
next
  case (Cons event events)
  show ?case
  proof (cases event)
    case (Save now lease report)
    have "t \<le> ck_NextCheckAt r" if "find_row ck_ID k (connectivityTable connection (SaveConnectivity now connection k lease report st)) = Some r" for r
      using that Cons.prems(2) find_saved
      by (cases "find_row ck_ID k (connectivityTable connection st)")
        (auto simp: SaveConnectivity_def Let_def save_upd.find_updated save_report_def split: if_splits)
    from Cons.IH [OF unique_steps(2) [OF Cons.prems(1)] this] Save show ?thesis by simp
  next
    case (Claim now lease)
    let ?st = "snd (ClaimConnectivityCheck now connection k lease st)"
    show ?thesis
    proof (cases "find_row ck_ID k (connectivityTable connection st)")
      case None
      then have "find_row ck_ID k (connectivityTable connection ?st) = None"
        by (simp add: ClaimConnectivityCheck_def Let_def claim_upd.find_updated)
      moreover have "\<not> fst (ClaimConnectivityCheck now connection k lease st)" using claimed_iff [OF Cons.prems(1)] None by simp
      ultimately show ?thesis
        using Cons.IH [OF unique_steps(1) [OF Cons.prems(1)], of now connection k lease t] Claim by (simp add: split_def)
    next
      case (Some r)
      have t: "t \<le> ck_NextCheckAt r" by (rule Cons.prems(2) [OF Some])
      have found: "find_row ck_ID k (connectivityTable connection ?st) = Some (if ck_NextCheckAt r \<le> now then claim_check now lease r else r)"
        by (rule find_claimed [OF Some])
      show ?thesis
      proof (cases "ck_NextCheckAt r \<le> now")
        case True
        have "now + check_interval \<le> ck_NextCheckAt s" if "find_row ck_ID k (connectivityTable connection ?st) = Some s" for s
          using found that True by (auto simp: claim_check_def)
        from Cons.IH [OF unique_steps(1) [OF Cons.prems(1)] this] True t Claim Some show ?thesis
          using claimed_iff [OF Cons.prems(1), of now connection k lease] by (fastforce simp: split_def)
      next
        case False
        have "t \<le> ck_NextCheckAt s" if "find_row ck_ID k (connectivityTable connection ?st) = Some s" for s
          using found that False t by auto
        from Cons.IH [OF unique_steps(1) [OF Cons.prems(1)] this] False Claim Some show ?thesis
          using claimed_iff [OF Cons.prems(1), of now connection k lease] by (simp add: split_def)
      qed
    qed
  qed
qed

text \<open>
  C16: All workers together check a row at most once a minute: the claims that succeed are at least
  \<open>check_interval\<close> seconds apart, whatever else happens to the row in between.
\<close>

theorem checks_spaced:
  assumes "unique_rows st"
  shows "sorted_wrt (\<lambda>a b. a + check_interval \<le> b) (claim_times connection k events st)"
  using claim_times_after [OF assms, of k connection 0] by simp

section \<open>Replies of an NFS server\<close>

lemma four_bytes: "length xs = 4 \<longleftrightarrow> (\<exists>a b c d. xs = [a, b, c, d])"
  by (auto simp: eval_nat_numeral length_Suc_conv)

lemma be32_iff: "(\<exists>w. be32 bytes i = Some w) \<longleftrightarrow> i + 4 \<le> length bytes"
proof -
  have "(\<exists>w. be32 bytes i = Some w) \<longleftrightarrow> (\<exists>a b c d. take 4 (drop i bytes) = [a, b, c, d])"
    by (auto simp: be32_def split: list.splits)
  also have "\<dots> \<longleftrightarrow> length (take 4 (drop i bytes)) = 4" by (simp only: four_bytes)
  also have "\<dots> \<longleftrightarrow> i + 4 \<le> length bytes" by auto
  finally show ?thesis .
qed

lemma reply_size_nat: "unat (reply_size marker) = unat marker mod 2 ^ 31"
proof -
  have "reply_size marker = take_bit 31 marker" by (simp add: reply_size_def take_bit_eq_mask mask_numeral)
  then show ?thesis by (simp only: unsigned_take_bit_eq take_bit_nat_def)
qed

lemma last_fragment: "marker AND 0x80000000 = 0 \<longleftrightarrow> unat (marker :: 32 word) < 2 ^ 31"
proof -
  have top: "bit (0x80000000 :: 32 word) n \<longleftrightarrow> n = 31" for n
  proof -
    have "(0x80000000 :: 32 word) = push_bit 31 1" by simp
    then show ?thesis by (simp only: bit_push_bit_iff bit_1_iff) auto
  qed
  have "marker AND 0x80000000 = 0 \<longleftrightarrow> \<not> bit marker 31"
  proof
    assume "marker AND 0x80000000 = 0"
    then have "\<not> bit (marker AND 0x80000000) 31" by (simp only: bit_0_eq) simp
    then show "\<not> bit marker 31" by (simp only: bit_and_iff top) simp
  next
    assume "\<not> bit marker 31"
    then show "marker AND 0x80000000 = 0" by (intro bit_word_eqI) (simp only: bit_and_iff top, auto)
  qed
  also have "bit marker 31 \<longleftrightarrow> odd (unat marker div 2 ^ 31)"
    using bit_iff_odd [of "unat marker" 31] bit_unsigned_iff [of marker 31, where 'a = nat] by simp
  also have "\<dots> \<longleftrightarrow> \<not> unat marker < 2 ^ 31"
  proof -
    have "unat marker div 2 ^ 31 < 2" using ip4_bound [of marker] by (intro less_mult_imp_div_less) simp
    then have "unat marker div 2 ^ 31 = 0 \<or> unat marker div 2 ^ 31 = 1" by linarith
    then show ?thesis by (auto simp: div_eq_0_iff)
  qed
  finally show ?thesis by simp
qed

lemma and_not_mask: "(a :: 64 word) AND NOT (mask n) = push_bit n (drop_bit n a)"
  by (rule bit_word_eqI) (auto simp: bit_push_bit_iff bit_drop_bit_eq bit_and_iff bit_not_iff bit_mask_iff)

lemma and_not_three: "unat ((a :: 64 word) AND NOT 3) = unat a div 4 * 4"
proof -
  have "(3 :: 64 word) = mask 2" by (simp add: mask_eq_exp_minus_1)
  then have "a AND NOT 3 = push_bit 2 (drop_bit 2 a)" by (simp only: and_not_mask)
  moreover have "unat a div 2 ^ 2 * 2 ^ 2 < 2 ^ 64"
    using unsigned_less [of a, where 'a = nat] by (simp add: div_times_less_eq_dividend [THEN le_less_trans])
  ultimately show ?thesis by (simp only: unsigned_push_bit_eq unat_drop push_bit_nat_def) (simp add: take_bit_nat_eq_self)
qed

lemma padded_nat: "unat (padded_offset v) = 20 + (unat v + 3) div 4 * 4"
proof -
  have small: "unat v < 2 ^ 32" by (rule ip4_bound)
  have up: "unat (ucast v :: 64 word) = unat v" using small by (simp add: unsigned_ucast_eq take_bit_nat_eq_self)
  have "unat (ucast v + 3 :: 64 word) = (unat v + 3) mod 2 ^ 64" by (simp add: unat_word_ariths up)
  then have sum: "unat (ucast v + 3 :: 64 word) = unat v + 3" using small by simp
  have "unat (padded_offset v) = (20 + (unat v + 3) div 4 * 4) mod 2 ^ 64"
    by (simp only: padded_offset_def unat_word_ariths(1) [of 20] and_not_three sum) simp
  moreover have "20 + (unat v + 3) div 4 * 4 \<le> unat v + 23" using div_times_less_eq_dividend [of "unat v + 3" 4] by simp
  ultimately show ?thesis using small by simp
qed

text \<open>A reply the probe accepts, on natural numbers: one fragment, a successful answer to the call.\<close>

definition reply_accepted :: "8 word list \<Rightarrow> bool" where
  "reply_accepted reply \<longleftrightarrow>
     be32 reply 0 = Some 1 \<and> be32 reply 4 = Some 1 \<and> be32 reply 8 = Some 0 \<and>
     (\<exists>v. be32 reply 16 = Some v \<and> be32 reply (20 + (unat v + 3) div 4 * 4) = Some 0)"

definition stream_accepted :: "8 word list \<Rightarrow> bool" where
  "stream_accepted stream \<longleftrightarrow>
     (\<exists>marker. be32 stream 0 = Some marker \<and> 2 ^ 31 \<le> unat marker \<and>
        (let size = unat marker - 2 ^ 31
         in 24 \<le> size \<and> size \<le> 16384 \<and> size + 4 \<le> length stream \<and> reply_accepted (take size (drop 4 stream))))"

lemma offset_fits:
  assumes "length reply \<le> 16384"
  shows "of_nat (length reply) < padded_offset v + 4 \<longleftrightarrow> length reply < 20 + (unat v + 3) div 4 * 4 + 4"
proof -
  let ?o = "20 + (unat v + 3) div 4 * 4"
  have "?o + 4 \<le> unat v + 27" using div_times_less_eq_dividend [of "unat v + 3" 4] by simp
  also have "\<dots> < 2 ^ 64" using ip4_bound [of v] by simp
  finally have "?o + 4 < 2 ^ 64" .
  then have "unat (padded_offset v + 4) = ?o + 4" by (simp add: unat_word_ariths padded_nat)
  moreover have "unat (of_nat (length reply) :: 64 word) = length reply" using assms by (simp add: unat_of_nat)
  ultimately show ?thesis by (simp add: word_less_nat_alt)
qed

lemma reply_decided:
  assumes "24 \<le> length reply" "length reply \<le> 16384"
  shows "\<exists>b. reply_rejected reply = Some b \<and> (\<not> b \<longleftrightarrow> reply_accepted reply)"
proof -
  obtain v where v: "be32 reply 16 = Some v" using be32_iff [of reply 16] assms(1) by auto
  obtain xid kind stat where header: "be32 reply 0 = Some xid" "be32 reply 4 = Some kind" "be32 reply 8 = Some stat"
    using be32_iff [of reply 0] be32_iff [of reply 4] be32_iff [of reply 8] assms(1) by auto
  let ?o = "20 + (unat v + 3) div 4 * 4"
  show ?thesis
  proof (cases "length reply < ?o + 4")
    case True
    then have "be32 reply ?o = None" using be32_iff [of reply ?o] by auto
    with True v header offset_fits [OF assms(2), of v] show ?thesis
      by (auto simp: reply_rejected_def reply_accepted_def Let_def)
  next
    case False
    then obtain w where "be32 reply ?o = Some w" using be32_iff [of reply ?o] by auto
    with False v header offset_fits [OF assms(2), of v] show ?thesis
      by (auto simp: reply_rejected_def reply_accepted_def Let_def padded_nat)
  qed
qed

lemma nfs_decided:
  "\<exists>t. nfs_answer name e = Some t \<and> (ct_Status t = ''reachable'' \<longleftrightarrow> (\<exists>stream. e = Answer stream \<and> stream_accepted stream))"
proof (cases e)
  case (Answer stream)
  show ?thesis
  proof (cases "length stream < 4")
    case True
    then have "be32 stream 0 = None" using be32_iff [of stream 0] by auto
    with True Answer show ?thesis by (simp add: nfs_answer_def probe_result_def stream_accepted_def)
  next
    case False
    then obtain marker where marker: "be32 stream 0 = Some marker" using be32_iff [of stream 0] by auto
    show ?thesis
    proof (cases "2 ^ 31 \<le> unat marker")
      case False
      then have "marker AND 0x80000000 = 0" by (simp add: last_fragment)
      with marker Answer \<open>\<not> length stream < 4\<close> False show ?thesis
        by (simp add: nfs_answer_def Let_def probe_result_def stream_accepted_def)
    next
      case True
      let ?size = "unat marker - 2 ^ 31"
      let ?reply = "take ?size (drop 4 stream)"
      have flag: "marker AND 0x80000000 \<noteq> 0" using True by (simp add: last_fragment)
      have size: "unat (reply_size marker) = ?size"
        using True ip4_bound [of marker] by (simp add: reply_size_nat le_mod_geq)
      have range: "reply_size marker < 24 \<or> 16384 < reply_size marker \<longleftrightarrow> \<not> (24 \<le> ?size \<and> ?size \<le> 16384)"
        by (auto simp: word_less_nat_alt size)
      show ?thesis
      proof (cases "24 \<le> ?size \<and> ?size \<le> 16384 \<and> ?size + 4 \<le> length stream")
        case False
        with marker Answer \<open>\<not> length stream < 4\<close> flag size range show ?thesis
          by (auto simp: nfs_answer_def Let_def probe_result_def stream_accepted_def)
      next
        case fits: True
        then have "24 \<le> length ?reply" "length ?reply \<le> 16384" by auto
        from reply_decided [OF this] obtain b where "reply_rejected ?reply = Some b" "\<not> b \<longleftrightarrow> reply_accepted ?reply" by blast
        with marker Answer \<open>\<not> length stream < 4\<close> flag size range fits True show ?thesis
          by (cases b) (auto simp: nfs_answer_def Let_def probe_result_def stream_accepted_def)
      qed
    qed
  qed
qed (simp_all add: nfs_answer_def probe_result_def)

text \<open>
  The probe of an NFS server reads its reply safely: whatever bytes the server sends, no read is out
  of range, and the server counts as reachable exactly when it sent one last fragment of 24 to 16384
  bytes that accepts the call with success, after its padded verifier.
\<close>

theorem nfs_reply_decided:
  "\<exists>t. nfs_answer name e = Some t \<and> (ct_Status t = ''reachable'' \<longleftrightarrow> (\<exists>stream. e = Answer stream \<and> stream_accepted stream))"
  by (rule nfs_decided)

section \<open>Jobs and probes\<close>

text \<open>A job is a claim, followed by a save when the claim succeeded and the probe reported.\<close>

lemma job_events:
  assumes "target_row target = (connection, k)"
  shows "connectivity_job (claimed_at, saved_at) lease probe target st =
    row_run connection k (Claim claimed_at lease #
      (if fst (ClaimConnectivityCheck claimed_at connection k lease st)
       then (case probe target of None \<Rightarrow> [] | Some report \<Rightarrow> [Save saved_at lease report]) else [])) st"
  using assms by (auto simp: connectivity_job_def split: prod.splits bool.splits option.splits)

text \<open>Runs that return: \<open>None\<close> is never their value.\<close>

definition returns :: "('s, 'a option) state \<Rightarrow> bool" where
  "returns m \<longleftrightarrow> (\<forall>s. fst (run_state m s) \<noteq> None)"

lemma returns_bind: "(\<And>x. returns (f x)) \<Longrightarrow> returns (State_Monad.bind m f)"
  by (simp add: returns_def State_Monad.bind_def split_def)

lemma returns_attempt: "(\<And>e. returns (h e)) \<Longrightarrow> (\<And>x. returns (f x)) \<Longrightarrow> returns (attempt m h f)"
  unfolding attempt_def by (rule returns_bind) (simp split: sum.split)

lemma returns_some: "returns (State_Monad.return (Some x))"
  by (simp add: returns_def State_Monad.return_def)

lemma returns_returned: "returns (returned m)"
  unfolding returned_def by (rule returns_bind) (rule returns_some)

lemma returns_nfs: "returns (do { target \<leftarrow> NFS pr name server; case target of None \<Rightarrow> State_Monad.return None | Some t \<Rightarrow> f t })"
  if "\<And>t. returns (f t)"
  using that nfs_decided [of name]
  by (auto simp: returns_def NFS_def State_Monad.bind_def State_Monad.return_def split_def split: option.split) (metis option.distinct(1) option.sel)

text \<open>The probe of a resource never panics.\<close>

lemma probe_nfs_returns: "returns (probe_nfs env pr resource spec)"
  unfolding probe_nfs_def
  by (cases "es_Server spec = []") (simp_all add: returns_nfs returns_bind returns_some)

lemma probe_service_returns: "returns (probe_service env pr resource)"
  unfolding probe_service_def
  by (rule returns_attempt, rule returns_returned)
    (auto simp: returns_returned probe_nfs_returns split: option.split intro!: returns_attempt)

lemma probe_resource_returns: "returns (probeResource env pr resource)"
  by (auto simp: probeResource_def returns_returned probe_service_returns split: option.split)

text \<open>A report is reachable only when there are targets and none of them has a worse status.\<close>

lemma worse_fold:
  "priority (cn_Status (fold worse targets report)) = Max (insert (priority (cn_Status report)) (priority ` ct_Status ` set targets))"
proof (induction targets arbitrary: report)
  case (Cons t targets)
  have "priority (cn_Status (worse t report)) = max (priority (cn_Status report)) (priority (ct_Status t))"
    by (simp add: worse_def)
  then show ?case using Cons
    by (cases targets) (simp_all add: max.assoc)
qed simp

lemma report_worst:
  assumes "targets \<noteq> []"
  shows "priority (cn_Status (connectivityReport now targets)) = Max (priority ` ct_Status ` set targets)"
proof -
  have "priority ''reachable'' = 0" by (simp add: priority_def)
  then show ?thesis using assms by (simp add: connectivityReport_def Let_def worse_fold)
qed

section \<open>Witnesses\<close>

definition sample_report :: "string \<Rightarrow> Connectivity" where
  "sample_report s = \<lparr>cn_Status = s, cn_CheckedAt = 1, cn_Message = [], cn_Targets = []\<rparr>"

definition sample_checks :: check_store where
  "sample_checks = \<lparr>cs_connections = [\<lparr>ck_ID = ''c'', ck_NextCheckAt = 0, ck_LeaseID = None, ck_Failures = 0, ck_Connectivity = sample_report ''unknown''\<rparr>],
     cs_resources = []\<rparr>"

definition sample_checking :: "row_event list" where
  "sample_checking = [Claim 10 ''a'', Save 11 ''a'' (sample_report ''unreachable''), Claim 80 ''b'', Save 82 ''a'' (sample_report ''reachable''),
     Save 83 ''b'' (sample_report ''unreachable'')]"

lemmas sample_check_defs = sample_checks_def sample_checking_def sample_report_def connectivityTable_def set_table_def ClaimConnectivityCheck_def
  SaveConnectivity_def Let_def due_row_def claim_check_def save_report_def failed_report_def check_interval_def find_row_def update_where_def rows_affected_def

theorem failure_confirmed_witness:
  "\<exists>older a b. effective (hd (cs_connections sample_checks)) sample_checking = older @ [a, b] \<and> failed_report a \<and> failed_report b"
  by (rule failure_confirmed [of "''c''" True sample_checks "hd (cs_connections sample_checks)" sample_checking
      "hd (cs_connections (row_run True ''c'' sample_checking sample_checks))"])
    (simp_all add: sample_check_defs)

theorem checks_spaced_witness:
  "sorted_wrt (\<lambda>a b. a + check_interval \<le> b) (claim_times True ''c'' sample_checking sample_checks) \<and>
   claim_times True ''c'' sample_checking sample_checks = [10, 80]"
  using checks_spaced [of sample_checks True "''c''" sample_checking] by (simp add: unique_rows_def sample_check_defs)

end
