(* ===== verification/Placement.thy ===== *)
theory Placement
  imports Schema
begin

text \<open>
  Placement of workloads: labels, taints and tolerations (\<open>internal/placement/settings.go\<close>) and the patch
  that brings a node from the settings of its pool before to those after
  (\<open>plugins/k3s/runtime/node_settings.go\<close>).
\<close>

section \<open>Settings\<close>

text \<open>A Go map from strings is an association list in the order it is iterated.\<close>

record Taint =
  ta_Key :: string
  ta_Value :: string
  ta_Effect :: string

record Toleration =
  tol_Key :: string
  tol_Operator :: string
  tol_Value :: string
  tol_Effect :: string
  tol_TolerationSeconds :: "int option"

record PoolSettings =
  pool_Labels :: "(string \<times> string) list"
  pool_Taints :: "Taint list"

record ServiceOverride =
  so_NodeSelectorMode :: string
  so_NodeSelector :: "(string \<times> string) list"
  so_TolerationsMode :: string
  so_Tolerations :: "Toleration list"

record ApplicationSettings =
  as_NodeSelector :: "(string \<times> string) list"
  as_Tolerations :: "Toleration list"
  as_ServiceOverrides :: "(string \<times> ServiceOverride) list"

datatype placement_error =
    InvalidLabel string
  | ManagedLabel string
  | TooManyTaints
  | InvalidTaint string
  | ManagedTaint string
  | DuplicateTaint string string
  | TooManyTolerations
  | InvalidOperator
  | InvalidTolerationKey
  | InvalidTolerationValue
  | InvalidTolerationEffect
  | InvalidTolerationTime
  | DuplicateToleration
  | TooManyOverrides
  | InvalidMode string
  | InService string placement_error

section \<open>Keys and values\<close>

definition is_alnum :: "char \<Rightarrow> bool" where
  "is_alnum c \<longleftrightarrow> is_upper c \<or> is_lower c \<or> is_digit c"

definition labelName :: "string \<Rightarrow> bool" where
  "labelName s \<longleftrightarrow> s \<noteq> [] \<and> length s \<le> 63 \<and> is_alnum (hd s) \<and> is_alnum (last s) \<and>
     list_all (\<lambda>c. is_alnum c \<or> c \<in> set ''_.-'') s"

definition dnsLabel :: "string \<Rightarrow> bool" where
  "dnsLabel s \<longleftrightarrow> s \<noteq> [] \<and> length s \<le> 63 \<and> (is_lower (hd s) \<or> is_digit (hd s)) \<and> (is_lower (last s) \<or> is_digit (last s)) \<and>
     list_all (\<lambda>c. is_lower c \<or> is_digit c \<or> c = CHR ''-'') s"

definition ValidKey :: "string \<Rightarrow> bool" where
  "ValidKey key =
     (let parts = split_on CHR ''/'' key
      in if 2 < length parts \<or> \<not> labelName (last parts) then False
         else if length parts = 2 then length (hd parts) \<le> 253 \<and> list_all dnsLabel (split_on CHR ''.'' (hd parts))
         else True)"

definition ValidValue :: "string \<Rightarrow> bool" where
  "ValidValue v \<longleftrightarrow> v = [] \<or> labelName v"

definition ManagedKey :: "string \<Rightarrow> bool" where
  "ManagedKey key = list_ex (\<lambda>p. has_prefix p key) [''kubephos.dev/'', ''kubernetes.io/'', ''node-role.kubernetes.io/'', ''topology.kubernetes.io/'']"

definition ValidEffect :: "string \<Rightarrow> bool" where
  "ValidEffect effect \<longleftrightarrow> effect = ''NoSchedule'' \<or> effect = ''PreferNoSchedule'' \<or> effect = ''NoExecute''"

definition ManagedTaintKey :: "string \<Rightarrow> bool" where
  "ManagedTaintKey key \<longleftrightarrow> ManagedKey key \<or> has_prefix ''node.kubernetes.io/'' key \<or> has_prefix ''node.cloudprovider.kubernetes.io/'' key"

section \<open>Validation\<close>

fun ValidateLabels :: "(string \<times> string) list \<Rightarrow> bool \<Rightarrow> placement_error option" where
  "ValidateLabels [] protectManaged = None"
| "ValidateLabels ((key, v) # labels) protectManaged =
     (if \<not> ValidKey key \<or> \<not> ValidValue v then Some (InvalidLabel key)
      else if protectManaged \<and> ManagedKey key then Some (ManagedLabel key)
      else ValidateLabels labels protectManaged)"

definition taint_key :: "string \<Rightarrow> string \<Rightarrow> string" where
  "taint_key key effect = key @ ''/'' @ effect"

fun validate_taints :: "string list \<Rightarrow> Taint list \<Rightarrow> placement_error option" where
  "validate_taints seen [] = None"
| "validate_taints seen (t # ts) =
     (if \<not> ValidKey (ta_Key t) \<or> \<not> ValidValue (ta_Value t) \<or> \<not> ValidEffect (ta_Effect t) then Some (InvalidTaint (ta_Key t))
      else if ManagedTaintKey (ta_Key t) then Some (ManagedTaint (ta_Key t))
      else if taint_key (ta_Key t) (ta_Effect t) \<in> set seen then Some (DuplicateTaint (ta_Key t) (ta_Effect t))
      else validate_taints (taint_key (ta_Key t) (ta_Effect t) # seen) ts)"

definition ValidatePool :: "PoolSettings \<Rightarrow> placement_error option" where
  "ValidatePool settings =
     (case ValidateLabels (pool_Labels settings) True of
        Some e \<Rightarrow> Some e
      | None \<Rightarrow> if 64 < length (pool_Taints settings) then Some TooManyTaints else validate_taints [] (pool_Taints settings))"

text \<open>The JSON object of a toleration, without its empty fields; equal texts are equal objects.\<close>

definition text_field :: "string \<Rightarrow> string \<Rightarrow> (string \<times> json) list" where
  "text_field key s = (if s = [] then [] else [(key, JStr s)])"

definition toleration_json :: "Toleration \<Rightarrow> json" where
  "toleration_json t = JObj (text_field ''key'' (tol_Key t) @ text_field ''operator'' (tol_Operator t) @ text_field ''value'' (tol_Value t) @
     text_field ''effect'' (tol_Effect t) @
     (case tol_TolerationSeconds t of None \<Rightarrow> [] | Some n \<Rightarrow> [(''tolerationSeconds'', JNum (show_int n))]))"

definition default_operator :: "Toleration \<Rightarrow> string" where
  "default_operator t = (if tol_Operator t = [] then ''Equal'' else tol_Operator t)"

definition check_toleration :: "Toleration \<Rightarrow> placement_error option" where
  "check_toleration t =
     (let operator = default_operator t
      in if operator \<noteq> ''Equal'' \<and> operator \<noteq> ''Exists'' then Some InvalidOperator
         else if tol_Key t = [] \<and> operator \<noteq> ''Exists'' \<or> tol_Key t \<noteq> [] \<and> \<not> ValidKey (tol_Key t) then Some InvalidTolerationKey
         else if operator = ''Exists'' \<and> tol_Value t \<noteq> [] \<or> \<not> ValidValue (tol_Value t) then Some InvalidTolerationValue
         else if tol_Effect t \<noteq> [] \<and> \<not> ValidEffect (tol_Effect t) then Some InvalidTolerationEffect
         else case tol_TolerationSeconds t of
             None \<Rightarrow> None
           | Some n \<Rightarrow> if n < 0 \<or> tol_Effect t \<noteq> ''NoExecute'' then Some InvalidTolerationTime else None)"

fun validate_tolerations :: "json list \<Rightarrow> Toleration list \<Rightarrow> placement_error option" where
  "validate_tolerations seen [] = None"
| "validate_tolerations seen (t # ts) =
     (case check_toleration t of
        Some e \<Rightarrow> Some e
      | None \<Rightarrow>
          let raw = toleration_json (t\<lparr>tol_Operator := default_operator t\<rparr>)
          in if raw \<in> set seen then Some DuplicateToleration else validate_tolerations (raw # seen) ts)"

definition ValidateTolerations :: "Toleration list \<Rightarrow> placement_error option" where
  "ValidateTolerations ts = (if 64 < length ts then Some TooManyTolerations else validate_tolerations [] ts)"

definition valid_mode :: "string \<Rightarrow> bool" where
  "valid_mode mode \<longleftrightarrow> mode = [] \<or> mode = ''inherit'' \<or> mode = ''custom'' \<or> mode = ''none''"

fun validate_overrides :: "(string \<times> ServiceOverride) list \<Rightarrow> placement_error option" where
  "validate_overrides [] = None"
| "validate_overrides ((service, override) # rest) =
     (if \<not> valid_mode (so_NodeSelectorMode override) \<or> \<not> valid_mode (so_TolerationsMode override) then Some (InvalidMode service)
      else case ValidateLabels (so_NodeSelector override) False of
          Some e \<Rightarrow> Some (InService service e)
        | None \<Rightarrow>
            (case ValidateTolerations (so_Tolerations override) of
               Some e \<Rightarrow> Some (InService service e)
             | None \<Rightarrow> validate_overrides rest))"

definition ValidateApplication :: "ApplicationSettings option \<Rightarrow> placement_error option" where
  "ValidateApplication settings =
     (case settings of
        None \<Rightarrow> None
      | Some s \<Rightarrow>
          (case ValidateLabels (as_NodeSelector s) False of
             Some e \<Rightarrow> Some e
           | None \<Rightarrow>
               (case ValidateTolerations (as_Tolerations s) of
                  Some e \<Rightarrow> Some e
                | None \<Rightarrow> if 500 < length (as_ServiceOverrides s) then Some TooManyOverrides else validate_overrides (as_ServiceOverrides s))))"

definition no_override :: ServiceOverride where
  "no_override = \<lparr>so_NodeSelectorMode = [], so_NodeSelector = [], so_TolerationsMode = [], so_Tolerations = []\<rparr>"

definition Effective :: "ApplicationSettings option \<Rightarrow> string \<Rightarrow> (string \<times> string) list \<times> Toleration list" where
  "Effective settings service =
     (case settings of
        None \<Rightarrow> ([], [])
      | Some s \<Rightarrow>
          let override = (case map_of (as_ServiceOverrides s) service of None \<Rightarrow> no_override | Some x \<Rightarrow> x)
          in (if so_NodeSelectorMode override = ''none'' then []
              else if so_NodeSelectorMode override = ''custom'' then so_NodeSelector override else as_NodeSelector s,
              if so_TolerationsMode override = ''none'' then []
              else if so_TolerationsMode override = ''custom'' then so_Tolerations override else as_Tolerations s))"

section \<open>The patch of a node\<close>

text \<open>
  A node has labels and the taints its API object lists, as decoded JSON objects. A patch sets a label,
  removes it (null) or leaves it, and replaces the taints or leaves them. \<open>fmt\<close> prints a number.
\<close>

type_synonym node_taint = "(string \<times> json) list"

record node_patch =
  np_labels :: "(string \<times> string option) list"
  np_taints :: "node_taint list option"

definition taintMap :: "Taint \<Rightarrow> node_taint" where
  "taintMap t = [(''key'', JStr (ta_Key t)), (''effect'', JStr (ta_Effect t))] @ text_field ''value'' (ta_Value t)"

definition taint_field :: "node_taint \<Rightarrow> string \<Rightarrow> json" where
  "taint_field t key = (case map_of t key of None \<Rightarrow> JNull | Some v \<Rightarrow> v)"

definition node_key :: "(string \<Rightarrow> string) \<Rightarrow> node_taint \<Rightarrow> string" where
  "node_key fmt t = taint_key (sprint fmt (taint_field t ''key'')) (sprint fmt (taint_field t ''effect''))"

definition changed_labels :: "(string \<times> string) list \<Rightarrow> PoolSettings \<Rightarrow> (string \<times> string option) list" where
  "changed_labels labels after =
     map (\<lambda>(key, v). (key, Some v)) (filter (\<lambda>(key, v). \<not> ManagedKey key \<and> map_of labels key \<noteq> Some v) (pool_Labels after))"

definition removed_labels :: "(string \<times> string) list \<Rightarrow> PoolSettings \<Rightarrow> PoolSettings \<Rightarrow> (string \<times> string option) list" where
  "removed_labels labels before after =
     map (\<lambda>(key, old). (key, None))
       (filter (\<lambda>(key, old). map_of (pool_Labels after) key = None \<and> \<not> ManagedKey key \<and> map_of labels key = Some old) (pool_Labels before))"

text \<open>A later taint with the same key and effect replaces an earlier one.\<close>

definition taint_map :: "Taint list \<Rightarrow> (string \<rightharpoonup> Taint)" where
  "taint_map ts = fold (\<lambda>t m. if ManagedTaintKey (ta_Key t) then m else m(taint_key (ta_Key t) (ta_Effect t) \<mapsto> t)) ts Map.empty"

definition taint_matches :: "(string \<Rightarrow> string) \<Rightarrow> node_taint \<Rightarrow> Taint \<Rightarrow> bool" where
  "taint_matches fmt t d \<longleftrightarrow> sprint fmt (taint_field t ''value'') = ta_Value d \<or> taint_field t ''value'' = JNull \<and> ta_Value d = []"

definition owned_value :: "node_taint \<Rightarrow> Taint \<Rightarrow> bool" where
  "owned_value t old \<longleftrightarrow> taint_field t ''value'' = JStr (ta_Value old) \<or> taint_field t ''value'' = JNull \<and> ta_Value old = []"

text \<open>The loop over the node's taints: what it keeps, and the desired taints that are left.\<close>

fun next_taints :: "(string \<Rightarrow> string) \<Rightarrow> (string \<rightharpoonup> Taint) \<Rightarrow> (string \<rightharpoonup> Taint) \<Rightarrow> node_taint list \<Rightarrow> node_taint list \<times> (string \<rightharpoonup> Taint)" where
  "next_taints fmt previous desired [] = ([], desired)"
| "next_taints fmt previous desired (t # ts) =
     (let key = node_key fmt t
      in case desired key of
          Some d \<Rightarrow>
            (let (rest, left) = next_taints fmt previous (desired(key := None)) ts
             in ((if taint_matches fmt t d then t else taintMap d) # rest, left))
        | None \<Rightarrow>
            (let (rest, left) = next_taints fmt previous desired ts
             in (if (case previous key of None \<Rightarrow> False | Some old \<Rightarrow> owned_value t old) then rest else t # rest, left)))"

definition desired_taints :: "(string \<Rightarrow> string) \<Rightarrow> node_taint list \<Rightarrow> PoolSettings \<Rightarrow> PoolSettings \<Rightarrow> node_taint list" where
  "desired_taints fmt taints before after =
     (let (kept, left) = next_taints fmt (taint_map (pool_Taints before)) (taint_map (pool_Taints after)) taints
      in kept @ map taintMap (filter (\<lambda>t. left (taint_key (ta_Key t) (ta_Effect t)) \<noteq> None) (pool_Taints after)))"

definition nodeSettingsPatch ::
  "(string \<Rightarrow> string) \<Rightarrow> (string \<times> string) list \<Rightarrow> node_taint list \<Rightarrow> PoolSettings \<Rightarrow> PoolSettings \<Rightarrow> node_patch" where
  "nodeSettingsPatch fmt labels taints before after =
     (let wanted = desired_taints fmt taints before after
      in \<lparr>np_labels = changed_labels labels after @ removed_labels labels before after,
          np_taints = (if wanted \<noteq> taints then Some wanted else None)\<rparr>)"

text \<open>A merge patch of the API server on the labels and taints of a node.\<close>

definition patched_labels :: "node_patch \<Rightarrow> (string \<times> string) list \<Rightarrow> (string \<times> string) list" where
  "patched_labels patch labels =
     fold (\<lambda>(key, change) ls. case change of None \<Rightarrow> filter (\<lambda>(k, v). k \<noteq> key) ls | Some v \<Rightarrow> obj_set key v ls) (np_labels patch) labels"

definition patched_taints :: "node_patch \<Rightarrow> node_taint list \<Rightarrow> node_taint list" where
  "patched_taints patch taints = (case np_taints patch of None \<Rightarrow> taints | Some ts \<Rightarrow> ts)"

section \<open>Validated pools\<close>

lemma labels_valid:
  "ValidateLabels labels protect = None \<longleftrightarrow>
     list_all (\<lambda>(key, v). ValidKey key \<and> ValidValue v \<and> \<not> (protect \<and> ManagedKey key)) labels"
  by (induction labels protect rule: ValidateLabels.induct) auto

lemma effect_plain: "ValidEffect effect \<Longrightarrow> CHR ''/'' \<notin> set effect"
  by (auto simp: ValidEffect_def)

lemma taint_key_inj:
  assumes "CHR ''/'' \<notin> set effect" "CHR ''/'' \<notin> set effect'"
  shows "taint_key key effect = taint_key key' effect' \<longleftrightarrow> key = key' \<and> effect = effect'"
proof -
  have "taint_key key effect = taint_key key' effect' \<longleftrightarrow> rev (taint_key key effect) = rev (taint_key key' effect')" by simp
  also have "\<dots> \<longleftrightarrow> rev effect = rev effect' \<and> rev key = rev key'"
    using assms separator_inj [of "CHR ''/''" "rev effect" "rev effect'" "rev key" "rev key'"] by (simp add: taint_key_def)
  finally show ?thesis by auto
qed

definition key_of :: "Taint \<Rightarrow> string" where
  "key_of t = taint_key (ta_Key t) (ta_Effect t)"

definition valid_taint :: "Taint \<Rightarrow> bool" where
  "valid_taint t \<longleftrightarrow> ValidKey (ta_Key t) \<and> ValidValue (ta_Value t) \<and> ValidEffect (ta_Effect t) \<and> \<not> ManagedTaintKey (ta_Key t)"

lemma taints_valid:
  "validate_taints seen ts = None \<longleftrightarrow> list_all valid_taint ts \<and> distinct (map key_of ts) \<and> set (map key_of ts) \<inter> set seen = {}"
  by (induction seen ts rule: validate_taints.induct) (auto simp: valid_taint_def key_of_def)

lemma key_of_inj: "valid_taint s \<Longrightarrow> valid_taint t \<Longrightarrow> key_of s = key_of t \<longleftrightarrow> ta_Key s = ta_Key t \<and> ta_Effect s = ta_Effect t"
  by (auto simp: key_of_def valid_taint_def taint_key_inj effect_plain)

lemma taint_keys_distinct:
  assumes "list_all valid_taint ts"
  shows "distinct (map key_of ts) \<longleftrightarrow> distinct (map (\<lambda>t. (ta_Key t, ta_Effect t)) ts)"
  using assms by (induction ts) (auto simp: key_of_inj list_all_iff image_iff)

text \<open>What \<open>ValidatePool\<close> accepts.\<close>

lemma pool_valid:
  "ValidatePool settings = None \<longleftrightarrow>
     list_all (\<lambda>(key, v). ValidKey key \<and> ValidValue v \<and> \<not> ManagedKey key) (pool_Labels settings) \<and>
     length (pool_Taints settings) \<le> 64 \<and> list_all valid_taint (pool_Taints settings) \<and>
     distinct (map (\<lambda>t. (ta_Key t, ta_Effect t)) (pool_Taints settings))"
proof -
  have "validate_taints [] (pool_Taints settings) = None \<longleftrightarrow>
      list_all valid_taint (pool_Taints settings) \<and> distinct (map (\<lambda>t. (ta_Key t, ta_Effect t)) (pool_Taints settings))"
    using taint_keys_distinct [of "pool_Taints settings"] taints_valid [of "[]" "pool_Taints settings"] by auto
  moreover have "ValidateLabels (pool_Labels settings) True = None \<longleftrightarrow>
      list_all (\<lambda>(key, v). ValidKey key \<and> ValidValue v \<and> \<not> ManagedKey key) (pool_Labels settings)"
    by (simp add: labels_valid)
  ultimately show ?thesis by (auto simp: ValidatePool_def split: option.splits)
qed

section \<open>Labels after the patch\<close>

lemma patched_labels_map:
  "map_of (patched_labels patch labels) k = (case map_of (rev (np_labels patch)) k of None \<Rightarrow> map_of labels k | Some change \<Rightarrow> change)"
proof -
  have "map_of (fold (\<lambda>(key, change) ls. case change of None \<Rightarrow> filter (\<lambda>(k, v). k \<noteq> key) ls | Some v \<Rightarrow> obj_set key v ls) ps ls) k =
      (case map_of (rev ps) k of None \<Rightarrow> map_of ls k | Some change \<Rightarrow> change)" for ps ls
  proof (induction ps arbitrary: ls)
    case (Cons p ps)
    have step: "map_of (case snd p of None \<Rightarrow> filter (\<lambda>(k, v). k \<noteq> fst p) ls | Some v \<Rightarrow> obj_set (fst p) v ls) k =
        (if k = fst p then snd p else map_of ls k)"
      by (induction ls) (auto simp: map_of_obj_set split: option.splits if_splits)
    show ?case using Cons [of "case snd p of None \<Rightarrow> filter (\<lambda>(k, v). k \<noteq> fst p) ls | Some v \<Rightarrow> obj_set (fst p) v ls"] step
      by (auto simp: split_def map_of_append map_add_def split: option.splits)
  qed simp
  then show ?thesis by (simp add: patched_labels_def)
qed

lemma map_of_kept:
  assumes "distinct (map fst ls)"
  shows "map_of (map (\<lambda>(key, v). (key, f v)) (filter (\<lambda>(key, v). p key v) ls)) k =
    (case map_of ls k of None \<Rightarrow> None | Some v \<Rightarrow> if p k v then Some (f v) else None)"
  using assms
proof (induction ls)
  case (Cons kv ls)
  obtain key v where kv: "kv = (key, v)" by (cases kv)
  have "key = k \<Longrightarrow> map_of ls k = None" using Cons.prems kv by (simp add: map_of_eq_None_iff)
  with Cons kv show ?case by auto
qed simp

lemma map_of_changed:
  "distinct (map fst (pool_Labels after)) \<Longrightarrow> map_of (changed_labels labels after) k =
    (case map_of (pool_Labels after) k of None \<Rightarrow> None | Some v \<Rightarrow> if \<not> ManagedKey k \<and> map_of labels k \<noteq> Some v then Some (Some v) else None)"
  unfolding changed_labels_def by (rule map_of_kept)

lemma map_of_removed:
  "distinct (map fst (pool_Labels before)) \<Longrightarrow> map_of (removed_labels labels before after) k =
    (case map_of (pool_Labels before) k of None \<Rightarrow> None
     | Some old \<Rightarrow> if map_of (pool_Labels after) k = None \<and> \<not> ManagedKey k \<and> map_of labels k = Some old then Some None else None)"
  unfolding removed_labels_def by (rule map_of_kept)

lemma map_of_rev_distinct: "distinct (map fst ps) \<Longrightarrow> map_of (rev ps) = map_of ps"
  by (intro map_of_eqI) (auto simp: rev_map [symmetric] map_of_eq_Some_iff)

lemma patch_keys:
  assumes "distinct (map fst (pool_Labels after))" "distinct (map fst (pool_Labels before))"
  shows "distinct (map fst (changed_labels labels after @ removed_labels labels before after))"
proof -
  have "fst ` set (changed_labels labels after) \<subseteq> fst ` set (pool_Labels after)" by (force simp: changed_labels_def)
  moreover have "fst ` set (removed_labels labels before after) \<inter> fst ` set (pool_Labels after) = {}"
    by (force simp: removed_labels_def map_of_eq_None_iff)
  moreover have "distinct (map fst (changed_labels labels after))" "distinct (map fst (removed_labels labels before after))"
    using assms by (auto simp: changed_labels_def removed_labels_def comp_def split_def distinct_map_filter)
  ultimately show ?thesis by auto
qed

definition reconciled_label :: "PoolSettings \<Rightarrow> PoolSettings \<Rightarrow> (string \<times> string) list \<Rightarrow> string \<Rightarrow> string option" where
  "reconciled_label before after labels k =
     (case map_of (pool_Labels after) k of
        Some v \<Rightarrow> Some v
      | None \<Rightarrow> if map_of (pool_Labels before) k \<noteq> None \<and> map_of (pool_Labels before) k = map_of labels k then None else map_of labels k)"

lemma labels_reconciled:
  assumes "distinct (map fst (pool_Labels after))" "distinct (map fst (pool_Labels before))"
    and "ValidatePool before = None" "ValidatePool after = None"
  shows "map_of (patched_labels (nodeSettingsPatch fmt labels taints before after) labels) k = reconciled_label before after labels k"
proof -
  have unmanaged: "\<not> ManagedKey k" if "map_of (pool_Labels s) k = Some v" "s \<in> {before, after}" for s v
    using assms(3,4) that map_of_SomeD [OF that(1)] by (auto simp: pool_valid list_all_iff)
  have lookup: "map_of (rev (np_labels (nodeSettingsPatch fmt labels taints before after))) k =
      (map_of (changed_labels labels after) ++ map_of (removed_labels labels before after)) k"
    using map_of_rev_distinct [OF patch_keys [OF assms(1,2)], of labels] map_add_comm [of "map_of (changed_labels labels after)" "map_of (removed_labels labels before after)"]
      patch_keys [OF assms(1,2), of labels]
    by (simp add: nodeSettingsPatch_def Let_def dom_map_of_conv_image_fst del: rev_append)
  show ?thesis
    unfolding patched_labels_map lookup map_add_def map_of_changed [OF assms(1)] map_of_removed [OF assms(2)] reconciled_label_def
    using unmanaged by (cases "map_of (pool_Labels after) k"; cases "map_of (pool_Labels before) k") auto
qed

section \<open>Taints after the patch\<close>

lemma taint_map_valid:
  assumes "list_all valid_taint ts" "distinct (map key_of ts)"
  shows "taint_map ts = map_of (map (\<lambda>t. (key_of t, t)) ts)"
proof -
  have "list_all valid_taint ts \<Longrightarrow>
      fold (\<lambda>t m. if ManagedTaintKey (ta_Key t) then m else m(taint_key (ta_Key t) (ta_Effect t) \<mapsto> t)) ts m =
      m ++ map_of (rev (map (\<lambda>t. (key_of t, t)) ts))" for m
    by (induction ts arbitrary: m) (auto simp: valid_taint_def key_of_def)
  then show ?thesis using assms map_of_rev_distinct [of "map (\<lambda>t. (key_of t, t)) ts"]
    by (simp add: taint_map_def comp_def)
qed

text \<open>With distinct keys on the node, each taint is treated alone.\<close>

definition next_taint :: "(string \<Rightarrow> string) \<Rightarrow> (string \<rightharpoonup> Taint) \<Rightarrow> (string \<rightharpoonup> Taint) \<Rightarrow> node_taint \<Rightarrow> node_taint list" where
  "next_taint fmt previous desired t =
     (case desired (node_key fmt t) of
        Some d \<Rightarrow> [if taint_matches fmt t d then t else taintMap d]
      | None \<Rightarrow> if (case previous (node_key fmt t) of None \<Rightarrow> False | Some old \<Rightarrow> owned_value t old) then [] else [t])"

lemma next_taints_map:
  assumes "distinct (map (node_key fmt) ts)"
  shows "next_taints fmt previous desired ts =
    (concat (map (next_taint fmt previous desired) ts), \<lambda>k. if k \<in> set (map (node_key fmt) ts) then None else desired k)"
  using assms
proof (induction ts arbitrary: desired)
  case (Cons t ts)
  have rest: "map (next_taint fmt previous (desired(node_key fmt t := None))) ts = map (next_taint fmt previous desired) ts"
    using Cons.prems by (auto simp: next_taint_def image_iff)
  have dist: "distinct (map (node_key fmt) ts)" using Cons.prems by simp
  show ?case
  proof (cases "desired (node_key fmt t)")
    case None
    then show ?thesis using Cons.IH [OF dist, of desired] by (auto simp: Let_def next_taint_def [of fmt previous desired t])
  next
    case (Some d)
    define left where "left = desired(node_key fmt t := None)"
    have "(\<lambda>k. if k \<in> node_key fmt ` set ts then None else left k) = (\<lambda>k. if k = node_key fmt t \<or> k \<in> node_key fmt ` set ts then None else desired k)"
      by (auto simp: left_def)
    moreover have "map (next_taint fmt previous left) ts = map (next_taint fmt previous desired) ts" using rest by (simp only: left_def)
    ultimately have "next_taints fmt previous left ts =
        (concat (map (next_taint fmt previous desired) ts), \<lambda>k. if k = node_key fmt t \<or> k \<in> node_key fmt ` set ts then None else desired k)"
      using Cons.IH [OF dist, of left] by (simp del: map_eq_conv)
    then show ?thesis using Some by (simp add: Let_def next_taint_def [of fmt previous desired t] left_def [symmetric])
  qed
qed simp

lemma key_taintMap [simp]: "node_key fmt (taintMap d) = key_of d"
  by (simp add: node_key_def taintMap_def taint_field_def key_of_def)

lemma value_taintMap [simp]: "taint_matches fmt (taintMap d) d"
  by (auto simp: taint_matches_def taintMap_def taint_field_def text_field_def)

text \<open>What the node has after the patch.\<close>

definition applied_taint :: "(string \<Rightarrow> string) \<Rightarrow> Taint list \<Rightarrow> node_taint \<Rightarrow> bool" where
  "applied_taint fmt desired t = list_ex (\<lambda>d. key_of d = node_key fmt t \<and> taint_matches fmt t d) desired"

definition kept_taint :: "(string \<Rightarrow> string) \<Rightarrow> Taint list \<Rightarrow> Taint list \<Rightarrow> node_taint \<Rightarrow> bool" where
  "kept_taint fmt previous desired t \<longleftrightarrow>
     \<not> list_ex (\<lambda>d. key_of d = node_key fmt t) desired \<and> \<not> list_ex (\<lambda>old. key_of old = node_key fmt t \<and> owned_value t old) previous"

lemma map_of_keyed:
  "distinct (map key_of ts) \<Longrightarrow> map_of (map (\<lambda>t. (key_of t, t)) ts) k = Some t \<longleftrightarrow> t \<in> set ts \<and> key_of t = k"
  by (auto simp: map_of_eq_Some_iff comp_def)

lemma map_of_keyed_None: "map_of (map (\<lambda>t. (key_of t, t)) ts) k = None \<longleftrightarrow> \<not> list_ex (\<lambda>t. key_of t = k) ts"
  by (auto simp: map_of_eq_None_iff list_ex_iff image_iff)

lemma pool_taints:
  assumes "ValidatePool settings = None"
  shows "list_all valid_taint (pool_Taints settings)" "distinct (map key_of (pool_Taints settings))"
    "taint_map (pool_Taints settings) = map_of (map (\<lambda>t. (key_of t, t)) (pool_Taints settings))"
  using assms by (simp_all add: pool_valid taint_keys_distinct taint_map_valid)

text \<open>The taints of the node that the patch keeps or replaces, and those it adds.\<close>

definition added_taints :: "(string \<Rightarrow> string) \<Rightarrow> node_taint list \<Rightarrow> Taint list \<Rightarrow> Taint list" where
  "added_taints fmt taints desired = filter (\<lambda>d. key_of d \<notin> set (map (node_key fmt) taints)) desired"

lemma desired_taints_eq:
  assumes "ValidatePool before = None" "ValidatePool after = None" "distinct (map (node_key fmt) taints)"
  shows "desired_taints fmt taints before after =
    concat (map (next_taint fmt (taint_map (pool_Taints before)) (taint_map (pool_Taints after))) taints) @
    map taintMap (added_taints fmt taints (pool_Taints after))"
proof -
  have "taint_map (pool_Taints after) (key_of d) \<noteq> None" if "d \<in> set (pool_Taints after)" for d
    using that map_of_keyed [OF pool_taints(2) [OF assms(2)], of "key_of d" d] by (simp add: pool_taints(3) [OF assms(2)])
  then have "filter (\<lambda>d. (if key_of d \<in> set (map (node_key fmt) taints) then None else taint_map (pool_Taints after) (key_of d)) \<noteq> None) (pool_Taints after) =
      added_taints fmt taints (pool_Taints after)"
    unfolding added_taints_def by (intro filter_cong) simp_all
  then show ?thesis
    unfolding desired_taints_def next_taints_map [OF assms(3)] key_of_def [symmetric] by simp
qed

lemma next_taint_member:
  assumes "ValidatePool before = None" "ValidatePool after = None"
    and "u \<in> set (next_taint fmt (taint_map (pool_Taints before)) (taint_map (pool_Taints after)) t)"
  shows "node_key fmt u = node_key fmt t \<and>
    (applied_taint fmt (pool_Taints after) u \<or> u = t \<and> kept_taint fmt (pool_Taints before) (pool_Taints after) t)"
proof (cases "taint_map (pool_Taints after) (node_key fmt t)")
  case None
  with assms(3) have "u = t" "\<not> list_ex (\<lambda>old. key_of old = node_key fmt t \<and> owned_value t old) (pool_Taints before)"
    using map_of_keyed [OF pool_taints(2) [OF assms(1)], of "node_key fmt t"]
    by (auto simp: next_taint_def pool_taints(3) [OF assms(1)] list_ex_iff split: option.splits if_splits) (metis)
  moreover have "\<not> list_ex (\<lambda>d. key_of d = node_key fmt t) (pool_Taints after)"
    using None by (simp add: pool_taints(3) [OF assms(2)] map_of_keyed_None)
  ultimately show ?thesis by (simp add: kept_taint_def)
next
  case (Some d)
  then have "d \<in> set (pool_Taints after)" "key_of d = node_key fmt t"
    using map_of_keyed [OF pool_taints(2) [OF assms(2)], of "node_key fmt t" d] by (simp_all add: pool_taints(3) [OF assms(2)])
  with Some assms(3) show ?thesis by (auto simp: next_taint_def applied_taint_def list_ex_iff split: if_splits)
qed

lemma next_taint_length: "length (next_taint fmt previous desired t) \<le> 1"
  by (simp add: next_taint_def split: option.split)

lemma next_taint_kept:
  assumes "ValidatePool before = None" "ValidatePool after = None"
  shows "filter (\<lambda>u. \<not> applied_taint fmt (pool_Taints after) u)
      (next_taint fmt (taint_map (pool_Taints before)) (taint_map (pool_Taints after)) t) =
    (if kept_taint fmt (pool_Taints before) (pool_Taints after) t then [t] else [])"
proof (cases "taint_map (pool_Taints after) (node_key fmt t)")
  case None
  then have free: "\<not> list_ex (\<lambda>d. key_of d = node_key fmt t) (pool_Taints after)"
    by (simp add: pool_taints(3) [OF assms(2)] map_of_keyed_None)
  then have "\<not> applied_taint fmt (pool_Taints after) t" by (auto simp: applied_taint_def list_ex_iff)
  moreover have "(case taint_map (pool_Taints before) (node_key fmt t) of None \<Rightarrow> False | Some old \<Rightarrow> owned_value t old) \<longleftrightarrow>
      list_ex (\<lambda>old. key_of old = node_key fmt t \<and> owned_value t old) (pool_Taints before)"
    using map_of_keyed [OF pool_taints(2) [OF assms(1)], of "node_key fmt t"] map_of_keyed_None [of "pool_Taints before" "node_key fmt t"]
    by (auto simp: pool_taints(3) [OF assms(1)] list_ex_iff split: option.split) (metis)
  ultimately show ?thesis using None free by (simp add: next_taint_def kept_taint_def)
next
  case (Some d)
  then have d: "d \<in> set (pool_Taints after)" "key_of d = node_key fmt t"
    using map_of_keyed [OF pool_taints(2) [OF assms(2)], of "node_key fmt t" d] by (simp_all add: pool_taints(3) [OF assms(2)])
  then have "\<not> kept_taint fmt (pool_Taints before) (pool_Taints after) t" by (auto simp: kept_taint_def list_ex_iff)
  moreover have "applied_taint fmt (pool_Taints after) (if taint_matches fmt t d then t else taintMap d)"
    using d by (auto simp: applied_taint_def list_ex_iff)
  ultimately show ?thesis using Some by (simp add: next_taint_def)
qed

lemma filter_concat_singletons:
  "(\<And>x. filter p (f x) = (if q x then [x] else [])) \<Longrightarrow> filter p (concat (map f xs)) = filter q xs"
  by (induction xs) auto

lemma added_applied: "d \<in> set (added_taints fmt taints desired) \<Longrightarrow> applied_taint fmt desired (taintMap d)"
  by (auto simp: added_taints_def applied_taint_def list_ex_iff)

text \<open>Exactly the taints the patch must keep stay beside the desired ones, in their order.\<close>

lemma taints_kept:
  assumes "ValidatePool before = None" "ValidatePool after = None" "distinct (map (node_key fmt) taints)"
  shows "filter (\<lambda>u. \<not> applied_taint fmt (pool_Taints after) u) (desired_taints fmt taints before after) =
    filter (kept_taint fmt (pool_Taints before) (pool_Taints after)) taints"
  using filter_concat_singletons [of "\<lambda>u. \<not> applied_taint fmt (pool_Taints after) u", OF next_taint_kept [OF assms(1,2)]]
  by (auto simp: desired_taints_eq [OF assms] filter_empty_conv added_applied)

lemma next_taint_keys:
  "map (node_key fmt) (next_taint fmt (taint_map (pool_Taints before)) (taint_map (pool_Taints after)) t) \<in> {[], [node_key fmt t]}"
  if "ValidatePool before = None" "ValidatePool after = None"
  using next_taint_member [OF that, of _ fmt t] next_taint_length [of fmt "taint_map (pool_Taints before)" "taint_map (pool_Taints after)" t]
  by (cases "next_taint fmt (taint_map (pool_Taints before)) (taint_map (pool_Taints after)) t") auto

lemma distinct_concat_singletons:
  "distinct (map f xs) \<Longrightarrow> (\<And>x. map f (g x) \<in> {[], [f x]}) \<Longrightarrow> distinct (map f (concat (map g xs))) \<and> f ` set (concat (map g xs)) \<subseteq> f ` set xs"
proof (induction xs)
  case (Cons x xs)
  define rest where "rest = concat (map g xs)"
  from Cons.prems(2) [of x] have gx: "f ` set (g x) \<subseteq> {f x}" "distinct (map f (g x))" by (auto simp flip: set_map)
  have "distinct (map f rest) \<and> f ` set rest \<subseteq> f ` set xs"
    unfolding rest_def by (rule Cons.IH [OF _ Cons.prems(2)]) (use Cons.prems(1) in simp)
  then have IH: "distinct (map f rest)" "f ` set rest \<subseteq> f ` set xs" by simp_all
  then have "f x \<notin> f ` set rest" using Cons.prems(1) by auto
  then have "f ` set (g x) \<inter> f ` set rest = {}" using Int_mono [OF gx(1) subset_refl, of "f ` set rest"] by simp
  then have "distinct (map f (g x @ rest))" using gx(2) IH(1) by simp
  moreover have "f ` set (g x @ rest) \<subseteq> f ` set (x # xs)" using Un_mono [OF gx(1) IH(2)] by (simp add: image_Un)
  ultimately show ?case by (simp add: rest_def)
qed simp

lemma desired_distinct:
  assumes "ValidatePool before = None" "ValidatePool after = None" "distinct (map (node_key fmt) taints)"
  shows "distinct (map (node_key fmt) (desired_taints fmt taints before after))"
proof -
  have "distinct (map key_of (added_taints fmt taints (pool_Taints after)))"
    using pool_taints(2) [OF assms(2)] by (simp add: added_taints_def distinct_map_filter)
  moreover have "key_of ` set (added_taints fmt taints (pool_Taints after)) \<inter> node_key fmt ` set taints = {}"
    by (auto simp: added_taints_def)
  ultimately show ?thesis
    using distinct_concat_singletons [OF assms(3) next_taint_keys [OF assms(1,2)]]
    by (auto simp: desired_taints_eq [OF assms] comp_def) blast
qed

lemma desired_present:
  assumes "ValidatePool before = None" "ValidatePool after = None" "distinct (map (node_key fmt) taints)" "d \<in> set (pool_Taints after)"
  shows "\<exists>t \<in> set (desired_taints fmt taints before after). node_key fmt t = key_of d \<and> taint_matches fmt t d"
proof (cases "key_of d \<in> set (map (node_key fmt) taints)")
  case True
  then obtain t where t: "t \<in> set taints" "node_key fmt t = key_of d" by auto
  have "taint_map (pool_Taints after) (key_of d) = Some d"
    using assms(4) map_of_keyed [OF pool_taints(2) [OF assms(2)], of "key_of d" d] by (simp add: pool_taints(3) [OF assms(2)])
  then have "next_taint fmt (taint_map (pool_Taints before)) (taint_map (pool_Taints after)) t = [if taint_matches fmt t d then t else taintMap d]"
    using t by (simp add: next_taint_def)
  then have "(if taint_matches fmt t d then t else taintMap d) \<in> set (desired_taints fmt taints before after)"
    using t(1) by (force simp: desired_taints_eq [OF assms(1-3)])
  then show ?thesis using t(2) by (intro bexI) auto
next
  case False
  then have "taintMap d \<in> set (desired_taints fmt taints before after)"
    using assms(4) by (auto simp: desired_taints_eq [OF assms(1-3)] added_taints_def)
  then show ?thesis by (intro bexI) auto
qed

lemma patched_desired: "patched_taints (nodeSettingsPatch fmt labels taints before after) taints = desired_taints fmt taints before after"
  by (auto simp: patched_taints_def nodeSettingsPatch_def Let_def)

definition no_patch :: node_patch where
  "no_patch = \<lparr>np_labels = [], np_taints = None\<rparr>"

lemma settled_labels:
  assumes "\<And>k v. map_of (pool_Labels after) k = Some v \<Longrightarrow> map_of labels k = Some v" "distinct (map fst (pool_Labels after))"
  shows "changed_labels labels after @ removed_labels labels after after = []"
proof -
  have "map_of labels k = Some v \<and> map_of (pool_Labels after) k \<noteq> None" if "(k, v) \<in> set (pool_Labels after)" for k v
    using that assms by simp
  then show ?thesis by (simp add: changed_labels_def removed_labels_def filter_empty_conv split_def) (metis prod.collapse)
qed

lemma settled_taints:
  assumes "ValidatePool after = None" "distinct (map (node_key fmt) taints)"
    and "\<And>d. d \<in> set (pool_Taints after) \<Longrightarrow> \<exists>t \<in> set taints. node_key fmt t = key_of d \<and> taint_matches fmt t d"
  shows "desired_taints fmt taints after after = taints"
proof -
  have "next_taint fmt (taint_map (pool_Taints after)) (taint_map (pool_Taints after)) t = [t]" if t: "t \<in> set taints" for t
  proof (cases "taint_map (pool_Taints after) (node_key fmt t)")
    case None
    then show ?thesis by (simp add: next_taint_def)
  next
    case (Some d)
    then have d: "d \<in> set (pool_Taints after)" "key_of d = node_key fmt t"
      using map_of_keyed [OF pool_taints(2) [OF assms(1)], of "node_key fmt t" d] by (simp_all add: pool_taints(3) [OF assms(1)])
    from assms(3) [OF d(1)] obtain u where u: "u \<in> set taints" "node_key fmt u = node_key fmt t" "taint_matches fmt u d" using d(2) by auto
    then have "u = t" using t assms(2) by (auto simp: distinct_map inj_on_def)
    with u(3) Some show ?thesis by (simp add: next_taint_def)
  qed
  then have "concat (map (next_taint fmt (taint_map (pool_Taints after)) (taint_map (pool_Taints after))) taints) = concat (map (\<lambda>t. [t]) taints)"
    by (intro arg_cong [where f = concat] map_cong) simp_all
  moreover have "added_taints fmt taints (pool_Taints after) = []"
    using assms(3) by (force simp: added_taints_def filter_empty_conv)
  ultimately show ?thesis by (simp add: desired_taints_eq [OF assms(1,1,2)])
qed

text \<open>
  C17: A node takes over the settings of its pool and nothing else is touched. With validated settings
  before and after, and a node whose taints differ in key or effect, after the patch every label has the
  pool's new value, or is gone when it still had the pool's old value and the pool dropped it, or is as
  it was; every taint of the pool is there with its value; the other taints are those of the node, in
  their order, without the ones the pool had put there and dropped. A second patch would be empty.
\<close>

theorem node_settings_reconciled:
  assumes "distinct (map fst (pool_Labels before))" "distinct (map fst (pool_Labels after))"
    and "ValidatePool before = None" "ValidatePool after = None" "distinct (map (node_key fmt) taints)"
    and "patch = nodeSettingsPatch fmt labels taints before after"
    and "labels' = patched_labels patch labels" "taints' = patched_taints patch taints"
  shows "map_of labels' = reconciled_label before after labels \<and>
    (\<forall>d \<in> set (pool_Taints after). \<exists>t \<in> set taints'. node_key fmt t = key_of d \<and> taint_matches fmt t d) \<and>
    filter (\<lambda>t. \<not> applied_taint fmt (pool_Taints after) t) taints' = filter (kept_taint fmt (pool_Taints before) (pool_Taints after)) taints \<and>
    distinct (map (node_key fmt) taints') \<and>
    nodeSettingsPatch fmt labels' taints' after after = no_patch"
proof -
  have labels: "map_of labels' = reconciled_label before after labels"
    using labels_reconciled [OF assms(2,1,3,4)] assms(6,7) by auto
  have taints: "taints' = desired_taints fmt taints before after" using assms(6,8) by (simp add: patched_desired)
  have unique: "distinct (map (node_key fmt) taints')" unfolding taints by (rule desired_distinct [OF assms(3-5)])
  have present: "\<exists>t \<in> set taints'. node_key fmt t = key_of d \<and> taint_matches fmt t d" if "d \<in> set (pool_Taints after)" for d
    unfolding taints by (rule desired_present [OF assms(3-5) that])
  have "changed_labels labels' after @ removed_labels labels' after after = []"
    by (rule settled_labels [OF _ assms(2)]) (simp add: labels reconciled_label_def)
  then have "nodeSettingsPatch fmt labels' taints' after after = no_patch"
    using settled_taints [OF assms(4) unique present] by (simp add: nodeSettingsPatch_def Let_def no_patch_def)
  then show ?thesis using labels present unique taints_kept [OF assms(3-5)] unfolding taints by blast
qed

section \<open>Applications\<close>

lemma overrides_valid:
  "validate_overrides os = None \<Longrightarrow> (service, override) \<in> set os \<Longrightarrow>
    ValidateLabels (so_NodeSelector override) False = None \<and> ValidateTolerations (so_Tolerations override) = None"
  by (induction os rule: validate_overrides.induct) (auto split: if_splits option.splits)

text \<open>Validated settings give every service a valid selector and valid tolerations.\<close>

lemma effective_valid:
  assumes "ValidateApplication settings = None" "Effective settings service = (selector, tolerations)"
  shows "ValidateLabels selector False = None" "ValidateTolerations tolerations = None"
proof -
  have none: "ValidateLabels [] False = None" "ValidateTolerations [] = None" by (simp_all add: ValidateTolerations_def)
  have "ValidateLabels selector False = None \<and> ValidateTolerations tolerations = None"
  proof (cases settings)
    case (Some s)
    with assms(1) have s: "ValidateLabels (as_NodeSelector s) False = None" "ValidateTolerations (as_Tolerations s) = None" "validate_overrides (as_ServiceOverrides s) = None"
      by (auto simp: ValidateApplication_def split: option.splits if_splits)
    show ?thesis
    proof (cases "map_of (as_ServiceOverrides s) service")
      case None
      with assms(2) Some s show ?thesis by (auto simp: Effective_def Let_def no_override_def)
    next
      case (Some x)
      with overrides_valid [OF s(3) map_of_SomeD [OF Some]] assms(2) \<open>settings = Some s\<close> s none show ?thesis
        by (auto simp: Effective_def Let_def split: if_splits)
    qed
  qed (use assms(2) none in \<open>auto simp: Effective_def\<close>)
  then show "ValidateLabels selector False = None" "ValidateTolerations tolerations = None" by simp_all
qed

section \<open>Witnesses\<close>

definition sample_settings :: "string \<Rightarrow> string \<Rightarrow> PoolSettings" where
  "sample_settings v e = \<lparr>pool_Labels = [(''tier'', v)], pool_Taints = [\<lparr>ta_Key = ''gpu'', ta_Value = v, ta_Effect = e\<rparr>]\<rparr>"

lemma sample_settings_valid: "v \<in> {''a'', ''b''} \<Longrightarrow> ValidEffect e \<Longrightarrow> ValidatePool (sample_settings v e) = None"
  by (auto simp: pool_valid sample_settings_def valid_taint_def ValidKey_def ValidValue_def labelName_def is_alnum_def is_lower_def
      ManagedTaintKey_def ManagedKey_def has_prefix_def)

definition sample_node_taints :: "node_taint list" where
  "sample_node_taints = [[(''key'', JStr ''node.kubernetes.io/not-ready''), (''effect'', JStr ''NoExecute'')],
     [(''key'', JStr ''gpu''), (''value'', JStr ''a''), (''effect'', JStr ''NoSchedule'')]]"

theorem node_settings_reconciled_witness:
  "\<exists>labels' taints'.
    map_of labels' = reconciled_label (sample_settings ''a'' ''NoSchedule'') (sample_settings ''b'' ''NoExecute'') [(''zone'', ''z''), (''tier'', ''a'')] \<and>
    (\<forall>d \<in> set (pool_Taints (sample_settings ''b'' ''NoExecute'')). \<exists>t \<in> set taints'. node_key id t = key_of d \<and> taint_matches id t d) \<and>
    filter (\<lambda>t. \<not> applied_taint id (pool_Taints (sample_settings ''b'' ''NoExecute'')) t) taints' = [hd sample_node_taints] \<and>
    distinct (map (node_key id) taints') \<and>
    nodeSettingsPatch id labels' taints' (sample_settings ''b'' ''NoExecute'') (sample_settings ''b'' ''NoExecute'') = no_patch"
proof -
  have kept: "filter (kept_taint id (pool_Taints (sample_settings ''a'' ''NoSchedule'')) (pool_Taints (sample_settings ''b'' ''NoExecute''))) sample_node_taints = [hd sample_node_taints]"
    by (simp add: kept_taint_def sample_settings_def sample_node_taints_def node_key_def taint_field_def key_of_def taint_key_def owned_value_def)
  have unique: "distinct (map (node_key id) sample_node_taints)"
    by (simp add: sample_node_taints_def node_key_def taint_field_def taint_key_def)
  have keys: "distinct (map fst (pool_Labels (sample_settings v e)))" for v e by (simp add: sample_settings_def)
  have valid: "ValidatePool (sample_settings ''a'' ''NoSchedule'') = None" "ValidatePool (sample_settings ''b'' ''NoExecute'') = None"
    by (simp_all add: sample_settings_valid ValidEffect_def)
  show ?thesis
    by (rule exI, rule exI, rule node_settings_reconciled [OF keys keys valid unique refl refl refl, unfolded kept])
qed

end
