(* ===== verification/WorkloadResources.thy ===== *)
theory WorkloadResources
  imports Schema
begin

text \<open>
  CPU and memory of generated workloads (\<open>internal/workloadresources/resources.go\<close>): Kubernetes
  quantities, the resources built from a values object, and overrides for single services.
\<close>

section \<open>Quantities\<close>

definition quantity_suffixes :: "string list" where
  "quantity_suffixes = [''m'', ''Ki'', ''Mi'', ''Gi'', ''Ti'', ''Pi'', ''Ei'', ''k'', ''K'', ''M'', ''G'', ''T'', ''P'', ''E'']"

text \<open>The match of the regular expression: units digits, digits of the fraction, suffix.\<close>

definition quantity :: "string \<Rightarrow> (string \<times> string \<times> string) option" where
  "quantity text =
     (let units = takeWhile is_digit text; rest = dropWhile is_digit text;
          fraction = (case rest of c # r \<Rightarrow> if c = CHR ''.'' then takeWhile is_digit r else [] | [] \<Rightarrow> []);
          sfx = (if fraction = [] then rest else drop (Suc (length fraction)) rest)
      in if units \<noteq> [] \<and> (sfx = [] \<or> sfx \<in> set quantity_suffixes) then Some (units, fraction, sfx) else None)"

definition suffix_power :: "char \<Rightarrow> nat" where
  "suffix_power c = length (takeWhile (\<lambda>d. d \<noteq> c) ''KMGTPE'') + 1"

definition upper_char :: "char \<Rightarrow> char" where
  "upper_char c = (if is_lower c then char_of (of_char c - 32 :: nat) else c)"

definition suffix_factor :: "string \<Rightarrow> rat" where
  "suffix_factor sfx =
     (if sfx = ''m'' then 1 / 1000
      else if sfx \<noteq> [] then (if last sfx = CHR ''i'' then 1024 else 1000) ^ suffix_power (upper_char (hd sfx))
      else 1)"

definition quantity_value :: "string \<Rightarrow> rat option" where
  "quantity_value text =
     (case quantity text of
        None \<Rightarrow> None
      | Some (units, fraction, sfx) \<Rightarrow> Some (of_nat (decimal_value (units @ fraction)) / 10 ^ length fraction * suffix_factor sfx))"

section \<open>The resources of a values object\<close>

datatype resource_error =
    NotText string
  | NotQuantity string
  | ZeroLimit string
  | RequestAboveLimit string
  | OfService string resource_error
  | OverridesNotObject
  | UnknownService string
  | OverrideNotObject string
  | UnknownField string string
  | UnknownSetting string

type_synonym built_fields = "(string \<times> string) list"

text \<open>One field: absent, or its text and value.\<close>

definition read_field :: "(string \<times> json) list \<Rightarrow> string \<Rightarrow> string \<Rightarrow> resource_error + (string \<times> rat) option" where
  "read_field vals kind resource =
     (let key = resource @ kind
      in case map_of vals key of
          None \<Rightarrow> Inr None
        | Some JNull \<Rightarrow> Inr None
        | Some (JStr text) \<Rightarrow>
            (if text = [] then Inr None
             else case quantity_value text of
                 None \<Rightarrow> Inl (NotQuantity key)
               | Some amount \<Rightarrow> if kind = ''Limit'' \<and> amount = 0 then Inl (ZeroLimit key) else Inr (Some (text, amount)))
        | Some _ \<Rightarrow> Inl (NotText key))"

definition built :: "(string \<times> rat) option \<Rightarrow> string \<Rightarrow> built_fields" where
  "built field resource = (case field of None \<Rightarrow> [] | Some (text, amount) \<Rightarrow> [(resource, text)])"

definition exceeds :: "(string \<times> rat) option \<Rightarrow> (string \<times> rat) option \<Rightarrow> bool" where
  "exceeds request limit = (case (request, limit) of (Some (_, r), Some (_, l)) \<Rightarrow> l < r | _ \<Rightarrow> False)"

definition built_section :: "string \<Rightarrow> built_fields \<Rightarrow> (string \<times> built_fields) list" where
  "built_section name kvs = (if kvs = [] then [] else [(name, kvs)])"

definition Build :: "(string \<times> json) list \<Rightarrow> resource_error + (string \<times> built_fields) list" where
  "Build vals =
     (case read_field vals ''Request'' ''cpu'' of Inl e \<Rightarrow> Inl e | Inr cpuRequest \<Rightarrow>
      case read_field vals ''Request'' ''memory'' of Inl e \<Rightarrow> Inl e | Inr memoryRequest \<Rightarrow>
      case read_field vals ''Limit'' ''cpu'' of Inl e \<Rightarrow> Inl e | Inr cpuLimit \<Rightarrow>
      case read_field vals ''Limit'' ''memory'' of Inl e \<Rightarrow> Inl e | Inr memoryLimit \<Rightarrow>
      if exceeds cpuRequest cpuLimit then Inl (RequestAboveLimit ''cpu'')
      else if exceeds memoryRequest memoryLimit then Inl (RequestAboveLimit ''memory'')
      else Inr (built_section ''requests'' (built cpuRequest ''cpu'' @ built memoryRequest ''memory'') @
                built_section ''limits'' (built cpuLimit ''cpu'' @ built memoryLimit ''memory'')))"

definition resource_fields :: "string list" where
  "resource_fields = [''cpuRequest'', ''cpuLimit'', ''memoryRequest'', ''memoryLimit'']"

section \<open>Services\<close>

definition own_fields :: "(string \<times> json) list \<Rightarrow> (string \<times> json) list" where
  "own_fields vals = filter (\<lambda>(key, v). key \<in> set resource_fields) vals"

definition service_override :: "(string \<times> json) list \<Rightarrow> string \<Rightarrow> (string \<times> json) list" where
  "service_override vals name =
     (case map_of vals ''resourceOverrides'' of
        Some (JObj overrides) \<Rightarrow> (case map_of overrides name of Some (JObj override) \<Rightarrow> override | _ \<Rightarrow> [])
      | _ \<Rightarrow> [])"

definition effective_values :: "(string \<times> json) list \<Rightarrow> string \<Rightarrow> (string \<times> json) list" where
  "effective_values vals name =
     (let override = service_override vals name
      in filter (\<lambda>(key, v). map_of override key = None) (own_fields vals) @ override)"

definition ForService :: "(string \<times> json) list \<Rightarrow> string \<Rightarrow> resource_error + (string \<times> built_fields) list" where
  "ForService vals name = (case Build (effective_values vals name) of Inl e \<Rightarrow> Inl (OfService name e) | Inr r \<Rightarrow> Inr r)"

fun validate_items :: "(string \<times> json) list \<Rightarrow> string list \<Rightarrow> (string \<times> json) list \<Rightarrow> resource_error option" where
  "validate_items vals services [] = None"
| "validate_items vals services ((name, v) # items) =
     (if name \<notin> set services then Some (UnknownService name)
      else case v of
          JObj override \<Rightarrow>
            (case find (\<lambda>(field, x). field \<notin> set resource_fields) override of
               Some (field, x) \<Rightarrow> Some (UnknownField field name)
             | None \<Rightarrow>
                 (case ForService vals name of Inl e \<Rightarrow> Some e | Inr _ \<Rightarrow> validate_items vals services items))
        | _ \<Rightarrow> Some (OverrideNotObject name))"

definition ValidateResources :: "(string \<times> json) list \<Rightarrow> string list \<Rightarrow> resource_error option" where
  "ValidateResources vals services =
     (case Build vals of
        Inl e \<Rightarrow> Some e
      | Inr _ \<Rightarrow>
          (case map_of vals ''resourceOverrides'' of
             None \<Rightarrow> None
           | Some (JObj items) \<Rightarrow> validate_items vals services items
           | Some _ \<Rightarrow> Some OverridesNotObject))"

definition ValidateSettings :: "(string \<times> json) list \<Rightarrow> string list \<Rightarrow> resource_error option" where
  "ValidateSettings vals services =
     (case find (\<lambda>(key, v). key \<noteq> ''resourceOverrides'' \<and> key \<notin> set resource_fields) vals of
        Some (key, v) \<Rightarrow> Some (UnknownSetting key)
      | None \<Rightarrow> ValidateResources vals services)"

section \<open>What is built\<close>

text \<open>The setting that applies to a service: its override where it has one, the common value otherwise.\<close>

definition setting :: "(string \<times> json) list \<Rightarrow> string \<Rightarrow> string \<Rightarrow> string option" where
  "setting vals name field =
     (case (case map_of (service_override vals name) field of Some v \<Rightarrow> Some v | None \<Rightarrow> map_of vals field) of
        Some (JStr text) \<Rightarrow> if text = [] then None else Some text
      | _ \<Rightarrow> None)"

definition built_text :: "(string \<times> built_fields) list \<Rightarrow> string \<Rightarrow> string \<Rightarrow> string option" where
  "built_text r part resource = (case map_of r part of None \<Rightarrow> None | Some kvs \<Rightarrow> map_of kvs resource)"

definition built_value :: "(string \<times> built_fields) list \<Rightarrow> string \<Rightarrow> string \<Rightarrow> rat option" where
  "built_value r part resource = (case built_text r part resource of None \<Rightarrow> None | Some text \<Rightarrow> quantity_value text)"

definition resource_ordered :: "(string \<times> built_fields) list \<Rightarrow> string \<Rightarrow> bool" where
  "resource_ordered r resource \<longleftrightarrow>
     (case built_value r ''limits'' resource of
        None \<Rightarrow> True
      | Some limit \<Rightarrow> 0 < limit \<and> (case built_value r ''requests'' resource of None \<Rightarrow> True | Some request \<Rightarrow> request \<le> limit))"

definition field_text :: "(string \<times> rat) option \<Rightarrow> string option" where
  "field_text field = (case field of None \<Rightarrow> None | Some (text, amount) \<Rightarrow> Some text)"

lemma read_field_Inr:
  "read_field vals kind resource = Inr field \<Longrightarrow>
    field_text field = (case map_of vals (resource @ kind) of Some (JStr text) \<Rightarrow> if text = [] then None else Some text | _ \<Rightarrow> None) \<and>
    (case field of None \<Rightarrow> True | Some (text, amount) \<Rightarrow> quantity_value text = Some amount \<and> (kind = ''Limit'' \<longrightarrow> amount \<noteq> 0))"
  by (auto simp: read_field_def field_text_def Let_def split: option.splits json.splits if_splits)

lemma suffix_factor_pos: "0 < suffix_factor sfx"
  by (simp add: suffix_factor_def)

lemma quantity_value_nonneg: "quantity_value text = Some amount \<Longrightarrow> 0 \<le> amount"
  using suffix_factor_pos by (auto simp: quantity_value_def zero_le_divide_iff zero_le_mult_iff less_imp_le split: option.splits prod.splits)

lemma built_texts:
  "built_text (built_section ''requests'' (built cr ''cpu'' @ built mr ''memory'') @ built_section ''limits'' (built cl ''cpu'' @ built ml ''memory''))
     ''requests'' ''cpu'' = field_text cr"
  "built_text (built_section ''requests'' (built cr ''cpu'' @ built mr ''memory'') @ built_section ''limits'' (built cl ''cpu'' @ built ml ''memory''))
     ''requests'' ''memory'' = field_text mr"
  "built_text (built_section ''requests'' (built cr ''cpu'' @ built mr ''memory'') @ built_section ''limits'' (built cl ''cpu'' @ built ml ''memory''))
     ''limits'' ''cpu'' = field_text cl"
  "built_text (built_section ''requests'' (built cr ''cpu'' @ built mr ''memory'') @ built_section ''limits'' (built cl ''cpu'' @ built ml ''memory''))
     ''limits'' ''memory'' = field_text ml"
  by (auto simp: built_text_def built_section_def built_def field_text_def split: option.splits)

text \<open>The fields of the source are read with their resource and kind.\<close>

definition read_ok :: "(string \<times> json) list \<Rightarrow> string \<Rightarrow> string \<Rightarrow> (string \<times> rat) option \<Rightarrow> bool" where
  "read_ok vals kind resource field \<longleftrightarrow>
     (case field of None \<Rightarrow> True | Some (text, amount) \<Rightarrow> quantity_value text = Some amount \<and> (kind = ''Limit'' \<longrightarrow> 0 < amount))"

lemma read_field_ok: "read_field vals kind resource = Inr field \<Longrightarrow> read_ok vals kind resource field"
  using read_field_Inr [of vals kind resource field] quantity_value_nonneg
  by (force simp: read_ok_def split: option.splits prod.splits)

definition given :: "(string \<times> json) list \<Rightarrow> string \<Rightarrow> string option" where
  "given vals field = (case map_of vals field of Some (JStr text) \<Rightarrow> if text = [] then None else Some text | _ \<Rightarrow> None)"

text \<open>What is built keeps the given texts, and its limits are positive and not below the requests.\<close>

lemma build_result:
  assumes "Build vals = Inr r"
  shows "built_text r ''requests'' ''cpu'' = given vals ''cpuRequest''" "built_text r ''requests'' ''memory'' = given vals ''memoryRequest''"
    "built_text r ''limits'' ''cpu'' = given vals ''cpuLimit''" "built_text r ''limits'' ''memory'' = given vals ''memoryLimit''"
    "resource_ordered r ''cpu''" "resource_ordered r ''memory''"
proof -
  from assms obtain cr mr cl ml where reads: "read_field vals ''Request'' ''cpu'' = Inr cr" "read_field vals ''Request'' ''memory'' = Inr mr"
      "read_field vals ''Limit'' ''cpu'' = Inr cl" "read_field vals ''Limit'' ''memory'' = Inr ml"
    and order: "\<not> exceeds cr cl" "\<not> exceeds mr ml"
    and r: "r = built_section ''requests'' (built cr ''cpu'' @ built mr ''memory'') @ built_section ''limits'' (built cl ''cpu'' @ built ml ''memory'')"
    by (auto simp: Build_def split: sum.splits if_splits)
  note texts = built_texts [of cr mr cl ml, folded r]
  show "built_text r ''requests'' ''cpu'' = given vals ''cpuRequest''" "built_text r ''requests'' ''memory'' = given vals ''memoryRequest''"
    "built_text r ''limits'' ''cpu'' = given vals ''cpuLimit''" "built_text r ''limits'' ''memory'' = given vals ''memoryLimit''"
    using reads [THEN read_field_Inr] unfolding texts given_def by simp_all
  have "resource_ordered r resource" if "built_text r ''requests'' resource = field_text q" "built_text r ''limits'' resource = field_text l"
    "read_ok vals ''Request'' resource q" "read_ok vals ''Limit'' resource l" "\<not> exceeds q l" for resource q l
    using that by (auto simp: resource_ordered_def built_value_def read_ok_def exceeds_def field_text_def not_less split: option.splits prod.splits)
  with texts order reads [THEN read_field_ok] show "resource_ordered r ''cpu''" "resource_ordered r ''memory''" by blast+
qed

lemma build_lookups:
  assumes "\<And>field. field \<in> set resource_fields \<Longrightarrow> map_of vals field = map_of vals' field"
  shows "Build vals = Build vals'"
proof -
  have "read_field vals kind resource = read_field vals' kind resource" if "resource @ kind \<in> set resource_fields" for kind resource
    using assms [OF that] by (simp add: read_field_def Let_def)
  then have "read_field vals ''Request'' ''cpu'' = read_field vals' ''Request'' ''cpu''" "read_field vals ''Request'' ''memory'' = read_field vals' ''Request'' ''memory''"
    "read_field vals ''Limit'' ''cpu'' = read_field vals' ''Limit'' ''cpu''" "read_field vals ''Limit'' ''memory'' = read_field vals' ''Limit'' ''memory''"
    by (simp_all add: resource_fields_def)
  then show ?thesis unfolding Build_def by (simp only:)
qed

lemma effective_lookup:
  assumes "field \<in> set resource_fields"
  shows "map_of (effective_values vals name) field =
    (case map_of (service_override vals name) field of Some v \<Rightarrow> Some v | None \<Rightarrow> map_of vals field)"
  using assms by (auto simp: effective_values_def Let_def own_fields_def map_of_append map_add_def map_of_filter_key simp del: filter_filter split: option.split)

lemma given_setting: "field \<in> set resource_fields \<Longrightarrow> given (effective_values vals name) field = setting vals name field"
  by (simp add: given_def setting_def effective_lookup)

lemma items_built: "validate_items vals services items = None \<Longrightarrow> (name, v) \<in> set items \<Longrightarrow> \<exists>r. ForService vals name = Inr r"
  by (induction items rule: validate_items.induct) (auto split: if_splits json.splits option.splits sum.splits prod.splits)

lemma validated_builds:
  assumes "ValidateResources vals services = None"
  shows "\<exists>r. Build (effective_values vals name) = Inr r"
proof (cases "service_override vals name = []")
  case True
  obtain r where "Build vals = Inr r" using assms by (auto simp: ValidateResources_def split: sum.splits)
  moreover have "Build (effective_values vals name) = Build vals"
    by (rule build_lookups) (simp add: effective_lookup True)
  ultimately show ?thesis by simp
next
  case False
  then obtain items override where items: "map_of vals ''resourceOverrides'' = Some (JObj items)" "map_of items name = Some (JObj override)"
    by (auto simp: service_override_def split: option.splits json.splits)
  then have "validate_items vals services items = None" using assms by (auto simp: ValidateResources_def split: sum.splits)
  from items_built [OF this map_of_SomeD [OF items(2)]] show ?thesis by (auto simp: ForService_def split: sum.splits)
qed

text \<open>
  Validated values can be built for every service: after \<open>Validate\<close> accepts them,
  \<open>ForService\<close> succeeds for any name, its CPU and memory texts are those of the service's override
  where there is one and the common ones otherwise, and every limit is positive and not below its request.
\<close>

theorem services_built:
  assumes "ValidateResources vals services = None"
  shows "\<exists>r. ForService vals name = Inr r \<and>
    built_text r ''requests'' ''cpu'' = setting vals name ''cpuRequest'' \<and> built_text r ''requests'' ''memory'' = setting vals name ''memoryRequest'' \<and>
    built_text r ''limits'' ''cpu'' = setting vals name ''cpuLimit'' \<and> built_text r ''limits'' ''memory'' = setting vals name ''memoryLimit'' \<and>
    resource_ordered r ''cpu'' \<and> resource_ordered r ''memory''"
proof -
  obtain r where r: "Build (effective_values vals name) = Inr r" using validated_builds [OF assms] by blast
  then show ?thesis using build_result [OF r] by (simp add: ForService_def given_setting resource_fields_def)
qed

section \<open>Witnesses\<close>

definition sample_values :: "(string \<times> json) list" where
  "sample_values = [(''cpuRequest'', JStr ''500m''), (''cpuLimit'', JStr ''1''), (''image'', JNull),
     (''resourceOverrides'', JObj [(''db'', JObj [(''cpuLimit'', JStr ''1.5'')])])]"

lemma sample_quantities: "quantity_value ''500m'' = Some (1 / 2)" "quantity_value ''1'' = Some 1" "quantity_value ''1.5'' = Some (3 / 2)"
  by (simp_all add: quantity_value_def quantity_def is_digit_def quantity_suffixes_def Let_def decimal_value_def digit_value_def suffix_factor_def)

lemma sample_values_valid: "ValidateResources sample_values [''db'', ''web''] = None"
  by (simp add: ValidateResources_def Build_def read_field_def Let_def sample_values_def sample_quantities exceeds_def ForService_def effective_values_def
      service_override_def own_fields_def resource_fields_def)

theorem services_built_witness:
  "\<exists>r. ForService sample_values ''db'' = Inr r \<and> built_text r ''limits'' ''cpu'' = Some ''1.5'' \<and>
    built_text r ''requests'' ''cpu'' = Some ''500m'' \<and> resource_ordered r ''cpu''"
  using services_built [OF sample_values_valid, of "''db''"]
  by (force simp: setting_def service_override_def sample_values_def)

end
