(* ===== verification/Access.thy ===== *)
theory Access
  imports Store "HOL-Library.Multiset"
begin

text \<open>
  Who sees and changes what: sharing of experiments and their configurations (\<open>storage/sharing.go\<close>,
  \<open>api/sharing.go\<close>, \<open>api/access.go\<close> and the views of migration 043), and the requests members
  send to administrators (\<open>storage/requests.go\<close>, \<open>api/requests.go\<close>).
\<close>

section \<open>Tables\<close>

record user_row =
  us_ID :: string
  us_Enabled :: bool

text \<open>
  The columns of \<open>experiments\<close> and \<open>experiment_configurations\<close> sharing depends on. An experiment names
  the configuration it was made from; a configuration names its variants.
\<close>

record shared_row =
  sh_ID :: string
  sh_Owner :: string
  sh_Everyone :: bool
  sh_ConfigurationIDs :: "string list"

record AccessStore =
  acc_users :: "user_row list"
  acc_experiments :: "shared_row list"
  acc_configurations :: "shared_row list"
  acc_experiment_shares :: "(string \<times> string) list"
  acc_configuration_shares :: "(string \<times> string) list"
  acc_db :: Store

record Sharing =
  shr_Visibility :: string
  shr_UserIDs :: "string list"

datatype sharing_error = SharingNotFound | InvalidSharing string | SharingFailed

text \<open>The table and the grants of a kind.\<close>

datatype shared_kind = Experiments | Configurations

definition sharingTables :: "string \<Rightarrow> shared_kind option" where
  "sharingTables kind =
     (if kind = ''experiments'' then Some Experiments else if kind = ''experiment-configurations'' then Some Configurations else None)"

fun shared_rows :: "shared_kind \<Rightarrow> AccessStore \<Rightarrow> shared_row list" where
  "shared_rows Experiments st = acc_experiments st"
| "shared_rows Configurations st = acc_configurations st"

fun shares :: "shared_kind \<Rightarrow> AccessStore \<Rightarrow> (string \<times> string) list" where
  "shares Experiments st = acc_experiment_shares st"
| "shares Configurations st = acc_configuration_shares st"

fun set_rows :: "shared_kind \<Rightarrow> shared_row list \<Rightarrow> (string \<times> string) list \<Rightarrow> AccessStore \<Rightarrow> AccessStore" where
  "set_rows Experiments rows grants st = st\<lparr>acc_experiments := rows, acc_experiment_shares := grants\<rparr>"
| "set_rows Configurations rows grants st = st\<lparr>acc_configurations := rows, acc_configuration_shares := grants\<rparr>"

section \<open>Views\<close>

text \<open>A row a viewer owns, everybody sees, or that is shared with the viewer.\<close>

definition granted :: "shared_kind \<Rightarrow> string \<Rightarrow> shared_row \<Rightarrow> AccessStore \<Rightarrow> bool" where
  "granted kind viewer r st \<longleftrightarrow> sh_Owner r = viewer \<or> sh_Everyone r \<or> (sh_ID r, viewer) \<in> set (shares kind st)"

definition can_view_experiment :: "string \<Rightarrow> string \<Rightarrow> AccessStore \<Rightarrow> bool" where
  "can_view_experiment viewer k st = list_ex (\<lambda>e. sh_ID e = k \<and> granted Experiments viewer e st) (acc_experiments st)"

definition visible_experiment_uses :: "string \<Rightarrow> string \<Rightarrow> AccessStore \<Rightarrow> bool" where
  "visible_experiment_uses viewer k st =
     list_ex (\<lambda>e. can_view_experiment viewer (sh_ID e) st \<and>
       (k \<in> set (sh_ConfigurationIDs e) \<or>
        list_ex (\<lambda>v. va_ExperimentID v = sh_ID e \<and> va_ConfigurationID v = Some k) (db_variants (acc_db st)))) (acc_experiments st)"

definition visible_parent :: "string \<Rightarrow> string \<Rightarrow> AccessStore \<Rightarrow> bool" where
  "visible_parent viewer k st =
     list_ex (\<lambda>parent. k \<in> set (sh_ConfigurationIDs parent) \<and>
       (granted Configurations viewer parent st \<or>
        list_ex (\<lambda>e. sh_ID parent \<in> set (sh_ConfigurationIDs e) \<and> can_view_experiment viewer (sh_ID e) st) (acc_experiments st)))
       (acc_configurations st)"

definition can_view_configuration :: "string \<Rightarrow> string \<Rightarrow> AccessStore \<Rightarrow> bool" where
  "can_view_configuration viewer k st =
     list_ex (\<lambda>c. sh_ID c = k \<and>
       (granted Configurations viewer c st \<or> visible_experiment_uses viewer k st \<or> visible_parent viewer k st)) (acc_configurations st)"

text \<open>A trial of a visible experiment.\<close>

definition visible_trial :: "string \<Rightarrow> (trial_row \<Rightarrow> bool) \<Rightarrow> AccessStore \<Rightarrow> bool" where
  "visible_trial viewer p st =
     list_ex (\<lambda>t. p t \<and> list_ex (\<lambda>v. va_ID v = tr_VariantID t \<and> can_view_experiment viewer (va_ExperimentID v) st) (db_variants (acc_db st)))
       (db_trials (acc_db st))"

definition can_view_run :: "string \<Rightarrow> string \<Rightarrow> AccessStore \<Rightarrow> bool" where
  "can_view_run viewer k st =
     list_ex (\<lambda>r. rr_ID r = k \<and> (rr_OwnerUserID r = Some viewer \<or> visible_trial viewer (\<lambda>t. tr_PipelineRunID t = Some (rr_ID r)) st))
       (db_runs (acc_db st))"

definition stage_of_operation :: "string \<Rightarrow> PipelineRunStage \<Rightarrow> bool" where
  "stage_of_operation k s \<longleftrightarrow> st_OperationID s = k \<and> k \<noteq> [] \<or> st_CleanupOperationID s = k \<and> k \<noteq> []"

definition can_view_operation :: "string \<Rightarrow> string \<Rightarrow> AccessStore \<Rightarrow> bool" where
  "can_view_operation viewer k st \<longleftrightarrow>
     list_ex (\<lambda>s. stage_of_operation k s \<and> can_view_run viewer (st_RunID s) st) (db_stages (acc_db st)) \<or>
     visible_trial viewer (\<lambda>t. tr_OperationID t = Some k) st"

definition CanViewResource :: "string \<Rightarrow> string \<Rightarrow> string \<Rightarrow> AccessStore \<Rightarrow> sharing_error + bool" where
  "CanViewResource kind k userID st =
     (if kind = ''experiments'' then Inr (can_view_experiment userID k st)
      else if kind = ''experiment-configurations'' then Inr (can_view_configuration userID k st)
      else if kind = ''pipeline-runs'' then Inr (can_view_run userID k st)
      else if kind = ''operations'' then Inr (can_view_operation userID k st)
      else Inl SharingFailed)"

definition UserOwnsOperation :: "string \<Rightarrow> string \<Rightarrow> AccessStore \<Rightarrow> bool" where
  "UserOwnsOperation userID k st =
     list_ex (\<lambda>s. stage_of_operation k s \<and> list_ex (\<lambda>r. rr_ID r = st_RunID s \<and> rr_OwnerUserID r = Some userID) (db_runs (acc_db st)))
       (db_stages (acc_db st))"

section \<open>Sharing\<close>

text \<open>\<open>collate\<close> orders identifiers as the database does.\<close>

definition GetSharing :: "(string list \<Rightarrow> string list) \<Rightarrow> string \<Rightarrow> string \<Rightarrow> AccessStore \<Rightarrow> sharing_error + Sharing \<times> string" where
  "GetSharing collate kind k st =
     (case sharingTables kind of None \<Rightarrow> Inl SharingFailed | Some table \<Rightarrow>
      case find_row sh_ID k (shared_rows table st) of None \<Rightarrow> Inl SharingNotFound | Some r \<Rightarrow>
      let userIDs = collate (map snd (filter (\<lambda>(key, u). key = k) (shares table st)))
      in Inr (\<lparr>shr_Visibility = (if sh_Everyone r then ''everyone'' else if userIDs \<noteq> [] then ''selected'' else ''private''), shr_UserIDs = userIDs\<rparr>,
           sh_Owner r))"

definition valid_recipients :: "string list \<Rightarrow> string \<Rightarrow> AccessStore \<Rightarrow> bool" where
  "valid_recipients userIDs owner st \<longleftrightarrow>
     length (filter (\<lambda>u. us_ID u \<in> set userIDs \<and> us_Enabled u \<and> us_ID u \<noteq> owner) (acc_users st)) = length userIDs"

definition SetSharing :: "string \<Rightarrow> string \<Rightarrow> string \<Rightarrow> bool \<Rightarrow> Sharing \<Rightarrow> AccessStore \<Rightarrow> sharing_error + AccessStore" where
  "SetSharing kind k actorID admin v st =
     (case sharingTables kind of None \<Rightarrow> Inl SharingFailed | Some table \<Rightarrow>
      if shr_Visibility v \<noteq> ''private'' \<and> shr_Visibility v \<noteq> ''selected'' \<and> shr_Visibility v \<noteq> ''everyone''
      then Inl (InvalidSharing ''invalid sharing visibility'')
      else if shr_Visibility v = ''selected'' \<and> shr_UserIDs v = [] then Inl (InvalidSharing ''select at least one user'')
      else case find_row sh_ID k (shared_rows table st) of None \<Rightarrow> Inl SharingNotFound | Some r \<Rightarrow>
      if \<not> admin \<and> sh_Owner r \<noteq> actorID then Inl SharingNotFound
      else if shr_Visibility v = ''selected'' \<and> \<not> valid_recipients (shr_UserIDs v) (sh_Owner r) st
      then Inl (InvalidSharing ''select distinct enabled users other than the resource owner'')
      else Inr (set_rows table
          (update_where (\<lambda>r. sh_ID r = k) (\<lambda>r. r\<lparr>sh_Everyone := (shr_Visibility v = ''everyone'')\<rparr>) (shared_rows table st))
          (filter (\<lambda>(key, u). key \<noteq> k) (shares table st) @ (if shr_Visibility v = ''selected'' then map (Pair k) (shr_UserIDs v) else [])) st))"

section \<open>The API\<close>

record api_user =
  usr_ID :: string
  usr_Role :: string

definition ownsResource :: "api_user \<Rightarrow> string \<Rightarrow> bool" where
  "ownsResource user owner \<longleftrightarrow> usr_Role user = ''admin'' \<or> usr_ID user \<noteq> [] \<and> usr_ID user = owner"

definition canReadResource :: "api_user \<Rightarrow> string \<Rightarrow> string \<Rightarrow> AccessStore \<Rightarrow> bool" where
  "canReadResource user kind k st \<longleftrightarrow>
     usr_Role user = ''admin'' \<or> usr_ID user \<noteq> [] \<and> (case CanViewResource kind k (usr_ID user) st of Inl _ \<Rightarrow> False | Inr allowed \<Rightarrow> allowed)"

definition authorizeExperiment :: "api_user \<Rightarrow> bool \<Rightarrow> string \<Rightarrow> AccessStore \<Rightarrow> bool" where
  "authorizeExperiment user reads k st =
     (case find_row sh_ID k (acc_experiments st) of
        None \<Rightarrow> False
      | Some e \<Rightarrow> if reads then canReadResource user ''experiments'' k st else ownsResource user (sh_Owner e))"

definition authorizeOperation :: "api_user \<Rightarrow> bool \<Rightarrow> string \<Rightarrow> AccessStore \<Rightarrow> bool" where
  "authorizeOperation user reads k st \<longleftrightarrow>
     usr_Role user = ''admin'' \<or>
     (if reads then CanViewResource ''operations'' k (usr_ID user) st = Inr True else UserOwnsOperation (usr_ID user) k st)"

text \<open>
  The sharing endpoint: \<open>None\<close> for a read, \<open>Some None\<close> for a change that cannot be decoded; the answer
  is a status or the settings.
\<close>

definition resourceSharing ::
  "(string list \<Rightarrow> string list) \<Rightarrow> api_user \<Rightarrow> string \<Rightarrow> string \<Rightarrow> Sharing option option \<Rightarrow> AccessStore \<Rightarrow> (nat + Sharing) \<times> AccessStore" where
  "resourceSharing collate user kind k input st =
     (case GetSharing collate kind k st of
        Inl _ \<Rightarrow> (Inl 404, st)
      | Inr (settings, owner) \<Rightarrow>
          if \<not> ownsResource user owner then (Inl 404, st)
          else (case input of
              None \<Rightarrow> (Inr settings, st)
            | Some None \<Rightarrow> (Inl 400, st)
            | Some (Some v) \<Rightarrow>
                if 1000 < length (shr_UserIDs v) then (Inl 422, st)
                else (case SetSharing kind k (usr_ID user) (usr_Role user = ''admin'') v st of
                    Inl SharingNotFound \<Rightarrow> (Inl 404, st)
                  | Inl (InvalidSharing _) \<Rightarrow> (Inl 422, st)
                  | Inl SharingFailed \<Rightarrow> (Inl 500, st)
                  | Inr st' \<Rightarrow>
                      (case GetSharing collate kind k st' of
                         Inl _ \<Rightarrow> (Inl 500, st')
                       | Inr (saved, _) \<Rightarrow> (Inr saved, st')))))"

section \<open>What sharing grants\<close>

definition access_keys :: "AccessStore \<Rightarrow> bool" where
  "access_keys st \<longleftrightarrow> distinct (map sh_ID (acc_experiments st)) \<and> distinct (map sh_ID (acc_configurations st)) \<and> distinct (map us_ID (acc_users st))"

lemma shared_keys: "access_keys st \<Longrightarrow> distinct (map sh_ID (shared_rows table st))"
  by (cases table) (simp_all add: access_keys_def)

lemma rows_set [simp]: "shared_rows table (set_rows table' rows grants st) = (if table' = table then rows else shared_rows table st)"
  by (cases table; cases table') simp_all

lemma shares_set [simp]: "shares table (set_rows table' rows grants st) = (if table' = table then grants else shares table st)"
  by (cases table; cases table') simp_all

lemma set_rows_others [simp]: "acc_users (set_rows table rows grants st) = acc_users st" "acc_db (set_rows table rows grants st) = acc_db st"
  by (cases table; simp)+

interpretation everyone_upd: keyed_update sh_ID "\<lambda>r. r\<lparr>sh_Everyone := b\<rparr>" for b
  by unfold_locales simp

text \<open>Distinct recipients: the count of matching users is the length of the list only for a list without repetition.\<close>

lemma recipients_distinct:
  assumes "access_keys st" "valid_recipients userIDs owner st"
  shows "distinct userIDs" "owner \<notin> set userIDs" "\<And>u. u \<in> set userIDs \<Longrightarrow> \<exists>r \<in> set (acc_users st). us_ID r = u \<and> us_Enabled r"
proof -
  define found where "found = map us_ID (filter (\<lambda>u. us_ID u \<in> set userIDs \<and> us_Enabled u \<and> us_ID u \<noteq> owner) (acc_users st))"
  have "distinct found" using assms(1) by (simp add: found_def access_keys_def distinct_map_filter)
  moreover have sub: "set found \<subseteq> set userIDs" by (auto simp: found_def)
  moreover have "length found = length userIDs" using assms(2) by (simp add: found_def valid_recipients_def)
  ultimately have card: "card (set found) = length userIDs" by (simp add: distinct_card)
  then have "card (set userIDs) = length userIDs"
    using card_mono [OF _ sub] card_length [of userIDs] by simp
  then show "distinct userIDs" by (simp add: card_distinct)
  have "set found = set userIDs" using card \<open>card (set userIDs) = length userIDs\<close> sub by (simp add: card_subset_eq)
  then have "\<exists>r \<in> set (acc_users st). us_ID r = u \<and> us_Enabled r \<and> u \<noteq> owner" if "u \<in> set userIDs" for u
  proof -
    have "u \<in> set found" using that \<open>set found = set userIDs\<close> by simp
    then show ?thesis unfolding found_def by auto
  qed
  then show "owner \<notin> set userIDs" "\<And>u. u \<in> set userIDs \<Longrightarrow> \<exists>r \<in> set (acc_users st). us_ID r = u \<and> us_Enabled r" by blast+
qed

definition shown :: "Sharing \<Rightarrow> string list" where
  "shown v = (if shr_Visibility v = ''selected'' then shr_UserIDs v else [])"

definition grants_of :: "shared_kind \<Rightarrow> string \<Rightarrow> string \<Rightarrow> AccessStore \<Rightarrow> bool" where
  "grants_of table k viewer st = list_ex (\<lambda>r. sh_ID r = k \<and> granted table viewer r st) (shared_rows table st)"

lemma grants_row:
  assumes "access_keys st" "find_row sh_ID k (shared_rows table st) = Some r"
  shows "grants_of table k viewer st \<longleftrightarrow> granted table viewer r st"
proof -
  have "r' = r" if "r' \<in> set (shared_rows table st)" "sh_ID r' = k" for r'
    using distinct_find_row [OF shared_keys [OF assms(1)] that(1)] that(2) assms(2) by simp
  then show ?thesis using find_row_key [OF assms(2)] by (auto simp: grants_of_def list_ex_iff)
qed

lemma set_sharing_Inr:
  assumes "SetSharing kind k actorID admin v st = Inr st'"
  obtains table r where "sharingTables kind = Some table" "find_row sh_ID k (shared_rows table st) = Some r" "admin \<or> sh_Owner r = actorID"
    "shr_Visibility v \<in> {''private'', ''selected'', ''everyone''}" "shr_Visibility v = ''selected'' \<Longrightarrow> shr_UserIDs v \<noteq> [] \<and> valid_recipients (shr_UserIDs v) (sh_Owner r) st"
    "st' = set_rows table
       (update_where (\<lambda>r. sh_ID r = k) (\<lambda>r. r\<lparr>sh_Everyone := (shr_Visibility v = ''everyone'')\<rparr>) (shared_rows table st))
       (filter (\<lambda>(key, u). key \<noteq> k) (shares table st) @ map (Pair k) (shown v)) st"
  using assms by (auto simp: SetSharing_def shown_def split: option.splits if_splits)

lemma access_keys_set:
  assumes "access_keys st"
  shows "access_keys (set_rows table (update_where (\<lambda>r. sh_ID r = k) (\<lambda>r. r\<lparr>sh_Everyone := b\<rparr>) (shared_rows table st)) grants st)"
  using assms everyone_upd.distinct_keys [of "acc_experiments st"] everyone_upd.distinct_keys [of "acc_configurations st"]
  by (cases table) (simp_all add: access_keys_def)

lemma set_sharing_grants:
  assumes "access_keys st" "SetSharing kind k actorID admin v st = Inr st'" "sharingTables kind = Some table" "find_row sh_ID k (shared_rows table st) = Some r"
  shows "grants_of table k viewer st' \<longleftrightarrow> viewer = sh_Owner r \<or> shr_Visibility v = ''everyone'' \<or> viewer \<in> set (shown v)"
proof -
  define e where "e = (shr_Visibility v = ''everyone'')"
  from assms obtain st'_eq: "st' = set_rows table (update_where (\<lambda>r. sh_ID r = k) (\<lambda>r. r\<lparr>sh_Everyone := e\<rparr>) (shared_rows table st))
       (filter (\<lambda>(key, u). key \<noteq> k) (shares table st) @ map (Pair k) (shown v)) st"
    unfolding e_def by (rule_tac set_sharing_Inr [OF assms(2)]) auto
  have row: "find_row sh_ID k (shared_rows table st') = Some (r\<lparr>sh_Everyone := e\<rparr>)"
    using assms(4) find_row_key [OF assms(4)] by (simp add: st'_eq everyone_upd.find_updated)
  have "access_keys st'" unfolding st'_eq by (rule access_keys_set [OF assms(1)])
  moreover have "(k, viewer) \<in> set (shares table st') \<longleftrightarrow> viewer \<in> set (shown v)" by (auto simp: st'_eq)
  ultimately show ?thesis
    using grants_row [OF _ row] find_row_key [OF assms(4)] by (simp add: granted_def e_def) blast
qed

lemma set_sharing_others:
  assumes "SetSharing kind k actorID admin v st = Inr st'" "sharingTables kind = Some table" "(table', k') \<noteq> (table, k)"
  shows "grants_of table' k' viewer st' = grants_of table' k' viewer st"
proof -
  from assms obtain st'_eq: "st' = set_rows table (update_where (\<lambda>r. sh_ID r = k) (\<lambda>r. r\<lparr>sh_Everyone := (shr_Visibility v = ''everyone'')\<rparr>) (shared_rows table st))
       (filter (\<lambda>(key, u). key \<noteq> k) (shares table st) @ map (Pair k) (shown v)) st"
    by (rule_tac set_sharing_Inr [OF assms(1)]) auto
  show ?thesis using assms(3)
    by (cases "table' = table") (auto simp: st'_eq grants_of_def granted_def update_where_def list_ex_iff)
qed


definition saved_sharing :: "Sharing \<Rightarrow> Sharing \<Rightarrow> bool" where
  "saved_sharing v saved \<longleftrightarrow> shr_Visibility saved = shr_Visibility v \<and> mset (shr_UserIDs saved) = mset (shown v)"

lemma set_sharing_saved:
  assumes "\<And>xs. mset (collate xs) = mset xs" "SetSharing kind k actorID admin v st = Inr st'"
  shows "\<exists>saved owner. GetSharing collate kind k st' = Inr (saved, owner) \<and> saved_sharing v saved"
proof -
  obtain table r where set: "sharingTables kind = Some table" "find_row sh_ID k (shared_rows table st) = Some r"
      "shr_Visibility v \<in> {''private'', ''selected'', ''everyone''}" "shr_Visibility v = ''selected'' \<Longrightarrow> shr_UserIDs v \<noteq> []"
      "st' = set_rows table
         (update_where (\<lambda>r. sh_ID r = k) (\<lambda>r. r\<lparr>sh_Everyone := (shr_Visibility v = ''everyone'')\<rparr>) (shared_rows table st))
         (filter (\<lambda>(key, u). key \<noteq> k) (shares table st) @ map (Pair k) (shown v)) st"
    by (rule set_sharing_Inr [OF assms(2)]) blast
  have "find_row sh_ID k (shared_rows table st') = Some (r\<lparr>sh_Everyone := (shr_Visibility v = ''everyone'')\<rparr>)"
    using set(2) find_row_key [OF set(2)] by (simp add: set(5) everyone_upd.find_updated)
  moreover have "map snd (filter (\<lambda>(key, u). key = k) (shares table st')) = shown v"
  proof -
    have "filter (\<lambda>(key, u). key = k) (filter (\<lambda>(key, u). key \<noteq> k) (shares table st)) = []" by (auto simp: filter_empty_conv)
    moreover have "filter (\<lambda>(key, u). key = k) (map (Pair k) us) = map (Pair k) us" for us :: "string list" by (induction us) auto
    ultimately show ?thesis by (simp add: set(5) comp_def del: filter_filter)
  qed
  moreover have "collate (shown v) \<noteq> [] \<longleftrightarrow> shown v \<noteq> []" using assms(1) [of "shown v"] by (metis mset_zero_iff)
  ultimately show ?thesis using set(1,3,4) assms(1)
    by (auto simp: GetSharing_def Let_def saved_sharing_def shown_def)
qed

text \<open>A refused change leaves everything as it was.\<close>

lemma refused_sharing:
  assumes "\<And>xs. mset (collate xs) = mset xs" "resourceSharing collate user kind k input st = (Inl code, st')"
  shows "st' = st"
  using assms(2) set_sharing_saved [OF assms(1)]
  by (force simp: resourceSharing_def split: sum.splits option.splits if_splits sharing_error.splits prod.splits)


lemma experiment_grants: "can_view_experiment viewer k st = grants_of Experiments k viewer st"
  by (simp add: can_view_experiment_def grants_of_def)

text \<open>Runs and operations are shown to others only through a visible experiment.\<close>

lemma no_visible_trial:
  "(\<And>k. \<not> can_view_experiment viewer k st) \<Longrightarrow> \<not> visible_trial viewer p st"
  by (auto simp: visible_trial_def list_ex_iff)

lemma private_run:
  assumes "\<And>k. \<not> can_view_experiment viewer k st" "can_view_run viewer k st"
  shows "\<exists>r \<in> set (db_runs (acc_db st)). rr_ID r = k \<and> rr_OwnerUserID r = Some viewer"
  using assms(2) no_visible_trial [OF assms(1)] by (auto simp: can_view_run_def list_ex_iff)

lemma private_operation:
  assumes "\<And>k. \<not> can_view_experiment viewer k st"
  shows "can_view_operation viewer k st \<longleftrightarrow> UserOwnsOperation viewer k st"
  using no_visible_trial [OF assms] by (auto simp: can_view_operation_def can_view_run_def UserOwnsOperation_def list_ex_iff)

section \<open>Requests to administrators\<close>

record request_row =
  rq_ID :: string
  rq_RequesterUserID :: string
  rq_Message :: string
  rq_Status :: string
  rq_Reply :: "string option"
  rq_ResolvedBy :: "string option"
  rq_ResolvedAt :: "timestamp option"
  rq_CreatedAt :: timestamp

record request_store =
  rs_users :: "string list"
  rs_requests :: "request_row list"

definition open_requests :: "string \<Rightarrow> request_store \<Rightarrow> nat" where
  "open_requests userID st = rows_affected (\<lambda>r. rq_RequesterUserID r = userID \<and> rq_Status r = ''open'') (rs_requests st)"

definition valid_length :: "(string \<Rightarrow> nat) \<Rightarrow> string \<Rightarrow> bool" where
  "valid_length runes message \<longleftrightarrow> 1 \<le> runes message \<and> runes message \<le> 4000"

text \<open>
  The requester row is locked, so that the count and the insertion are one step. The table checks the
  length of a message and of a reply, and the status; \<open>runes\<close> counts the characters of a text.
\<close>

definition CreateAdminRequest :: "(string \<Rightarrow> nat) \<Rightarrow> timestamp \<Rightarrow> string \<Rightarrow> string \<Rightarrow> string \<Rightarrow> nat \<Rightarrow> request_store \<Rightarrow> store_error + request_store" where
  "CreateAdminRequest runes now k requester message maxOpen st =
     (if requester \<notin> set (rs_users st) then Inl ErrNoRows
      else if maxOpen \<le> open_requests requester st then Inl ErrConflict
      else if k \<in> set (map rq_ID (rs_requests st)) then Inl ErrDuplicate
      else if \<not> valid_length runes message then Inl (ErrInvalid ''message'')
      else Inr (st\<lparr>rs_requests := rs_requests st @ [\<lparr>rq_ID = k, rq_RequesterUserID = requester, rq_Message = message, rq_Status = ''open'',
             rq_Reply = None, rq_ResolvedBy = None, rq_ResolvedAt = None, rq_CreatedAt = now\<rparr>]\<rparr>))"

definition answer_request :: "timestamp \<Rightarrow> string \<Rightarrow> string \<Rightarrow> string \<Rightarrow> request_row \<Rightarrow> request_row" where
  "answer_request now s reply administratorID r =
     (if s = ''resolved'' then r\<lparr>rq_Status := s, rq_Reply := null_if_empty reply, rq_ResolvedBy := Some administratorID, rq_ResolvedAt := Some now\<rparr>
      else r\<lparr>rq_Status := s, rq_Reply := None, rq_ResolvedBy := None, rq_ResolvedAt := None\<rparr>)"

definition SetAdminRequestStatus :: "(string \<Rightarrow> nat) \<Rightarrow> timestamp \<Rightarrow> string \<Rightarrow> string \<Rightarrow> string \<Rightarrow> string \<Rightarrow> request_store \<Rightarrow> store_error + request_store" where
  "SetAdminRequestStatus runes now k s reply administratorID st =
     (if rows_affected (\<lambda>r. rq_ID r = k) (rs_requests st) = 0 then Inl ErrNotFound
      else if s \<noteq> ''open'' \<and> s \<noteq> ''resolved'' \<or> s = ''resolved'' \<and> reply \<noteq> [] \<and> \<not> valid_length runes reply then Inl (ErrInvalid ''admin_requests'')
      else Inr (st\<lparr>rs_requests := update_where (\<lambda>r. rq_ID r = k) (answer_request now s reply administratorID) (rs_requests st)\<rparr>))"

definition maxAdminRequestLength :: nat where
  "maxAdminRequestLength = 4000"

definition maxOpenAdminRequests :: nat where
  "maxOpenAdminRequests = 3"

definition trimAdminRequestText :: "(string \<Rightarrow> nat) \<Rightarrow> string \<Rightarrow> bool \<Rightarrow> string option" where
  "trimAdminRequestText runes body required =
     (let trimmed = trim_space body
      in if required \<and> trimmed = [] \<or> maxAdminRequestLength < runes trimmed then None else Some trimmed)"

text \<open>
  The decoded calls of the API: a new message, or the answer of an administrator; the value is the status
  of the response. A body that cannot be decoded is answered with 400 before anything is done.
\<close>

definition createAdminRequest :: "(string \<Rightarrow> nat) \<Rightarrow> timestamp \<Rightarrow> string \<Rightarrow> api_user \<Rightarrow> string \<Rightarrow> request_store \<Rightarrow> nat \<times> request_store" where
  "createAdminRequest runes now k user body st =
     (if usr_Role user = ''admin'' then (403, st)
      else case trimAdminRequestText runes body True of
          None \<Rightarrow> (422, st)
        | Some message \<Rightarrow>
            (case CreateAdminRequest runes now k (usr_ID user) message maxOpenAdminRequests st of
               Inl ErrConflict \<Rightarrow> (409, st)
             | Inl _ \<Rightarrow> (500, st)
             | Inr st' \<Rightarrow> (201, st')))"

definition updateAdminRequest :: "(string \<Rightarrow> nat) \<Rightarrow> timestamp \<Rightarrow> string \<Rightarrow> api_user \<Rightarrow> string \<Rightarrow> string \<Rightarrow> request_store \<Rightarrow> nat \<times> request_store" where
  "updateAdminRequest runes now k user s body st =
     (if usr_Role user \<noteq> ''admin'' then (403, st)
      else if s \<noteq> ''open'' \<and> s \<noteq> ''resolved'' then (422, st)
      else case trimAdminRequestText runes body False of
          None \<Rightarrow> (422, st)
        | Some reply \<Rightarrow>
            if reply \<noteq> [] \<and> s \<noteq> ''resolved'' then (422, st)
            else (case SetAdminRequestStatus runes now k s reply (usr_ID user) st of
                Inl ErrNotFound \<Rightarrow> (404, st)
              | Inl _ \<Rightarrow> (500, st)
              | Inr st' \<Rightarrow> (200, st')))"

subsection \<open>Open requests\<close>

text \<open>The checks of the table: a request is resolved exactly when it has a time of resolution, and only then has a reply.\<close>

definition request_row_ok :: "request_row \<Rightarrow> bool" where
  "request_row_ok r \<longleftrightarrow>
     (rq_Status r = ''open'' \<or> rq_Status r = ''resolved'') \<and> (rq_Status r = ''resolved'' \<longleftrightarrow> rq_ResolvedAt r \<noteq> None) \<and>
     (rq_Reply r = None \<or> rq_Status r = ''resolved'')"

definition requests_ok :: "request_store \<Rightarrow> bool" where
  "requests_ok st \<longleftrightarrow> distinct (map rq_ID (rs_requests st)) \<and> list_all request_row_ok (rs_requests st)"

interpretation answer_upd: keyed_update rq_ID "answer_request now s reply administratorID" for now s reply administratorID
  by unfold_locales (simp add: answer_request_def)

text \<open>The calls of members and administrators, in any order.\<close>

datatype request_call = Submit timestamp string api_user string | Respond timestamp string api_user string string

fun request_step :: "(string \<Rightarrow> nat) \<Rightarrow> request_call \<Rightarrow> request_store \<Rightarrow> request_store" where
  "request_step runes (Submit now k user body) st = snd (createAdminRequest runes now k user body st)"
| "request_step runes (Respond now k user s body) st = snd (updateAdminRequest runes now k user s body st)"

definition reopens :: "string \<Rightarrow> request_call \<Rightarrow> request_store \<Rightarrow> bool" where
  "reopens userID c st \<longleftrightarrow>
     (case c of
        Submit _ _ _ _ \<Rightarrow> False
      | Respond now k user s body \<Rightarrow> usr_Role user = ''admin'' \<and> s = ''open'' \<and>
          list_ex (\<lambda>r. rq_ID r = k \<and> rq_RequesterUserID r = userID \<and> rq_Status r \<noteq> ''open'') (rs_requests st))"

fun reopened :: "(string \<Rightarrow> nat) \<Rightarrow> string \<Rightarrow> request_call list \<Rightarrow> request_store \<Rightarrow> nat" where
  "reopened runes userID [] st = 0"
| "reopened runes userID (c # cs) st = (if reopens userID c st then 1 else 0) + reopened runes userID cs (request_step runes c st)"

lemma created_Inr:
  assumes "CreateAdminRequest runes now k requester message maxOpen st = Inr st'" "requests_ok st"
  shows "requests_ok st' \<and> open_requests userID st' = open_requests userID st + (if requester = userID then 1 else 0) \<and> (open_requests requester st < maxOpen)"
  using assms by (auto simp: CreateAdminRequest_def requests_ok_def request_row_ok_def open_requests_def rows_affected_def not_le split: if_splits)

lemma answered_open:
  assumes "distinct (map rq_ID rows)" "s = ''open'' \<or> s = ''resolved''"
  shows "rows_affected (\<lambda>r. rq_RequesterUserID r = userID \<and> rq_Status r = ''open'') (update_where (\<lambda>r. rq_ID r = k) (answer_request now s reply a) rows)
    \<le> rows_affected (\<lambda>r. rq_RequesterUserID r = userID \<and> rq_Status r = ''open'') rows +
      (if s = ''open'' \<and> list_ex (\<lambda>r. rq_ID r = k \<and> rq_RequesterUserID r = userID \<and> rq_Status r \<noteq> ''open'') rows then 1 else 0)"
  using assms(1)
proof (induction rows)
  case (Cons r rows)
  have rest: "rq_ID r = k \<Longrightarrow> update_where (\<lambda>r. rq_ID r = k) (answer_request now s reply a) rows = rows"
    using Cons.prems by (auto simp: update_where_def image_iff intro!: map_idI)
  have head: "update_where p f (r # rows) = (if p r then f r else r) # update_where p f rows" for p f by (simp add: update_where_def)
  have one: "rows_affected p (x # xs) = (if p x then 1 else 0) + rows_affected p xs" for p x xs by (simp add: rows_affected_def)
  show ?case
  proof (cases "rq_ID r = k")
    case True
    then show ?thesis using assms(2) unfolding head one rest [OF True] by (auto simp: answer_request_def)
  next
    case False
    moreover have "distinct (map rq_ID rows)" using Cons.prems by simp
    note Cons.IH [OF this]
    ultimately show ?thesis unfolding head one by simp
  qed
qed (simp add: rows_affected_def update_where_def)

lemma updated_cases:
  obtains "snd (updateAdminRequest runes now k user s body st) = st"
  | reply where "usr_Role user = ''admin''" "s = ''open'' \<or> s = ''resolved''"
      "snd (updateAdminRequest runes now k user s body st) =
         st\<lparr>rs_requests := update_where (\<lambda>r. rq_ID r = k) (answer_request now s reply (usr_ID user)) (rs_requests st)\<rparr>"
proof -
  have "snd (updateAdminRequest runes now k user s body st) = st \<or>
    (usr_Role user = ''admin'' \<and> (s = ''open'' \<or> s = ''resolved'') \<and> (\<exists>reply. snd (updateAdminRequest runes now k user s body st) =
       st\<lparr>rs_requests := update_where (\<lambda>r. rq_ID r = k) (answer_request now s reply (usr_ID user)) (rs_requests st)\<rparr>))"
    unfolding updateAdminRequest_def SetAdminRequestStatus_def by (auto split: option.split)
  then show ?thesis using that by blast
qed

lemma request_step_bound:
  assumes "requests_ok st"
  shows "requests_ok (request_step runes c st) \<and>
    open_requests userID (request_step runes c st) \<le> max maxOpenAdminRequests (open_requests userID st) + (if reopens userID c st then 1 else 0)"
proof (cases c)
  case (Submit now k user body)
  show ?thesis
  proof (cases "createAdminRequest runes now k user body st = (201, snd (createAdminRequest runes now k user body st)) \<and> snd (createAdminRequest runes now k user body st) \<noteq> st")
    case True
    then obtain message where "CreateAdminRequest runes now k (usr_ID user) message maxOpenAdminRequests st = Inr (snd (createAdminRequest runes now k user body st))"
      by (auto simp: createAdminRequest_def split: if_splits option.splits sum.splits store_error.splits)
    from created_Inr [OF this assms, of userID] show ?thesis using Submit by (auto split: if_splits)
  next
    case False
    then have "snd (createAdminRequest runes now k user body st) = st"
      by (auto simp: createAdminRequest_def split: if_splits option.splits sum.splits store_error.splits)
    then show ?thesis using Submit assms by simp
  qed
  next
  case (Respond now k user s body)
  have dist: "distinct (map rq_ID (rs_requests st))" using assms by (simp add: requests_ok_def)
  from updated_cases [of runes now k user s body st]
  show ?thesis
  proof cases
    case 1
    then show ?thesis using Respond assms by simp
  next
    case (2 reply)
    have "list_all request_row_ok (update_where (\<lambda>r. rq_ID r = k) (answer_request now s reply (usr_ID user)) (rs_requests st))"
      using assms 2(2) by (auto simp: requests_ok_def list_all_iff update_where_def request_row_ok_def answer_request_def)
    then have "requests_ok (request_step runes c st)"
      using answer_upd.distinct_keys [OF dist] Respond 2(3) by (simp add: requests_ok_def)
    moreover have "reopens userID c st \<longleftrightarrow> s = ''open'' \<and> list_ex (\<lambda>r. rq_ID r = k \<and> rq_RequesterUserID r = userID \<and> rq_Status r \<noteq> ''open'') (rs_requests st)"
      using Respond 2(1) by (simp add: reopens_def)
    ultimately show ?thesis using answered_open [OF dist 2(2), of userID k now reply "usr_ID user"] Respond 2(3)
      by (simp add: open_requests_def)
  qed
  qed

text \<open>A member has at most three open requests, and one more for each that administrators opened again.\<close>

lemma open_requests_limited:
  "requests_ok st \<Longrightarrow>
    open_requests userID (fold (request_step runes) cs st) \<le> max maxOpenAdminRequests (open_requests userID st) + reopened runes userID cs st"
proof (induction cs arbitrary: st)
  case (Cons c cs)
  from request_step_bound [OF Cons.prems, of runes c userID] have "requests_ok (request_step runes c st)" by simp
  from Cons.IH [OF this] request_step_bound [OF Cons.prems, of runes c userID] show ?case by (auto simp: max_def split: if_splits)
qed simp

section \<open>Witnesses\<close>

definition sample_access :: AccessStore where
  "sample_access = \<lparr>acc_users = [\<lparr>us_ID = ''o'', us_Enabled = True\<rparr>, \<lparr>us_ID = ''u'', us_Enabled = True\<rparr>],
     acc_experiments = [\<lparr>sh_ID = ''e'', sh_Owner = ''o'', sh_Everyone = True, sh_ConfigurationIDs = []\<rparr>], acc_configurations = [],
     acc_experiment_shares = [], acc_configuration_shares = [], acc_db = empty_store\<rparr>"

definition sample_sharing :: Sharing where
  "sample_sharing = \<lparr>shr_Visibility = ''selected'', shr_UserIDs = [''u'']\<rparr>"


end
