(* ===== verification/Deletion.thy ===== *)
theory Deletion
  imports Store Json
begin

text \<open>
  Deletion of an experiment with its history (\<open>storage/experiments.go\<close>, \<open>storage/experiment_deletion.go\<close>)
  and of the stored objects it leaves (\<open>storage/artifact_deletions.go\<close>). What other experiments,
  resources or pipelines use is kept.
\<close>

section \<open>Tables\<close>

record figure_row =
  fg_ExperimentID :: string
  fg_StorageKey :: string
  fg_SourceArtifactIDs :: "string list"

record deletion_row =
  dl_StorageKey :: string
  dl_RetryAfter :: timestamp

text \<open>
  The tables of the engine, the pipelines of variants, figures, the operations of the strategy catalog,
  and the endpoint and credential artifacts of plugin runtime profiles and registries.
\<close>

record DeletionStore =
  ds_db :: Store
  ds_variantPipelines :: "(string \<times> string) list"
  ds_figures :: "figure_row list"
  ds_strategies :: "string list"
  ds_profiles :: "(string \<times> string) list"
  ds_registries :: "(string \<times> string) list"
  ds_deletions :: "deletion_row list"

section \<open>Which operations an experiment owns\<close>

definition deletableExperimentStatus :: "status \<Rightarrow> bool" where
  "deletableExperimentStatus s \<longleftrightarrow> s = Succeeded \<or> s = Failed \<or> s = Canceled"

text \<open>The operator \<open>->>\<close> of the database: the text of a field, null for a missing one.\<close>

definition field_as_text :: "RawMessage \<Rightarrow> string \<Rightarrow> string option" where
  "field_as_text raw key =
     (case unmarshal raw of
        Some (JObj kvs) \<Rightarrow>
          (case map_of kvs key of None \<Rightarrow> None | Some JNull \<Rightarrow> None | Some (JStr s) \<Rightarrow> Some s | Some v \<Rightarrow> Some (render v))
      | _ \<Rightarrow> None)"

definition is_cleanup :: "Operation \<Rightarrow> bool" where
  "is_cleanup p = (case plan_Steps (op_Plan p) of [] \<Rightarrow> False | step # _ \<Rightarrow> ps_Cleanup step)"

definition derived_from :: "Operation \<Rightarrow> Operation \<Rightarrow> bool" where
  "derived_from source p \<longleftrightarrow>
     field_as_text (op_Spec p) ''sourceOperationId'' = Some (op_ID source) \<or>
     op_PluginID p = op_PluginID source \<and> op_Spec p = op_Spec source \<and> is_cleanup p"

definition derived_ids :: "Operation list \<Rightarrow> string list \<Rightarrow> string list" where
  "derived_ids ops ids =
     map op_ID (filter (\<lambda>p. op_ID p \<notin> set ids \<and> list_ex (\<lambda>source. op_ID source \<in> set ids \<and> derived_from source p) ops) ops)"

text \<open>The recursive query: new rows are joined until there are none.\<close>

function owned_closure :: "Operation list \<Rightarrow> string list \<Rightarrow> string list" where
  "owned_closure ops ids = (if derived_ids ops ids = [] then ids else owned_closure ops (ids @ derived_ids ops ids))"
  by pat_completeness auto
termination
proof (relation "measure (\<lambda>(ops, ids). card (op_ID ` set ops - set ids))", goal_cases)
  case (2 ops ids)
  then obtain k where "k \<in> set (derived_ids ops ids)" by (cases "derived_ids ops ids") auto
  then have "k \<in> op_ID ` set ops - set ids" "k \<in> set (derived_ids ops ids)" by (auto simp: derived_ids_def)
  then show ?case by (auto intro!: psubset_card_mono)
qed simp

declare owned_closure.simps [simp del]

definition db_ops :: "Store \<Rightarrow> Operation list" where
  "db_ops st = map opr_Op (db_operations st)"

definition stage_ids :: "(PipelineRunStage \<Rightarrow> string) \<Rightarrow> string list \<Rightarrow> Store \<Rightarrow> string list" where
  "stage_ids f runs st = filter (\<lambda>k. k \<noteq> []) (map f (filter (\<lambda>s. st_RunID s \<in> set runs) (db_stages st)))"

definition owned_operations :: "string list \<Rightarrow> Store \<Rightarrow> string list" where
  "owned_operations runs st =
     remdups (owned_closure (db_ops st) (stage_ids st_OperationID runs st) @ stage_ids st_CleanupOperationID runs st)"

section \<open>Which operations others need\<close>

definition input_artifacts :: "Operation \<Rightarrow> string list" where
  "input_artifacts p = concat (map (\<lambda>step. map ai_ArtifactID (ps_ArtifactInputs step)) (plan_Steps (op_Plan p)))"

text \<open>
  What refers to an artifact apart from operations: trials, runs, figures, runtime profiles and registries,
  and the definitions of pipelines. \<open>texts\<close> gives the strings of the JSON of a definition.
\<close>

definition trial_references :: "Store \<Rightarrow> string list" where
  "trial_references st = concat (map (\<lambda>t. case tr_ResultArtifactID t of None \<Rightarrow> [] | Some k \<Rightarrow> [k]) (db_trials st))"

definition run_references :: "Store \<Rightarrow> string list" where
  "run_references st = concat (map (\<lambda>r. case rr_ResultArtifactID r of None \<Rightarrow> [] | Some k \<Rightarrow> [k]) (db_runs st))"

definition kept_references :: "(PipelineDefinition \<Rightarrow> string list) \<Rightarrow> DeletionStore \<Rightarrow> string list" where
  "kept_references texts st =
     trial_references (ds_db st) @ run_references (ds_db st) @ concat (map fg_SourceArtifactIDs (ds_figures st)) @
     concat (map (\<lambda>(endpoint, credential). [endpoint, credential]) (ds_profiles st @ ds_registries st)) @
     concat (map (\<lambda>p. texts (pl_Definition p)) (db_pipelines (ds_db st)))"

definition operation_references :: "string list \<Rightarrow> Store \<Rightarrow> string list" where
  "operation_references ids st = concat (map input_artifacts (filter (\<lambda>p. op_ID p \<notin> set ids) (db_ops st)))"

definition referenced_operation :: "string \<Rightarrow> DeletionStore \<Rightarrow> bool" where
  "referenced_operation k st \<longleftrightarrow>
     list_ex (\<lambda>s. st_OperationID s = k \<or> st_CleanupOperationID s = k) (db_stages (ds_db st)) \<or>
     list_ex (\<lambda>t. tr_OperationID t = Some k) (db_trials (ds_db st)) \<or>
     list_ex (\<lambda>r. inf_CreatedBy r = Some k) (db_infra (ds_db st)) \<or>
     list_ex (\<lambda>r. mr_OperationID r = Some k \<or> mr_DeletionOperationID r = Some k) (db_managed (ds_db st)) \<or>
     k \<in> set (ds_strategies st)"

definition removable :: "(PipelineDefinition \<Rightarrow> string list) \<Rightarrow> string list \<Rightarrow> DeletionStore \<Rightarrow> string \<Rightarrow> bool" where
  "removable texts ids st k \<longleftrightarrow>
     k \<in> set (map op_ID (db_ops (ds_db st))) \<and> \<not> referenced_operation k st \<and>
     \<not> list_ex (\<lambda>a. art_OperationID a = k \<and> art_ID a \<in> set (kept_references texts st @ operation_references ids (ds_db st))) (db_artifacts (ds_db st))"

text \<open>The loop: operations that others need leave the list until nothing changes.\<close>

function retain_loop :: "(PipelineDefinition \<Rightarrow> string list) \<Rightarrow> DeletionStore \<Rightarrow> string list \<Rightarrow> string list" where
  "retain_loop texts st ids =
     (let next_ids = filter (removable texts ids st) ids
      in if length next_ids = length ids then next_ids else retain_loop texts st next_ids)"
  by pat_completeness auto
termination
proof (relation "measure (\<lambda>(texts, st, ids). length ids)", goal_cases)
  case (2 texts st ids x)
  then show ?case using length_filter_le [of "removable texts ids st" ids] by (simp add: le_less)
qed simp

declare retain_loop.simps [simp del]

section \<open>Deletion\<close>

definition snapshot :: "Pipeline \<Rightarrow> bool" where
  "snapshot p \<longleftrightarrow> has_prefix ''Immutable execution pipeline for '' (pl_Description p) \<or> has_prefix ''Immutable suite pipeline for '' (pl_Description p)"

definition managed_run :: "string list \<Rightarrow> managed_row \<Rightarrow> bool" where
  "managed_run runs r \<longleftrightarrow> list_ex (\<lambda>k. mr_PipelineRunID r = Some k \<or> mr_DeletionPipelineRunID r = Some k \<or> mr_RecreationPipelineRunID r = Some k) runs"

definition managed_pipeline :: "string \<Rightarrow> managed_row \<Rightarrow> bool" where
  "managed_pipeline k r \<longleftrightarrow> mr_PipelineID r = Some k \<or> mr_DeletionPipelineID r = Some k \<or> mr_RecreationPipelineID r = Some k"

definition queue_deletion :: "timestamp \<Rightarrow> string \<Rightarrow> deletion_row list \<Rightarrow> deletion_row list" where
  "queue_deletion now key rows = (if key \<in> set (map dl_StorageKey rows) then rows else rows @ [\<lparr>dl_StorageKey = key, dl_RetryAfter = now\<rparr>])"

definition drop_audit :: "string list \<Rightarrow> Store \<Rightarrow> Store" where
  "drop_audit ids st = st\<lparr>db_audit := filter (\<lambda>e. au_TargetID e \<notin> set ids) (db_audit st)\<rparr>"

definition drop_runs :: "string list \<Rightarrow> DeletionStore \<Rightarrow> DeletionStore" where
  "drop_runs runs st = st\<lparr>ds_db := (ds_db st)\<lparr>db_runs := filter (\<lambda>r. rr_ID r \<notin> set runs) (db_runs (ds_db st)),
     db_stages := filter (\<lambda>s. st_RunID s \<notin> set runs) (db_stages (ds_db st))\<rparr>\<rparr>"

definition dead_pipeline :: "string list \<Rightarrow> DeletionStore \<Rightarrow> Pipeline \<Rightarrow> bool" where
  "dead_pipeline pipelines st p \<longleftrightarrow>
     pl_ID p \<in> set pipelines \<and> snapshot p \<and> \<not> list_ex (\<lambda>r. rr_PipelineID r = pl_ID p) (db_runs (ds_db st)) \<and>
     pl_ID p \<notin> set (map snd (ds_variantPipelines st))"

definition drop_pipelines :: "string list \<Rightarrow> DeletionStore \<Rightarrow> DeletionStore" where
  "drop_pipelines pipelines st = st\<lparr>ds_db := (ds_db st)\<lparr>db_pipelines := filter (\<lambda>p. \<not> dead_pipeline pipelines st p) (db_pipelines (ds_db st))\<rparr>\<rparr>"

definition drop_operations :: "timestamp \<Rightarrow> string list \<Rightarrow> DeletionStore \<Rightarrow> DeletionStore" where
  "drop_operations now ids st = st\<lparr>
     ds_deletions := fold (\<lambda>k. queue_deletion now (''/kubephos/operations/'' @ k @ ''/'')) ids (ds_deletions st),
     ds_db := (ds_db st)\<lparr>db_artifacts := filter (\<lambda>a. art_OperationID a \<notin> set ids) (db_artifacts (ds_db st)),
       db_operations := filter (\<lambda>r. op_key r \<notin> set ids) (db_operations (ds_db st)),
       db_steps := filter (\<lambda>s. os_OperationID s \<notin> set ids) (db_steps (ds_db st)),
       db_logs := filter (\<lambda>l. lg_OperationID l \<notin> set ids) (db_logs (ds_db st))\<rparr>\<rparr>"

text \<open>A requested run that no trial uses any more.\<close>

definition free_run :: "string list \<Rightarrow> Store \<Rightarrow> run_row \<Rightarrow> bool" where
  "free_run requested st r \<longleftrightarrow> rr_ID r \<in> set requested \<and> \<not> list_ex (\<lambda>t. tr_PipelineRunID t = Some (rr_ID r)) (db_trials st)"

definition deleteExperimentRuns ::
  "(PipelineDefinition \<Rightarrow> string list) \<Rightarrow> timestamp \<Rightarrow> string list \<Rightarrow> DeletionStore \<Rightarrow> store_error + DeletionStore" where
  "deleteExperimentRuns texts now requested st =
     (let db = ds_db st; freed = filter (free_run requested db) (db_runs db); runs = map rr_ID freed;
          pipelines = remdups (map rr_PipelineID freed); operations = owned_operations runs db;
          dropped = drop_pipelines pipelines (drop_runs runs st);
          final = retain_loop texts dropped operations
      in if \<not> list_all (\<lambda>r. deletableExperimentStatus (rr_Status r)) freed then Inl ErrConflict
         else if list_ex (\<lambda>p. op_ID p \<in> set operations \<and> \<not> deletableExperimentStatus (op_Status p)) (db_ops db) then Inl ErrConflict
         else if list_ex (managed_run runs) (db_managed db) then Inl ErrForeignKey
         else if list_ex (\<lambda>p. dead_pipeline pipelines (drop_runs runs st) p \<and> list_ex (managed_pipeline (pl_ID p)) (db_managed db)) (db_pipelines db)
         then Inl ErrForeignKey
         else let done_st = drop_operations now final dropped
              in Inr (done_st\<lparr>ds_db := drop_audit (runs @ final @ pipelines) (ds_db done_st)\<rparr>))"

definition trials_of :: "string \<Rightarrow> Store \<Rightarrow> trial_row list" where
  "trials_of k st = filter (\<lambda>t. list_ex (\<lambda>v. va_ID v = tr_VariantID t \<and> va_ExperimentID v = k) (db_variants st)) (db_trials st)"

text \<open>The rows an experiment takes with it: variants, their trials, and figures.\<close>

definition drop_experiment :: "string \<Rightarrow> DeletionStore \<Rightarrow> DeletionStore" where
  "drop_experiment k st =
     (let db = ds_db st; variants = map va_ID (filter (\<lambda>v. va_ExperimentID v = k) (db_variants db))
      in st\<lparr>ds_figures := filter (\<lambda>f. fg_ExperimentID f \<noteq> k) (ds_figures st),
            ds_variantPipelines := filter (\<lambda>(v, p). v \<notin> set variants) (ds_variantPipelines st),
            ds_db := drop_audit [k] (db\<lparr>db_experiments := filter (\<lambda>e. ex_ID e \<noteq> k) (db_experiments db),
              db_variants := filter (\<lambda>v. va_ExperimentID v \<noteq> k) (db_variants db),
              db_trials := filter (\<lambda>t. tr_VariantID t \<notin> set variants) (db_trials db)\<rparr>)\<rparr>)"

definition DeleteExperiment ::
  "(PipelineDefinition \<Rightarrow> string list) \<Rightarrow> timestamp \<Rightarrow> string \<Rightarrow> DeletionStore \<Rightarrow> store_error + DeletionStore" where
  "DeleteExperiment texts now k st =
     (case find_row ex_ID k (db_experiments (ds_db st)) of
        None \<Rightarrow> Inl ErrNotFound
      | Some e \<Rightarrow>
          if \<not> deletableExperimentStatus (ex_Status e) then Inl ErrConflict
          else (let runIDs = remdups (concat (map (\<lambda>t. case tr_PipelineRunID t of None \<Rightarrow> [] | Some r \<Rightarrow> [r]) (trials_of k (ds_db st))));
                    queued = st\<lparr>ds_deletions := fold (\<lambda>f. queue_deletion now (fg_StorageKey f)) (filter (\<lambda>f. fg_ExperimentID f = k) (ds_figures st)) (ds_deletions st)\<rparr>
                in deleteExperimentRuns texts now runIDs (drop_experiment k queued)))"

definition orphaned_run :: "Store \<Rightarrow> run_row \<Rightarrow> bool" where
  "orphaned_run st r \<longleftrightarrow>
     deletableExperimentStatus (rr_Status r) \<and> list_ex (\<lambda>p. pl_ID p = rr_PipelineID r \<and> snapshot p) (db_pipelines st) \<and>
     \<not> list_ex (\<lambda>t. tr_PipelineRunID t = Some (rr_ID r)) (db_trials st)"

definition PurgeOrphanedExperimentHistory ::
  "(PipelineDefinition \<Rightarrow> string list) \<Rightarrow> timestamp \<Rightarrow> DeletionStore \<Rightarrow> store_error + DeletionStore" where
  "PurgeOrphanedExperimentHistory texts now st =
     deleteExperimentRuns texts now (map rr_ID (filter (orphaned_run (ds_db st)) (db_runs (ds_db st)))) st"

section \<open>Stored objects\<close>

text \<open>One round over the due keys, oldest first: \<open>remove\<close> tells whether the object store removed the key.\<close>

definition deletion_due :: "timestamp \<Rightarrow> deletion_row list \<Rightarrow> deletion_row list" where
  "deletion_due now rows = take 20 (filter (\<lambda>r. dl_RetryAfter r \<le> now) rows)"

definition retry_delay :: nat where
  "retry_delay = 30"

definition process_key :: "timestamp \<Rightarrow> (string \<Rightarrow> bool) \<Rightarrow> string \<Rightarrow> deletion_row list \<Rightarrow> deletion_row list" where
  "process_key now remove key rows =
     (if remove key then filter (\<lambda>r. dl_StorageKey r \<noteq> key) rows
      else update_where (\<lambda>r. dl_StorageKey r = key) (\<lambda>r. r\<lparr>dl_RetryAfter := now + retry_delay\<rparr>) rows)"

definition ProcessArtifactDeletions :: "timestamp \<Rightarrow> (string \<Rightarrow> bool) \<Rightarrow> DeletionStore \<Rightarrow> DeletionStore" where
  "ProcessArtifactDeletions now remove st =
     st\<lparr>ds_deletions := fold (process_key now remove) (map dl_StorageKey (deletion_due now (ds_deletions st))) (ds_deletions st)\<rparr>"

section \<open>What the loop keeps and removes\<close>

text \<open>A set of operations that nothing outside of it needs.\<close>

definition self_contained :: "(PipelineDefinition \<Rightarrow> string list) \<Rightarrow> DeletionStore \<Rightarrow> string set \<Rightarrow> bool" where
  "self_contained texts st ops \<longleftrightarrow>
     ops \<subseteq> set (map op_ID (db_ops (ds_db st))) \<and> (\<forall>k \<in> ops. \<not> referenced_operation k st) \<and>
     (\<forall>a \<in> set (db_artifacts (ds_db st)). art_OperationID a \<in> ops \<longrightarrow>
        art_ID a \<notin> set (kept_references texts st) \<and>
        (\<forall>p \<in> set (db_ops (ds_db st)). art_ID a \<in> set (input_artifacts p) \<longrightarrow> op_ID p \<in> ops))"

lemma operation_references_iff:
  "k \<in> set (operation_references ids st) \<longleftrightarrow> (\<exists>p \<in> set (db_ops st). op_ID p \<notin> set ids \<and> k \<in> set (input_artifacts p))"
  by (auto simp: operation_references_def)

lemma removable_all: "(\<forall>k \<in> set ids. removable texts ids st k) \<longleftrightarrow> self_contained texts st (set ids)"
  by (auto simp: removable_def self_contained_def list_ex_iff operation_references_iff)

lemma self_contained_removable:
  assumes "self_contained texts st ops" "ops \<subseteq> set ids" "k \<in> ops"
  shows "removable texts ids st k"
  using assms by (fastforce simp: removable_def self_contained_def list_ex_iff operation_references_iff)

lemma filter_all_length: "length (filter p xs) = length xs \<longleftrightarrow> (\<forall>x \<in> set xs. p x)"
  using length_filter_less [of _ xs p] by (auto simp: filter_True) blast

lemma retain_self_contained: "self_contained texts st (set (retain_loop texts st ids))"
proof (induction texts st ids rule: retain_loop.induct)
  case (1 texts st ids)
  show ?case
  proof (cases "length (filter (removable texts ids st) ids) = length ids")
    case True
    then have all: "\<forall>k \<in> set ids. removable texts ids st k" by (simp only: filter_all_length)
    then have "filter (removable texts ids st) ids = ids" by simp
    then show ?thesis using all unfolding removable_all by (subst retain_loop.simps) (simp add: Let_def)
  next
    case False
    then show ?thesis using 1 by (subst retain_loop.simps) (simp add: Let_def)
  qed
qed

lemma retain_subset: "set (retain_loop texts st ids) \<subseteq> set ids"
proof (induction texts st ids rule: retain_loop.induct)
  case (1 texts st ids)
  then show ?case
    by (subst retain_loop.simps) (cases "length (filter (removable texts ids st) ids) = length ids"; force simp: Let_def)
qed

lemma retain_contains: "self_contained texts st ops \<Longrightarrow> ops \<subseteq> set ids \<Longrightarrow> ops \<subseteq> set (retain_loop texts st ids)"
proof (induction texts st ids rule: retain_loop.induct)
  case (1 texts st ids)
  have "ops \<subseteq> set (filter (removable texts ids st) ids)"
    using self_contained_removable [OF 1(2,3)] 1(3) by auto
  then show ?case using 1(1) [OF refl _ 1(2)]
    by (subst retain_loop.simps) (cases "length (filter (removable texts ids st) ids) = length ids"; simp add: Let_def)
qed

text \<open>
  C30: The loop that retains shared operations ends, and what it returns is the largest set of the owned
  operations that can go: no table and no artifact of a run, trial, figure, pipeline, profile or
  operation outside of the set needs one of them.
\<close>

theorem retained_greatest:
  "set (retain_loop texts st ids) = \<Union> {ops. ops \<subseteq> set ids \<and> self_contained texts st ops}"
  using retain_self_contained [of texts st ids] retain_subset [of texts st ids] retain_contains [of texts st _ ids] by blast

section \<open>References survive\<close>

definition references :: "(PipelineDefinition \<Rightarrow> string list) \<Rightarrow> DeletionStore \<Rightarrow> string set" where
  "references texts st = set (kept_references texts st) \<union> set (operation_references [] (ds_db st))"

lemma dropped_operations_safe:
  assumes "self_contained texts st (set ids)" "a \<in> set (db_artifacts (ds_db st))" "art_ID a \<in> references texts (drop_operations now ids st)"
  shows "a \<in> set (db_artifacts (ds_db (drop_operations now ids st)))"
proof (rule ccontr)
  assume "\<not> ?thesis"
  then have gone: "art_OperationID a \<in> set ids" using assms(2) by (simp add: drop_operations_def)
  have "kept_references texts (drop_operations now ids st) = kept_references texts st"
    by (simp add: drop_operations_def kept_references_def trial_references_def run_references_def)
  moreover have "art_ID a \<notin> set (operation_references [] (ds_db (drop_operations now ids st)))"
    using assms(1,2) gone by (fastforce simp: drop_operations_def operation_references_iff db_ops_def self_contained_def op_key_def)
  ultimately show False using assms(1-3) gone by (auto simp: references_def self_contained_def)
qed

lemma drop_audit_parts [simp]:
  "db_artifacts (drop_audit ids db) = db_artifacts db" "db_trials (drop_audit ids db) = db_trials db" "db_runs (drop_audit ids db) = db_runs db"
  "db_pipelines (drop_audit ids db) = db_pipelines db" "db_operations (drop_audit ids db) = db_operations db"
  by (simp_all add: drop_audit_def)

lemma references_audit: "references texts (st\<lparr>ds_db := drop_audit ids (ds_db st)\<rparr>) = references texts st"
  by (simp add: references_def kept_references_def trial_references_def run_references_def operation_references_def db_ops_def)

lemma drop_parts [simp]:
  "db_artifacts (ds_db (drop_runs runs st)) = db_artifacts (ds_db st)" "db_artifacts (ds_db (drop_pipelines pipelines st)) = db_artifacts (ds_db st)"
  "db_artifacts (ds_db (drop_experiment k st)) = db_artifacts (ds_db st)"
  by (simp_all add: drop_runs_def drop_pipelines_def drop_experiment_def Let_def)

lemma deleted_runs_safe:
  assumes "deleteExperimentRuns texts now requested st = Inr st'" "a \<in> set (db_artifacts (ds_db st))" "art_ID a \<in> references texts st'"
  shows "a \<in> set (db_artifacts (ds_db st'))"
proof -
  from assms(1) obtain ids runs pipelines audited where st': "st' = (drop_operations now (retain_loop texts (drop_pipelines pipelines (drop_runs runs st)) ids)
      (drop_pipelines pipelines (drop_runs runs st)))\<lparr>ds_db := drop_audit audited (ds_db (drop_operations now
      (retain_loop texts (drop_pipelines pipelines (drop_runs runs st)) ids) (drop_pipelines pipelines (drop_runs runs st))))\<rparr>"
    by (auto simp: deleteExperimentRuns_def Let_def split: if_splits)
  have "a \<in> set (db_artifacts (ds_db (drop_pipelines pipelines (drop_runs runs st))))" using assms(2) by simp
  from dropped_operations_safe [OF retain_self_contained this] assms(3) show ?thesis
    unfolding st' references_audit by simp
qed


section \<open>The queue of stored objects\<close>

lemma processed_keys: "dl_StorageKey ` set (process_key now remove key rows) = dl_StorageKey ` set rows - (if remove key then {key} else {})"
proof -
  have "map dl_StorageKey (update_where (\<lambda>r. dl_StorageKey r = key) (\<lambda>r. r\<lparr>dl_RetryAfter := now + retry_delay\<rparr>) rows) = map dl_StorageKey rows"
    by (simp add: update_where_def)
  from arg_cong [OF this, of set] show ?thesis by (auto simp: process_key_def)
qed

lemma processed_all:
  "dl_StorageKey ` set (fold (process_key now remove) keys rows) = dl_StorageKey ` set rows - {key \<in> set keys. remove key}"
  by (induction keys arbitrary: rows) (auto simp: processed_keys)

text \<open>A key leaves the queue only when its object was removed.\<close>

lemma deletions_processed:
  "dl_StorageKey ` set (ds_deletions (ProcessArtifactDeletions now remove st)) =
     dl_StorageKey ` set (ds_deletions st) - {key \<in> dl_StorageKey ` set (deletion_due now (ds_deletions st)). remove key}"
  by (simp add: ProcessArtifactDeletions_def processed_all)

section \<open>Witnesses\<close>

text \<open>An experiment with one run of two operations; another operation reads the artifact of the first.\<close>

definition sample_plan_step :: "string list \<Rightarrow> PlanStep" where
  "sample_plan_step ids = \<lparr>ps_ID = ''s'', ps_Name = [], ps_Input = RawEmpty, ps_Mutating = False, ps_Cleanup = False,
     ps_ArtifactInputs = map (\<lambda>k. \<lparr>ai_Name = [], ai_Type = [], ai_Version = [], ai_ArtifactID = k, ai_FromStep = [], ai_FromOutput = []\<rparr>) ids,
     ps_Outputs = [], ps_ResolvedInputs = [], ps_Effects = []\<rparr>"

definition sample_ended :: "string \<Rightarrow> string list \<Rightarrow> op_row" where
  "sample_ended k ids = \<lparr>opr_Op = \<lparr>op_ID = k, op_WorkspaceID = ''w'', op_PluginID = k, op_PluginVersion = [], op_PluginDigest = [], op_Title = [],
       op_Status = Succeeded, op_Spec = RawEmpty, op_Plan = \<lparr>plan_PluginID = k, plan_Steps = [sample_plan_step ids]\<rparr>,
       op_Validation = \<lparr>vr_Valid = True, vr_Issues = [], vr_CheckedAt = 0\<rparr>, op_PlanHash = [], op_CancelRequested = False, op_Error = [], op_CreatedAt = 0,
       op_QueuedAt = None, op_StartedAt = None, op_CompletedAt = None, op_Steps = [], op_Artifacts = []\<rparr>,
     opr_LeaseOwner = None, opr_LeaseUntil = None\<rparr>"

definition sample_artifact_of :: "string \<Rightarrow> string \<Rightarrow> Artifact" where
  "sample_artifact_of k p = \<lparr>art_ID = k, art_OperationID = p, art_StepID = [], art_OutputName = [], art_Name = [], art_Type = [], art_Version = [],
     art_MediaType = [], art_StorageKey = [], art_Digest = [], art_SizeBytes = 0, art_StorageDigest = [], art_StoredSizeBytes = 0,
     art_EncryptionNonce = [], art_Sensitive = False, art_VerifiedAt = 1\<rparr>"

definition sample_trial_run :: run_row where
  "sample_trial_run = \<lparr>rr_ID = ''r'', rr_PipelineID = ''p'', rr_WorkspaceID = ''w'', rr_ClusterResourceID = None, rr_OwnerUserID = None, rr_IsolationMode = [],
     rr_Name = [], rr_Status = Succeeded, rr_PipelineHash = [], rr_ResultType = [], rr_ResultVersion = [], rr_ResultArtifactID = None,
     rr_CancelRequested = False, rr_TerminalStatus = None, rr_Error = [], rr_CreatedAt = 0, rr_QueuedAt = 0, rr_ScheduledFor = 0, rr_StartedAt = None,
     rr_CompletedAt = None, rr_PauseBeforeStage = [], rr_ExecutionRequested = False, rr_InitializedAt = None, rr_ApplicationNamespace = [],
     rr_LeaseOwner = None, rr_LeaseUntil = None\<rparr>"

definition sample_history_stage :: "string \<Rightarrow> PipelineRunStage" where
  "sample_history_stage k = \<lparr>st_ID = k, st_RunID = ''r'', st_Position = 0, st_StageID = k, st_PluginID = k, st_Title = [], st_Status = Succeeded,
     st_OperationID = k, st_Spec = RawEmpty, st_Error = [], st_StartedAt = None, st_CompletedAt = None, st_CleanupOperationID = [],
     st_CleanupStatus = NoStatus, st_CleanupError = [], st_CleanupStartedAt = None, st_CleanupCompletedAt = None\<rparr>"

definition sample_history :: DeletionStore where
  "sample_history = \<lparr>ds_db = empty_store\<lparr>
       db_operations := [sample_ended ''x'' [], sample_ended ''y'' [''a''], sample_ended ''z'' [''a'']],
       db_artifacts := [sample_artifact_of ''a'' ''x'', sample_artifact_of ''b'' ''y''],
       db_runs := [sample_trial_run], db_stages := [sample_history_stage ''x'', sample_history_stage ''y''],
       db_experiments := [\<lparr>ex_ID = ''e'', ex_Status = Succeeded\<rparr>],
       db_variants := [\<lparr>va_ID = ''v'', va_ExperimentID = ''e'', va_Position = 0, va_ConfigurationID = None\<rparr>],
       db_trials := [\<lparr>tr_ID = ''t'', tr_VariantID = ''v'', tr_Position = 0, tr_Status = Succeeded, tr_PipelineRunID = Some ''r'', tr_OperationID = None,
         tr_ResultArtifactID = Some ''b'', tr_Error = [], tr_CompletedAt = None\<rparr>]\<rparr>,
     ds_variantPipelines = [], ds_figures = [], ds_strategies = [], ds_profiles = [], ds_registries = [], ds_deletions = []\<rparr>"

lemma sample_fields [simp]:
  "op_ID (opr_Op (sample_ended k ids)) = k" "op_PluginID (opr_Op (sample_ended k ids)) = k" "op_Spec (opr_Op (sample_ended k ids)) = RawEmpty"
  "op_Status (opr_Op (sample_ended k ids)) = Succeeded" "input_artifacts (opr_Op (sample_ended k ids)) = ids" "is_cleanup (opr_Op (sample_ended k ids)) = False"
  "op_key (sample_ended k ids) = k"
  "art_ID (sample_artifact_of k p) = k" "art_OperationID (sample_artifact_of k p) = p"
  "rr_ID sample_trial_run = ''r''" "rr_PipelineID sample_trial_run = ''p''" "rr_Status sample_trial_run = Succeeded" "rr_ResultArtifactID sample_trial_run = None"
  "st_RunID (sample_history_stage k) = ''r''" "st_OperationID (sample_history_stage k) = k" "st_CleanupOperationID (sample_history_stage k) = []"
  by (simp_all add: sample_ended_def sample_plan_step_def sample_artifact_of_def sample_trial_run_def sample_history_stage_def input_artifacts_def is_cleanup_def op_key_def comp_def)

lemma sample_owned: "owned_closure [opr_Op (sample_ended ''x'' []), opr_Op (sample_ended ''y'' [''a'']), opr_Op (sample_ended ''z'' [''a''])] [''x'', ''y''] = [''x'', ''y'']"
  by (subst owned_closure.simps) (simp add: derived_ids_def derived_from_def field_as_text_def)

lemma sample_retained:
  assumes "db_ops (ds_db st) = [opr_Op (sample_ended ''x'' []), opr_Op (sample_ended ''y'' [''a'']), opr_Op (sample_ended ''z'' [''a''])]"
    and "db_artifacts (ds_db st) = [sample_artifact_of ''a'' ''x'', sample_artifact_of ''b'' ''y'']"
    and "kept_references texts st = []" "\<And>k. k \<noteq> [] \<Longrightarrow> \<not> referenced_operation k st"
  shows "retain_loop texts st [''x'', ''y''] = [''y'']"
proof -
  have "filter (removable texts [''x'', ''y''] st) [''x'', ''y''] = [''y'']" "filter (removable texts [''y''] st) [''y''] = [''y'']"
    using assms by (simp_all add: removable_def operation_references_def)
  then show ?thesis by (subst retain_loop.simps, subst retain_loop.simps) (simp add: Let_def)
qed

lemmas sample_deletion_defs = sample_history_def empty_store_def drop_experiment_def drop_audit_def Let_def drop_runs_def drop_pipelines_def

definition sample_dropped :: DeletionStore where
  "sample_dropped = drop_pipelines [''p''] (drop_runs [''r''] (drop_experiment ''e'' sample_history))"

lemma sample_loop: "retain_loop (\<lambda>_. []) sample_dropped [''x'', ''y''] = [''y'']"
  by (rule sample_retained)
    (simp_all add: sample_dropped_def sample_deletion_defs db_ops_def kept_references_def trial_references_def run_references_def referenced_operation_def del: set_filter)

lemma sample_runs_deleted:
  "deleteExperimentRuns (\<lambda>_. []) 0 [''r''] (drop_experiment ''e'' sample_history) =
     Inr ((drop_operations 0 [''y''] sample_dropped)\<lparr>ds_db := drop_audit [''r'', ''y'', ''p''] (ds_db (drop_operations 0 [''y''] sample_dropped))\<rparr>)"
proof -
  let ?st = "drop_experiment ''e'' sample_history"
  have runs: "filter (free_run [''r''] (ds_db ?st)) (db_runs (ds_db ?st)) = [sample_trial_run]"
    by (simp add: sample_deletion_defs free_run_def del: set_filter)
  have owned: "owned_operations [''r''] (ds_db ?st) = [''x'', ''y'']"
    by (simp add: sample_deletion_defs owned_operations_def stage_ids_def db_ops_def sample_owned)
  have "db_managed (ds_db ?st) = []" "\<not> list_ex (\<lambda>p. op_ID p \<in> {''x'', ''y''} \<and> \<not> deletableExperimentStatus (op_Status p)) (db_ops (ds_db ?st))"
    by (simp_all add: sample_deletion_defs db_ops_def deletableExperimentStatus_def)
  then show ?thesis
    by (simp add: deleteExperimentRuns_def Let_def runs owned sample_dropped_def [symmetric] sample_loop)
      (simp add: deletableExperimentStatus_def list_ex_iff)
qed


end
