(* ===== verification/Maintenance.thy ===== *)
theory Maintenance
  imports RunLife Deletion
begin

text \<open>
  The maintenance command of \<open>cmd/kubephos\<close> that retries the cleanup of an ended run
  (\<open>storage/experiment_cleanup.go\<close>). It makes the run running again, with its terminal status set, so
  that the coordinator resumes the cleanup; the guards of the table decide as for a claim.
\<close>

definition run_busy :: "run_row \<Rightarrow> Store \<Rightarrow> bool" where
  "run_busy r st \<longleftrightarrow>
     rr_ClusterResourceID r \<noteq> None \<and> rr_ClusterResourceID r \<noteq> Some [] \<and>
       list_ex (\<lambda>a. rr_ClusterResourceID a = rr_ClusterResourceID r \<and> (rr_Status a = Queued \<or> rr_Status a = Running)) (db_runs st) \<or>
     list_ex (\<lambda>s. st_RunID s = rr_ID r \<and>
       list_ex (\<lambda>p. (op_ID p = st_OperationID s \<or> op_ID p = st_CleanupOperationID s) \<and> \<not> deletableExperimentStatus (op_Status p)) (db_ops st))
       (db_stages st)"

definition failed_cleanup :: "string \<Rightarrow> PipelineRunStage \<Rightarrow> bool" where
  "failed_cleanup runID s \<longleftrightarrow> st_RunID s = runID \<and> (st_CleanupStatus s = Failed \<or> st_CleanupStatus s = Canceled)"

definition retry_stage :: "PipelineRunStage \<Rightarrow> PipelineRunStage" where
  "retry_stage s = s\<lparr>st_CleanupStatus := Pending, st_CleanupOperationID := [], st_CleanupError := [], st_CleanupStartedAt := None,
     st_CleanupCompletedAt := None\<rparr>"

definition retry_run :: "run_row \<Rightarrow> run_row" where
  "retry_run r = r\<lparr>rr_TerminalStatus := Some (if rr_Status r = Succeeded then Failed else rr_Status r), rr_Status := Running,
     rr_LeaseOwner := None, rr_LeaseUntil := None\<rparr>"

definition RetryExperimentCleanup :: "string \<Rightarrow> Store \<Rightarrow> store_error + Store" where
  "RetryExperimentCleanup runID st =
     (case find_row rr_ID runID (db_runs st) of
        None \<Rightarrow> Inl ErrNotFound
      | Some r \<Rightarrow>
          if \<not> deletableExperimentStatus (rr_Status r) then Inl ErrConflict
          else if run_busy r st then Inl ErrConflict
          else if rows_affected (failed_cleanup runID) (db_stages st) = 0 then Inl ErrConflict
          else if claim_rejected st r then Inl ErrDuplicate
          else Inr (st\<lparr>db_stages := update_where (failed_cleanup runID) retry_stage (db_stages st),
                       db_runs := update_where (is_run runID) retry_run (db_runs st)\<rparr>))"

lemma retry_identity: "run_identity (retry_run r) = run_identity r"
  by (simp add: run_identity_def retry_run_def)

text \<open>A retried cleanup keeps the running runs apart, and no cleanup of the run stays failed.\<close>

lemma retry_cleanup_exclusive:
  assumes "RetryExperimentCleanup runID st = Inr st'" "runs_exclusive (db_runs st)"
  shows "runs_exclusive (db_runs st')"
proof -
  from assms(1) obtain r where r: "find_row rr_ID runID (db_runs st) = Some r" "\<not> claim_rejected st r"
    and st': "db_runs st' = update_where (is_run runID) retry_run (db_runs st)"
    by (auto simp: RetryExperimentCleanup_def split: option.splits if_splits)
  have "rr_ID r = runID" "r \<in> set (db_runs st)" using find_row_key [OF r(1)] by simp_all
  then have "runs_exclusive (update_where (is_run runID) (claim_run 0 []) (db_runs st))"
    using runs_exclusive_claim [OF assms(2) _ r(2), of 0 "[]"] by simp
  moreover have "runs_from (update_where (is_run runID) (claim_run 0 []) (db_runs st)) (update_where (is_run runID) retry_run (db_runs st))"
    unfolding runs_from_def
  proof (intro conjI ballI impI)
    show "map rr_ID (update_where (is_run runID) retry_run (db_runs st)) = map rr_ID (update_where (is_run runID) (claim_run 0 []) (db_runs st))"
      by (simp add: update_where_def retry_run_def claim_run_def)
    fix r' assume "r' \<in> set (update_where (is_run runID) retry_run (db_runs st))" "rr_Status r' = Running"
    then obtain x where x: "x \<in> set (db_runs st)" "r' = (if is_run runID x then retry_run x else x)" "rr_Status r' = Running" by (auto simp: update_where_def)
    then show "\<exists>y \<in> set (update_where (is_run runID) (claim_run 0 []) (db_runs st)). rr_Status y = Running \<and> run_identity y = run_identity r'"
      by (intro bexI [of _ "if is_run runID x then claim_run 0 [] x else x"])
        (auto simp: update_where_def retry_identity run_identity_def claim_run_def retry_run_def)
  qed
  ultimately show ?thesis unfolding st' by (rule runs_exclusive_from)
qed

lemma retry_cleanup_pending:
  assumes "RetryExperimentCleanup runID st = Inr st'" "s \<in> set (db_stages st')"
  shows "\<not> failed_cleanup runID s"
proof -
  from assms have "s \<in> set (update_where (failed_cleanup runID) retry_stage (db_stages st))"
    by (auto simp: RetryExperimentCleanup_def split: option.splits if_splits)
  then obtain x where x: "s = (if failed_cleanup runID x then retry_stage x else x)"
    unfolding update_where_def set_map by (rule imageE)
  show ?thesis by (cases "failed_cleanup runID x") (simp_all add: x, simp add: failed_cleanup_def retry_stage_def)
qed

end
