(* ===== verification/PluginRefs.thy ===== *)
theory PluginRefs
  imports Json
begin

text \<open>
  The references an invocation resolves (\<open>plugins/process.go\<close>): which strings of the input count as
  references to connections, catalog applications and credentials (\<open>referenceResolutionPayload\<close>,
  \<open>removeResolvedInputs\<close>, \<open>collectRefs\<close>).
\<close>

section \<open>The document that is searched\<close>

function removeResolvedInputs :: "json \<Rightarrow> json" where
  "removeResolvedInputs (JObj kvs) =
     JObj (map (\<lambda>(k, x). (k, removeResolvedInputs x)) (filter (\<lambda>(k, x). k \<noteq> ''resolvedInputs'') kvs))"
| "removeResolvedInputs (JArr xs) = JArr (map removeResolvedInputs xs)"
| "removeResolvedInputs JNull = JNull"
| "removeResolvedInputs (JBool b) = JBool b"
| "removeResolvedInputs (JNum n) = JNum n"
| "removeResolvedInputs (JStr s) = JStr s"
  by pat_completeness auto
termination
  by (relation "measure size") (auto simp: size_list_estimation' less_Suc_eq_le dest!: size_list_estimation' [where f = size_json])

fun drop_result :: "json \<Rightarrow> json" where
  "drop_result (JObj kvs) = JObj (filter (\<lambda>(k, x). k \<noteq> ''result'') kvs)"
| "drop_result v = v"

definition referenceResolutionPayload :: "json \<Rightarrow> json" where
  "referenceResolutionPayload v = removeResolvedInputs (drop_result v)"

section \<open>The references\<close>

text \<open>The keys of the result map, in the order in which they were first met.\<close>

fun collectRefs :: "string \<Rightarrow> json \<Rightarrow> string list \<Rightarrow> string list" where
  "collectRefs start (JObj kvs) result = fold (\<lambda>(k, x). collectRefs start x) kvs result"
| "collectRefs start (JArr xs) result = fold (collectRefs start) xs result"
| "collectRefs start (JStr s) result = (if has_prefix start s then List.insert s result else result)"
| "collectRefs start v result = result"

section \<open>Which strings are references\<close>

text \<open>A string of a document, with the object keys on the way to it.\<close>

inductive mentions :: "json \<Rightarrow> string list \<Rightarrow> string \<Rightarrow> bool" where
  mentions_here: "mentions (JStr s) [] s"
| mentions_field: "(k, x) \<in> set kvs \<Longrightarrow> mentions x ks s \<Longrightarrow> mentions (JObj kvs) (k # ks) s"
| mentions_item: "x \<in> set xs \<Longrightarrow> mentions x ks s \<Longrightarrow> mentions (JArr xs) ks s"

inductive_simps mentions_simps [simp]:
  "mentions (JStr t) ks s" "mentions JNull ks s" "mentions (JBool b) ks s" "mentions (JNum n) ks s"
inductive_simps mentions_JObj: "mentions (JObj kvs) ks s"
inductive_simps mentions_JArr: "mentions (JArr xs) ks s"

lemma fold_collect:
  assumes "\<And>x acc. x \<in> set xs \<Longrightarrow> set (f x acc) = set acc \<union> A x"
  shows "set (fold f xs acc) = set acc \<union> (\<Union>x \<in> set xs. A x)"
  using assms by (induction xs arbitrary: acc) auto

lemma collectRefs_mentions:
  "set (collectRefs start v result) = set result \<union> {s. has_prefix start s \<and> (\<exists>ks. mentions v ks s)}"
proof (induction start v result rule: collectRefs.induct)
  case (1 start kvs result)
  let ?refs = "\<lambda>(k, x). {s. has_prefix start s \<and> (\<exists>ks. mentions x ks s)}"
  have "set (fold (\<lambda>(k, x). collectRefs start x) kvs result) = set result \<union> (\<Union>kx \<in> set kvs. ?refs kx)"
    by (rule fold_collect) (use 1 in auto)
  then show ?case by (auto simp: mentions_JObj)
next
  case (2 start xs result)
  have "set (fold (collectRefs start) xs result) =
      set result \<union> (\<Union>x \<in> set xs. {s. has_prefix start s \<and> (\<exists>ks. mentions x ks s)})"
    by (rule fold_collect) (use 2 in auto)
  then show ?case by (auto simp: mentions_JArr)
qed auto

lemma distinct_collectRefs: "distinct result \<Longrightarrow> distinct (collectRefs start v result)"
proof (induction start v result rule: collectRefs.induct)
  case (1 start kvs result)
  have "distinct (fold (\<lambda>(k, x). collectRefs start x) ys acc)" if "set ys \<subseteq> set kvs" "distinct acc" for ys acc
    using that 1(1) by (induction ys arbitrary: acc) auto
  with 1(2) show ?case by simp
next
  case (2 start xs result)
  have "distinct (fold (collectRefs start) ys acc)" if "set ys \<subseteq> set xs" "distinct acc" for ys acc
    using that 2(1) by (induction ys arbitrary: acc) auto
  with 2(2) show ?case by simp
qed auto

lemma removeResolvedInputs_mentions:
  "mentions (removeResolvedInputs v) ks s \<longleftrightarrow> mentions v ks s \<and> ''resolvedInputs'' \<notin> set ks"
proof (induction v arbitrary: ks rule: removeResolvedInputs.induct)
  case (1 kvs)
  then have IH: "mentions (removeResolvedInputs x) ks s \<longleftrightarrow> mentions x ks s \<and> ''resolvedInputs'' \<notin> set ks"
    if "(k, x) \<in> set kvs" "k \<noteq> ''resolvedInputs''" for k x ks using that by auto
  show ?case by (cases ks) (auto simp: mentions_JObj IH)
next
  case (2 xs)
  then show ?case by (auto simp: mentions_JArr)
qed auto

definition below_result :: "json \<Rightarrow> string list \<Rightarrow> bool" where
  "below_result v ks \<longleftrightarrow> (case v of JObj kvs \<Rightarrow> take 1 ks = [''result''] | _ \<Rightarrow> False)"

lemma drop_result_mentions: "mentions (drop_result v) ks s \<longleftrightarrow> mentions v ks s \<and> \<not> below_result v ks"
  by (cases v) (auto simp: below_result_def mentions_JObj)

text \<open>The references of a kind, by where they occur.\<close>

definition references_of :: "string \<Rightarrow> json \<Rightarrow> string set" where
  "references_of start input =
     {s. has_prefix start s \<and> (\<exists>ks. mentions input ks s \<and> \<not> below_result input ks \<and> ''resolvedInputs'' \<notin> set ks)}"

lemma set_references: "set (collectRefs start (referenceResolutionPayload input) []) = references_of start input"
  by (auto simp: references_of_def collectRefs_mentions referenceResolutionPayload_def
      removeResolvedInputs_mentions drop_result_mentions)

text \<open>
  The references of a kind that an invocation resolves are exactly the strings with the prefix of that
  kind that occur in the input outside the result of an earlier step and outside the resolved
  artifacts at any depth: values that earlier steps produced never cause a credential, a
  connection or a catalog entry to be read.
\<close>

theorem references_collected:
  "set (collectRefs start (referenceResolutionPayload input) []) =
     {s. has_prefix start s \<and> (\<exists>ks. mentions input ks s \<and> \<not> below_result input ks \<and> ''resolvedInputs'' \<notin> set ks)}"
  by (simp add: set_references references_of_def)

end
