(* ===== verification/Patterns.thy ===== *)
theory Patterns
  imports KP_Prelude
begin

text \<open>
  Regular expressions as the source writes them with \<open>regexp.MustCompile\<close>: classes of bytes,
  concatenation, alternatives, \<open>*\<close>, \<open>?\<close>, \<open>+\<close> and bounded repetition \<open>{0,n}\<close>. Every expression of the source
  is anchored at both ends, so a match is membership in the language of the expression. The
  matcher takes derivatives and is proved to decide that language.
\<close>

section \<open>Expressions and their languages\<close>

datatype pattern =
    Never
  | Empty
  | Class "char \<Rightarrow> bool"
  | Seq pattern pattern
  | Alt pattern pattern
  | Many pattern
  | Upto pattern nat

definition conc :: "string set \<Rightarrow> string set \<Rightarrow> string set" where
  "conc A B = {u @ v | u v. u \<in> A \<and> v \<in> B}"

inductive_set repeated :: "string set \<Rightarrow> string set" for A where
  repeated_Nil: "[] \<in> repeated A"
| repeated_step: "u \<in> A \<Longrightarrow> v \<in> repeated A \<Longrightarrow> u @ v \<in> repeated A"

primrec at_most :: "string set \<Rightarrow> nat \<Rightarrow> string set" where
  "at_most A 0 = {[]}"
| "at_most A (Suc n) = insert [] (conc A (at_most A n))"

primrec lang :: "pattern \<Rightarrow> string set" where
  "lang Never = {}"
| "lang Empty = {[]}"
| "lang (Class p) = {[c] | c. p c}"
| "lang (Seq r s) = conc (lang r) (lang s)"
| "lang (Alt r s) = lang r \<union> lang s"
| "lang (Many r) = repeated (lang r)"
| "lang (Upto r n) = at_most (lang r) n"

section \<open>The matcher\<close>

primrec nullable :: "pattern \<Rightarrow> bool" where
  "nullable Never = False"
| "nullable Empty = True"
| "nullable (Class p) = False"
| "nullable (Seq r s) = (nullable r \<and> nullable s)"
| "nullable (Alt r s) = (nullable r \<or> nullable s)"
| "nullable (Many r) = True"
| "nullable (Upto r n) = True"

text \<open>Concatenation and alternative with the trivial cases removed, which keeps derivatives small.\<close>

fun seq :: "pattern \<Rightarrow> pattern \<Rightarrow> pattern" where
  "seq Never s = Never"
| "seq Empty s = s"
| "seq r s = Seq r s"

fun alt :: "pattern \<Rightarrow> pattern \<Rightarrow> pattern" where
  "alt Never s = s"
| "alt r s = (case s of Never \<Rightarrow> r | _ \<Rightarrow> Alt r s)"

primrec deriv :: "char \<Rightarrow> pattern \<Rightarrow> pattern" where
  "deriv c Never = Never"
| "deriv c Empty = Never"
| "deriv c (Class p) = (if p c then Empty else Never)"
| "deriv c (Seq r s) = (if nullable r then alt (seq (deriv c r) s) (deriv c s) else seq (deriv c r) s)"
| "deriv c (Alt r s) = alt (deriv c r) (deriv c s)"
| "deriv c (Many r) = seq (deriv c r) (Many r)"
| "deriv c (Upto r n) = (case n of 0 \<Rightarrow> Never | Suc m \<Rightarrow> seq (deriv c r) (Upto r m))"

primrec MatchString :: "pattern \<Rightarrow> string \<Rightarrow> bool" where
  "MatchString r [] = nullable r"
| "MatchString r (c # s) = MatchString (deriv c r) s"

section \<open>The matcher decides the language\<close>

lemma concI: "u \<in> A \<Longrightarrow> v \<in> B \<Longrightarrow> u @ v \<in> conc A B"
  by (auto simp: conc_def)

lemma conc_Nil [simp]: "[] \<in> conc A B \<longleftrightarrow> [] \<in> A \<and> [] \<in> B"
  by (auto simp: conc_def)

lemma conc_empty [simp]: "conc {} B = {}"
  by (simp add: conc_def)

lemma conc_unit [simp]: "conc {[]} B = B"
  by (simp add: conc_def)

lemma conc_Cons:
  "c # s \<in> conc A B \<longleftrightarrow>
     s \<in> conc {u. c # u \<in> A} B \<or> ([] \<in> A \<and> c # s \<in> B)"
  unfolding conc_def by (auto simp: append_eq_Cons_conv Cons_eq_append_conv)

lemma lang_seq [simp]: "lang (seq r s) = conc (lang r) (lang s)"
  by (induction r s rule: seq.induct) auto

lemma lang_alt [simp]: "lang (alt r s) = lang r \<union> lang s"
  by (induction r s rule: alt.induct) (auto split: pattern.splits)

lemma at_most_Nil [simp]: "[] \<in> at_most A n"
  by (cases n) auto

lemma nullable_lang: "nullable r \<longleftrightarrow> [] \<in> lang r"
  by (induction r) (auto intro: repeated_Nil)

lemma repeated_Cons: "c # s \<in> repeated A \<longleftrightarrow> s \<in> conc {u. c # u \<in> A} (repeated A)"
proof
  assume "c # s \<in> repeated A"
  then have "\<exists>u v. s = u @ v \<and> c # u \<in> A \<and> v \<in> repeated A"
  proof (induction "c # s" rule: repeated.induct)
    case (repeated_step u v)
    then show ?case by (cases u) auto
  qed
  then show "s \<in> conc {u. c # u \<in> A} (repeated A)" by (auto simp: conc_def)
next
  assume "s \<in> conc {u. c # u \<in> A} (repeated A)"
  then obtain u v where "s = u @ v" "c # u \<in> A" "v \<in> repeated A" by (auto simp: conc_def)
  then show "c # s \<in> repeated A" using repeated_step [of "c # u" A v] by simp
qed

lemma conc_mono: "B \<subseteq> C \<Longrightarrow> conc A B \<subseteq> conc A C"
  by (auto simp: conc_def)

lemma at_most_mono: "at_most A n \<subseteq> at_most A (Suc n)"
  by (induction n) (auto intro: conc_mono [THEN subsetD])

lemma at_most_Cons: "c # s \<in> at_most A (Suc n) \<longleftrightarrow> s \<in> conc {u. c # u \<in> A} (at_most A n)"
proof (induction n)
  case (Suc n)
  have "c # s \<in> at_most A (Suc n) \<Longrightarrow> s \<in> conc {u. c # u \<in> A} (at_most A (Suc n))"
    using Suc conc_mono [OF at_most_mono [of A n]] by blast
  then show ?case by (auto simp: conc_Cons)
qed (simp add: conc_Cons)

lemma deriv_lang: "s \<in> lang (deriv c r) \<longleftrightarrow> c # s \<in> lang r"
proof (induction r arbitrary: s)
  case (Seq r1 r2)
  have "lang (deriv c r1) = {u. c # u \<in> lang r1}" using Seq.IH(1) by blast
  then show ?case using Seq.IH(2) by (auto simp: conc_Cons nullable_lang)
next
  case (Many r)
  then have "lang (deriv c r) = {u. c # u \<in> lang r}" by blast
  then show ?case by (simp add: repeated_Cons)
next
  case (Upto r n)
  then have "lang (deriv c r) = {u. c # u \<in> lang r}" by blast
  then show ?case by (cases n) (simp_all only: deriv.simps lang.simps lang_seq at_most_Cons nat.case, simp)
qed auto

theorem match_lang: "MatchString r s \<longleftrightarrow> s \<in> lang r"
  by (induction s arbitrary: r) (simp_all add: nullable_lang deriv_lang)

section \<open>Words and exact repetition\<close>

primrec word_pattern :: "string \<Rightarrow> pattern" where
  "word_pattern [] = Empty"
| "word_pattern (c # s) = Seq (Class (\<lambda>d. d = c)) (word_pattern s)"

primrec exactly :: "nat \<Rightarrow> pattern \<Rightarrow> pattern" where
  "exactly 0 r = Empty"
| "exactly (Suc n) r = Seq r (exactly n r)"

lemma lang_word [simp]: "lang (word_pattern s) = {s}"
  by (induction s) (auto simp: conc_def)

section \<open>Bytes that occur in no match\<close>

primrec avoids :: "char \<Rightarrow> pattern \<Rightarrow> bool" where
  "avoids c Never = True"
| "avoids c Empty = True"
| "avoids c (Class p) = (\<not> p c)"
| "avoids c (Seq r s) = (avoids c r \<and> avoids c s)"
| "avoids c (Alt r s) = (avoids c r \<and> avoids c s)"
| "avoids c (Many r) = avoids c r"
| "avoids c (Upto r n) = avoids c r"

lemma avoids_lang: "avoids c r \<Longrightarrow> s \<in> lang r \<Longrightarrow> c \<notin> set s"
proof (induction r arbitrary: s)
  case (Many r)
  from Many(3) have "s \<in> repeated (lang r)" by simp
  then show ?case by (induction rule: repeated.induct) (use Many in auto)
next
  case (Upto r n)
  have "s \<in> at_most (lang r) n \<Longrightarrow> c \<notin> set s" for s
    by (induction n arbitrary: s) (use Upto in \<open>auto simp: conc_def\<close>)
  with Upto(3) show ?case by simp
qed (auto simp: conc_def)

lemma avoids_match: "avoids c r \<Longrightarrow> MatchString r s \<Longrightarrow> c \<notin> set s"
  by (simp add: match_lang avoids_lang)

end
