(* ===== verification/PluginOutput.thy ===== *)
theory PluginOutput
  imports KP_Prelude
begin

text \<open>
  What the program keeps of a plugin's output: the bounded buffer its standard output is copied to
  (\<open>limitedBuffer\<close> of \<open>plugins/docker.go\<close>), the lines of its standard error that are logged and kept for
  the error message (\<open>scanLines\<close>, \<open>pluginErrorMessage\<close> of \<open>plugins/process.go\<close>), and the bounded
  message of a failed tool (\<open>commandMessage\<close>).
\<close>

section \<open>The bounded buffer\<close>

definition commandOutputLimit :: nat where
  "commandOutputLimit = 2 ^ 20"

definition pluginOutputLimit :: nat where
  "pluginOutputLimit = 16 * 2 ^ 20"

record limitedBuffer =
  lb_buffer :: string
  lb_limit :: nat
  lb_exceeded :: bool

text \<open>One write; the writer is always told that everything was written.\<close>

definition lb_Write :: "string \<Rightarrow> limitedBuffer \<Rightarrow> limitedBuffer" where
  "lb_Write value b =
     (if lb_limit b \<le> length (lb_buffer b) then b\<lparr>lb_exceeded := True\<rparr>
      else let remaining = lb_limit b - length (lb_buffer b) in
        if remaining < length value
        then b\<lparr>lb_exceeded := True, lb_buffer := lb_buffer b @ take remaining value\<rparr>
        else b\<lparr>lb_buffer := lb_buffer b @ value\<rparr>)"

definition collect :: "nat \<Rightarrow> string list \<Rightarrow> limitedBuffer" where
  "collect limit chunks = fold lb_Write chunks \<lparr>lb_buffer = [], lb_limit = limit, lb_exceeded = False\<rparr>"

lemma lb_Write_limit [simp]: "lb_limit (lb_Write v b) = lb_limit b"
  by (simp add: lb_Write_def Let_def)

lemma lb_Write_exceeded: "lb_exceeded b \<Longrightarrow> lb_exceeded (lb_Write v b)"
  by (simp add: lb_Write_def Let_def)

lemma lb_Write_buffer:
  "length (lb_buffer b) \<le> lb_limit b \<Longrightarrow> lb_buffer (lb_Write v b) = take (lb_limit b) (lb_buffer b @ v)"
  by (auto simp: lb_Write_def Let_def)

lemma lb_Write_kept:
  "\<not> lb_exceeded (lb_Write v b) \<Longrightarrow> \<not> lb_exceeded b \<and> lb_buffer (lb_Write v b) = lb_buffer b @ v"
  by (auto simp: lb_Write_def Let_def split: if_splits)

lemma fold_Write:
  assumes "length (lb_buffer b) \<le> lb_limit b"
  shows "lb_buffer (fold lb_Write vs b) = take (lb_limit b) (lb_buffer b @ concat vs)"
    and "\<not> lb_exceeded (fold lb_Write vs b) \<Longrightarrow> lb_buffer (fold lb_Write vs b) = lb_buffer b @ concat vs"
  using assms
proof (induction vs arbitrary: b)
  case (Cons v vs)
  {
    case 1
    then have "length (lb_buffer (lb_Write v b)) \<le> lb_limit (lb_Write v b)" by (simp add: lb_Write_buffer)
    from Cons(1) [OF this] show ?case using 1 by (simp add: lb_Write_buffer min_def)
  next
    case 2
    then have fits: "length (lb_buffer (lb_Write v b)) \<le> lb_limit (lb_Write v b)" by (simp add: lb_Write_buffer)
    have "lb_exceeded c \<Longrightarrow> lb_exceeded (fold lb_Write vs c)" for c
      by (induction vs arbitrary: c) (auto intro: lb_Write_exceeded)
    with 2 have "\<not> lb_exceeded (lb_Write v b)" by auto
    with Cons(2) [OF _ fits] 2 show ?case by (simp add: lb_Write_kept)
  }
qed simp_all

text \<open>The buffer holds the first bytes up to its limit, and all of them unless it is marked.\<close>

lemma collect_buffer: "lb_buffer (collect limit chunks) = take limit (concat chunks)"
  by (simp add: collect_def fold_Write)

lemma collect_complete: "\<not> lb_exceeded (collect limit chunks) \<Longrightarrow> lb_buffer (collect limit chunks) = concat chunks"
  by (simp add: collect_def fold_Write(2))

lemma collect_length: "length (lb_buffer (collect limit chunks)) \<le> limit"
  by (simp add: collect_buffer)

section \<open>Lines of the standard error\<close>

definition pluginLogLineLimit :: nat where
  "pluginLogLineLimit = 16 * 1024"

definition pluginLogByteLimit :: nat where
  "pluginLogByteLimit = 2 ^ 20"

definition pluginLogEventLimit :: nat where
  "pluginLogEventLimit = 1000"

definition pluginErrorLineLimit :: nat where
  "pluginErrorLineLimit = 128"

definition pluginErrorMessageLimit :: nat where
  "pluginErrorMessageLimit = 2048"

text \<open>
  \<open>bufio.Scanner\<close> with lines and a bounded buffer: a line ends at a newline or at the end of the
  input, an empty last line is dropped, one carriage return at the end of a line is removed, and
  a line that fills the buffer before its newline stops the scan with an error.
\<close>

definition drop_cr :: "string \<Rightarrow> string" where
  "drop_cr line = (if line \<noteq> [] \<and> last line = byte 13 then butlast line else line)"

definition raw_lines :: "string \<Rightarrow> string list" where
  "raw_lines s = (let parts = split_on (byte 10) s in if last parts = [] then butlast parts else parts)"

fun scan_tokens :: "string list \<Rightarrow> string list \<times> bool" where
  "scan_tokens [] = ([], False)"
| "scan_tokens (p # ps) =
     (if pluginLogLineLimit \<le> length p then ([], True)
      else let (tokens, failed) = scan_tokens ps in (drop_cr p # tokens, failed))"

text \<open>The standard error of a process: its bytes, and whether reading it failed.\<close>

record stderr =
  se_bytes :: string
  se_failed :: bool

definition tokens :: "stderr \<Rightarrow> string list" where
  "tokens e = fst (scan_tokens (raw_lines (se_bytes e)))"

definition scan_failed :: "stderr \<Rightarrow> bool" where
  "scan_failed e \<longleftrightarrow> snd (scan_tokens (raw_lines (se_bytes e))) \<or> se_failed e"

record scan_state =
  sc_lines :: "string list"
  sc_events :: nat
  sc_bytesLogged :: nat
  sc_truncated :: bool
  sc_log :: "(string \<times> string) list"

definition keep_line :: "string \<Rightarrow> string list \<Rightarrow> string list" where
  "keep_line line lines =
     (if length lines = pluginErrorLineLimit then tl lines @ [line] else lines @ [line])"

text \<open>One iteration of the loop of \<open>scanLines\<close>; \<open>logging\<close> is \<open>log != nil\<close>.\<close>

definition scan_line :: "bool \<Rightarrow> string \<Rightarrow> scan_state \<Rightarrow> scan_state" where
  "scan_line logging line s =
     (let s = s\<lparr>sc_lines := keep_line line (sc_lines s)\<rparr> in
      if logging \<and> sc_events s < pluginLogEventLimit \<and> sc_bytesLogged s + length line \<le> pluginLogByteLimit
      then s\<lparr>sc_log := sc_log s @ [(''info'', line)], sc_events := sc_events s + 1,
             sc_bytesLogged := sc_bytesLogged s + length line\<rparr>
      else if logging \<and> \<not> sc_truncated s
      then s\<lparr>sc_log := sc_log s @ [(''warning'', ''Plugin log output was truncated after reaching the safety limit.'')],
             sc_truncated := True\<rparr>
      else s)"

definition scan_start :: scan_state where
  "scan_start = \<lparr>sc_lines = [], sc_events = 0, sc_bytesLogged = 0, sc_truncated = False, sc_log = []\<rparr>"

text \<open>The kept lines and the log entries.\<close>

definition scanLines :: "bool \<Rightarrow> stderr \<Rightarrow> string list \<times> (string \<times> string) list" where
  "scanLines logging e =
     (let s = fold (scan_line logging) (tokens e) scan_start
      in (sc_lines s,
          if scan_failed e \<and> logging \<and> \<not> sc_truncated s
          then sc_log s @ [(''warning'', ''Plugin log output contained a line beyond the safety limit.'')]
          else sc_log s))"

text \<open>The last line that is not blank, else the error of the process, cut to its limit.\<close>

definition pluginErrorMessage :: "string list \<Rightarrow> string option \<Rightarrow> string" where
  "pluginErrorMessage messages fallback =
     (let message = (case find (\<lambda>m. trim_space m \<noteq> []) (rev messages) of None \<Rightarrow> [] | Some m \<Rightarrow> trim_space m);
          message = (if message = [] then (case fallback of None \<Rightarrow> message | Some e \<Rightarrow> e) else message)
      in if pluginErrorMessageLimit < length message then take pluginErrorMessageLimit message else message)"

definition commandMessage :: "string \<Rightarrow> string \<Rightarrow> string" where
  "commandMessage output err =
     (let message = trim_space output;
          message = (if message = [] then err else message)
      in if 4096 < length message then drop (length message - 4096) message else message)"

section \<open>Bounds\<close>

lemma length_pluginErrorMessage: "length (pluginErrorMessage messages fallback) \<le> pluginErrorMessageLimit"
  by (simp add: pluginErrorMessage_def Let_def)

lemma length_commandMessage: "length (commandMessage output err) \<le> 4096"
  by (simp add: commandMessage_def Let_def)

lemma scan_tokens_short: "t \<in> set (fst (scan_tokens ps)) \<Longrightarrow> length t < pluginLogLineLimit"
  by (induction ps) (auto simp: drop_cr_def Let_def split: if_splits prod.splits)

lemma tokens_short: "t \<in> set (tokens e) \<Longrightarrow> length t < pluginLogLineLimit"
  by (simp add: tokens_def scan_tokens_short)

lemma keep_line_last:
  "keep_line line (drop (length ts - pluginErrorLineLimit) ts) =
     drop (length (ts @ [line]) - pluginErrorLineLimit) (ts @ [line])"
proof (cases "pluginErrorLineLimit \<le> length ts")
  case True
  then have "length (ts @ [line]) - pluginErrorLineLimit = Suc (length ts - pluginErrorLineLimit)" by simp
  with True show ?thesis by (simp add: keep_line_def drop_Suc tl_drop pluginErrorLineLimit_def)
next
  case False
  then show ?thesis by (simp add: keep_line_def)
qed

lemma scan_line_lines [simp]: "sc_lines (scan_line logging line s) = keep_line line (sc_lines s)"
  by (simp add: scan_line_def Let_def)

lemma fold_scan_lines:
  "sc_lines (fold (scan_line logging) ts scan_start) = drop (length ts - pluginErrorLineLimit) ts"
proof (induction ts rule: rev_induct)
  case (snoc t ts)
  then show ?case by (simp add: keep_line_last)
qed (simp add: scan_start_def)

text \<open>The entries of a level, and what the loop keeps about the log it has written.\<close>

definition entries :: "string \<Rightarrow> (string \<times> string) list \<Rightarrow> string list" where
  "entries level log = map snd (filter (\<lambda>(l, m). l = level) log)"

lemma entries_append [simp]: "entries level (xs @ ys) = entries level xs @ entries level ys"
  by (simp add: entries_def)

lemma entries_simps [simp]:
  "entries level [] = []" "entries level [(l, m)] = (if l = level then [m] else [])"
  by (simp_all add: entries_def)

definition log_ok :: "string list \<Rightarrow> scan_state \<Rightarrow> bool" where
  "log_ok ts s \<longleftrightarrow>
     length (entries ''info'' (sc_log s)) = sc_events s \<and> sc_events s \<le> pluginLogEventLimit \<and>
     sum_list (map length (entries ''info'' (sc_log s))) = sc_bytesLogged s \<and> sc_bytesLogged s \<le> pluginLogByteLimit \<and>
     subseq (entries ''info'' (sc_log s)) ts \<and>
     length (entries ''warning'' (sc_log s)) = (if sc_truncated s then 1 else 0) \<and>
     (\<not> sc_truncated s \<longrightarrow> entries ''info'' (sc_log s) = ts)"

lemma scan_line_ok:
  assumes "log_ok ts s"
  shows "log_ok (ts @ [line]) (scan_line True line s)"
  using assms by (auto simp: log_ok_def scan_line_def Let_def subseq_append intro: subseq_rev_drop_many)

lemma fold_scan_ok: "log_ok ts (fold (scan_line True) ts scan_start)"
proof (induction ts rule: rev_induct)
  case (snoc t ts)
  then show ?case by (simp add: scan_line_ok)
qed (simp add: log_ok_def scan_start_def)


end
