(* ===== verification/PluginRunner.thy ===== *)
theory PluginRunner
  imports Patterns PluginOutput Json
begin

text \<open>
  The container runner of \<open>plugins/docker.go\<close>: the policy on images and registries, the checks of
  the executor, staging of images from managed registries, and the run of one plugin command in
  a container. The operating system and the two tools the runner calls (\<open>docker\<close>, \<open>skopeo\<close>) are the
  fields of a record over the type \<open>'w\<close> of the world they act on.
\<close>

section \<open>The system the runner calls\<close>

record file_info =
  fi_regular :: bool
  fi_perm :: nat

text \<open>
  \<open>os.Stat\<close> of a file that does not exist is \<open>None\<close>. A started process ends with the chunks it wrote to its standard output, its standard error and
  the error of \<open>Wait\<close>. A process that cannot be started is an error.
\<close>

record process_end =
  pe_stdout :: "string list"
  pe_stderr :: stderr
  pe_err :: "string option"

datatype file_call =
    Mkdir string
  | WriteFile string string
  | RemoveAll string

record 'w System =
  sys_Stat :: "'w \<Rightarrow> string \<Rightarrow> file_info option"
  sys_Output :: "string \<Rightarrow> string list \<Rightarrow> 'w \<Rightarrow> (string list \<times> string option) \<times> 'w"
  sys_Process :: "string \<Rightarrow> string list \<Rightarrow> string list option \<Rightarrow> string \<Rightarrow> 'w \<Rightarrow> (string + process_end) \<times> 'w"
  sys_MkdirTemp :: "'w \<Rightarrow> (string + string) \<times> 'w"
  sys_File :: "file_call \<Rightarrow> 'w \<Rightarrow> string option \<times> 'w"
  sys_NewID :: "string \<Rightarrow> 'w \<Rightarrow> string \<times> 'w"
  sys_ReadJSON :: "string \<Rightarrow> RawMessage"
  sys_Environ :: "'w \<Rightarrow> string list"
  sys_CtxErr :: "'w \<Rightarrow> string option"

section \<open>Image references\<close>

text \<open>\<open>strings.Cut\<close>, which is also what \<open>SplitN(s, sep, 2)\<close> computes, and \<open>strings.Split\<close>, for a separator that is not empty.\<close>

fun cut_at :: "string \<Rightarrow> string \<Rightarrow> (string \<times> string) option" where
  "cut_at sep [] = (if sep = [] then Some ([], []) else None)"
| "cut_at sep (c # s) =
     (if has_prefix sep (c # s) then Some ([], drop (length sep) (c # s))
      else map_option (\<lambda>(a, b). (c # a, b)) (cut_at sep s))"

lemma cut_at_Some: "cut_at sep s = Some (a, b) \<Longrightarrow> s = a @ sep @ b"
proof (induction sep s arbitrary: a rule: cut_at.induct)
  case (2 sep c s)
  then show ?case by (auto split: if_splits elim!: has_prefixE)
qed (auto split: if_splits)

function split_str :: "string \<Rightarrow> string \<Rightarrow> string list" where
  "split_str sep s =
     (case cut_at sep s of
        None \<Rightarrow> [s]
      | Some (a, b) \<Rightarrow> if sep = [] then [s] else a # split_str sep b)"
  by pat_completeness auto
termination
  by (relation "measure (\<lambda>(sep, s). length s)") (auto dest!: cut_at_Some)

declare split_str.simps [simp del]

definition lower_digit :: "char \<Rightarrow> bool" where
  "lower_digit c \<longleftrightarrow> is_lower c \<or> is_digit c"

definition one_of :: "string \<Rightarrow> char \<Rightarrow> bool" where
  "one_of s c \<longleftrightarrow> c \<in> set s"

abbreviation Literal :: "char \<Rightarrow> pattern" where
  "Literal c \<equiv> Class (\<lambda>d. d = c)"

abbreviation Plus :: "pattern \<Rightarrow> pattern" where
  "Plus r \<equiv> Seq r (Many r)"

abbreviation Optional :: "pattern \<Rightarrow> pattern" where
  "Optional r \<equiv> Upto r 1"

definition ociNameExpression :: pattern where
  "ociNameExpression =
     Seq (Plus (Class lower_digit))
    (Seq (Many (Alt (Seq (Class (one_of ''._-'')) (Plus (Class lower_digit)))
                    (Seq (Literal CHR '':'') (Plus (Class is_digit)))))
    (Seq (Many (Seq (Literal CHR ''/'')
                 (Seq (Plus (Class lower_digit))
                      (Many (Seq (Class (one_of ''._-'')) (Plus (Class lower_digit)))))))
         (Optional (Seq (Literal CHR '':'')
                    (Seq (Class (\<lambda>c. is_upper c \<or> is_lower c \<or> is_digit c \<or> c = CHR ''_''))
                         (Upto (Class (\<lambda>c. is_upper c \<or> is_lower c \<or> is_digit c \<or> one_of ''._-'' c)) 127))))))"

datatype image_error =
    NotPinned
  | DigestInvalid
  | NoRegistry
  | RegistryInvalid string
  | RegistryPort string
  | RegistryForbidden string

definition hex_lower :: "char \<Rightarrow> bool" where
  "hex_lower c \<longleftrightarrow> one_of ''0123456789abcdef'' c"

definition validateOCIReference :: "string \<Rightarrow> image_error + string" where
  "validateOCIReference reference =
     (case split_str ''@sha256:'' reference of
        [name, digest] \<Rightarrow>
          (if \<not> MatchString ociNameExpression name \<or> length digest \<noteq> 64 then Inl NotPinned
           else if \<not> list_all hex_lower digest then Inl DigestInvalid
           else Inr (''sha256:'' @ digest))
      | _ \<Rightarrow> Inl NotPinned)"

section \<open>The runner\<close>

record RegistryAccess =
  ra_Authority :: string
  ra_CABundle :: string
  ra_Username :: string
  ra_Password :: string

text \<open>The sets and maps of the runner are lists, in the order in which a range over them visits them.\<close>

record DockerRunner =
  dr_host :: string
  dr_binary :: string
  dr_skopeo :: string
  dr_ca :: string
  dr_cert :: string
  dr_key :: string
  dr_allowedRegistries :: "string list"
  dr_registryAccess :: "(string \<times> RegistryAccess) list"

definition NewDockerRunnerWithAccess ::
  "(string \<Rightarrow> string) \<Rightarrow> string \<Rightarrow> string \<Rightarrow> string \<Rightarrow> string \<Rightarrow> string list \<Rightarrow> RegistryAccess list \<Rightarrow> DockerRunner option" where
  "NewDockerRunnerWithAccess to_lower host ca cert key registries access =
     (let host = trim_space host in
      if host = [] then None
      else Some
        \<lparr>dr_host = host, dr_binary = ''docker'', dr_skopeo = ''skopeo'',
         dr_ca = trim_space ca, dr_cert = trim_space cert, dr_key = trim_space key,
         dr_allowedRegistries =
           fold (\<lambda>registry seen.
               let registry = to_lower (trim_space registry)
               in if registry = [] then seen else List.insert registry seen) registries [],
         dr_registryAccess =
           fold (\<lambda>current known.
               let authority = to_lower (trim_space (ra_Authority current))
               in if authority = [] then known
                  else obj_set authority (current\<lparr>ra_Authority := authority\<rparr>) known) access []\<rparr>)"

definition registryExpression :: pattern where
  "registryExpression =
     Seq (Class lower_digit)
    (Seq (Optional (Seq (Many (Class (\<lambda>c. lower_digit c \<or> one_of ''.-'' c))) (Class lower_digit)))
         (Optional (Seq (Literal CHR '':'') (Seq (Class is_digit) (Upto (Class is_digit) 4)))))"

text \<open>The text after the last occurrence of a byte, if it occurs (\<open>LastIndexByte\<close>).\<close>

definition after_last :: "char \<Rightarrow> string \<Rightarrow> string option" where
  "after_last c s = (if c \<in> set s then Some (rev (takeWhile (\<lambda>d. d \<noteq> c) (rev s))) else None)"

definition check_registry :: "string \<Rightarrow> image_error option" where
  "check_registry registry =
     (if \<not> MatchString registryExpression registry then Some (RegistryInvalid registry)
      else case after_last CHR '':'' registry of
        None \<Rightarrow> None
      | Some digits \<Rightarrow>
          (case parse_int64 digits of
             None \<Rightarrow> Some (RegistryPort registry)
           | Some port \<Rightarrow> if port < 1 \<or> 65535 < port then Some (RegistryPort registry) else None))"

fun first_failure :: "('a \<Rightarrow> 'e option) \<Rightarrow> 'a list \<Rightarrow> 'e option" where
  "first_failure f [] = None"
| "first_failure f (x # xs) = (case f x of None \<Rightarrow> first_failure f xs | Some e \<Rightarrow> Some e)"

lemma first_failure_None: "first_failure f xs = None \<longleftrightarrow> (\<forall>x \<in> set xs. f x = None)"
  by (induction xs) (auto split: option.splits)

definition validateRegistryPolicy :: "DockerRunner \<Rightarrow> image_error option" where
  "validateRegistryPolicy d =
     (if dr_allowedRegistries d = [] then Some NoRegistry
      else first_failure check_registry (dr_allowedRegistries d))"

definition imageRegistry :: "string \<Rightarrow> string" where
  "imageRegistry img =
     (let name = (case cut_at ''@'' img of None \<Rightarrow> img | Some (a, b) \<Rightarrow> a);
          start = (case cut_at ''/'' name of None \<Rightarrow> name | Some (a, b) \<Rightarrow> a)
      in if list_ex (one_of ''.:'') start \<or> start = ''localhost'' then start else ''docker.io'')"

definition ValidateImage :: "DockerRunner \<Rightarrow> string \<Rightarrow> image_error option" where
  "ValidateImage d img =
     (case validateOCIReference img of
        Inl e \<Rightarrow> Some e
      | Inr _ \<Rightarrow>
          (case validateRegistryPolicy d of
             Some e \<Rightarrow> Some e
           | None \<Rightarrow>
               let registry = imageRegistry img
               in if registry \<notin> set (dr_allowedRegistries d) then Some (RegistryForbidden registry) else None))"

text \<open>The index into the parts of a reference without \<open>@\<close> would be out of range: \<open>None\<close>.\<close>

definition cachedImageReference :: "string \<Rightarrow> string option" where
  "cachedImageReference img =
     (case cut_at ''@'' img of
        None \<Rightarrow> None
      | Some (name, digest) \<Rightarrow> Some (''kubephos.local/runtime/plugin-'' @ trim_prefix ''sha256:'' digest @ '':sealed''))"

definition connectionArguments :: "DockerRunner \<Rightarrow> string list" where
  "connectionArguments d =
     [''--host'', dr_host d, ''--tlsverify'', ''--tlscacert'', dr_ca d, ''--tlscert'', dr_cert d, ''--tlskey'', dr_key d]"

datatype runner_error =
    NotTCP
  | PolicyError image_error
  | PathNotAbsolute string
  | FileUnavailable string
  | KeyPermissions
  | CommandFailed string
  | SecurityUnreadable
  | NotRootless
  | AccessIncomplete
  | FileError string
  | StageFailed string
  | LoadFailed string
  | EvictFailed string
  | StagedUnavailable
  | IndexPanic
  | StartFailed string
  | OutputExceeded
  | ProcessFailed string

definition check_tls_file :: "'w System \<Rightarrow> 'w \<Rightarrow> string \<times> string \<Rightarrow> runner_error option" where
  "check_tls_file S w value =
     (case value of (name, path) \<Rightarrow>
        if path = [] \<or> \<not> has_prefix ''/'' path then Some (PathNotAbsolute name)
        else case sys_Stat S w path of
          None \<Rightarrow> Some (FileUnavailable name)
        | Some info \<Rightarrow> if fi_regular info then None else Some (FileUnavailable name))"

text \<open>The mask \<open>0077\<close> selects the low six bits of the permissions.\<close>

definition validateTLSFiles :: "'w System \<Rightarrow> 'w \<Rightarrow> DockerRunner \<Rightarrow> runner_error option" where
  "validateTLSFiles S w d =
     (case first_failure (check_tls_file S w)
         [(''CA'', dr_ca d), (''client certificate'', dr_cert d), (''client key'', dr_key d)] of
        Some e \<Rightarrow> Some e
      | None \<Rightarrow>
          (case sys_Stat S w (dr_key d) of
             None \<Rightarrow> Some (FileUnavailable ''client key'')
           | Some info \<Rightarrow> if fi_perm info mod 64 \<noteq> 0 then Some KeyPermissions else None))"

text \<open>A tool's output and error stream share one bounded buffer.\<close>

definition limitedCommand :: "'w System \<Rightarrow> string \<Rightarrow> string list \<Rightarrow> 'w \<Rightarrow> (string \<times> string option) \<times> 'w" where
  "limitedCommand S name arguments w =
     (case sys_Output S name arguments w of ((chunks, err), w') \<Rightarrow>
        let output = collect commandOutputLimit chunks;
            err = (if lb_exceeded output \<and> err = None then Some ''command output exceeds 1 MiB'' else err)
        in ((lb_buffer output, err), w'))"

text \<open>\<open>json.Unmarshal\<close> into a slice of strings; a null element leaves the empty string.\<close>

fun string_item :: "json \<Rightarrow> string option" where
  "string_item (JStr s) = Some s"
| "string_item JNull = Some []"
| "string_item _ = None"

fun all_some :: "'a option list \<Rightarrow> 'a list option" where
  "all_some [] = Some []"
| "all_some (None # xs) = None"
| "all_some (Some x # xs) = map_option ((#) x) (all_some xs)"

definition string_slice :: "RawMessage \<Rightarrow> string list option" where
  "string_slice raw =
     (case unmarshal raw of
        Some (JArr xs) \<Rightarrow> all_some (map string_item xs)
      | Some JNull \<Rightarrow> Some []
      | _ \<Rightarrow> None)"

definition is_rootless :: "string list \<Rightarrow> bool" where
  "is_rootless options \<longleftrightarrow> list_ex (\<lambda>v. v = ''name=rootless'' \<or> v = ''rootless'') options"

definition info_arguments :: "DockerRunner \<Rightarrow> string list" where
  "info_arguments d = connectionArguments d @ [''info'', ''--format'', ''{{json .SecurityOptions}}'']"

definition runner_Ready :: "'w System \<Rightarrow> DockerRunner \<Rightarrow> 'w \<Rightarrow> runner_error option \<times> 'w" where
  "runner_Ready S d w =
     (if \<not> has_prefix ''tcp://'' (dr_host d) then (Some NotTCP, w)
      else case validateRegistryPolicy d of
        Some e \<Rightarrow> (Some (PolicyError e), w)
      | None \<Rightarrow>
          (case validateTLSFiles S w d of
             Some e \<Rightarrow> (Some e, w)
           | None \<Rightarrow>
               (case limitedCommand S (dr_binary d) (info_arguments d) w of ((output, err), w') \<Rightarrow>
                  (case err of
                     Some e \<Rightarrow>
                       let message = trim_space output
                       in (Some (CommandFailed (if message = [] then e else message)), w')
                   | None \<Rightarrow>
                       (case string_slice (sys_ReadJSON S (trim_space output)) of
                          None \<Rightarrow> (Some SecurityUnreadable, w')
                        | Some options \<Rightarrow> if is_rootless options then (None, w') else (Some NotRootless, w'))))))"

text \<open>The texts of the errors; \<open>quote\<close> is the verb \<open>%q\<close>.\<close>

fun image_message :: "(string \<Rightarrow> string) \<Rightarrow> image_error \<Rightarrow> string" where
  "image_message quote NotPinned = ''OCI plugin image must use an immutable sha256 digest''"
| "image_message quote DigestInvalid = ''OCI plugin image has an invalid sha256 digest''"
| "image_message quote NoRegistry = ''OCI plugin runtime requires at least one allowed registry''"
| "image_message quote (RegistryInvalid r) = ''OCI plugin registry '' @ quote r @ '' is invalid''"
| "image_message quote (RegistryPort r) = ''OCI plugin registry '' @ quote r @ '' has an invalid port''"
| "image_message quote (RegistryForbidden r) = ''OCI plugin registry '' @ quote r @ '' is not allowed''"

fun runner_message :: "(string \<Rightarrow> string) \<Rightarrow> runner_error \<Rightarrow> string" where
  "runner_message quote NotTCP = ''OCI plugin runner must use a dedicated TCP endpoint''"
| "runner_message quote (PolicyError e) = image_message quote e"
| "runner_message quote (PathNotAbsolute name) = ''OCI plugin runtime '' @ name @ '' path must be absolute''"
| "runner_message quote (FileUnavailable name) = ''OCI plugin runtime '' @ name @ '' is unavailable''"
| "runner_message quote KeyPermissions = ''OCI plugin runtime client key permissions are too broad''"
| "runner_message quote (CommandFailed m) = m"
| "runner_message quote SecurityUnreadable = ''OCI plugin executor returned invalid security information''"
| "runner_message quote NotRootless = ''OCI plugin executor must run in rootless mode''"
| "runner_message quote AccessIncomplete = ''managed OCI registry access is incomplete''"
| "runner_message quote (FileError m) = m"
| "runner_message quote (StageFailed m) = ''stage OCI plugin image: '' @ m"
| "runner_message quote (LoadFailed m) = ''load OCI plugin image: '' @ m"
| "runner_message quote (EvictFailed m) = ''evict OCI plugin image: '' @ m"
| "runner_message quote StagedUnavailable = ''staged OCI plugin image is unavailable on the executor''"
| "runner_message quote IndexPanic = ''runtime error: index out of range''"
| "runner_message quote (StartFailed m) = m"
| "runner_message quote OutputExceeded = ''plugin output exceeds 16 MiB''"
| "runner_message quote (ProcessFailed m) = m"

definition runner_State :: "(string \<Rightarrow> string) \<Rightarrow> 'w System \<Rightarrow> DockerRunner \<Rightarrow> 'w \<Rightarrow> (string \<times> string) \<times> 'w" where
  "runner_State quote S d w =
     (case runner_Ready S d w of
        (Some e, w') \<Rightarrow> ((''unavailable'', runner_message quote e), w')
      | (None, w') \<Rightarrow> ((''healthy'', ''The dedicated OCI executor is ready.''), w'))"

definition runner_Environment :: "'w System \<Rightarrow> DockerRunner \<Rightarrow> 'w \<Rightarrow> (runner_error + string list) \<times> 'w" where
  "runner_Environment S d w =
     (case runner_Ready S d w of
        (Some e, w') \<Rightarrow> (Inl e, w')
      | (None, w') \<Rightarrow>
          (Inr [''KUBEPHOS_PLUGIN_RUNTIME_HOST='' @ dr_host d,
                ''KUBEPHOS_PLUGIN_RUNTIME_CA='' @ dr_ca d,
                ''KUBEPHOS_PLUGIN_RUNTIME_CERT='' @ dr_cert d,
                ''KUBEPHOS_PLUGIN_RUNTIME_KEY='' @ dr_key d,
                ''KUBEPHOS_PLUGIN_ALLOWED_REGISTRIES='' @
                  join_on '','' (map fst (sort_keys (map (\<lambda>r. (r, ())) (dr_allowedRegistries d))))], w'))"

section \<open>Staging an image\<close>

text \<open>\<open>base64.StdEncoding\<close>.\<close>

definition base64_char :: "nat \<Rightarrow> char" where
  "base64_char n = ''ABCDEFGHIJKLMNOPQRSTUVWXYZabcdefghijklmnopqrstuvwxyz0123456789+/'' ! (n mod 64)"

fun base64 :: "string \<Rightarrow> string" where
  "base64 [] = []"
| "base64 [a] = (let n = of_char a * 16 in [base64_char (n div 64), base64_char n, CHR ''='', CHR ''=''])"
| "base64 [a, b] =
     (let n = (of_char a * 256 + of_char b) * 4
      in [base64_char (n div 4096), base64_char (n div 64), base64_char n, CHR ''=''])"
| "base64 (a # b # c # s) =
     (let n = of_char a * 65536 + of_char b * 256 + of_char c
      in [base64_char (n div 262144), base64_char (n div 4096), base64_char (n div 64), base64_char n] @ base64 s)"

definition auth_document :: "RegistryAccess \<Rightarrow> json" where
  "auth_document access =
     JObj [(''auths'', JObj [(ra_Authority access,
       JObj [(''auth'', JStr (base64 (ra_Username access @ '':'' @ ra_Password access)))])])]"

definition inspect_arguments :: "DockerRunner \<Rightarrow> string \<Rightarrow> string list" where
  "inspect_arguments d reference =
     connectionArguments d @ [''image'', ''inspect'', reference, ''--format'', ''{{.Id}}'']"

definition image_present :: "(string \<times> string option) \<Rightarrow> bool" where
  "image_present reply \<longleftrightarrow> snd reply = None \<and> trim_space (fst reply) \<noteq> []"

text \<open>A step that removes the staging directory when it fails.\<close>

definition or_remove :: "'w System \<Rightarrow> string \<Rightarrow> runner_error \<Rightarrow> 'w \<Rightarrow> (runner_error + 'a) \<times> 'w" where
  "or_remove S root e w = (Inl e, snd (sys_File S (RemoveAll root) w))"

definition copy_arguments :: "string \<Rightarrow> string \<Rightarrow> string \<Rightarrow> string list" where
  "copy_arguments root img reference =
     [''copy'', ''--retry-times'', ''3'', ''--authfile'', root @ ''/auth.json'', ''--src-cert-dir'', root @ ''/certificates'',
      ''docker://'' @ img, ''docker-archive:'' @ root @ ''/image.tar:'' @ reference]"

text \<open>The copy, the load and the final look at the staged image; the result names the directory to remove later.\<close>

definition stage_image ::
  "'w System \<Rightarrow> DockerRunner \<Rightarrow> string \<Rightarrow> string \<Rightarrow> string \<Rightarrow> 'w \<Rightarrow> (runner_error + string \<times> string option) \<times> 'w" where
  "stage_image S d root img reference w =
     (let skopeo = (if dr_skopeo d = [] then ''skopeo'' else dr_skopeo d) in
      case limitedCommand S skopeo (copy_arguments root img reference) w of
        ((output, Some e), w1) \<Rightarrow> or_remove S root (StageFailed (commandMessage output e)) w1
      | ((output, None), w1) \<Rightarrow>
          (case limitedCommand S (dr_binary d) (connectionArguments d @ [''load'', ''--input'', root @ ''/image.tar'']) w1 of
             ((output, Some e), w2) \<Rightarrow> or_remove S root (LoadFailed (commandMessage output e)) w2
           | ((output, None), w2) \<Rightarrow>
               (case limitedCommand S (dr_binary d) (inspect_arguments d reference) w2 of (reply, w3) \<Rightarrow>
                  if image_present reply then (Inr (reference, Some root), w3)
                  else
                    let w4 = snd (limitedCommand S (dr_binary d)
                      (connectionArguments d @ [''image'', ''rm'', ''-f'', reference]) w3)
                    in or_remove S root StagedUnavailable w4)))"

definition fetch_image ::
  "'w System \<Rightarrow> DockerRunner \<Rightarrow> RegistryAccess \<Rightarrow> string \<Rightarrow> string \<Rightarrow> 'w \<Rightarrow> (runner_error + string \<times> string option) \<times> 'w" where
  "fetch_image S d access img reference w =
     (case sys_MkdirTemp S w of
        (Inl e, w1) \<Rightarrow> (Inl (FileError e), w1)
      | (Inr root, w1) \<Rightarrow>
          (case sys_File S (Mkdir (root @ ''/certificates'')) w1 of
             (Some e, w2) \<Rightarrow> or_remove S root (FileError e) w2
           | (None, w2) \<Rightarrow>
               (case sys_File S (WriteFile (root @ ''/certificates/ca.crt'') (ra_CABundle access)) w2 of
                  (Some e, w3) \<Rightarrow> or_remove S root (FileError e) w3
                | (None, w3) \<Rightarrow>
                    (case sys_File S (WriteFile (root @ ''/auth.json'') (render (auth_document access))) w3 of
                       (Some e, w4) \<Rightarrow> or_remove S root (FileError e) w4
                     | (None, w4) \<Rightarrow> stage_image S d root img reference w4))))"

definition prepareImage ::
  "'w System \<Rightarrow> DockerRunner \<Rightarrow> string \<Rightarrow> 'w \<Rightarrow> (runner_error + string \<times> string option) \<times> 'w" where
  "prepareImage S d img w =
     (case map_of (dr_registryAccess d) (imageRegistry img) of
        None \<Rightarrow> (Inr (img, None), w)
      | Some access \<Rightarrow>
          if trim_space (ra_CABundle access) = [] \<or> ra_Username access = [] \<or> ra_Password access = []
          then (Inl AccessIncomplete, w)
          else case cachedImageReference img of
            None \<Rightarrow> (Inl IndexPanic, w)
          | Some reference \<Rightarrow>
              (case limitedCommand S (dr_binary d) (inspect_arguments d reference) w of (reply, w') \<Rightarrow>
                 if image_present reply then (Inr (reference, None), w')
                 else fetch_image S d access img reference w'))"

definition EvictImage :: "(string \<Rightarrow> string) \<Rightarrow> 'w System \<Rightarrow> DockerRunner \<Rightarrow> string \<Rightarrow> 'w \<Rightarrow> runner_error option \<times> 'w" where
  "EvictImage to_lower S d img w =
     (case ValidateImage d img of
        Some e \<Rightarrow> (Some (PolicyError e), w)
      | None \<Rightarrow>
          if map_of (dr_registryAccess d) (imageRegistry img) = None then (None, w)
          else case cachedImageReference img of
            None \<Rightarrow> (Some IndexPanic, w)
          | Some reference \<Rightarrow>
              (case limitedCommand S (dr_binary d) (connectionArguments d @ [''image'', ''rm'', ''-f'', reference]) w of
                 ((output, Some e), w') \<Rightarrow>
                   (if contains_str ''no such image'' (to_lower output) then (None, w')
                    else (Some (EvictFailed (commandMessage output e)), w'))
               | ((output, None), w') \<Rightarrow> (None, w')))"

section \<open>Running a command in a container\<close>

definition container_options :: "bool \<Rightarrow> bool \<Rightarrow> string list" where
  "container_options staged network =
     [''--pull='' @ (if staged then ''never'' else ''missing''), ''-i'',
      ''--user=65532:65532'', ''--network='' @ (if network then ''bridge'' else ''none''), ''--read-only'', ''--cap-drop=ALL'',
      ''--security-opt=no-new-privileges'', ''--memory=256m'', ''--cpus=0.5'', ''--pids-limit=64'',
      ''--tmpfs=/tmp:rw,noexec,nosuid,size=64m'', ''--label=io.kubephos.runtime=plugin'']"

definition container_arguments :: "DockerRunner \<Rightarrow> string \<Rightarrow> bool \<Rightarrow> string \<Rightarrow> bool \<Rightarrow> string \<Rightarrow> string list" where
  "container_arguments d name staged runtimeImage network command =
     connectionArguments d @ [''run'', ''--rm'', ''--name'', name] @ container_options staged network @ [runtimeImage, command]"

type_synonym run_result = "string \<times> string list \<times> runner_error option"

text \<open>
  The process of the container and its removal. The result is the output, the lines kept for a
  message and the error, beside the log entries.
\<close>

definition run_container ::
  "'w System \<Rightarrow> DockerRunner \<Rightarrow> string \<Rightarrow> string \<Rightarrow> string \<Rightarrow> string \<Rightarrow> bool \<Rightarrow> bool \<Rightarrow> 'w \<Rightarrow>
     (run_result \<times> (string \<times> string) list) \<times> 'w" where
  "run_container S d img runtimeImage command payload network logging w =
     (case sys_NewID S ''kubephos-plugin'' w of (fresh, w1) \<Rightarrow>
        let name = replace_all ''_'' ''-'' fresh in
        case sys_Process S (dr_binary d) (container_arguments d name (runtimeImage \<noteq> img) runtimeImage network command)
            None payload w1 of
          (Inl e, w2) \<Rightarrow> ((([], [], Some (StartFailed e)), []), w2)
        | (Inr ended, w2) \<Rightarrow>
            (case scanLines logging (pe_stderr ended) of (messages, log) \<Rightarrow>
               let stdout = collect pluginOutputLimit (pe_stdout ended);
                   w3 = snd (sys_Output S (dr_binary d) (connectionArguments d @ [''rm'', ''-f'', name]) w2)
               in ((if lb_exceeded stdout then ([], messages, Some OutputExceeded)
                    else case pe_err ended of
                      Some e \<Rightarrow> ([], messages, Some (ProcessFailed e))
                    | None \<Rightarrow> (lb_buffer stdout, messages, None), log), w3)))"

definition runner_Run ::
  "'w System \<Rightarrow> DockerRunner \<Rightarrow> string \<Rightarrow> string \<Rightarrow> string \<Rightarrow> bool \<Rightarrow> bool \<Rightarrow> 'w \<Rightarrow>
     (run_result \<times> (string \<times> string) list) \<times> 'w" where
  "runner_Run S d img command payload network logging w =
     (case runner_Ready S d w of
        (Some e, w1) \<Rightarrow> ((([], [], Some e), []), w1)
      | (None, w1) \<Rightarrow>
          (case ValidateImage d img of
             Some e \<Rightarrow> ((([], [], Some (PolicyError e)), []), w1)
           | None \<Rightarrow>
               (case prepareImage S d img w1 of
                  (Inl e, w2) \<Rightarrow> ((([], [], Some e), []), w2)
                | (Inr (runtimeImage, root), w2) \<Rightarrow>
                    (case run_container S d img runtimeImage command payload network logging w2 of (result, w3) \<Rightarrow>
                       (result, case root of None \<Rightarrow> w3 | Some dir \<Rightarrow> snd (sys_File S (RemoveAll dir) w3))))))"

section \<open>Accepted images\<close>

lemma split_str_nonempty [simp]: "split_str sep s \<noteq> []"
  by (subst split_str.simps) (auto split: option.splits)

lemma split_str_pair: "split_str sep s = [a, b] \<Longrightarrow> s = a @ sep @ b"
proof -
  assume split: "split_str sep s = [a, b]"
  then obtain r where cut: "cut_at sep s = Some (a, r)" "split_str sep r = [b]"
    by (subst (asm) split_str.simps) (auto split: option.splits prod.splits if_splits)
  from cut(2) have "r = b" by (subst (asm) split_str.simps) (auto split: option.splits prod.splits if_splits)
  with cut_at_Some [OF cut(1)] show ?thesis by simp
qed

lemma cut_at_char: "c \<notin> set a \<Longrightarrow> cut_at [c] (a @ c # b) = Some (a, b)"
  by (induction a) (auto simp: has_prefix_def)

lemma ociName_avoids: "avoids CHR ''@'' ociNameExpression"
  by (simp add: ociNameExpression_def lower_digit_def one_of_def is_lower_def is_digit_def is_upper_def)

lemmas ociName_plain = avoids_match [OF ociName_avoids]

lemma validateOCIReferenceE:
  assumes "validateOCIReference img = Inr digest"
  obtains name hex where "img = name @ ''@sha256:'' @ hex" "digest = ''sha256:'' @ hex"
    "MatchString ociNameExpression name" "length hex = 64" "list_all hex_lower hex"
  using assms that by (auto simp: validateOCIReference_def split: list.splits if_splits dest!: split_str_pair)

lemma cachedImageReference_sealed:
  assumes "validateOCIReference img = Inr digest"
  shows "cachedImageReference img = Some (''kubephos.local/runtime/plugin-'' @ drop 7 digest @ '':sealed'')"
proof -
  obtain name hex where img: "img = name @ ''@sha256:'' @ hex" "digest = ''sha256:'' @ hex" "MatchString ociNameExpression name"
    using assms by (rule validateOCIReferenceE)
  have "cut_at ''@'' img = Some (name, ''sha256:'' @ hex)"
    using cut_at_char [OF ociName_plain [OF img(3)], of "''sha256:'' @ hex"] img(1) by simp
  then show ?thesis using img(2) by (simp add: cachedImageReference_def trim_prefix_def has_prefix_def)
qed

lemma ValidateImage_None:
  "ValidateImage d img = None \<longleftrightarrow>
     (\<exists>digest. validateOCIReference img = Inr digest) \<and> validateRegistryPolicy d = None \<and>
     imageRegistry img \<in> set (dr_allowedRegistries d)"
  by (auto simp: ValidateImage_def Let_def split: sum.splits option.splits)

section \<open>What the runner executes\<close>

text \<open>A system that records the tools it was asked to run and the processes it started.\<close>

datatype call =
    ToolCall string "string list"
  | ProcessCall string "string list" "string list option" string

definition recording :: "'w System \<Rightarrow> ('w \<times> call list) System" where
  "recording S =
     \<lparr>sys_Stat = (\<lambda>(w, cs). sys_Stat S w),
      sys_Output = (\<lambda>name args (w, cs).
        case sys_Output S name args w of (reply, w') \<Rightarrow> (reply, (w', cs @ [ToolCall name args]))),
      sys_Process = (\<lambda>name args env stdin (w, cs).
        case sys_Process S name args env stdin w of
          (Inl e, w') \<Rightarrow> (Inl e, (w', cs))
        | (Inr ended, w') \<Rightarrow> (Inr ended, (w', cs @ [ProcessCall name args env stdin]))),
      sys_MkdirTemp = (\<lambda>(w, cs). case sys_MkdirTemp S w of (reply, w') \<Rightarrow> (reply, (w', cs))),
      sys_File = (\<lambda>call (w, cs). case sys_File S call w of (reply, w') \<Rightarrow> (reply, (w', cs))),
      sys_NewID = (\<lambda>kind (w, cs). case sys_NewID S kind w of (reply, w') \<Rightarrow> (reply, (w', cs))),
      sys_ReadJSON = sys_ReadJSON S,
      sys_Environ = (\<lambda>(w, cs). sys_Environ S w),
      sys_CtxErr = (\<lambda>(w, cs). sys_CtxErr S w)\<rparr>"

lemma recording_ReadJSON [simp]: "sys_ReadJSON (recording S) = sys_ReadJSON S"
  by (simp add: recording_def)

definition is_tool :: "call \<Rightarrow> bool" where
  "is_tool c \<longleftrightarrow> (case c of ToolCall _ _ \<Rightarrow> True | ProcessCall _ _ _ _ \<Rightarrow> False)"

text \<open>Nothing but tools was run between two recorded worlds.\<close>

definition tools_only :: "'w \<times> call list \<Rightarrow> 'w \<times> call list \<Rightarrow> bool" where
  "tools_only x y \<longleftrightarrow> (\<exists>more. snd y = snd x @ more \<and> list_all is_tool more)"

lemma tools_only_refl [simp]: "tools_only x x"
  by (simp add: tools_only_def)

lemma tools_only_trans: "tools_only x y \<Longrightarrow> tools_only y z \<Longrightarrow> tools_only x z"
  by (auto simp: tools_only_def)

lemma tools_only_command: "tools_only x (snd (limitedCommand (recording S) name args x))"
  by (cases x) (auto simp: limitedCommand_def recording_def tools_only_def is_tool_def Let_def split: prod.splits)

lemma tools_only_file: "tools_only x (snd (sys_File (recording S) call x))"
  by (cases x) (auto simp: recording_def tools_only_def split: prod.splits)

lemma tools_only_temp: "tools_only x (snd (sys_MkdirTemp (recording S) x))"
  by (cases x) (auto simp: recording_def tools_only_def split: prod.splits)

text \<open>The steps, as rules that extend what was run before them.\<close>

lemma tools_command: "tools_only x y \<Longrightarrow> tools_only x (snd (limitedCommand (recording S) name args y))"
  by (rule tools_only_trans [OF _ tools_only_command])

lemma tools_file: "tools_only x y \<Longrightarrow> tools_only x (snd (sys_File (recording S) call y))"
  by (rule tools_only_trans [OF _ tools_only_file])

lemma tools_command_eq: "limitedCommand (recording S) name args y = (r, z) \<Longrightarrow> tools_only x y \<Longrightarrow> tools_only x z"
  using tools_command [of x y S name args] by simp

lemma tools_file_eq: "sys_File (recording S) call y = (r, z) \<Longrightarrow> tools_only x y \<Longrightarrow> tools_only x z"
  using tools_file [of x y S call] by simp

lemma tools_temp_eq: "sys_MkdirTemp (recording S) y = (r, z) \<Longrightarrow> tools_only x y \<Longrightarrow> tools_only x z"
  using tools_only_trans [OF _ tools_only_temp [of y S]] by fastforce

lemmas tools_eqs = tools_command_eq tools_file_eq tools_temp_eq

lemma Ready_tools: "runner_Ready (recording S) d x = (r, y) \<Longrightarrow> tools_only x y"
  by (auto simp: runner_Ready_def Let_def split: if_splits option.splits prod.splits dest: tools_command_eq [OF _ tools_only_refl])

lemma Environment_tools: "runner_Environment (recording S) d x = (r, y) \<Longrightarrow> tools_only x y"
  by (auto simp: runner_Environment_def split: prod.splits option.splits dest: Ready_tools)

lemma stage_image_tools: "tools_only x y \<Longrightarrow> tools_only x (snd (stage_image (recording S) d root img reference y))"
  unfolding stage_image_def or_remove_def Let_def
  by (auto split: prod.split option.split intro!: tools_file tools_command; meson tools_command_eq)

lemma fetch_image_tools: "tools_only x y \<Longrightarrow> tools_only x (snd (fetch_image (recording S) d access img reference y))"
  unfolding fetch_image_def or_remove_def
  by (auto split: prod.split option.split sum.split intro!: stage_image_tools tools_file; meson tools_eqs)

lemma prepareImage_tools: "tools_only x (snd (prepareImage (recording S) d img x))"
  unfolding prepareImage_def
  by (auto split: prod.split option.split intro!: fetch_image_tools dest: tools_command_eq [OF _ tools_only_refl])

lemma prepareImage_result:
  "prepareImage S d img x = (Inr (runtime, root), y) \<Longrightarrow> runtime = img \<or> cachedImageReference img = Some runtime"
  by (auto simp: prepareImage_def fetch_image_def stage_image_def or_remove_def Let_def
      split: option.splits if_splits prod.splits sum.splits)

lemma limitedCommand_recording:
  "limitedCommand (recording S) name args (w, cs) =
     (case limitedCommand S name args w of (reply, w') \<Rightarrow> (reply, (w', cs @ [ToolCall name args])))"
  by (simp add: limitedCommand_def recording_def Let_def split: prod.splits)

text \<open>What the runner has seen of its executor when it is ready.\<close>

definition executor_rootless :: "'w System \<Rightarrow> DockerRunner \<Rightarrow> 'w \<Rightarrow> bool" where
  "executor_rootless S d w \<longleftrightarrow>
     (case fst (limitedCommand S (dr_binary d) (info_arguments d) w) of
        (output, None) \<Rightarrow>
          (case string_slice (sys_ReadJSON S (trim_space output)) of
             Some options \<Rightarrow> ''name=rootless'' \<in> set options \<or> ''rootless'' \<in> set options
           | None \<Rightarrow> False)
      | (output, Some e) \<Rightarrow> False)"

lemma Ready_rootless: "runner_Ready (recording S) d (w, cs) = (None, y) \<Longrightarrow> executor_rootless S d w"
  by (auto simp: runner_Ready_def executor_rootless_def limitedCommand_recording is_rootless_def list_ex_iff Let_def
      split: if_splits option.splits prod.splits)

lemma run_container_calls:
  assumes "run_container (recording S) d img runtime command payload network logging (w, cs) = (r, (w', cs'))"
  shows "cs' = cs \<or>
    (\<exists>name. cs' = cs @ [ProcessCall (dr_binary d) (container_arguments d name (runtime \<noteq> img) runtime network command) None payload,
                        ToolCall (dr_binary d) (connectionArguments d @ [''rm'', ''-f'', name])])"
  using assms by (auto simp: run_container_def recording_def Let_def split: prod.splits sum.splits)

text \<open>
  The options of a confined container: an unprivileged user, a read only root, no capabilities, no
  way to gain privileges, bounds on memory, processor and processes, exactly one choice of
  network, and nothing that hands the container devices, directories or privileges of the host.
\<close>

definition widens :: "string \<Rightarrow> bool" where
  "widens v \<longleftrightarrow>
     list_ex (\<lambda>p. has_prefix p v)
       [''-v'', ''--volume'', ''--mount'', ''--privileged'', ''--device'', ''--cap-add'', ''--pid='', ''--ipc'', ''--userns'']"

definition confined :: "bool \<Rightarrow> string list \<Rightarrow> bool" where
  "confined network options \<longleftrightarrow>
     {''--user=65532:65532'', ''--read-only'', ''--cap-drop=ALL'', ''--security-opt=no-new-privileges'',
      ''--memory=256m'', ''--cpus=0.5'', ''--pids-limit=64''} \<subseteq> set options \<and>
     filter (has_prefix ''--network='') options = [if network then ''--network=bridge'' else ''--network=none''] \<and>
     list_all (\<lambda>v. \<not> widens v) options"

lemma container_options_confined: "confined network (container_options staged network)"
  by (simp add: container_options_def confined_def widens_def has_prefix_def)

lemma container_run:
  assumes run: "runner_Run (recording S) d img command payload network logging (w, []) = (result, (w', calls))"
    and started: "ProcessCall program arguments env stdin \<in> set calls"
  shows "\<exists>digest runtime name options before.
     validateOCIReference img = Inr digest \<and> imageRegistry img \<in> set (dr_allowedRegistries d) \<and>
     executor_rootless S d w \<and>
     runtime \<in> {img, ''kubephos.local/runtime/plugin-'' @ drop 7 digest @ '':sealed''} \<and>
     program = dr_binary d \<and> env = None \<and> stdin = payload \<and>
     arguments = connectionArguments d @ [''run'', ''--rm'', ''--name'', name] @ options @ [runtime, command] \<and>
     confined network options \<and>
     calls = before @ [ProcessCall program arguments env stdin, ToolCall program (connectionArguments d @ [''rm'', ''-f'', name])] \<and>
     list_all is_tool before"
proof -
  have no_process: "ProcessCall program arguments env stdin \<notin> set calls" if "tools_only (w, []) (v, calls)" for v
    using that by (auto simp: tools_only_def list_all_iff is_tool_def)
  obtain y1 where ready: "runner_Ready (recording S) d (w, []) = (None, y1)"
    using run no_process started by (cases "runner_Ready (recording S) d (w, [])") (auto simp: runner_Run_def dest: Ready_tools split: option.splits)
  then have t1: "tools_only (w, []) y1" by (rule Ready_tools)
  have valid: "ValidateImage d img = None"
    using run ready no_process started t1 by (auto simp: runner_Run_def split: option.splits)
  obtain runtime root w2 cs2 where prepared: "prepareImage (recording S) d img y1 = (Inr (runtime, root), (w2, cs2))"
    using run ready valid no_process started tools_only_trans [OF t1 prepareImage_tools [of y1 S d img]]
    by (auto simp: runner_Run_def split: prod.splits sum.splits)
  have t2: "tools_only (w, []) (w2, cs2)"
    using tools_only_trans [OF t1 prepareImage_tools [of y1 S d img]] prepared by simp
  obtain r w3 cs3 where ran: "run_container (recording S) d img runtime command payload network logging (w2, cs2) = (r, (w3, cs3))"
    by (metis prod_cases3)
  have "calls = cs3"
    using run ready valid prepared ran by (auto simp: runner_Run_def recording_def split: option.splits prod.splits)
  with run_container_calls [OF ran] obtain name where
    calls: "calls = cs2 @ [ProcessCall (dr_binary d) (container_arguments d name (runtime \<noteq> img) runtime network command) None payload,
                        ToolCall (dr_binary d) (connectionArguments d @ [''rm'', ''-f'', name])]"
    using t2 no_process started by auto
  have before: "list_all is_tool cs2" using t2 by (auto simp: tools_only_def)
  with calls started have args: "program = dr_binary d" "env = None \<and> stdin = payload"
    "arguments = container_arguments d name (runtime \<noteq> img) runtime network command"
    by (auto simp: list_all_iff is_tool_def)
  obtain digest where digest: "validateOCIReference img = Inr digest" "imageRegistry img \<in> set (dr_allowedRegistries d)"
    using valid by (auto simp: ValidateImage_None)
  have runtime: "runtime \<in> {img, ''kubephos.local/runtime/plugin-'' @ drop 7 digest @ '':sealed''}"
    using prepareImage_result [OF prepared] cachedImageReference_sealed [OF digest(1)] by auto
  have "arguments = connectionArguments d @ [''run'', ''--rm'', ''--name'', name] @
      container_options (runtime \<noteq> img) network @ [runtime, command]"
    by (simp add: args(3) container_arguments_def)
  with digest Ready_rootless [OF ready] runtime args(1,2) container_options_confined calls before show ?thesis
    by (metis args(3))
qed

text \<open>
  C19: Whatever the container runner is asked to run, a container is started only for an image pinned by
  a digest, from a registry on the allowed list, after the executor has reported that it runs
  rootless. It gets the confining options, network access exactly when the caller granted it,
  and the image started is the one named or the one sealed under the same digest. At most one
  container is started, it receives the payload, and it is removed after it has ended.
\<close>

theorem container_confined:
  assumes run: "runner_Run (recording S) d img command payload network logging (w, []) = (result, (w', calls))"
    and started: "ProcessCall program arguments env stdin \<in> set calls"
  shows "\<exists>digest runtime name options before.
     validateOCIReference img = Inr digest \<and> imageRegistry img \<in> set (dr_allowedRegistries d) \<and>
     executor_rootless S d w \<and>
     runtime \<in> {img, ''kubephos.local/runtime/plugin-'' @ drop 7 digest @ '':sealed''} \<and>
     program = dr_binary d \<and> env = None \<and> stdin = payload \<and>
     arguments = connectionArguments d @ [''run'', ''--rm'', ''--name'', name] @ options @ [runtime, command] \<and>
     confined network options \<and>
     calls = before @ [ProcessCall program arguments env stdin, ToolCall program (connectionArguments d @ [''rm'', ''-f'', name])] \<and>
     list_all is_tool before"
  by (rule container_run [OF run started])

section \<open>A run\<close>

definition sample_runner :: DockerRunner where
  "sample_runner =
     \<lparr>dr_host = ''tcp://h'', dr_binary = ''docker'', dr_skopeo = ''skopeo'', dr_ca = ''/c'', dr_cert = ''/t'', dr_key = ''/k'',
      dr_allowedRegistries = [''r.io''], dr_registryAccess = []\<rparr>"

definition sample_system :: "unit System" where
  "sample_system =
     \<lparr>sys_Stat = (\<lambda>_ _. Some \<lparr>fi_regular = True, fi_perm = 384\<rparr>),
      sys_Output = (\<lambda>_ _ w. ((['' ''], None), w)),
      sys_Process = (\<lambda>_ _ _ _ w. (Inr \<lparr>pe_stdout = [''{}''], pe_stderr = \<lparr>se_bytes = [], se_failed = False\<rparr>, pe_err = None\<rparr>, w)),
      sys_MkdirTemp = (\<lambda>w. (Inr ''/tmp/x'', w)),
      sys_File = (\<lambda>_ w. (None, w)),
      sys_NewID = (\<lambda>_ w. (''p-1'', w)),
      sys_ReadJSON = (\<lambda>_. RawDoc (JArr [JStr ''name=rootless''])),
      sys_Environ = (\<lambda>_. []), sys_CtxErr = (\<lambda>_. None)\<rparr>"

definition sample_image :: string where
  "sample_image = ''r.io/x@sha256:'' @ replicate 64 CHR ''0''"

lemma sample_cut: "cut_at sep (replicate n c) = None" if "c \<notin> set sep" "sep \<noteq> []" for sep
proof (induction n)
  case (Suc n)
  have "\<not> has_prefix sep (c # replicate n c)" using that by (cases sep) (auto simp: has_prefix_def)
  with Suc show ?case by simp
qed (simp add: that)

lemma sample_split: "split_str ''@sha256:'' sample_image = [''r.io/x'', replicate 64 CHR ''0'']"
proof -
  have rest: "split_str ''@sha256:'' (replicate 64 CHR ''0'') = [replicate 64 CHR ''0'']"
    by (subst split_str.simps) (simp add: sample_cut)
  have "cut_at ''@sha256:'' sample_image = Some (''r.io/x'', replicate 64 CHR ''0'')"
    by (simp add: sample_image_def has_prefix_def)
  then show ?thesis by (subst split_str.simps) (simp add: rest)
qed

lemma sample_reference: "validateOCIReference sample_image = Inr (''sha256:'' @ replicate 64 CHR ''0'')"
proof -
  have "MatchString ociNameExpression ''r.io/x''"
    by (simp add: ociNameExpression_def lower_digit_def one_of_def is_lower_def is_digit_def is_upper_def)
  moreover have "list_all hex_lower (replicate 64 CHR ''0'')" by (simp add: hex_lower_def one_of_def list_all_iff)
  ultimately show ?thesis by (simp add: validateOCIReference_def sample_split)
qed

lemma sample_registry: "imageRegistry sample_image = ''r.io''"
  by (simp add: imageRegistry_def sample_image_def has_prefix_def one_of_def)

lemma sample_policy: "validateRegistryPolicy sample_runner = None"
  by (simp add: validateRegistryPolicy_def sample_runner_def check_registry_def registryExpression_def after_last_def
      lower_digit_def one_of_def is_lower_def is_digit_def)

lemma sample_image_valid: "ValidateImage sample_runner sample_image = None"
  by (simp add: ValidateImage_None sample_reference sample_policy sample_registry) (simp add: sample_runner_def)

lemma sample_executor_ready:
  "runner_Ready (recording sample_system) sample_runner ((), []) = (None, ((), [ToolCall ''docker'' (info_arguments sample_runner)]))"
proof -
  have tls: "validateTLSFiles (recording sample_system) ((), []) sample_runner = None"
    by (simp add: validateTLSFiles_def check_tls_file_def recording_def sample_system_def sample_runner_def has_prefix_def)
  have slice: "string_slice (sys_ReadJSON sample_system s) = Some [''name=rootless'']" for s
    by (simp add: sample_system_def string_slice_def)
  have reply: "fst (limitedCommand sample_system ''docker'' (info_arguments sample_runner) ()) = ('' '', None)"
    by (simp add: limitedCommand_def sample_system_def collect_def lb_Write_def commandOutputLimit_def Let_def)
  have host: "has_prefix ''tcp://'' (dr_host sample_runner)" "dr_binary sample_runner = ''docker''"
    by (simp_all add: sample_runner_def has_prefix_def)
  have "limitedCommand (recording sample_system) ''docker'' (info_arguments sample_runner) ((), []) =
      (('' '', None), ((), [ToolCall ''docker'' (info_arguments sample_runner)]))"
    using reply by (auto simp: limitedCommand_recording split: prod.splits)
  then show ?thesis using host by (simp add: runner_Ready_def sample_policy tls slice is_rootless_def)
qed

lemma sample_started:
  "snd (runner_Run (recording sample_system) sample_runner sample_image ''plan'' ''{}'' False False ((), [])) =
     ((), [ToolCall ''docker'' (info_arguments sample_runner),
           ProcessCall ''docker'' (container_arguments sample_runner ''p-1'' False sample_image False ''plan'') None ''{}'',
           ToolCall ''docker'' (connectionArguments sample_runner @ [''rm'', ''-f'', ''p-1''])])"
proof -
  have prepared: "prepareImage S sample_runner sample_image x = (Inr (sample_image, None), x)" for S :: "'a System" and x
    by (simp add: prepareImage_def sample_runner_def)
  have name: "replace_all ''_'' ''-'' ''p-1'' = ''p-1''" by (simp add: replace_all.simps has_prefix_def)
  have "snd (run_container (recording sample_system) sample_runner sample_image sample_image ''plan'' ''{}'' False False ((), cs)) =
     ((), cs @ [ProcessCall ''docker'' (container_arguments sample_runner ''p-1'' False sample_image False ''plan'') None ''{}'',
           ToolCall ''docker'' (connectionArguments sample_runner @ [''rm'', ''-f'', ''p-1''])])" for cs
    by (simp add: run_container_def recording_def sample_system_def name Let_def split: prod.splits) (simp add: sample_runner_def)
  then show ?thesis by (simp add: runner_Run_def sample_executor_ready sample_image_valid prepared case_prod_unfold)
qed

theorem container_confined_witness:
  "executor_rootless sample_system sample_runner () \<and> (\<exists>options. confined False options \<and>
     container_arguments sample_runner ''p-1'' False sample_image False ''plan'' =
       connectionArguments sample_runner @ [''run'', ''--rm'', ''--name'', ''p-1''] @ options @ [sample_image, ''plan''])"
proof -
  obtain r where "runner_Run (recording sample_system) sample_runner sample_image ''plan'' ''{}'' False False ((), []) =
     (r, ((), [ToolCall ''docker'' (info_arguments sample_runner),
           ProcessCall ''docker'' (container_arguments sample_runner ''p-1'' False sample_image False ''plan'') None ''{}'',
           ToolCall ''docker'' (connectionArguments sample_runner @ [''rm'', ''-f'', ''p-1''])]))"
    using sample_started by (metis surjective_pairing)
  from container_confined [OF this, of "''docker''" "container_arguments sample_runner ''p-1'' False sample_image False ''plan''" None "''{}''"]
  show ?thesis by (auto simp: container_arguments_def)
qed

end
