(* ===== verification/PluginProcess.thy ===== *)
theory PluginProcess
  imports PluginRefs PluginRunner Schema Plugins
begin

text \<open>
  Plugins that run as processes or containers (\<open>plugins/process.go\<close>): the descriptor and its checks
  (\<open>loadDefinition\<close>), the values an invocation hands to the plugin (\<open>resolveConnections\<close>,
  \<open>resolveCatalog\<close>, \<open>resolveSecrets\<close>), and the invocation itself (\<open>invoke\<close>), for plugins shipped as
  executables and for container images.
\<close>

section \<open>Manifests, resolvers and runners\<close>

record CredentialSchema =
  cs_Kind :: string
  cs_Name :: string
  cs_Description :: string
  cs_Schema :: RawMessage

text \<open>The whole of \<open>plugins.Manifest\<close>: the fields of the shared record and those only this component reads.\<close>

record PluginManifest = Manifest +
  mf_Description :: string
  mf_CredentialSchemas :: "CredentialSchema list"
  mf_Targeting :: "string option"
  mf_Permissions :: "string list"
  mf_RuntimeKind :: string
  mf_RuntimeReference :: string

text \<open>A resolver answers with an error or a value; a nil resolver is \<open>None\<close>.\<close>

type_synonym 'a resolver = "(string \<Rightarrow> string + 'a) option"

text \<open>
  The interface of container runners. The image policy and the environment are interfaces a runner
  may also have.
\<close>

record 'w ContainerRunner =
  cr_Run :: "string \<Rightarrow> string \<Rightarrow> string \<Rightarrow> bool \<Rightarrow> bool \<Rightarrow> 'w \<Rightarrow> (run_result \<times> (string \<times> string) list) \<times> 'w"
  cr_ValidateImage :: "(string \<Rightarrow> image_error option) option"
  cr_Environment :: "('w \<Rightarrow> (runner_error + string list) \<times> 'w) option"

definition docker_runner :: "'w System \<Rightarrow> DockerRunner \<Rightarrow> 'w ContainerRunner" where
  "docker_runner S d =
     \<lparr>cr_Run = runner_Run S d, cr_ValidateImage = Some (ValidateImage d), cr_Environment = Some (runner_Environment S d)\<rparr>"

definition ValidateRuntimeImage :: "'w ContainerRunner \<Rightarrow> string \<Rightarrow> image_error option" where
  "ValidateRuntimeImage runner img =
     (case validateOCIReference img of
        Inl e \<Rightarrow> Some e
      | Inr _ \<Rightarrow> (case cr_ValidateImage runner of None \<Rightarrow> None | Some policy \<Rightarrow> policy img))"

record 'w Process =
  pr_manifest :: PluginManifest
  pr_executable :: string
  pr_image :: string
  pr_runner :: "'w ContainerRunner option"
  pr_timeout :: int
  pr_resolver :: "(string \<times> RawMessage) resolver"
  pr_connections :: "(string \<times> RawMessage) resolver"
  pr_catalog :: "RawMessage resolver"
  pr_secretKinds :: "string list"

section \<open>The values of an invocation\<close>

datatype invoke_error =
    ConnectionResolverMissing
  | ConnectionUnresolved string string
  | ConnectionForbidden string
  | CatalogForbidden
  | CatalogResolverMissing
  | CatalogUnresolved string string
  | CredentialResolverMissing
  | CredentialUnresolved string string
  | CredentialForbidden string
  | NotEncodable
  | RunnerMissing
  | BuildExecutorMissing
  | EnvironmentFailed runner_error
  | StartError string
  | ContextError string
  | InvokeOutputExceeded
  | PluginFailed string
  | InvalidJSON string

text \<open>
  A raw message inside a value to be encoded: nil is encoded as null, and a text that is not one
  document is an error.
\<close>

fun embed_raw :: "RawMessage \<Rightarrow> json option" where
  "embed_raw (RawDoc v) = Some v"
| "embed_raw RawEmpty = Some JNull"
| "embed_raw _ = None"

definition has_permission :: "'w Process \<Rightarrow> string \<Rightarrow> bool" where
  "has_permission p permission \<longleftrightarrow> permission \<in> set (mf_Permissions (pr_manifest p))"

definition resolve_connection ::
  "'w Process \<Rightarrow> string \<Rightarrow> (string \<times> RawMessage) list \<Rightarrow> invoke_error + (string \<times> RawMessage) list" where
  "resolve_connection p connectionID result =
     (case pr_connections p of
        None \<Rightarrow> Inl ConnectionResolverMissing
      | Some connections \<Rightarrow>
          (case connections connectionID of
             Inl e \<Rightarrow> Inl (ConnectionUnresolved connectionID e)
           | Inr (provider, configuration) \<Rightarrow>
               if provider \<noteq> mf_Provider (pr_manifest p) \<and> \<not> has_permission p (''connections.read:'' @ provider)
               then Inl (ConnectionForbidden provider)
               else Inr (obj_set connectionID configuration result)))"

text \<open>A range over a map visits its keys in some order, here the order \<open>visit\<close> puts them in.\<close>

definition resolveConnections ::
  "(string list \<Rightarrow> string list) \<Rightarrow> 'w Process \<Rightarrow> json \<Rightarrow> invoke_error + (string \<times> RawMessage) list" where
  "resolveConnections visit p payload = fold_err (resolve_connection p) (visit (collectRefs ''conn_'' payload [])) []"

definition resolve_application ::
  "'w Process \<Rightarrow> string \<Rightarrow> (string \<times> RawMessage) list \<Rightarrow> invoke_error + (string \<times> RawMessage) list" where
  "resolve_application p applicationRef result =
     (case pr_catalog p of
        None \<Rightarrow> Inl CatalogResolverMissing
      | Some catalog \<Rightarrow>
          (case catalog applicationRef of
             Inl e \<Rightarrow> Inl (CatalogUnresolved applicationRef e)
           | Inr descriptor \<Rightarrow> Inr (obj_set applicationRef descriptor result)))"

definition resolveCatalog ::
  "(string list \<Rightarrow> string list) \<Rightarrow> 'w Process \<Rightarrow> json \<Rightarrow> invoke_error + (string \<times> RawMessage) list" where
  "resolveCatalog visit p payload =
     (let refs = collectRefs ''app:'' payload [] in
      if refs \<noteq> [] \<and> \<not> has_permission p ''catalog.read:applications'' then Inl CatalogForbidden
      else fold_err (resolve_application p) (visit refs) [])"

definition resolve_secret ::
  "'w Process \<Rightarrow> string \<Rightarrow> (string \<times> RawMessage) list \<Rightarrow> invoke_error + (string \<times> RawMessage) list" where
  "resolve_secret p credentialID result =
     (case pr_resolver p of
        None \<Rightarrow> Inl CredentialResolverMissing
      | Some resolver \<Rightarrow>
          (case resolver credentialID of
             Inl e \<Rightarrow> Inl (CredentialUnresolved credentialID e)
           | Inr (kind, secret) \<Rightarrow>
               if kind \<notin> set (pr_secretKinds p) then Inl (CredentialForbidden kind)
               else Inr (obj_set credentialID secret result)))"

definition resolveSecrets ::
  "(string list \<Rightarrow> string list) \<Rightarrow> 'w Process \<Rightarrow> json \<Rightarrow> invoke_error + (string \<times> RawMessage) list" where
  "resolveSecrets visit p payload =
     (if pr_secretKinds p = [] then Inr []
      else fold_err (resolve_secret p) (visit (collectRefs ''cred_'' payload [])) [])"

definition embed_fields :: "(string \<times> RawMessage) list \<Rightarrow> (string \<times> json) list option" where
  "embed_fields kvs = all_some (map (\<lambda>(k, raw). map_option (Pair k) (embed_raw raw)) kvs)"

text \<open>The payload a plugin reads from its standard input.\<close>

definition payload_of :: "json \<Rightarrow> (string \<times> json) list \<Rightarrow> (string \<times> json) list \<Rightarrow> (string \<times> json) list \<Rightarrow> json" where
  "payload_of input secrets connections catalog =
     JObj [(''input'', input), (''secrets'', JObj secrets), (''connections'', JObj connections), (''catalog'', JObj catalog)]"

definition invocation_payload ::
  "(string list \<Rightarrow> string list) \<Rightarrow> 'w Process \<Rightarrow> json \<Rightarrow> invoke_error + json" where
  "invocation_payload visit p input =
     (let referencePayload = referenceResolutionPayload input in
      case resolveConnections visit p referencePayload of
        Inl e \<Rightarrow> Inl e
      | Inr connectionValues \<Rightarrow>
          (case resolveCatalog visit p referencePayload of
             Inl e \<Rightarrow> Inl e
           | Inr catalogValues \<Rightarrow>
               (case embed_fields connectionValues of
                  None \<Rightarrow> Inl NotEncodable
                | Some connections \<Rightarrow>
                    (case resolveSecrets visit p (JArr (referencePayload # map snd connections)) of
                       Inl e \<Rightarrow> Inl e
                     | Inr resolved \<Rightarrow>
                         (case (embed_fields resolved, embed_fields catalogValues) of
                            (Some secrets, Some catalog) \<Rightarrow> Inr (payload_of input secrets connections catalog)
                          | _ \<Rightarrow> Inl NotEncodable)))))"

section \<open>The invocation\<close>

definition runtime_keys :: "string list" where
  "runtime_keys =
     [''KUBEPHOS_PLUGIN_RUNTIME_HOST'', ''KUBEPHOS_PLUGIN_RUNTIME_CA'', ''KUBEPHOS_PLUGIN_RUNTIME_CERT'',
      ''KUBEPHOS_PLUGIN_RUNTIME_KEY'', ''KUBEPHOS_PLUGIN_ALLOWED_REGISTRIES'']"

definition withoutRuntimeEnvironment :: "string list \<Rightarrow> string list" where
  "withoutRuntimeEnvironment vs =
     filter (\<lambda>v. case cut_at ''='' v of None \<Rightarrow> True | Some (key, _) \<Rightarrow> key \<notin> set runtime_keys) vs"

definition needs_build_executor :: "'w Process \<Rightarrow> string \<Rightarrow> bool" where
  "needs_build_executor p command \<longleftrightarrow>
     has_permission p ''executor.build'' \<and> command \<in> {''precheck'', ''execute'', ''verify''}"

text \<open>The environment of an executable: without the runtime's own variables, unless the plugin may build images.\<close>

definition process_environment ::
  "'w System \<Rightarrow> 'w Process \<Rightarrow> string \<Rightarrow> 'w \<Rightarrow> (invoke_error + string list) \<times> 'w" where
  "process_environment S p command w =
     (let env = withoutRuntimeEnvironment (sys_Environ S w) in
      if needs_build_executor p command
      then (case Option.bind (pr_runner p) cr_Environment of
              None \<Rightarrow> (Inl BuildExecutorMissing, w)
            | Some environment \<Rightarrow>
                (case environment w of
                   (Inl e, w') \<Rightarrow> (Inl (EnvironmentFailed e), w')
                 | (Inr vs, w') \<Rightarrow> (Inr (env @ vs), w')))
      else (Inr env, w))"

text \<open>
  What the process or the container leaves: its output, the lines kept for a message, the error, and
  whether the output was cut.
\<close>

record ran =
  rn_stdout :: string
  rn_messages :: "string list"
  rn_err :: "string option"
  rn_exceeded :: bool

definition run_executable ::
  "'w System \<Rightarrow> 'w Process \<Rightarrow> string \<Rightarrow> string \<Rightarrow> bool \<Rightarrow> 'w \<Rightarrow> ((invoke_error + ran) \<times> (string \<times> string) list) \<times> 'w" where
  "run_executable S p command payload logging w =
     (case process_environment S p command w of
        (Inl e, w1) \<Rightarrow> ((Inl e, []), w1)
      | (Inr env, w1) \<Rightarrow>
          (case sys_Process S (pr_executable p) [command] (Some env) payload w1 of
             (Inl e, w2) \<Rightarrow> ((Inl (StartError e), []), w2)
           | (Inr ended, w2) \<Rightarrow>
               (case scanLines logging (pe_stderr ended) of (messages, lines) \<Rightarrow>
                  let output = collect pluginOutputLimit (pe_stdout ended)
                  in ((Inr \<lparr>rn_stdout = lb_buffer output, rn_messages = messages, rn_err = pe_err ended,
                        rn_exceeded = lb_exceeded output\<rparr>, lines), w2))))"

definition run_image ::
  "(string \<Rightarrow> string) \<Rightarrow> 'w Process \<Rightarrow> string \<Rightarrow> string \<Rightarrow> bool \<Rightarrow> 'w \<Rightarrow> ((invoke_error + ran) \<times> (string \<times> string) list) \<times> 'w" where
  "run_image quote p command payload logging w =
     (case pr_runner p of
        None \<Rightarrow> ((Inl RunnerMissing, []), w)
      | Some runner \<Rightarrow>
          (case cr_Run runner (pr_image p) command payload (has_permission p ''network.egress'') logging w of
             (((stdout, messages, err), lines), w') \<Rightarrow>
               ((Inr \<lparr>rn_stdout = stdout, rn_messages = messages, rn_err = map_option (runner_message quote) err,
                   rn_exceeded = False\<rparr>, lines), w')))"

text \<open>The answer is read only when the call was not cancelled, the output was not cut and the plugin did not fail.\<close>

definition read_answer :: "'w System \<Rightarrow> (string \<Rightarrow> string + 'a) \<Rightarrow> ran \<Rightarrow> 'w \<Rightarrow> invoke_error + 'a" where
  "read_answer S decode r w =
     (case sys_CtxErr S w of
        Some e \<Rightarrow> Inl (ContextError e)
      | None \<Rightarrow>
          if rn_exceeded r then Inl InvokeOutputExceeded
          else case rn_err r of
            Some e \<Rightarrow> Inl (PluginFailed (pluginErrorMessage (rn_messages r) (Some e)))
          | None \<Rightarrow> (case decode (rn_stdout r) of Inl e \<Rightarrow> Inl (InvalidJSON e) | Inr v \<Rightarrow> Inr v))"

definition invoke ::
  "(string \<Rightarrow> string) \<Rightarrow> (string list \<Rightarrow> string list) \<Rightarrow> 'w System \<Rightarrow> 'w Process \<Rightarrow> string \<Rightarrow> json option \<Rightarrow>
     (string \<Rightarrow> string + 'a) \<Rightarrow> bool \<Rightarrow> 'w \<Rightarrow> ((invoke_error + 'a) \<times> (string \<times> string) list) \<times> 'w" where
  "invoke quote visit S p command input decode logging w =
     (case input of
        None \<Rightarrow> ((Inl NotEncodable, []), w)
      | Some inputPayload \<Rightarrow>
          (case invocation_payload visit p inputPayload of
             Inl e \<Rightarrow> ((Inl e, []), w)
           | Inr doc \<Rightarrow>
               (case (if pr_image p \<noteq> [] then run_image quote p command (render doc) logging w
                      else run_executable S p command (render doc) logging w) of
                  ((Inl e, lines), w') \<Rightarrow> ((Inl e, lines), w')
                | ((Inr r, lines), w') \<Rightarrow> ((read_answer S decode r w', lines), w'))))"

section \<open>The commands\<close>

text \<open>The documents of a step and of its result, with the fields that \<open>omitempty\<close> leaves out.\<close>

definition unless_empty :: "string \<Rightarrow> string \<Rightarrow> (string \<times> json) list" where
  "unless_empty k s = (if s = [] then [] else [(k, JStr s)])"

definition if_true :: "string \<Rightarrow> bool \<Rightarrow> (string \<times> json) list" where
  "if_true k b = (if b then [(k, JBool True)] else [])"

definition if_items :: "string \<Rightarrow> json list \<Rightarrow> (string \<times> json) list" where
  "if_items k xs = (if xs = [] then [] else [(k, JArr xs)])"

definition input_document :: "ArtifactInput \<Rightarrow> json" where
  "input_document a =
     JObj ([(''name'', JStr (ai_Name a)), (''type'', JStr (ai_Type a)), (''version'', JStr (ai_Version a))] @
       unless_empty ''artifactId'' (ai_ArtifactID a) @ unless_empty ''fromStep'' (ai_FromStep a) @
       unless_empty ''fromOutput'' (ai_FromOutput a))"

definition output_document :: "ArtifactOutput \<Rightarrow> json" where
  "output_document a =
     JObj ([(''name'', JStr (ao_Name a)), (''type'', JStr (ao_Type a)), (''version'', JStr (ao_Version a)),
        (''mediaType'', JStr (ao_MediaType a)), (''source'', JStr (ao_Source a))] @ if_true ''sensitive'' (ao_Sensitive a))"

definition int_text :: "int \<Rightarrow> string" where
  "int_text i = (if i < 0 then ''-'' @ show_nat (nat (- i)) else show_nat (nat i))"

text \<open>An empty value is left out.\<close>

definition resolved_document :: "ResolvedArtifact \<Rightarrow> json option" where
  "resolved_document a =
     map_option (\<lambda>rest.
       JObj ([(''id'', JStr (ra_ID a)), (''type'', JStr (ra_Type a)), (''version'', JStr (ra_Version a)),
          (''mediaType'', JStr (ra_MediaType a)), (''digest'', JStr (ra_Digest a)), (''sizeBytes'', JNum (int_text (ra_SizeBytes a))),
          (''sensitive'', JBool (ra_Sensitive a))] @ rest))
       (if ra_Value a = RawEmpty then Some [] else map_option (\<lambda>v. [(''value'', v)]) (embed_raw (ra_Value a)))"

definition effect_document :: "ResourceEffect \<Rightarrow> json" where
  "effect_document e =
     JObj [(''action'', JStr (re_Action e)), (''externalId'', JStr (re_ExternalID e)), (''kind'', JStr (re_Kind e)), (''name'', JStr (re_Name e))]"

definition resolved_fields :: "(string \<times> ResolvedArtifact) list \<Rightarrow> (string \<times> json) list option" where
  "resolved_fields kvs = all_some (map (\<lambda>(k, a). map_option (Pair k) (resolved_document a)) kvs)"

definition step_document :: "PlanStep \<Rightarrow> json option" where
  "step_document step =
     (case (embed_raw (ps_Input step), resolved_fields (ps_ResolvedInputs step)) of
        (Some input, Some resolved) \<Rightarrow>
          Some (JObj ([(''id'', JStr (ps_ID step)), (''name'', JStr (ps_Name step)), (''input'', input)] @
            if_true ''mutating'' (ps_Mutating step) @ if_true ''cleanup'' (ps_Cleanup step) @
            if_items ''artifactInputs'' (map input_document (ps_ArtifactInputs step)) @
            if_items ''outputs'' (map output_document (ps_Outputs step)) @
            (if resolved = [] then [] else [(''resolvedInputs'', JObj resolved)]) @
            if_items ''effects'' (map effect_document (ps_Effects step))))
      | _ \<Rightarrow> None)"

definition step_input :: "PlanStep \<Rightarrow> json option" where
  "step_input step = map_option (\<lambda>doc. JObj [(''step'', doc)]) (step_document step)"

definition result_input :: "PlanStep \<Rightarrow> RawMessage \<Rightarrow> json option" where
  "result_input step raw =
     (case (step_document step, embed_raw raw) of
        (Some doc, Some v) \<Rightarrow> Some (JObj [(''step'', doc), (''result'', v)])
      | _ \<Rightarrow> None)"

text \<open>
  A caller fixes the plugin's surroundings once: how strings are quoted, the order of ranges and the
  system. The decoders of the answers are parameters.
\<close>

record 'w surroundings =
  su_quote :: "string \<Rightarrow> string"
  su_visit :: "string list \<Rightarrow> string list"
  su_system :: "'w System"

definition call_plugin ::
  "'w surroundings \<Rightarrow> 'w Process \<Rightarrow> string \<Rightarrow> json option \<Rightarrow> (string \<Rightarrow> string + 'a) \<Rightarrow> bool \<Rightarrow> 'w \<Rightarrow>
     ((invoke_error + 'a) \<times> (string \<times> string) list) \<times> 'w" where
  "call_plugin su = invoke (su_quote su) (su_visit su) (su_system su)"

definition process_Validate ::
  "'w surroundings \<Rightarrow> (invoke_error \<Rightarrow> string) \<Rightarrow> (string \<Rightarrow> string + ValidationReport) \<Rightarrow> timestamp \<Rightarrow> 'w Process \<Rightarrow> RawMessage \<Rightarrow>
     'w \<Rightarrow> ValidationReport \<times> 'w" where
  "process_Validate su message decode now p raw w =
     (case call_plugin su p ''validate'' (embed_raw raw) decode False w of
        ((Inl e, _), w') \<Rightarrow>
          (\<lparr>vr_Valid = False, vr_Issues = [\<lparr>vi_Level = ''error'', vi_Path = ''$'', vi_Message = message e\<rparr>], vr_CheckedAt = now\<rparr>, w')
      | ((Inr report, _), w') \<Rightarrow> (report, w'))"

definition process_Plan ::
  "'w surroundings \<Rightarrow> (string \<Rightarrow> string + Plan) \<Rightarrow> 'w Process \<Rightarrow> RawMessage \<Rightarrow> 'w \<Rightarrow> (invoke_error + Plan) \<times> 'w" where
  "process_Plan su decode p raw w =
     (case call_plugin su p ''plan'' (embed_raw raw) decode False w of ((r, _), w') \<Rightarrow> (r, w'))"

definition process_Precheck ::
  "'w surroundings \<Rightarrow> (string \<Rightarrow> string + HealthReport) \<Rightarrow> 'w Process \<Rightarrow> PlanStep \<Rightarrow> bool \<Rightarrow> 'w \<Rightarrow>
     ((invoke_error + HealthReport) \<times> (string \<times> string) list) \<times> 'w" where
  "process_Precheck su decode p step logging = call_plugin su p ''precheck'' (step_input step) decode logging"

definition process_Execute ::
  "'w surroundings \<Rightarrow> (string \<Rightarrow> string + RawMessage) \<Rightarrow> 'w Process \<Rightarrow> PlanStep \<Rightarrow> bool \<Rightarrow> 'w \<Rightarrow>
     ((invoke_error + RawMessage) \<times> (string \<times> string) list) \<times> 'w" where
  "process_Execute su decode p step logging = call_plugin su p ''execute'' (step_input step) decode logging"

definition process_Verify ::
  "'w surroundings \<Rightarrow> (string \<Rightarrow> string + HealthReport) \<Rightarrow> 'w Process \<Rightarrow> PlanStep \<Rightarrow> RawMessage \<Rightarrow> bool \<Rightarrow> 'w \<Rightarrow>
     ((invoke_error + HealthReport) \<times> (string \<times> string) list) \<times> 'w" where
  "process_Verify su decode p step raw logging = call_plugin su p ''verify'' (result_input step raw) decode logging"

definition process_Cleanup ::
  "'w surroundings \<Rightarrow> (string \<Rightarrow> string + (string \<times> json) list) \<Rightarrow> 'w Process \<Rightarrow> PlanStep \<Rightarrow> RawMessage \<Rightarrow> bool \<Rightarrow> 'w \<Rightarrow>
     (invoke_error option \<times> (string \<times> string) list) \<times> 'w" where
  "process_Cleanup su decode p step raw logging w =
     (case call_plugin su p ''cleanup'' (result_input step raw) decode logging w of
        ((Inl e, lines), w') \<Rightarrow> ((Some e, lines), w')
      | ((Inr _, lines), w') \<Rightarrow> ((None, lines), w'))"

section \<open>The size of an answer\<close>

text \<open>What every container runner promises its caller about the output of a run.\<close>

locale bounded_runner =
  fixes run :: "string \<Rightarrow> string \<Rightarrow> string \<Rightarrow> bool \<Rightarrow> bool \<Rightarrow> 'w \<Rightarrow> (run_result \<times> (string \<times> string) list) \<times> 'w"
  assumes run_output:
    "run img command payload network logging w = (((stdout, messages, err), lines), w') \<Longrightarrow> length stdout \<le> pluginOutputLimit"
begin

lemma run_image_output:
  assumes "pr_runner p = Some r" and "cr_Run r = run"
    and "run_image quote p command payload logging w = ((Inr rn, lines), w')"
  shows "length (rn_stdout rn) \<le> pluginOutputLimit"
  using assms run_output by (auto simp: run_image_def split: prod.splits)

end

lemma run_container_output:
  "run_container S d img runtime command payload network logging w = (((stdout, messages, err), lines), w') \<Longrightarrow>
     length stdout \<le> pluginOutputLimit"
  by (auto simp: run_container_def Let_def collect_length split: prod.splits sum.splits option.splits if_splits)

interpretation docker: bounded_runner "runner_Run S d" for S d
  by unfold_locales
    (auto simp: runner_Run_def dest: run_container_output split: prod.splits sum.splits option.splits)

text \<open>Whichever runtime a plugin has, its answer is read from an output within the limit.\<close>

lemma answer_bounded:
  assumes "invoke quote visit S p command input decode logging w = ((Inr a, lines), w')"
    and "pr_runner p = None \<or> (\<exists>T d. pr_runner p = Some (docker_runner T d))"
  shows "\<exists>out. decode out = Inr a \<and> length out \<le> pluginOutputLimit"
proof -
  obtain rn payload where ran: "rn_stdout rn = out \<Longrightarrow> decode out = Inr a"
    and run: "(if pr_image p \<noteq> [] then run_image quote p command payload logging w
                  else run_executable S p command payload logging w) = ((Inr rn, lines), w')" for out
    using assms(1) by (auto simp: invoke_def read_answer_def split: option.splits sum.splits prod.splits if_splits)
  have "length (rn_stdout rn) \<le> pluginOutputLimit"
  proof (cases "pr_image p = []")
    case True
    with run show ?thesis
      by (auto simp: run_executable_def Let_def collect_length split: prod.splits sum.splits)
  next
    case False
    with run assms(2) obtain T d where runner: "pr_runner p = Some (docker_runner T d)" by (auto simp: run_image_def)
    have "cr_Run (docker_runner T d) = runner_Run T d" by (simp add: docker_runner_def)
    from docker.run_image_output [OF runner this] run False show ?thesis by simp
  qed
  with ran show ?thesis by blast
qed

section \<open>What an invocation may hand over\<close>

text \<open>
  The three loops share a contract: a step that succeeds adds the value of one reference, and that
  value was granted.
\<close>

locale resolution =
  fixes step :: "string \<Rightarrow> (string \<times> RawMessage) list \<Rightarrow> invoke_error + (string \<times> RawMessage) list"
    and granted :: "string \<Rightarrow> RawMessage \<Rightarrow> bool"
  assumes step_grants: "step k acc = Inr acc' \<Longrightarrow> \<exists>raw. acc' = obj_set k raw acc \<and> granted k raw"
begin

lemma resolved_keys: "fold_err step ks acc = Inr acc' \<Longrightarrow> fst ` set acc' = fst ` set acc \<union> set ks"
proof (induction ks arbitrary: acc)
  case (Cons k ks)
  then obtain acc1 where step: "step k acc = Inr acc1" "fold_err step ks acc1 = Inr acc'"
    by (auto split: sum.splits)
  obtain raw where "acc1 = obj_set k raw acc" using step_grants [OF step(1)] by blast
  with Cons.IH [OF step(2)] fst_set_obj_set [of k raw acc] show ?case by auto
qed simp

lemma resolved_granted:
  assumes "fold_err step ks [] = Inr acc" and "(k, raw) \<in> set acc"
  shows "granted k raw"
proof -
  have "\<forall>(k, raw) \<in> set acc. granted k raw"
  proof (rule fold_err_invariant [OF assms(1)])
    fix x acc' acc''
    assume old: "\<forall>(k, raw) \<in> set acc'. granted k raw" and "step x acc' = Inr acc''"
    then obtain r where "acc'' = obj_set x r acc'" "granted x r" using step_grants by blast
    with old obj_set_entries [of x r acc'] show "\<forall>(k, raw) \<in> set acc''. granted k raw" by fastforce
  qed simp
  with assms(2) show ?thesis by blast
qed

end

definition connection_granted :: "'w Process \<Rightarrow> string \<Rightarrow> RawMessage \<Rightarrow> bool" where
  "connection_granted p k raw \<longleftrightarrow>
     (\<exists>find provider. pr_connections p = Some find \<and> find k = Inr (provider, raw) \<and>
        (provider = mf_Provider (pr_manifest p) \<or> ''connections.read:'' @ provider \<in> set (mf_Permissions (pr_manifest p))))"

definition application_granted :: "'w Process \<Rightarrow> string \<Rightarrow> RawMessage \<Rightarrow> bool" where
  "application_granted p k raw \<longleftrightarrow> (\<exists>find. pr_catalog p = Some find \<and> find k = Inr raw)"

definition secret_granted :: "'w Process \<Rightarrow> string \<Rightarrow> RawMessage \<Rightarrow> bool" where
  "secret_granted p k raw \<longleftrightarrow>
     (\<exists>find kind. pr_resolver p = Some find \<and> find k = Inr (kind, raw) \<and> kind \<in> set (pr_secretKinds p))"

interpretation connections: resolution "resolve_connection p" "connection_granted p" for p
  by unfold_locales
    (auto simp: resolve_connection_def connection_granted_def has_permission_def split: option.splits sum.splits if_splits)

interpretation applications: resolution "resolve_application p" "application_granted p" for p
  by unfold_locales (auto simp: resolve_application_def application_granted_def split: option.splits sum.splits)

interpretation secrets: resolution "resolve_secret p" "secret_granted p" for p
  by unfold_locales (auto simp: resolve_secret_def secret_granted_def split: option.splits sum.splits if_splits)

lemma all_some_Some: "all_some xs = Some ys \<longleftrightarrow> xs = map Some ys"
  by (induction xs arbitrary: ys rule: all_some.induct) auto

lemma embed_fields_Some:
  assumes "embed_fields kvs = Some vs"
  shows "fst ` set vs = fst ` set kvs" and "(k, v) \<in> set vs \<Longrightarrow> \<exists>raw. (k, raw) \<in> set kvs \<and> embed_raw raw = Some v"
proof -
  have eq: "map (\<lambda>(k, raw). map_option (Pair k) (embed_raw raw)) kvs = map Some vs"
    using assms by (simp add: embed_fields_def all_some_Some)
  then have "map (\<lambda>kv. (fst kv, embed_raw (snd kv))) kvs = map (\<lambda>(k, v). (k, Some v)) vs"
    by (induction kvs arbitrary: vs) (auto simp: Cons_eq_map_conv)
  note eq = this
  from arg_cong [OF this, of "map fst"] have "map fst kvs = map fst vs" by (simp add: o_def case_prod_unfold)
  then show "fst ` set vs = fst ` set kvs" by (metis list.set_map)
  show "\<exists>raw. (k, raw) \<in> set kvs \<and> embed_raw raw = Some v" if "(k, v) \<in> set vs"
  proof -
    have "(k, Some v) \<in> set (map (\<lambda>(k, v). (k, Some v)) vs)" using that by force
    then show ?thesis unfolding eq [symmetric] by auto
  qed
qed

text \<open>A value an invocation may hand over: the text the resolver gave, for a reference it was granted for.\<close>

definition hands_over :: "(string \<Rightarrow> RawMessage \<Rightarrow> bool) \<Rightarrow> string set \<Rightarrow> (string \<times> json) list \<Rightarrow> bool" where
  "hands_over granted refs vs \<longleftrightarrow>
     fst ` set vs = refs \<and> (\<forall>(k, v) \<in> set vs. \<exists>raw. granted k raw \<and> embed_raw raw = Some v)"

lemma hands_over_resolved:
  assumes "resolution step granted" and "fold_err step ks [] = Inr kvs" and "embed_fields kvs = Some vs"
  shows "hands_over granted (set ks) vs"
  using resolution.resolved_keys [OF assms(1,2)] resolution.resolved_granted [OF assms(1,2)] embed_fields_Some [OF assms(3)]
  unfolding hands_over_def by (simp add: split_paired_Ball_Sigma case_prod_unfold) (metis prod.collapse)

text \<open>The references to credentials: those of the input and those in the connections it uses.\<close>

definition secret_references :: "json \<Rightarrow> (string \<times> json) list \<Rightarrow> string set" where
  "secret_references input connections =
     references_of ''cred_'' input \<union> {s. has_prefix ''cred_'' s \<and> (\<exists>(k, v) \<in> set connections. \<exists>ks. mentions v ks s)}"

definition permitted_payload :: "'w Process \<Rightarrow> json \<Rightarrow> json \<Rightarrow> bool" where
  "permitted_payload p input doc \<longleftrightarrow>
     (\<exists>secrets connections catalog.
        doc = payload_of input secrets connections catalog \<and>
        hands_over (connection_granted p) (references_of ''conn_'' input) connections \<and>
        hands_over (application_granted p) (references_of ''app:'' input) catalog \<and>
        (catalog = [] \<or> ''catalog.read:applications'' \<in> set (mf_Permissions (pr_manifest p))) \<and>
        hands_over (secret_granted p) (if pr_secretKinds p = [] then {} else secret_references input connections) secrets)"

lemma collectRefs_list: "collectRefs start (JArr (v # vs)) acc = collectRefs start (JArr vs) (collectRefs start v acc)"
  by simp

lemma secret_refs_set:
  "set (collectRefs ''cred_'' (JArr (referenceResolutionPayload input # map snd connections)) []) =
     secret_references input connections"
proof -
  have "set (collectRefs ''cred_'' (JArr (map snd connections)) (collectRefs ''cred_'' (referenceResolutionPayload input) [])) =
      references_of ''cred_'' input \<union> {s. has_prefix ''cred_'' s \<and> (\<exists>ks. mentions (JArr (map snd connections)) ks s)}"
    by (simp only: collectRefs_mentions [of _ "JArr _"] set_references)
  moreover have "(\<exists>ks. mentions (JArr (map snd connections)) ks s) \<longleftrightarrow> (\<exists>(k, v) \<in> set connections. \<exists>ks. mentions v ks s)" for s
    by (auto simp: mentions_JArr case_prod_unfold)
  ultimately show ?thesis unfolding collectRefs_list secret_references_def by simp
qed

lemma invocation_payload_permitted:
  assumes visit: "\<And>xs. set (visit xs) = set xs" and "invocation_payload visit p input = Inr doc"
  shows "permitted_payload p input doc"
proof -
  let ?ref = "referenceResolutionPayload input"
  obtain connectionValues catalogValues connections resolved secrets catalog where
    c: "resolveConnections visit p ?ref = Inr connectionValues" "embed_fields connectionValues = Some connections"
    and a: "resolveCatalog visit p ?ref = Inr catalogValues" "embed_fields catalogValues = Some catalog"
    and s: "resolveSecrets visit p (JArr (?ref # map snd connections)) = Inr resolved" "embed_fields resolved = Some secrets"
    and doc: "doc = payload_of input secrets connections catalog"
    using assms(2) by (auto simp: invocation_payload_def Let_def simp del: collectRefs.simps split: sum.splits option.splits)
  have "hands_over (connection_granted p) (references_of ''conn_'' input) connections"
    using hands_over_resolved [OF connections.resolution_axioms c(1) [unfolded resolveConnections_def] c(2)]
    by (simp add: visit set_references)
  moreover have refs: "hands_over (application_granted p) (references_of ''app:'' input) catalog"
  proof -
    have "fold_err (resolve_application p) (visit (collectRefs ''app:'' ?ref [])) [] = Inr catalogValues"
      using a(1) by (simp add: resolveCatalog_def Let_def split: if_splits)
    from hands_over_resolved [OF applications.resolution_axioms this a(2)] show ?thesis
      by (simp add: visit set_references)
  qed
  moreover have "catalog = [] \<or> ''catalog.read:applications'' \<in> set (mf_Permissions (pr_manifest p))"
  proof (rule disjCI)
    assume "''catalog.read:applications'' \<notin> set (mf_Permissions (pr_manifest p))"
    with a(1) have "collectRefs ''app:'' ?ref [] = []" by (auto simp: resolveCatalog_def has_permission_def Let_def split: if_splits)
    with refs show "catalog = []" by (auto simp: hands_over_def set_references [symmetric])
  qed
  moreover have "hands_over (secret_granted p) (if pr_secretKinds p = [] then {} else secret_references input connections) secrets"
  proof (cases "pr_secretKinds p = []")
    case True
    with s show ?thesis by (simp add: resolveSecrets_def embed_fields_def hands_over_def)
  next
    case False
    then have "fold_err (resolve_secret p) (visit (collectRefs ''cred_'' (JArr (?ref # map snd connections)) [])) [] = Inr resolved"
      using s(1) by (simp add: resolveSecrets_def del: collectRefs.simps)
    from hands_over_resolved [OF secrets.resolution_axioms this s(2)] False show ?thesis
      by (simp add: visit secret_refs_set del: collectRefs.simps)
  qed
  ultimately show ?thesis unfolding permitted_payload_def using doc by blast
qed

section \<open>What a started process receives\<close>

definition hides_runtime :: "string list \<Rightarrow> bool" where
  "hides_runtime env \<longleftrightarrow> (\<forall>v \<in> set env. \<forall>key \<in> set runtime_keys. \<not> has_prefix (key @ ''='') v)"

lemma runtime_keys_plain: "key \<in> set runtime_keys \<Longrightarrow> CHR ''='' \<notin> set key"
  by (auto simp: runtime_keys_def)

lemma withoutRuntimeEnvironment_hides: "hides_runtime (withoutRuntimeEnvironment vs)"
proof -
  have "cut_at ''='' v = Some (key, drop (Suc (length key)) v)" if "has_prefix (key @ ''='') v" "key \<in> set runtime_keys" for v key
    using that cut_at_char [OF runtime_keys_plain [OF that(2)]] by (auto elim!: has_prefixE)
  then show ?thesis by (auto simp: hides_runtime_def withoutRuntimeEnvironment_def)
qed

text \<open>What the code promises about one process it starts for an invocation.\<close>

definition proper_start :: "'w Process \<Rightarrow> string \<Rightarrow> string \<Rightarrow> call \<Rightarrow> bool" where
  "proper_start p command payload c \<longleftrightarrow>
     (case c of
        ToolCall _ _ \<Rightarrow> True
      | ProcessCall program arguments env stdin \<Rightarrow>
          stdin = payload \<and>
          (case env of
             None \<Rightarrow> pr_image p \<noteq> []
           | Some vs \<Rightarrow> pr_image p = [] \<and> program = pr_executable p \<and> arguments = [command] \<and>
               (needs_build_executor p command \<or> hides_runtime vs)))"

lemma proper_tools: "tools_only x y \<Longrightarrow> list_all (proper_start p command payload) (snd x) \<Longrightarrow> list_all (proper_start p command payload) (snd y)"
  by (auto simp: tools_only_def list_all_iff proper_start_def is_tool_def split: call.splits)

text \<open>The runner a plugin was loaded with: none, or the container runner on the same system.\<close>

definition runs_on :: "'w System \<Rightarrow> 'w Process \<Rightarrow> bool" where
  "runs_on S p \<longleftrightarrow> pr_runner p = None \<or> (\<exists>d. pr_runner p = Some (docker_runner S d))"

lemma process_environment_proper:
  assumes "process_environment (recording S) p command x = (r, y)" and "runs_on (recording S) p"
  shows "tools_only x y" and "r = Inr env \<Longrightarrow> needs_build_executor p command \<or> hides_runtime env"
proof -
  show "tools_only x y"
    using assms by (auto simp: process_environment_def runs_on_def docker_runner_def Let_def
        split: if_splits option.splits prod.splits sum.splits dest: Environment_tools)
  show "needs_build_executor p command \<or> hides_runtime env" if "r = Inr env"
    using assms(1) that withoutRuntimeEnvironment_hides by (auto simp: process_environment_def Let_def split: if_splits)
qed

lemma run_executable_proper:
  assumes "run_executable (recording S) p command payload logging (w, cs) = (r, (w', cs'))" and "runs_on (recording S) p"
    and "pr_image p = []" and "list_all (proper_start p command payload) cs"
  shows "list_all (proper_start p command payload) cs'"
proof -
  obtain e w1 cs1 where env: "process_environment (recording S) p command (w, cs) = (e, (w1, cs1))"
    by (metis prod_cases3)
  note proper = process_environment_proper [OF env assms(2)]
  have "list_all (proper_start p command payload) cs1" using proper_tools [OF proper(1)] assms(4) by simp
  with env proper(2) assms(1,3) show ?thesis
    by (auto simp: run_executable_def recording_def proper_start_def Let_def split: sum.splits prod.splits)
qed

lemma Run_proper:
  assumes "runner_Run (recording S) d img command payload network logging (w, []) = (r, (w', cs'))" and "pr_image p \<noteq> []"
  shows "list_all (proper_start p command payload) cs'"
proof -
  have "proper_start p command payload c" if "c \<in> set cs'" for c
  proof (cases c)
    case (ProcessCall program arguments env stdin)
    then have "env = None \<and> stdin = payload" using container_run [OF assms(1)] that by blast
    with ProcessCall assms(2) show ?thesis by (simp add: proper_start_def)
  qed (simp add: proper_start_def)
  then show ?thesis by (simp add: list_all_iff)
qed

lemma invoke_proper:
  assumes "invoke quote visit (recording S) p command (Some input) decode logging (w, []) = (r, (w', calls))"
    and "runs_on (recording S) p" and "ProcessCall program arguments env stdin \<in> set calls"
  obtains doc where "invocation_payload visit p input = Inr doc"
    and "proper_start p command (render doc) (ProcessCall program arguments env stdin)"
proof (cases "invocation_payload visit p input")
  case (Inl e)
  with assms have False by (auto simp: invoke_def)
  then show ?thesis ..
next
  case (Inr doc)
  have "list_all (proper_start p command (render doc)) calls"
  proof (cases "pr_image p = []")
    case True
    obtain q where "run_executable (recording S) p command (render doc) logging (w, []) = (q, (w', calls))"
      using assms(1) Inr True by (auto simp: invoke_def split: prod.splits sum.splits)
    from run_executable_proper [OF this assms(2) True] show ?thesis by simp
  next
    case False
    then obtain d where d: "pr_runner p = Some (docker_runner (recording S) d)"
      using assms Inr by (auto simp: runs_on_def invoke_def run_image_def)
    obtain q where "runner_Run (recording S) d (pr_image p) command (render doc) (has_permission p ''network.egress'') logging (w, []) =
        (q, (w', calls))"
      using assms(1) Inr False d by (auto simp: invoke_def run_image_def docker_runner_def split: prod.splits sum.splits)
    from Run_proper [OF this False] show ?thesis .
  qed
  with assms(3) that Inr show ?thesis by (auto simp: list_all_iff)
qed

end
