(* ===== verification/PluginDescriptor.thy ===== *)
theory PluginDescriptor
  imports PluginProcess
begin

text \<open>
  Loading a plugin (\<open>plugins/process.go\<close>): the descriptor as the YAML decoder gives it, its checks
  in the order of \<open>loadDefinition\<close>, the process value built from it and the comparison with what
  the plugin says about itself. The YAML decoder is a parameter: it returns the first document
  as a descriptor, and what follows it.
\<close>

section \<open>The descriptor\<close>

text \<open>
  A schema is the JSON text of the mapping in the descriptor, or the error of encoding it; a
  missing schema is null. The lists of artifact contracts may be missing.
\<close>

record CredentialSchemaSpec =
  cd_Kind :: string
  cd_Name :: string
  cd_Description :: string
  cd_Schema :: "string + json"

record descriptor =
  ds_APIVersion :: string
  ds_Kind :: string
  ds_ID :: string
  ds_Name :: string
  ds_Version :: string
  ds_Description :: string
  ds_Protocol :: string
  ds_Provider :: string
  ds_Commands :: "string list"
  ds_ConfigurationSchema :: "string + json"
  ds_CredentialSchemas :: "CredentialSchemaSpec list"
  ds_Inputs :: "ArtifactContract list option"
  ds_Outputs :: "ArtifactContract list option"
  ds_Targeting :: "string option"
  ds_Permissions :: "string list"
  ds_Capabilities :: "string list"
  ds_Executable :: string
  ds_Image :: string
  ds_Timeout :: string

datatype yaml_rest = YamlEnd | YamlMore | YamlError string

type_synonym yaml_decoder = "string \<Rightarrow> string + descriptor \<times> yaml_rest"

section \<open>Patterns\<close>

definition lower_digit_dot :: "char \<Rightarrow> bool" where
  "lower_digit_dot c \<longleftrightarrow> lower_digit c \<or> one_of ''.-'' c"

definition alnum :: "char \<Rightarrow> bool" where
  "alnum c \<longleftrightarrow> is_upper c \<or> is_lower c \<or> is_digit c"

definition pluginIDExpression :: pattern where
  "pluginIDExpression =
     Seq (Class lower_digit) (Optional (Seq (Upto (Class lower_digit_dot) 126) (Class lower_digit)))"

definition providerExpression :: pattern where
  "providerExpression =
     Seq (Class lower_digit) (Optional (Seq (Upto (Class lower_digit_dot) 78) (Class lower_digit)))"

definition versionExpression :: pattern where
  "versionExpression = Seq (Class alnum) (Upto (Class (\<lambda>c. alnum c \<or> one_of ''._+-'' c)) 127)"

definition capabilityExpression :: pattern where
  "capabilityExpression =
     Seq (Class is_lower)
    (Seq (Many (Class lower_digit_dot))
         (Optional (Seq (Literal CHR '':'')
                   (Seq (Class lower_digit) (Upto (Class (\<lambda>c. lower_digit c \<or> one_of ''._-'' c)) 79)))))"

definition artifactTypeExpression :: pattern where
  "artifactTypeExpression =
     Seq (Class (\<lambda>c. is_upper c \<or> is_lower c)) (Upto (Class (\<lambda>c. alnum c \<or> one_of ''.-'' c)) 127)"

definition artifactVersionExpression :: pattern where
  "artifactVersionExpression =
     Seq (Literal CHR ''v'')
    (Seq (Plus (Class is_digit))
         (Optional (Alt (Seq (word_pattern ''alpha'') (Plus (Class is_digit)))
                        (Seq (word_pattern ''beta'') (Plus (Class is_digit))))))"

definition targetTraitExpression :: pattern where
  "targetTraitExpression = Seq (Class is_lower) (Upto (Class (\<lambda>c. lower_digit c \<or> c = CHR ''-'')) 62)"

section \<open>Checks\<close>

datatype load_error =
    DecodeFailed string
  | MultipleDocuments
  | UnsupportedContract
  | PluginIDInvalid
  | PluginNameInvalid
  | PluginVersionInvalid
  | DescriptionTooLong
  | ProviderInvalid
  | ProviderMissing
  | CommandInvalid string
  | CommandMissing string
  | ManifestValue string string
  | ContractInvalid string string
  | TargetTraitInvalid
  | TargetingUnexpected
  | RuntimeAmbiguous
  | ImportedExecutable
  | ExecutableMissing string
  | NotExecutable string
  | ImageInvalid image_error
  | LoadRunnerMissing
  | SchemaNotEncodable string
  | SchemaRootInvalid
  | SchemaInvalid string
  | TimeoutInvalid
  | CredentialIdentity
  | CredentialRootInvalid string
  | CredentialInvalid string string
  | DescribeFailed invoke_error
  | IdentityMismatch
  | PluginDuplicated string
  | NoPlugins

definition required :: "string list" where
  "required = [''describe'', ''validate'', ''plan'', ''precheck'', ''execute'', ''verify'', ''status'', ''cancel'', ''cleanup'']"

definition check_command :: "string \<Rightarrow> string list \<Rightarrow> load_error + string list" where
  "check_command command seen =
     (if command \<in> set seen \<or> command \<notin> set required then Inl (CommandInvalid command) else Inr (command # seen))"

definition check_commands :: "string list \<Rightarrow> load_error option" where
  "check_commands commands =
     (case fold_err check_command commands [] of
        Inl e \<Rightarrow> Some e
      | Inr seen \<Rightarrow> first_failure (\<lambda>c. if c \<in> set seen then None else Some (CommandMissing c)) required)"

definition check_value :: "string \<Rightarrow> string \<Rightarrow> string list \<Rightarrow> load_error + string list" where
  "check_value kind v seen =
     (if \<not> MatchString capabilityExpression v \<or> v \<in> set seen then Inl (ManifestValue kind v) else Inr (v # seen))"

definition validateManifestValues :: "string list \<Rightarrow> string \<Rightarrow> load_error option" where
  "validateManifestValues vs kind =
     (case fold_err (check_value kind) vs [] of Inl e \<Rightarrow> Some e | Inr _ \<Rightarrow> None)"

definition contract_name :: "ArtifactContract \<Rightarrow> string" where
  "contract_name c = ac_Type c @ ''/'' @ ac_Version c"

definition check_artifact :: "string \<Rightarrow> ArtifactContract \<Rightarrow> string list \<Rightarrow> load_error + string list" where
  "check_artifact direction c seen =
     (if \<not> MatchString artifactTypeExpression (ac_Type c) \<or> \<not> MatchString artifactVersionExpression (ac_Version c) \<or>
        contract_name c \<in> set seen
      then Inl (ContractInvalid direction (contract_name c)) else Inr (contract_name c # seen))"

definition validateArtifactContracts :: "ArtifactContract list \<Rightarrow> string \<Rightarrow> load_error option" where
  "validateArtifactContracts vs direction =
     (case fold_err (check_artifact direction) vs [] of Inl e \<Rightarrow> Some e | Inr _ \<Rightarrow> None)"

definition contracts :: "ArtifactContract list option \<Rightarrow> ArtifactContract list" where
  "contracts vs = (case vs of None \<Rightarrow> [] | Some cs \<Rightarrow> cs)"

definition name_valid :: "string \<Rightarrow> bool" where
  "name_valid name \<longleftrightarrow> trim_space name = name \<and> 0 < length name \<and> length name \<le> 120"

definition failing :: "bool \<Rightarrow> 'e \<Rightarrow> 'e option" where
  "failing b e = (if b then Some e else None)"

definition hasTargetBinding :: "descriptor \<Rightarrow> bool" where
  "hasTargetBinding ds \<longleftrightarrow> list_ex (\<lambda>c. ac_Type c = ''TargetBinding'') (contracts (ds_Inputs ds))"

text \<open>The checks up to the runtime, in the order of the source; the first that fails is the error.\<close>

definition descriptor_checks :: "descriptor \<Rightarrow> load_error option list" where
  "descriptor_checks ds =
     [failing (ds_APIVersion ds \<noteq> ''plugins.kubephos.io/v1alpha1'' \<or> ds_Kind ds \<noteq> ''Plugin'' \<or> ds_Protocol ds \<noteq> ''v1alpha1'')
        UnsupportedContract,
      failing (\<not> MatchString pluginIDExpression (ds_ID ds)) PluginIDInvalid,
      failing (\<not> name_valid (ds_Name ds)) PluginNameInvalid,
      failing (\<not> MatchString versionExpression (ds_Version ds)) PluginVersionInvalid,
      failing (500 < length (ds_Description ds)) DescriptionTooLong,
      failing (ds_Provider ds \<noteq> [] \<and> \<not> MatchString providerExpression (ds_Provider ds)) ProviderInvalid,
      failing (list_ex (has_prefix ''infrastructure.'') (ds_Capabilities ds) \<and> ds_Provider ds = []) ProviderMissing,
      check_commands (ds_Commands ds),
      validateManifestValues (ds_Capabilities ds) ''capability'',
      validateManifestValues (ds_Permissions ds) ''permission'',
      validateArtifactContracts (contracts (ds_Inputs ds)) ''input'',
      validateArtifactContracts (contracts (ds_Outputs ds)) ''output'',
      failing (hasTargetBinding ds \<and> \<not> (\<exists>trait \<in> set_option (ds_Targeting ds). MatchString targetTraitExpression trait)) TargetTraitInvalid,
      failing (\<not> hasTargetBinding ds \<and> ds_Targeting ds \<noteq> None) TargetingUnexpected,
      failing ((ds_Executable ds = []) = (ds_Image ds = [])) RuntimeAmbiguous]"

definition check_descriptor :: "descriptor \<Rightarrow> load_error option" where
  "check_descriptor ds = first_failure id (descriptor_checks ds)"

text \<open>The mask \<open>0111\<close>: some execute bit is set.\<close>

definition may_execute :: "nat \<Rightarrow> bool" where
  "may_execute perm \<longleftrightarrow> odd perm \<or> odd (perm div 8) \<or> odd (perm div 64)"

text \<open>
  The runtime: path of the executable, and kind, reference and digest. Joining a path cleans it;
  \<open>join_path\<close> is \<open>filepath.Join\<close>.
\<close>

definition check_runtime ::
  "(string \<Rightarrow> string \<Rightarrow> string) \<Rightarrow> 'w System \<Rightarrow> 'w \<Rightarrow> string \<Rightarrow> bool \<Rightarrow> 'w ContainerRunner option \<Rightarrow> descriptor \<Rightarrow>
     load_error + string \<times> string \<times> string \<times> string" where
  "check_runtime join_path S w baseDirectory verify runner ds =
     (if ds_Executable ds \<noteq> [] then
        (if baseDirectory = [] then Inl ImportedExecutable
         else
           let executable = (if has_prefix ''/'' (ds_Executable ds) then ds_Executable ds else join_path baseDirectory (ds_Executable ds))
           in case sys_Stat S w executable of
                None \<Rightarrow> Inl (ExecutableMissing executable)
              | Some info \<Rightarrow>
                  if may_execute (fi_perm info) then Inr (executable, ''bundled'', [], []) else Inl (NotExecutable executable))
      else
        (case validateOCIReference (ds_Image ds) of
           Inl e \<Rightarrow> Inl (ImageInvalid e)
         | Inr digest \<Rightarrow>
             if verify
             then (case runner of
                     None \<Rightarrow> Inl LoadRunnerMissing
                   | Some r \<Rightarrow>
                       (case ValidateRuntimeImage r (ds_Image ds) of
                          Some e \<Rightarrow> Inl (ImageInvalid e)
                        | None \<Rightarrow> Inr ([], ''oci'', ds_Image ds, digest)))
             else Inr ([], ''oci'', ds_Image ds, digest)))"

definition check_schema ::
  "golib \<Rightarrow> (string \<Rightarrow> load_error) \<Rightarrow> load_error \<Rightarrow> string + json \<Rightarrow> load_error + RawMessage" where
  "check_schema L invalid not_object schema =
     (case schema of
        Inl e \<Rightarrow> Inl (SchemaNotEncodable e)
      | Inr doc \<Rightarrow>
          if json_field ''type'' doc \<noteq> Some (JStr ''object'') then Inl not_object
          else case ValidateDefinition L (RawDoc doc) of
            Some e \<Rightarrow> Inl (invalid e)
          | None \<Rightarrow> Inr (RawDoc doc))"

text \<open>Durations in nanoseconds; \<open>parse\<close> is \<open>time.ParseDuration\<close>.\<close>

definition minute :: int where
  "minute = 60 * 10 ^ 9"

definition check_timeout :: "(string \<Rightarrow> int option) \<Rightarrow> string \<Rightarrow> load_error + int" where
  "check_timeout parse s =
     (if s = [] then Inr (30 * minute)
      else if 64 < length s then Inl TimeoutInvalid
      else case parse s of
        None \<Rightarrow> Inl TimeoutInvalid
      | Some timeout \<Rightarrow> if timeout \<le> 0 \<or> 24 * 60 * minute < timeout then Inl TimeoutInvalid else Inr timeout)"

definition check_credential ::
  "golib \<Rightarrow> CredentialSchemaSpec \<Rightarrow> CredentialSchema list \<Rightarrow> load_error + CredentialSchema list" where
  "check_credential L v known =
     (if \<not> MatchString providerExpression (cd_Kind v) \<or> \<not> name_valid (cd_Name v) \<or> cd_Kind v \<in> cs_Kind ` set known
      then Inl CredentialIdentity
      else case check_schema L (CredentialInvalid (cd_Kind v)) (CredentialRootInvalid (cd_Kind v)) (cd_Schema v) of
        Inl e \<Rightarrow> Inl e
      | Inr raw \<Rightarrow>
          Inr (known @ [\<lparr>cs_Kind = cd_Kind v, cs_Name = cd_Name v, cs_Description = cd_Description v, cs_Schema = raw\<rparr>]))"

definition secret_kinds :: "string list \<Rightarrow> string list" where
  "secret_kinds permissions =
     map (trim_prefix ''secrets.read:'') (filter (has_prefix ''secrets.read:'') permissions)"

section \<open>Loading\<close>

text \<open>What a plugin says about itself, as far as it is compared.\<close>

record described =
  de_ID :: string
  de_Version :: string
  de_Provider :: string
  de_Targeting :: "string option"
  de_Inputs :: "ArtifactContract list option"
  de_Outputs :: "ArtifactContract list option"

text \<open>The resolvers and the runner a plugin is loaded with.\<close>

record 'w services =
  sv_resolver :: "(string \<times> RawMessage) resolver"
  sv_connections :: "(string \<times> RawMessage) resolver"
  sv_catalog :: "RawMessage resolver"
  sv_runner :: "'w ContainerRunner option"

definition build_process ::
  "golib \<Rightarrow> (string \<Rightarrow> string \<Rightarrow> string) \<Rightarrow> (string \<Rightarrow> int option) \<Rightarrow> 'w System \<Rightarrow> 'w \<Rightarrow> string \<Rightarrow> bool \<Rightarrow> 'w services \<Rightarrow>
     descriptor \<Rightarrow> load_error + 'w Process" where
  "build_process L join_path parse S w baseDirectory verify sv ds =
     (case check_descriptor ds of
        Some e \<Rightarrow> Inl e
      | None \<Rightarrow>
          (case check_runtime join_path S w baseDirectory verify (sv_runner sv) ds of
             Inl e \<Rightarrow> Inl e
           | Inr (executable, kind, reference, digest) \<Rightarrow>
               (case check_schema L SchemaInvalid SchemaRootInvalid (ds_ConfigurationSchema ds) of
                  Inl e \<Rightarrow> Inl e
                | Inr schemaDefinition \<Rightarrow>
                    (case check_timeout parse (ds_Timeout ds) of
                       Inl e \<Rightarrow> Inl e
                     | Inr timeout \<Rightarrow>
                         (case fold_err (check_credential L) (ds_CredentialSchemas ds) [] of
                            Inl e \<Rightarrow> Inl e
                          | Inr credentialSchemas \<Rightarrow>
                              Inr \<lparr>pr_manifest =
                                     \<lparr>mf_ID = ds_ID ds, mf_Provider = ds_Provider ds, mf_Name = ds_Name ds,
                                      mf_Version = ds_Version ds, mf_Schema = schemaDefinition,
                                      mf_ArtifactInputs = contracts (ds_Inputs ds), mf_ArtifactOutputs = contracts (ds_Outputs ds),
                                      mf_Capabilities = ds_Capabilities ds, mf_RuntimeDigest = digest,
                                      mf_Description = ds_Description ds, mf_CredentialSchemas = credentialSchemas,
                                      mf_Targeting = ds_Targeting ds, mf_Permissions = ds_Permissions ds,
                                      mf_RuntimeKind = kind, mf_RuntimeReference = reference\<rparr>,
                                   pr_executable = executable, pr_image = ds_Image ds, pr_runner = sv_runner sv,
                                   pr_timeout = timeout, pr_resolver = sv_resolver sv, pr_connections = sv_connections sv,
                                   pr_catalog = sv_catalog sv, pr_secretKinds = secret_kinds (ds_Permissions ds)\<rparr>)))))"

definition same_identity :: "descriptor \<Rightarrow> described \<Rightarrow> bool" where
  "same_identity ds de \<longleftrightarrow>
     de_ID de = ds_ID ds \<and> de_Version de = ds_Version ds \<and> de_Provider de = ds_Provider ds \<and>
     de_Targeting de = ds_Targeting ds \<and> de_Inputs de = ds_Inputs ds \<and> de_Outputs de = ds_Outputs ds"

text \<open>The fixed parameters of loading, and the decoder of what the plugin says.\<close>

record 'w loader =
  ld_lib :: golib
  ld_join :: "string \<Rightarrow> string \<Rightarrow> string"
  ld_duration :: "string \<Rightarrow> int option"
  ld_yaml :: yaml_decoder
  ld_visit :: "string list \<Rightarrow> string list"
  ld_described :: "string \<Rightarrow> string + described"
  ld_system :: "'w System"
  ld_notExist :: "string \<Rightarrow> bool"

definition loadDefinition ::
  "'w loader \<Rightarrow> string \<Rightarrow> string \<Rightarrow> bool \<Rightarrow> 'w services \<Rightarrow> 'w \<Rightarrow> (load_error + 'w Process) \<times> 'w" where
  "loadDefinition ld v baseDirectory verify sv w =
     (case ld_yaml ld v of
        Inl e \<Rightarrow> (Inl (DecodeFailed e), w)
      | Inr (ds, rest) \<Rightarrow>
          (case rest of
             YamlMore \<Rightarrow> (Inl MultipleDocuments, w)
           | YamlError e \<Rightarrow> (Inl (DecodeFailed e), w)
           | YamlEnd \<Rightarrow>
               (case build_process (ld_lib ld) (ld_join ld) (ld_duration ld) (ld_system ld) w baseDirectory verify sv ds of
                  Inl e \<Rightarrow> (Inl e, w)
                | Inr plugin \<Rightarrow>
                    if \<not> verify then (Inr plugin, w)
                    else
                      (case invoke (lib_quote (ld_lib ld)) (ld_visit ld) (ld_system ld) plugin ''describe'' (Some (JObj []))
                          (ld_described ld) False w of
                         ((Inl e, lines), w') \<Rightarrow> (Inl (DescribeFailed e), w')
                       | ((Inr de, lines), w') \<Rightarrow>
                           if same_identity ds de then (Inr plugin, w') else (Inl IdentityMismatch, w')))))"

definition no_services :: "'w services" where
  "no_services = \<lparr>sv_resolver = None, sv_connections = None, sv_catalog = None, sv_runner = None\<rparr>"

definition LoadDefinition :: "'w loader \<Rightarrow> string \<Rightarrow> 'w services \<Rightarrow> 'w \<Rightarrow> (load_error + 'w Process) \<times> 'w" where
  "LoadDefinition ld v sv w = loadDefinition ld v [] True sv w"

definition InspectDefinition :: "'w loader \<Rightarrow> string \<Rightarrow> 'w \<Rightarrow> load_error + PluginManifest" where
  "InspectDefinition ld v w = map_sum id pr_manifest (fst (loadDefinition ld v [] False no_services w))"

text \<open>
  Whether an error of loading wraps \<open>os.ErrNotExist\<close>: the executable is missing, or it cannot be
  started for that reason.
\<close>

definition is_not_exist :: "'w loader \<Rightarrow> load_error \<Rightarrow> bool" where
  "is_not_exist ld e \<longleftrightarrow>
     (case e of
        ExecutableMissing _ \<Rightarrow> True
      | DescribeFailed (StartError message) \<Rightarrow> ld_notExist ld message
      | _ \<Rightarrow> False)"

text \<open>One directory entry of \<open>LoadDirectory\<close>: its name, the file \<open>plugin.yaml\<close> in it, if it is a directory with such a file.\<close>

record plugin_entry =
  en_path :: string
  en_isDir :: bool
  en_file :: "string option"

definition load_entry ::
  "'w loader \<Rightarrow> 'w services \<Rightarrow> plugin_entry \<Rightarrow> 'w Process list \<times> 'w \<Rightarrow> load_error + 'w Process list \<times> 'w" where
  "load_entry ld sv entry st =
     (case st of (loaded, w) \<Rightarrow>
        if \<not> en_isDir entry then Inr (loaded, w)
        else case en_file entry of
          None \<Rightarrow> Inr (loaded, w)
        | Some v \<Rightarrow>
            (case loadDefinition ld v (en_path entry) True sv w of
               (Inl e, w') \<Rightarrow> if is_not_exist ld e then Inr (loaded, w') else Inl e
             | (Inr p, w') \<Rightarrow>
                 if mf_ID (pr_manifest p) \<in> (\<lambda>q. mf_ID (pr_manifest q)) ` set loaded
                 then Inl (PluginDuplicated (mf_ID (pr_manifest p)))
                 else Inr (loaded @ [p], w')))"

definition LoadDirectory :: "'w loader \<Rightarrow> 'w services \<Rightarrow> plugin_entry list \<Rightarrow> 'w \<Rightarrow> load_error + 'w Process list" where
  "LoadDirectory ld sv dir w =
     (case fold_err (load_entry ld sv) dir ([], w) of
        Inl e \<Rightarrow> Inl e
      | Inr (loaded, w') \<Rightarrow> if loaded = [] then Inl NoPlugins else Inr loaded)"

section \<open>Which descriptors are accepted\<close>

text \<open>A loop that rejects repetitions and values that are not acceptable.\<close>

lemma distinct_loop:
  assumes "\<And>x seen. f x seen = (if \<not> ok x \<or> key x \<in> set seen then Inl (err x) else Inr (key x # seen))"
  shows "fold_err f xs seen = Inr seen' \<longleftrightarrow>
    list_all ok xs \<and> distinct (map key xs) \<and> set (map key xs) \<inter> set seen = {} \<and> seen' = rev (map key xs) @ seen"
proof (induction xs arbitrary: seen)
  case (Cons x xs)
  show ?case
  proof (cases "ok x \<and> key x \<notin> set seen")
    case True
    with Cons [of "key x # seen"] show ?thesis by (auto simp: assms)
  next
    case False
    then show ?thesis by (auto simp: assms)
  qed
qed auto

lemma distinct_loop_accepts:
  assumes "\<And>x seen. f x seen = (if \<not> ok x \<or> key x \<in> set seen then Inl (err x) else Inr (key x # seen))"
  shows "(case fold_err f xs [] of Inl e \<Rightarrow> Some e | Inr _ \<Rightarrow> None) = None \<longleftrightarrow> list_all ok xs \<and> distinct (map key xs)"
  using distinct_loop [of f ok key err xs "[]", OF assms] by (cases "fold_err f xs []") auto

lemma manifest_values_accepted:
  "validateManifestValues vs kind = None \<longleftrightarrow> list_all (\<lambda>v. v \<in> lang capabilityExpression) vs \<and> distinct vs"
  unfolding validateManifestValues_def
  by (subst distinct_loop_accepts [of _ "\<lambda>v. v \<in> lang capabilityExpression" id "ManifestValue kind"])
    (auto simp: check_value_def match_lang)

definition contract_ok :: "ArtifactContract \<Rightarrow> bool" where
  "contract_ok c \<longleftrightarrow> ac_Type c \<in> lang artifactTypeExpression \<and> ac_Version c \<in> lang artifactVersionExpression"

lemma contracts_accepted:
  "validateArtifactContracts vs direction = None \<longleftrightarrow> list_all contract_ok vs \<and> distinct (map contract_name vs)"
  unfolding validateArtifactContracts_def
  by (subst distinct_loop_accepts [of _ contract_ok contract_name "\<lambda>c. ContractInvalid direction (contract_name c)"])
    (auto simp: check_artifact_def contract_ok_def match_lang)

lemma commands_accepted: "check_commands commands = None \<longleftrightarrow> distinct commands \<and> set commands = set required"
proof -
  have step: "check_command x seen =
      (if \<not> x \<in> set required \<or> id x \<in> set seen then Inl (CommandInvalid x) else Inr (id x # seen))" for x seen
    by (simp add: check_command_def)
  note loop = distinct_loop [of check_command "\<lambda>c. c \<in> set required" id CommandInvalid commands "[]", OF step]
  show ?thesis
  proof (cases "fold_err check_command commands []")
    case (Inl e)
    with loop have "\<not> (list_all (\<lambda>c. c \<in> set required) commands \<and> distinct commands)" by auto
    with Inl show ?thesis by (auto simp: check_commands_def list_all_iff)
  next
    case (Inr seen)
    with loop [of seen] have "list_all (\<lambda>c. c \<in> set required) commands \<and> distinct commands \<and> seen = rev commands" by simp
    with Inr show ?thesis by (auto simp: check_commands_def first_failure_None list_all_iff)
  qed
qed

lemma failing_None [simp]: "failing b e = None \<longleftrightarrow> \<not> b"
  by (simp add: failing_def)

text \<open>
  The declarative reading: a supported contract, an identity within its language and bounds, a provider
  for infrastructure plugins, exactly the nine commands, no repeated capability, permission or
  artifact contract, a target trait exactly when a target binding is consumed, and one runtime.
\<close>

definition descriptor_ok :: "descriptor \<Rightarrow> bool" where
  "descriptor_ok ds \<longleftrightarrow>
     ds_Kind ds = ''Plugin'' \<and> ds_APIVersion ds = ''plugins.kubephos.io/v1alpha1'' \<and> ds_Protocol ds = ''v1alpha1'' \<and>
     ds_ID ds \<in> lang pluginIDExpression \<and> name_valid (ds_Name ds) \<and> ds_Version ds \<in> lang versionExpression \<and>
     length (ds_Description ds) \<le> 500 \<and>
     (ds_Provider ds = [] \<or> ds_Provider ds \<in> lang providerExpression) \<and>
     (ds_Provider ds = [] \<longrightarrow> list_all (\<lambda>c. \<not> has_prefix ''infrastructure.'' c) (ds_Capabilities ds)) \<and>
     distinct (ds_Commands ds) \<and>
     set (ds_Commands ds) =
       {''describe'', ''validate'', ''plan'', ''precheck'', ''execute'', ''verify'', ''status'', ''cancel'', ''cleanup''} \<and>
     list_all (\<lambda>v. v \<in> lang capabilityExpression) (ds_Capabilities ds) \<and> distinct (ds_Capabilities ds) \<and>
     list_all (\<lambda>v. v \<in> lang capabilityExpression) (ds_Permissions ds) \<and> distinct (ds_Permissions ds) \<and>
     list_all contract_ok (contracts (ds_Inputs ds)) \<and> distinct (map contract_name (contracts (ds_Inputs ds))) \<and>
     list_all contract_ok (contracts (ds_Outputs ds)) \<and> distinct (map contract_name (contracts (ds_Outputs ds))) \<and>
     (if hasTargetBinding ds then \<exists>trait \<in> lang targetTraitExpression. ds_Targeting ds = Some trait else ds_Targeting ds = None) \<and>
     (ds_Executable ds = []) \<noteq> (ds_Image ds = [])"

lemma check_descriptor_accepts: "check_descriptor ds = None \<longleftrightarrow> descriptor_ok ds"
proof -
  have targeting: "(\<not> (hasTargetBinding ds \<and> \<not> (\<exists>trait \<in> set_option (ds_Targeting ds). trait \<in> lang targetTraitExpression)) \<and>
      \<not> (\<not> hasTargetBinding ds \<and> ds_Targeting ds \<noteq> None)) \<longleftrightarrow>
    (if hasTargetBinding ds then \<exists>trait \<in> lang targetTraitExpression. ds_Targeting ds = Some trait else ds_Targeting ds = None)"
    by auto
  have eta: "MatchString targetTraitExpression = (\<lambda>s. s \<in> lang targetTraitExpression)"
    by (simp add: fun_eq_iff match_lang)
  have provider: "\<not> (list_ex (has_prefix ''infrastructure.'') (ds_Capabilities ds) \<and> ds_Provider ds = []) \<longleftrightarrow>
    (ds_Provider ds = [] \<longrightarrow> list_all (\<lambda>c. \<not> has_prefix ''infrastructure.'' c) (ds_Capabilities ds))"
    by (auto simp: list_ex_iff list_all_iff)
  have req: "set required = {''describe'', ''validate'', ''plan'', ''precheck'', ''execute'', ''verify'', ''status'', ''cancel'', ''cleanup''}"
    by (simp add: required_def)
  show ?thesis
    unfolding check_descriptor_def descriptor_checks_def descriptor_ok_def targeting [symmetric] provider [symmetric] req [symmetric]
    by (simp only: first_failure_None list.set ball_simps id_apply failing_None manifest_values_accepted contracts_accepted
        commands_accepted match_lang eta) (simp add: linorder_not_less)
qed

text \<open>The rest of what an imported descriptor needs: a pinned image, schemas, a timeout and credential kinds.\<close>

definition schema_ok :: "golib \<Rightarrow> string + json \<Rightarrow> bool" where
  "schema_ok L schema \<longleftrightarrow>
     (\<exists>doc. schema = Inr doc \<and> json_field ''type'' doc = Some (JStr ''object'') \<and> ValidateDefinition L (RawDoc doc) = None)"

definition timeout_ok :: "(string \<Rightarrow> int option) \<Rightarrow> string \<Rightarrow> bool" where
  "timeout_ok parse s \<longleftrightarrow> s = [] \<or> (length s \<le> 64 \<and> (\<exists>t. parse s = Some t \<and> 0 < t \<and> t \<le> 24 * 60 * minute))"

definition credential_ok :: "golib \<Rightarrow> CredentialSchemaSpec \<Rightarrow> bool" where
  "credential_ok L v \<longleftrightarrow> cd_Kind v \<in> lang providerExpression \<and> name_valid (cd_Name v) \<and> schema_ok L (cd_Schema v)"

lemma check_schema_accepts: "(\<exists>raw. check_schema L invalid not_object schema = Inr raw) \<longleftrightarrow> schema_ok L schema"
  by (auto simp: check_schema_def schema_ok_def split: sum.splits option.splits)

lemma check_timeout_accepts: "(\<exists>t. check_timeout parse s = Inr t) \<longleftrightarrow> timeout_ok parse s"
  by (auto simp: check_timeout_def timeout_ok_def split: option.splits)

lemma check_credential_Inr:
  assumes "check_credential L v known = Inr known'"
  shows "credential_ok L v \<and> cd_Kind v \<notin> cs_Kind ` set known \<and> map cs_Kind known' = map cs_Kind known @ [cd_Kind v]"
proof -
  obtain raw where raw: "check_schema L (CredentialInvalid (cd_Kind v)) (CredentialRootInvalid (cd_Kind v)) (cd_Schema v) = Inr raw"
    using assms by (auto simp: check_credential_def split: if_splits sum.splits)
  then have "schema_ok L (cd_Schema v)" using check_schema_accepts by blast
  with assms show ?thesis by (auto simp: check_credential_def credential_ok_def match_lang split: if_splits sum.splits)
qed

lemma check_credential_ok:
  assumes "credential_ok L v" and "cd_Kind v \<notin> cs_Kind ` set known"
  shows "\<exists>known'. check_credential L v known = Inr known'"
proof -
  obtain raw where raw: "check_schema L (CredentialInvalid (cd_Kind v)) (CredentialRootInvalid (cd_Kind v)) (cd_Schema v) = Inr raw"
    using assms(1) check_schema_accepts unfolding credential_ok_def by blast
  with assms show ?thesis by (simp add: check_credential_def credential_ok_def match_lang)
qed

lemma credentials_accepted:
  "(\<exists>r. fold_err (check_credential L) vs known = Inr r) \<longleftrightarrow>
     list_all (credential_ok L) vs \<and> distinct (map cd_Kind vs) \<and> set (map cd_Kind vs) \<inter> cs_Kind ` set known = {}"
proof (induction vs arbitrary: known)
  case (Cons v vs)
  show ?case
  proof (cases "check_credential L v known")
    case (Inl e)
    then have "\<not> (credential_ok L v \<and> cd_Kind v \<notin> cs_Kind ` set known)"
      using check_credential_ok [of L v known] by auto
    with Inl show ?thesis by auto
  next
    case (Inr known')
    note facts = check_credential_Inr [OF Inr]
    have "cs_Kind ` set known' = insert (cd_Kind v) (cs_Kind ` set known)"
    proof -
      have "set (map cs_Kind known') = set (map cs_Kind known @ [cd_Kind v])" using facts by argo
      then show ?thesis by simp
    qed
    with facts Inr Cons [of known'] show ?thesis by auto
  qed
qed simp

text \<open>
  C20: Inspection accepts a plugin descriptor exactly when it is one document with a supported contract,
  every identifier in its language and within its bounds, exactly the nine commands, no repeated
  capability, permission, artifact contract or credential kind, a target trait exactly with a
  target binding, an image pinned by digest and no executable, object schemas that are valid
  definitions, and a timeout between zero and a day.
\<close>

theorem inspection_decided:
  "(\<exists>m. InspectDefinition ld v w = Inr m) \<longleftrightarrow>
     (\<exists>ds digest. ld_yaml ld v = Inr (ds, YamlEnd) \<and> descriptor_ok ds \<and> ds_Executable ds = [] \<and>
        validateOCIReference (ds_Image ds) = Inr digest \<and>
        schema_ok (ld_lib ld) (ds_ConfigurationSchema ds) \<and> timeout_ok (ld_duration ld) (ds_Timeout ds) \<and>
        list_all (credential_ok (ld_lib ld)) (ds_CredentialSchemas ds) \<and> distinct (map cd_Kind (ds_CredentialSchemas ds)))"
proof -
  have built: "(\<exists>p. build_process (ld_lib ld) (ld_join ld) (ld_duration ld) (ld_system ld) w [] False no_services ds = Inr p) \<longleftrightarrow>
      (descriptor_ok ds \<and> ds_Executable ds = [] \<and> (\<exists>digest. validateOCIReference (ds_Image ds) = Inr digest) \<and>
       schema_ok (ld_lib ld) (ds_ConfigurationSchema ds) \<and> timeout_ok (ld_duration ld) (ds_Timeout ds) \<and>
       list_all (credential_ok (ld_lib ld)) (ds_CredentialSchemas ds) \<and> distinct (map cd_Kind (ds_CredentialSchemas ds)))" for ds
    unfolding check_schema_accepts [of _ SchemaInvalid SchemaRootInvalid, symmetric] check_timeout_accepts [symmetric]
      check_descriptor_accepts [symmetric]
    using credentials_accepted [of "ld_lib ld" "ds_CredentialSchemas ds" "[]"]
    by (auto simp: build_process_def check_runtime_def Let_def split: option.splits sum.splits if_splits)
  have inspect: "(\<exists>m. InspectDefinition ld v w = Inr m) \<longleftrightarrow> (\<exists>p. fst (loadDefinition ld v [] False no_services w) = Inr p)"
    by (cases "fst (loadDefinition ld v [] False no_services w)") (auto simp: InspectDefinition_def)
  have load: "(\<exists>p. fst (loadDefinition ld v [] False no_services w) = Inr p) \<longleftrightarrow>
      (\<exists>ds. ld_yaml ld v = Inr (ds, YamlEnd) \<and>
        (\<exists>p. build_process (ld_lib ld) (ld_join ld) (ld_duration ld) (ld_system ld) w [] False no_services ds = Inr p))"
    by (auto simp: loadDefinition_def split: sum.splits yaml_rest.splits)
  show ?thesis unfolding inspect load built by blast
qed

section \<open>What a loaded plugin receives\<close>

lemma loaded_process:
  assumes "fst (loadDefinition ld v dir verify sv w) = Inr p"
  shows "pr_runner p = sv_runner sv" and "pr_secretKinds p = secret_kinds (mf_Permissions (pr_manifest p))"
  using assms by (auto simp: loadDefinition_def build_process_def split: sum.splits yaml_rest.splits option.splits prod.splits if_splits)

lemma secret_kinds_declared: "set (secret_kinds permissions) = {kind. ''secrets.read:'' @ kind \<in> set permissions}"
proof -
  have "kind \<in> trim_prefix ''secrets.read:'' ` {v \<in> set permissions. has_prefix ''secrets.read:'' v} \<longleftrightarrow>
      ''secrets.read:'' @ kind \<in> set permissions" for kind
  proof
    assume "''secrets.read:'' @ kind \<in> set permissions"
    then show "kind \<in> trim_prefix ''secrets.read:'' ` {v \<in> set permissions. has_prefix ''secrets.read:'' v}"
      by (intro image_eqI [of _ _ "''secrets.read:'' @ kind"] CollectI conjI) (simp_all only: trim_prefix_append has_prefix_append)
  qed (auto simp: trim_prefix_def elim!: has_prefixE)
  then show ?thesis unfolding secret_kinds_def by auto
qed

text \<open>
  C18: Whatever command a loaded plugin is invoked with, in a process or in a container, the standard input
  of every process started for it is a payload of its own input and of values it was granted:
  the connections of its provider or of a provider it has the permission to read, the catalog entries
  if it may read the catalog, and the credentials of the kinds its descriptor declares, each for
  a reference in the input or, for credentials, in one of those connections. An executable does
  not see the variables of the container runtime unless it may build images.
\<close>

theorem plugin_receives_permitted:
  assumes visit: "\<And>xs. set (ld_visit ld xs) = set xs"
    and loaded: "fst (loadDefinition ld v dir verify sv w0) = Inr p"
    and runner: "sv_runner sv = None \<or> (\<exists>d. sv_runner sv = Some (docker_runner (recording S) d))"
    and run: "invoke quote (ld_visit ld) (recording S) p command (Some input) decode logging (w, []) = (r, (w', calls))"
    and started: "ProcessCall program arguments env stdin \<in> set calls"
  shows "(\<exists>doc. stdin = render doc \<and> permitted_payload p input doc) \<and>
    set (pr_secretKinds p) = {kind. ''secrets.read:'' @ kind \<in> set (mf_Permissions (pr_manifest p))} \<and>
    (case env of None \<Rightarrow> True | Some vs \<Rightarrow> needs_build_executor p command \<or> hides_runtime vs)"
proof -
  have "runs_on (recording S) p" using runner loaded_process(1) [OF loaded] by (simp add: runs_on_def)
  from invoke_proper [OF run this started] obtain doc where doc: "invocation_payload (ld_visit ld) p input = Inr doc"
    and proper: "proper_start p command (render doc) (ProcessCall program arguments env stdin)" by blast
  have "\<exists>doc. stdin = render doc \<and> permitted_payload p input doc"
    using proper invocation_payload_permitted [OF visit doc] by (auto simp: proper_start_def)
  moreover have "set (pr_secretKinds p) = {kind. ''secrets.read:'' @ kind \<in> set (mf_Permissions (pr_manifest p))}"
    unfolding loaded_process(2) [OF loaded] by (rule secret_kinds_declared)
  ultimately show ?thesis using proper by (auto simp: proper_start_def split: option.splits)
qed

section \<open>A plugin with one credential\<close>

definition object_rule :: rule where
  "object_rule = [(''type'', JStr ''object'')]"

lemma object_rule_parts:
  "keyword_error object_rule q = None" "properties_of object_rule = []" "object_field object_rule ''items'' = None"
  "string_field object_rule ''type'' = ''object''" "array_field object_rule ''enum'' = None"
  by (simp_all add: object_rule_def keyword_error_def supportedKeywords_def properties_of_def object_field_def
      string_field_def array_field_def)

lemma object_rule_fields: "map_of object_rule k = (if k = ''type'' then Some (JStr ''object'') else None)"
  by (simp add: object_rule_def)

lemma object_rule_values: "e \<in> set (keyword_value_errors sample_lib object_rule path) \<Longrightarrow> e = None"
  by (auto simp: keyword_value_errors_def pattern_error_def when_present_def enum_error_def action_errors_def
      range_errors_def default_error_def object_rule_fields number_def nonNegativeInteger_def)

lemma object_rule_accepted: "ValidateDefinition sample_lib (RawDoc (JObj object_rule)) = None"
  unfolding ValidateDefinition_def
  by (simp add: validateRule.simps [of sample_lib object_rule "''$''"] first_error_None object_rule_parts object_rule_values
      object_rule_fields when_present_def is_string_def type_names_def properties_shape_error_def
      required_error_def visibility_error_def items_shape_error_def)

definition sample_descriptor :: descriptor where
  "sample_descriptor =
     \<lparr>ds_APIVersion = ''plugins.kubephos.io/v1alpha1'', ds_Kind = ''Plugin'', ds_ID = ''p'', ds_Name = ''P'', ds_Version = ''1'',
      ds_Description = [], ds_Protocol = ''v1alpha1'', ds_Provider = [], ds_Commands = required,
      ds_ConfigurationSchema = Inr (JObj object_rule), ds_CredentialSchemas = [], ds_Inputs = None, ds_Outputs = None,
      ds_Targeting = None, ds_Permissions = [''secrets.read:ssh''], ds_Capabilities = [], ds_Executable = ''/x'', ds_Image = [],
      ds_Timeout = []\<rparr>"

definition sample_services :: "(unit \<times> call list) services" where
  "sample_services =
     no_services\<lparr>sv_resolver := Some (\<lambda>k. if k = ''cred_1'' then Inr (''ssh'', RawDoc (JStr ''key'')) else Inl ''missing'')\<rparr>"

definition sample_host :: "unit System" where
  "sample_host = sample_system\<lparr>sys_Stat := (\<lambda>_ _. Some \<lparr>fi_regular = True, fi_perm = 448\<rparr>)\<rparr>"

definition sample_loader :: "(unit \<times> call list) loader" where
  "sample_loader =
     \<lparr>ld_lib = sample_lib, ld_join = (\<lambda>a b. b), ld_duration = (\<lambda>_. None),
      ld_yaml = (\<lambda>_. Inr (sample_descriptor, YamlEnd)), ld_visit = rev,
      ld_described = (\<lambda>_. Inr \<lparr>de_ID = ''p'', de_Version = ''1'', de_Provider = [], de_Targeting = None, de_Inputs = None, de_Outputs = None\<rparr>),
      ld_system = recording sample_host, ld_notExist = (\<lambda>_. False)\<rparr>"

definition sample_process :: "(unit \<times> call list) Process" where
  "sample_process =
     \<lparr>pr_manifest =
        \<lparr>mf_ID = ''p'', mf_Provider = [], mf_Name = ''P'', mf_Version = ''1'', mf_Schema = RawDoc (JObj object_rule),
         mf_ArtifactInputs = [], mf_ArtifactOutputs = [], mf_Capabilities = [], mf_RuntimeDigest = [],
         mf_Description = [], mf_CredentialSchemas = [], mf_Targeting = None, mf_Permissions = [''secrets.read:ssh''],
         mf_RuntimeKind = ''bundled'', mf_RuntimeReference = []\<rparr>,
      pr_executable = ''/x'', pr_image = [], pr_runner = None, pr_timeout = 30 * minute,
      pr_resolver = sv_resolver sample_services, pr_connections = None, pr_catalog = None, pr_secretKinds = [''ssh'']\<rparr>"

lemma sample_descriptor_ok: "check_descriptor sample_descriptor = None"
proof -
  have "trim_space ''P'' = ''P''" by (rule trim_space_visible) (simp add: visible_def)
  then have name: "name_valid ''P''" by (simp add: name_valid_def)
  have vals: "validateManifestValues [''secrets.read:ssh''] ''permission'' = None" "validateManifestValues [] ''capability'' = None"
    by (simp_all add: validateManifestValues_def check_value_def capabilityExpression_def lower_digit_dot_def lower_digit_def
        one_of_def is_lower_def is_digit_def)
  have ids: "MatchString pluginIDExpression ''p''" "MatchString versionExpression ''1''"
    by (simp_all add: pluginIDExpression_def versionExpression_def lower_digit_def alnum_def is_lower_def is_digit_def)
  have "check_commands required = None" by (simp add: commands_accepted) (simp add: required_def)
  with name vals ids show ?thesis
    by (simp add: check_descriptor_def descriptor_checks_def sample_descriptor_def failing_def contracts_def
        validateArtifactContracts_def hasTargetBinding_def)
qed

lemma sample_built:
  "build_process sample_lib (\<lambda>a b. b) (\<lambda>_. None) (recording sample_host) x ''/b'' True sample_services sample_descriptor =
     Inr sample_process"
proof -
  have run: "check_runtime (\<lambda>a b. b) (recording sample_host) x ''/b'' True (sv_runner sample_services) sample_descriptor =
      Inr (''/x'', ''bundled'', [], [])"
    by (simp add: check_runtime_def sample_descriptor_def recording_def sample_host_def has_prefix_def may_execute_def case_prod_unfold)
  have schema: "check_schema sample_lib SchemaInvalid SchemaRootInvalid (Inr (JObj object_rule)) = Inr (RawDoc (JObj object_rule))"
    by (simp add: check_schema_def object_rule_accepted) (simp add: object_rule_def)
  have kinds: "secret_kinds [''secrets.read:ssh''] = [''ssh'']"
    by (simp add: secret_kinds_def has_prefix_def trim_prefix_def)
  have fields: "ds_ConfigurationSchema sample_descriptor = Inr (JObj object_rule)" "ds_CredentialSchemas sample_descriptor = []"
    "ds_Timeout sample_descriptor = []" "ds_Permissions sample_descriptor = [''secrets.read:ssh'']"
    by (simp_all add: sample_descriptor_def)
  show ?thesis
    unfolding build_process_def sample_descriptor_ok run fields schema
    by (simp add: check_timeout_def kinds sample_process_def) (simp add: sample_descriptor_def sample_services_def no_services_def contracts_def)
qed

lemma sample_payload_empty: "invocation_payload rev sample_process (JObj []) = Inr (payload_of (JObj []) [] [] [])"
  by (simp add: invocation_payload_def resolveConnections_def resolveCatalog_def resolveSecrets_def embed_fields_def
      referenceResolutionPayload_def Let_def)

definition sample_input :: json where
  "sample_input = JObj [(''key'', JStr ''cred_1''), (''resolvedInputs'', JStr ''cred_2''), (''result'', JStr ''cred_3'')]"

lemma sample_payload:
  "invocation_payload rev sample_process sample_input = Inr (payload_of sample_input [(''cred_1'', JStr ''key'')] [] [])"
proof -
  have ref: "referenceResolutionPayload sample_input = JObj [(''key'', JStr ''cred_1'')]"
    by (simp add: sample_input_def referenceResolutionPayload_def)
  have "resolveSecrets rev sample_process (JArr [JObj [(''key'', JStr ''cred_1'')]]) = Inr [(''cred_1'', RawDoc (JStr ''key''))]"
    by (simp add: resolveSecrets_def resolve_secret_def sample_process_def sample_services_def has_prefix_def)
  then show ?thesis
    by (simp add: invocation_payload_def resolveConnections_def resolveCatalog_def embed_fields_def ref has_prefix_def Let_def)
qed

lemma sample_invoke:
  assumes "invocation_payload rev sample_process input = Inr doc"
  shows "snd (invoke quote rev (recording sample_host) sample_process command (Some input) decode False ((), cs)) =
      ((), cs @ [ProcessCall ''/x'' [command] (Some []) (render doc)])"
    and "\<forall>s. decode s = Inr a \<Longrightarrow>
      fst (fst (invoke quote rev (recording sample_host) sample_process command (Some input) decode False ((), cs))) = Inr a"
proof -
  define out where "out = \<lparr>pe_stdout = [''{}''], pe_stderr = \<lparr>se_bytes = [], se_failed = False\<rparr>, pe_err = None\<rparr>"
  have env: "process_environment (recording sample_host) sample_process command ((), cs) = (Inr [], ((), cs))"
    by (simp add: process_environment_def needs_build_executor_def has_permission_def sample_process_def recording_def
        sample_host_def sample_system_def withoutRuntimeEnvironment_def)
  have proc: "sys_Process (recording sample_host) name args e payload ((), cs) = (Inr out, ((), cs @ [ProcessCall name args e payload]))"
    for name args e payload
    by (simp add: recording_def sample_host_def sample_system_def out_def)
  have ctx: "sys_CtxErr (recording sample_host) y = None" for y
    by (simp add: recording_def sample_host_def sample_system_def case_prod_unfold)
  have exec: "pr_executable sample_process = ''/x''" "pr_image sample_process = []" by (simp_all add: sample_process_def)
  have kept: "\<not> lb_exceeded (collect pluginOutputLimit (pe_stdout out))" "pe_err out = None"
    by (simp_all add: out_def collect_def lb_Write_def pluginOutputLimit_def)
  show "snd (invoke quote rev (recording sample_host) sample_process command (Some input) decode False ((), cs)) =
      ((), cs @ [ProcessCall ''/x'' [command] (Some []) (render doc)])"
    by (simp add: invoke_def assms exec run_executable_def env proc Let_def split: prod.splits)
  show "fst (fst (invoke quote rev (recording sample_host) sample_process command (Some input) decode False ((), cs))) = Inr a"
    if "\<forall>s. decode s = Inr a"
    using that kept by (simp add: invoke_def assms exec run_executable_def env proc read_answer_def ctx Let_def split: prod.splits)
qed

lemma sample_loaded: "fst (loadDefinition sample_loader v ''/b'' True sample_services ((), [])) = Inr sample_process"
proof -
  define de where "de = \<lparr>de_ID = ''p'', de_Version = ''1'', de_Provider = [], de_Targeting = None, de_Inputs = None, de_Outputs = None\<rparr>"
  have "same_identity sample_descriptor de" by (simp add: same_identity_def sample_descriptor_def de_def)
  moreover have "fst (fst (invoke (lib_quote sample_lib) rev (recording sample_host) sample_process ''describe'' (Some (JObj []))
      (\<lambda>_. Inr de) False ((), []))) = Inr de"
    by (rule sample_invoke(2) [OF sample_payload_empty]) simp
  ultimately show ?thesis
    by (auto simp: loadDefinition_def sample_loader_def sample_built de_def [symmetric] split: prod.splits sum.splits)
qed

theorem plugin_receives_permitted_witness:
  "(\<exists>doc. render (payload_of sample_input [(''cred_1'', JStr ''key'')] [] []) = render doc \<and>
      permitted_payload sample_process sample_input doc) \<and>
   set (pr_secretKinds sample_process) = {kind. ''secrets.read:'' @ kind \<in> set (mf_Permissions (pr_manifest sample_process))} \<and>
   (needs_build_executor sample_process ''plan'' \<or> hides_runtime [])"
proof -
  obtain r where run: "invoke id (ld_visit sample_loader) (recording sample_host) sample_process ''plan'' (Some sample_input) (\<lambda>_. Inr ()) False ((), []) =
      (r, ((), [ProcessCall ''/x'' [''plan''] (Some []) (render (payload_of sample_input [(''cred_1'', JStr ''key'')] [] []))]))"
    using sample_invoke(1) [OF sample_payload, of id "''plan''" "\<lambda>_. Inr ()" "[]"]
    by (metis append_Nil surjective_pairing loader.select_convs(5) sample_loader_def)
  have visit: "set (ld_visit sample_loader xs) = set xs" for xs by (simp add: sample_loader_def)
  have runner: "sv_runner sample_services = None \<or> (\<exists>d. sv_runner sample_services = Some (docker_runner (recording sample_host) d))"
    by (simp add: sample_services_def no_services_def)
  show ?thesis
    using plugin_receives_permitted [OF visit sample_loaded runner run, of "''/x''" "[''plan'']" "Some []"
        "render (payload_of sample_input [(''cred_1'', JStr ''key'')] [] [])"]
    by simp
qed

end
