(* ===== verification/StateArchive.thy ===== *)
theory StateArchive
  imports Json
begin

text \<open>
  Secrets at rest and state archives: the vault (\<open>secrets/vault.go\<close>) and the password protected
  archive of an instance's state (\<open>transfer/archive.go\<close>). Ciphers, key derivation, compression and
  the JSON text of a state are functions of a record; the laws the round trips need of them are
  stated as predicates on it.
\<close>

section \<open>Primitives\<close>

text \<open>A row is an object of JSON values; a nil row and a nil map of tables are \<open>None\<close>.\<close>

type_synonym row = "(string \<times> json) list"

record archive_state =
  st_Format :: int
  st_Version :: string
  st_CreatedAt :: timestamp
  st_Schema :: string
  st_Tables :: "(string \<times> row option list) list option"
  st_Credentials :: "(string \<times> string) list"
  st_Objects :: "(string \<times> string) list"

text \<open>
  \<open>pl_read\<close> reads the first value of a text into a state, refusing unknown fields, and returns the rest
  of the text; \<open>pl_more\<close> tells whether a rest holds anything but white space.
\<close>

record primitives =
  pl_pbkdf2 :: "string \<Rightarrow> string \<Rightarrow> string"
  pl_seal :: "string \<Rightarrow> string \<Rightarrow> string \<Rightarrow> string \<Rightarrow> string"
  pl_open :: "string \<Rightarrow> string \<Rightarrow> string \<Rightarrow> string \<Rightarrow> string option"
  pl_sha256 :: "string \<Rightarrow> string"
  pl_gzip :: "string \<Rightarrow> string"
  pl_gunzip :: "string \<Rightarrow> string option"
  pl_write :: "archive_state \<Rightarrow> string"
  pl_read :: "string \<Rightarrow> (archive_state \<times> string) option"
  pl_more :: "string \<Rightarrow> bool"

text \<open>AES accepts keys of 16, 24 and 32 bytes; GCM has nonces of 12 bytes and tags of 16.\<close>

definition NewCipher :: "string \<Rightarrow> bool" where
  "NewCipher key \<longleftrightarrow> length key \<in> {16, 24, 32}"

section \<open>The vault\<close>

datatype key_error = KeyLength | KeyIO string

datatype read_result = ReadKey string | ReadMissing | ReadFailed string

definition validateKey :: "string \<Rightarrow> key_error + string" where
  "validateKey v = (if length v \<noteq> 32 then Inl KeyLength else Inr v)"

definition read_key :: "read_result \<Rightarrow> key_error + string" where
  "read_key r =
     (case r of ReadKey v \<Rightarrow> validateKey v | ReadMissing \<Rightarrow> Inl (KeyIO ''not found'') | ReadFailed e \<Rightarrow> Inl (KeyIO e))"

text \<open>The loop over the attempts; each attempt sees what the file holds then.\<close>

fun retry_key :: "read_result list \<Rightarrow> key_error \<Rightarrow> key_error + string" where
  "retry_key [] failure = Inl failure"
| "retry_key (r # rs) failure = (case read_key r of Inr v \<Rightarrow> Inr v | Inl e \<Rightarrow> retry_key rs e)"

definition readKeyWithRetry :: "(nat \<Rightarrow> read_result) \<Rightarrow> key_error + string" where
  "readKeyWithRetry reads = retry_key (map reads [0..<50]) (KeyIO [])"

datatype create_result = Created | AlreadyExists | CreateFailed string

text \<open>
  The key file: the result of creating the directory, of the first read, of creating the file
  exclusively, of writing the fresh key, and what later reads see. The second component is the content
  written, if any.
\<close>

record key_file =
  kf_mkdir :: "string option"
  kf_first :: read_result
  kf_create :: create_result
  kf_write :: "string option"
  kf_later :: "nat \<Rightarrow> read_result"

definition loadOrCreateKey :: "key_file \<Rightarrow> string \<Rightarrow> (key_error + string) \<times> string option" where
  "loadOrCreateKey f fresh =
     (case kf_mkdir f of
        Some e \<Rightarrow> (Inl (KeyIO e), None)
      | None \<Rightarrow>
          (case kf_first f of
             ReadKey v \<Rightarrow> (validateKey v, None)
           | ReadFailed e \<Rightarrow> (Inl (KeyIO e), None)
           | ReadMissing \<Rightarrow>
               (case kf_create f of
                  AlreadyExists \<Rightarrow> (readKeyWithRetry (kf_later f), None)
                | CreateFailed e \<Rightarrow> (Inl (KeyIO e), None)
                | Created \<Rightarrow> (case kf_write f of Some e \<Rightarrow> (Inl (KeyIO e), None) | None \<Rightarrow> (Inr fresh, Some fresh)))))"

text \<open>An open vault is its key.\<close>

definition vault_Open :: "key_file \<Rightarrow> string \<Rightarrow> key_error + string" where
  "vault_Open f fresh =
     (case fst (loadOrCreateKey f fresh) of
        Inl e \<Rightarrow> Inl e
      | Inr key \<Rightarrow> if NewCipher key then Inr key else Inl KeyLength)"

definition vault_EncryptBound :: "primitives \<Rightarrow> string \<Rightarrow> string \<Rightarrow> string \<Rightarrow> string \<Rightarrow> string \<times> string" where
  "vault_EncryptBound L key nonce v additionalData = (nonce, pl_seal L key nonce v additionalData)"

definition hex_text :: "string \<Rightarrow> string" where
  "hex_text s = concat (map (\<lambda>c. [hex_digit (of_char c div 16), hex_digit (of_char c mod 16)]) s)"

definition vault_Encrypt :: "primitives \<Rightarrow> string \<Rightarrow> string \<Rightarrow> string \<Rightarrow> string \<times> string \<times> string" where
  "vault_Encrypt L key nonce v =
     (case vault_EncryptBound L key nonce v [] of (nonce, ciphertext) \<Rightarrow>
        (nonce, ciphertext, hex_text (take 6 (pl_sha256 L v))))"

text \<open>A nonce of another length makes the cipher panic; it is \<open>None\<close> like a failed decryption.\<close>

definition vault_DecryptBound :: "primitives \<Rightarrow> string \<Rightarrow> string \<Rightarrow> string \<Rightarrow> string \<Rightarrow> string option" where
  "vault_DecryptBound L key nonce ciphertext additionalData =
     (if length nonce \<noteq> 12 then None else pl_open L key nonce ciphertext additionalData)"

definition vault_Decrypt :: "primitives \<Rightarrow> string \<Rightarrow> string \<Rightarrow> string \<Rightarrow> string option" where
  "vault_Decrypt L key nonce ciphertext = vault_DecryptBound L key nonce ciphertext []"

section \<open>The archive\<close>

definition MaxBytes :: nat where
  "MaxBytes = 128 * 2 ^ 20"

definition magic :: string where
  "magic = ''KUBEPHOS-STATE'' @ [byte 1]"

datatype archive_error = PasswordLength | StateTooLarge | ErrArchive

definition passwordKey :: "primitives \<Rightarrow> string \<Rightarrow> string \<Rightarrow> archive_error + string" where
  "passwordKey L password salt =
     (if length password < 12 \<or> 1024 < length password then Inl PasswordLength else Inr (pl_pbkdf2 L password salt))"

text \<open>The encoder writes its text in one piece to the limited writer.\<close>

definition limited_write :: "nat \<Rightarrow> string \<Rightarrow> archive_error + string" where
  "limited_write remaining v = (if remaining < length v then Inl StateTooLarge else Inr v)"

definition archive_Encrypt :: "primitives \<Rightarrow> string \<Rightarrow> string \<Rightarrow> archive_state \<Rightarrow> string \<Rightarrow> archive_error + string" where
  "archive_Encrypt L salt nonce state password =
     (case limited_write MaxBytes (pl_write L state) of
        Inl e \<Rightarrow> Inl e
      | Inr raw \<Rightarrow>
          let compressed = pl_gzip L raw in
          if MaxBytes - 1024 < length compressed then Inl StateTooLarge
          else case passwordKey L password salt of
            Inl e \<Rightarrow> Inl e
          | Inr key \<Rightarrow>
              if \<not> NewCipher key then Inl ErrArchive
              else let header = magic @ salt @ nonce in Inr (header @ pl_seal L key nonce compressed header))"

definition archive_Decrypt :: "primitives \<Rightarrow> string \<Rightarrow> string \<Rightarrow> archive_error + archive_state" where
  "archive_Decrypt L v password =
     (let headerSize = length magic + 16 + 12 in
      if length v < headerSize + 16 \<or> MaxBytes < length v \<or> \<not> has_prefix magic v then Inl ErrArchive
      else
        let header = take headerSize v in
        case passwordKey L password (take 16 (drop (length magic) header)) of
          Inl e \<Rightarrow> Inl e
        | Inr key \<Rightarrow>
            if \<not> NewCipher key then Inl ErrArchive
            else case pl_open L key (drop (headerSize - 12) header) (drop headerSize v) header of
              None \<Rightarrow> Inl ErrArchive
            | Some compressed \<Rightarrow>
                (case pl_gunzip L compressed of
                   None \<Rightarrow> Inl ErrArchive
                 | Some raw \<Rightarrow>
                     if MaxBytes < length raw then Inl ErrArchive
                     else case pl_read L raw of
                       None \<Rightarrow> Inl ErrArchive
                     | Some (state, rest) \<Rightarrow>
                         if st_Format state \<noteq> 1 \<or> st_Tables state = None \<or> pl_more L rest then Inl ErrArchive else Inr state))"

section \<open>Laws of the primitives\<close>

text \<open>
  An authenticated cipher opens exactly what it sealed, under the same key, nonce and additional
  data, and adds a tag of sixteen bytes; a derived key has 32 bytes; compression and the JSON text
  of the state at hand can be read back.
\<close>

definition cipher_laws :: "primitives \<Rightarrow> bool" where
  "cipher_laws L \<longleftrightarrow>
     (\<forall>key nonce p ad c. pl_open L key nonce c ad = Some p \<longleftrightarrow> c = pl_seal L key nonce p ad) \<and>
     (\<forall>key nonce p ad. length (pl_seal L key nonce p ad) = length p + 16)"

definition text_laws :: "primitives \<Rightarrow> archive_state \<Rightarrow> bool" where
  "text_laws L state \<longleftrightarrow>
     (\<forall>password salt. length (pl_pbkdf2 L password salt) = 32) \<and>
     (\<forall>raw. pl_gunzip L (pl_gzip L raw) = Some raw) \<and>
     (\<exists>rest. pl_read L (pl_write L state) = Some (state, rest) \<and> \<not> pl_more L rest)"

section \<open>Reading back\<close>

lemma cipher_open: "cipher_laws L \<Longrightarrow> pl_open L key nonce (pl_seal L key nonce p ad) ad = Some p"
  by (simp add: cipher_laws_def)

text \<open>A secret is read back from the vault that holds it, with the data it was bound to and no other.\<close>

lemma vault_bound:
  assumes "cipher_laws L" and "length nonce = 12" and "vault_EncryptBound L key nonce v ad = (n, c)"
  shows "vault_DecryptBound L key n c ad = Some v" and "vault_DecryptBound L key n c ad' = Some v' \<Longrightarrow> pl_seal L key nonce v ad = pl_seal L key nonce v' ad'"
  using assms by (auto simp: vault_EncryptBound_def vault_DecryptBound_def cipher_laws_def)

lemma vault_round_trip:
  assumes "cipher_laws L" and "length nonce = 12" and "vault_Encrypt L key nonce v = (n, c, fingerprint)"
  shows "vault_Decrypt L key n c = Some v"
  using assms by (auto simp: vault_Encrypt_def vault_Decrypt_def vault_EncryptBound_def vault_DecryptBound_def cipher_open)

lemma vault_Open_key: "vault_Open f fresh = Inr key \<Longrightarrow> length key = 32 \<or> key = fresh"
proof -
  have retry: "retry_key rs e = Inr v \<Longrightarrow> length v = 32" for rs e v
    by (induction rs e rule: retry_key.induct) (auto simp: read_key_def validateKey_def split: sum.splits read_result.splits if_splits)
  assume "vault_Open f fresh = Inr key"
  then show ?thesis
    by (auto simp: vault_Open_def loadOrCreateKey_def readKeyWithRetry_def validateKey_def
        split: sum.splits option.splits read_result.splits create_result.splits if_splits dest: retry)
qed

lemma magic_length: "length magic = 15"
  by (simp add: magic_def)

lemma archive_Encrypt_Inr:
  assumes "archive_Encrypt L salt nonce state password = Inr v"
  obtains key where "passwordKey L password salt = Inr key" "NewCipher key" "length (pl_write L state) \<le> MaxBytes"
    "length (pl_gzip L (pl_write L state)) \<le> MaxBytes - 1024"
    "v = (magic @ salt @ nonce) @ pl_seal L key nonce (pl_gzip L (pl_write L state)) (magic @ salt @ nonce)"
  using assms that by (auto simp: archive_Encrypt_def limited_write_def Let_def split: sum.splits if_splits)

lemma archive_Decrypt_parts:
  "archive_Decrypt L v password =
     (if length v < 59 \<or> MaxBytes < length v \<or> \<not> has_prefix magic v then Inl ErrArchive
      else case passwordKey L password (take 16 (drop 15 (take 43 v))) of
          Inl e \<Rightarrow> Inl e
        | Inr key \<Rightarrow>
            if \<not> NewCipher key then Inl ErrArchive
            else case pl_open L key (drop 31 (take 43 v)) (drop 43 v) (take 43 v) of
              None \<Rightarrow> Inl ErrArchive
            | Some compressed \<Rightarrow>
                (case pl_gunzip L compressed of
                   None \<Rightarrow> Inl ErrArchive
                 | Some raw \<Rightarrow>
                     if MaxBytes < length raw then Inl ErrArchive
                     else case pl_read L raw of
                       None \<Rightarrow> Inl ErrArchive
                     | Some (state, rest) \<Rightarrow>
                         if st_Format state \<noteq> 1 \<or> st_Tables state = None \<or> pl_more L rest then Inl ErrArchive else Inr state))"
proof -
  have sizes: "15 + 16 + 12 = (43 :: nat)" "43 + 16 = (59 :: nat)" "43 - 12 = (31 :: nat)" by simp_all
  show ?thesis unfolding archive_Decrypt_def magic_length Let_def sizes by (rule refl)
qed

text \<open>
  C27: An exported archive is read back: whatever state was encrypted with a password, salt and nonce, when
  encryption succeeds, decryption with the same password succeeds within the size limits and
  returns exactly that state, if it has the current format and its tables.
\<close>

theorem archive_round_trip:
  assumes "cipher_laws L" and "text_laws L state" and "length salt = 16" and "length nonce = 12"
    and "st_Format state = 1" and "st_Tables state \<noteq> None"
    and "archive_Encrypt L salt nonce state password = Inr v"
  shows "archive_Decrypt L v password = Inr state"
proof -
  obtain key where key: "passwordKey L password salt = Inr key" "NewCipher key"
    and size: "length (pl_write L state) \<le> MaxBytes" "length (pl_gzip L (pl_write L state)) \<le> MaxBytes - 1024"
    and v: "v = (magic @ salt @ nonce) @ pl_seal L key nonce (pl_gzip L (pl_write L state)) (magic @ salt @ nonce)"
    using assms(7) by (rule archive_Encrypt_Inr)
  let ?header = "magic @ salt @ nonce"
  have header: "length ?header = 43" by (simp add: magic_length assms)
  have "length v = 43 + (length (pl_gzip L (pl_write L state)) + 16)"
    using assms(1) header unfolding v cipher_laws_def by simp
  then have bounds: "\<not> length v < 59" "\<not> MaxBytes < length v"
    using size(2) by (simp_all add: MaxBytes_def)
  have parts: "take 43 v = ?header" "drop 43 v = pl_seal L key nonce (pl_gzip L (pl_write L state)) ?header"
    using header unfolding v by simp_all
  have inner: "take 16 (drop 15 ?header) = salt" "drop 31 ?header = nonce"
    using assms(3,4) by (simp_all add: magic_length)
  obtain rest where rest: "pl_read L (pl_write L state) = Some (state, rest)" "\<not> pl_more L rest"
    using assms(2) unfolding text_laws_def by blast
  have gunzip: "pl_gunzip L (pl_gzip L (pl_write L state)) = Some (pl_write L state)" using assms(2) by (simp add: text_laws_def)
  have "has_prefix magic v" unfolding v append.assoc by (rule has_prefix_append)
  then show ?thesis
    unfolding archive_Decrypt_parts parts inner key(1)
    using bounds key(2) size(1) rest assms(5,6) gunzip by (simp add: cipher_open [OF assms(1)])
qed

text \<open>
  An archive that is accepted was sealed, as a whole, under the key of its password and the salt it
  carries: neither its header nor its content can have been altered.
\<close>

lemma archive_authentic:
  assumes "cipher_laws L" and "archive_Decrypt L v password = Inr state"
  shows "\<exists>key compressed. passwordKey L password (take 16 (drop 15 v)) = Inr key \<and>
     v = take 43 v @ pl_seal L key (take 12 (drop 31 v)) compressed (take 43 v)"
proof -
  have header: "take 16 (drop 15 (take 43 v)) = take 16 (drop 15 v)" "drop 31 (take 43 v) = take 12 (drop 31 v)"
    by (simp_all add: drop_take)
  define salt nonce where "salt = take 16 (drop 15 v)" and "nonce = take 12 (drop 31 v)"
  note parts = archive_Decrypt_parts [of L v password, unfolded header, folded salt_def nonce_def]
  obtain key where key: "passwordKey L password salt = Inr key"
    using assms(2) unfolding parts by (cases "passwordKey L password salt") (simp_all split: if_splits)
  obtain compressed where "pl_open L key nonce (drop 43 v) (take 43 v) = Some compressed"
    using assms(2) unfolding parts key by (cases "pl_open L key nonce (drop 43 v) (take 43 v)") (simp_all split: if_splits)
  then have "drop 43 v = pl_seal L key nonce compressed (take 43 v)" using assms(1) by (simp add: cipher_laws_def)
  then have "v = take 43 v @ pl_seal L key nonce compressed (take 43 v)" by (metis append_take_drop_id)
  with key show ?thesis unfolding salt_def nonce_def by blast
qed

section \<open>An archive\<close>

definition sample_state :: archive_state where
  "sample_state =
     \<lparr>st_Format = 1, st_Version = ''1'', st_CreatedAt = 0, st_Schema = [], st_Tables = Some [], st_Credentials = [(''c'', ''s'')], st_Objects = []\<rparr>"

text \<open>A state as text, for a decoder that knows one state only; the cipher appends the length of its inputs.\<close>

definition sample_primitives :: primitives where
  "sample_primitives =
     \<lparr>pl_pbkdf2 = (\<lambda>password salt. replicate 32 CHR ''k''),
      pl_seal = (\<lambda>key nonce p ad. p @ replicate 16 CHR ''t''),
      pl_open = (\<lambda>key nonce c ad. if c = take (length c - 16) c @ replicate 16 CHR ''t'' then Some (take (length c - 16) c) else None),
      pl_sha256 = (\<lambda>s. s), pl_gzip = (\<lambda>s. s), pl_gunzip = Some,
      pl_write = (\<lambda>state. if state = sample_state then ''{}'' else ''[]''),
      pl_read = (\<lambda>s. if s = ''{}'' then Some (sample_state, []) else None), pl_more = (\<lambda>rest. rest \<noteq> [])\<rparr>"

lemma sample_cipher: "cipher_laws sample_primitives"
proof -
  have "(c = take (length c - 16) c @ t \<and> take (length c - 16) c = p) \<longleftrightarrow> c = p @ t" if "length t = 16" for c p t :: string
    using that by auto
  then show ?thesis by (auto simp: cipher_laws_def sample_primitives_def)
qed

lemma sample_encrypted:
  "archive_Encrypt sample_primitives (replicate 16 CHR ''s'') (replicate 12 CHR ''n'') sample_state ''correct horse'' =
     Inr (magic @ replicate 16 CHR ''s'' @ replicate 12 CHR ''n'' @ ''{}'' @ replicate 16 CHR ''t'')"
  by (simp add: archive_Encrypt_def sample_primitives_def limited_write_def passwordKey_def NewCipher_def MaxBytes_def)

theorem archive_round_trip_witness:
  "archive_Decrypt sample_primitives
     (magic @ replicate 16 CHR ''s'' @ replicate 12 CHR ''n'' @ ''{}'' @ replicate 16 CHR ''t'') ''correct horse'' = Inr sample_state"
  by (rule archive_round_trip [OF sample_cipher _ _ _ _ _ sample_encrypted])
    (simp_all add: text_laws_def sample_primitives_def sample_state_def)

end
