(* ===== verification/StateTransfer.thy ===== *)
theory StateTransfer
  imports StateArchive Patterns Artifacts
begin

text \<open>
  Export of an instance's state (\<open>storage/transfer.go\<close>) and the handling of secrets on export and
  import (\<open>api/transfer.go\<close>). The database is a function from table names to rows, each row an object
  of JSON values as \<open>to_jsonb\<close> gives it; SQL conditions are functions on the fields of rows.
\<close>

section \<open>Rows and tables\<close>

record transfer_db =
  td_rows :: "string \<Rightarrow> row list"
  td_schema :: string

text \<open>\<open>transfer.String\<close>: the empty string unless the field is a string.\<close>

definition row_String :: "row \<Rightarrow> string \<Rightarrow> string" where
  "row_String r key = (case map_of r key of Some (JStr s) \<Rightarrow> s | _ \<Rightarrow> [])"

definition row_Set :: "row \<Rightarrow> string \<Rightarrow> json \<Rightarrow> row" where
  "row_Set r key v = obj_set key v r"

text \<open>A column of a row in SQL: null and missing values equal nothing.\<close>

definition column :: "row \<Rightarrow> string \<Rightarrow> string option" where
  "column r key = (case map_of r key of Some (JStr s) \<Rightarrow> Some s | _ \<Rightarrow> None)"

definition column_in :: "row \<Rightarrow> string \<Rightarrow> string list \<Rightarrow> bool" where
  "column_in r key vs \<longleftrightarrow> (case column r key of None \<Rightarrow> False | Some v \<Rightarrow> v \<in> set vs)"

definition transferTables :: "string list" where
  "transferTables =
     [''workspaces'', ''credentials'', ''provider_connections'', ''catalog_applications'', ''catalog_models'',
      ''catalog_application_previews'', ''plugin_packages'', ''operations'', ''operation_steps'', ''artifacts'', ''pipelines'',
      ''pipeline_runs'', ''pipeline_run_stages'', ''managed_resources'', ''managed_resource_dependencies'', ''strategy_catalog'',
      ''infrastructure_resources'', ''plugin_runtime_profiles'', ''plugin_runtime_registries'', ''experiment_configurations'',
      ''audit_events'']"

definition transferRoots :: "string list" where
  "transferRoots =
     [''workspaces'', ''credentials'', ''provider_connections'', ''catalog_applications'', ''catalog_models'',
      ''catalog_application_previews'', ''plugin_packages'', ''managed_resources'', ''managed_resource_dependencies'',
      ''strategy_catalog'', ''infrastructure_resources'', ''plugin_runtime_profiles'', ''plugin_runtime_registries'',
      ''experiment_configurations'']"

definition lower_hex :: "char \<Rightarrow> bool" where
  "lower_hex c \<longleftrightarrow> is_digit c \<or> c \<in> set ''abcdef''"

text \<open>
  The expression is searched between quotes in the JSON text of a row. Quotes inside a string are
  escaped there, so a match is a whole string of the row, a key or a value.
\<close>

definition transferReference :: pattern where
  "transferReference =
     Seq (Alt (word_pattern ''op'') (Alt (word_pattern ''art'') (Alt (word_pattern ''pipe'') (word_pattern ''run''))))
         (Seq (word_pattern ''_'') (exactly 24 (Class lower_hex)))"

fun doc_strings :: "json \<Rightarrow> string list" where
  "doc_strings (JStr s) = [s]"
| "doc_strings (JArr xs) = concat (map doc_strings xs)"
| "doc_strings (JObj kvs) = concat (map (\<lambda>(k, x). k # doc_strings x) kvs)"
| "doc_strings v = []"

definition row_references :: "row \<Rightarrow> string list" where
  "row_references r = filter (MatchString transferReference) (doc_strings (JObj r))"

definition reference_table :: "string \<Rightarrow> string" where
  "reference_table key =
     (if has_prefix ''op_'' key then ''operations'' else if has_prefix ''art_'' key then ''artifacts''
      else if has_prefix ''pipe_'' key then ''pipelines'' else ''pipeline_runs'')"

datatype transfer_error =
    ErrTransferBusy
  | ErrTransferTarget
  | ErrTransferSchema
  | ExperimentReferenced
  | ArchiveTables
  | ArchiveRow
  | ArchiveDuplicate
  | ArchiveUnfinished

definition active :: "transfer_db \<Rightarrow> string \<Rightarrow> string list \<Rightarrow> bool" where
  "active db table states \<longleftrightarrow> list_ex (\<lambda>r. column_in r ''status'' states) (td_rows db table)"

definition transferIdle :: "transfer_db \<Rightarrow> transfer_error option" where
  "transferIdle db =
     (if active db ''operations'' [''queued'', ''prechecking'', ''running'', ''verifying''] \<or>
        active db ''pipeline_runs'' [''queued'', ''running''] \<or>
        active db ''experiments'' [''queued'', ''initializing'', ''initialized'', ''running''] \<or>
        active db ''plugin_import_jobs'' [''queued'', ''inspecting'', ''validating'', ''activating'']
      then Some ErrTransferBusy else None)"

text \<open>The volatile fields of connectivity checks are reset in every row that has them; \<open>now\<close> is the current time.\<close>

definition reset_connectivity :: "json \<Rightarrow> string \<Rightarrow> row \<Rightarrow> row" where
  "reset_connectivity now table r =
     (if table = ''provider_connections'' \<or> table = ''managed_resources''
      then row_Set (row_Set (row_Set (row_Set r ''connectivity'' JNull) ''connectivity_failures'' (JNum ''0''))
             ''connectivity_next_check_at'' now) ''connectivity_lease_id'' JNull
      else r)"

definition transferRows :: "json \<Rightarrow> transfer_db \<Rightarrow> string \<Rightarrow> (row \<Rightarrow> bool) \<Rightarrow> row list" where
  "transferRows now db table cond = map (reset_connectivity now table) (filter cond (td_rows db table))"

section \<open>Experiments are left out\<close>

definition trial_of_operation :: "transfer_db \<Rightarrow> string \<Rightarrow> bool" where
  "trial_of_operation db k \<longleftrightarrow> list_ex (\<lambda>t. column t ''operation_id'' = Some k) (td_rows db ''experiment_trials'')"

definition trial_of_run :: "transfer_db \<Rightarrow> string \<Rightarrow> bool" where
  "trial_of_run db k \<longleftrightarrow> list_ex (\<lambda>t. column t ''pipeline_run_id'' = Some k) (td_rows db ''experiment_trials'')"

definition stage_of_trial :: "transfer_db \<Rightarrow> string \<Rightarrow> bool" where
  "stage_of_trial db k \<longleftrightarrow>
     list_ex (\<lambda>s. (column s ''operation_id'' = Some k \<or> column s ''cleanup_operation_id'' = Some k) \<and>
       (case column s ''run_id'' of None \<Rightarrow> False | Some run \<Rightarrow> trial_of_run db run)) (td_rows db ''pipeline_run_stages'')"

definition experiment_bound :: "transfer_db \<Rightarrow> string \<Rightarrow> bool" where
  "experiment_bound db k \<longleftrightarrow>
     (if reference_table k = ''operations'' then trial_of_operation db k \<or> stage_of_trial db k
      else reference_table k = ''pipeline_runs'' \<and> trial_of_run db k)"

text \<open>The rows the export starts from; an infrastructure resource an experiment created is none of them.\<close>

definition root_condition :: "transfer_db \<Rightarrow> string \<Rightarrow> row \<Rightarrow> bool" where
  "root_condition db table r \<longleftrightarrow>
     table \<noteq> ''infrastructure_resources'' \<or>
     (case column r ''created_by_operation_id'' of
        None \<Rightarrow> True
      | Some k \<Rightarrow> \<not> trial_of_operation db k \<and> \<not> stage_of_trial db k)"

definition root_rows :: "json \<Rightarrow> transfer_db \<Rightarrow> string \<Rightarrow> row list" where
  "root_rows now db table =
     (if table \<in> set transferRoots then transferRows now db table (root_condition db table) else [])"

section \<open>Following references\<close>

record export_state =
  ex_tables :: "string \<Rightarrow> row list"
  ex_seen :: "string list"

definition add_rows :: "string \<Rightarrow> row list \<Rightarrow> export_state \<Rightarrow> export_state" where
  "add_rows table rs st = st\<lparr>ex_tables := (ex_tables st)(table := ex_tables st table @ rs)\<rparr>"

text \<open>The references of all rows that were not met before, each once.\<close>

definition pending_references :: "(string list \<Rightarrow> string list) \<Rightarrow> export_state \<Rightarrow> string list" where
  "pending_references visit st =
     fold (\<lambda>key found. if key \<in> set (ex_seen st) \<or> key \<in> set found then found else found @ [key])
       (concat (map (\<lambda>table. concat (map row_references (ex_tables st table))) (visit transferTables))) []"

text \<open>An artifact of an exported operation, unless it was met already.\<close>

definition add_artifact :: "row \<Rightarrow> export_state \<Rightarrow> export_state" where
  "add_artifact r st =
     (let key = row_String r ''id''
      in if key \<in> set (ex_seen st) then st else (add_rows ''artifacts'' [r] st)\<lparr>ex_seen := key # ex_seen st\<rparr>)"

definition process_table ::
  "json \<Rightarrow> transfer_db \<Rightarrow> string list \<Rightarrow> string \<Rightarrow> export_state \<Rightarrow> transfer_error + export_state" where
  "process_table now db pending table st =
     (let ids = filter (\<lambda>k. reference_table k = table) pending in
      if list_ex (experiment_bound db) ids then Inl ExperimentReferenced
      else
        let st = add_rows table (transferRows now db table (\<lambda>r. column_in r ''id'' ids)) st;
            st = (if table = ''operations''
                  then fold add_artifact (transferRows now db ''artifacts'' (\<lambda>r. column_in r ''operation_id'' ids))
                         (add_rows ''operation_steps'' (transferRows now db ''operation_steps'' (\<lambda>r. column_in r ''operation_id'' ids)) st)
                  else st);
            st = (if table = ''pipeline_runs''
                  then add_rows ''pipeline_run_stages'' (transferRows now db ''pipeline_run_stages'' (\<lambda>r. column_in r ''run_id'' ids)) st
                  else st)
        in Inr st)"

definition export_round ::
  "json \<Rightarrow> (string list \<Rightarrow> string list) \<Rightarrow> transfer_db \<Rightarrow> string list \<Rightarrow> export_state \<Rightarrow> transfer_error + export_state" where
  "export_round now visit db pending st =
     fold_err (process_table now db pending) (visit (remdups (map reference_table pending)))
       (st\<lparr>ex_seen := pending @ ex_seen st\<rparr>)"

text \<open>The loop ends when no row has a reference that was not met; that it ends is proved below.\<close>

partial_function (option) export_loop ::
  "json \<Rightarrow> (string list \<Rightarrow> string list) \<Rightarrow> transfer_db \<Rightarrow> export_state \<Rightarrow> (transfer_error + export_state) option" where
  "export_loop now visit db st =
     (let pending = pending_references visit st in
      if pending = [] then Some (Inr st)
      else case export_round now visit db pending st of
        Inl e \<Rightarrow> Some (Inl e)
      | Inr st' \<Rightarrow> export_loop now visit db st')"

definition export_start :: "json \<Rightarrow> transfer_db \<Rightarrow> export_state" where
  "export_start now db = \<lparr>ex_tables = root_rows now db, ex_seen = []\<rparr>"

section \<open>What is exported\<close>

text \<open>
  The rows the export means to copy: the roots, the record of every reference in a copied row, the
  steps and artifacts of every operation referred to, and the stages of every run referred to.
\<close>

inductive reach :: "json \<Rightarrow> transfer_db \<Rightarrow> string \<Rightarrow> row \<Rightarrow> bool" for now db where
  reach_root: "r \<in> set (root_rows now db t) \<Longrightarrow> reach now db t r"
| reach_record: "reach now db t r \<Longrightarrow> k \<in> set (row_references r) \<Longrightarrow>
    r' \<in> set (transferRows now db (reference_table k) (\<lambda>r. column r ''id'' = Some k)) \<Longrightarrow> reach now db (reference_table k) r'"
| reach_step: "reach now db t r \<Longrightarrow> k \<in> set (row_references r) \<Longrightarrow> reference_table k = ''operations'' \<Longrightarrow>
    r' \<in> set (transferRows now db ''operation_steps'' (\<lambda>r. column r ''operation_id'' = Some k)) \<Longrightarrow> reach now db ''operation_steps'' r'"
| reach_artifact: "reach now db t r \<Longrightarrow> k \<in> set (row_references r) \<Longrightarrow> reference_table k = ''operations'' \<Longrightarrow>
    r' \<in> set (transferRows now db ''artifacts'' (\<lambda>r. column r ''operation_id'' = Some k)) \<Longrightarrow> reach now db ''artifacts'' r'"
| reach_stage: "reach now db t r \<Longrightarrow> k \<in> set (row_references r) \<Longrightarrow> reference_table k = ''pipeline_runs'' \<Longrightarrow>
    r' \<in> set (transferRows now db ''pipeline_run_stages'' (\<lambda>r. column r ''run_id'' = Some k)) \<Longrightarrow> reach now db ''pipeline_run_stages'' r'"

text \<open>A reference in a copied row.\<close>

definition referred :: "json \<Rightarrow> transfer_db \<Rightarrow> string \<Rightarrow> bool" where
  "referred now db k \<longleftrightarrow> (\<exists>t r. reach now db t r \<and> k \<in> set (row_references r))"

section \<open>The export is the closure of the roots\<close>

text \<open>Artifacts have distinct identifiers of their own kind.\<close>

definition artifacts_ok :: "transfer_db \<Rightarrow> bool" where
  "artifacts_ok db \<longleftrightarrow>
     distinct (map (\<lambda>r. column r ''id'') (td_rows db ''artifacts'')) \<and>
     (\<forall>r \<in> set (td_rows db ''artifacts''). \<exists>k. column r ''id'' = Some k \<and> reference_table k = ''artifacts'')"

abbreviation rows_with :: "json \<Rightarrow> transfer_db \<Rightarrow> string \<Rightarrow> string \<Rightarrow> string \<Rightarrow> row set" where
  "rows_with now db table key k \<equiv> set (transferRows now db table (\<lambda>r. column r key = Some k))"

lemma rows_in:
  "set (transferRows now db table (\<lambda>r. column_in r key vs)) = (\<Union>k \<in> set vs. rows_with now db table key k)"
  by (auto simp: transferRows_def column_in_def split: option.splits)

lemma artifact_rows: "transferRows now db ''artifacts'' cond = filter cond (td_rows db ''artifacts'')"
proof -
  have "reset_connectivity now ''artifacts'' = (\<lambda>r. r)" by (simp add: fun_eq_iff reset_connectivity_def)
  then show ?thesis by (simp add: transferRows_def)
qed

lemma column_String: "column r key = Some k \<Longrightarrow> row_String r key = k"
  by (auto simp: column_def row_String_def split: option.splits json.splits)

lemma artifact_unique:
  assumes "artifacts_ok db" and "a \<in> set (td_rows db ''artifacts'')"
  shows "reference_table (row_String a ''id'') = ''artifacts''"
    and "rows_with now db ''artifacts'' ''id'' (row_String a ''id'') = {a}"
proof -
  obtain k where k: "column a ''id'' = Some k" "reference_table k = ''artifacts''"
    using assms by (auto simp: artifacts_ok_def)
  then have "row_String a ''id'' = k" by (simp add: column_String)
  with k show "reference_table (row_String a ''id'') = ''artifacts''" by simp
  have inj: "inj_on (\<lambda>r. column r ''id'') (set (td_rows db ''artifacts''))"
    using assms(1) by (simp add: artifacts_ok_def distinct_map)
  have "b = a" if "b \<in> set (td_rows db ''artifacts'')" "column b ''id'' = Some k" for b
    by (rule inj_onD [OF inj]) (use that k(1) assms(2) in simp_all)
  then have "set (filter (\<lambda>r. column r ''id'' = Some k) (td_rows db ''artifacts'')) = {a}"
    unfolding set_filter using k(1) assms(2) by blast
  with \<open>row_String a ''id'' = k\<close> show "rows_with now db ''artifacts'' ''id'' (row_String a ''id'') = {a}"
    by (simp only: artifact_rows)
qed

text \<open>A state grows by rows and by references met.\<close>

definition extends_export :: "export_state \<Rightarrow> export_state \<Rightarrow> bool" where
  "extends_export st st' \<longleftrightarrow> (\<forall>t. set (ex_tables st t) \<subseteq> set (ex_tables st' t)) \<and> set (ex_seen st) \<subseteq> set (ex_seen st')"

lemma extends_refl [simp]: "extends_export st st"
  by (simp add: extends_export_def)

lemma extends_trans: "extends_export a b \<Longrightarrow> extends_export b c \<Longrightarrow> extends_export a c"
  unfolding extends_export_def by blast

lemma extends_add_rows [simp]: "extends_export st (add_rows t rs st)"
  by (simp add: extends_export_def add_rows_def)

lemma add_rows_simps [simp]:
  "ex_tables (add_rows t rs st) u = ex_tables st u @ (if u = t then rs else [])" "ex_seen (add_rows t rs st) = ex_seen st"
  by (simp_all add: add_rows_def)

text \<open>A reference is fetched when its record is there and what belongs to it is there or met.\<close>

definition fetched :: "json \<Rightarrow> transfer_db \<Rightarrow> export_state \<Rightarrow> string \<Rightarrow> bool" where
  "fetched now db st k \<longleftrightarrow>
     rows_with now db (reference_table k) ''id'' k \<subseteq> set (ex_tables st (reference_table k)) \<and>
     (reference_table k = ''operations'' \<longrightarrow>
        rows_with now db ''operation_steps'' ''operation_id'' k \<subseteq> set (ex_tables st ''operation_steps'') \<and>
        (\<forall>a \<in> rows_with now db ''artifacts'' ''operation_id'' k. row_String a ''id'' \<in> set (ex_seen st))) \<and>
     (reference_table k = ''pipeline_runs'' \<longrightarrow>
        rows_with now db ''pipeline_run_stages'' ''run_id'' k \<subseteq> set (ex_tables st ''pipeline_run_stages''))"

lemma fetched_mono: "fetched now db st k \<Longrightarrow> extends_export st st' \<Longrightarrow> fetched now db st' k"
  unfolding fetched_def extends_export_def by blast

lemma fetched_artifact:
  assumes "artifacts_ok db" and "a \<in> set (td_rows db ''artifacts'')" and "a \<in> set (ex_tables st ''artifacts'')"
  shows "fetched now db st (row_String a ''id'')"
  using artifact_unique [OF assms(1,2)] assms(3) by (simp add: fetched_def)

lemma add_artifact_simps:
  "ex_tables (add_artifact a st) t =
     (if row_String a ''id'' \<in> set (ex_seen st) \<or> t \<noteq> ''artifacts'' then ex_tables st t else ex_tables st t @ [a])"
  "set (ex_seen (add_artifact a st)) = insert (row_String a ''id'') (set (ex_seen st))"
  by (auto simp: add_artifact_def Let_def)

lemma extends_add_artifact: "extends_export st (add_artifact a st)"
  by (auto simp: extends_export_def add_artifact_simps)

lemma extends_fold_artifact: "extends_export st (fold add_artifact rs st)"
proof (induction rs arbitrary: st)
  case (Cons a rs)
  then show ?case using extends_trans [OF extends_add_artifact] by (metis fold_simps(2))
qed simp

lemma fold_artifact_other: "t \<noteq> ''artifacts'' \<Longrightarrow> ex_tables (fold add_artifact rs st) t = ex_tables st t"
  by (induction rs arbitrary: st) (simp_all add: add_artifact_simps)

lemma fold_artifact_rows:
  "set (ex_tables (fold add_artifact rs st) ''artifacts'') \<subseteq> set (ex_tables st ''artifacts'') \<union> set rs"
proof (induction rs arbitrary: st)
  case (Cons a rs)
  have "set (ex_tables (add_artifact a st) ''artifacts'') \<subseteq> insert a (set (ex_tables st ''artifacts''))"
    by (auto simp: add_artifact_simps)
  with Cons [of "add_artifact a st"] show ?case by auto
qed simp

lemma fold_artifact_seen:
  "set (ex_seen (fold add_artifact rs st)) = set (ex_seen st) \<union> (\<lambda>a. row_String a ''id'') ` set rs"
  by (induction rs arbitrary: st) (auto simp: add_artifact_simps)

lemma fold_artifact_added:
  assumes "k \<in> set (ex_seen (fold add_artifact rs st))"
  shows "k \<in> set (ex_seen st) \<or>
     (\<exists>a \<in> set rs. k = row_String a ''id'' \<and> a \<in> set (ex_tables (fold add_artifact rs st) ''artifacts''))"
  using assms
proof (induction rs arbitrary: st)
  case (Cons a rs)
  let ?st = "add_artifact a st"
  have later: "set (ex_tables ?st ''artifacts'') \<subseteq> set (ex_tables (fold add_artifact rs ?st) ''artifacts'')"
    using extends_fold_artifact [of ?st rs] by (simp add: extends_export_def)
  have "k = row_String a ''id'' \<and> a \<in> set (ex_tables ?st ''artifacts'')" if "k \<in> set (ex_seen ?st)" "k \<notin> set (ex_seen st)"
    using that by (auto simp: add_artifact_simps)
  with Cons.IH [of ?st] Cons.prems later show ?case by auto
qed simp

text \<open>Rows are only added for what a copied row refers to.\<close>

definition sound :: "json \<Rightarrow> transfer_db \<Rightarrow> export_state \<Rightarrow> bool" where
  "sound now db st \<longleftrightarrow> (\<forall>t. \<forall>r \<in> set (ex_tables st t). reach now db t r)"

lemma sound_add_rows: "sound now db st \<Longrightarrow> (\<And>r. r \<in> set rs \<Longrightarrow> reach now db t r) \<Longrightarrow> sound now db (add_rows t rs st)"
  by (auto simp: sound_def)

lemma sound_fold_artifact:
  assumes "sound now db st" and "\<And>a. a \<in> set rs \<Longrightarrow> reach now db ''artifacts'' a"
  shows "sound now db (fold add_artifact rs st)"
proof -
  have "reach now db t r" if r: "r \<in> set (ex_tables (fold add_artifact rs st) t)" for t r
  proof (cases "t = ''artifacts''")
    case True
    with r fold_artifact_rows [of rs st] have "r \<in> set (ex_tables st ''artifacts'') \<or> r \<in> set rs" by blast
    with True assms show ?thesis by (auto simp: sound_def)
  next
    case False
    with r assms(1) show ?thesis by (simp add: fold_artifact_other sound_def)
  qed
  then show ?thesis by (simp add: sound_def)
qed

lemma reach_referred:
  assumes "referred now db k"
  shows "r \<in> rows_with now db (reference_table k) ''id'' k \<Longrightarrow> reach now db (reference_table k) r"
    and "reference_table k = ''operations'' \<Longrightarrow> r \<in> rows_with now db ''operation_steps'' ''operation_id'' k \<Longrightarrow> reach now db ''operation_steps'' r"
    and "reference_table k = ''operations'' \<Longrightarrow> r \<in> rows_with now db ''artifacts'' ''operation_id'' k \<Longrightarrow> reach now db ''artifacts'' r"
    and "reference_table k = ''pipeline_runs'' \<Longrightarrow> r \<in> rows_with now db ''pipeline_run_stages'' ''run_id'' k \<Longrightarrow> reach now db ''pipeline_run_stages'' r"
  using assms unfolding referred_def by (blast intro: reach.intros)+

lemma process_table_step:
  assumes ok: "artifacts_ok db" and step: "process_table now db pending t st = Inr st'"
    and sound: "sound now db st" and referred: "\<And>k. k \<in> set pending \<Longrightarrow> referred now db k"
  shows "extends_export st st'" and "sound now db st'"
    and "k \<in> set pending \<Longrightarrow> reference_table k = t \<Longrightarrow> fetched now db st' k \<and> \<not> experiment_bound db k"
    and "k \<in> set (ex_seen st') \<Longrightarrow> k \<notin> set (ex_seen st) \<Longrightarrow> fetched now db st' k \<and> reference_table k = ''artifacts''"
proof -
  define ids where "ids = filter (\<lambda>k. reference_table k = t) pending"
  define as where "as = transferRows now db ''artifacts'' (\<lambda>r. column_in r ''operation_id'' ids)"
  define st1 where "st1 = add_rows t (transferRows now db t (\<lambda>r. column_in r ''id'' ids)) st"
  define st2 where "st2 = add_rows ''operation_steps'' (transferRows now db ''operation_steps'' (\<lambda>r. column_in r ''operation_id'' ids)) st1"
  define st3 where "st3 = add_rows ''pipeline_run_stages'' (transferRows now db ''pipeline_run_stages'' (\<lambda>r. column_in r ''run_id'' ids)) st1"
  have bound: "\<not> list_ex (experiment_bound db) ids" using step by (auto simp: process_table_def ids_def Let_def split: if_splits)
  have st': "st' = (if t = ''operations'' then fold add_artifact as st2 else if t = ''pipeline_runs'' then st3 else st1)"
    using step bound by (auto simp: process_table_def ids_def [symmetric] as_def st1_def st2_def st3_def Let_def)
  have ids: "k \<in> set pending \<and> reference_table k = t" if "k \<in> set ids" for k using that by (simp add: ids_def)
  have as: "a \<in> set (td_rows db ''artifacts'')" if "a \<in> set as" for a using that by (auto simp: as_def artifact_rows)
  have rows: "sound now db st1" "t = ''operations'' \<Longrightarrow> sound now db st2" "t = ''pipeline_runs'' \<Longrightarrow> sound now db st3"
    "t = ''operations'' \<Longrightarrow> a \<in> set as \<Longrightarrow> reach now db ''artifacts'' a" for a
  proof -
    show s1: "sound now db st1"
      unfolding st1_def by (rule sound_add_rows [OF sound]) (use ids reach_referred(1) [OF referred] in \<open>auto simp: rows_in\<close>)
    show "sound now db st2" if "t = ''operations''"
      unfolding st2_def by (rule sound_add_rows [OF s1]) (use ids that reach_referred(2) [OF referred] in \<open>auto simp: rows_in\<close>)
    show "sound now db st3" if "t = ''pipeline_runs''"
      unfolding st3_def by (rule sound_add_rows [OF s1]) (use ids that reach_referred(4) [OF referred] in \<open>auto simp: rows_in\<close>)
    show "reach now db ''artifacts'' a" if "t = ''operations''" "a \<in> set as"
      using ids that reach_referred(3) [OF referred] by (auto simp: as_def rows_in)
  qed
  show "sound now db st'"
    unfolding st' using rows sound_fold_artifact by (auto split: if_splits)
  have grow: "extends_export st st1" "extends_export st st2" "extends_export st st3" "extends_export st1 st2" "extends_export st1 st3"
    by (simp_all add: st1_def st2_def st3_def extends_trans [OF extends_add_rows extends_add_rows])
  show "extends_export st st'" unfolding st' using grow extends_trans [OF _ extends_fold_artifact] by auto
  show "fetched now db st' k \<and> \<not> experiment_bound db k" if k: "k \<in> set pending" "reference_table k = t"
  proof
    have k_ids: "k \<in> set ids" using k by (simp add: ids_def)
    then show "\<not> experiment_bound db k" using bound by (simp add: list_ex_iff)
    have r1: "rows_with now db t ''id'' k \<subseteq> set (ex_tables st1 t)" using k_ids by (auto simp: st1_def rows_in)
    have r2: "rows_with now db ''operation_steps'' ''operation_id'' k \<subseteq> set (ex_tables st2 ''operation_steps'')"
      using k_ids by (auto simp: st2_def rows_in)
    have r3: "rows_with now db ''pipeline_run_stages'' ''run_id'' k \<subseteq> set (ex_tables st3 ''pipeline_run_stages'')"
      using k_ids by (auto simp: st3_def rows_in)
    have r4: "rows_with now db ''artifacts'' ''operation_id'' k \<subseteq> set as" using k_ids by (auto simp: as_def rows_in)
    show "fetched now db st' k"
    proof (cases "t = ''operations''")
      case True
      have "extends_export st2 st'" using True by (simp add: st' extends_fold_artifact)
      moreover have "row_String a ''id'' \<in> set (ex_seen st')" if "a \<in> rows_with now db ''artifacts'' ''operation_id'' k" for a
        using True that r4 by (auto simp: st' fold_artifact_seen)
      ultimately show ?thesis using True r1 r2 k(2) grow(4) unfolding fetched_def extends_export_def by (simp, blast)
    next
      case False
      then show ?thesis using r1 r3 k(2) subset_trans [OF r1 grow(5) [unfolded extends_export_def, THEN conjunct1, rule_format]]
        unfolding fetched_def st' by auto
    qed
  qed
  show "fetched now db st' k \<and> reference_table k = ''artifacts''" if k: "k \<in> set (ex_seen st')" "k \<notin> set (ex_seen st)"
  proof -
    have "t = ''operations''" using k by (auto simp: st' st1_def st3_def split: if_splits)
    then have "k \<in> set (ex_seen (fold add_artifact as st2))" and end_state: "st' = fold add_artifact as st2" using k(1) by (simp_all add: st')
    then obtain a where "a \<in> set as" "k = row_String a ''id''" "a \<in> set (ex_tables st' ''artifacts'')"
      using fold_artifact_added [of k as st2] k(2) by (auto simp: st2_def st1_def)
    with as fetched_artifact [OF ok, of a st' now] artifact_unique(1) [OF ok] show ?thesis by auto
  qed
qed

lemma process_tables:
  assumes ok: "artifacts_ok db" and ref: "\<And>k. k \<in> set pending \<Longrightarrow> referred now db k"
    and "fold_err (process_table now db pending) ts st = Inr st'" and "sound now db st"
  shows "extends_export st st' \<and> sound now db st' \<and>
    (\<forall>k \<in> set pending. reference_table k \<in> set ts \<longrightarrow> fetched now db st' k \<and> \<not> experiment_bound db k) \<and>
    (\<forall>k \<in> set (ex_seen st') - set (ex_seen st). fetched now db st' k \<and> reference_table k = ''artifacts'')"
  using assms(3,4)
proof (induction ts arbitrary: st)
  case (Cons t ts)
  then obtain st1 where step: "process_table now db pending t st = Inr st1" and rest: "fold_err (process_table now db pending) ts st1 = Inr st'"
    by (auto split: sum.splits)
  note one = process_table_step [OF ok step Cons.prems(2) ref]
  note later = Cons.IH [OF rest one(2)]
  then have extends_export: "extends_export st1 st'" by blast
  show ?case
  proof (intro conjI ballI impI)
    show "extends_export st st'" using extends_trans [OF one(1) extends_export] .
    show "sound now db st'" using later by blast
    show "fetched now db st' k" "\<not> experiment_bound db k" if "k \<in> set pending" "reference_table k \<in> set (t # ts)" for k
      using later one(3) [of k] that fetched_mono [OF _ extends_export, of now db k] by auto
    show "fetched now db st' k" "reference_table k = ''artifacts''" if "k \<in> set (ex_seen st') - set (ex_seen st)" for k
      using later one(4) [of k] that fetched_mono [OF _ extends_export, of now db k] by (cases "k \<in> set (ex_seen st1)"; blast)+
  qed
qed simp

lemma process_tables_error:
  "fold_err (process_table now db pending) ts st = Inl e \<Longrightarrow> e = ExperimentReferenced \<and> (\<exists>k \<in> set pending. experiment_bound db k)"
proof (induction ts arbitrary: st)
  case (Cons t ts)
  show ?case
  proof (cases "process_table now db pending t st")
    case (Inl f)
    with Cons.prems show ?thesis by (auto simp: process_table_def Let_def list_ex_iff split: if_splits)
  next
    case (Inr st1)
    with Cons show ?thesis by auto
  qed
qed simp

lemma pending_set:
  assumes "\<And>xs. set (visit xs) = set xs"
  shows "set (pending_references visit st) =
    (\<Union>t \<in> set transferTables. \<Union>r \<in> set (ex_tables st t). set (row_references r)) - set (ex_seen st)"
proof -
  have "set (fold (\<lambda>key found. if key \<in> S \<or> key \<in> set found then found else found @ [key]) ks acc) = set acc \<union> (set ks - S)"
    for S and ks acc :: "string list"
    by (induction ks arbitrary: acc) auto
  then show ?thesis using assms by (simp add: pending_references_def)
qed

lemma reference_table_known: "reference_table k \<in> set transferTables"
  by (simp add: reference_table_def transferTables_def)

lemma roots_known: "set transferRoots \<subseteq> set transferTables"
  by (simp add: transferRoots_def transferTables_def)

lemma reach_known:
  "reach now db t r \<Longrightarrow> t \<in> set transferTables \<and> r \<in> set (transferRows now db t (\<lambda>_. True))"
proof (induction rule: reach.induct)
  case (reach_root r t)
  then have "t \<in> set transferRoots" "r \<in> set (transferRows now db t (root_condition db t))"
    by (auto simp: root_rows_def split: if_splits)
  with roots_known show ?case by (auto simp: transferRows_def)
next
  case (reach_record t r k r')
  then show ?case using reference_table_known [of k] by (auto simp: transferRows_def)
qed (auto simp: transferRows_def transferTables_def)

definition all_references :: "json \<Rightarrow> transfer_db \<Rightarrow> string set" where
  "all_references now db = (\<Union>t \<in> set transferTables. \<Union>r \<in> set (transferRows now db t (\<lambda>_. True)). set (row_references r))"

lemma finite_all_references: "finite (all_references now db)"
  by (simp add: all_references_def)

definition export_inv :: "json \<Rightarrow> transfer_db \<Rightarrow> export_state \<Rightarrow> bool" where
  "export_inv now db st \<longleftrightarrow>
     sound now db st \<and> (\<forall>t. set (root_rows now db t) \<subseteq> set (ex_tables st t)) \<and>
     (\<forall>k \<in> set (ex_seen st). fetched now db st k \<and> \<not> experiment_bound db k)"

lemma export_inv_start: "export_inv now db (export_start now db)"
  by (auto simp: export_inv_def export_start_def sound_def intro: reach_root)

lemma artifact_unbound: "reference_table k = ''artifacts'' \<Longrightarrow> \<not> experiment_bound db k"
  by (simp add: experiment_bound_def)

lemma export_round_inv:
  assumes ok: "artifacts_ok db" and visit: "\<And>xs. set (visit xs) = set xs" and inv: "export_inv now db st"
    and ref: "\<And>k. k \<in> set pending \<Longrightarrow> referred now db k" and round: "export_round now visit db pending st = Inr st'"
  shows "export_inv now db st'" and "set (ex_seen st) \<union> set pending \<subseteq> set (ex_seen st')"
proof -
  let ?st = "st\<lparr>ex_seen := pending @ ex_seen st\<rparr>"
  have grow0: "extends_export st ?st" by (simp add: extends_export_def)
  have "sound now db ?st" using inv by (simp add: export_inv_def sound_def)
  note step = process_tables [OF ok ref round [unfolded export_round_def] this]
  then have grow: "extends_export ?st st'" by blast
  then show "set (ex_seen st) \<union> set pending \<subseteq> set (ex_seen st')" by (auto simp: extends_export_def)
  have "fetched now db st' k \<and> \<not> experiment_bound db k" if "k \<in> set (ex_seen st')" for k
  proof -
    consider "k \<in> set (ex_seen st)" | "k \<in> set pending" | "k \<in> set (ex_seen st') - set (ex_seen ?st)" using \<open>k \<in> set (ex_seen st')\<close> by auto
    then show ?thesis
    proof cases
      case 1
      then show ?thesis using inv fetched_mono [OF _ extends_trans [OF grow0 grow]] by (simp add: export_inv_def)
    next
      case 2
      then show ?thesis using step visit by simp
    next
      case 3
      then show ?thesis using step artifact_unbound by blast
    qed
  qed
  moreover have "set (root_rows now db t) \<subseteq> set (ex_tables st' t)" for t
    using inv grow unfolding export_inv_def extends_export_def by (metis (no_types, lifting) export_state.select_convs(1) export_state.surjective export_state.update_convs(2) subset_trans)
  ultimately show "export_inv now db st'" using step unfolding export_inv_def by blast
qed

text \<open>When no reference is pending, the tables are closed.\<close>

lemma closed_tables:
  assumes ok: "artifacts_ok db" and inv: "export_inv now db st"
    and closed: "\<And>t r k. t \<in> set transferTables \<Longrightarrow> r \<in> set (ex_tables st t) \<Longrightarrow> k \<in> set (row_references r) \<Longrightarrow> k \<in> set (ex_seen st)"
  shows "reach now db t r \<Longrightarrow> r \<in> set (ex_tables st t)"
proof (induction rule: reach.induct)
  case (reach_root r t)
  then show ?case using inv unfolding export_inv_def by blast
next
  case (reach_artifact t r k r')
  have known: "t \<in> set transferTables" using reach_known [OF reach_artifact.hyps(1)] by simp
  have "fetched now db st k" using closed [OF known reach_artifact.IH reach_artifact.hyps(2)] inv by (simp add: export_inv_def)
  then have seen: "row_String r' ''id'' \<in> set (ex_seen st)" using reach_artifact.hyps(3,4) by (simp add: fetched_def)
  have artifact: "r' \<in> set (td_rows db ''artifacts'')" using reach_artifact.hyps(4) by (simp add: artifact_rows)
  have "fetched now db st (row_String r' ''id'')" using seen inv by (simp add: export_inv_def)
  with artifact_unique [OF ok artifact] show ?case by (simp add: fetched_def)
next
  case (reach_record t r k r')
  have "fetched now db st k"
    using closed [OF _ reach_record.IH reach_record.hyps(2)] reach_known [OF reach_record.hyps(1)] inv by (simp add: export_inv_def)
  with reach_record.hyps(3) show ?case by (auto simp: fetched_def)
next
  case (reach_step t r k r')
  have "fetched now db st k"
    using closed [OF _ reach_step.IH reach_step.hyps(2)] reach_known [OF reach_step.hyps(1)] inv by (simp add: export_inv_def)
  with reach_step.hyps(3,4) show ?case by (auto simp: fetched_def)
next
  case (reach_stage t r k r')
  have "fetched now db st k"
    using closed [OF _ reach_stage.IH reach_stage.hyps(2)] reach_known [OF reach_stage.hyps(1)] inv by (simp add: export_inv_def)
  with reach_stage.hyps(3,4) show ?case by (auto simp: fetched_def)
qed

text \<open>The outcome of the loop, as a specification.\<close>

definition export_outcome :: "json \<Rightarrow> transfer_db \<Rightarrow> (transfer_error + export_state) option \<Rightarrow> bool" where
  "export_outcome now db r \<longleftrightarrow>
     (case r of
        None \<Rightarrow> False
      | Some (Inl e) \<Rightarrow> e = ExperimentReferenced \<and> (\<exists>k. referred now db k \<and> experiment_bound db k)
      | Some (Inr st) \<Rightarrow>
          (\<forall>t. set (ex_tables st t) = {r. reach now db t r}) \<and> \<not> (\<exists>k. referred now db k \<and> experiment_bound db k))"

lemma export_loop_outcome:
  assumes ok: "artifacts_ok db" and visit: "\<And>xs. set (visit xs) = set xs"
  shows "export_inv now db st \<Longrightarrow> export_outcome now db (export_loop now visit db st)"
proof (induction "card (all_references now db - set (ex_seen st))" arbitrary: st rule: less_induct)
  case less
  let ?pending = "pending_references visit st"
  have pending: "k \<in> set ?pending \<longleftrightarrow> (\<exists>t \<in> set transferTables. \<exists>r \<in> set (ex_tables st t). k \<in> set (row_references r)) \<and> k \<notin> set (ex_seen st)" for k
    unfolding pending_set [OF visit] by blast
  have reach: "r \<in> set (ex_tables st t) \<Longrightarrow> reach now db t r" for t r using less.prems by (auto simp: export_inv_def sound_def)
  have ref: "referred now db k" if "k \<in> set ?pending" for k using that pending reach unfolding referred_def by blast
  show ?case
  proof (cases "?pending = []")
    case True
    have closed: "k \<in> set (ex_seen st)" if "t \<in> set transferTables" "r \<in> set (ex_tables st t)" "k \<in> set (row_references r)" for t r k
      using that pending [of k] True by auto
    have conv: "reach now db t r \<Longrightarrow> r \<in> set (ex_tables st t)" for t r
      by (rule closed_tables [OF ok less.prems]) (rule closed, assumption+)
    with reach have all: "r \<in> set (ex_tables st t) \<longleftrightarrow> reach now db t r" for t r by blast
    have "\<not> experiment_bound db k" if "referred now db k" for k
      using that all closed reach_known less.prems unfolding referred_def export_inv_def by blast
    with True all show ?thesis by (subst export_loop.simps) (auto simp: export_outcome_def Let_def)
  next
    case False
    show ?thesis
    proof (cases "export_round now visit db ?pending st")
      case (Inl e)
      with process_tables_error [OF Inl [unfolded export_round_def]] ref False show ?thesis
        by (subst export_loop.simps) (auto simp: export_outcome_def Let_def)
    next
      case (Inr st')
      note step = export_round_inv [OF ok visit less.prems ref Inr]
      obtain k where k: "k \<in> set ?pending" using False by (cases ?pending) auto
      obtain t r where tr: "r \<in> set (ex_tables st t)" "k \<in> set (row_references r)" and new: "k \<notin> set (ex_seen st)"
        using k pending by blast
      have "k \<in> all_references now db"
        unfolding all_references_def using reach_known [OF reach [OF tr(1)]] tr(2) by blast
      then have "all_references now db - set (ex_seen st') \<subset> all_references now db - set (ex_seen st)"
        using step(2) k new by blast
      then have "card (all_references now db - set (ex_seen st')) < card (all_references now db - set (ex_seen st))"
        by (intro psubset_card_mono) (simp_all add: finite_all_references)
      from less.hyps [OF this step(1)] Inr False show ?thesis by (subst export_loop.simps) (simp add: Let_def)
    qed
  qed
qed

text \<open>
  C25: The export follows references until nothing new is found, and always ends. It then holds exactly the
  rows reachable from the roots: the roots themselves, the record of every reference in a copied
  row, the steps and artifacts of every operation and the stages of every run referred to, and no
  other operation, artifact or run. It fails exactly when a copied row refers to an operation or a
  run of an experiment.
\<close>

theorem export_closure:
  assumes "artifacts_ok db" and "\<And>xs. set (visit xs) = set xs"
  shows "(case export_loop now visit db (export_start now db) of
      None \<Rightarrow> False
    | Some (Inl e) \<Rightarrow> e = ExperimentReferenced \<and> (\<exists>k. referred now db k \<and> experiment_bound db k)
    | Some (Inr st) \<Rightarrow>
        (\<forall>t. set (ex_tables st t) = {r. reach now db t r}) \<and> \<not> (\<exists>k. referred now db k \<and> experiment_bound db k))"
  using export_loop_outcome [OF assms export_inv_start] unfolding export_outcome_def .

section \<open>An export\<close>

definition sample_operation_id :: string where
  "sample_operation_id = ''op_'' @ replicate 24 CHR ''0''"

definition transfer_sample_row :: row where
  "transfer_sample_row = [(''id'', JStr ''res''), (''operation_id'', JStr sample_operation_id)]"

definition sample_artifact :: row where
  "sample_artifact = [(''id'', JStr (''art_'' @ replicate 24 CHR ''1'')), (''operation_id'', JStr sample_operation_id)]"

definition transfer_sample_db :: transfer_db where
  "transfer_sample_db =
     \<lparr>td_rows = (\<lambda>t. if t = ''strategy_catalog'' then [transfer_sample_row] else if t = ''artifacts'' then [sample_artifact] else []),
      td_schema = []\<rparr>"

lemma sample_artifacts_ok: "artifacts_ok transfer_sample_db"
  by (simp add: artifacts_ok_def transfer_sample_db_def sample_artifact_def column_def reference_table_def has_prefix_def)

lemma sample_unbound: "\<not> experiment_bound transfer_sample_db k"
  by (simp add: experiment_bound_def trial_of_operation_def trial_of_run_def stage_of_trial_def transfer_sample_db_def)

lemma exactly_replicate: "p c \<Longrightarrow> replicate n c \<in> lang (exactly n (Class p))"
proof (induction n)
  case (Suc n)
  then have "[c] @ replicate n c \<in> conc (lang (Class p)) (lang (exactly n (Class p)))" by (intro concI) simp_all
  then show ?case by simp
qed simp

lemma sample_row_reference: "sample_operation_id \<in> set (row_references transfer_sample_row)"
proof -
  have "replicate 24 CHR ''0'' \<in> lang (exactly 24 (Class lower_hex))"
    by (rule exactly_replicate) (simp add: lower_hex_def is_digit_def)
  moreover have "sample_operation_id = ''op'' @ ''_'' @ replicate 24 CHR ''0''" by (simp add: sample_operation_id_def)
  ultimately have "MatchString transferReference sample_operation_id"
    unfolding match_lang transferReference_def
    by (simp add: conc_def) (rule exI [of _ "''op''"], rule exI [of _ "''_'' @ replicate 24 CHR ''0''"], simp)
  then show ?thesis by (simp add: row_references_def transfer_sample_row_def)
qed

lemma sample_reached: "reach JNull transfer_sample_db ''artifacts'' sample_artifact"
proof (rule reach_artifact [where t = "''strategy_catalog''" and r = transfer_sample_row])
  show "reach JNull transfer_sample_db ''strategy_catalog'' transfer_sample_row"
    by (rule reach_root) (simp add: root_rows_def transferRoots_def transferRows_def root_condition_def transfer_sample_db_def reset_connectivity_def)
  show "reference_table sample_operation_id = ''operations''"
    by (simp add: reference_table_def sample_operation_id_def has_prefix_def)
  show "sample_artifact \<in> rows_with JNull transfer_sample_db ''artifacts'' ''operation_id'' sample_operation_id"
    by (simp add: artifact_rows) (simp add: transfer_sample_db_def sample_artifact_def column_def)
qed (rule sample_row_reference)

theorem export_closure_witness:
  "\<exists>st. export_loop JNull rev transfer_sample_db (export_start JNull transfer_sample_db) = Some (Inr st) \<and>
     sample_artifact \<in> set (ex_tables st ''artifacts'')"
  using export_closure [OF sample_artifacts_ok, of rev JNull] sample_unbound sample_reached
  by (auto split: option.splits sum.splits)

end
