(* ===== verification/StateImport.thy ===== *)
theory StateImport
  imports StateTransfer Schema
begin

text \<open>
  The secrets and objects of an instance on their way through an archive (\<open>api/transfer.go\<close>): on
  export the credentials and artifacts are decrypted with the vault of the source and leave its
  tables, on import they are encrypted with the vault of the destination. \<open>storage/transfer.go\<close>
  checks an archive and imports it in one transaction.
\<close>

section \<open>Binary columns\<close>

text \<open>A binary column is the text \<open>\x\<close> followed by hexadecimal digits.\<close>

definition bytea_mark :: string where
  "bytea_mark = [CHR 0x5C, CHR ''x'']"

definition hex_value :: "char \<Rightarrow> nat option" where
  "hex_value c =
     (let lower = takeWhile (\<lambda>d. d \<noteq> c) ''0123456789abcdef''; upper = takeWhile (\<lambda>d. d \<noteq> c) ''ABCDEF''
      in if length lower < 16 then Some (length lower)
         else if length upper < 6 then Some (10 + length upper) else None)"

fun hex_decode :: "string \<Rightarrow> string option" where
  "hex_decode [] = Some []"
| "hex_decode [c] = None"
| "hex_decode (a # b # s) =
     (case (hex_value a, hex_value b, hex_decode s) of
        (Some x, Some y, Some r) \<Rightarrow> Some (char_of (16 * x + y) # r)
      | _ \<Rightarrow> None)"

definition bytea :: "row \<Rightarrow> string \<Rightarrow> string option" where
  "bytea r key =
     (let v = row_String r key in if \<not> has_prefix bytea_mark v then None else hex_decode (drop 2 v))"

definition setBytea :: "row \<Rightarrow> string \<Rightarrow> string \<Rightarrow> row" where
  "setBytea r key v = row_Set r key (JStr (bytea_mark @ hex_text v))"

lemma hex_value_digit: "n < 16 \<Longrightarrow> hex_value (hex_digit n) = Some n"
proof -
  assume "n < 16"
  then have "n \<in> {0, 1, 2, 3, 4, 5, 6, 7, 8, 9, 10, 11, 12, 13, 14, 15}" by (simp, presburger)
  then show ?thesis by (elim insertE) (simp_all add: hex_value_def hex_digit_def)
qed

lemma hex_text_Cons: "hex_text (c # s) = hex_digit (of_char c div 16) # hex_digit (of_char c mod 16) # hex_text s"
  by (simp add: hex_text_def)

lemma hex_round_trip: "hex_decode (hex_text s) = Some s"
proof (induction s)
  case (Cons c s)
  have "(of_char c :: nat) mod 256 = of_char c" by simp
  then have "(of_char c :: nat) < 256" by (metis mod_less_divisor zero_less_numeral)
  then have "(of_char c :: nat) div 16 < 16" by (simp add: div_less_iff_less_mult)
  with Cons show ?case by (simp add: hex_text_Cons hex_value_digit)
qed (simp add: hex_text_def)

lemma row_String_Set: "row_String (row_Set r key v) key' = (if key' = key then (case v of JStr s \<Rightarrow> s | _ \<Rightarrow> []) else row_String r key')"
  by (simp add: row_String_def row_Set_def map_of_obj_set split: json.splits)

lemma bytea_set: "bytea (setBytea r key v) key' = (if key' = key then Some v else bytea r key')"
  by (simp add: bytea_def setBytea_def row_String_Set bytea_mark_def has_prefix_def hex_round_trip)

lemma bytea_Set_other: "key' \<noteq> key \<Longrightarrow> bytea (row_Set r key v) key' = bytea r key'"
  by (simp add: bytea_def row_String_Set)

section \<open>Credentials\<close>

datatype secret_error =
    CredentialNonce
  | CredentialUnreadable
  | ArtifactMetadata
  | ArtifactUnreadable
  | ArtifactsTooLarge
  | TransferArchive

text \<open>The secret a row of the credentials holds, read with a vault.\<close>

definition stored_secret :: "primitives \<Rightarrow> string \<Rightarrow> row \<Rightarrow> secret_error + string" where
  "stored_secret L key r =
     (case bytea r ''nonce'' of
        None \<Rightarrow> Inl CredentialNonce
      | Some nonce \<Rightarrow>
          if length nonce \<noteq> 12 then Inl CredentialNonce
          else case bytea r ''ciphertext'' of
            None \<Rightarrow> Inl CredentialUnreadable
          | Some ciphertext \<Rightarrow>
              (case vault_Decrypt L key nonce ciphertext of None \<Rightarrow> Inl CredentialUnreadable | Some plain \<Rightarrow> Inr plain))"

text \<open>One iteration of the loop over the credentials on export: the rows done and the secrets collected.\<close>

definition export_credential ::
  "primitives \<Rightarrow> string \<Rightarrow> row \<Rightarrow> row list \<times> (string \<times> string) list \<Rightarrow> secret_error + row list \<times> (string \<times> string) list" where
  "export_credential L key r st =
     (case st of (rows, secrets) \<Rightarrow>
        (case stored_secret L key r of
           Inl e \<Rightarrow> Inl e
         | Inr plain \<Rightarrow>
             Inr (rows @ [row_Set (row_Set r ''nonce'' JNull) ''ciphertext'' JNull],
                  obj_set (row_String r ''id'') plain secrets)))"

definition export_credentials :: "primitives \<Rightarrow> string \<Rightarrow> row list \<Rightarrow> secret_error + row list \<times> (string \<times> string) list" where
  "export_credentials L key rows = fold_err (export_credential L key) rows ([], [])"

text \<open>
  One iteration of the loop on import: the vault of the destination encrypts the secret under a
  fresh nonce; \<open>valid_json\<close> is \<open>json.Valid\<close>.
\<close>

definition import_credential ::
  "primitives \<Rightarrow> (string \<Rightarrow> bool) \<Rightarrow> string \<Rightarrow> (string \<times> string) list \<Rightarrow> row \<times> string \<Rightarrow> row list \<Rightarrow> secret_error + row list" where
  "import_credential L valid_json key secrets rn rows =
     (case rn of (r, nonce) \<Rightarrow>
        (case map_of secrets (row_String r ''id'') of
           None \<Rightarrow> Inl TransferArchive
         | Some plain \<Rightarrow>
             if \<not> valid_json plain then Inl TransferArchive
             else (case vault_Encrypt L key nonce plain of (n, ciphertext, fingerprint) \<Rightarrow>
               Inr (rows @ [row_Set (setBytea (setBytea r ''nonce'' n) ''ciphertext'' ciphertext) ''fingerprint'' (JStr fingerprint)]))))"

definition import_credentials ::
  "primitives \<Rightarrow> (string \<Rightarrow> bool) \<Rightarrow> string \<Rightarrow> string list \<Rightarrow> row list \<Rightarrow> (string \<times> string) list \<Rightarrow> secret_error + row list" where
  "import_credentials L valid_json key nonces rows secrets =
     (if length secrets \<noteq> length rows then Inl TransferArchive
      else fold_err (import_credential L valid_json key secrets) (zip rows nonces) [])"

text \<open>A row after the transfer: the same secret under the other vault, and every other column unchanged.\<close>

definition transferred :: "primitives \<Rightarrow> string \<Rightarrow> string \<Rightarrow> row \<Rightarrow> row \<Rightarrow> bool" where
  "transferred L source target r r' \<longleftrightarrow>
     (\<exists>plain. stored_secret L source r = Inr plain \<and> stored_secret L target r' = Inr plain) \<and>
     (\<forall>k. k \<notin> {''nonce'', ''ciphertext'', ''fingerprint''} \<longrightarrow> map_of r' k = map_of r k)"

text \<open>Loops that append one result for each element.\<close>

lemma export_credential_pair:
  "export_credential L key r (rows, secrets) =
     (case stored_secret L key r of
        Inl e \<Rightarrow> Inl e
      | Inr plain \<Rightarrow>
          Inr (rows @ [row_Set (row_Set r ''nonce'' JNull) ''ciphertext'' JNull], obj_set (row_String r ''id'') plain secrets))"
  by (simp add: export_credential_def)

lemma import_credential_pair:
  "import_credential L valid_json key secrets (r, nonce) rows =
     (case map_of secrets (row_String r ''id'') of
        None \<Rightarrow> Inl TransferArchive
      | Some plain \<Rightarrow>
          if \<not> valid_json plain then Inl TransferArchive
          else Inr (rows @ [row_Set (setBytea (setBytea r ''nonce'' nonce) ''ciphertext'' (pl_seal L key nonce plain [])) ''fingerprint''
              (JStr (hex_text (take 6 (pl_sha256 L plain))))]))"
  by (simp add: import_credential_def vault_Encrypt_def vault_EncryptBound_def split: option.splits)

lemma export_loop_list:
  assumes "fold_err (export_credential L key) rows (done1, secrets) = Inr (rows', secrets')"
  shows "\<exists>new. rows' = done1 @ new \<and> length new = length rows \<and>
     list_all2 (\<lambda>r n. n = row_Set (row_Set r ''nonce'' JNull) ''ciphertext'' JNull \<and> (\<exists>plain. stored_secret L key r = Inr plain)) rows new"
  using assms
proof (induction rows arbitrary: done1 secrets)
  case (Cons r rows)
  then obtain plain where plain: "stored_secret L key r = Inr plain"
    and rest: "fold_err (export_credential L key) rows (done1 @ [row_Set (row_Set r ''nonce'' JNull) ''ciphertext'' JNull],
        obj_set (row_String r ''id'') plain secrets) = Inr (rows', secrets')"
    by (auto simp: export_credential_pair split: sum.splits)
  from Cons.IH [OF rest] obtain new where "rows' = (done1 @ [row_Set (row_Set r ''nonce'' JNull) ''ciphertext'' JNull]) @ new"
    "length new = length rows"
    "list_all2 (\<lambda>r n. n = row_Set (row_Set r ''nonce'' JNull) ''ciphertext'' JNull \<and> (\<exists>plain. stored_secret L key r = Inr plain)) rows new"
    by blast
  then show ?case using plain by (intro exI [of _ "row_Set (row_Set r ''nonce'' JNull) ''ciphertext'' JNull # new"]) simp
qed simp

lemma export_secrets:
  assumes "fold_err (export_credential L key) rows (done1, secrets) = Inr (rows', secrets')"
    and "distinct (map (\<lambda>r. row_String r ''id'') rows)"
  shows "map_of secrets' k = (case find (\<lambda>r. row_String r ''id'' = k) rows of
      None \<Rightarrow> map_of secrets k
    | Some r \<Rightarrow> (case stored_secret L key r of Inl e \<Rightarrow> None | Inr plain \<Rightarrow> Some plain))"
  using assms
proof (induction rows arbitrary: done1 secrets)
  case (Cons r rows)
  then obtain plain where plain: "stored_secret L key r = Inr plain"
    and rest: "fold_err (export_credential L key) rows (done1 @ [row_Set (row_Set r ''nonce'' JNull) ''ciphertext'' JNull],
        obj_set (row_String r ''id'') plain secrets) = Inr (rows', secrets')"
    by (auto simp: export_credential_pair split: sum.splits)
  have "distinct (map (\<lambda>r. row_String r ''id'') rows)" using Cons.prems(2) by simp
  note IH = Cons.IH [OF rest this]
  show ?case
  proof (cases "row_String r ''id'' = k")
    case True
    have "row_String x ''id'' \<noteq> k" if "x \<in> set rows" for x
      using Cons.prems(2) True imageI [OF that, of "\<lambda>r. row_String r ''id''"] by auto
    then have "find (\<lambda>r. row_String r ''id'' = k) rows = None" unfolding find_None_iff by blast
    with True IH plain show ?thesis by (simp add: map_of_obj_set)
  next
    case False
    with IH show ?thesis by (simp add: map_of_obj_set split: option.split)
  qed
qed simp

lemma import_loop_list:
  assumes "fold_err (import_credential L valid_json key secrets) rns done1 = Inr rows'"
  shows "\<exists>new. rows' = done1 @ new \<and>
     list_all2 (\<lambda>(r, nonce) r'. \<exists>plain. map_of secrets (row_String r ''id'') = Some plain \<and>
       r' = row_Set (setBytea (setBytea r ''nonce'' nonce) ''ciphertext'' (pl_seal L key nonce plain [])) ''fingerprint''
          (JStr (hex_text (take 6 (pl_sha256 L plain))))) rns new"
  using assms
proof (induction rns arbitrary: done1)
  case (Cons rn rns)
  obtain r nonce where rn: "rn = (r, nonce)" by (cases rn)
  from Cons.prems rn obtain plain where plain: "map_of secrets (row_String r ''id'') = Some plain"
    and rest: "fold_err (import_credential L valid_json key secrets) rns
        (done1 @ [row_Set (setBytea (setBytea r ''nonce'' nonce) ''ciphertext'' (pl_seal L key nonce plain [])) ''fingerprint''
          (JStr (hex_text (take 6 (pl_sha256 L plain))))]) = Inr rows'"
    by (auto simp: import_credential_pair split: sum.splits option.splits if_splits)
  from Cons.IH [OF rest] plain rn show ?case by fastforce
qed simp

lemma imported_secret:
  assumes "cipher_laws L" and "length nonce = 12"
  shows "stored_secret L key (row_Set (setBytea (setBytea r ''nonce'' nonce) ''ciphertext'' (pl_seal L key nonce plain [])) ''fingerprint'' f) =
    Inr plain"
  using assms by (simp add: stored_secret_def bytea_Set_other bytea_set vault_Decrypt_def vault_DecryptBound_def cipher_open)


definition sample_credential :: row where
  "sample_credential =
     setBytea (setBytea [(''id'', JStr ''cred_1''), (''name'', JStr ''lab'')] ''nonce'' ''abcdefghijkl'') ''ciphertext''
       (pl_seal sample_primitives ''source'' ''abcdefghijkl'' ''{}'' [])"

definition moved_credential :: row where
  "moved_credential = row_Set (row_Set sample_credential ''nonce'' JNull) ''ciphertext'' JNull"

definition arrived_credential :: row where
  "arrived_credential =
     row_Set (setBytea (setBytea moved_credential ''nonce'' ''mnopqrstuvwx'') ''ciphertext''
       (pl_seal sample_primitives ''target'' ''mnopqrstuvwx'' ''{}'' [])) ''fingerprint''
       (JStr (hex_text (take 6 (pl_sha256 sample_primitives ''{}''))))"

lemma sample_credential_secret: "stored_secret sample_primitives ''source'' sample_credential = Inr ''{}''"
  by (simp add: sample_credential_def stored_secret_def bytea_set vault_Decrypt_def vault_DecryptBound_def cipher_open [OF sample_cipher])

lemma sample_credential_id: "row_String sample_credential ''id'' = ''cred_1''" "row_String moved_credential ''id'' = ''cred_1''"
  by (simp_all add: sample_credential_def moved_credential_def setBytea_def row_String_Set) (simp_all add: row_String_def)


section \<open>Artifacts\<close>

text \<open>\<open>json.Unmarshal\<close> of a column into a number and into a truth value; null leaves the zero value.\<close>

definition column_int :: "row \<Rightarrow> string \<Rightarrow> int option" where
  "column_int r key =
     (case map_of r key of Some (JNum n) \<Rightarrow> parse_int64 n | Some JNull \<Rightarrow> Some 0 | _ \<Rightarrow> None)"

definition column_bool :: "row \<Rightarrow> string \<Rightarrow> bool option" where
  "column_bool r key = (case map_of r key of Some (JBool b) \<Rightarrow> Some b | Some JNull \<Rightarrow> Some False | _ \<Rightarrow> None)"

definition content_Digest :: "primitives \<Rightarrow> string \<Rightarrow> string" where
  "content_Digest L v = ''sha256:'' @ hex_text (pl_sha256 L v)"

definition artifactRow :: "row \<Rightarrow> secret_error + Artifact" where
  "artifactRow r =
     (case (column_int r ''size_bytes'', column_int r ''stored_size_bytes'', column_bool r ''sensitive'') of
        (Some sz, Some stored, Some sensitive) \<Rightarrow>
          (let a = \<lparr>art_ID = row_String r ''id'', art_OperationID = row_String r ''operation_id'', art_StepID = [],
             art_OutputName = [], art_Name = row_String r ''name'', art_Type = [], art_Version = [],
             art_MediaType = row_String r ''media_type'', art_StorageKey = row_String r ''storage_key'',
             art_Digest = row_String r ''digest'', art_SizeBytes = sz, art_StorageDigest = row_String r ''storage_digest'',
             art_StoredSizeBytes = stored, art_EncryptionNonce = [], art_Sensitive = sensitive, art_VerifiedAt = 0\<rparr>
           in if \<not> sensitive then Inr a
              else case bytea r ''encryption_nonce'' of
                None \<Rightarrow> Inl ArtifactMetadata
              | Some nonce \<Rightarrow> if length nonce = 12 then Inr (a\<lparr>art_EncryptionNonce := nonce\<rparr>) else Inl ArtifactMetadata)
      | _ \<Rightarrow> Inl ArtifactMetadata)"

text \<open>The object store is a partial function from keys to contents.\<close>

definition object_ReadVerified :: "primitives \<Rightarrow> (string \<Rightarrow> string option) \<Rightarrow> string \<Rightarrow> string \<Rightarrow> int \<Rightarrow> string option" where
  "object_ReadVerified L objects key expectedDigest expectedSize =
     (if expectedSize < 0 \<or> int MaxArtifactBytes + 1024 < expectedSize then None
      else case objects key of
        None \<Rightarrow> None
      | Some v \<Rightarrow>
          if MaxArtifactBytes + 1024 < length v then None
          else if Verify (content_Digest L) v expectedDigest expectedSize \<noteq> None then None else Some v)"

definition readArtifactPayload ::
  "primitives \<Rightarrow> (string \<Rightarrow> bool) \<Rightarrow> string \<Rightarrow> (string \<Rightarrow> string option) \<Rightarrow> Artifact \<Rightarrow> string option" where
  "readArtifactPayload L valid_json key objects a =
     (case object_ReadVerified L objects (art_StorageKey a) (art_StorageDigest a) (art_StoredSizeBytes a) of
        None \<Rightarrow> None
      | Some stored \<Rightarrow>
          (case (if art_Sensitive a then vault_DecryptBound L key (art_EncryptionNonce a) stored (art_ID a) else Some stored) of
             None \<Rightarrow> None
           | Some v \<Rightarrow>
               if Verify (content_Digest L) v (art_Digest a) (art_SizeBytes a) \<noteq> None then None
               else if art_MediaType a = ''application/json'' \<and> \<not> valid_json v then None else Some v))"

text \<open>The payload of a row of the artifacts table.\<close>

definition row_payload :: "primitives \<Rightarrow> (string \<Rightarrow> bool) \<Rightarrow> string \<Rightarrow> (string \<Rightarrow> string option) \<Rightarrow> row \<Rightarrow> secret_error + string" where
  "row_payload L valid_json key objects r =
     (case artifactRow r of
        Inl e \<Rightarrow> Inl e
      | Inr a \<Rightarrow> (case readArtifactPayload L valid_json key objects a of None \<Rightarrow> Inl ArtifactUnreadable | Some v \<Rightarrow> Inr v))"

record artifact_export =
  ae_rows :: "row list"
  ae_objects :: "(string \<times> string) list"
  ae_total :: nat

definition export_artifact ::
  "primitives \<Rightarrow> (string \<Rightarrow> bool) \<Rightarrow> string \<Rightarrow> (string \<Rightarrow> string option) \<Rightarrow> row \<Rightarrow> artifact_export \<Rightarrow> secret_error + artifact_export" where
  "export_artifact L valid_json key objects r st =
     (case row_payload L valid_json key objects r of
        Inl e \<Rightarrow> Inl e
      | Inr plain \<Rightarrow>
          let total = ae_total st + length plain in
          if MaxBytes div 2 < total then Inl ArtifactsTooLarge
          else Inr \<lparr>ae_rows = ae_rows st @ [row_Set r ''encryption_nonce'' JNull],
                    ae_objects = obj_set (row_String r ''id'') plain (ae_objects st), ae_total = total\<rparr>)"

definition validID :: "string \<Rightarrow> string \<Rightarrow> bool" where
  "validID v start \<longleftrightarrow>
     has_prefix (start @ ''_'') v \<and>
     (case hex_decode (trim_prefix (start @ ''_'') v) of None \<Rightarrow> False | Some raw \<Rightarrow> length raw = 12)"

definition object_directory :: "string \<Rightarrow> string \<Rightarrow> string" where
  "object_directory importID operationID = ''/kubephos/operations/'' @ operationID @ ''/imports/'' @ importID"

text \<open>
  The row and the object that an artifact of an archive becomes: a sensitive payload is encrypted
  and bound to the identifier of the artifact.
\<close>

definition place_artifact :: "primitives \<Rightarrow> string \<Rightarrow> string \<Rightarrow> string \<Rightarrow> string \<Rightarrow> bool \<Rightarrow> row \<Rightarrow> row \<times> string \<times> string" where
  "place_artifact L key importID nonce plain sensitive r =
     (let artifactID = row_String r ''id'';
          v = (if sensitive then snd (vault_EncryptBound L key nonce plain artifactID) else plain);
          storage = object_directory importID (row_String r ''operation_id'') @ ''/'' @ artifactID;
          r = (if sensitive then setBytea r ''encryption_nonce'' nonce else row_Set r ''encryption_nonce'' JNull);
          r = row_Set r ''storage_key'' (JStr storage);
          r = row_Set r ''storage_digest'' (JStr (content_Digest L v))
      in (row_Set r ''stored_size_bytes'' (JNum (show_nat (length v))), storage, v))"

definition import_artifact ::
  "primitives \<Rightarrow> string \<Rightarrow> string \<Rightarrow> (string \<times> string) list \<Rightarrow> string \<Rightarrow> row \<Rightarrow> secret_error + row \<times> string \<times> string" where
  "import_artifact L key importID objects nonce r =
     (if \<not> validID (row_String r ''id'') ''art'' \<or> \<not> validID (row_String r ''operation_id'') ''op'' then Inl TransferArchive
      else case map_of objects (row_String r ''id'') of
        None \<Rightarrow> Inl TransferArchive
      | Some plain \<Rightarrow>
          (case column_int r ''size_bytes'' of
             None \<Rightarrow> Inl TransferArchive
           | Some sz \<Rightarrow>
               (case column_bool r ''sensitive'' of
                  None \<Rightarrow> Inl TransferArchive
                | Some sensitive \<Rightarrow>
                    if int MaxArtifactBytes < sz \<or> Verify (content_Digest L) plain (row_String r ''digest'') sz \<noteq> None
                    then Inl TransferArchive else Inr (place_artifact L key importID nonce plain sensitive r))))"

lemma parse_show_nat: "int n < 2 ^ 63 \<Longrightarrow> parse_int64 (show_nat n) = Some (int n)"
proof -
  assume n: "int n < 2 ^ 63"
  have d: "show_nat n \<noteq> []" "list_all is_digit (show_nat n)" "decimal_value (show_nat n) = n"
    using show_nat_digits [of n] by auto
  then have "is_digit (hd (show_nat n))" by (cases "show_nat n") auto
  then have "hd (show_nat n) \<noteq> CHR ''-''" "hd (show_nat n) \<noteq> CHR ''+''" by (auto simp: is_digit_def)
  with d n show ?thesis by (simp add: parse_int64_def Let_def)
qed

lemma map_of_Set: "map_of (row_Set r key v) = (map_of r)(key \<mapsto> v)"
  by (simp add: row_Set_def map_of_obj_set)

lemma column_int_Set: "column_int (row_Set r key v) k =
    (if k = key then (case v of JNum n \<Rightarrow> parse_int64 n | JNull \<Rightarrow> Some 0 | _ \<Rightarrow> None) else column_int r k)"
  by (simp add: column_int_def map_of_Set split: json.splits)

lemma column_bool_Set: "column_bool (row_Set r key v) k =
    (if k = key then (case v of JBool b \<Rightarrow> Some b | JNull \<Rightarrow> Some False | _ \<Rightarrow> None) else column_bool r k)"
  by (simp add: column_bool_def map_of_Set split: json.splits)

lemmas column_Set_simps = column_int_Set column_bool_Set row_String_Set bytea_Set_other bytea_set

lemma setBytea_other:
  "column_int (setBytea r key v) k = (if k = key then None else column_int r k)"
  "column_bool (setBytea r key v) k = (if k = key then None else column_bool r k)"
  "row_String (setBytea r key v) k = (if k = key then bytea_mark @ hex_text v else row_String r k)"
  by (simp_all add: setBytea_def column_Set_simps)

text \<open>
  An artifact that an import accepted is read back from the imported row and the object written for
  it, with the vault of the destination, as the payload the archive carried.
\<close>

lemma artifact_survives:
  assumes laws: "cipher_laws L" and nonce: "length nonce = 12"
    and imported: "import_artifact L key importID archived nonce r = Inr (r', storage, v)"
    and archived: "map_of archived (row_String r ''id'') = Some plain"
    and media: "row_String r ''media_type'' = ''application/json'' \<longrightarrow> valid_json plain"
    and store: "objects storage = Some v"
  shows "row_payload L valid_json key objects r' = Inr plain"
proof -
  obtain sz sensitive where cols: "column_int r ''size_bytes'' = Some sz" "column_bool r ''sensitive'' = Some sensitive"
    and ok: "sz \<le> int MaxArtifactBytes" "Verify (content_Digest L) plain (row_String r ''digest'') sz = None"
    and placed: "place_artifact L key importID nonce plain sensitive r = (r', storage, v)"
    using imported archived
    by (auto simp: import_artifact_def split: option.splits if_splits)
  define r1 where "r1 = (if sensitive then setBytea r ''encryption_nonce'' nonce else row_Set r ''encryption_nonce'' JNull)"
  have v: "v = (if sensitive then pl_seal L key nonce plain (row_String r ''id'') else plain)"
    using placed by (auto simp: place_artifact_def Let_def vault_EncryptBound_def)
  have r': "r' = row_Set (row_Set (row_Set r1 ''storage_key'' (JStr storage)) ''storage_digest'' (JStr (content_Digest L v)))
      ''stored_size_bytes'' (JNum (show_nat (length v)))"
    using placed by (auto simp: place_artifact_def Let_def r1_def)
  have sz: "sz = int (length plain)" using ok(2) by (simp add: Verify_def split: if_splits)
  have len: "length v \<le> MaxArtifactBytes + 16"
    using laws ok(1) sz v by (auto simp: cipher_laws_def)
  have "int (length v) < 2 ^ 63" using len by (simp add: MaxArtifactBytes_def)
  then have stored: "column_int r' ''stored_size_bytes'' = Some (int (length v))"
    by (simp add: r' column_Set_simps parse_show_nat)
  have cols1: "column_int r1 ''size_bytes'' = Some sz" "column_bool r1 ''sensitive'' = Some sensitive"
    using cols by (simp_all add: r1_def column_Set_simps setBytea_other)
  have other: "row_String r1 k = row_String r k" if "k \<noteq> ''encryption_nonce''" for k
    using that by (simp add: r1_def column_Set_simps setBytea_other)
  have fields: "column_int r' ''size_bytes'' = Some sz" "column_bool r' ''sensitive'' = Some sensitive"
    "row_String r' ''id'' = row_String r ''id''" "row_String r' ''storage_key'' = storage" "row_String r' ''digest'' = row_String r ''digest''"
    "row_String r' ''storage_digest'' = content_Digest L v" "row_String r' ''media_type'' = row_String r ''media_type''"
    using cols1 other by (simp_all add: r' column_Set_simps)
  have n: "sensitive \<Longrightarrow> bytea r' ''encryption_nonce'' = Some nonce" by (simp add: r' r1_def column_Set_simps)
  have read: "object_ReadVerified L objects storage (content_Digest L v) (int (length v)) = Some v"
    using len store by (simp add: object_ReadVerified_def Verify_def)
  have plain: "(if sensitive then vault_DecryptBound L key nonce v (row_String r ''id'') else Some v) = Some plain"
    using nonce by (simp add: v vault_DecryptBound_def cipher_open [OF laws])
  show ?thesis
    using stored fields n nonce read plain ok(2) media
    by (cases sensitive) (simp_all add: row_payload_def artifactRow_def readArtifactPayload_def Let_def)
qed

end
