(* ===== verification/StateRows.thy ===== *)
theory StateRows
  imports StateImport
begin

text \<open>
  The parts of \<open>storage/transfer.go\<close> that look at whole archives: what an export keeps of the audit
  trail and of owners, the check of an archive before it is imported, and the names under which the
  imported configurations appear.
\<close>

section \<open>The rest of an export\<close>

definition resource_bases :: "string list" where
  "resource_bases =
     [''connections'', ''credentials'', ''machine-templates'', ''infrastructure-services'', ''kubernetes-clusters'',
      ''experiment-configurations'', ''catalog/applications'', ''catalog/models'', ''catalog/strategies'', ''workspaces'']"

definition audited_ids :: "(string \<Rightarrow> row list) \<Rightarrow> string list" where
  "audited_ids tables =
     filter (\<lambda>k. k \<noteq> []) (concat (map (\<lambda>table. map (\<lambda>r. row_String r ''id'') (tables table)) transferRoots))"

definition audited_paths :: "string list \<Rightarrow> string list" where
  "audited_paths ids =
     concat (map (\<lambda>k. concat (map (\<lambda>base.
       let path = ''/api/v1/'' @ base @ ''/'' @ k in [path, path @ ''/sharing'']) resource_bases)) ids)"

text \<open>The operator \<open>->>\<close> on the column \<open>details\<close>; texts of other values than strings match nothing here.\<close>

definition detail_text :: "row \<Rightarrow> string \<Rightarrow> string option" where
  "detail_text r key =
     (case map_of r ''details'' of
        Some (JObj kvs) \<Rightarrow> (case map_of kvs key of Some (JStr s) \<Rightarrow> Some s | _ \<Rightarrow> None)
      | _ \<Rightarrow> None)"

definition text_in :: "string option \<Rightarrow> string list \<Rightarrow> bool" where
  "text_in v vs \<longleftrightarrow> (case v of None \<Rightarrow> False | Some s \<Rightarrow> s \<in> set vs)"

definition attribution :: "string list \<Rightarrow> row \<Rightarrow> bool" where
  "attribution ids r \<longleftrightarrow>
     column r ''outcome'' = Some ''succeeded'' \<and> text_in (detail_text r ''method'') [''POST'', ''PUT'', ''PATCH''] \<and>
     (column_in r ''target_id'' ids \<or> text_in (detail_text r ''path'') (audited_paths ids))"

definition sequence_of :: "row \<Rightarrow> int" where
  "sequence_of r = (case column_int r ''sequence'' of None \<Rightarrow> 0 | Some n \<Rightarrow> n)"

text \<open>An event loses its position and every detail but three.\<close>

definition clean_event :: "row \<Rightarrow> row" where
  "clean_event r =
     (let details = (case map_of r ''details'' of Some (JObj kvs) \<Rightarrow> kvs | _ \<Rightarrow> []);
          safe = concat (map (\<lambda>key. case map_of details key of None \<Rightarrow> [] | Some v \<Rightarrow> [(key, v)]) [''method'', ''path'', ''status''])
      in row_Set (filter (\<lambda>(k, v). k \<noteq> ''sequence'') r) ''details'' (JObj safe))"

definition audit_rows :: "json \<Rightarrow> transfer_db \<Rightarrow> (string \<Rightarrow> row list) \<Rightarrow> row list" where
  "audit_rows now db tables =
     map clean_event (sort_key sequence_of (transferRows now db ''audit_events'' (attribution (audited_ids tables))))"

definition clean_owner :: "string \<Rightarrow> row \<Rightarrow> row" where
  "clean_owner table r =
     (if table = ''pipeline_runs'' then row_Set r ''owner_user_id'' JNull
      else if table = ''experiment_configurations''
      then row_Set (row_Set r ''owner_user_id'' JNull) ''shared_with_everyone'' (JBool False)
      else r)"

definition exported_rows :: "json \<Rightarrow> transfer_db \<Rightarrow> export_state \<Rightarrow> string \<Rightarrow> row list" where
  "exported_rows now db st table =
     (if table = ''audit_events'' then audit_rows now db (ex_tables st) else map (clean_owner table) (ex_tables st table))"

text \<open>\<open>created\<close> is the time of the export.\<close>

definition ExportState ::
  "json \<Rightarrow> timestamp \<Rightarrow> (string list \<Rightarrow> string list) \<Rightarrow> transfer_db \<Rightarrow> (transfer_error + archive_state) option" where
  "ExportState now created visit db =
     (case transferIdle db of
        Some e \<Rightarrow> Some (Inl e)
      | None \<Rightarrow>
          (case export_loop now visit db (export_start now db) of
             None \<Rightarrow> None
           | Some (Inl e) \<Rightarrow> Some (Inl e)
           | Some (Inr st) \<Rightarrow>
               Some (Inr \<lparr>st_Format = 1, st_Version = [], st_CreatedAt = created, st_Schema = td_schema db,
                 st_Tables = Some (map (\<lambda>table. (table, map Some (exported_rows now db st table))) transferTables),
                 st_Credentials = [], st_Objects = []\<rparr>)))"

section \<open>The check of an archive\<close>

definition unfinished :: "string \<Rightarrow> row \<Rightarrow> bool" where
  "unfinished table r \<longleftrightarrow>
     table = ''operations'' \<and> row_String r ''status'' \<in> {''queued'', ''prechecking'', ''running'', ''verifying''} \<or>
     table = ''pipeline_runs'' \<and> row_String r ''status'' \<in> {''queued'', ''running''}"

definition check_row_of :: "string \<Rightarrow> row option \<Rightarrow> string list \<Rightarrow> transfer_error + string list" where
  "check_row_of table entry seen =
     (case entry of
        None \<Rightarrow> Inl ArchiveRow
      | Some r \<Rightarrow>
          let identifier = row_String r ''id'' in
          if identifier \<noteq> [] \<and> identifier \<in> set seen then Inl ArchiveDuplicate
          else if unfinished table r then Inl ArchiveUnfinished
          else Inr (if identifier = [] then seen else identifier # seen))"

definition check_table :: "(string \<times> row option list) list \<Rightarrow> string \<Rightarrow> unit \<Rightarrow> transfer_error + unit" where
  "check_table tables table u =
     (case map_of tables table of
        None \<Rightarrow> Inl ArchiveTables
      | Some rows \<Rightarrow>
          if 100000 < length rows then Inl ArchiveTables
          else (case fold_err (check_row_of table) rows [] of Inl e \<Rightarrow> Inl e | Inr seen \<Rightarrow> Inr ()))"

text \<open>A missing map of tables is an empty one.\<close>

definition tables_of :: "archive_state \<Rightarrow> (string \<times> row option list) list" where
  "tables_of st = (case st_Tables st of None \<Rightarrow> [] | Some tables \<Rightarrow> tables)"

definition validateState :: "archive_state \<Rightarrow> transfer_error option" where
  "validateState st =
     (if st_Format st \<noteq> 1 \<or> length (tables_of st) \<noteq> length transferTables then Some ArchiveTables
      else case fold_err (check_table (tables_of st)) transferTables () of Inl e \<Rightarrow> Some e | Inr _ \<Rightarrow> None)"

definition nonempty :: "transfer_db \<Rightarrow> string \<Rightarrow> bool" where
  "nonempty db table \<longleftrightarrow> td_rows db table \<noteq> []"

definition transferFresh :: "transfer_db \<Rightarrow> transfer_error option" where
  "transferFresh db =
     (case transferIdle db of
        Some e \<Rightarrow> Some e
      | None \<Rightarrow>
          if list_ex (nonempty db)
               [''managed_resources'', ''provider_connections'', ''credentials'', ''experiment_configurations'', ''experiments'',
                ''operations'', ''pipelines'', ''infrastructure_resources'', ''artifacts'', ''plugin_runtime_profiles'',
                ''plugin_packages'', ''plugin_import_jobs''] \<or>
             list_ex (\<lambda>r. case column r ''origin'' of None \<Rightarrow> False | Some v \<Rightarrow> v \<noteq> ''built-in'') (td_rows db ''catalog_applications'') \<or>
             list_ex (\<lambda>r. column r ''origin'' = Some ''custom'') (td_rows db ''catalog_models'')
          then Some ErrTransferTarget else None)"

definition CheckStateImport :: "archive_state \<Rightarrow> transfer_db \<Rightarrow> transfer_error option" where
  "CheckStateImport st db =
     (case validateState st of
        Some e \<Rightarrow> Some e
      | None \<Rightarrow> if td_schema db \<noteq> st_Schema st then Some ErrTransferSchema else transferFresh db)"

text \<open>What an accepted archive is.\<close>

definition archive_table_ok :: "string \<Rightarrow> row option list \<Rightarrow> bool" where
  "archive_table_ok table rows \<longleftrightarrow>
     length rows \<le> 100000 \<and> None \<notin> set rows \<and> \<not> list_ex (\<lambda>e. case e of None \<Rightarrow> False | Some r \<Rightarrow> unfinished table r) rows \<and>
     distinct (filter (\<lambda>k. k \<noteq> []) (map (\<lambda>e. case e of None \<Rightarrow> [] | Some r \<Rightarrow> row_String r ''id'') rows))"

lemma check_rows_accept:
  "(\<exists>seen'. fold_err (check_row_of table) rows seen = Inr seen') \<longleftrightarrow>
     None \<notin> set rows \<and> \<not> list_ex (\<lambda>e. case e of None \<Rightarrow> False | Some r \<Rightarrow> unfinished table r) rows \<and>
     distinct (filter (\<lambda>k. k \<noteq> []) (map (\<lambda>e. case e of None \<Rightarrow> [] | Some r \<Rightarrow> row_String r ''id'') rows)) \<and>
     set (filter (\<lambda>k. k \<noteq> []) (map (\<lambda>e. case e of None \<Rightarrow> [] | Some r \<Rightarrow> row_String r ''id'') rows)) \<inter> set seen = {}"
proof (induction rows arbitrary: seen)
  case (Cons e rows)
  show ?case
  proof (cases e)
    case None
    then show ?thesis by (simp add: check_row_of_def)
  next
    case (Some r)
    show ?thesis
    proof (cases "row_String r ''id'' \<noteq> [] \<and> row_String r ''id'' \<in> set seen \<or> unfinished table r")
      case True
      then show ?thesis using Some by (auto simp: check_row_of_def Let_def)
    next
      case False
      then have "check_row_of table e seen = Inr (if row_String r ''id'' = [] then seen else row_String r ''id'' # seen)"
        using Some by (auto simp: check_row_of_def Let_def)
      with Cons.IH [of "if row_String r ''id'' = [] then seen else row_String r ''id'' # seen"] Some False show ?thesis by auto
    qed
  qed
qed simp

lemma check_tables_accept:
  "fold_err (check_table tables) ts u = Inr u' \<longleftrightarrow>
     list_all (\<lambda>t. case map_of tables t of None \<Rightarrow> False | Some rows \<Rightarrow> archive_table_ok t rows) ts"
proof (induction ts)
  case (Cons t ts)
  have "(\<exists>v. check_table tables t u = Inr v) \<longleftrightarrow> (case map_of tables t of None \<Rightarrow> False | Some rows \<Rightarrow> archive_table_ok t rows)"
  proof (cases "map_of tables t")
    case (Some rows)
    with check_rows_accept [of t rows "[]"] show ?thesis
      by (cases "fold_err (check_row_of t) rows []") (auto simp: check_table_def archive_table_ok_def)
  qed (simp add: check_table_def)
  with Cons show ?case by (cases "check_table tables t u") auto
qed simp

lemma validateState_accepts:
  "validateState st = None \<longleftrightarrow>
     st_Format st = 1 \<and> length (tables_of st) = length transferTables \<and>
     list_all (\<lambda>t. case map_of (tables_of st) t of None \<Rightarrow> False | Some rows \<Rightarrow> archive_table_ok t rows) transferTables"
proof -
  have "fold_err (check_table (tables_of st)) transferTables () = Inr () \<longleftrightarrow>
     list_all (\<lambda>t. case map_of (tables_of st) t of None \<Rightarrow> False | Some rows \<Rightarrow> archive_table_ok t rows) transferTables"
    by (rule check_tables_accept)
  then show ?thesis
    by (cases "fold_err (check_table (tables_of st)) transferTables ()") (auto simp: validateState_def)
qed

section \<open>Names of imported configurations\<close>

text \<open>
  The runes of a text: a byte and the continuation bytes after it. Column values are valid UTF-8, as
  the database and \<open>json.Unmarshal\<close> make them.
\<close>

definition continuation :: "char \<Rightarrow> bool" where
  "continuation c \<longleftrightarrow> 128 \<le> (of_char c :: nat) \<and> (of_char c :: nat) < 192"

function runes_of :: "string \<Rightarrow> string list" where
  "runes_of [] = []"
| "runes_of (c # s) = (c # takeWhile continuation s) # runes_of (dropWhile continuation s)"
  by pat_completeness auto
termination
  by (relation "measure length") (auto simp: less_Suc_eq_le length_dropWhile_le)

definition imported_suffix :: "nat \<Rightarrow> string" where
  "imported_suffix n = '' (imported '' @ show_nat n @ '')''"

text \<open>The name tried in iteration \<open>n\<close>; cutting at a negative length panics.\<close>

definition candidate_name :: "string \<Rightarrow> nat \<Rightarrow> string option" where
  "candidate_name base n =
     (let suffix1 = imported_suffix n; runes = runes_of base in
      if int (length runes) > 120 - int (length suffix1)
      then if 120 < length suffix1 then None else Some (concat (take (120 - length suffix1) runes) @ suffix1)
      else Some (base @ suffix1))"

partial_function (option) free_name ::
  "(string \<Rightarrow> string) \<Rightarrow> string list \<Rightarrow> string \<Rightarrow> nat \<Rightarrow> string \<Rightarrow> string option option" where
  "free_name lower names base n name =
     (if lower name \<notin> set names then Some (Some name)
      else case candidate_name base n of
        None \<Rightarrow> Some None
      | Some name' \<Rightarrow> free_name lower names base (Suc n) name')"

definition named_row :: "string \<Rightarrow> string \<Rightarrow> row \<Rightarrow> row" where
  "named_row ownerID name r =
     row_Set (row_Set (row_Set r ''owner_user_id'' (JStr ownerID)) ''shared_with_everyone'' (JBool False)) ''name'' (JStr name)"

text \<open>The loop over the configurations; \<open>None\<close> when it does not end, \<open>Inl\<close> when it panics.\<close>

fun rename_configs ::
  "(string \<Rightarrow> string) \<Rightarrow> string \<Rightarrow> string list \<Rightarrow> row list \<Rightarrow> (unit + row list) option" where
  "rename_configs lower ownerID names [] = Some (Inr [])"
| "rename_configs lower ownerID names (r # rs) =
     (case free_name lower names (row_String r ''name'') 2 (row_String r ''name'') of
        None \<Rightarrow> None
      | Some None \<Rightarrow> Some (Inl ())
      | Some (Some name) \<Rightarrow>
          (case rename_configs lower ownerID (lower name # names) rs of
             None \<Rightarrow> None
           | Some (Inl u) \<Rightarrow> Some (Inl u)
           | Some (Inr rs') \<Rightarrow> Some (Inr (named_row ownerID name r # rs'))))"

text \<open>\<open>strings.ToLower\<close> leaves the suffix as it is, whatever comes before it.\<close>

definition keeps_suffix :: "(string \<Rightarrow> string) \<Rightarrow> bool" where
  "keeps_suffix lower \<longleftrightarrow> (\<forall>v n. \<exists>start. lower (v @ imported_suffix n) = start @ imported_suffix n)"

lemma append_suffix_number:
  assumes "v @ imported_suffix m = w @ imported_suffix n"
  shows "m = n"
proof -
  have digits: "CHR '' '' \<notin> set (show_nat k)" for k
  proof
    assume "CHR '' '' \<in> set (show_nat k)"
    with show_nat_digits [of k] have "is_digit CHR '' ''" unfolding list_all_iff by blast
    then show False by (simp add: is_digit_def)
  qed
  have after: "takeWhile (\<lambda>c. c \<noteq> CHR '' '') (rev (v @ imported_suffix k)) = rev (show_nat k @ '')'')" for v k
  proof -
    have eq: "rev (v @ imported_suffix k) = rev (show_nat k @ '')'') @ CHR '' '' # rev (v @ '' (imported'')"
      by (simp add: imported_suffix_def)
    have "c \<noteq> CHR '' ''" if "c \<in> set (rev (show_nat k @ '')''))" for c using that digits [of k] by auto
    then show ?thesis unfolding eq by (subst takeWhile_append2) simp_all
  qed
  have "rev (show_nat m @ '')'') = rev (show_nat n @ '')'')" using after [of v m] after [of w n] assms by simp
  then show ?thesis by (intro show_nat_inj) simp
qed

lemma span_append:
  assumes "\<forall>x \<in> set a. P x" and "b = [] \<or> \<not> P (hd b)"
  shows "takeWhile P (a @ b) = a \<and> dropWhile P (a @ b) = b"
  using assms by (induction a) (cases b; simp)+

lemma runes_append_ascii:
  assumes "s = [] \<or> \<not> continuation (hd s)"
  shows "runes_of (v @ s) = runes_of v @ runes_of s"
proof (induction v rule: runes_of.induct)
  case (2 c v)
  have "takeWhile continuation (v @ s) = takeWhile continuation v \<and> dropWhile continuation (v @ s) = dropWhile continuation v @ s"
    using assms by (induction v) (cases s; simp)+
  with 2 show ?case by simp
qed simp

lemma concat_runes: "concat (runes_of s) = s"
  by (induction s rule: runes_of.induct) simp_all

lemma length_runes: "length (runes_of s) \<le> length s"
proof (induction s rule: runes_of.induct)
  case (2 c s)
  with length_dropWhile_le [of continuation s] show ?case by simp
qed simp

lemma runes_concat_take: "runes_of (concat (take n (runes_of s))) = take n (runes_of s)"
proof (induction s arbitrary: n rule: runes_of.induct)
  case (2 c s)
  show ?case
  proof (cases n)
    case (Suc m)
    let ?rest = "concat (take m (runes_of (dropWhile continuation s)))"
    have hd: "?rest = [] \<or> \<not> continuation (hd ?rest)"
    proof (cases "dropWhile continuation s")
      case (Cons d t)
      then have "\<not> continuation d" by (metis hd_dropWhile list.distinct(1) list.sel(1))
      with Cons show ?thesis by (cases m) simp_all
    next
      case Nil
      then have "?rest = []" by (simp only: runes_of.simps take_Nil concat.simps)
      then show ?thesis ..
    qed
    have "takeWhile continuation (takeWhile continuation s @ ?rest) = takeWhile continuation s \<and>
        dropWhile continuation (takeWhile continuation s @ ?rest) = ?rest"
      using hd set_takeWhileD [of _ continuation s] by (intro span_append) blast+
    with Suc 2 [of m] show ?thesis by simp
  qed simp
qed simp

text \<open>The name that iteration \<open>n\<close> tries ends with its suffix and has at most 120 runes.\<close>

lemma suffix_length: "length (imported_suffix n) = length (show_nat n) + 12"
  by (simp add: imported_suffix_def)

lemma candidate_shape:
  assumes "candidate_name base n = Some name"
  obtains start where "name = start @ imported_suffix n" "length (runes_of name) \<le> 120"
proof -
  let ?s = "imported_suffix n"
  define start where "start = (if int (length (runes_of base)) > 120 - int (length ?s) then concat (take (120 - length ?s) (runes_of base)) else base)"
  have bound: "length (runes_of start) + length ?s \<le> 120"
    using assms by (auto simp: start_def candidate_name_def Let_def runes_concat_take split: if_splits)
  have "?s \<noteq> []" "\<not> continuation (hd ?s)" by (simp_all add: imported_suffix_def continuation_def)
  then have "length (runes_of (start @ ?s)) \<le> length (runes_of start) + length ?s"
    using runes_append_ascii [of ?s start] length_runes [of ?s] by simp
  moreover have "name = start @ ?s" using assms by (auto simp: start_def candidate_name_def Let_def split: if_splits)
  ultimately show thesis using that bound by auto
qed

lemma free_name_step:
  "free_name lower names base n name =
     (if lower name \<notin> set names then Some (Some name)
      else case candidate_name base n of
        None \<Rightarrow> Some None
      | Some name' \<Rightarrow> free_name lower names base (Suc n) name')"
  by (rule free_name.simps)

lemma show_nat_length: "n < 10 ^ Suc k \<Longrightarrow> length (show_nat n) \<le> Suc k"
proof (induction k arbitrary: n)
  case 0
  then show ?case by (simp add: show_nat.simps [of n])
next
  case (Suc k)
  show ?case
  proof (cases "n < 10")
    case False
    have "n div 10 < 10 ^ Suc k" using Suc.prems by (simp add: div_less_iff_less_mult)
    from Suc.IH [OF this] False show ?thesis by (simp add: show_nat.simps [of n])
  qed (simp add: show_nat.simps [of n])
qed

lemma candidate_exists: "n < 1000000 \<Longrightarrow> \<exists>name. candidate_name base n = Some name"
  using show_nat_length [of n 5] by (simp add: candidate_name_def Let_def suffix_length)

text \<open>
  Every name tried and found taken is another element of the names taken, because the suffixes
  differ. \<open>tried\<close> holds the elements met so far.
\<close>

lemma free_name_ends:
  assumes law: "keeps_suffix lower" and names: "length names \<le> 100000"
    and "tried \<subseteq> set names" "card tried + 2 = k"
    and "\<And>t. t \<in> tried \<Longrightarrow> \<exists>m start. m < k \<and> t = start @ imported_suffix m"
    and "name = start @ imported_suffix k" "length (runes_of name) \<le> 120"
  shows "\<exists>name'. free_name lower names base (Suc k) name = Some (Some name') \<and> lower name' \<notin> set names \<and>
    length (runes_of name') \<le> 120 \<and> (\<exists>start m. name' = start @ imported_suffix m)"
  using assms(3-)
proof (induction "card (set names - tried)" arbitrary: tried k name start rule: less_induct)
  case less
  show ?case
  proof (cases "lower name \<in> set names")
    case False
    with less.prems(4,5) show ?thesis by (subst free_name_step) auto
  next
    case True
    obtain s' where s': "lower name = s' @ imported_suffix k" using law less.prems(4) unfolding keeps_suffix_def by blast
    have fresh: "lower name \<notin> tried"
    proof
      assume "lower name \<in> tried"
      from less.prems(3) [OF this] s' obtain m t where "m < k" "s' @ imported_suffix k = t @ imported_suffix m" by auto
      with append_suffix_number show False by blast
    qed
    have "finite tried" using less.prems(1) finite_subset by blast
    then have card: "card (insert (lower name) tried) = Suc (card tried)" using fresh by simp
    have sub: "insert (lower name) tried \<subseteq> set names" using True less.prems(1) by blast
    have "Suc (card tried) \<le> 100000"
      using card_mono [OF _ sub] card_length [of names] names card by simp
    then obtain name' where name': "candidate_name base (Suc k) = Some name'" using candidate_exists less.prems(2) by fastforce
    then obtain start' where start': "name' = start' @ imported_suffix (Suc k)" "length (runes_of name') \<le> 120"
      by (rule candidate_shape)
    have decrease: "card (set names - insert (lower name) tried) < card (set names - tried)"
      using True fresh by (intro psubset_card_mono) auto
    have tried: "\<exists>m start. m < Suc k \<and> t = start @ imported_suffix m" if "t \<in> insert (lower name) tried" for t
      using that s' less.prems(3) [of t] less_Suc_eq by blast
    have "card (insert (lower name) tried) + 2 = Suc k" using card less.prems(2) by simp
    from less.hyps [OF decrease sub this tried start'] True name' show ?thesis by (subst free_name_step) simp
  qed
qed

lemma free_name_result:
  assumes law: "keeps_suffix lower" and names: "length names \<le> 100000"
  shows "\<exists>name. free_name lower names base 2 base = Some (Some name) \<and> lower name \<notin> set names \<and>
    (if lower base \<in> set names then length (runes_of name) \<le> 120 \<and> (\<exists>start m. name = start @ imported_suffix m) else name = base)"
proof (cases "lower base \<in> set names")
  case True
  obtain name where name: "candidate_name base 2 = Some name" using candidate_exists [of 2] by auto
  then obtain start where "name = start @ imported_suffix 2" "length (runes_of name) \<le> 120" by (rule candidate_shape)
  from free_name_ends [OF law names, of "{}" 2, OF _ _ _ this] True name show ?thesis
    by (subst free_name_step) (simp add: numeral_3_eq_3 numeral_2_eq_2)
qed (subst free_name_step, simp)

definition config_named :: "(string \<Rightarrow> string) \<Rightarrow> string \<Rightarrow> string list \<Rightarrow> row list \<Rightarrow> row list \<Rightarrow> nat \<Rightarrow> bool" where
  "config_named lower ownerID names rows rows' i \<longleftrightarrow>
     (let base = row_String (rows ! i) ''name''; name = row_String (rows' ! i) ''name'' in
      rows' ! i = named_row ownerID name (rows ! i) \<and>
      (if lower base \<in> set names \<union> (\<lambda>r. lower (row_String r ''name'')) ` set (take i rows')
       then length (runes_of name) \<le> 120 \<and> (\<exists>start m. name = start @ imported_suffix m) else name = base))"

lemma named_row_name: "row_String (named_row ownerID name r) ''name'' = name"
  by (simp add: named_row_def row_String_Set)

lemma rename_result:
  assumes law: "keeps_suffix lower" and "length names + length rows \<le> 100000"
  shows "\<exists>rows'. rename_configs lower ownerID names rows = Some (Inr rows') \<and> length rows' = length rows \<and>
    distinct (map (\<lambda>r. lower (row_String r ''name'')) rows') \<and>
    (\<lambda>r. lower (row_String r ''name'')) ` set rows' \<inter> set names = {} \<and>
    (\<forall>i < length rows. config_named lower ownerID names rows rows' i)"
  using assms(2)
proof (induction rows arbitrary: names)
  case (Cons r rows)
  let ?base = "row_String r ''name''"
  have "length names \<le> 100000" using Cons.prems by simp
  from free_name_result [OF law this, of ?base] obtain name where name: "free_name lower names ?base 2 ?base = Some (Some name)"
    and fresh: "lower name \<notin> set names"
    and shape: "if lower ?base \<in> set names then length (runes_of name) \<le> 120 \<and> (\<exists>start m. name = start @ imported_suffix m) else name = ?base"
    by blast
  have "length (lower name # names) + length rows \<le> 100000" using Cons.prems by simp
  from Cons.IH [OF this] obtain rows' where rows': "rename_configs lower ownerID (lower name # names) rows = Some (Inr rows')"
    "length rows' = length rows" "distinct (map (\<lambda>r. lower (row_String r ''name'')) rows')"
    "(\<lambda>r. lower (row_String r ''name'')) ` set rows' \<inter> set (lower name # names) = {}"
    and each: "\<And>i. i < length rows \<Longrightarrow> config_named lower ownerID (lower name # names) rows rows' i" by blast
  let ?r = "named_row ownerID name r"
  have "config_named lower ownerID names (r # rows) (?r # rows') i" if "i < length (r # rows)" for i
  proof (cases i)
    case 0
    with shape show ?thesis by (simp add: config_named_def named_row_name)
  next
    case (Suc j)
    with each [of j] that show ?thesis by (simp add: config_named_def named_row_name Let_def)
  qed
  moreover have "distinct (map (\<lambda>r. lower (row_String r ''name'')) (?r # rows'))"
    using rows'(3,4) by (auto simp: named_row_name)
  moreover have "(\<lambda>r. lower (row_String r ''name'')) ` set (?r # rows') \<inter> set names = {}"
    using rows'(4) fresh by (auto simp: named_row_name)
  ultimately show ?case using name rows'(1,2) by (intro exI [of _ "?r # rows'"]) simp
qed simp

text \<open>
  C24: The names of imported configurations: the loop that looks for a free name always ends, without a
  panic, for every archive the check accepts. Afterwards no two configurations of the owner
  have the same name up to case, a configuration keeps its name unless an earlier one has it, a
  new name has at most 120 runes, and nothing else of the rows changes but the owner and the sharing.
\<close>

theorem imported_names_distinct:
  assumes "keeps_suffix lower" and "length rows \<le> 100000"
  shows "\<exists>rows'. rename_configs lower ownerID [] rows = Some (Inr rows') \<and> length rows' = length rows \<and>
    distinct (map (\<lambda>r. lower (row_String r ''name'')) rows') \<and>
    (\<forall>i < length rows. config_named lower ownerID [] rows rows' i)"
  using rename_result [OF assms(1), of "[]" rows ownerID] assms(2) by auto

definition same_names :: "row list" where
  "same_names = [[(''name'', JStr ''Baseline'')], [(''name'', JStr ''Baseline'')]]"

theorem imported_names_distinct_witness:
  "keeps_suffix (\<lambda>s. s) \<and>
    (\<exists>rows'. rename_configs (\<lambda>s. s) ''usr_1'' [] same_names = Some (Inr rows') \<and> length rows' = 2 \<and>
      distinct (map (\<lambda>r. row_String r ''name'') rows') \<and> (\<forall>i < 2. config_named (\<lambda>s. s) ''usr_1'' [] same_names rows' i))"
proof -
  have law: "keeps_suffix (\<lambda>s. s)" by (auto simp: keeps_suffix_def)
  with imported_names_distinct [OF law, of same_names "''usr_1''"] show ?thesis by (simp add: same_names_def numeral_2_eq_2)
qed

end
