(* ===== verification/StateCommit.thy ===== *)
theory StateCommit
  imports StateRows Deletion
begin

text \<open>
  The transaction of an import (\<open>ImportState\<close> of \<open>storage/transfer.go\<close>). Objects are written
  outside of the database; a key that covers them is queued for deletion before the first one is
  written, and the transaction that makes the rows visible removes that key again.
\<close>

section \<open>The instance and its surroundings\<close>

record instance_state =
  in_db :: transfer_db
  in_deletions :: "deletion_row list"
  in_objects :: "string \<rightharpoonup> string"

datatype import_stmt =
    RegisterCleanup
  | BeginTransaction
  | SetLockTimeout
  | LockTables
  | ReadSchema
  | ReadFresh
  | ClearTable string
  | InsertRow string
  | RestoreReference string
  | AdvanceSequence
  | CancelCleanup
  | RescheduleCleanup

text \<open>An error of a commit does not tell whether it took effect, nor does an error of a write to the object store.\<close>

datatype commit_outcome = Committed | RolledBack | AnswerLost

datatype put_outcome = PutStored | PutFailed bool

text \<open>
  \<open>ie_insert\<close> is the database's \<open>INSERT\<close> of a row given as JSON, with all constraints and triggers:
  the database afterwards, or nothing when it refuses.
\<close>

record import_env =
  ie_fails :: "import_stmt \<Rightarrow> bool"
  ie_insert :: "string \<Rightarrow> row \<Rightarrow> transfer_db \<Rightarrow> transfer_db option"
  ie_put :: "string \<Rightarrow> put_outcome"
  ie_commit :: commit_outcome

datatype import_error =
    ImportRefused transfer_error
  | DatabaseError import_stmt
  | ObjectError string
  | CommitError
  | NamesPanic

section \<open>The rows that are written\<close>

definition archive_rows :: "archive_state \<Rightarrow> string \<Rightarrow> row list" where
  "archive_rows st table = (case map_of (tables_of st) table of None \<Rightarrow> [] | Some rows \<Rightarrow> List.map_filter (\<lambda>e. e) rows)"

text \<open>Runs and clusters refer to each other: the reference of a run is cleared and restored at the end.\<close>

definition has_cluster :: "row \<Rightarrow> bool" where
  "has_cluster r \<longleftrightarrow> (case map_of r ''cluster_resource_id'' of None \<Rightarrow> False | Some v \<Rightarrow> v \<noteq> JNull)"

definition run_patches :: "row list \<Rightarrow> (string \<times> string) list" where
  "run_patches runs = map (\<lambda>r. (row_String r ''id'', row_String r ''cluster_resource_id'')) (filter has_cluster runs)"

definition without_cluster :: "row \<Rightarrow> row" where
  "without_cluster r = (if has_cluster r then row_Set r ''cluster_resource_id'' JNull else r)"

definition config_kind :: "row \<Rightarrow> string" where
  "config_kind r =
     (case map_of r ''definition'' of
        Some (JObj kvs) \<Rightarrow> (case map_of kvs ''kind'' of Some (JStr s) \<Rightarrow> s | _ \<Rightarrow> [])
      | _ \<Rightarrow> [])"

definition config_less :: "row \<Rightarrow> row \<Rightarrow> bool" where
  "config_less a b =
     (if (config_kind a = ''suite'') \<noteq> (config_kind b = ''suite'') then config_kind b = ''suite''
      else byte_less (row_String a ''id'') (row_String b ''id''))"

text \<open>\<open>sort.SliceStable\<close>.\<close>

fun insert_by :: "('a \<Rightarrow> 'a \<Rightarrow> bool) \<Rightarrow> 'a \<Rightarrow> 'a list \<Rightarrow> 'a list" where
  "insert_by lt x [] = [x]"
| "insert_by lt x (y # ys) = (if lt y x then y # insert_by lt x ys else x # y # ys)"

definition SliceStable :: "('a \<Rightarrow> 'a \<Rightarrow> bool) \<Rightarrow> 'a list \<Rightarrow> 'a list" where
  "SliceStable lt xs = foldr (insert_by lt) xs []"

definition adopted_run :: "string \<Rightarrow> row \<Rightarrow> row" where
  "adopted_run ownerID r = row_Set (without_cluster r) ''owner_user_id'' (JStr ownerID)"

definition owned_deployment :: "string \<Rightarrow> row \<Rightarrow> row" where
  "owned_deployment ownerID r =
     (if row_String r ''kind'' = ''application-deployment''
      then (case map_of r ''spec'' of
              Some (JObj spec) \<Rightarrow> row_Set r ''spec'' (JObj (obj_set ''ownerUserId'' (JStr ownerID) spec))
            | _ \<Rightarrow> r)
      else r)"

definition prepare_tables :: "(string \<Rightarrow> string) \<Rightarrow> string \<Rightarrow> (string \<Rightarrow> row list) \<Rightarrow> (unit + (string \<Rightarrow> row list)) option" where
  "prepare_tables lower ownerID tables =
     (case rename_configs lower ownerID [] (SliceStable config_less (tables ''experiment_configurations'')) of
        None \<Rightarrow> None
      | Some (Inl u) \<Rightarrow> Some (Inl u)
      | Some (Inr configs) \<Rightarrow>
          Some (Inr (tables(''experiment_configurations'' := configs,
            ''pipeline_runs'' := map (adopted_run ownerID) (tables ''pipeline_runs''),
            ''managed_resources'' := map (owned_deployment ownerID) (tables ''managed_resources'')))))"

section \<open>The transaction\<close>

definition register_cleanup :: "import_env \<Rightarrow> timestamp \<Rightarrow> string list \<Rightarrow> deletion_row list \<Rightarrow> deletion_row list option" where
  "register_cleanup env now keys rows =
     (if ie_fails env RegisterCleanup \<or> \<not> distinct keys \<or> list_ex (\<lambda>r. dl_StorageKey r \<in> set keys) rows then None
      else Some (rows @ map (\<lambda>k. \<lparr>dl_StorageKey = k, dl_RetryAfter = now + 3600\<rparr>) keys))"

definition reschedule_cleanup :: "import_env \<Rightarrow> timestamp \<Rightarrow> string list \<Rightarrow> deletion_row list \<Rightarrow> deletion_row list" where
  "reschedule_cleanup env now keys rows =
     (if ie_fails env RescheduleCleanup then rows
      else update_where (\<lambda>r. dl_StorageKey r \<in> set keys) (\<lambda>r. r\<lparr>dl_RetryAfter := now\<rparr>) rows)"

definition cancel_cleanup :: "string list \<Rightarrow> deletion_row list \<Rightarrow> deletion_row list" where
  "cancel_cleanup keys rows = filter (\<lambda>r. dl_StorageKey r \<notin> set keys) rows"

definition begin_import :: "import_env \<Rightarrow> archive_state \<Rightarrow> transfer_db \<Rightarrow> import_error option" where
  "begin_import env st db =
     (case find (ie_fails env) [BeginTransaction, SetLockTimeout, LockTables, ReadSchema] of
        Some stmt \<Rightarrow> Some (DatabaseError stmt)
      | None \<Rightarrow>
          if td_schema db \<noteq> st_Schema st then Some (ImportRefused ErrTransferSchema)
          else if ie_fails env ReadFresh then Some (DatabaseError ReadFresh)
          else map_option ImportRefused (transferFresh db))"

text \<open>\<open>writeObjects\<close>: the objects in their order, until a write fails.\<close>

fun write_objects :: "import_env \<Rightarrow> (string \<times> string) list \<Rightarrow> (string \<rightharpoonup> string) \<Rightarrow> import_error option \<times> (string \<rightharpoonup> string)" where
  "write_objects env [] store = (None, store)"
| "write_objects env ((key, v) # objects) store =
     (case ie_put env key of
        PutStored \<Rightarrow> write_objects env objects (store(key \<mapsto> v))
      | PutFailed stored \<Rightarrow> (Some (ObjectError key), if stored then store(key \<mapsto> v) else store))"

definition clear_table :: "import_env \<Rightarrow> string \<Rightarrow> transfer_db \<Rightarrow> import_error + transfer_db" where
  "clear_table env table db =
     (if ie_fails env (ClearTable table) then Inl (DatabaseError (ClearTable table))
      else Inr (db\<lparr>td_rows := (td_rows db)(table := [])\<rparr>))"

definition insert_row :: "import_env \<Rightarrow> json \<Rightarrow> string \<times> row \<Rightarrow> transfer_db \<Rightarrow> import_error + transfer_db" where
  "insert_row env now tr db =
     (case tr of (table, r) \<Rightarrow>
        (case ie_insert env table (reset_connectivity now table r) db of
           None \<Rightarrow> Inl (DatabaseError (InsertRow table))
         | Some db' \<Rightarrow> Inr db'))"

definition restore_reference :: "import_env \<Rightarrow> string \<times> string \<Rightarrow> transfer_db \<Rightarrow> import_error + transfer_db" where
  "restore_reference env p db =
     (case p of (k, v) \<Rightarrow>
        if ie_fails env (RestoreReference k) then Inl (DatabaseError (RestoreReference k))
        else Inr (db\<lparr>td_rows := (td_rows db)(''pipeline_runs'' :=
          update_where (\<lambda>r. column r ''id'' = Some k) (\<lambda>r. row_Set r ''cluster_resource_id'' (JStr v)) (td_rows db ''pipeline_runs''))\<rparr>))"

definition cleared_tables :: "string list" where
  "cleared_tables = [''catalog_application_previews'', ''catalog_models'', ''catalog_applications'', ''workspaces'']"

definition table_rows :: "(string \<Rightarrow> row list) \<Rightarrow> (string \<times> row) list" where
  "table_rows tables = concat (map (\<lambda>t. map (Pair t) (tables t)) transferTables)"

definition write_tables ::
  "import_env \<Rightarrow> (string \<Rightarrow> string) \<Rightarrow> json \<Rightarrow> string \<Rightarrow> archive_state \<Rightarrow> transfer_db \<Rightarrow> (import_error + transfer_db) option" where
  "write_tables env lower now ownerID st db =
     (case fold_err (clear_table env) cleared_tables db of
        Inl e \<Rightarrow> Some (Inl e)
      | Inr db1 \<Rightarrow>
          (case prepare_tables lower ownerID (archive_rows st) of
             None \<Rightarrow> None
           | Some (Inl u) \<Rightarrow> Some (Inl NamesPanic)
           | Some (Inr tables) \<Rightarrow>
               Some (case fold_err (insert_row env now) (table_rows tables) db1 of
                  Inl e \<Rightarrow> Inl e
                | Inr db2 \<Rightarrow>
                    (case fold_err (restore_reference env) (run_patches (archive_rows st ''pipeline_runs'')) db2 of
                       Inl e \<Rightarrow> Inl e
                     | Inr db3 \<Rightarrow> if ie_fails env AdvanceSequence then Inl (DatabaseError AdvanceSequence) else Inr db3))))"

text \<open>What the transaction would commit, and the objects written on the way.\<close>

definition transaction ::
  "import_env \<Rightarrow> (string \<Rightarrow> string) \<Rightarrow> json \<Rightarrow> archive_state \<Rightarrow> string \<Rightarrow> string list \<Rightarrow> (string \<times> string) list \<Rightarrow> instance_state \<Rightarrow>
     ((import_error + transfer_db \<times> deletion_row list) \<times> (string \<rightharpoonup> string)) option" where
  "transaction env lower now st ownerID cleanupKeys objects inst =
     (case begin_import env st (in_db inst) of
        Some e \<Rightarrow> Some (Inl e, in_objects inst)
      | None \<Rightarrow>
          (case write_objects env objects (in_objects inst) of
             (Some e, store) \<Rightarrow> Some (Inl e, store)
           | (None, store) \<Rightarrow>
               (case write_tables env lower now ownerID st (in_db inst) of
                  None \<Rightarrow> None
                | Some (Inl e) \<Rightarrow> Some (Inl e, store)
                | Some (Inr db) \<Rightarrow>
                    if ie_fails env CancelCleanup then Some (Inl (DatabaseError CancelCleanup), store)
                    else Some (Inr (db, cancel_cleanup cleanupKeys (in_deletions inst)), store))))"

text \<open>
  The whole operation; \<open>None\<close> when it does not return. After an error the keys become due at once;
  a panic unwinds without that statement.
\<close>

definition ImportState ::
  "import_env \<Rightarrow> (string \<Rightarrow> string) \<Rightarrow> json \<Rightarrow> timestamp \<Rightarrow> archive_state \<Rightarrow> string \<Rightarrow> string list \<Rightarrow> (string \<times> string) list \<Rightarrow>
     instance_state \<Rightarrow> (import_error option \<times> instance_state) option" where
  "ImportState env lower now clock st ownerID cleanupKeys objects inst =
     (case validateState st of
        Some e \<Rightarrow> Some (Some (ImportRefused e), inst)
      | None \<Rightarrow>
          (case register_cleanup env clock cleanupKeys (in_deletions inst) of
             None \<Rightarrow> Some (Some (DatabaseError RegisterCleanup), inst)
           | Some registered \<Rightarrow>
               let inst = inst\<lparr>in_deletions := registered\<rparr>;
                   failed = (\<lambda>e inst. (Some e, inst\<lparr>in_deletions := reschedule_cleanup env clock cleanupKeys (in_deletions inst)\<rparr>)) in
               (case transaction env lower now st ownerID cleanupKeys objects inst of
                  None \<Rightarrow> None
                | Some (Inl NamesPanic, store) \<Rightarrow> Some (Some NamesPanic, inst\<lparr>in_objects := store\<rparr>)
                | Some (Inl e, store) \<Rightarrow> Some (failed e (inst\<lparr>in_objects := store\<rparr>))
                | Some (Inr (db, rows), store) \<Rightarrow>
                    let committed1 = \<lparr>in_db = db, in_deletions = rows, in_objects = store\<rparr> in
                    Some (case ie_commit env of
                      Committed \<Rightarrow> (None, committed1)
                    | RolledBack \<Rightarrow> failed CommitError (inst\<lparr>in_objects := store\<rparr>)
                    | AnswerLost \<Rightarrow> failed CommitError committed1))))"

section \<open>All or nothing\<close>

text \<open>The keys cover the objects: each object lies below one of them.\<close>

definition covers :: "string list \<Rightarrow> string \<Rightarrow> bool" where
  "covers keys key \<longleftrightarrow> list_ex (\<lambda>d. has_prefix (d @ ''/'') key) keys"

definition queued_keys :: "deletion_row list \<Rightarrow> string list" where
  "queued_keys rows = map dl_StorageKey rows"

lemma write_objects_none:
  "write_objects env objects store = (None, store') \<Longrightarrow> store' = store ++ map_of (rev objects)"
  by (induction env objects store rule: write_objects.induct)
    (auto split: put_outcome.splits simp: map_add_def fun_eq_iff split: option.splits)

lemma write_objects_touches:
  assumes "write_objects env objects store = (answer, store')" and "store' k \<noteq> store k"
  shows "k \<in> fst ` set objects"
  using assms
proof (induction env objects store rule: write_objects.induct)
  case (2 env key v objects store)
  show ?case
  proof (cases "k = key")
    case False
    then have other: "(store(key \<mapsto> v)) k = store k" by simp
    show ?thesis
    proof (cases "ie_put env key")
      case PutStored
      with 2(1) [OF PutStored] 2(2,3) other show ?thesis by (simp del: fun_upd_apply)
    next
      case (PutFailed stored)
      with 2(2,3) other show ?thesis by (auto split: if_splits)
    qed
  qed simp
qed simp

lemma queued_reschedule: "queued_keys (reschedule_cleanup env now keys rows) = queued_keys rows"
  by (auto simp: reschedule_cleanup_def queued_keys_def update_where_def)

lemma register_cleanup_SomeD:
  assumes "register_cleanup env now keys rows = Some rows'"
  shows "queued_keys rows' = queued_keys rows @ keys" "cancel_cleanup keys rows' = rows"
    "set (queued_keys rows) \<inter> set keys = {}"
  using assms
  by (auto simp: register_cleanup_def queued_keys_def cancel_cleanup_def list_ex_iff o_def split: if_splits intro!: filter_True)

lemma reschedule_other: "set (queued_keys rows) \<inter> set keys = {} \<Longrightarrow> reschedule_cleanup env now keys rows = rows"
  by (auto simp: reschedule_cleanup_def queued_keys_def update_where_def disjoint_iff intro!: map_idI)

lemma transaction_failed:
  assumes "transaction env lower now st ownerID keys objects inst = Some (Inl e, store)"
    and "store k \<noteq> in_objects inst k"
  shows "k \<in> fst ` set objects"
  using assms write_objects_touches [of env objects "in_objects inst" _ store k]
  by (auto simp: transaction_def split: option.splits prod.splits sum.splits if_splits)

lemma transaction_succeeded:
  assumes "transaction env lower now st ownerID keys objects inst = Some (Inr (db, rows), store)"
  shows "write_tables env lower now ownerID st (in_db inst) = Some (Inr db)"
    "rows = cancel_cleanup keys (in_deletions inst)" "store = in_objects inst ++ map_of (rev objects)"
    "begin_import env st (in_db inst) = None"
  using assms write_objects_none [of env objects "in_objects inst" store]
  by (auto simp: transaction_def split: option.splits prod.splits sum.splits if_splits)

text \<open>The result of an import that took effect, and of one that did not.\<close>

definition took_effect :: "import_env \<Rightarrow> (string \<Rightarrow> string) \<Rightarrow> json \<Rightarrow> archive_state \<Rightarrow> string \<Rightarrow> (string \<times> string) list \<Rightarrow> instance_state \<Rightarrow> instance_state \<Rightarrow> bool" where
  "took_effect env lower now st ownerID objects inst inst' \<longleftrightarrow>
     write_tables env lower now ownerID st (in_db inst) = Some (Inr (in_db inst')) \<and>
     in_objects inst' = in_objects inst ++ map_of (rev objects) \<and> in_deletions inst' = in_deletions inst"

definition left_unchanged :: "instance_state \<Rightarrow> instance_state \<Rightarrow> bool" where
  "left_unchanged inst inst' \<longleftrightarrow>
     in_db inst' = in_db inst \<and> set (queued_keys (in_deletions inst)) \<subseteq> set (queued_keys (in_deletions inst')) \<and>
     {k. in_objects inst' k \<noteq> in_objects inst k} \<subseteq> {k. covers (queued_keys (in_deletions inst')) k}"

lemma covers_mono: "covers keys k \<Longrightarrow> set keys \<subseteq> set keys' \<Longrightarrow> covers keys' k"
  by (auto simp: covers_def list_ex_iff)

lemma unchanged_registered:
  assumes "queued_keys (in_deletions inst') = queued_keys (in_deletions inst) @ keys" "in_db inst' = in_db inst"
    and "\<And>k. in_objects inst' k \<noteq> in_objects inst k \<Longrightarrow> k \<in> fst ` set objects" and "\<And>k v. (k, v) \<in> set objects \<Longrightarrow> covers keys k"
  shows "left_unchanged inst inst'"
  using assms covers_mono [of keys _ "queued_keys (in_deletions inst')"] by (fastforce simp: left_unchanged_def)

lemma import_outcome:
  assumes run: "ImportState env lower now clock st ownerID keys objects inst = Some (answer, inst')"
    and covered: "\<And>k v. (k, v) \<in> set objects \<Longrightarrow> covers keys k"
  shows "took_effect env lower now st ownerID objects inst inst' \<or> left_unchanged inst inst' \<and> answer \<noteq> None"
proof (cases "validateState st")
  case (Some e)
  with run show ?thesis by (auto simp: ImportState_def left_unchanged_def)
next
  case valid: None
  show ?thesis
  proof (cases "register_cleanup env clock keys (in_deletions inst)")
    case None
    with run valid show ?thesis by (auto simp: ImportState_def left_unchanged_def)
  next
    case (Some rows)
    note reg = register_cleanup_SomeD [OF Some]
    let ?inst = "inst\<lparr>in_deletions := rows\<rparr>"
    obtain r store where tx: "transaction env lower now st ownerID keys objects ?inst = Some (r, store)"
      using run valid Some by (auto simp: ImportState_def Let_def split: option.splits)
    show ?thesis
    proof (cases r)
      case (Inl e)
      have touched: "k \<in> fst ` set objects" if "store k \<noteq> in_objects inst k" for k
        using transaction_failed [OF tx [unfolded Inl]] that by simp
      have "in_db inst' = in_db inst \<and> in_objects inst' = store \<and> answer \<noteq> None \<and> queued_keys (in_deletions inst') = queued_keys rows"
        using run valid Some tx Inl queued_reschedule [of env clock keys rows]
        by (cases e) (auto simp: ImportState_def Let_def)
      with unchanged_registered [of inst' inst keys objects] reg(1) touched covered show ?thesis by auto
    next
      case (Inr p)
      obtain db rows1 where p: "p = (db, rows1)" by (cases p)
      note ok = transaction_succeeded [OF tx [unfolded Inr p]]
      have eff: "took_effect env lower now st ownerID objects inst \<lparr>in_db = db, in_deletions = rows1, in_objects = store\<rparr>"
        using ok reg(2) by (simp add: took_effect_def)
      have rows1: "rows1 = in_deletions inst" using ok(2) reg(2) by simp
      show ?thesis
      proof (cases "ie_commit env")
        case Committed
        with run valid Some tx Inr p eff show ?thesis by (auto simp: ImportState_def Let_def)
      next
        case AnswerLost
        have "reschedule_cleanup env clock keys rows1 = rows1" unfolding rows1 by (rule reschedule_other [OF reg(3)])
        with AnswerLost run valid Some tx Inr p eff show ?thesis by (auto simp: ImportState_def Let_def)
      next
        case RolledBack
        have touched: "k \<in> fst ` set objects" if "store k \<noteq> in_objects inst k" for k
          using that ok(3) by (auto simp: map_add_def dest!: map_of_SomeD split: option.splits intro: rev_image_eqI)
        have "in_db inst' = in_db inst \<and> in_objects inst' = store \<and> answer \<noteq> None \<and> queued_keys (in_deletions inst') = queued_keys rows"
          using run valid Some tx Inr p RolledBack queued_reschedule [of env clock keys rows]
          by (auto simp: ImportState_def Let_def)
        with unchanged_registered [of inst' inst keys objects] reg(1) touched covered show ?thesis by auto
      qed
    qed
  qed
qed

section \<open>The request\<close>

text \<open>
  The handler \<open>importState\<close>: secrets and objects are encrypted with the vault of this instance, imported
  plugin packages are loaded once, and only then the import begins.
\<close>

record prepared =
  pp_rows :: "row list"
  pp_objects :: "(string \<times> string) list"
  pp_dirs :: "string list"

definition add_artifact_object ::
  "primitives \<Rightarrow> string \<Rightarrow> string \<Rightarrow> (string \<times> string) list \<Rightarrow> row \<times> string \<Rightarrow> prepared \<Rightarrow> secret_error + prepared" where
  "add_artifact_object L key importID archived rn p =
     (case rn of (r, nonce) \<Rightarrow>
        (case import_artifact L key importID archived nonce r of
           Inl e \<Rightarrow> Inl e
         | Inr (r', storage, v) \<Rightarrow>
             let dir = object_directory importID (row_String r ''operation_id'') in
             Inr \<lparr>pp_rows = pp_rows p @ [r'], pp_objects = pp_objects p @ [(storage, v)],
                  pp_dirs = (if dir \<in> set (pp_dirs p) then pp_dirs p else pp_dirs p @ [dir])\<rparr>))"

definition prepare_artifacts ::
  "primitives \<Rightarrow> string \<Rightarrow> string \<Rightarrow> (string \<times> string) list \<Rightarrow> row list \<Rightarrow> string list \<Rightarrow> secret_error + prepared" where
  "prepare_artifacts L key importID archived rows nonces =
     fold_err (add_artifact_object L key importID archived) (zip rows nonces) \<lparr>pp_rows = [], pp_objects = [], pp_dirs = []\<rparr>"

datatype request_error =
    RequestTooLarge
  | RequestArchive archive_error
  | RequestCheck transfer_error
  | RequestSecret secret_error
  | LoaderUnavailable
  | PackageRejected
  | RequestStore import_error

text \<open>A package: its descriptor has the recorded digest and loads as the plugin the row names, which is not bundled.\<close>

definition check_package ::
  "primitives \<Rightarrow> (string \<Rightarrow> Manifest option) \<Rightarrow> (string \<Rightarrow> bool) option \<Rightarrow> row \<Rightarrow> unit \<Rightarrow> request_error + unit" where
  "check_package L load bundled r u =
     (let descriptor1 = row_String r ''descriptor'' in
      if content_Digest L descriptor1 \<noteq> row_String r ''descriptor_digest'' then Inl PackageRejected
      else case load descriptor1 of
        None \<Rightarrow> Inl PackageRejected
      | Some m \<Rightarrow>
          (case bundled of
             None \<Rightarrow> Inl PackageRejected
           | Some is_bundled \<Rightarrow>
               if is_bundled (mf_ID m) \<or> mf_ID m \<noteq> row_String r ''plugin_id'' \<or>
                 \<not> Matches m (row_String r ''version'') (row_String r ''digest'')
               then Inl PackageRejected else Inr ()))"

definition check_packages ::
  "primitives \<Rightarrow> (string \<Rightarrow> Manifest option) option \<Rightarrow> (string \<Rightarrow> bool) option \<Rightarrow> row list \<Rightarrow> request_error option" where
  "check_packages L load bundled rows =
     (case load of
        None \<Rightarrow> if rows = [] then None else Some LoaderUnavailable
      | Some load1 \<Rightarrow> (case fold_err (check_package L load1 bundled) rows () of Inl e \<Rightarrow> Some e | Inr _ \<Rightarrow> None))"

definition sorted_keys :: "string list \<Rightarrow> string list" where
  "sorted_keys keys = map fst (sort_keys (map (\<lambda>k. (k, ())) keys))"

definition put_table :: "string \<Rightarrow> row list \<Rightarrow> archive_state \<Rightarrow> archive_state" where
  "put_table table rows st = st\<lparr>st_Tables := Some (obj_set table (map Some rows) (tables_of st))\<rparr>"

text \<open>
  What a request needs from its surroundings: the vault's key, fresh nonces for the credentials and the
  artifacts, the identifier of the import, and the plugin loader and registry if there are any.
\<close>

record request_env =
  rq_key :: string
  rq_valid_json :: "string \<Rightarrow> bool"
  rq_secret_nonces :: "string list"
  rq_object_nonces :: "string list"
  rq_importID :: string
  rq_load :: "(string \<Rightarrow> Manifest option) option"
  rq_bundled :: "(string \<Rightarrow> bool) option"
  rq_reload :: bool

definition prepare_import :: "primitives \<Rightarrow> request_env \<Rightarrow> archive_state \<Rightarrow> request_error + archive_state \<times> prepared" where
  "prepare_import L rq st =
     (if length (st_Credentials st) \<noteq> length (archive_rows st ''credentials'') \<or>
         length (st_Objects st) \<noteq> length (archive_rows st ''artifacts'') then Inl (RequestArchive ErrArchive)
      else case import_credentials L (rq_valid_json rq) (rq_key rq) (rq_secret_nonces rq) (archive_rows st ''credentials'') (st_Credentials st) of
        Inl e \<Rightarrow> Inl (RequestSecret e)
      | Inr credentials \<Rightarrow>
          (case prepare_artifacts L (rq_key rq) (rq_importID rq) (st_Objects st) (archive_rows st ''artifacts'') (rq_object_nonces rq) of
             Inl e \<Rightarrow> Inl (RequestSecret e)
           | Inr p \<Rightarrow>
               (case check_packages L (rq_load rq) (rq_bundled rq) (archive_rows st ''plugin_packages'') of
                  Some e \<Rightarrow> Inl e
                | None \<Rightarrow> Inr (put_table ''artifacts'' (pp_rows p) (put_table ''credentials'' credentials st), p))))"

definition readStateArchive :: "primitives \<Rightarrow> string \<Rightarrow> string \<Rightarrow> transfer_db \<Rightarrow> request_error + archive_state" where
  "readStateArchive L v password db =
     (if MaxBytes < length v then Inl RequestTooLarge
      else case archive_Decrypt L v password of
        Inl e \<Rightarrow> Inl (RequestArchive e)
      | Inr st \<Rightarrow> (case CheckStateImport st db of Some e \<Rightarrow> Inl (RequestCheck e) | None \<Rightarrow> Inr st))"

text \<open>The answer to a request says whether a restart is required to load the imported packages.\<close>

definition importState ::
  "primitives \<Rightarrow> request_env \<Rightarrow> import_env \<Rightarrow> (string \<Rightarrow> string) \<Rightarrow> json \<Rightarrow> timestamp \<Rightarrow> string \<Rightarrow> string \<Rightarrow> string \<Rightarrow> instance_state \<Rightarrow>
     ((request_error + bool) \<times> instance_state) option" where
  "importState L rq env lower now clock userID v password inst =
     (case readStateArchive L v password (in_db inst) of
        Inl e \<Rightarrow> Some (Inl e, inst)
      | Inr st \<Rightarrow>
          (case prepare_import L rq st of
             Inl e \<Rightarrow> Some (Inl e, inst)
           | Inr (st', p) \<Rightarrow>
               (case ImportState env lower now clock st' userID (sorted_keys (pp_dirs p)) (pp_objects p) inst of
                  None \<Rightarrow> None
                | Some (Some e, inst') \<Rightarrow> Some (Inl (RequestStore e), inst')
                | Some (None, inst') \<Rightarrow>
                    Some (Inr (archive_rows st ''plugin_packages'' \<noteq> [] \<and> \<not> rq_reload rq), inst'))))"

lemma sorted_keys_set [simp]: "set (sorted_keys keys) = set keys"
  by (auto simp: sorted_keys_def image_image)

lemma import_artifact_storage:
  assumes "import_artifact L key importID archived nonce r = Inr (r', storage, v)"
  shows "storage = object_directory importID (row_String r ''operation_id'') @ ''/'' @ row_String r ''id''"
    "validID (row_String r ''id'') ''art''" "validID (row_String r ''operation_id'') ''op''"
  using assms by (auto simp: import_artifact_def place_artifact_def Let_def split: option.splits if_splits)

lemma prepared_covered:
  assumes "prepare_artifacts L key importID archived rows nonces = Inr p" and "(k, v) \<in> set (pp_objects p)"
  shows "covers (sorted_keys (pp_dirs p)) k"
proof -
  have "\<forall>(k, v) \<in> set (pp_objects p). \<exists>d \<in> set (pp_dirs p). has_prefix (d @ ''/'') k"
  proof (rule fold_err_invariant [OF assms(1) [unfolded prepare_artifacts_def]])
    fix rn :: "row \<times> string" and q q'
    assume step: "add_artifact_object L key importID archived rn q = Inr q'"
      and inv: "\<forall>(k, v) \<in> set (pp_objects q). \<exists>d \<in> set (pp_dirs q). has_prefix (d @ ''/'') k"
    obtain r nonce where rn: "rn = (r, nonce)" by (cases rn)
    obtain r' storage v where one: "import_artifact L key importID archived nonce r = Inr (r', storage, v)"
      and q': "pp_objects q' = pp_objects q @ [(storage, v)]"
        "set (pp_dirs q') = insert (object_directory importID (row_String r ''operation_id'')) (set (pp_dirs q))"
      using step rn by (auto simp: add_artifact_object_def Let_def insert_absorb split: sum.splits prod.splits if_splits)
    have "has_prefix (object_directory importID (row_String r ''operation_id'') @ ''/'') storage"
      unfolding import_artifact_storage(1) [OF one] append_assoc [symmetric] by (rule has_prefix_append)
    with inv show "\<forall>(k, v) \<in> set (pp_objects q'). \<exists>d \<in> set (pp_dirs q'). has_prefix (d @ ''/'') k"
      unfolding q' by auto
  qed simp
  with assms(2) show ?thesis by (auto simp: covers_def list_ex_iff)
qed

lemma length_insert_by: "length (insert_by lt x xs) = Suc (length xs)"
  by (induction xs) auto

lemma length_SliceStable: "length (SliceStable lt xs) = length xs"
  by (induction xs) (simp_all add: SliceStable_def length_insert_by)

lemma length_map_filter: "length (List.map_filter f xs) \<le> length xs"
  by (simp add: List.map_filter_def)

lemma archive_rows_bound:
  assumes "validateState st = None" and "table \<in> set transferTables"
  shows "length (archive_rows st table) \<le> 100000"
proof -
  obtain rows where "map_of (tables_of st) table = Some rows" "archive_table_ok table rows"
    using assms by (auto simp: validateState_accepts list_all_iff split: option.splits)
  with length_map_filter [of "\<lambda>e. e" rows] show ?thesis by (simp add: archive_rows_def archive_table_ok_def)
qed

lemma ImportState_returns:
  assumes "keeps_suffix lower"
  shows "\<exists>result. ImportState env lower now clock st ownerID keys objects inst = Some result"
proof (cases "validateState st")
  case None
  have "length (SliceStable config_less (archive_rows st ''experiment_configurations'')) \<le> 100000"
    using archive_rows_bound [OF None] by (simp add: length_SliceStable transferTables_def)
  then obtain configs where "rename_configs lower ownerID [] (SliceStable config_less (archive_rows st ''experiment_configurations'')) = Some (Inr configs)"
    using rename_result [OF assms, of "[]" "SliceStable config_less (archive_rows st ''experiment_configurations'')" ownerID] by auto
  then have "\<exists>t. prepare_tables lower ownerID (archive_rows st) = Some t" by (simp add: prepare_tables_def)
  then have tx: "transaction env lower now st ownerID keys objects i \<noteq> None" for i
    by (auto simp: transaction_def write_tables_def split: option.splits prod.splits sum.splits)
  show ?thesis
  proof (cases "register_cleanup env clock keys (in_deletions inst)")
    case (Some rows)
    obtain r store where "transaction env lower now st ownerID keys objects (inst\<lparr>in_deletions := rows\<rparr>) = Some (r, store)"
      using tx [of "inst\<lparr>in_deletions := rows\<rparr>"] by auto
    with None Some show ?thesis
      by (auto simp: ImportState_def Let_def split: prod.splits sum.splits import_error.splits)
  qed (simp add: ImportState_def None)
qed (simp add: ImportState_def)

text \<open>
  C22: An import takes effect completely or not at all, whichever statement fails, whichever object cannot be
  written and whether or not the answer to the commit arrives. Either the database has the
  prepared rows of the archive, the object store its objects, and the queue of deletions is as it
  was; or the database is unchanged, the answer is an error, and every object written lies below a key in
  the queue of deletions. The request always returns.
\<close>

theorem import_all_or_nothing:
  assumes "keeps_suffix lower"
  shows "\<exists>answer inst'. importState L rq env lower now clock userID v password inst = Some (answer, inst') \<and>
    (left_unchanged inst inst' \<and> (\<exists>e. answer = Inl e) \<or>
     (\<exists>st st' p. archive_Decrypt L v password = Inr st \<and> CheckStateImport st (in_db inst) = None \<and>
        prepare_import L rq st = Inr (st', p) \<and> took_effect env lower now st' userID (pp_objects p) inst inst'))"
proof (cases "readStateArchive L v password (in_db inst)")
  case (Inl e)
  then show ?thesis by (simp add: importState_def left_unchanged_def)
next
  case read: (Inr st)
  then have st: "archive_Decrypt L v password = Inr st" "CheckStateImport st (in_db inst) = None"
    by (auto simp: readStateArchive_def split: sum.splits option.splits if_splits)
  show ?thesis
  proof (cases "prepare_import L rq st")
    case (Inl e)
    with read show ?thesis by (simp add: importState_def left_unchanged_def)
  next
    case (Inr q)
    obtain st' p where q: "q = (st', p)" by (cases q)
    let ?keys = "sorted_keys (pp_dirs p)"
    obtain answer inst' where run: "ImportState env lower now clock st' userID ?keys (pp_objects p) inst = Some (answer, inst')"
      using ImportState_returns [OF assms] by (metis prod.collapse)
    have prepared: "prepare_artifacts L (rq_key rq) (rq_importID rq) (st_Objects st) (archive_rows st ''artifacts'') (rq_object_nonces rq) = Inr p"
      using Inr q by (auto simp: prepare_import_def split: sum.splits option.splits if_splits)
    from import_outcome [OF run prepared_covered [OF prepared]]
    have "took_effect env lower now st' userID (pp_objects p) inst inst' \<or> left_unchanged inst inst' \<and> answer \<noteq> None" .
    with st read Inr q run show ?thesis by (cases answer) (auto simp: importState_def)
  qed
qed

section \<open>An import\<close>

definition empty_archive :: archive_state where
  "empty_archive =
     \<lparr>st_Format = 1, st_Version = ''1'', st_CreatedAt = 0, st_Schema = ''s'', st_Tables = Some (map (\<lambda>t. (t, [])) transferTables),
      st_Credentials = [], st_Objects = []\<rparr>"

definition import_primitives :: primitives where
  "import_primitives = sample_primitives\<lparr>pl_read := \<lambda>s. Some (empty_archive, [])\<rparr>"

definition quiet_request :: request_env where
  "quiet_request =
     \<lparr>rq_key = ''k'', rq_valid_json = (\<lambda>v. True), rq_secret_nonces = [], rq_object_nonces = [], rq_importID = ''import_1'', rq_load = None,
      rq_bundled = None, rq_reload = True\<rparr>"

definition quiet_env :: import_env where
  "quiet_env =
     \<lparr>ie_fails = (\<lambda>stmt. False), ie_insert = (\<lambda>t r db. Some (db\<lparr>td_rows := (td_rows db)(t := td_rows db t @ [r])\<rparr>)),
      ie_put = (\<lambda>key. PutStored), ie_commit = Committed\<rparr>"

definition fresh_instance :: instance_state where
  "fresh_instance = \<lparr>in_db = \<lparr>td_rows = (\<lambda>t. []), td_schema = ''s''\<rparr>, in_deletions = [], in_objects = (\<lambda>k. None)\<rparr>"

definition archive_text :: string where
  "archive_text = magic @ replicate 16 CHR ''s'' @ replicate 12 CHR ''n'' @ ''{}'' @ replicate 16 CHR ''t''"

lemma quiet_read: "archive_Decrypt import_primitives archive_text ''correct horse'' = Inr empty_archive"
  by (simp add: archive_Decrypt_def archive_text_def import_primitives_def sample_primitives_def passwordKey_def NewCipher_def
      MaxBytes_def magic_def has_prefix_def Let_def empty_archive_def)

lemma empty_archive_tables: "tables_of empty_archive = map (\<lambda>t. (t, [])) transferTables"
  by (simp add: tables_of_def empty_archive_def)

lemma empty_archive_rows: "archive_rows empty_archive t = []"
  by (simp add: archive_rows_def empty_archive_tables map_of_map_keys split: option.split)
   (auto dest!: map_of_SomeD simp: List.map_filter_def)

lemma empty_archive_valid: "validateState empty_archive = None"
  unfolding validateState_accepts empty_archive_tables
  by (simp add: empty_archive_def transferTables_def archive_table_ok_def)

lemma quiet_prepared:
  "prepare_import import_primitives quiet_request empty_archive = Inr (empty_archive, \<lparr>pp_rows = [], pp_objects = [], pp_dirs = []\<rparr>)"
proof -
  have same: "put_table t [] empty_archive = empty_archive" if "t \<in> {''credentials'', ''artifacts''}" for t
    using that by (auto simp: put_table_def empty_archive_tables) (simp_all add: empty_archive_def transferTables_def)
  have "st_Credentials empty_archive = []" "st_Objects empty_archive = []" by (simp_all add: empty_archive_def)
  then show ?thesis
    by (simp add: prepare_import_def empty_archive_rows import_credentials_def prepare_artifacts_def check_packages_def
        quiet_request_def same)
qed

lemma quiet_import:
  "\<exists>inst'. importState import_primitives quiet_request quiet_env (\<lambda>s. s) JNull 0 ''usr_1'' archive_text ''correct horse'' fresh_instance =
     Some (Inr False, inst')"
proof -
  have check: "CheckStateImport empty_archive (in_db fresh_instance) = None"
    by (simp add: CheckStateImport_def empty_archive_valid transferFresh_def transferIdle_def active_def nonempty_def fresh_instance_def)
      (simp add: empty_archive_def)
  have "length archive_text \<le> MaxBytes" by (simp add: archive_text_def MaxBytes_def magic_def)
  then have read: "readStateArchive import_primitives archive_text ''correct horse'' (in_db fresh_instance) = Inr empty_archive"
    using check quiet_read by (simp add: readStateArchive_def)
  have begin1: "begin_import quiet_env empty_archive (in_db fresh_instance) = None"
    using check by (simp add: begin_import_def quiet_env_def CheckStateImport_def empty_archive_valid split: if_splits)
  have "table_rows (archive_rows empty_archive) = []" by (simp add: table_rows_def empty_archive_rows transferTables_def)
  then have written: "\<exists>db. write_tables quiet_env (\<lambda>s. s) JNull ''usr_1'' empty_archive (in_db fresh_instance) = Some (Inr db)"
    by (simp add: write_tables_def clear_table_def cleared_tables_def quiet_env_def prepare_tables_def empty_archive_rows SliceStable_def
        run_patches_def table_rows_def transferTables_def)
  then obtain db where db: "write_tables quiet_env (\<lambda>s. s) JNull ''usr_1'' empty_archive (in_db fresh_instance) = Some (Inr db)" ..
  have "register_cleanup quiet_env 0 (sorted_keys []) (in_deletions fresh_instance) = Some []"
    by (simp add: register_cleanup_def quiet_env_def sorted_keys_def sort_keys_def fresh_instance_def)
  moreover have "fresh_instance\<lparr>in_deletions := []\<rparr> = fresh_instance" by (simp add: fresh_instance_def)
  moreover have "ie_commit quiet_env = Committed" "ie_fails quiet_env CancelCleanup = False" by (simp_all add: quiet_env_def)
  ultimately show ?thesis
    by (simp add: importState_def read quiet_prepared ImportState_def empty_archive_valid transaction_def begin1 db empty_archive_rows)
qed

theorem import_all_or_nothing_witness:
  "\<exists>inst'. importState import_primitives quiet_request quiet_env (\<lambda>s. s) JNull 0 ''usr_1'' archive_text ''correct horse'' fresh_instance =
      Some (Inr False, inst') \<and>
    (\<exists>st st' p. archive_Decrypt import_primitives archive_text ''correct horse'' = Inr st \<and>
       CheckStateImport st (in_db fresh_instance) = None \<and> prepare_import import_primitives quiet_request st = Inr (st', p) \<and>
       took_effect quiet_env (\<lambda>s. s) JNull st' ''usr_1'' (pp_objects p) fresh_instance inst')"
proof -
  have "keeps_suffix (\<lambda>s. s)" by (auto simp: keeps_suffix_def)
  from import_all_or_nothing [OF this, of import_primitives quiet_request quiet_env JNull 0 "''usr_1''" archive_text "''correct horse''" fresh_instance]
    quiet_import show ?thesis by auto
qed

end
