(* ===== verification/StateContent.thy ===== *)
theory StateContent
  imports StateCommit
begin

text \<open>What an import that took effect has put into the tables.\<close>

section \<open>Inserted rows\<close>

text \<open>
  The law of the database: an accepted row is appended to its table, and no other imported table
  changes. Events are left out; the database numbers them anew.
\<close>

definition imported_tables :: "string set" where
  "imported_tables = set transferTables - {''audit_events''}"

definition insert_law :: "import_env \<Rightarrow> bool" where
  "insert_law env \<longleftrightarrow>
     (\<forall>t r db db'. ie_insert env t r db = Some db' \<longrightarrow>
        (\<forall>t' \<in> imported_tables. td_rows db' t' = td_rows db t' @ (if t' = t then [r] else [])))"

lemma insert_fold:
  assumes law: "insert_law env" and "fold_err (insert_row env now) trs db = Inr db'" and t: "t \<in> imported_tables"
  shows "td_rows db' t = td_rows db t @ map (\<lambda>(t', r). reset_connectivity now t' r) (filter (\<lambda>(t', r). t' = t) trs)"
  using assms(2)
proof (induction trs arbitrary: db)
  case (Cons tr trs)
  obtain t' r where tr: "tr = (t', r)" by (cases tr)
  from Cons.prems obtain db1 where step: "insert_row env now tr db = Inr db1"
    and rest: "fold_err (insert_row env now) trs db1 = Inr db'" by (auto split: sum.splits)
  from step tr have db1: "ie_insert env t' (reset_connectivity now t' r) db = Some db1"
    by (auto simp: insert_row_def split: option.splits)
  have "td_rows db1 t = td_rows db t @ (if t = t' then [reset_connectivity now t' r] else [])"
    using law db1 t unfolding insert_law_def by blast
  with Cons.IH [OF rest] tr show ?case by auto
qed simp

lemma filter_pairs: "filter (\<lambda>(t', r). t' = t) (map (Pair u) rs) = (if u = t then map (Pair u) rs else [])"
  by (induction rs) auto

lemma table_rows_of:
  assumes "t \<in> set ts" "distinct ts"
  shows "filter (\<lambda>(t', r). t' = t) (concat (map (\<lambda>t. map (Pair t) (tables t)) ts)) = map (Pair t) (tables t)"
proof -
  have none: "filter (\<lambda>(t', r). t' = t) (concat (map (\<lambda>t. map (Pair t) (tables t)) us)) = []" if "t \<notin> set us" for us
    using that by (auto simp: filter_empty_conv)
  from assms show ?thesis
  proof (induction ts)
    case (Cons u us)
    then show ?case by (cases "u = t") (simp_all add: filter_pairs none)
  qed simp
qed

lemma distinct_transferTables: "distinct transferTables"
  by (simp add: transferTables_def)

lemma inserted_rows:
  assumes "insert_law env" and "fold_err (insert_row env now) (table_rows tables) db = Inr db'" and t: "t \<in> imported_tables"
  shows "td_rows db' t = td_rows db t @ map (reset_connectivity now t) (tables t)"
proof -
  have "t \<in> set transferTables" using t by (simp add: imported_tables_def)
  from insert_fold [OF assms] table_rows_of [OF this distinct_transferTables, of tables] show ?thesis
    by (simp add: table_rows_def o_def)
qed

lemma cleared:
  assumes "fold_err (clear_table env) ts db = Inr db'"
  shows "td_rows db' t = (if t \<in> set ts then [] else td_rows db t)"
  using assms
proof (induction ts arbitrary: db)
  case (Cons u ts)
  from Cons.prems obtain db1 where step: "clear_table env u db = Inr db1"
    and rest: "fold_err (clear_table env) ts db1 = Inr db'" by (auto split: sum.splits)
  from step have "db1 = db\<lparr>td_rows := (td_rows db)(u := [])\<rparr>" by (auto simp: clear_table_def split: if_splits)
  with Cons.IH [OF rest] show ?case by auto
qed simp

section \<open>Restored references\<close>

definition patch_one :: "string \<times> string \<Rightarrow> row \<Rightarrow> row" where
  "patch_one p r = (if column r ''id'' = Some (fst p) then row_Set r ''cluster_resource_id'' (JStr (snd p)) else r)"

lemma restored:
  assumes "fold_err (restore_reference env) ps db = Inr db'"
  shows "td_rows db' = (td_rows db)(''pipeline_runs'' := map (fold patch_one ps) (td_rows db ''pipeline_runs''))"
  using assms
proof (induction ps arbitrary: db)
  case (Cons p ps)
  obtain k v where p: "p = (k, v)" by (cases p)
  have one: "update_where (\<lambda>r. column r ''id'' = Some k) (\<lambda>r. row_Set r ''cluster_resource_id'' (JStr v)) rows = map (patch_one p) rows" for rows
    by (simp add: update_where_def patch_one_def p)
  from Cons.prems obtain db1 where step: "restore_reference env p db = Inr db1"
    and rest: "fold_err (restore_reference env) ps db1 = Inr db'" by (auto split: sum.splits)
  from step p have "db1 = db\<lparr>td_rows := (td_rows db)(''pipeline_runs'' := map (patch_one p) (td_rows db ''pipeline_runs''))\<rparr>"
    by (auto simp: restore_reference_def one split: if_splits)
  with Cons.IH [OF rest] show ?case by (auto simp: o_def fun_eq_iff)
qed simp

lemma column_Set_other: "key \<noteq> key' \<Longrightarrow> column (row_Set r key v) key' = column r key'"
  by (simp add: column_def map_of_Set)

lemma fold_patch:
  assumes "distinct (map fst ps)" and "column r ''id'' = Some k"
  shows "fold patch_one ps r = (case map_of ps k of None \<Rightarrow> r | Some v \<Rightarrow> row_Set r ''cluster_resource_id'' (JStr v))"
  using assms
proof (induction ps arbitrary: r)
  case (Cons p ps)
  show ?case
  proof (cases "fst p = k")
    case True
    then have "map_of ps k = None" using Cons.prems(1) by (auto simp: map_of_eq_None_iff)
    moreover have "column (patch_one p r) ''id'' = Some k" using Cons.prems(2) by (simp add: patch_one_def column_Set_other)
    ultimately show ?thesis using Cons.IH [of "patch_one p r"] Cons.prems True by (cases p) (simp add: patch_one_def)
  next
    case False
    then have "patch_one p r = r" using Cons.prems(2) by (simp add: patch_one_def)
    with Cons False show ?thesis by (cases p) simp
  qed
qed simp

lemma map_filter_some: "None \<notin> set rows \<Longrightarrow> List.map_filter (\<lambda>e. e) rows = map the rows"
proof (induction rows)
  case (Cons a rows)
  then show ?case by (cases a) (simp_all add: List.map_filter_simps)
qed (simp add: List.map_filter_simps)

lemma archive_ids_distinct:
  assumes "validateState st = None" and "t \<in> set transferTables" and "list_all (\<lambda>r. row_String r ''id'' \<noteq> []) (archive_rows st t)"
  shows "distinct (map (\<lambda>r. row_String r ''id'') (archive_rows st t))"
proof -
  obtain rows where rows: "map_of (tables_of st) t = Some rows" "archive_table_ok t rows"
    using assms by (auto simp: validateState_accepts list_all_iff split: option.splits)
  then have none: "None \<notin> set rows" by (simp add: archive_table_ok_def)
  have archived: "archive_rows st t = map the rows" using rows(1) map_filter_some [OF none] by (simp add: archive_rows_def)
  have "map (\<lambda>e. case e of None \<Rightarrow> [] | Some r \<Rightarrow> row_String r ''id'') rows = map (\<lambda>r. row_String r ''id'') (archive_rows st t)"
    unfolding archived using none by (auto simp: o_def split: option.split)
  moreover have "filter (\<lambda>k. k \<noteq> []) (map (\<lambda>r. row_String r ''id'') (archive_rows st t)) = map (\<lambda>r. row_String r ''id'') (archive_rows st t)"
    using assms(3) by (auto simp: list_all_iff intro!: filter_True)
  ultimately show ?thesis using rows(2) by (simp add: archive_table_ok_def)
qed

lemma run_patch:
  assumes "distinct (map (\<lambda>r. row_String r ''id'') runs)" and "r \<in> set runs"
  shows "map_of (run_patches runs) (row_String r ''id'') = (if has_cluster r then Some (row_String r ''cluster_resource_id'') else None)"
  using assms by (induction runs) (auto simp: run_patches_def map_of_eq_None_iff image_iff)

lemma run_patches_distinct: "distinct (map (\<lambda>r. row_String r ''id'') runs) \<Longrightarrow> distinct (map fst (run_patches runs))"
  by (induction runs) (auto simp: run_patches_def)

lemma column_of_String: "row_String r key \<noteq> [] \<Longrightarrow> column r key = Some (row_String r key)"
  by (auto simp: row_String_def column_def split: option.splits json.splits)

definition adopted :: "string \<Rightarrow> row \<Rightarrow> row \<Rightarrow> bool" where
  "adopted ownerID r r' \<longleftrightarrow> map_of r' = (map_of r)(''owner_user_id'' \<mapsto> JStr ownerID)"

text \<open>The reference of a run to its cluster is missing, null or an identifier.\<close>

definition reference_ok :: "row \<Rightarrow> bool" where
  "reference_ok r \<longleftrightarrow> (case map_of r ''cluster_resource_id'' of Some JNull \<Rightarrow> True | Some (JStr k) \<Rightarrow> True | None \<Rightarrow> True | _ \<Rightarrow> False)"

lemma run_restored:
  assumes "distinct (map (\<lambda>r. row_String r ''id'') runs)" and r: "r \<in> set runs"
    and "row_String r ''id'' \<noteq> []" and "reference_ok r"
  shows "adopted ownerID r (fold patch_one (run_patches runs) (adopted_run ownerID r))"
proof -
  have "column (adopted_run ownerID r) ''id'' = Some (row_String r ''id'')"
    using column_of_String [OF assms(3)] by (simp add: adopted_run_def without_cluster_def column_Set_other)
  from fold_patch [OF run_patches_distinct [OF assms(1)] this] run_patch [OF assms(1) r]
  have result: "fold patch_one (run_patches runs) (adopted_run ownerID r) =
      (if has_cluster r then row_Set (adopted_run ownerID r) ''cluster_resource_id'' (JStr (row_String r ''cluster_resource_id'')) else adopted_run ownerID r)"
    by simp
  show ?thesis
  proof (cases "has_cluster r")
    case True
    then obtain k where k: "map_of r ''cluster_resource_id'' = Some (JStr k)"
      using assms(4) by (auto simp: has_cluster_def reference_ok_def split: option.splits json.splits)
    then have "row_String r ''cluster_resource_id'' = k" by (simp add: row_String_def)
    with True result k show ?thesis
      by (auto simp: adopted_def adopted_run_def without_cluster_def map_of_Set fun_eq_iff)
  next
    case False
    with result show ?thesis by (simp add: adopted_def adopted_run_def without_cluster_def map_of_Set)
  qed
qed

lemma written_tables:
  assumes law: "insert_law env" and run: "write_tables env lower now ownerID st db = Some (Inr db')" and t: "t \<in> imported_tables"
  shows "\<exists>tables. prepare_tables lower ownerID (archive_rows st) = Some (Inr tables) \<and>
    td_rows db' t = (let rows = (if t \<in> set cleared_tables then [] else td_rows db t) @ map (reset_connectivity now t) (tables t)
      in if t = ''pipeline_runs'' then map (fold patch_one (run_patches (archive_rows st t))) rows else rows)"
proof -
  obtain db1 tables db2 where steps: "fold_err (clear_table env) cleared_tables db = Inr db1"
    "prepare_tables lower ownerID (archive_rows st) = Some (Inr tables)"
    "fold_err (insert_row env now) (table_rows tables) db1 = Inr db2"
    "fold_err (restore_reference env) (run_patches (archive_rows st ''pipeline_runs'')) db2 = Inr db'"
    using run by (auto simp: write_tables_def split: sum.splits option.splits if_splits)
  show ?thesis
    using steps(2) inserted_rows [OF law steps(3) t] cleared [OF steps(1), of t] restored [OF steps(4)] by (auto simp: Let_def)
qed


section \<open>An import of a run\<close>

definition archived_run :: row where
  "archived_run = [(''id'', JStr ''run_1''), (''cluster_resource_id'', JStr ''res_1''), (''status'', JStr ''succeeded'')]"

definition run_archive :: archive_state where
  "run_archive = put_table ''pipeline_runs'' [archived_run] empty_archive"

lemma run_archive_tables: "map_of (tables_of run_archive) = (map_of (tables_of empty_archive))(''pipeline_runs'' \<mapsto> [Some archived_run])"
  by (simp add: run_archive_def put_table_def tables_of_def map_of_obj_set)

lemma run_archive_rows: "archive_rows run_archive t = (if t = ''pipeline_runs'' then [archived_run] else [])"
  using empty_archive_rows [of t] by (simp add: archive_rows_def run_archive_tables List.map_filter_simps)

lemma run_archive_valid: "validateState run_archive = None"
proof -
  have "length (tables_of run_archive) = length transferTables" "st_Format run_archive = 1"
    by (simp_all add: run_archive_def put_table_def tables_of_def empty_archive_def transferTables_def)
  moreover have "archive_table_ok ''pipeline_runs'' [Some archived_run]"
    by (simp add: archive_table_ok_def unfinished_def archived_run_def row_String_def)
  moreover have "map_of (tables_of empty_archive) t = Some []" "archive_table_ok t []" if "t \<in> set transferTables" for t
    using that by (auto simp: empty_archive_tables map_of_map_restrict archive_table_ok_def)
  ultimately show ?thesis unfolding validateState_accepts run_archive_tables by (auto simp: list_all_iff)
qed

lemma run_written: "\<exists>db. write_tables quiet_env (\<lambda>s. s) JNull ''usr_1'' run_archive (in_db fresh_instance) = Some (Inr db)"
  by (simp add: write_tables_def clear_table_def cleared_tables_def quiet_env_def prepare_tables_def run_archive_rows SliceStable_def
      run_patches_def table_rows_def transferTables_def insert_row_def restore_reference_def)


end
