(* ===== verification/Spec2Isabelle.thy ===== *)
theory Spec2Isabelle
  imports Workflows StageLife CoordinatorTrace Monitor ProvisioningApi Connectivity Placement WorkloadResources Access Maintenance PluginDescriptor StateContent
begin

text \<open>
  \<^bold>\<open>A verification of the workflow engine of KubePhos.\<close>

  KubePhos runs experiments on Kubernetes. A \<^emph>\<open>pipeline\<close> is a list of stages, each served by a plugin;
  a stage becomes an \<^emph>\<open>operation\<close>, a list of planned steps that a worker executes. Both are rows of a
  database that several processes share, so every step forward is a claim under a lease. The parts and how
  they meet:

  \<^item> \<open>internal/workflows\<close> checks a pipeline definition against the plugins' contracts when it is saved and
    resolves a stage when it starts. It calls \<open>internal/artifacts\<close> (typed inputs and outputs of plans),
    \<open>internal/schema\<close> (the schema dialect of plugin specifications) and the registry of \<open>internal/plugins\<close>.
  \<^item> \<open>internal/engine/pipelines.go\<close> is the coordinator: it claims a run, reads the operations of its stages,
    starts the stages that are ready, completes or fails the run and cleans its stages up.
  \<^item> \<open>internal/engine/worker.go\<close> is the worker: it claims an operation, and for each step prechecks, reserves,
    executes, verifies, stores outputs and, when a step fails, undoes it; a monitor renews the lease.
  \<^item> \<open>internal/storage\<close> is the database both work on; \<open>internal/api\<close> writes requests into it.
  \<^item> Around them: allocation of machines (\<open>internal/provisioning\<close>), checks of saved connections
    (\<open>internal/connectivity\<close>), placement and resources of workloads (\<open>internal/placement\<close>,
    \<open>internal/workloadresources\<close>), sharing, and deletion of experiments.

  \<^bold>\<open>Theories and sources.\<close>

  \<^item> \<open>KP_Prelude\<close>: Go's strings, \<open>strconv\<close> and \<open>fmt\<close> as far as they are used, loops that stop at the first
    error, tables as lists of rows with the locale \<open>keyed_update\<close> for updates that keep the key.
  \<^item> \<open>Domain\<close>, \<open>Json\<close>: the structs of \<open>domain/domain.go\<close> as records with the fields of the source, status
    constants as a datatype, JSON values and the documents of a \<open>json.RawMessage\<close>.
  \<^item> \<open>Schema\<close> (\<open>schema/validate.go\<close>), \<open>Artifacts\<close> (\<open>artifacts/contract.go\<close>, \<open>resourceidentity/ledger.go\<close>),
    \<open>Plugins\<close> (\<open>plugins/plugin.go\<close>), \<open>Workflows\<close> (\<open>workflows/*.go\<close>).
  \<^item> \<open>Scheduling\<close>: the pure decisions of the coordinator (\<open>engine/pipeline_scheduling.go\<close>,
    \<open>workflows/cleanup.go\<close>), with the locale \<open>stage_scheduler\<close> for what a scheduler promises.
  \<^item> \<open>Store\<close>: the tables; \<open>OperationStore\<close> and \<open>ManagedStore\<close> (\<open>storage/operations.go\<close>,
    \<open>storage/artifacts.go\<close>), \<open>Ledger\<close> (\<open>storage/managed_resources.go\<close>), \<open>RunStore\<close>
    (\<open>storage/pipelines.go\<close>, \<open>storage/experiment_initialization.go\<close>, the guards of the migrations).
    One definition per transaction; a failed transaction is \<open>Inl\<close> with the error the caller sees.
  \<^item> \<open>RunLife\<close>, \<open>StageLife\<close>: the transactions as step relations and what they preserve;
    \<open>Maintenance\<close>: the command that retries a cleanup (\<open>storage/experiment_cleanup.go\<close>).
  \<^item> \<open>Worker\<close>, \<open>WorkerTrace\<close>, \<open>Monitor\<close> (\<open>engine/worker.go\<close>, \<open>artifacts/seaweed.go\<close>) and
    \<open>Coordinator\<close>, \<open>CoordinatorTrace\<close> (\<open>engine/pipelines.go\<close>): state-monad programs and their traces.
  \<^item> \<open>Addresses\<close>, \<open>Provisioning\<close> (\<open>provisioning/allocation.go\<close>), \<open>ProvisioningApi\<close>
    (\<open>api/provisioning.go\<close>, \<open>storage/provisioning.go\<close>, the member loop of \<open>api/multiclusters.go\<close>).
  \<^item> \<open>Connectivity\<close> (\<open>connectivity/probe.go\<close>, \<open>engine/connectivity.go\<close>, \<open>storage/connectivity.go\<close>),
    \<open>Placement\<close> (\<open>placement/settings.go\<close>, the node patch of \<open>plugins/k3s/runtime/node_settings.go\<close>),
    \<open>WorkloadResources\<close> (\<open>workloadresources/resources.go\<close>), \<open>Access\<close> (\<open>storage/sharing.go\<close>,
    \<open>storage/requests.go\<close> and their handlers), \<open>Deletion\<close> (\<open>storage/experiment_deletion.go\<close>,
    \<open>DeleteExperiment\<close>, \<open>storage/artifact_deletions.go\<close>).
  \<^item> Plugins at run time: \<open>Patterns\<close> (Go's regular expressions by derivatives, with their languages),
    \<open>PluginOutput\<close> (what is kept of the output of a process), \<open>PluginRefs\<close> (references in an input),
    \<open>PluginRunner\<close> (\<open>plugins/docker.go\<close>), \<open>PluginProcess\<close> and \<open>PluginDescriptor\<close>
    (\<open>plugins/process.go\<close>), with the locales \<open>bounded_runner\<close> (what a container runner promises) and
    \<open>resolution\<close> (a loop that resolves references, interpreted for connections, applications and secrets).
  \<^item> Transfer of an instance: \<open>StateArchive\<close> (\<open>secrets/vault.go\<close>, \<open>transfer/archive.go\<close>),
    \<open>StateTransfer\<close> (the export of \<open>storage/transfer.go\<close>), \<open>StateImport\<close> (secrets and objects in
    \<open>api/transfer.go\<close>), \<open>StateRows\<close> (checks of an archive and names), \<open>StateCommit\<close> (\<open>ImportState\<close> and its
    request), \<open>StateContent\<close> (what an import leaves in the tables).

  \<^bold>\<open>How code becomes definitions.\<close> A struct is a record whose fields carry a prefix and the source's name;
  an error is a value of a sum or option type; a Go map is an association list in iteration order or a map;
  a machine word is a word where its width matters (addresses, RPC replies). A transaction reads and
  writes the whole database at once: the statements of the source run in one transaction or are single
  statements, and locks make them atomic. Where the source reads without a lock (the candidates of a claim)
  the model takes a second, older database to choose from.

  The worker and the coordinator are programs over a state that holds the database, the world, a clock and
  a trace. Their environment \<open>Env\<close> is a parameter: what a plugin answers, what the object store and the
  vault do, which database call fails, and what other processes do to the database between two calls. Every
  theorem about them holds for every environment. The trace records plugin calls, transactions and
  observations in their order; the safety theorems are about all traces.

  \<^bold>\<open>What is shown.\<close>

  \<^item> \<open>Scheduling\<close>: the stages started are exactly those of a direct reference definition, never more than the
    limit, and a run without active or failed stages has finished or has a stage to start; the cleanup
    order is the reverse of the start order except that network shaping is undone first, and a cleanup plan
    undoes exactly the finished mutating steps, latest first.
  \<^item> Run and stage store: running runs exclude each other per owner, cluster and namespace; each
    transaction refines a small lease machine; a stage keeps its operation; a run completes only with
    succeeded stages. An operation is claimed by one worker, and reservations of provider resources are
    exclusive.
  \<^item> Worker and coordinator: a step runs only after its precheck and reservation and is undone when it fails
    later; an operation completes only after all health gates; stages start in turn, a run completes with its
    verified result, fails only when its operations have ended, and cleanups run in order. The monitor
    keeps a lease through two failed renewals.
  \<^item> Validation: the validators of schemas, plans and pipelines decide exactly their declarative
    conditions; an accepted pipeline is ordered, resolved and well typed.
  \<^item> Provisioning: \<open>Validate\<close> decides, suggestions are valid, the gap search ends with the least gap,
    addresses round-trip, and saved ranges are disjoint (through the locale \<open>admission\<close>).
  \<^item> The other components: confirmed failures and spaced checks, safe parsing of NFS replies for every byte
    string, reconciled node settings that converge in one patch, buildable resources, exact sharing, and
    deletion that keeps every artifact still referred to and removes the largest set that can go.
  \<^item> Plugins at run time: a descriptor is accepted exactly when it satisfies the declarative contract; a
    plugin receives only values that its permissions grant and its input refers to; a container is
    started only for a pinned image of an allowed registry on a rootless executor, with the confining
    options; the log of a plugin stays within its limits.
  \<^item> Transfer: the export ends and holds exactly the rows reachable from the roots; archives round-trip;
    credentials and artifacts survive the change of the vault. An import takes effect completely or
    not at all, under every failure of a statement, of the object store or of the commit's answer; it restores
    the rows of the archive and finds free names for configurations.
  \<^item> Some theorems show behaviour of the code that its authors may not intend: a rejected definition without
    an issue is accepted, a maintained cluster blocks the queue, a pipeline that cannot be read fails its run
    at once, and large machine identifiers are not reserved.

  \<^bold>\<open>Loops, bounds and fuel.\<close> All loops but two are total functions: structural recursion over lists, or a
  \<open>function\<close> with a measure (the gap search by what is left of the range, the retaining loop by its list, the
  closure of derived operations by the operations not yet found). The export
  loop of a transfer and the search for a free name are \<open>partial_function\<close>s, and theorems show that they
  return. No definition uses
  fuel. The polling loops
  of the processes are modelled one round at a time; the theorems over rounds and processes are about
  arbitrary sequences of transactions. Time is a natural number of seconds that environments may choose.

  \<^bold>\<open>Not modelled.\<close> What plugins do with clusters (SSH, \<open>kubectl\<close>), docker, skopeo, the file system, the
  object store, ciphers and the network appear only as parameters. Goroutines and cancellation appear as interleaved transactions and
  as failing calls. HTTP routing, sessions, catalogs, the construction of experiment pipelines, listings for the user interface, the command line, the cluster components and the frontend are
  left out. Columns that nothing decides by (most timestamps and descriptions) are left out of the tables.
  \<open>json.RawMessage\<close> texts that denote the same document are identified, as the database's \<open>jsonb\<close> does
  up to the order of keys; SQL text comparison follows byte order unless a collation is a parameter.
\<close>

end
